(* ===== verification/Nexus_Prelude.thy ===== *)
theory Nexus_Prelude
  imports Main
begin

text \<open>
  Shared vocabulary of the development: the error monad in which fallible Go code is written,
  the statements a SQL table understands (select one row, guarded update of rows), sums over
  keyed tables, and the generic lemmas that carry the component proofs.

  A table is a list of rows. A statement that fails returns \<open>Inl\<close> of the SQL error; Go code
  that wraps an error keeps it as a value. A transaction that fails leaves the database as it
  was (\<open>run_tx\<close>).
\<close>

named_theorems go_simps \<open>rewriting rules for the error monad and the table statements\<close>

type_synonym id = string

subsection \<open>Errors as values\<close>

definition bindE :: "'e + 'a \<Rightarrow> ('a \<Rightarrow> 'e + 'b) \<Rightarrow> 'e + 'b" where
  "bindE m f = (case m of Inl e \<Rightarrow> Inl e | Inr a \<Rightarrow> f a)"

lemma bindE_simps [simp, go_simps]:
  "bindE (Inl e) f = Inl e"
  "bindE (Inr a) f = f a"
  by (simp_all add: bindE_def)

lemma bindE_Inr_iff: "bindE m f = Inr b \<longleftrightarrow> (\<exists>a. m = Inr a \<and> f a = Inr b)"
  by (cases m) simp_all

lemma bindE_InrE [elim!]:
  assumes "bindE m f = Inr b"
  obtains a where "m = Inr a" and "f a = Inr b"
  using assms by (auto simp: bindE_Inr_iff)

lemma bindE_Inl_iff: "bindE m f = Inl e \<longleftrightarrow> m = Inl e \<or> (\<exists>a. m = Inr a \<and> f a = Inl e)"
  by (cases m) simp_all

lemma bindE_cong [fundef_cong]:
  "m = m' \<Longrightarrow> (\<And>a. m' = Inr a \<Longrightarrow> f a = g a) \<Longrightarrow> bindE m f = bindE m' g"
  by (cases m') simp_all

definition mapErr :: "('e \<Rightarrow> 'f) \<Rightarrow> 'e + 'a \<Rightarrow> 'f + 'a" where
  "mapErr h m = (case m of Inl e \<Rightarrow> Inl (h e) | Inr a \<Rightarrow> Inr a)"

lemma mapErr_simps [simp, go_simps]:
  "mapErr h (Inl e) = Inl (h e)"
  "mapErr h (Inr a) = Inr a"
  by (simp_all add: mapErr_def)

lemma mapErr_eq_Inr [simp]: "mapErr h m = Inr a \<longleftrightarrow> m = Inr a"
  by (cases m) simp_all

definition guardE :: "'e \<Rightarrow> bool \<Rightarrow> 'e + unit" where
  "guardE e b = (if b then Inr () else Inl e)"

lemma guardE_simps [simp, go_simps]:
  "guardE e True = Inr ()"
  "guardE e False = Inl e"
  "guardE e b = Inr u \<longleftrightarrow> b"
  by (simp_all add: guardE_def)

text \<open>
  \<open>defer tx.Rollback()\<close>: a body that returns an error leaves the database untouched; a body
  that commits installs the new one.
\<close>

definition run_tx :: "'s \<Rightarrow> ('e + 'a \<times> 's) \<Rightarrow> ('e + 'a) \<times> 's" where
  "run_tx s m = (case m of Inl e \<Rightarrow> (Inl e, s) | Inr (a, s') \<Rightarrow> (Inr a, s'))"

lemma run_tx_simps [simp, go_simps]:
  "run_tx s (Inl e) = (Inl e, s)"
  "run_tx s (Inr (a, s')) = (Inr a, s')"
  by (simp_all add: run_tx_def)

lemma run_tx_error: "fst (run_tx s m) = Inl e \<Longrightarrow> snd (run_tx s m) = s"
  by (auto simp: run_tx_def split: sum.splits)

lemma run_tx_ok: "run_tx s m = (Inr a, s') \<longleftrightarrow> m = Inr (a, s')"
  by (auto simp: run_tx_def split: sum.splits)

subsection \<open>SQL statements on tables\<close>

datatype sql_error =
    SqlDown               \<comment> \<open>the driver or the connection failed\<close>
  | SqlNoRows             \<comment> \<open>\<open>sql.ErrNoRows\<close>\<close>
  | SqlDuplicateKey       \<comment> \<open>a unique constraint is violated\<close>
  | SqlCheckViolation     \<comment> \<open>a CHECK constraint is violated\<close>
  | SqlForeignKey         \<comment> \<open>a foreign key points nowhere\<close>
  | SqlNumericOverflow    \<comment> \<open>a value does not fit its NUMERIC column\<close>
  | SqlRaise              \<comment> \<open>a trigger raised an exception\<close>

text \<open>
  Any statement can fail for reasons outside the data. A fault plan says which statements of a
  call do, by the label of the statement.
\<close>

type_synonym faults = "string \<Rightarrow> bool"

abbreviation (input) no_faults :: faults where
  "no_faults \<equiv> (\<lambda>_. False)"

definition stmt :: "faults \<Rightarrow> string \<Rightarrow> sql_error + 'a \<Rightarrow> sql_error + 'a" where
  "stmt flt lbl r = (if flt lbl then Inl SqlDown else r)"

lemma stmt_eq_Inr [simp]: "stmt flt lbl r = Inr a \<longleftrightarrow> \<not> flt lbl \<and> r = Inr a"
  by (simp add: stmt_def)

lemma stmt_no_faults [simp, go_simps]: "\<not> flt lbl \<Longrightarrow> stmt flt lbl r = r"
  by (simp add: stmt_def)

definition select1 :: "('r \<Rightarrow> bool) \<Rightarrow> 'r list \<Rightarrow> sql_error + 'r" where
  "select1 p rs = (case find p rs of None \<Rightarrow> Inl SqlNoRows | Some r \<Rightarrow> Inr r)"

lemma select1_eq_Inr: "select1 p rs = Inr r \<longleftrightarrow> find p rs = Some r"
  by (simp add: select1_def split: option.splits)

lemma select1_InrD: "select1 p rs = Inr r \<Longrightarrow> r \<in> set rs \<and> p r"
  by (auto simp: select1_eq_Inr find_Some_iff)

lemma select1_no_rows: "select1 p rs = Inl e \<longleftrightarrow> e = SqlNoRows \<and> (\<forall>r\<in>set rs. \<not> p r)"
  by (auto simp: select1_def find_None_iff find_Some_iff split: option.splits)

text \<open>\<open>UPDATE ... WHERE p\<close>: every matching row is rewritten, or the whole statement fails.\<close>

fun update_rows :: "('r \<Rightarrow> bool) \<Rightarrow> ('r \<Rightarrow> sql_error + 'r) \<Rightarrow> 'r list \<Rightarrow> sql_error + 'r list" where
  "update_rows p f [] = Inr []"
| "update_rows p f (r # rs) =
     bindE (if p r then f r else Inr r) (\<lambda>r'.
     bindE (update_rows p f rs) (\<lambda>rs'. Inr (r' # rs')))"

lemma update_rows_total:
  "update_rows p (\<lambda>r. Inr (f r)) rs = Inr (map (\<lambda>r. if p r then f r else r) rs)"
  by (induction rs) auto

lemma update_rows_eq_map:
  "\<forall>r\<in>set rs. p r \<longrightarrow> f r = Inr (g r) \<Longrightarrow>
     update_rows p f rs = Inr (map (\<lambda>r. if p r then g r else r) rs)"
  by (induction rs) auto

lemma update_rows_none: "\<forall>r\<in>set rs. \<not> p r \<Longrightarrow> update_rows p f rs = Inr rs"
  by (induction rs) auto

lemma update_rows_pointwise:
  "update_rows p f rs = Inr rs' \<Longrightarrow>
     list_all2 (\<lambda>r r'. (if p r then f r else Inr r) = Inr r') rs rs'"
proof (induction rs arbitrary: rs')
  case (Cons r rs)
  from Cons.prems obtain r' ts where "update_rows p f rs = Inr ts" "rs' = r' # ts"
    and "(if p r then f r else Inr r) = Inr r'"
    by auto
  with Cons.IH show ?case by simp
qed simp

lemma update_rows_keeps:
  assumes "update_rows p f rs = Inr rs'"
    and "\<And>r r'. r \<in> set rs \<Longrightarrow> p r \<Longrightarrow> f r = Inr r' \<Longrightarrow> k r' = k r"
  shows "map k rs' = map k rs"
  using assms
proof (induction rs arbitrary: rs')
  case (Cons r rs)
  from Cons.prems(1) obtain r' ts where ts: "update_rows p f rs = Inr ts" "rs' = r' # ts"
    and r': "(if p r then f r else Inr r) = Inr r'"
    by auto
  from Cons.IH [OF ts(1)] Cons.prems(2) have "map k ts = map k rs" by simp
  moreover from r' Cons.prems(2) [of r r'] have "k r' = k r" by (simp split: if_splits)
  ultimately show ?case using ts(2) by simp
qed simp

lemma update_rows_memberE:
  assumes "update_rows p f rs = Inr rs'" and "r' \<in> set rs'"
  obtains r where "r \<in> set rs" and "(if p r then f r else Inr r) = Inr r'"
proof -
  from update_rows_pointwise [OF assms(1)] assms(2)
  have "\<exists>r\<in>set rs. (if p r then f r else Inr r) = Inr r'"
    unfolding list_all2_conv_all_nth in_set_conv_nth by (metis nth_mem)
  with that show thesis by blast
qed

lemma update_rows_InlE:
  assumes "update_rows p f rs = Inl e"
  obtains r where "r \<in> set rs" and "p r" and "f r = Inl e"
proof -
  from assms have "\<exists>r\<in>set rs. p r \<and> f r = Inl e"
    by (induction rs) (auto simp: bindE_Inl_iff split: if_splits)
  with that show thesis by blast
qed

subsection \<open>Faults only cut a transaction short\<close>

text \<open>
  \<open>cut m m0\<close>: the run \<open>m\<close> either stopped with an error or is the undisturbed run \<open>m0\<close>. The rules
  carry this through the error monad, so that a transaction under any fault plan leaves the old
  database or does all of its work.
\<close>

named_theorems cut_intros \<open>rules that compare a run under faults with the undisturbed run\<close>

definition cut :: "'e + 'a \<Rightarrow> 'e + 'a \<Rightarrow> bool" where
  "cut m m0 \<longleftrightarrow> (\<exists>e. m = Inl e) \<or> m = m0"

lemma cut_refl [cut_intros]: "cut m m"
  by (simp add: cut_def)

lemma cut_bindE [cut_intros]: "cut m m0 \<Longrightarrow> (\<And>a. cut (f a) (g a)) \<Longrightarrow> cut (bindE m f) (bindE m0 g)"
  by (auto simp: cut_def bindE_def split: sum.splits)

lemma cut_if [cut_intros]:
  "(b \<Longrightarrow> cut m m0) \<Longrightarrow> (\<not> b \<Longrightarrow> cut n n0) \<Longrightarrow> cut (if b then m else n) (if b then m0 else n0)"
  by simp

lemma cut_stmt [cut_intros]: "cut (stmt flt lbl r) (stmt (\<lambda>_. False) lbl r)"
  by (simp add: cut_def stmt_def)

lemma cut_mapErr [cut_intros]: "cut m m0 \<Longrightarrow> cut (mapErr h m) (mapErr h m0)"
  by (auto simp: cut_def mapErr_def)

lemma cut_run_tx:
  "cut m m0 \<Longrightarrow> run_tx s m = run_tx s m0 \<or> (\<exists>e. run_tx s m = (Inl e, s))"
  by (auto simp: cut_def)

subsection \<open>Keyed tables\<close>

text \<open>
  Rewriting the row with key \<open>k\<close>. Where the keys are distinct this is what a guarded UPDATE by
  primary key does, and a sum over the table changes by the difference of that one row.
\<close>

definition put_row :: "('r \<Rightarrow> 'k) \<Rightarrow> 'r \<Rightarrow> 'r list \<Rightarrow> 'r list" where
  "put_row key r' rs = map (\<lambda>r. if key r = key r' then r' else r) rs"

lemma map_key_put_row [simp]: "map key (put_row key r' rs) = map key rs"
  by (simp add: put_row_def)

lemma length_put_row [simp]: "length (put_row key r' rs) = length rs"
  by (simp add: put_row_def)

lemma map_other_put_row:
  "(\<And>r. r \<in> set rs \<Longrightarrow> key r = key r' \<Longrightarrow> g r = g r') \<Longrightarrow> map g (put_row key r' rs) = map g rs"
  by (auto simp: put_row_def)

lemma find_key_put_row:
  "find (\<lambda>r. key r = k) (put_row key r' rs) =
     (if k = key r' then (if key r' \<in> set (map key rs) then Some r' else None)
      else find (\<lambda>r. key r = k) rs)"
  by (induction rs) (auto simp: put_row_def)

lemma set_put_row_subset: "set (put_row key r' rs) \<subseteq> insert r' (set rs)"
  by (auto simp: put_row_def)

lemma in_set_put_row:
  "r \<in> set rs \<Longrightarrow> key r \<noteq> key r' \<Longrightarrow> r \<in> set (put_row key r' rs)"
  by (force simp: put_row_def)

lemma put_row_in_set: "key r' \<in> set (map key rs) \<Longrightarrow> r' \<in> set (put_row key r' rs)"
  by (force simp: put_row_def)

lemma ball_put_row:
  "P r' \<Longrightarrow> (\<And>r. r \<in> set rs \<Longrightarrow> key r \<noteq> key r' \<Longrightarrow> P r) \<Longrightarrow> \<forall>r\<in>set (put_row key r' rs). P r"
  by (auto simp: put_row_def)

lemma distinct_key_unique:
  "distinct (map key rs) \<Longrightarrow> r \<in> set rs \<Longrightarrow> s \<in> set rs \<Longrightarrow> key r = key s \<Longrightarrow> r = s"
  by (auto simp: distinct_map inj_on_def)

lemma map_put_row_same:
  assumes "distinct (map key rs)" and "r \<in> set rs" and "key r' = key r" and "g r' = g r"
  shows "map g (put_row key r' rs) = map g rs"
  using assms by (intro map_other_put_row) (metis distinct_key_unique)

lemma find_key_distinct:
  "distinct (map key rs) \<Longrightarrow> r \<in> set rs \<Longrightarrow> find (\<lambda>s. key s = key r) rs = Some r"
  by (induction rs) (auto simp: image_iff)

lemma update_rows_key:
  assumes "distinct (map key rs)" and "r \<in> set rs" and "p r" and "f r = Inr r'"
    and "key r' = key r" and "\<And>s. s \<in> set rs \<Longrightarrow> p s \<Longrightarrow> key s = key r"
  shows "update_rows p f rs = Inr (put_row key r' rs)"
proof -
  have "\<forall>s\<in>set rs. p s \<longrightarrow> f s = Inr r'"
    using assms distinct_key_unique by metis
  then have "update_rows p f rs = Inr (map (\<lambda>s. if p s then r' else s) rs)"
    by (rule update_rows_eq_map)
  moreover have "\<forall>s\<in>set rs. p s \<longleftrightarrow> key s = key r'"
    using assms distinct_key_unique by metis
  ultimately show ?thesis by (simp add: put_row_def cong: map_cong)
qed

lemma update_rows_single:
  assumes "distinct (map key rs)" and "r \<in> set rs" and "p r"
    and "\<And>s. s \<in> set rs \<Longrightarrow> p s \<Longrightarrow> key s = key r"
    and "\<And>r'. f r = Inr r' \<Longrightarrow> key r' = key r"
  shows "update_rows p f rs = bindE (f r) (\<lambda>r'. Inr (put_row key r' rs))"
proof (cases "f r")
  case (Inr r')
  have "update_rows p f rs = Inr (put_row key r' rs)"
    using assms(1-3) Inr assms(5) [OF Inr] assms(4) by (rule update_rows_key)
  with Inr show ?thesis by simp
next
  case (Inl e)
  have only: "s = r" if "s \<in> set rs" "p s" for s
    using assms(1,2,4) that by (blast intro: distinct_key_unique)
  have "update_rows p f rs \<noteq> Inr rs'" for rs'
  proof
    assume "update_rows p f rs = Inr rs'"
    from update_rows_pointwise [OF this] assms(2) obtain r' where "(if p r then f r else Inr r) = Inr r'"
      unfolding list_all2_conv_all_nth in_set_conv_nth by auto
    with assms(3) Inl show False by simp
  qed
  then obtain e' where e': "update_rows p f rs = Inl e'" by (cases "update_rows p f rs") auto
  then obtain s where "s \<in> set rs" "p s" "f s = Inl e'" by (rule update_rows_InlE)
  with only [of s] Inl e' have "update_rows p f rs = Inl e" by simp
  with Inl show ?thesis by simp
qed

lemma sum_list_put_row:
  fixes g :: "'r \<Rightarrow> int"
  assumes "distinct (map key rs)" and "r \<in> set rs" and "key r' = key r"
  shows "sum_list (map g (put_row key r' rs)) = sum_list (map g rs) - g r + g r'"
  using assms
proof (induction rs)
  case (Cons s rs)
  show ?case
  proof (cases "s = r")
    case True
    with Cons.prems have "\<forall>t\<in>set rs. key t \<noteq> key r'" by (auto simp: image_iff)
    then have "put_row key r' rs = rs" by (simp add: put_row_def map_idI)
    with True Cons.prems(3) show ?thesis by (simp add: put_row_def)
  next
    case False
    with Cons.prems have "r \<in> set rs" and "key s \<noteq> key r'" by (auto simp: image_iff)
    with Cons.IH Cons.prems show ?thesis by (simp add: put_row_def)
  qed
qed simp

lemma sum_list_map_nonneg: "(\<And>x. x \<in> set xs \<Longrightarrow> (0::int) \<le> g x) \<Longrightarrow> 0 \<le> sum_list (map g xs)"
  by (induction xs) auto

lemma member_le_sum_list_map:
  "x \<in> set xs \<Longrightarrow> (\<And>y. y \<in> set xs \<Longrightarrow> (0::int) \<le> g y) \<Longrightarrow> g x \<le> sum_list (map g xs)"
proof (induction xs)
  case (Cons y ys)
  have "0 \<le> sum_list (map g ys)" using Cons.prems by (auto intro: sum_list_map_nonneg)
  moreover have "0 \<le> g y" using Cons.prems by simp
  moreover have "x \<noteq> y \<Longrightarrow> g x \<le> sum_list (map g ys)" using Cons by simp
  ultimately show ?case by (cases "x = y") auto
qed simp

subsection \<open>\<open>ORDER BY\<close> and \<open>LIMIT\<close>\<close>

lemma sort_key_hd_least:
  assumes "sort_key f xs = y # ys"
  shows "y \<in> set xs" and "z \<in> set xs \<Longrightarrow> f y \<le> f z"
proof -
  have set: "set (y # ys) = set xs" using assms by (metis set_sort)
  then show "y \<in> set xs" by auto
  have "sorted (map f (y # ys))" using sorted_sort_key [of f xs] by (simp only: assms)
  then show "f y \<le> f z" if "z \<in> set xs" using that set by auto
qed

lemma sort_key_eq_Nil: "sort_key f xs = [] \<longleftrightarrow> xs = []"
  by (metis length_0_conv length_sort)

lemma sort_key_take_before:
  assumes "x \<in> set (take k (sort_key f xs))" and "y \<in> set xs" and "y \<notin> set (take k (sort_key f xs))"
  shows "f x \<le> f y"
proof -
  let ?s = "sort_key f xs"
  have "y \<in> set (drop k ?s)"
    using assms(2,3) by (metis append_take_drop_id Un_iff set_append set_sort)
  moreover have "sorted (map f (take k ?s @ drop k ?s))" by simp
  ultimately show ?thesis using assms(1) unfolding map_append sorted_append by auto
qed

end
