(* ===== verification/Billing_Schema.thy ===== *)
theory Billing_Schema
  imports Nexus_Prelude
begin

text \<open>
  The billing data model: the enumerations and structs of \<open>internal/billing/types.go\<close>, the
  tables and constraints of migrations 054 and 055 that the billing code writes, the cost
  arithmetic (\<open>ComputeCost\<close>, \<open>MaxEstimatedCost\<close>), the pricing snapshot of \<open>pricing.go\<close> and the
  account resolution of \<open>accounts.go\<close>.

  Money. \<open>decimal.Decimal\<close> is exact; every amount the code computes is an integer multiple of
  a rate with ten decimal places, so a \<open>decimal\<close> is the integer number of \<open>10\<^sup>-\<^sup>1\<^sup>0\<close> currency
  units. A NUMERIC(16,8) column keeps eight places: PostgreSQL rounds the assigned value half
  away from zero and refuses a value of \<open>10\<^sup>8\<close> units or more.
\<close>

subsection \<open>Enumerations\<close>

datatype auth_status = AuthStatusActive | AuthStatusCommitted | AuthStatusReleased | AuthStatusExpired

datatype exec_status = ExecPending | ExecRunning | ExecCompleted | ExecPartial | ExecFailed | ExecUnknown

datatype billing_status =
    BillingNotApplicable | BillingPending | BillingReserved | BillingCommitted | BillingReleased
  | BillingDisputed

datatype wallet_entry_type =
    LedgerTopup | LedgerDebit | LedgerRelease | LedgerAdjustment | LedgerUnplannedDebit

datatype credit_entry_type =
    CreditLedgerAuthorized | CreditLedgerSettled | CreditLedgerReleased | CreditLedgerCycleReset
  | CreditLedgerAdjustment

datatype account_type = AccountTypePrepaid | AccountTypePostpaid | AccountTypeOther string

datatype expiry_policy = PolicyBestEffort | PolicyWriteOff

datatype account_status = AccountActive | AccountSuspended | AccountClosed

subsection \<open>Money\<close>

type_synonym decimal = int

definition round8 :: "decimal \<Rightarrow> decimal" where
  "round8 x = sgn x * ((\<bar>x\<bar> + 50) div 100) * 100"

definition numeric_16_8 :: "decimal \<Rightarrow> sql_error + decimal" where
  "numeric_16_8 x = (if \<bar>round8 x\<bar> < 1000000000000000000 then Inr (round8 x) else Inl SqlNumericOverflow)"

definition on_grid :: "decimal \<Rightarrow> bool" where
  "on_grid x \<longleftrightarrow> x mod 100 = 0"

subsection \<open>Structs of types.go\<close>

record pricing_snapshot =
  PricingID :: id
  InputRate :: decimal
  OutputRate :: decimal
  CachedRate :: decimal
  SnapCurrency :: string
  ResolvedAt :: int

record token_counts =
  InputTokens :: int
  OutputTokens :: int
  CachedTokens :: int
  ReasoningTokens :: int

subsection \<open>Tables\<close>

record billing_account =
  ba_id :: id
  ba_org :: id
  ba_type :: account_type
  ba_status :: account_status
  ba_created :: int

record wallet =
  w_id :: id
  w_account :: id
  w_currency :: string
  w_balance :: decimal
  w_reserved :: decimal
  w_version :: int

record credit_account =
  c_id :: id
  c_account :: id
  c_currency :: string
  c_limit :: decimal
  c_exposure :: decimal
  c_settled :: decimal
  c_version :: int

record wallet_entry =
  wl_wallet :: id
  wl_type :: wallet_entry_type
  wl_amount :: decimal
  wl_usage :: "id option"
  wl_auth :: "id option"
  wl_description :: string

record credit_entry =
  cl_credit :: id
  cl_type :: credit_entry_type
  cl_amount :: decimal
  cl_usage :: "id option"
  cl_auth :: "id option"
  cl_description :: string

record authorization =
  au_id :: id
  au_usage :: id
  au_account :: id
  au_type :: account_type
  au_estimated :: decimal
  au_actual :: "decimal option"
  au_currency :: string
  au_status :: auth_status
  au_expires_at :: int
  au_committed_at :: "int option"
  au_released_at :: "int option"
  au_expired_at :: "int option"

record inference_usage =
  iu_id :: id
  iu_request :: string
  iu_project :: "id option"
  iu_account :: "id option"
  iu_input_rate :: decimal
  iu_output_rate :: decimal
  iu_cached_rate :: decimal
  iu_exec :: exec_status
  iu_billing :: billing_status
  iu_input :: int
  iu_output :: int
  iu_cached :: int
  iu_total_cost :: decimal
  iu_currency :: string
  iu_billable :: bool
  iu_finish :: string
  iu_started_at :: int
  iu_completed_at :: "int option"

record completion =
  ic_usage :: id
  ic_source :: string
  ic_input :: int
  ic_output :: int
  ic_cached :: int
  ic_finish :: "string option"

record billing_db =
  accounts :: "billing_account list"
  wallets :: "wallet list"
  credits :: "credit_account list"
  wallet_ledger :: "wallet_entry list"
  credit_ledger :: "credit_entry list"
  auths :: "authorization list"
  usages :: "inference_usage list"
  completions :: "completion list"

subsection \<open>Constraints of the migrations\<close>

definition wallet_check :: "wallet \<Rightarrow> bool" where
  "wallet_check w \<longleftrightarrow> 0 \<le> w_balance w \<and> 0 \<le> w_reserved w \<and> w_reserved w \<le> w_balance w"

definition credit_check :: "credit_account \<Rightarrow> bool" where
  "credit_check c \<longleftrightarrow> 0 \<le> c_limit c \<and> 0 \<le> c_exposure c"

definition usage_check :: "inference_usage \<Rightarrow> bool" where
  "usage_check u \<longleftrightarrow>
     (iu_billable u \<longrightarrow> iu_account u \<noteq> None) \<and>
     (iu_exec u \<in> {ExecCompleted, ExecPartial, ExecFailed, ExecUnknown} \<longrightarrow> iu_completed_at u \<noteq> None) \<and>
     0 \<le> iu_input u \<and> 0 \<le> iu_output u \<and> 0 \<le> iu_cached u"

fun terminal_auth :: "auth_status \<Rightarrow> bool" where
  "terminal_auth AuthStatusActive = False"
| "terminal_auth _ = True"

definition fn_guard_auth_transition :: "authorization \<Rightarrow> authorization \<Rightarrow> sql_error + authorization" where
  "fn_guard_auth_transition old new =
     (if terminal_auth (au_status old) \<and> au_status new \<noteq> au_status old then Inl SqlRaise else Inr new)"

fun terminal_exec :: "exec_status \<Rightarrow> bool" where
  "terminal_exec ExecPending = False"
| "terminal_exec ExecRunning = False"
| "terminal_exec _ = True"

definition fn_guard_execution_transition ::
    "inference_usage \<Rightarrow> inference_usage \<Rightarrow> sql_error + inference_usage" where
  "fn_guard_execution_transition old new =
     (if terminal_exec (iu_exec old) \<and> iu_exec new \<noteq> iu_exec old then Inl SqlRaise else Inr new)"

text \<open>The unique indexes on the ledgers: one debit per inference, one release per authorization.\<close>

definition wallet_entry_conflict :: "wallet_entry \<Rightarrow> wallet_entry \<Rightarrow> bool" where
  "wallet_entry_conflict e f \<longleftrightarrow>
     wl_type e = LedgerDebit \<and> wl_type f = LedgerDebit \<and> wl_usage e \<noteq> None \<and> wl_usage e = wl_usage f \<or>
     wl_type e = LedgerRelease \<and> wl_type f = LedgerRelease \<and> wl_auth e \<noteq> None \<and> wl_auth e = wl_auth f"

definition credit_entry_conflict :: "credit_entry \<Rightarrow> credit_entry \<Rightarrow> bool" where
  "credit_entry_conflict e f \<longleftrightarrow>
     cl_type e = CreditLedgerSettled \<and> cl_type f = CreditLedgerSettled \<and>
       cl_usage e \<noteq> None \<and> cl_usage e = cl_usage f \<or>
     cl_type e = CreditLedgerReleased \<and> cl_type f = CreditLedgerReleased \<and>
       cl_auth e \<noteq> None \<and> cl_auth e = cl_auth f"

subsection \<open>Statements\<close>

definition update_wallet ::
    "id \<Rightarrow> (wallet \<Rightarrow> decimal) \<Rightarrow> (wallet \<Rightarrow> decimal) \<Rightarrow> billing_db \<Rightarrow> sql_error + billing_db" where
  "update_wallet wid bal res db =
     bindE (update_rows (\<lambda>w. w_id w = wid)
       (\<lambda>w. bindE (numeric_16_8 (bal w)) (\<lambda>b.
            bindE (numeric_16_8 (res w)) (\<lambda>r.
            let w' = w\<lparr>w_balance := b, w_reserved := r, w_version := w_version w + 1\<rparr> in
            bindE (guardE SqlCheckViolation (wallet_check w')) (\<lambda>_. Inr w'))))
       (wallets db))
     (\<lambda>ws. Inr (db\<lparr>wallets := ws\<rparr>))"

definition update_credit ::
    "id \<Rightarrow> (credit_account \<Rightarrow> decimal) \<Rightarrow> (credit_account \<Rightarrow> decimal) \<Rightarrow> bool \<Rightarrow> billing_db \<Rightarrow>
     sql_error + billing_db" where
  "update_credit cid expo settled bump db =
     bindE (update_rows (\<lambda>c. c_id c = cid)
       (\<lambda>c. bindE (numeric_16_8 (expo c)) (\<lambda>x.
            bindE (numeric_16_8 (settled c)) (\<lambda>s.
            let c' = c\<lparr>c_exposure := x, c_settled := s,
                       c_version := (if bump then c_version c + 1 else c_version c)\<rparr> in
            bindE (guardE SqlCheckViolation (credit_check c')) (\<lambda>_. Inr c'))))
       (credits db))
     (\<lambda>cs. Inr (db\<lparr>credits := cs\<rparr>))"

definition insert_wallet_ledger :: "wallet_entry \<Rightarrow> billing_db \<Rightarrow> sql_error + billing_db" where
  "insert_wallet_ledger e db =
     bindE (numeric_16_8 (wl_amount e)) (\<lambda>a.
     let e' = e\<lparr>wl_amount := a\<rparr> in
     bindE (guardE SqlCheckViolation (0 \<le> a)) (\<lambda>_.
     bindE (guardE SqlForeignKey (wl_wallet e \<in> w_id ` set (wallets db))) (\<lambda>_.
     bindE (guardE SqlDuplicateKey (\<not> list_ex (wallet_entry_conflict e') (wallet_ledger db))) (\<lambda>_.
     Inr (db\<lparr>wallet_ledger := wallet_ledger db @ [e']\<rparr>)))))"

definition insert_credit_ledger :: "credit_entry \<Rightarrow> billing_db \<Rightarrow> sql_error + billing_db" where
  "insert_credit_ledger e db =
     bindE (numeric_16_8 (cl_amount e)) (\<lambda>a.
     let e' = e\<lparr>cl_amount := a\<rparr> in
     bindE (guardE SqlCheckViolation (0 \<le> a)) (\<lambda>_.
     bindE (guardE SqlForeignKey (cl_credit e \<in> c_id ` set (credits db))) (\<lambda>_.
     bindE (guardE SqlDuplicateKey (\<not> list_ex (credit_entry_conflict e') (credit_ledger db))) (\<lambda>_.
     Inr (db\<lparr>credit_ledger := credit_ledger db @ [e']\<rparr>)))))"

definition insert_auth :: "authorization \<Rightarrow> billing_db \<Rightarrow> sql_error + billing_db" where
  "insert_auth a db =
     bindE (numeric_16_8 (au_estimated a)) (\<lambda>e.
     let a' = a\<lparr>au_estimated := e\<rparr> in
     bindE (guardE SqlCheckViolation (0 \<le> e \<and> au_type a \<in> {AccountTypePrepaid, AccountTypePostpaid})) (\<lambda>_.
     bindE (guardE SqlDuplicateKey
       (au_id a \<notin> au_id ` set (auths db) \<and> au_usage a \<notin> au_usage ` set (auths db))) (\<lambda>_.
     bindE (guardE SqlForeignKey
       (au_usage a \<in> iu_id ` set (usages db) \<and> au_account a \<in> ba_id ` set (accounts db))) (\<lambda>_.
     Inr (db\<lparr>auths := auths db @ [a']\<rparr>)))))"

text \<open>
  \<open>UPDATE billing_authorizations SET ... WHERE id = $1 AND status = 'active' RETURNING ...\<close>:
  the row as it is after the update, or \<open>sql.ErrNoRows\<close> from \<open>Scan\<close> when no row matched.
\<close>

definition update_active_auth ::
    "id \<Rightarrow> (authorization \<Rightarrow> sql_error + authorization) \<Rightarrow> billing_db \<Rightarrow>
     sql_error + authorization \<times> billing_db" where
  "update_active_auth aid f db =
     bindE (update_rows (\<lambda>a. au_id a = aid \<and> au_status a = AuthStatusActive)
             (\<lambda>a. bindE (f a) (fn_guard_auth_transition a)) (auths db)) (\<lambda>as.
     bindE (select1 (\<lambda>a. au_id a = aid \<and> au_status a = AuthStatusActive) (auths db)) (\<lambda>_.
     bindE (select1 (\<lambda>a. au_id a = aid) as) (\<lambda>a'.
     Inr (a', db\<lparr>auths := as\<rparr>))))"

definition update_usage ::
    "(inference_usage \<Rightarrow> bool) \<Rightarrow> (inference_usage \<Rightarrow> sql_error + inference_usage) \<Rightarrow> billing_db \<Rightarrow>
     sql_error + billing_db" where
  "update_usage p f db =
     bindE (update_rows p
       (\<lambda>u. bindE (f u) (\<lambda>u'.
            bindE (fn_guard_execution_transition u u') (\<lambda>_.
            bindE (guardE SqlCheckViolation (usage_check u')) (\<lambda>_. Inr u')))) (usages db))
     (\<lambda>us. Inr (db\<lparr>usages := us\<rparr>))"

text \<open>The deferred foreign keys of the ledgers, checked at COMMIT.\<close>

definition ledger_refs_ok :: "billing_db \<Rightarrow> bool" where
  "ledger_refs_ok db \<longleftrightarrow>
     list_all (\<lambda>e. (case wl_auth e of None \<Rightarrow> True | Some a \<Rightarrow> a \<in> au_id ` set (auths db)) \<and>
                   (case wl_usage e of None \<Rightarrow> True | Some u \<Rightarrow> u \<in> iu_id ` set (usages db)))
       (wallet_ledger db) \<and>
     list_all (\<lambda>e. (case cl_auth e of None \<Rightarrow> True | Some a \<Rightarrow> a \<in> au_id ` set (auths db)) \<and>
                   (case cl_usage e of None \<Rightarrow> True | Some u \<Rightarrow> u \<in> iu_id ` set (usages db)))
       (credit_ledger db)"

definition commit :: "'a \<Rightarrow> billing_db \<Rightarrow> sql_error + 'a \<times> billing_db" where
  "commit a db = bindE (guardE SqlForeignKey (ledger_refs_ok db)) (\<lambda>_. Inr (a, db))"

end
