(* ===== verification/Billing_Pricing.thy ===== *)
theory Billing_Pricing
  imports Billing_Schema
begin

text \<open>
  Cost arithmetic (\<open>ComputeCost\<close> and \<open>MaxEstimatedCost\<close> of types.go), the pricing snapshot and
  the output-token default of pricing.go, the account resolution of accounts.go, and the lemmas
  on rounding to a NUMERIC(16,8) column that the other billing theories share.
\<close>

subsection \<open>Rounding\<close>

lemma round8_on_grid [simp]: "on_grid (round8 x)"
  by (simp add: on_grid_def round8_def)

lemma round8_grid [simp]: "on_grid x \<Longrightarrow> round8 x = x"
proof -
  assume "on_grid x"
  then obtain k where x: "x = 100 * k" by (auto simp: on_grid_def)
  have "(\<bar>x\<bar> + 50) div 100 = \<bar>k\<bar>" by (simp add: x)
  then show ?thesis by (simp add: round8_def x mult.assoc sgn_mult abs_mult_sgn mult.commute sgn_mult_abs)
qed

lemma round8_nonneg: "0 \<le> x \<Longrightarrow> round8 x = (x + 50) div 100 * 100"
  by (cases "x = 0") (auto simp: round8_def)

lemma round8_0 [simp]: "round8 0 = 0"
  by (simp add: round8_def)

lemma round8_ge_0 [simp]: "0 \<le> x \<Longrightarrow> 0 \<le> round8 x"
  by (simp add: round8_nonneg)

lemma round8_mono: "0 \<le> x \<Longrightarrow> x \<le> y \<Longrightarrow> round8 x \<le> round8 y"
  by (simp add: round8_nonneg zdiv_mono1)

lemma round8_add_grid:
  assumes "on_grid g" and "0 \<le> g" and "0 \<le> x"
  shows "round8 (g + x) = g + round8 x"
proof -
  from assms(1) obtain k where g: "g = 100 * k" by (auto simp: on_grid_def)
  have "(g + x + 50) div 100 = k + (x + 50) div 100" by (simp add: g add.assoc)
  with assms g show ?thesis by (simp add: round8_nonneg algebra_simps)
qed

lemma round8_diff_grid:
  assumes "on_grid g" and "0 \<le> x" and "x \<le> g"
  shows "round8 (g - x) = g - round8 x + (if x mod 100 = 50 then 100 else 0)"
proof -
  from assms(1) obtain k where g: "g = 100 * k" by (auto simp: on_grid_def)
  define q m where "q = x div 100" and "m = x mod 100"
  have x: "x = 100 * q + m" and m: "0 \<le> m" "m < 100" by (simp_all add: q_def m_def)
  have 1: "(g - x + 50) div 100 = (k - q) + (50 - m) div 100"
    using div_mult_self1 [of 100 "50 - m" "k - q"] by (simp add: g x algebra_simps)
  have 2: "(x + 50) div 100 = q + (m + 50) div 100"
    using div_mult_self1 [of 100 "m + 50" q] by (simp add: x algebra_simps)
  have 3: "(50 - m) div 100 = (if m \<le> 50 then 0 else -1)"
    using m div_pos_pos_trivial [of "50 - m" 100] div_add_self2 [of 100 "50 - m"]
      div_pos_pos_trivial [of "150 - m" 100] by auto
  have 4: "(m + 50) div 100 = (if m < 50 then 0 else 1)"
    using m div_pos_pos_trivial [of "m + 50" 100] div_add_self2 [of 100 "m - 50"]
      div_pos_pos_trivial [of "m - 50" 100] by auto
  from 1 2 3 4 have "(g - x + 50) div 100 =
      k - (x + 50) div 100 + (if x mod 100 = 50 then 1 else 0)"
    by (simp add: m_def)
  moreover have "round8 (g - x) = (g - x + 50) div 100 * 100" and "round8 x = (x + 50) div 100 * 100"
    using assms by (simp_all add: round8_nonneg)
  ultimately show ?thesis by (auto simp: g)
qed

lemma on_grid_add [simp]: "on_grid x \<Longrightarrow> on_grid y \<Longrightarrow> on_grid (x + y)"
  by (simp add: on_grid_def mod_add_eq [symmetric, of x])

lemma on_grid_diff [simp]: "on_grid x \<Longrightarrow> on_grid y \<Longrightarrow> on_grid (x - y)"
  by (simp add: on_grid_def mod_diff_eq [symmetric, of x])

lemma on_grid_0 [simp]: "on_grid 0"
  by (simp add: on_grid_def)

lemma on_grid_not_half: "on_grid x \<Longrightarrow> x mod 100 \<noteq> 50"
  by (simp add: on_grid_def)

lemma numeric_16_8_Inr: "numeric_16_8 x = Inr y \<longleftrightarrow> y = round8 x \<and> \<bar>round8 x\<bar> < 1000000000000000000"
  by (auto simp: numeric_16_8_def)

subsection \<open>ComputeCost and MaxEstimatedCost\<close>

definition ComputeCost :: "pricing_snapshot \<Rightarrow> token_counts \<Rightarrow> decimal \<times> decimal \<times> decimal \<times> decimal" where
  "ComputeCost snap tokens =
     (let billableInput = (let b = InputTokens tokens - CachedTokens tokens in if b < 0 then 0 else b);
          cachedInput = CachedTokens tokens;
          output = OutputTokens tokens;
          inputCost = billableInput * InputRate snap;
          cachedCost = cachedInput * CachedRate snap;
          outputCost = output * OutputRate snap
      in (inputCost, cachedCost, outputCost, inputCost + cachedCost + outputCost))"

definition totalCost :: "pricing_snapshot \<Rightarrow> token_counts \<Rightarrow> decimal" where
  "totalCost snap tokens = (case ComputeCost snap tokens of (_, _, _, t) \<Rightarrow> t)"

definition MaxEstimatedCost :: "pricing_snapshot \<Rightarrow> int \<Rightarrow> int \<Rightarrow> decimal" where
  "MaxEstimatedCost snap estimatedInput maxOutputTokens =
     estimatedInput * InputRate snap + maxOutputTokens * OutputRate snap"

lemma totalCost_eq:
  "totalCost snap t =
     max 0 (InputTokens t - CachedTokens t) * InputRate snap + CachedTokens t * CachedRate snap +
     OutputTokens t * OutputRate snap"
  by (simp add: totalCost_def ComputeCost_def Let_def max_def)

definition rates_ok :: "pricing_snapshot \<Rightarrow> bool" where
  "rates_ok s \<longleftrightarrow> 0 \<le> InputRate s \<and> 0 \<le> OutputRate s \<and> 0 \<le> CachedRate s"

definition tokens_ok :: "token_counts \<Rightarrow> bool" where
  "tokens_ok t \<longleftrightarrow> 0 \<le> InputTokens t \<and> 0 \<le> OutputTokens t \<and> 0 \<le> CachedTokens t"

lemma totalCost_nonneg: "rates_ok s \<Longrightarrow> tokens_ok t \<Longrightarrow> 0 \<le> totalCost s t"
  by (simp add: totalCost_eq rates_ok_def tokens_ok_def)

text \<open>
  A run that stays within its token estimate never costs more than the reservation made for
  it: with non-negative rates, a cached rate no higher than the input rate, cached tokens among
  the input tokens, and input and output within the estimated input and the output cap, the
  total of \<open>ComputeCost\<close> is at most \<open>MaxEstimatedCost\<close>.
\<close>

theorem cost_within_estimate:
  assumes "rates_ok s" and "tokens_ok t" and "CachedRate s \<le> InputRate s"
    and "CachedTokens t \<le> InputTokens t"
    and "InputTokens t \<le> est" and "OutputTokens t \<le> maxOut"
  shows "totalCost s t \<le> MaxEstimatedCost s est maxOut"
proof -
  have "CachedTokens t * CachedRate s \<le> CachedTokens t * InputRate s"
    using assms by (simp add: mult_left_mono tokens_ok_def)
  moreover have "(InputTokens t - CachedTokens t) * InputRate s + CachedTokens t * InputRate s
      = InputTokens t * InputRate s"
    by (simp add: algebra_simps)
  moreover have "InputTokens t * InputRate s \<le> est * InputRate s"
    and "OutputTokens t * OutputRate s \<le> maxOut * OutputRate s"
    using assms by (simp_all add: mult_right_mono rates_ok_def)
  ultimately show ?thesis
    using assms(4) by (simp add: totalCost_eq MaxEstimatedCost_def)
qed

theorem cost_within_estimate_witness:
  "totalCost \<lparr>PricingID = ''p'', InputRate = 5, OutputRate = 20, CachedRate = 1,
              SnapCurrency = ''USD'', ResolvedAt = 0\<rparr>
             \<lparr>InputTokens = 10, OutputTokens = 7, CachedTokens = 4, ReasoningTokens = 0\<rparr>
     \<le> MaxEstimatedCost \<lparr>PricingID = ''p'', InputRate = 5, OutputRate = 20, CachedRate = 1,
              SnapCurrency = ''USD'', ResolvedAt = 0\<rparr> 12 8"
  by (rule cost_within_estimate) (simp_all add: rates_ok_def tokens_ok_def)

subsection \<open>pricing.go\<close>

record model_pricing =
  mp_id :: id
  mp_model :: id
  mp_input_text :: string
  mp_output_text :: string
  mp_cached_text :: string
  mp_currency :: string
  mp_effective_to :: "int option"

datatype pricing_error = PricingLookup sql_error | InvalidRate string

definition SnapshotForModel ::
    "faults \<Rightarrow> (string \<Rightarrow> decimal option) \<Rightarrow> model_pricing list \<Rightarrow> int \<Rightarrow> id \<Rightarrow>
     pricing_error + pricing_snapshot" where
  "SnapshotForModel flt NewFromString tbl now modelID =
     (case stmt flt ''pricing lookup''
             (select1 (\<lambda>r. mp_model r = modelID \<and> mp_effective_to r = None) tbl) of
        Inl e \<Rightarrow>
          (if e = SqlNoRows
           then Inr \<lparr>PricingID = '''', InputRate = 0, OutputRate = 0, CachedRate = 0,
                     SnapCurrency = ''USD'', ResolvedAt = now\<rparr>
           else Inl (PricingLookup e))
      | Inr pr \<Rightarrow>
          (case NewFromString (mp_input_text pr) of None \<Rightarrow> Inl (InvalidRate ''input_per_token'')
           | Some i \<Rightarrow>
          (case NewFromString (mp_output_text pr) of None \<Rightarrow> Inl (InvalidRate ''output_per_token'')
           | Some out \<Rightarrow>
          (case NewFromString (mp_cached_text pr) of None \<Rightarrow> Inl (InvalidRate ''cached_per_token'')
           | Some c \<Rightarrow>
          Inr \<lparr>PricingID = mp_id pr, InputRate = i, OutputRate = out, CachedRate = c,
               SnapCurrency = mp_currency pr, ResolvedAt = now\<rparr>))))"

lemma SnapshotForModel_free:
  assumes "\<not> flt ''pricing lookup''"
    and "\<forall>r\<in>set tbl. mp_model r = m \<longrightarrow> mp_effective_to r \<noteq> None"
  shows "\<exists>s. SnapshotForModel flt parse tbl now m = Inr s \<and> (\<forall>t. totalCost s t = 0)"
proof -
  have "select1 (\<lambda>r. mp_model r = m \<and> mp_effective_to r = None) tbl = Inl SqlNoRows"
    using assms(2) by (auto simp: select1_no_rows)
  with assms(1) show ?thesis by (simp add: SnapshotForModel_def totalCost_eq)
qed

definition DefaultMaxOutputTokens :: "faults \<Rightarrow> (id \<times> int option) list \<Rightarrow> id \<Rightarrow> int" where
  "DefaultMaxOutputTokens flt tbl modelID =
     (case stmt flt ''default max output tokens'' (select1 (\<lambda>r. fst r = modelID) tbl) of
        Inl _ \<Rightarrow> 2048
      | Inr r \<Rightarrow> (let v = (case snd r of None \<Rightarrow> 2048 | Some v \<Rightarrow> v) in if v \<le> 0 then 2048 else v))"

lemma DefaultMaxOutputTokens_positive: "0 < DefaultMaxOutputTokens flt tbl m"
  by (simp add: DefaultMaxOutputTokens_def Let_def split: sum.splits option.splits)

subsection \<open>accounts.go\<close>

record api_key_row =
  ak_id :: id
  ak_account :: "id option"

record project_row =
  pj_id :: id
  pj_account :: "id option"

record resolver_db =
  r_keys :: "api_key_row list"
  r_projects :: "project_row list"
  r_accounts :: "billing_account list"
  r_wallets :: "wallet list"
  r_credits :: "credit_account list"

type_synonym resolution = "id \<times> account_type \<times> string"

definition wallet_currency :: "resolver_db \<Rightarrow> id \<Rightarrow> string option" where
  "wallet_currency db a = map_option w_currency (find (\<lambda>w. w_account w = a) (r_wallets db))"

definition credit_currency :: "resolver_db \<Rightarrow> id \<Rightarrow> string option" where
  "credit_currency db a = map_option c_currency (find (\<lambda>c. c_account c = a) (r_credits db))"

definition coalesced_currency :: "resolver_db \<Rightarrow> id \<Rightarrow> string" where
  "coalesced_currency db a =
     (case wallet_currency db a of Some c \<Rightarrow> c | None \<Rightarrow>
       (case credit_currency db a of Some c \<Rightarrow> c | None \<Rightarrow> ''USD''))"

definition active_account :: "resolver_db \<Rightarrow> id \<Rightarrow> billing_account option" where
  "active_account db a = find (\<lambda>b. ba_id b = a \<and> ba_status b = AccountActive) (r_accounts db)"

text \<open>
  The API-key query selects \<open>w.currency\<close> of a LEFT JOIN without COALESCE: for an account with
  no wallet the column is NULL, and \<open>Scan\<close> of NULL into a Go string is an error.
\<close>

definition resolve_api_key :: "resolver_db \<Rightarrow> id \<Rightarrow> resolution option" where
  "resolve_api_key db k =
     Option.bind (find (\<lambda>r. ak_id r = k \<and> ak_account r \<noteq> None) (r_keys db)) (\<lambda>r.
     Option.bind (ak_account r) (\<lambda>a.
     Option.bind (active_account db a) (\<lambda>b.
     Option.bind (wallet_currency db a) (\<lambda>cur. Some (ba_id b, ba_type b, cur)))))"

definition resolve_project :: "resolver_db \<Rightarrow> id \<Rightarrow> resolution option" where
  "resolve_project db p =
     Option.bind (find (\<lambda>r. pj_id r = p \<and> pj_account r \<noteq> None) (r_projects db)) (\<lambda>r.
     Option.bind (pj_account r) (\<lambda>a.
     Option.bind (active_account db a) (\<lambda>b. Some (ba_id b, ba_type b, coalesced_currency db a))))"

text \<open>\<open>ORDER BY created_at ASC LIMIT 1\<close>: the first row with the least creation time.\<close>

fun oldest :: "billing_account list \<Rightarrow> billing_account option" where
  "oldest [] = None"
| "oldest (b # bs) =
     (case oldest bs of None \<Rightarrow> Some b | Some c \<Rightarrow> if ba_created b \<le> ba_created c then Some b else Some c)"

definition resolve_org :: "resolver_db \<Rightarrow> id \<Rightarrow> resolution option" where
  "resolve_org db org =
     map_option (\<lambda>b. (ba_id b, ba_type b, coalesced_currency db (ba_id b)))
       (oldest (filter (\<lambda>b. ba_org b = org \<and> ba_status b = AccountActive) (r_accounts db)))"

definition attempt :: "bool \<Rightarrow> id \<Rightarrow> (id \<Rightarrow> resolution option) \<Rightarrow> resolution option" where
  "attempt down key q = (if key = '''' \<or> down then None else q key)"

datatype account_error = ErrNoBillingAccount

definition ResolveForRequest ::
    "faults \<Rightarrow> resolver_db \<Rightarrow> id \<Rightarrow> id \<Rightarrow> id \<Rightarrow> account_error + resolution" where
  "ResolveForRequest flt db apiKeyID projectID orgID =
     (case attempt (flt ''api key'') apiKeyID (resolve_api_key db) of Some r \<Rightarrow> Inr r
      | None \<Rightarrow>
     (case attempt (flt ''project'') projectID (resolve_project db) of Some r \<Rightarrow> Inr r
      | None \<Rightarrow>
     (case attempt (flt ''org'') orgID (resolve_org db) of Some r \<Rightarrow> Inr r
      | None \<Rightarrow> Inl ErrNoBillingAccount)))"

lemma oldest_None: "oldest bs = None \<longleftrightarrow> bs = []"
  by (cases bs) (auto split: option.splits)

lemma oldest_SomeD: "oldest bs = Some b \<Longrightarrow> b \<in> set bs \<and> (\<forall>c\<in>set bs. ba_created b \<le> ba_created c)"
proof (induction bs arbitrary: b)
  case (Cons a bs)
  then show ?case
    by (cases "oldest bs") (auto simp: oldest_None split: if_splits)
qed simp

lemma active_account_Some:
  "active_account db a = Some b \<Longrightarrow> b \<in> set (r_accounts db) \<and> ba_id b = a \<and> ba_status b = AccountActive"
  by (auto simp: active_account_def find_Some_iff)

text \<open>
  Whatever statements fail, a resolved account is an active account of the table with its
  own type: \<open>ResolveForRequest\<close> never attributes a request to a suspended or closed account.
\<close>

theorem resolve_active:
  assumes "ResolveForRequest flt db k p org = Inr (a, ty, cur)"
  shows "\<exists>b\<in>set (r_accounts db). ba_id b = a \<and> ba_type b = ty \<and> ba_status b = AccountActive"
proof -
  have "resolve_api_key db k = Some (a, ty, cur) \<or> resolve_project db p = Some (a, ty, cur) \<or>
        resolve_org db org = Some (a, ty, cur)"
    using assms by (auto simp: ResolveForRequest_def attempt_def split: option.splits if_splits)
  then show ?thesis
    by (auto simp: resolve_api_key_def resolve_project_def resolve_org_def bind_eq_Some_conv
        dest!: active_account_Some oldest_SomeD)
qed

theorem resolve_active_witness:
  "ResolveForRequest no_faults
     \<lparr>r_keys = [], r_projects = [], r_accounts =
        [\<lparr>ba_id = ''a'', ba_org = ''o'', ba_type = AccountTypePrepaid, ba_status = AccountActive,
          ba_created = 3\<rparr>], r_wallets = [], r_credits = []\<rparr> ''k'' '''' ''o''
     = Inr (''a'', AccountTypePrepaid, ''USD'')
   \<and> (\<exists>b\<in>set [\<lparr>ba_id = ''a'', ba_org = ''o'', ba_type = AccountTypePrepaid,
          ba_status = AccountActive, ba_created = 3\<rparr>].
        ba_id b = ''a'' \<and> ba_type b = AccountTypePrepaid \<and> ba_status b = AccountActive)"
proof -
  let ?db = "\<lparr>r_keys = [], r_projects = [], r_accounts =
        [\<lparr>ba_id = ''a'', ba_org = ''o'', ba_type = AccountTypePrepaid, ba_status = AccountActive,
          ba_created = 3\<rparr>], r_wallets = [], r_credits = []\<rparr> :: resolver_db"
  have h: "ResolveForRequest no_faults ?db ''k'' '''' ''o'' = Inr (''a'', AccountTypePrepaid, ''USD'')"
    by (simp add: ResolveForRequest_def attempt_def resolve_api_key_def resolve_org_def
        coalesced_currency_def wallet_currency_def credit_currency_def)
  from resolve_active [OF h] h show ?thesis by simp
qed

text \<open>
  An API-key override whose account has no wallet (a postpaid account) is never used: the
  key resolves exactly as if it had no override. The project and organisation queries coalesce
  the currency and do resolve such an account.
\<close>

theorem api_key_override_without_wallet_ignored:
  assumes "\<forall>r\<in>set (r_keys db). ak_id r = k \<longrightarrow>
             (case ak_account r of None \<Rightarrow> True | Some a \<Rightarrow> wallet_currency db a = None)"
  shows "ResolveForRequest flt db k p org = ResolveForRequest flt db '''' p org"
proof -
  have "resolve_api_key db k = None"
  proof (cases "find (\<lambda>r. ak_id r = k \<and> ak_account r \<noteq> None) (r_keys db)")
    case None
    then show ?thesis by (simp add: resolve_api_key_def)
  next
    case (Some r)
    then have "r \<in> set (r_keys db)" "ak_id r = k" by (auto simp: find_Some_iff)
    with assms have "case ak_account r of None \<Rightarrow> True | Some a \<Rightarrow> wallet_currency db a = None" by blast
    with Some show ?thesis
      by (auto simp: resolve_api_key_def bind_eq_None_conv split: option.splits)
  qed
  then show ?thesis by (simp add: ResolveForRequest_def attempt_def)
qed

theorem api_key_override_without_wallet_ignored_witness:
  "ResolveForRequest no_faults
     \<lparr>r_keys = [\<lparr>ak_id = ''k'', ak_account = Some ''post''\<rparr>], r_projects = [], r_accounts =
        [\<lparr>ba_id = ''post'', ba_org = ''o2'', ba_type = AccountTypePostpaid,
          ba_status = AccountActive, ba_created = 1\<rparr>],
      r_wallets = [], r_credits = []\<rparr> ''k'' '''' ''o''
   = ResolveForRequest no_faults
     \<lparr>r_keys = [\<lparr>ak_id = ''k'', ak_account = Some ''post''\<rparr>], r_projects = [], r_accounts =
        [\<lparr>ba_id = ''post'', ba_org = ''o2'', ba_type = AccountTypePostpaid,
          ba_status = AccountActive, ba_created = 1\<rparr>],
      r_wallets = [], r_credits = []\<rparr> '''' '''' ''o''"
  by (rule api_key_override_without_wallet_ignored) (simp add: wallet_currency_def)

end
