(* ===== verification/Billing_Invariant.thy ===== *)
theory Billing_Invariant
  imports Billing_Pricing
begin

text \<open>
  The accounting invariant of the billing database and what each SQL statement does to it.

  \<open>billing_inv\<close> says, among the schema's own constraints, that \<open>wallets.reserved\<close> is the sum of
  the estimates of the account's active prepaid authorizations, and that
  \<open>credit_accounts.total_exposure\<close> is the sum over the active postpaid ones plus what the cycle
  has settled (the comment on the column in migration 054).
\<close>

subsection \<open>The invariant\<close>

definition held :: "account_type \<Rightarrow> id \<Rightarrow> authorization \<Rightarrow> decimal" where
  "held ty acc a =
     (if au_status a = AuthStatusActive \<and> au_type a = ty \<and> au_account a = acc then au_estimated a else 0)"

definition active_sum :: "account_type \<Rightarrow> id \<Rightarrow> authorization list \<Rightarrow> decimal" where
  "active_sum ty acc as = sum_list (map (held ty acc) as)"

definition fits :: "decimal \<Rightarrow> bool" where
  "fits x \<longleftrightarrow> on_grid x \<and> 0 \<le> x \<and> x < 1000000000000000000"

definition keys_ok :: "billing_db \<Rightarrow> bool" where
  "keys_ok db \<longleftrightarrow>
     distinct (map w_id (wallets db)) \<and> distinct (map w_account (wallets db)) \<and>
     distinct (map c_id (credits db)) \<and> distinct (map c_account (credits db)) \<and>
     distinct (map au_id (auths db)) \<and> distinct (map au_usage (auths db)) \<and>
     distinct (map iu_id (usages db))"

definition rows_ok :: "billing_db \<Rightarrow> bool" where
  "rows_ok db \<longleftrightarrow>
     (\<forall>w\<in>set (wallets db). wallet_check w \<and> fits (w_balance w) \<and> fits (w_reserved w)) \<and>
     (\<forall>c\<in>set (credits db). credit_check c \<and> fits (c_exposure c) \<and> fits (c_settled c)) \<and>
     (\<forall>a\<in>set (auths db). fits (au_estimated a) \<and> au_usage a \<in> iu_id ` set (usages db) \<and>
        (au_status a = AuthStatusActive \<longrightarrow>
          (case au_type a of AccountTypePrepaid \<Rightarrow> au_account a \<in> w_account ` set (wallets db)
           | AccountTypePostpaid \<Rightarrow> au_account a \<in> c_account ` set (credits db)
           | AccountTypeOther s \<Rightarrow> False))) \<and>
     (\<forall>u\<in>set (usages db). usage_check u)"

definition sums_ok :: "billing_db \<Rightarrow> bool" where
  "sums_ok db \<longleftrightarrow>
     (\<forall>w\<in>set (wallets db). w_reserved w = active_sum AccountTypePrepaid (w_account w) (auths db)) \<and>
     (\<forall>c\<in>set (credits db).
        c_exposure c = active_sum AccountTypePostpaid (c_account c) (auths db) + c_settled c)"

definition closes_wallet :: "authorization \<Rightarrow> wallet_entry \<Rightarrow> bool" where
  "closes_wallet a e \<longleftrightarrow>
     wl_type e = LedgerRelease \<and> wl_auth e = Some (au_id a) \<or>
     wl_type e = LedgerDebit \<and> wl_usage e = Some (au_usage a)"

definition closes_credit :: "authorization \<Rightarrow> credit_entry \<Rightarrow> bool" where
  "closes_credit a e \<longleftrightarrow>
     cl_type e = CreditLedgerReleased \<and> cl_auth e = Some (au_id a) \<or>
     cl_type e = CreditLedgerSettled \<and> cl_usage e = Some (au_usage a)"

definition open_ok :: "billing_db \<Rightarrow> bool" where
  "open_ok db \<longleftrightarrow>
     (\<forall>a\<in>set (auths db). au_status a = AuthStatusActive \<longrightarrow>
        (\<forall>e\<in>set (wallet_ledger db). \<not> closes_wallet a e) \<and>
        (\<forall>e\<in>set (credit_ledger db). \<not> closes_credit a e)) \<and>
     (\<forall>e\<in>set (wallet_ledger db). \<forall>u. wl_type e = LedgerDebit \<longrightarrow> wl_usage e = Some u \<longrightarrow>
        u \<in> au_usage ` set (auths db)) \<and>
     (\<forall>e\<in>set (credit_ledger db). \<forall>u. cl_type e = CreditLedgerSettled \<longrightarrow> cl_usage e = Some u \<longrightarrow>
        u \<in> au_usage ` set (auths db))"

definition billing_inv :: "billing_db \<Rightarrow> bool" where
  "billing_inv db \<longleftrightarrow> keys_ok db \<and> rows_ok db \<and> sums_ok db \<and> open_ok db \<and> ledger_refs_ok db"

lemmas inv_defs = billing_inv_def keys_ok_def rows_ok_def sums_ok_def open_ok_def

subsection \<open>Sums over authorizations\<close>

lemma held_inactive [simp]: "au_status a \<noteq> AuthStatusActive \<Longrightarrow> held ty acc a = 0"
  by (simp add: held_def)

lemma active_sum_append [simp]: "active_sum ty acc (as @ bs) = active_sum ty acc as + active_sum ty acc bs"
  by (simp add: active_sum_def)

lemma active_sum_single [simp]: "active_sum ty acc [a] = held ty acc a"
  by (simp add: active_sum_def)

lemma active_sum_put_row:
  "distinct (map au_id as) \<Longrightarrow> a \<in> set as \<Longrightarrow> au_id a' = au_id a \<Longrightarrow>
     active_sum ty acc (put_row au_id a' as) = active_sum ty acc as - held ty acc a + held ty acc a'"
  by (simp add: active_sum_def sum_list_put_row)

lemma held_le_active_sum:
  assumes "a \<in> set as" and "\<forall>b\<in>set as. 0 \<le> au_estimated b"
  shows "held ty acc a \<le> active_sum ty acc as"
  unfolding active_sum_def using assms by (intro member_le_sum_list_map) (auto simp: held_def)

lemma active_sum_on_grid: "\<forall>b\<in>set as. on_grid (au_estimated b) \<Longrightarrow> on_grid (active_sum ty acc as)"
  by (induction as) (auto simp: active_sum_def held_def)

lemma fits_on_grid: "fits x \<Longrightarrow> on_grid x"
  and fits_nonneg: "fits x \<Longrightarrow> 0 \<le> x"
  by (simp_all add: fits_def)

lemma fits_diff: "fits x \<Longrightarrow> fits y \<Longrightarrow> y \<le> x \<Longrightarrow> fits (x - y)"
  by (simp add: fits_def)

lemma numeric_fits: "fits x \<Longrightarrow> numeric_16_8 x = Inr x"
  by (simp add: numeric_16_8_def fits_def)

lemma numeric_Inr_fits: "numeric_16_8 x = Inr y \<Longrightarrow> 0 \<le> y \<Longrightarrow> fits y"
  by (auto simp: numeric_16_8_Inr fits_def)

subsection \<open>Statements by key\<close>

definition set_wallet :: "wallet \<Rightarrow> billing_db \<Rightarrow> billing_db" where
  "set_wallet w db = db\<lparr>wallets := put_row w_id w (wallets db)\<rparr>"

definition set_credit :: "credit_account \<Rightarrow> billing_db \<Rightarrow> billing_db" where
  "set_credit c db = db\<lparr>credits := put_row c_id c (credits db)\<rparr>"

definition set_auth :: "authorization \<Rightarrow> billing_db \<Rightarrow> billing_db" where
  "set_auth a db = db\<lparr>auths := put_row au_id a (auths db)\<rparr>"

lemma set_sel [simp]:
  "wallets (set_wallet w db) = put_row w_id w (wallets db)"
  "credits (set_wallet w db) = credits db" "auths (set_wallet w db) = auths db"
  "usages (set_wallet w db) = usages db" "wallet_ledger (set_wallet w db) = wallet_ledger db"
  "credit_ledger (set_wallet w db) = credit_ledger db" "accounts (set_wallet w db) = accounts db"
  "completions (set_wallet w db) = completions db"
  "credits (set_credit c db) = put_row c_id c (credits db)"
  "wallets (set_credit c db) = wallets db" "auths (set_credit c db) = auths db"
  "usages (set_credit c db) = usages db" "wallet_ledger (set_credit c db) = wallet_ledger db"
  "credit_ledger (set_credit c db) = credit_ledger db" "accounts (set_credit c db) = accounts db"
  "completions (set_credit c db) = completions db"
  "auths (set_auth a db) = put_row au_id a (auths db)"
  "wallets (set_auth a db) = wallets db" "credits (set_auth a db) = credits db"
  "usages (set_auth a db) = usages db" "wallet_ledger (set_auth a db) = wallet_ledger db"
  "credit_ledger (set_auth a db) = credit_ledger db" "accounts (set_auth a db) = accounts db"
  "completions (set_auth a db) = completions db"
  by (simp_all add: set_wallet_def set_credit_def set_auth_def)

lemma update_wallet_key:
  assumes "distinct (map w_id (wallets db))" and "w \<in> set (wallets db)"
  shows "update_wallet (w_id w) bal res db =
     bindE (numeric_16_8 (bal w)) (\<lambda>b. bindE (numeric_16_8 (res w)) (\<lambda>r.
       let w' = w\<lparr>w_balance := b, w_reserved := r, w_version := w_version w + 1\<rparr> in
       bindE (guardE SqlCheckViolation (wallet_check w')) (\<lambda>_. Inr (set_wallet w' db))))"
proof -
  let ?f = "\<lambda>w. bindE (numeric_16_8 (bal w)) (\<lambda>b. bindE (numeric_16_8 (res w)) (\<lambda>r.
            let w' = w\<lparr>w_balance := b, w_reserved := r, w_version := w_version w + 1\<rparr> in
            bindE (guardE SqlCheckViolation (wallet_check w')) (\<lambda>_. Inr w')))"
  have "update_rows (\<lambda>x. w_id x = w_id w) ?f (wallets db) =
      bindE (?f w) (\<lambda>w'. Inr (put_row w_id w' (wallets db)))"
    using assms by (intro update_rows_single) (auto simp: Let_def)
  then show ?thesis
    by (simp add: update_wallet_def set_wallet_def bindE_def Let_def split: sum.splits)
qed

lemma update_credit_key:
  assumes "distinct (map c_id (credits db))" and "c \<in> set (credits db)"
  shows "update_credit (c_id c) expo settled bump db =
     bindE (numeric_16_8 (expo c)) (\<lambda>x. bindE (numeric_16_8 (settled c)) (\<lambda>s.
       let c' = c\<lparr>c_exposure := x, c_settled := s,
                  c_version := (if bump then c_version c + 1 else c_version c)\<rparr> in
       bindE (guardE SqlCheckViolation (credit_check c')) (\<lambda>_. Inr (set_credit c' db))))"
proof -
  let ?f = "\<lambda>c. bindE (numeric_16_8 (expo c)) (\<lambda>x. bindE (numeric_16_8 (settled c)) (\<lambda>s.
            let c' = c\<lparr>c_exposure := x, c_settled := s,
                       c_version := (if bump then c_version c + 1 else c_version c)\<rparr> in
            bindE (guardE SqlCheckViolation (credit_check c')) (\<lambda>_. Inr c')))"
  have "update_rows (\<lambda>x. c_id x = c_id c) ?f (credits db) =
      bindE (?f c) (\<lambda>c'. Inr (put_row c_id c' (credits db)))"
    using assms by (intro update_rows_single) (auto simp: Let_def)
  then show ?thesis
    by (simp add: update_credit_def set_credit_def bindE_def Let_def split: sum.splits)
qed

lemma update_active_auth_key:
  assumes "distinct (map au_id (auths db))" and "a \<in> set (auths db)"
    and "au_status a = AuthStatusActive" and "\<And>a'. f a = Inr a' \<Longrightarrow> au_id a' = au_id a"
  shows "update_active_auth (au_id a) f db =
     bindE (f a) (\<lambda>a'. Inr (a', set_auth a' db))"
proof -
  let ?p = "\<lambda>x. au_id x = au_id a \<and> au_status x = AuthStatusActive"
  let ?f = "\<lambda>x. bindE (f x) (fn_guard_auth_transition x)"
  have 1: "update_rows ?p ?f (auths db) = bindE (?f a) (\<lambda>a'. Inr (put_row au_id a' (auths db)))"
    using assms by (intro update_rows_single) (auto simp: fn_guard_auth_transition_def split: if_splits)
  have 2: "?f a = f a"
    using assms(3) by (cases "f a") (simp_all add: fn_guard_auth_transition_def)
  have 3: "\<exists>b. select1 ?p (auths db) = Inr b"
    using assms(2,3) by (cases "select1 ?p (auths db)") (auto simp: select1_no_rows)
  have 4: "select1 (\<lambda>x. au_id x = au_id a) (put_row au_id a' (auths db)) = Inr a'"
    if "f a = Inr a'" for a'
    using assms(2) assms(4) [OF that] by (auto simp: select1_eq_Inr find_key_put_row)
  from 3 obtain b where "select1 ?p (auths db) = Inr b" by blast
  with 1 2 4 show ?thesis
    by (cases "f a") (simp_all add: update_active_auth_def set_auth_def)
qed

lemma update_active_auth_none:
  assumes "\<forall>a\<in>set (auths db). \<not> (au_id a = aid \<and> au_status a = AuthStatusActive)"
  shows "update_active_auth aid f db = Inl SqlNoRows"
proof -
  have "select1 (\<lambda>a. au_id a = aid \<and> au_status a = AuthStatusActive) (auths db) = Inl SqlNoRows"
    using assms by (simp add: select1_no_rows)
  with assms show ?thesis by (simp add: update_active_auth_def update_rows_none)
qed

lemma update_active_auth_InrD:
  assumes "update_active_auth aid f db = Inr (a', db')"
  shows "\<exists>a\<in>set (auths db). au_id a = aid \<and> au_status a = AuthStatusActive"
proof (rule ccontr)
  assume "\<not> ?thesis"
  then have "update_active_auth aid f db = Inl SqlNoRows"
    by (intro update_active_auth_none) blast
  with assms show False by simp
qed

lemma update_usage_total:
  assumes "\<forall>u\<in>set (usages db). p u \<longrightarrow> iu_exec (g u) = iu_exec u \<and> usage_check (g u)"
  shows "update_usage p (\<lambda>u. Inr (g u)) db =
    Inr (db\<lparr>usages := map (\<lambda>u. if p u then g u else u) (usages db)\<rparr>)"
proof -
  have "update_rows p (\<lambda>u. bindE (Inr (g u)) (\<lambda>u'. bindE (fn_guard_execution_transition u u')
          (\<lambda>_. bindE (guardE SqlCheckViolation (usage_check u')) (\<lambda>_. Inr u')))) (usages db)
      = Inr (map (\<lambda>u. if p u then g u else u) (usages db))"
    using assms by (intro update_rows_eq_map) (auto simp: fn_guard_execution_transition_def)
  then show ?thesis by (simp add: update_usage_def)
qed

lemma update_usage_InrD:
  assumes "update_usage p f db = Inr db'"
    and "\<And>u u'. p u \<Longrightarrow> f u = Inr u' \<Longrightarrow> iu_id u' = iu_id u"
    and "\<forall>u\<in>set (usages db). usage_check u"
  obtains us where "db' = db\<lparr>usages := us\<rparr>" and "map iu_id us = map iu_id (usages db)"
    and "\<forall>u\<in>set us. usage_check u"
proof -
  let ?f = "\<lambda>u. bindE (f u) (\<lambda>u'. bindE (fn_guard_execution_transition u u')
          (\<lambda>_. bindE (guardE SqlCheckViolation (usage_check u')) (\<lambda>_. Inr u')))"
  from assms(1) obtain us where us: "update_rows p ?f (usages db) = Inr us" "db' = db\<lparr>usages := us\<rparr>"
    by (auto simp: update_usage_def)
  have "map iu_id us = map iu_id (usages db)"
    by (rule update_rows_keeps [OF us(1)]) (use assms(2) in auto)
  moreover have "\<forall>u\<in>set us. usage_check u"
  proof
    fix u' assume "u' \<in> set us"
    with us(1) obtain u where "u \<in> set (usages db)" "(if p u then ?f u else Inr u) = Inr u'"
      by (rule update_rows_memberE)
    with assms(3) show "usage_check u'" by (auto split: if_splits)
  qed
  ultimately show thesis using that us(2) by blast
qed

subsection \<open>Opening and closing an authorization\<close>

lemma inv_wallet_rowD:
  "billing_inv db \<Longrightarrow> w \<in> set (wallets db) \<Longrightarrow>
     wallet_check w \<and> fits (w_balance w) \<and> fits (w_reserved w) \<and>
     w_reserved w = active_sum AccountTypePrepaid (w_account w) (auths db)"
  unfolding inv_defs by blast

lemma inv_credit_rowD:
  "billing_inv db \<Longrightarrow> c \<in> set (credits db) \<Longrightarrow>
     credit_check c \<and> fits (c_exposure c) \<and> fits (c_settled c) \<and>
     c_exposure c = active_sum AccountTypePostpaid (c_account c) (auths db) + c_settled c"
  unfolding inv_defs by blast

lemma inv_auth_rowD: "billing_inv db \<Longrightarrow> a \<in> set (auths db) \<Longrightarrow> fits (au_estimated a)"
  by (simp add: inv_defs)

lemma inv_held_le:
  "billing_inv db \<Longrightarrow> a \<in> set (auths db) \<Longrightarrow> held ty acc a \<le> active_sum ty acc (auths db)"
  by (rule held_le_active_sum) (auto dest: inv_auth_rowD intro!: fits_nonneg)

lemma other_account:
  assumes "keys_ok db" and "w \<in> set (wallets db)" and "x \<in> set (wallets db)" and "w_id x \<noteq> w_id w"
  shows "w_account x \<noteq> w_account w"
  using assms by (metis distinct_key_unique keys_ok_def)

lemma other_credit_account:
  assumes "keys_ok db" and "c \<in> set (credits db)" and "x \<in> set (credits db)" and "c_id x \<noteq> c_id c"
  shows "c_account x \<noteq> c_account c"
  using assms by (metis distinct_key_unique keys_ok_def)

text \<open>A row of the wallet (credit) table replaced by one with the same key and account.\<close>

lemma keys_ok_set_wallet:
  assumes "keys_ok db" and "w \<in> set (wallets db)" and "w_id w' = w_id w" and "w_account w' = w_account w"
  shows "keys_ok (set_wallet w' db)"
    and "w_account ` set (put_row w_id w' (wallets db)) = w_account ` set (wallets db)"
    and "w_id ` set (put_row w_id w' (wallets db)) = w_id ` set (wallets db)"
proof -
  have 1: "map w_account (put_row w_id w' (wallets db)) = map w_account (wallets db)"
    using assms by (intro map_put_row_same) (auto simp: keys_ok_def)
  then show "keys_ok (set_wallet w' db)" using assms(1) by (simp add: keys_ok_def)
  from 1 show "w_account ` set (put_row w_id w' (wallets db)) = w_account ` set (wallets db)"
    by (metis set_map)
  show "w_id ` set (put_row w_id w' (wallets db)) = w_id ` set (wallets db)"
    by (metis map_key_put_row set_map)
qed

lemma keys_ok_set_credit:
  assumes "keys_ok db" and "c \<in> set (credits db)" and "c_id c' = c_id c" and "c_account c' = c_account c"
  shows "keys_ok (set_credit c' db)"
    and "c_account ` set (put_row c_id c' (credits db)) = c_account ` set (credits db)"
    and "c_id ` set (put_row c_id c' (credits db)) = c_id ` set (credits db)"
proof -
  have 1: "map c_account (put_row c_id c' (credits db)) = map c_account (credits db)"
    using assms by (intro map_put_row_same) (auto simp: keys_ok_def)
  then show "keys_ok (set_credit c' db)" using assms(1) by (simp add: keys_ok_def)
  from 1 show "c_account ` set (put_row c_id c' (credits db)) = c_account ` set (credits db)"
    by (metis set_map)
  show "c_id ` set (put_row c_id c' (credits db)) = c_id ` set (credits db)"
    by (metis map_key_put_row set_map)
qed

text \<open>
  \<open>ready a'\<close>: the funds side of a database that is about to hold the new row \<open>a'\<close>, or no longer to
  hold the row \<open>a\<close>. The two lemmas below finish the transition on the authorization table.
\<close>

definition funds_ok :: "(account_type \<Rightarrow> id \<Rightarrow> decimal) \<Rightarrow> billing_db \<Rightarrow> bool" where
  "funds_ok f db \<longleftrightarrow>
     (\<forall>w\<in>set (wallets db). wallet_check w \<and> fits (w_balance w) \<and> fits (w_reserved w) \<and>
        w_reserved w = f AccountTypePrepaid (w_account w)) \<and>
     (\<forall>c\<in>set (credits db). credit_check c \<and> fits (c_exposure c) \<and> fits (c_settled c) \<and>
        c_exposure c = f AccountTypePostpaid (c_account c) + c_settled c)"

lemma funds_ok_frame:
  "funds_ok f (db\<lparr>auths := as, usages := us\<rparr>) = funds_ok f db"
  "funds_ok f (db\<lparr>auths := as\<rparr>) = funds_ok f db"
  "funds_ok f (db\<lparr>usages := us\<rparr>) = funds_ok f db"
  "funds_ok f (db\<lparr>wallet_ledger := wl\<rparr>) = funds_ok f db"
  "funds_ok f (db\<lparr>credit_ledger := cl\<rparr>) = funds_ok f db"
  "funds_ok f (set_auth a db) = funds_ok f db"
  unfolding funds_ok_def by (simp_all add: set_auth_def)

lemma inv_funds_ok: "billing_inv db \<Longrightarrow> funds_ok (\<lambda>ty acc. active_sum ty acc (auths db)) db"
  unfolding inv_defs funds_ok_def by blast

lemma funds_ok_set_wallet:
  assumes "funds_ok f db" and "keys_ok db" and "w \<in> set (wallets db)"
    and "w_id w' = w_id w" and "w_account w' = w_account w"
    and "wallet_check w'" and "fits (w_balance w')" and "fits (w_reserved w')"
    and "w_reserved w' = g AccountTypePrepaid (w_account w)"
    and "\<And>acc. acc \<noteq> w_account w \<Longrightarrow> g AccountTypePrepaid acc = f AccountTypePrepaid acc"
    and "\<And>acc. g AccountTypePostpaid acc = f AccountTypePostpaid acc"
  shows "funds_ok g (set_wallet w' db)"
proof -
  have "\<forall>x\<in>set (put_row w_id w' (wallets db)). wallet_check x \<and> fits (w_balance x) \<and>
      fits (w_reserved x) \<and> w_reserved x = g AccountTypePrepaid (w_account x)"
  proof (rule ball_put_row)
    fix x assume x: "x \<in> set (wallets db)" "w_id x \<noteq> w_id w'"
    with assms(2-4) have "w_account x \<noteq> w_account w" by (metis other_account)
    with x assms(10) have "g AccountTypePrepaid (w_account x) = f AccountTypePrepaid (w_account x)"
      by blast
    with x assms(1) show "wallet_check x \<and> fits (w_balance x) \<and> fits (w_reserved x) \<and>
        w_reserved x = g AccountTypePrepaid (w_account x)"
      unfolding funds_ok_def by metis
  qed (use assms in auto)
  with assms(1,11) show ?thesis unfolding funds_ok_def set_sel by metis
qed

lemma funds_ok_set_credit:
  assumes "funds_ok f db" and "keys_ok db" and "c \<in> set (credits db)"
    and "c_id c' = c_id c" and "c_account c' = c_account c"
    and "credit_check c'" and "fits (c_exposure c')" and "fits (c_settled c')"
    and "c_exposure c' = g AccountTypePostpaid (c_account c) + c_settled c'"
    and "\<And>acc. acc \<noteq> c_account c \<Longrightarrow> g AccountTypePostpaid acc = f AccountTypePostpaid acc"
    and "\<And>acc. g AccountTypePrepaid acc = f AccountTypePrepaid acc"
  shows "funds_ok g (set_credit c' db)"
proof -
  have "\<forall>x\<in>set (put_row c_id c' (credits db)). credit_check x \<and> fits (c_exposure x) \<and>
      fits (c_settled x) \<and> c_exposure x = g AccountTypePostpaid (c_account x) + c_settled x"
  proof (rule ball_put_row)
    fix x assume x: "x \<in> set (credits db)" "c_id x \<noteq> c_id c'"
    with assms(2-4) have "c_account x \<noteq> c_account c" by (metis other_credit_account)
    with x assms(10) have "g AccountTypePostpaid (c_account x) = f AccountTypePostpaid (c_account x)"
      by blast
    with x assms(1) show "credit_check x \<and> fits (c_exposure x) \<and> fits (c_settled x) \<and>
        c_exposure x = g AccountTypePostpaid (c_account x) + c_settled x"
      unfolding funds_ok_def by metis
  qed (use assms in auto)
  with assms(1,11) show ?thesis unfolding funds_ok_def set_sel by metis
qed

definition backed :: "billing_db \<Rightarrow> authorization \<Rightarrow> bool" where
  "backed db a \<longleftrightarrow>
     (case au_type a of AccountTypePrepaid \<Rightarrow> au_account a \<in> w_account ` set (wallets db)
      | AccountTypePostpaid \<Rightarrow> au_account a \<in> c_account ` set (credits db)
      | AccountTypeOther s \<Rightarrow> False)"

definition same_tables :: "billing_db \<Rightarrow> billing_db \<Rightarrow> bool" where
  "same_tables db db2 \<longleftrightarrow>
     w_account ` set (wallets db2) = w_account ` set (wallets db) \<and>
     c_account ` set (credits db2) = c_account ` set (credits db) \<and>
     iu_id ` set (usages db2) = iu_id ` set (usages db) \<and>
     (\<forall>u\<in>set (usages db2). usage_check u)"

lemma same_tables_backed: "same_tables db db2 \<Longrightarrow> backed db2 a = backed db a"
  by (simp add: same_tables_def backed_def split: account_type.splits)

lemma rows_ok_alt:
  "rows_ok db \<and> sums_ok db \<longleftrightarrow>
     funds_ok (\<lambda>ty acc. active_sum ty acc (auths db)) db \<and>
     (\<forall>a\<in>set (auths db). fits (au_estimated a) \<and> au_usage a \<in> iu_id ` set (usages db) \<and>
        (au_status a = AuthStatusActive \<longrightarrow> backed db a)) \<and>
     (\<forall>u\<in>set (usages db). usage_check u)"
  unfolding rows_ok_def sums_ok_def funds_ok_def backed_def by blast

lemma billing_inv_alt:
  "billing_inv db \<longleftrightarrow> keys_ok db \<and> funds_ok (\<lambda>ty acc. active_sum ty acc (auths db)) db \<and>
     (\<forall>a\<in>set (auths db). fits (au_estimated a) \<and> au_usage a \<in> iu_id ` set (usages db) \<and>
        (au_status a = AuthStatusActive \<longrightarrow> backed db a)) \<and>
     (\<forall>u\<in>set (usages db). usage_check u) \<and> open_ok db \<and> ledger_refs_ok db"
  unfolding billing_inv_def using rows_ok_alt by blast

lemma ledger_refs_okD:
  "ledger_refs_ok db \<Longrightarrow> e \<in> set (wallet_ledger db) \<Longrightarrow> wl_auth e = Some x \<Longrightarrow> x \<in> au_id ` set (auths db)"
  "ledger_refs_ok db \<Longrightarrow> f \<in> set (credit_ledger db) \<Longrightarrow> cl_auth f = Some x \<Longrightarrow> x \<in> au_id ` set (auths db)"
  unfolding ledger_refs_ok_def list_all_iff by (metis option.simps(5))+

lemma open_okD:
  "open_ok db \<Longrightarrow> e \<in> set (wallet_ledger db) \<Longrightarrow> wl_type e = LedgerDebit \<Longrightarrow> wl_usage e = Some u \<Longrightarrow>
     u \<in> au_usage ` set (auths db)"
  "open_ok db \<Longrightarrow> f \<in> set (credit_ledger db) \<Longrightarrow> cl_type f = CreditLedgerSettled \<Longrightarrow>
     cl_usage f = Some u \<Longrightarrow> u \<in> au_usage ` set (auths db)"
  "open_ok db \<Longrightarrow> a \<in> set (auths db) \<Longrightarrow> au_status a = AuthStatusActive \<Longrightarrow>
     e \<in> set (wallet_ledger db) \<Longrightarrow> \<not> closes_wallet a e"
  "open_ok db \<Longrightarrow> a \<in> set (auths db) \<Longrightarrow> au_status a = AuthStatusActive \<Longrightarrow>
     f \<in> set (credit_ledger db) \<Longrightarrow> \<not> closes_credit a f"
  unfolding open_ok_def by blast+

lemma same_tables_usages: "same_tables db db2 \<Longrightarrow> iu_id ` set (usages db2) = iu_id ` set (usages db)"
  by (simp add: same_tables_def)

lemma billing_inv_authD:
  "billing_inv db \<Longrightarrow> a \<in> set (auths db) \<Longrightarrow> fits (au_estimated a) \<and>
     au_usage a \<in> iu_id ` set (usages db) \<and> (au_status a = AuthStatusActive \<longrightarrow> backed db a)"
  unfolding billing_inv_alt by blast

lemma open_ok_fresh:
  assumes "open_ok db" and "ledger_refs_ok db"
    and "au_id a \<notin> au_id ` set (auths db)" and "au_usage a \<notin> au_usage ` set (auths db)"
  shows "e \<in> set (wallet_ledger db) \<Longrightarrow> \<not> closes_wallet a e"
    and "f \<in> set (credit_ledger db) \<Longrightarrow> \<not> closes_credit a f"
  unfolding closes_wallet_def closes_credit_def
  using assms ledger_refs_okD open_okD(1,2) by metis+

lemma billing_inv_openI:
  assumes inv: "billing_inv db" and keys: "keys_ok db2" and tabs: "same_tables db db2"
    and funds: "funds_ok (\<lambda>ty acc. active_sum ty acc (auths db2)) db2"
    and auths: "auths db2 = auths db @ [a']"
    and new: "fits (au_estimated a')" "au_usage a' \<in> iu_id ` set (usages db)" "backed db a'"
    and wl: "wallet_ledger db2 = wallet_ledger db"
    and cl: "credit_ledger db2 = credit_ledger db @ es" "\<forall>e\<in>set es. cl_type e = CreditLedgerAuthorized"
    and refs: "ledger_refs_ok db2"
  shows "billing_inv db2"
proof -
  have fresh: "au_id a' \<notin> au_id ` set (auths db)" "au_usage a' \<notin> au_usage ` set (auths db)"
    using keys unfolding keys_ok_def auths by simp_all
  have old: "open_ok db" "ledger_refs_ok db" using inv by (simp_all add: billing_inv_def)
  have "open_ok db2"
    unfolding open_ok_def
  proof (intro conjI ballI allI impI)
    fix b e assume b: "b \<in> set (auths db2)" "au_status b = AuthStatusActive" "e \<in> set (wallet_ledger db2)"
    then show "\<not> closes_wallet b e"
      using open_okD(3) [OF old(1)] open_ok_fresh(1) [OF old fresh] auths wl by auto
  next
    fix b e assume b: "b \<in> set (auths db2)" "au_status b = AuthStatusActive" "e \<in> set (credit_ledger db2)"
    show "\<not> closes_credit b e"
    proof (cases "e \<in> set es")
      case True
      with cl(2) show ?thesis by (simp add: closes_credit_def)
    next
      case False
      with b show ?thesis
        using open_okD(4) [OF old(1)] open_ok_fresh(2) [OF old fresh] auths cl(1) by auto
    qed
  next
    fix e u assume "e \<in> set (wallet_ledger db2)" "wl_type e = LedgerDebit" "wl_usage e = Some u"
    then show "u \<in> au_usage ` set (auths db2)" using open_okD(1) [OF old(1)] auths wl by auto
  next
    fix e u assume "e \<in> set (credit_ledger db2)" "cl_type e = CreditLedgerSettled" "cl_usage e = Some u"
    then show "u \<in> au_usage ` set (auths db2)" using open_okD(2) [OF old(1)] auths cl by auto
  qed
  moreover have "\<forall>a\<in>set (auths db2). fits (au_estimated a) \<and> au_usage a \<in> iu_id ` set (usages db2) \<and>
        (au_status a = AuthStatusActive \<longrightarrow> backed db2 a)"
  proof
    fix b assume "b \<in> set (auths db2)"
    then have "b \<in> set (auths db) \<or> b = a'" using auths by auto
    then show "fits (au_estimated b) \<and> au_usage b \<in> iu_id ` set (usages db2) \<and>
        (au_status b = AuthStatusActive \<longrightarrow> backed db2 b)"
      unfolding same_tables_backed [OF tabs] same_tables_usages [OF tabs]
      using billing_inv_authD [OF inv] new by blast
  qed
  moreover have "\<forall>u\<in>set (usages db2). usage_check u"
    using tabs by (simp add: same_tables_def)
  ultimately show ?thesis using keys funds refs unfolding billing_inv_alt by blast
qed

lemma billing_inv_closeI:
  assumes inv: "billing_inv db" and keys: "keys_ok db2" and tabs: "same_tables db db2"
    and a: "a \<in> set (auths db)" "au_status a = AuthStatusActive"
    and auths: "auths db2 = put_row au_id a' (auths db)"
    and a': "au_id a' = au_id a" "au_usage a' = au_usage a" "au_estimated a' = au_estimated a"
      "au_status a' \<noteq> AuthStatusActive"
    and funds: "funds_ok (\<lambda>ty acc. active_sum ty acc (auths db2)) db2"
    and wl: "wallet_ledger db2 = wallet_ledger db @ es"
      "\<forall>e\<in>set es. (wl_type e = LedgerRelease \<longrightarrow> wl_auth e = Some (au_id a)) \<and>
                  (wl_type e = LedgerDebit \<longrightarrow> wl_usage e = Some (au_usage a))"
    and cl: "credit_ledger db2 = credit_ledger db @ fs"
      "\<forall>e\<in>set fs. (cl_type e = CreditLedgerReleased \<longrightarrow> cl_auth e = Some (au_id a)) \<and>
                  (cl_type e = CreditLedgerSettled \<longrightarrow> cl_usage e = Some (au_usage a))"
    and refs: "ledger_refs_ok db2"
  shows "billing_inv db2"
proof -
  have dist: "distinct (map au_id (auths db))" "distinct (map au_usage (auths db))"
    using inv by (simp_all add: billing_inv_def keys_ok_def)
  have usages: "au_usage ` set (auths db2) = au_usage ` set (auths db)"
    using map_put_row_same [OF dist(1) a(1), of a' au_usage] a' auths by (metis set_map)
  have other: "b \<in> set (auths db) \<and> au_id b \<noteq> au_id a \<and> au_usage b \<noteq> au_usage a"
    if "b \<in> set (auths db2)" "au_status b = AuthStatusActive" for b
  proof -
    have "b \<in> set (auths db) \<and> au_id b \<noteq> au_id a"
      using that auths a' by (auto simp: put_row_def)
    with distinct_key_unique [OF dist(2), of b a] a(1) show ?thesis by auto
  qed
  have old: "open_ok db" using inv by (simp add: billing_inv_def)
  have "open_ok db2"
    unfolding open_ok_def
  proof (intro conjI ballI allI impI)
    fix b e assume b: "b \<in> set (auths db2)" "au_status b = AuthStatusActive" "e \<in> set (wallet_ledger db2)"
    show "\<not> closes_wallet b e"
    proof (cases "e \<in> set es")
      case True
      with wl(2) other [OF b(1,2)] show ?thesis unfolding closes_wallet_def by (metis option.inject)
    next
      case False
      with b wl(1) other [OF b(1,2)] show ?thesis using open_okD(3) [OF old] by auto
    qed
  next
    fix b e assume b: "b \<in> set (auths db2)" "au_status b = AuthStatusActive" "e \<in> set (credit_ledger db2)"
    show "\<not> closes_credit b e"
    proof (cases "e \<in> set fs")
      case True
      with cl(2) other [OF b(1,2)] show ?thesis unfolding closes_credit_def by (metis option.inject)
    next
      case False
      with b cl(1) other [OF b(1,2)] show ?thesis using open_okD(4) [OF old] by auto
    qed
  next
    fix e u assume e: "e \<in> set (wallet_ledger db2)" "wl_type e = LedgerDebit" "wl_usage e = Some u"
    then have "u \<in> au_usage ` set (auths db)"
      using open_okD(1) [OF old] wl a(1) by (cases "e \<in> set es") auto
    then show "u \<in> au_usage ` set (auths db2)" by (simp only: usages)
  next
    fix e u assume e: "e \<in> set (credit_ledger db2)" "cl_type e = CreditLedgerSettled" "cl_usage e = Some u"
    then have "u \<in> au_usage ` set (auths db)"
      using open_okD(2) [OF old] cl a(1) by (cases "e \<in> set fs") auto
    then show "u \<in> au_usage ` set (auths db2)" by (simp only: usages)
  qed
  moreover have "\<forall>b\<in>set (auths db2). fits (au_estimated b) \<and> au_usage b \<in> iu_id ` set (usages db2) \<and>
        (au_status b = AuthStatusActive \<longrightarrow> backed db2 b)"
    unfolding same_tables_backed [OF tabs] same_tables_usages [OF tabs] auths
    by (rule ball_put_row) (use billing_inv_authD [OF inv] a a' in \<open>simp_all\<close>)
  moreover have "\<forall>u\<in>set (usages db2). usage_check u"
    using tabs by (simp add: same_tables_def)
  ultimately show ?thesis using keys funds refs unfolding billing_inv_alt by blast
qed

subsection \<open>Closing against a wallet and against a credit account\<close>

lemma funds_ok_cong: "wallets db2 = wallets db1 \<Longrightarrow> credits db2 = credits db1 \<Longrightarrow> funds_ok f db2 = funds_ok f db1"
  unfolding funds_ok_def by simp

lemma keys_ok_cong:
  assumes "keys_ok db1" and "wallets db2 = wallets db1" and "credits db2 = credits db1"
    and "map au_id (auths db2) = map au_id (auths db1)" and "map au_usage (auths db2) = map au_usage (auths db1)"
    and "map iu_id (usages db2) = map iu_id (usages db1)"
  shows "keys_ok db2"
  using assms unfolding keys_ok_def by simp

lemma active_sum_close:
  assumes "keys_ok db" and "a \<in> set (auths db)" and "au_status a = AuthStatusActive"
    and "au_id a' = au_id a" and "au_status a' \<noteq> AuthStatusActive"
  shows "active_sum ty acc (put_row au_id a' (auths db)) =
    active_sum ty acc (auths db) - (if au_type a = ty \<and> au_account a = acc then au_estimated a else 0)"
  using assms active_sum_put_row [of "auths db" a a'] by (auto simp: keys_ok_def held_def)

text \<open>
  \<open>closing db a a' db2 es fs\<close>: what every transaction that ends an authorization does outside the
  funds tables. The active row \<open>a\<close> becomes the terminal row \<open>a'\<close>, usage rows keep their keys, and
  the new ledger entries \<open>es\<close> and \<open>fs\<close> refer to \<open>a\<close> alone.
\<close>

definition closing ::
    "billing_db \<Rightarrow> authorization \<Rightarrow> authorization \<Rightarrow> billing_db \<Rightarrow> wallet_entry list \<Rightarrow> credit_entry list \<Rightarrow> bool" where
  "closing db a a' db2 es fs \<longleftrightarrow>
     a \<in> set (auths db) \<and> au_status a = AuthStatusActive \<and>
     au_id a' = au_id a \<and> au_usage a' = au_usage a \<and> au_estimated a' = au_estimated a \<and>
     au_status a' \<noteq> AuthStatusActive \<and> auths db2 = put_row au_id a' (auths db) \<and>
     map iu_id (usages db2) = map iu_id (usages db) \<and> (\<forall>u\<in>set (usages db2). usage_check u) \<and>
     wallet_ledger db2 = wallet_ledger db @ es \<and>
     (\<forall>e\<in>set es. (wl_type e = LedgerRelease \<longrightarrow> wl_auth e = Some (au_id a)) \<and>
                  (wl_type e = LedgerDebit \<longrightarrow> wl_usage e = Some (au_usage a))) \<and>
     credit_ledger db2 = credit_ledger db @ fs \<and>
     (\<forall>e\<in>set fs. (cl_type e = CreditLedgerReleased \<longrightarrow> cl_auth e = Some (au_id a)) \<and>
                  (cl_type e = CreditLedgerSettled \<longrightarrow> cl_usage e = Some (au_usage a))) \<and>
     ledger_refs_ok db2"

lemma closing_invI:
  assumes "closing db a a' db2 es fs" and "billing_inv db"
    and "keys_ok db1" and "wallets db2 = wallets db1" and "credits db2 = credits db1"
    and "auths db1 = auths db" and "usages db1 = usages db"
    and "w_account ` set (wallets db1) = w_account ` set (wallets db)"
    and "c_account ` set (credits db1) = c_account ` set (credits db)"
    and "funds_ok (\<lambda>ty acc. active_sum ty acc (put_row au_id a' (auths db))) db1"
  shows "billing_inv db2"
proof -
  have inv: "keys_ok db" using assms(2) by (simp add: billing_inv_def)
  have cl: "a \<in> set (auths db)" "au_id a' = au_id a" "au_usage a' = au_usage a"
    "auths db2 = put_row au_id a' (auths db)" "map iu_id (usages db2) = map iu_id (usages db)"
    "\<forall>u\<in>set (usages db2). usage_check u"
    using assms(1) by (simp_all add: closing_def)
  have "keys_ok db2"
  proof (rule keys_ok_cong [OF assms(3-5)])
    show "map au_usage (auths db2) = map au_usage (auths db1)"
      using inv cl assms(6) by (simp add: keys_ok_def map_put_row_same)
  qed (use cl assms(6,7) in simp_all)
  moreover have "same_tables db db2"
    using assms(4,5,8,9) cl(5,6) by (simp add: same_tables_def) (metis set_map)
  moreover have "funds_ok (\<lambda>ty acc. active_sum ty acc (auths db2)) db2"
    using assms(4,5,10) cl(4) by (subst funds_ok_cong [of _ db1]) simp_all
  ultimately show ?thesis
    using assms(1) billing_inv_closeI [OF assms(2)] unfolding closing_def by blast
qed

lemma closing_wallet:
  assumes cl: "closing db a a' db2 es fs" and inv: "billing_inv db"
    and w: "w \<in> set (wallets db)" "w_account w = au_account a" "au_type a = AccountTypePrepaid"
    and w': "w_id w' = w_id w" "w_account w' = w_account w" "w_reserved w' = w_reserved w - au_estimated a"
      "wallet_check w'" "fits (w_balance w')"
    and db2: "wallets db2 = put_row w_id w' (wallets db)" "credits db2 = credits db"
  shows "billing_inv db2"
proof -
  have keys: "keys_ok db" using inv by (simp add: billing_inv_def)
  note ks = keys_ok_set_wallet [OF keys w(1) w'(1,2)]
  have row: "fits (w_reserved w)" "w_reserved w = active_sum AccountTypePrepaid (w_account w) (auths db)"
    using inv_wallet_rowD [OF inv w(1)] by blast+
  have a: "a \<in> set (auths db)" "au_status a = AuthStatusActive" "au_id a' = au_id a"
    "au_status a' \<noteq> AuthStatusActive"
    using cl by (simp_all add: closing_def)
  have "fits (au_estimated a)" using inv a(1) by (rule inv_auth_rowD)
  then have fit: "fits (w_reserved w')"
    using row(1) w'(3,4) by (auto simp: wallet_check_def intro!: fits_diff)
  have "funds_ok (\<lambda>ty acc. active_sum ty acc (put_row au_id a' (auths db))) (set_wallet w' db)"
    by (rule funds_ok_set_wallet [OF inv_funds_ok [OF inv] keys w(1)])
       (use w' fit row w(2,3) active_sum_close [OF keys a] in \<open>auto\<close>)
  then show ?thesis
    using closing_invI [OF cl inv ks(1)] ks db2 by simp
qed

lemma closing_credit:
  assumes cl: "closing db a a' db2 es fs" and inv: "billing_inv db"
    and c: "c \<in> set (credits db)" "c_account c = au_account a" "au_type a = AccountTypePostpaid"
    and c': "c_id c' = c_id c" "c_account c' = c_account c" "credit_check c'"
      "fits (c_exposure c')" "fits (c_settled c')"
      "c_exposure c' - c_settled c' = c_exposure c - c_settled c - au_estimated a"
    and db2: "credits db2 = put_row c_id c' (credits db)" "wallets db2 = wallets db"
  shows "billing_inv db2"
proof -
  have keys: "keys_ok db" using inv by (simp add: billing_inv_def)
  note ks = keys_ok_set_credit [OF keys c(1) c'(1,2)]
  have row: "c_exposure c = active_sum AccountTypePostpaid (c_account c) (auths db) + c_settled c"
    using inv_credit_rowD [OF inv c(1)] by blast
  have a: "a \<in> set (auths db)" "au_status a = AuthStatusActive" "au_id a' = au_id a"
    "au_status a' \<noteq> AuthStatusActive"
    using cl by (simp_all add: closing_def)
  have "funds_ok (\<lambda>ty acc. active_sum ty acc (put_row au_id a' (auths db))) (set_credit c' db)"
    by (rule funds_ok_set_credit [OF inv_funds_ok [OF inv] keys c(1)])
       (use c' row c(2,3) active_sum_close [OF keys a] in \<open>auto\<close>)
  then show ?thesis
    using closing_invI [OF cl inv ks(1)] ks db2 by simp
qed

text \<open>Transactions that leave every authorization alone.\<close>

lemma billing_inv_sameI:
  assumes inv: "billing_inv db" and keys: "keys_ok db2" and tabs: "same_tables db db2"
    and auths: "auths db2 = auths db"
    and funds: "funds_ok (\<lambda>ty acc. active_sum ty acc (auths db)) db2"
    and wl: "wallet_ledger db2 = wallet_ledger db @ es"
      "\<forall>e\<in>set es. wl_type e \<noteq> LedgerRelease \<and> wl_type e \<noteq> LedgerDebit"
    and cl: "credit_ledger db2 = credit_ledger db" and refs: "ledger_refs_ok db2"
  shows "billing_inv db2"
proof -
  have old: "open_ok db" using inv by (simp add: billing_inv_def)
  have "open_ok db2"
    unfolding open_ok_def auths cl wl(1) set_append
  proof (intro conjI ballI allI impI)
    fix a e assume a: "a \<in> set (auths db)" "au_status a = AuthStatusActive"
      "e \<in> set (wallet_ledger db) \<union> set es"
    show "\<not> closes_wallet a e"
    proof (cases "e \<in> set es")
      case True
      with wl(2) show ?thesis by (simp add: closes_wallet_def)
    next
      case False
      with a show ?thesis using open_okD(3) [OF old] by blast
    qed
  next
    fix e u assume "e \<in> set (wallet_ledger db) \<union> set es" "wl_type e = LedgerDebit" "wl_usage e = Some u"
    with wl(2) show "u \<in> au_usage ` set (auths db)" using open_okD(1) [OF old] by blast
  qed (use open_okD [OF old] in blast)+
  moreover have "\<forall>a\<in>set (auths db2). fits (au_estimated a) \<and> au_usage a \<in> iu_id ` set (usages db2) \<and>
        (au_status a = AuthStatusActive \<longrightarrow> backed db2 a)"
    unfolding same_tables_backed [OF tabs] same_tables_usages [OF tabs] auths
    using billing_inv_authD [OF inv] by blast
  moreover have "\<forall>u\<in>set (usages db2). usage_check u"
    using tabs by (simp add: same_tables_def)
  ultimately show ?thesis using keys funds refs auths unfolding billing_inv_alt by simp
qed

lemma inv_usages_only:
  assumes "billing_inv db" and "map iu_id us = map iu_id (usages db)" and "\<forall>u\<in>set us. usage_check u"
    and "ledger_refs_ok (db\<lparr>usages := us\<rparr>)"
  shows "billing_inv (db\<lparr>usages := us\<rparr>)"
proof (rule billing_inv_sameI [OF assms(1), where es = "[]"])
  show "keys_ok (db\<lparr>usages := us\<rparr>)"
    by (rule keys_ok_cong [of db]) (use assms in \<open>simp_all add: billing_inv_def\<close>)
  show "same_tables db (db\<lparr>usages := us\<rparr>)"
    using assms(2,3) by (simp add: same_tables_def) (metis set_map)
  show "funds_ok (\<lambda>ty acc. active_sum ty acc (auths db)) (db\<lparr>usages := us\<rparr>)"
    unfolding funds_ok_frame by (rule inv_funds_ok [OF assms(1)])
qed (use assms(4) in simp_all)

lemma ledger_refs_ok_extend:
  assumes "ledger_refs_ok db" and "wallet_ledger db2 = wallet_ledger db @ es"
    and "credit_ledger db2 = credit_ledger db @ fs"
    and "au_id ` set (auths db) \<subseteq> au_id ` set (auths db2)"
    and "iu_id ` set (usages db) \<subseteq> iu_id ` set (usages db2)"
    and "\<forall>e\<in>set es. wl_auth e \<in> insert None (Some ` au_id ` set (auths db)) \<and>
                     wl_usage e \<in> insert None (Some ` iu_id ` set (usages db))"
    and "\<forall>e\<in>set fs. cl_auth e \<in> insert None (Some ` au_id ` set (auths db)) \<and>
                     cl_usage e \<in> insert None (Some ` iu_id ` set (usages db))"
  shows "ledger_refs_ok db2"
proof -
  have ref_in: "(case x of None \<Rightarrow> True | Some y \<Rightarrow> y \<in> S) \<longleftrightarrow> x \<in> insert None (Some ` S)" for x :: "id option" and S
    by (auto split: option.splits)
  have mono: "insert None (Some ` au_id ` set (auths db)) \<subseteq> insert None (Some ` au_id ` set (auths db2))"
      "insert None (Some ` iu_id ` set (usages db)) \<subseteq> insert None (Some ` iu_id ` set (usages db2))"
    using assms(4,5) by blast+
  note old = assms(1) [unfolded ledger_refs_ok_def ref_in list_all_iff]
  have 1: "wl_auth e \<in> insert None (Some ` au_id ` set (auths db2)) \<and>
      wl_usage e \<in> insert None (Some ` iu_id ` set (usages db2))" if "e \<in> set (wallet_ledger db @ es)" for e
    using that bspec [OF conjunct1 [OF old], of e] bspec [OF assms(6), of e]
      subsetD [OF mono(1), of "wl_auth e"] subsetD [OF mono(2), of "wl_usage e"] by auto
  have 2: "cl_auth e \<in> insert None (Some ` au_id ` set (auths db2)) \<and>
      cl_usage e \<in> insert None (Some ` iu_id ` set (usages db2))" if "e \<in> set (credit_ledger db @ fs)" for e
    using that bspec [OF conjunct2 [OF old], of e] bspec [OF assms(7), of e]
      subsetD [OF mono(1), of "cl_auth e"] subsetD [OF mono(2), of "cl_usage e"] by auto
  show ?thesis
    unfolding ledger_refs_ok_def ref_in assms(2,3) list_all_iff
    by (intro conjI ballI conjunct1 [OF 1] conjunct2 [OF 1] conjunct1 [OF 2] conjunct2 [OF 2])
qed

lemma refs_usages_only:
  assumes "ledger_refs_ok db" and "map iu_id us = map iu_id (usages db)"
  shows "ledger_refs_ok (db\<lparr>usages := us\<rparr>)"
proof -
  have "iu_id ` set us = iu_id ` set (usages db)" using assms(2) by (metis set_map)
  then show ?thesis by (intro ledger_refs_ok_extend [OF assms(1), of _ "[]" "[]"]) simp_all
qed

end
