(* ===== verification/Billing_Reservation.thy ===== *)
theory Billing_Reservation
  imports Billing_Invariant
begin

text \<open>
  \<open>internal/billing/reservation.go\<close>: \<open>Reserve\<close> (prepaid and postpaid) and \<open>Release\<close>. Each is one
  transaction: the statements of the source in their order, every early return a value, and the
  database of the caller when the body fails. \<open>uuid.New()\<close> and \<open>time.Now()\<close> are arguments.
\<close>

datatype billing_error =
    ErrInsufficientFunds
  | ErrCreditLimitExceeded
  | ErrAlreadyAuthorized
  | ErrUnknownAccountType account_type
  | ErrNoWalletRow id
  | ErrSQL string sql_error

definition wrap :: "string \<Rightarrow> sql_error + 'a \<Rightarrow> billing_error + 'a" where
  "wrap lbl = mapErr (ErrSQL lbl)"

lemma wrap_simps [simp, go_simps]:
  "wrap lbl (Inl e) = Inl (ErrSQL lbl e)"
  "wrap lbl (Inr a) = Inr a"
  "wrap lbl m = Inr a \<longleftrightarrow> m = Inr a"
  by (simp_all add: wrap_def)

definition exec :: "faults \<Rightarrow> string \<Rightarrow> sql_error + 'a \<Rightarrow> billing_error + 'a" where
  "exec flt lbl r = wrap lbl (stmt flt lbl r)"

lemma exec_eq_Inr [simp]: "exec flt lbl r = Inr a \<longleftrightarrow> \<not> flt lbl \<and> r = Inr a"
  by (simp add: exec_def)

lemma exec_ok [simp, go_simps]: "\<not> flt lbl \<Longrightarrow> exec flt lbl (Inr a) = Inr a"
  by (simp add: exec_def)

record reserve_input =
  ri_usage :: id
  ri_account :: id
  ri_type :: account_type
  ri_estimated :: decimal
  ri_currency :: string

record reserve_output =
  ro_auth :: id
  ro_expires_at :: int

definition new_auth :: "id \<Rightarrow> reserve_input \<Rightarrow> int \<Rightarrow> authorization" where
  "new_auth authID inp expiresAt =
     \<lparr>au_id = authID, au_usage = ri_usage inp, au_account = ri_account inp, au_type = ri_type inp,
      au_estimated = ri_estimated inp, au_actual = None, au_currency = ri_currency inp,
      au_status = AuthStatusActive, au_expires_at = expiresAt, au_committed_at = None,
      au_released_at = None, au_expired_at = None\<rparr>"

text \<open>\<open>isDuplicateKey\<close>: the insert of the authorization row maps a unique violation to its own error.\<close>

definition insert_auth_stmt :: "faults \<Rightarrow> authorization \<Rightarrow> billing_db \<Rightarrow> billing_error + billing_db" where
  "insert_auth_stmt flt a db =
     (case stmt flt ''insert billing_authorizations'' (insert_auth a db) of
        Inl e \<Rightarrow> Inl (if e = SqlDuplicateKey then ErrAlreadyAuthorized
                     else ErrSQL ''insert billing_authorizations'' e)
      | Inr db' \<Rightarrow> Inr db')"

definition has_active_account :: "id \<Rightarrow> billing_db \<Rightarrow> bool" where
  "has_active_account acc db \<longleftrightarrow>
     list_ex (\<lambda>b. ba_id b = acc \<and> ba_status b = AccountActive) (accounts db)"

definition lock_active_wallet :: "id \<Rightarrow> billing_db \<Rightarrow> sql_error + wallet" where
  "lock_active_wallet acc db = select1 (\<lambda>w. w_account w = acc \<and> has_active_account acc db) (wallets db)"

definition lock_active_credit :: "id \<Rightarrow> billing_db \<Rightarrow> sql_error + credit_account" where
  "lock_active_credit acc db = select1 (\<lambda>c. c_account c = acc \<and> has_active_account acc db) (credits db)"

definition mark_reserved :: "id \<Rightarrow> billing_db \<Rightarrow> sql_error + billing_db" where
  "mark_reserved uid =
     update_usage (\<lambda>u. iu_id u = uid \<and> iu_billing u = BillingPending)
       (\<lambda>u. Inr (u\<lparr>iu_billing := BillingReserved\<rparr>))"

definition reservePrepaid ::
    "faults \<Rightarrow> int \<Rightarrow> id \<Rightarrow> reserve_input \<Rightarrow> billing_db \<Rightarrow> (billing_error + reserve_output) \<times> billing_db" where
  "reservePrepaid flt expiresAt authID inp db = run_tx db (
     bindE (exec flt ''begin reserve prepaid'' (Inr ())) (\<lambda>_.
     bindE (exec flt ''wallet lock'' (lock_active_wallet (ri_account inp) db)) (\<lambda>w.
     let available = w_balance w - w_reserved w in
     if available < ri_estimated inp then Inl ErrInsufficientFunds else
     bindE (exec flt ''update wallet reserved''
       (update_wallet (w_id w) w_balance (\<lambda>x. w_reserved x + ri_estimated inp) db)) (\<lambda>db1.
     bindE (insert_auth_stmt flt (new_auth authID inp expiresAt) db1) (\<lambda>db2.
     bindE (exec flt ''update inference_usage billing_status'' (mark_reserved (ri_usage inp) db2)) (\<lambda>db3.
     exec flt ''commit reserve prepaid''
       (commit \<lparr>ro_auth = authID, ro_expires_at = expiresAt\<rparr> db3)))))))"

definition reservePostpaid ::
    "faults \<Rightarrow> int \<Rightarrow> id \<Rightarrow> reserve_input \<Rightarrow> billing_db \<Rightarrow> (billing_error + reserve_output) \<times> billing_db" where
  "reservePostpaid flt expiresAt authID inp db = run_tx db (
     bindE (exec flt ''begin reserve postpaid'' (Inr ())) (\<lambda>_.
     bindE (exec flt ''credit account lock'' (lock_active_credit (ri_account inp) db)) (\<lambda>c.
     let available = c_limit c - c_exposure c in
     if available < ri_estimated inp then Inl ErrCreditLimitExceeded else
     bindE (exec flt ''update credit total_exposure''
       (update_credit (c_id c) (\<lambda>x. c_exposure x + ri_estimated inp) c_settled True db)) (\<lambda>db1.
     bindE (insert_auth_stmt flt (new_auth authID inp expiresAt) db1) (\<lambda>db2.
     bindE (exec flt ''insert credit_ledger authorized''
       (insert_credit_ledger
          \<lparr>cl_credit = c_id c, cl_type = CreditLedgerAuthorized, cl_amount = ri_estimated inp,
           cl_usage = Some (ri_usage inp), cl_auth = None,
           cl_description = ''admission reservation''\<rparr> db2)) (\<lambda>db3.
     bindE (exec flt ''update inference_usage billing_status'' (mark_reserved (ri_usage inp) db3)) (\<lambda>db4.
     exec flt ''commit reserve postpaid''
       (commit \<lparr>ro_auth = authID, ro_expires_at = expiresAt\<rparr> db4))))))))"

definition Reserve ::
    "faults \<Rightarrow> int \<Rightarrow> int \<Rightarrow> id \<Rightarrow> reserve_input \<Rightarrow> billing_db \<Rightarrow>
     (billing_error + reserve_output) \<times> billing_db" where
  "Reserve flt now authTTL authID inp db =
     (let expiresAt = now + authTTL in
      case ri_type inp of
        AccountTypePrepaid \<Rightarrow> reservePrepaid flt expiresAt authID inp db
      | AccountTypePostpaid \<Rightarrow> reservePostpaid flt expiresAt authID inp db
      | AccountTypeOther s \<Rightarrow> (Inl (ErrUnknownAccountType (ri_type inp)), db))"

subsection \<open>Release\<close>

definition releasePrepaidWallet ::
    "faults \<Rightarrow> string \<Rightarrow> id \<Rightarrow> decimal \<Rightarrow> id \<Rightarrow> billing_db \<Rightarrow> billing_error + billing_db" where
  "releasePrepaidWallet flt descr acc amount authID db =
     bindE (exec flt ''wallet lookup for release'' (select1 (\<lambda>w. w_account w = acc) (wallets db))) (\<lambda>w.
     bindE (exec flt ''update wallet reserved (release)''
       (update_wallet (w_id w) w_balance (\<lambda>x. w_reserved x - amount) db)) (\<lambda>db1.
     exec flt ''insert wallet_ledger release''
       (insert_wallet_ledger
          \<lparr>wl_wallet = w_id w, wl_type = LedgerRelease, wl_amount = amount, wl_usage = None,
           wl_auth = Some authID, wl_description = descr\<rparr> db1)))"

definition releasePostpaidCredit ::
    "faults \<Rightarrow> string \<Rightarrow> id \<Rightarrow> decimal \<Rightarrow> id \<Rightarrow> id \<Rightarrow> billing_db \<Rightarrow> billing_error + billing_db" where
  "releasePostpaidCredit flt descr acc amount authID usageID db =
     bindE (exec flt ''credit account lookup for release'' (select1 (\<lambda>c. c_account c = acc) (credits db))) (\<lambda>c.
     bindE (exec flt ''update credit total_exposure (release)''
       (update_credit (c_id c) (\<lambda>x. c_exposure x - amount) c_settled True db)) (\<lambda>db1.
     exec flt ''insert credit_ledger released''
       (insert_credit_ledger
          \<lparr>cl_credit = c_id c, cl_type = CreditLedgerReleased, cl_amount = amount,
           cl_usage = Some usageID, cl_auth = Some authID, cl_description = descr\<rparr> db1)))"

definition mark_released :: "id \<Rightarrow> billing_db \<Rightarrow> sql_error + billing_db" where
  "mark_released uid =
     update_usage (\<lambda>u. iu_id u = uid \<and> iu_billing u = BillingReserved)
       (\<lambda>u. Inr (u\<lparr>iu_billing := BillingReleased\<rparr>))"

text \<open>
  \<open>if err != nil { return nil }\<close> after the conditional transition: no active row, and any other
  failure of that statement, count as success with nothing done.
\<close>

definition Release ::
    "faults \<Rightarrow> int \<Rightarrow> id \<Rightarrow> id \<Rightarrow> billing_db \<Rightarrow> (billing_error + unit) \<times> billing_db" where
  "Release flt now authID usageID db =
     (case exec flt ''begin release'' (Inr ()) of
        Inl e \<Rightarrow> (Inl e, db)
      | Inr _ \<Rightarrow>
     (case stmt flt ''release transition''
             (update_active_auth authID
               (\<lambda>a. Inr (a\<lparr>au_status := AuthStatusReleased, au_released_at := Some now\<rparr>)) db) of
        Inl _ \<Rightarrow> (Inr (), db)
      | Inr (a, db1) \<Rightarrow> run_tx db (
          bindE (case au_type a of
                   AccountTypePrepaid \<Rightarrow>
                     releasePrepaidWallet flt ''reservation released'' (au_account a) (au_estimated a) authID db1
                 | AccountTypePostpaid \<Rightarrow>
                     releasePostpaidCredit flt ''reservation released'' (au_account a) (au_estimated a) authID usageID db1
                 | AccountTypeOther s \<Rightarrow> Inr db1) (\<lambda>db2.
          bindE (exec flt ''update inference_usage billing_status released'' (mark_released usageID db2)) (\<lambda>db3.
          exec flt ''commit release'' (commit () db3))))))"

subsection \<open>What a successful reservation did\<close>

lemma insert_auth_stmt_InrD:
  assumes "insert_auth_stmt flt a db = Inr db'"
  shows "\<bar>round8 (au_estimated a)\<bar> < 1000000000000000000" and "0 \<le> round8 (au_estimated a)"
    and "au_id a \<notin> au_id ` set (auths db)" and "au_usage a \<notin> au_usage ` set (auths db)"
    and "au_usage a \<in> iu_id ` set (usages db)"
    and "db' = db\<lparr>auths := auths db @ [a\<lparr>au_estimated := round8 (au_estimated a)\<rparr>]\<rparr>"
  using assms
  by (auto simp: insert_auth_stmt_def insert_auth_def numeric_16_8_Inr Let_def split: sum.splits)

lemma mark_InrD:
  assumes "mark_reserved uid db = Inr db' \<or> mark_released uid db = Inr db'"
    and "\<forall>u\<in>set (usages db). usage_check u"
  obtains us where "db' = db\<lparr>usages := us\<rparr>" and "map iu_id us = map iu_id (usages db)"
    and "\<forall>u\<in>set us. usage_check u"
  using assms unfolding mark_reserved_def mark_released_def by (auto elim!: update_usage_InrD)

lemma commit_InrD [simp]: "commit a db = Inr (b, db') \<longleftrightarrow> b = a \<and> db' = db \<and> ledger_refs_ok db"
  by (auto simp: commit_def)

lemma insert_credit_ledger_InrD:
  assumes "insert_credit_ledger e db = Inr db'"
  shows "db' = db\<lparr>credit_ledger := credit_ledger db @ [e\<lparr>cl_amount := round8 (cl_amount e)\<rparr>]\<rparr>"
  using assms by (auto simp: insert_credit_ledger_def numeric_16_8_Inr Let_def)

lemma insert_wallet_ledger_InrD:
  assumes "insert_wallet_ledger e db = Inr db'"
  shows "db' = db\<lparr>wallet_ledger := wallet_ledger db @ [e\<lparr>wl_amount := round8 (wl_amount e)\<rparr>]\<rparr>"
  using assms by (auto simp: insert_wallet_ledger_def numeric_16_8_Inr Let_def)

text \<open>The wallet and the credit account after reserving \<open>x\<close>.\<close>

definition wallet_reserve :: "decimal \<Rightarrow> wallet \<Rightarrow> wallet" where
  "wallet_reserve x w = w\<lparr>w_reserved := w_reserved w + round8 x, w_version := w_version w + 1\<rparr>"

definition credit_reserve :: "decimal \<Rightarrow> credit_account \<Rightarrow> credit_account" where
  "credit_reserve x c = c\<lparr>c_exposure := c_exposure c + round8 x, c_version := c_version c + 1\<rparr>"

lemma wallet_reserve_sel [simp]:
  "w_id (wallet_reserve x w) = w_id w" "w_account (wallet_reserve x w) = w_account w"
  "w_balance (wallet_reserve x w) = w_balance w"
  "w_reserved (wallet_reserve x w) = w_reserved w + round8 x"
  by (simp_all add: wallet_reserve_def)

lemma credit_reserve_sel [simp]:
  "c_id (credit_reserve x c) = c_id c" "c_account (credit_reserve x c) = c_account c"
  "c_exposure (credit_reserve x c) = c_exposure c + round8 x" "c_settled (credit_reserve x c) = c_settled c"
  "c_limit (credit_reserve x c) = c_limit c"
  by (simp_all add: credit_reserve_def)

lemma update_wallet_reserve:
  assumes "billing_inv db" and "w \<in> set (wallets db)" and "0 \<le> x" and "x \<le> w_balance w - w_reserved w"
  shows "update_wallet (w_id w) w_balance (\<lambda>y. w_reserved y + x) db = Inr (set_wallet (wallet_reserve x w) db)"
    and "wallet_check (wallet_reserve x w)" and "fits (w_reserved w + round8 x)" and "fits (round8 x)"
proof -
  have inv: "wallet_check w" "fits (w_balance w)" "fits (w_reserved w)"
    using inv_wallet_rowD [OF assms(1,2)] by blast+
  have grid: "round8 (w_reserved w + x) = w_reserved w + round8 x"
    using inv assms(3) by (intro round8_add_grid) (simp_all add: fits_def)
  have le: "w_reserved w + round8 x \<le> w_balance w"
  proof -
    have "round8 x \<le> round8 (w_balance w - w_reserved w)" using assms(3,4) by (rule round8_mono)
    with inv show ?thesis by (simp add: fits_def)
  qed
  have x: "0 \<le> round8 x" using assms(3) by simp
  show chk: "wallet_check (wallet_reserve x w)"
    using inv le x by (simp add: wallet_check_def)
  show fit: "fits (w_reserved w + round8 x)" and "fits (round8 x)"
    using inv le x by (simp_all add: fits_def)
  have "numeric_16_8 (w_reserved w + x) = Inr (w_reserved w + round8 x)"
    using fit by (simp add: numeric_16_8_Inr grid fits_def)
  moreover have "distinct (map w_id (wallets db))"
    using assms(1) by (simp add: billing_inv_def keys_ok_def)
  ultimately show "update_wallet (w_id w) w_balance (\<lambda>y. w_reserved y + x) db =
      Inr (set_wallet (wallet_reserve x w) db)"
    using assms(2) inv chk by (simp add: update_wallet_key numeric_fits wallet_reserve_def Let_def)
qed

subsection \<open>The prepaid reservation\<close>

lemma lock_active_wallet_InrD:
  "lock_active_wallet acc db = Inr w \<Longrightarrow> w \<in> set (wallets db) \<and> w_account w = acc \<and> has_active_account acc db"
  by (auto simp: lock_active_wallet_def dest: select1_InrD)

lemma lock_active_credit_InrD:
  "lock_active_credit acc db = Inr c \<Longrightarrow> c \<in> set (credits db) \<and> c_account c = acc \<and> has_active_account acc db"
  by (auto simp: lock_active_credit_def dest: select1_InrD)

abbreviation stored_auth :: "id \<Rightarrow> reserve_input \<Rightarrow> int \<Rightarrow> authorization" where
  "stored_auth authID inp expiresAt \<equiv>
     (new_auth authID inp expiresAt)\<lparr>au_estimated := round8 (ri_estimated inp)\<rparr>"

lemma reservePrepaid_InrD:
  assumes "reservePrepaid flt expiresAt authID inp db = (Inr out, db')" and "billing_inv db"
    and "0 \<le> ri_estimated inp"
  obtains w us where "w \<in> set (wallets db)" and "w_account w = ri_account inp"
    and "ri_estimated inp \<le> w_balance w - w_reserved w"
    and "authID \<notin> au_id ` set (auths db)" and "ri_usage inp \<notin> au_usage ` set (auths db)"
    and "ri_usage inp \<in> iu_id ` set (usages db)"
    and "map iu_id us = map iu_id (usages db)" and "\<forall>u\<in>set us. usage_check u"
    and "db' = (set_wallet (wallet_reserve (ri_estimated inp) w) db)
           \<lparr>auths := auths db @ [stored_auth authID inp expiresAt], usages := us\<rparr>"
    and "ledger_refs_ok db'"
proof -
  let ?x = "ri_estimated inp"
  from assms(1) obtain w db1 db2 db3 where
    w: "lock_active_wallet (ri_account inp) db = Inr w" and av: "\<not> w_balance w - w_reserved w < ?x"
    and 1: "update_wallet (w_id w) w_balance (\<lambda>x. w_reserved x + ?x) db = Inr db1"
    and 2: "insert_auth_stmt flt (new_auth authID inp expiresAt) db1 = Inr db2"
    and 3: "mark_reserved (ri_usage inp) db2 = Inr db3" and c: "db' = db3" "ledger_refs_ok db3"
    by (auto simp: reservePrepaid_def run_tx_ok Let_def split: if_splits)
  from w have w': "w \<in> set (wallets db)" "w_account w = ri_account inp"
    by (simp_all add: lock_active_wallet_InrD)
  from av have le: "?x \<le> w_balance w - w_reserved w" by simp
  from 1 have db1: "db1 = set_wallet (wallet_reserve ?x w) db"
    using update_wallet_reserve(1) [OF assms(2) w'(1) assms(3) le] by simp
  note 2 = insert_auth_stmt_InrD [OF 2, unfolded db1]
  have u: "\<forall>u\<in>set (usages db2). usage_check u"
    using assms(2) 2(6) by (simp add: billing_inv_def rows_ok_def)
  obtain us where us: "db3 = db2\<lparr>usages := us\<rparr>" "map iu_id us = map iu_id (usages db2)"
      "\<forall>u\<in>set us. usage_check u"
    by (rule mark_InrD [OF disjI1 [OF 3] u])
  show thesis
    by (rule that [of w us]) (use w' le 2 us c in \<open>simp_all add: new_auth_def\<close>)
qed

lemma reservePrepaid_inv:
  assumes "reservePrepaid flt expiresAt authID inp db = (Inr out, db')" and "billing_inv db"
    and "0 \<le> ri_estimated inp" and "ri_type inp = AccountTypePrepaid"
  shows "billing_inv db'"
proof -
  let ?x = "ri_estimated inp" and ?a = "stored_auth authID inp expiresAt"
  from assms(1-3) obtain w us where w: "w \<in> set (wallets db)" "w_account w = ri_account inp"
      "?x \<le> w_balance w - w_reserved w"
    and fresh: "authID \<notin> au_id ` set (auths db)" "ri_usage inp \<notin> au_usage ` set (auths db)"
      "ri_usage inp \<in> iu_id ` set (usages db)"
    and us: "map iu_id us = map iu_id (usages db)" "\<forall>u\<in>set us. usage_check u"
    and db': "db' = (set_wallet (wallet_reserve ?x w) db)\<lparr>auths := auths db @ [?a], usages := us\<rparr>"
    and refs: "ledger_refs_ok db'"
    by (rule reservePrepaid_InrD)
  note upd = update_wallet_reserve [OF assms(2) w(1) assms(3) w(3)]
  have keys: "keys_ok db" using assms(2) by (simp add: billing_inv_def)
  note ks = keys_ok_set_wallet [OF keys w(1), of "wallet_reserve ?x w"]
  have row: "fits (w_balance w)"
      "w_reserved w = active_sum AccountTypePrepaid (w_account w) (auths db)"
    using inv_wallet_rowD [OF assms(2) w(1)] by blast+
  have held: "held AccountTypePrepaid (w_account w) ?a = round8 ?x"
      "acc \<noteq> w_account w \<Longrightarrow> held AccountTypePrepaid acc ?a = 0"
      "held AccountTypePostpaid acc ?a = 0" for acc
    using assms(4) w(2) by (auto simp: held_def new_auth_def)
  have "funds_ok (\<lambda>ty acc. active_sum ty acc (auths db @ [?a])) (set_wallet (wallet_reserve ?x w) db)"
    by (rule funds_ok_set_wallet [OF inv_funds_ok [OF assms(2)] keys w(1)])
       (use upd row held in \<open>simp_all\<close>)
  then have funds: "funds_ok (\<lambda>ty acc. active_sum ty acc (auths db')) db'"
    unfolding db' funds_ok_frame by simp
  show ?thesis
  proof (rule billing_inv_openI [OF assms(2) _ _ funds _ _ _ _ _ _ _ refs, of ?a "[]"])
    show "keys_ok db'"
      using ks(1) fresh us(1) keys by (simp add: db' keys_ok_def new_auth_def)
    show "same_tables db db'"
      using ks us by (simp add: db' same_tables_def flip: set_map)
    show "backed db ?a"
      using imageI [OF w(1), of w_account] w(2) assms(4) by (simp add: backed_def new_auth_def)
  qed (use db' fresh upd in \<open>simp_all add: new_auth_def\<close>)
qed

subsection \<open>The postpaid reservation\<close>

lemma update_credit_reserve:
  assumes "billing_inv db" and "c \<in> set (credits db)" and "0 \<le> x"
    and "update_credit (c_id c) (\<lambda>y. c_exposure y + x) c_settled True db = Inr db1"
  shows "db1 = set_credit (credit_reserve x c) db" and "credit_check (credit_reserve x c)"
    and "fits (c_exposure c + round8 x)" and "fits (round8 x)"
proof -
  have inv: "credit_check c" "fits (c_exposure c)" "fits (c_settled c)"
    using inv_credit_rowD [OF assms(1,2)] by blast+
  have grid: "round8 (c_exposure c + x) = c_exposure c + round8 x"
    using inv assms(3) by (intro round8_add_grid) (simp_all add: fits_def)
  have x: "0 \<le> round8 x" "on_grid (round8 x)" using assms(3) by simp_all
  have "distinct (map c_id (credits db))" using assms(1) by (simp add: billing_inv_def keys_ok_def)
  from assms(4) [unfolded update_credit_key [OF this assms(2)]]
  have upd: "numeric_16_8 (c_exposure c + x) = Inr (c_exposure c + round8 x)"
    and db1: "db1 = set_credit (credit_reserve x c) db"
    by (auto simp: numeric_fits [OF inv(3)] credit_reserve_def Let_def numeric_16_8_Inr grid)
  show "db1 = set_credit (credit_reserve x c) db" by (rule db1)
  show "credit_check (credit_reserve x c)"
    using inv x by (simp add: credit_check_def)
  show "fits (c_exposure c + round8 x)" "fits (round8 x)"
    using upd inv x by (auto simp: fits_def numeric_16_8_Inr grid)
qed

lemma reservePostpaid_InrD:
  assumes "reservePostpaid flt expiresAt authID inp db = (Inr out, db')" and "billing_inv db"
    and "0 \<le> ri_estimated inp"
  obtains c us e where "c \<in> set (credits db)" and "c_account c = ri_account inp"
    and "ri_estimated inp \<le> c_limit c - c_exposure c"
    and "credit_check (credit_reserve (ri_estimated inp) c)"
    and "fits (c_exposure c + round8 (ri_estimated inp))" and "fits (round8 (ri_estimated inp))"
    and "authID \<notin> au_id ` set (auths db)" and "ri_usage inp \<notin> au_usage ` set (auths db)"
    and "ri_usage inp \<in> iu_id ` set (usages db)"
    and "map iu_id us = map iu_id (usages db)" and "\<forall>u\<in>set us. usage_check u"
    and "cl_type e = CreditLedgerAuthorized"
    and "db' = (set_credit (credit_reserve (ri_estimated inp) c) db)
           \<lparr>auths := auths db @ [stored_auth authID inp expiresAt],
            credit_ledger := credit_ledger db @ [e], usages := us\<rparr>"
    and "ledger_refs_ok db'"
proof -
  let ?x = "ri_estimated inp"
  from assms(1) obtain c db1 db2 db3 db4 where
    c: "lock_active_credit (ri_account inp) db = Inr c" and av: "\<not> c_limit c - c_exposure c < ?x"
    and 1: "update_credit (c_id c) (\<lambda>x. c_exposure x + ?x) c_settled True db = Inr db1"
    and 2: "insert_auth_stmt flt (new_auth authID inp expiresAt) db1 = Inr db2"
    and l: "insert_credit_ledger
          \<lparr>cl_credit = c_id c, cl_type = CreditLedgerAuthorized, cl_amount = ?x,
           cl_usage = Some (ri_usage inp), cl_auth = None,
           cl_description = ''admission reservation''\<rparr> db2 = Inr db3"
    and 3: "mark_reserved (ri_usage inp) db3 = Inr db4" and r: "db' = db4" "ledger_refs_ok db4"
    by (auto simp: reservePostpaid_def run_tx_ok Let_def split: if_splits)
  from c have c': "c \<in> set (credits db)" "c_account c = ri_account inp"
    by (simp_all add: lock_active_credit_InrD)
  from av have le: "?x \<le> c_limit c - c_exposure c" by simp
  note upd = update_credit_reserve [OF assms(2) c'(1) assms(3) 1]
  note 2 = insert_auth_stmt_InrD [OF 2, unfolded upd(1)]
  note l = insert_credit_ledger_InrD [OF l]
  have u: "\<forall>u\<in>set (usages db3). usage_check u"
    using assms(2) 2(6) l by (simp add: billing_inv_def rows_ok_def)
  obtain us where us: "db4 = db3\<lparr>usages := us\<rparr>" "map iu_id us = map iu_id (usages db3)"
      "\<forall>u\<in>set us. usage_check u"
    by (rule mark_InrD [OF disjI1 [OF 3] u])
  show thesis
    by (rule that [of c us "\<lparr>cl_credit = c_id c, cl_type = CreditLedgerAuthorized, cl_amount = round8 ?x,
           cl_usage = Some (ri_usage inp), cl_auth = None,
           cl_description = ''admission reservation''\<rparr>"])
       (use c' le upd 2 us r l in \<open>simp_all add: new_auth_def\<close>)
qed

lemma reservePostpaid_inv:
  assumes "reservePostpaid flt expiresAt authID inp db = (Inr out, db')" and "billing_inv db"
    and "0 \<le> ri_estimated inp" and "ri_type inp = AccountTypePostpaid"
  shows "billing_inv db'"
proof -
  let ?x = "ri_estimated inp" and ?a = "stored_auth authID inp expiresAt"
  from assms(1-3) obtain c us e where c: "c \<in> set (credits db)" "c_account c = ri_account inp"
      "?x \<le> c_limit c - c_exposure c"
    and upd: "credit_check (credit_reserve ?x c)" "fits (c_exposure c + round8 ?x)" "fits (round8 ?x)"
    and fresh: "authID \<notin> au_id ` set (auths db)" "ri_usage inp \<notin> au_usage ` set (auths db)"
      "ri_usage inp \<in> iu_id ` set (usages db)"
    and us: "map iu_id us = map iu_id (usages db)" "\<forall>u\<in>set us. usage_check u"
    and e: "cl_type e = CreditLedgerAuthorized"
    and db': "db' = (set_credit (credit_reserve ?x c) db)\<lparr>auths := auths db @ [?a],
            credit_ledger := credit_ledger db @ [e], usages := us\<rparr>"
    and refs: "ledger_refs_ok db'"
    by (rule reservePostpaid_InrD)
  have keys: "keys_ok db" using assms(2) by (simp add: billing_inv_def)
  note ks = keys_ok_set_credit [OF keys c(1), of "credit_reserve ?x c"]
  have row: "fits (c_settled c)"
      "c_exposure c = active_sum AccountTypePostpaid (c_account c) (auths db) + c_settled c"
    using inv_credit_rowD [OF assms(2) c(1)] by blast+
  have held: "held AccountTypePostpaid (c_account c) ?a = round8 ?x"
      "acc \<noteq> c_account c \<Longrightarrow> held AccountTypePostpaid acc ?a = 0"
      "held AccountTypePrepaid acc ?a = 0" for acc
    using assms(4) c(2) by (auto simp: held_def new_auth_def)
  have "funds_ok (\<lambda>ty acc. active_sum ty acc (auths db @ [?a])) (set_credit (credit_reserve ?x c) db)"
    by (rule funds_ok_set_credit [OF inv_funds_ok [OF assms(2)] keys c(1)])
       (use upd row held in \<open>simp_all\<close>)
  then have funds: "funds_ok (\<lambda>ty acc. active_sum ty acc (auths db')) db'"
    unfolding db' funds_ok_frame by simp
  show ?thesis
  proof (rule billing_inv_openI [OF assms(2) _ _ funds _ _ _ _ _ _ _ refs, of ?a "[e]"])
    show "keys_ok db'"
      using ks(1) fresh us(1) keys by (simp add: db' keys_ok_def new_auth_def)
    show "same_tables db db'"
      using ks us by (simp add: db' same_tables_def flip: set_map)
    show "backed db ?a"
      using imageI [OF c(1), of c_account] c(2) assms(4) by (simp add: backed_def new_auth_def)
  qed (use db' fresh upd e in \<open>simp_all add: new_auth_def\<close>)
qed

lemma Reserve_inv:
  assumes "billing_inv db" and "0 \<le> ri_estimated inp"
  shows "billing_inv (snd (Reserve flt now authTTL authID inp db))"
proof (cases "fst (Reserve flt now authTTL authID inp db)")
  case (Inl e)
  then have "snd (Reserve flt now authTTL authID inp db) = db"
    by (auto simp: Reserve_def Let_def reservePrepaid_def reservePostpaid_def run_tx_error
        split: account_type.splits)
  with assms(1) show ?thesis by simp
next
  case (Inr out)
  then obtain db' where *: "Reserve flt now authTTL authID inp db = (Inr out, db')"
    by (metis prod.collapse)
  with assms show ?thesis
    by (auto simp: Reserve_def Let_def intro: reservePrepaid_inv reservePostpaid_inv
        split: account_type.splits)
qed

subsection \<open>What a release does\<close>

lemma cut_exec [cut_intros]: "cut (exec flt lbl r) (exec (\<lambda>_. False) lbl r)"
  unfolding exec_def wrap_def by (intro cut_intros)

lemma cut_insert_auth [cut_intros]: "cut (insert_auth_stmt flt a db) (insert_auth_stmt (\<lambda>_. False) a db)"
  by (simp add: cut_def insert_auth_stmt_def stmt_def)

lemma exec_no_faults [simp]: "exec (\<lambda>_. False) lbl r = mapErr (ErrSQL lbl) r"
  by (simp add: exec_def wrap_def)

definition released_usages :: "id \<Rightarrow> billing_db \<Rightarrow> inference_usage list" where
  "released_usages uid db =
     map (\<lambda>u. if iu_id u = uid \<and> iu_billing u = BillingReserved then u\<lparr>iu_billing := BillingReleased\<rparr> else u)
       (usages db)"

definition reserved_usages :: "id \<Rightarrow> billing_db \<Rightarrow> inference_usage list" where
  "reserved_usages uid db =
     map (\<lambda>u. if iu_id u = uid \<and> iu_billing u = BillingPending then u\<lparr>iu_billing := BillingReserved\<rparr> else u)
       (usages db)"

lemma mark_reserved_eq:
  assumes "\<forall>u\<in>set (usages db). usage_check u"
  shows "mark_reserved uid db = Inr (db\<lparr>usages := reserved_usages uid db\<rparr>)"
  unfolding mark_reserved_def reserved_usages_def
  by (rule update_usage_total) (use assms in \<open>auto simp: usage_check_def\<close>)

lemma mark_released_eq:
  assumes "\<forall>u\<in>set (usages db). usage_check u"
  shows "mark_released uid db = Inr (db\<lparr>usages := released_usages uid db\<rparr>)"
  unfolding mark_released_def released_usages_def
  by (rule update_usage_total) (use assms in \<open>auto simp: usage_check_def\<close>)

lemma released_usages_props:
  "map iu_id (released_usages uid db) = map iu_id (usages db)"
  "\<forall>u\<in>set (usages db). usage_check u \<Longrightarrow> \<forall>u\<in>set (released_usages uid db). usage_check u"
  by (auto simp: released_usages_def usage_check_def)

definition wallet_release :: "decimal \<Rightarrow> wallet \<Rightarrow> wallet" where
  "wallet_release x w = w\<lparr>w_reserved := w_reserved w - x, w_version := w_version w + 1\<rparr>"

definition credit_release :: "decimal \<Rightarrow> credit_account \<Rightarrow> credit_account" where
  "credit_release x c = c\<lparr>c_exposure := c_exposure c - x, c_version := c_version c + 1\<rparr>"

lemma release_sel [simp]:
  "w_id (wallet_release x w) = w_id w" "w_account (wallet_release x w) = w_account w"
  "w_balance (wallet_release x w) = w_balance w" "w_reserved (wallet_release x w) = w_reserved w - x"
  "c_id (credit_release x c) = c_id c" "c_account (credit_release x c) = c_account c"
  "c_limit (credit_release x c) = c_limit c" "c_settled (credit_release x c) = c_settled c"
  "c_exposure (credit_release x c) = c_exposure c - x"
  by (simp_all add: wallet_release_def credit_release_def)

text \<open>An active authorization is covered by the row that holds its funds.\<close>

lemma active_covered:
  assumes "billing_inv db" and "a \<in> set (auths db)" and "au_status a = AuthStatusActive"
  shows "au_type a = AccountTypePrepaid \<Longrightarrow> w \<in> set (wallets db) \<Longrightarrow> w_account w = au_account a \<Longrightarrow>
      au_estimated a \<le> w_reserved w"
    and "au_type a = AccountTypePostpaid \<Longrightarrow> c \<in> set (credits db) \<Longrightarrow> c_account c = au_account a \<Longrightarrow>
      au_estimated a \<le> c_exposure c - c_settled c"
  using inv_held_le [OF assms(1,2), of "au_type a" "au_account a"] assms(3)
    inv_wallet_rowD [OF assms(1), of w] inv_credit_rowD [OF assms(1), of c]
  by (auto simp: held_def)

lemma wallet_release_ok:
  assumes "wallet_check w" and "fits (w_reserved w)" and "fits x" and "x \<le> w_reserved w"
  shows "wallet_check (wallet_release x w)" and "fits (w_reserved w - x)"
  using assms by (auto simp: wallet_check_def fits_def)

lemma active_wallet:
  assumes "billing_inv db" and "a \<in> set (auths db)" and "au_status a = AuthStatusActive"
    and "au_type a = AccountTypePrepaid"
  obtains w where "w \<in> set (wallets db)" and "w_account w = au_account a"
    and "select1 (\<lambda>w. w_account w = au_account a) (wallets db) = Inr w"
proof -
  have "backed db a" using billing_inv_authD [OF assms(1,2)] assms(3) by blast
  then obtain w where w: "w \<in> set (wallets db)" "w_account w = au_account a"
    using assms(4) by (auto simp: backed_def)
  moreover have "distinct (map w_account (wallets db))"
    using assms(1) by (simp add: billing_inv_def keys_ok_def)
  ultimately have "select1 (\<lambda>w. w_account w = au_account a) (wallets db) = Inr w"
    using find_key_distinct [of w_account "wallets db" w] by (simp add: select1_eq_Inr)
  with w that show thesis by blast
qed

lemma active_credit:
  assumes "billing_inv db" and "a \<in> set (auths db)" and "au_status a = AuthStatusActive"
    and "au_type a = AccountTypePostpaid"
  obtains c where "c \<in> set (credits db)" and "c_account c = au_account a"
    and "select1 (\<lambda>c. c_account c = au_account a) (credits db) = Inr c"
proof -
  have "backed db a" using billing_inv_authD [OF assms(1,2)] assms(3) by blast
  then obtain c where c: "c \<in> set (credits db)" "c_account c = au_account a"
    using assms(4) by (auto simp: backed_def)
  moreover have "distinct (map c_account (credits db))"
    using assms(1) by (simp add: billing_inv_def keys_ok_def)
  ultimately have "select1 (\<lambda>c. c_account c = au_account a) (credits db) = Inr c"
    using find_key_distinct [of c_account "credits db" c] by (simp add: select1_eq_Inr)
  with c that show thesis by blast
qed

definition release_entry :: "string \<Rightarrow> authorization \<Rightarrow> wallet \<Rightarrow> wallet_entry" where
  "release_entry descr a w =
     \<lparr>wl_wallet = w_id w, wl_type = LedgerRelease, wl_amount = au_estimated a, wl_usage = None,
      wl_auth = Some (au_id a), wl_description = descr\<rparr>"

definition released_entry :: "string \<Rightarrow> authorization \<Rightarrow> credit_account \<Rightarrow> credit_entry" where
  "released_entry descr a c =
     \<lparr>cl_credit = c_id c, cl_type = CreditLedgerReleased, cl_amount = au_estimated a,
      cl_usage = Some (au_usage a), cl_auth = Some (au_id a), cl_description = descr\<rparr>"

lemma no_closing_entry:
  assumes "billing_inv db" and "a \<in> set (auths db)" and "au_status a = AuthStatusActive"
    and "closes_wallet a e" and "closes_credit a f"
    and "wl_type e \<in> {LedgerDebit, LedgerRelease}" and "cl_type f \<in> {CreditLedgerSettled, CreditLedgerReleased}"
  shows "\<not> list_ex (wallet_entry_conflict e) (wallet_ledger db)"
    and "\<not> list_ex (credit_entry_conflict f) (credit_ledger db)"
proof -
  have op: "open_ok db" using assms(1) by (simp add: billing_inv_def)
  show "\<not> list_ex (wallet_entry_conflict e) (wallet_ledger db)"
  proof
    assume "list_ex (wallet_entry_conflict e) (wallet_ledger db)"
    then obtain g where g: "g \<in> set (wallet_ledger db)" "wallet_entry_conflict e g"
      by (auto simp: list_ex_iff)
    then have "closes_wallet a g"
      using assms(4) unfolding closes_wallet_def wallet_entry_conflict_def by auto
    with open_okD(3) [OF op assms(2,3) g(1)] show False ..
  qed
  show "\<not> list_ex (credit_entry_conflict f) (credit_ledger db)"
  proof
    assume "list_ex (credit_entry_conflict f) (credit_ledger db)"
    then obtain g where g: "g \<in> set (credit_ledger db)" "credit_entry_conflict f g"
      by (auto simp: list_ex_iff)
    then have "closes_credit a g"
      using assms(5) unfolding closes_credit_def credit_entry_conflict_def by auto
    with open_okD(4) [OF op assms(2,3) g(1)] show False ..
  qed
qed

lemma releasePrepaidWallet_eq:
  assumes inv: "billing_inv db" and a: "a \<in> set (auths db)" "au_status a = AuthStatusActive"
      "au_type a = AccountTypePrepaid"
    and w: "w \<in> set (wallets db)" "w_account w = au_account a"
      "select1 (\<lambda>w. w_account w = au_account a) (wallets db) = Inr w"
  shows "releasePrepaidWallet (\<lambda>_. False) descr (au_account a) (au_estimated a) (au_id a) (set_auth a' db) =
    Inr ((set_wallet (wallet_release (au_estimated a) w) (set_auth a' db))
           \<lparr>wallet_ledger := wallet_ledger db @ [release_entry descr a w]\<rparr>)"
proof -
  let ?x = "au_estimated a"
  have row: "wallet_check w" "fits (w_balance w)" "fits (w_reserved w)"
    using inv_wallet_rowD [OF inv w(1)] by blast+
  have x: "fits ?x" using inv a(1) by (rule inv_auth_rowD)
  have le: "?x \<le> w_reserved w" using active_covered(1) [OF inv a(1,2,3) w(1,2)] .
  note rel = wallet_release_ok [OF row(1,3) x le]
  have "distinct (map w_id (wallets (set_auth a' db)))" "w \<in> set (wallets (set_auth a' db))"
    using inv w(1) by (simp_all add: billing_inv_def keys_ok_def)
  from update_wallet_key [OF this]
  have upd: "update_wallet (w_id w) w_balance (\<lambda>x. w_reserved x - ?x) (set_auth a' db) =
      Inr (set_wallet (wallet_release ?x w) (set_auth a' db))"
    using rel row by (simp add: numeric_fits wallet_release_def Let_def)
  have "closes_wallet a (release_entry descr a w)" "closes_credit a (released_entry descr a c)" for c
    by (simp_all add: closes_wallet_def closes_credit_def release_entry_def released_entry_def)
  from no_closing_entry(1) [OF inv a(1,2) this]
  have "\<not> list_ex (wallet_entry_conflict (release_entry descr a w)) (wallet_ledger db)"
    by (simp add: release_entry_def released_entry_def)
  moreover have "w_id w \<in> w_id ` set (put_row w_id (wallet_release ?x w) (wallets db))"
    using w(1) by (metis imageI list.set_map map_key_put_row)
  ultimately have "insert_wallet_ledger (release_entry descr a w) (set_wallet (wallet_release ?x w) (set_auth a' db)) =
      Inr ((set_wallet (wallet_release ?x w) (set_auth a' db))
           \<lparr>wallet_ledger := wallet_ledger db @ [release_entry descr a w]\<rparr>)"
    using x by (simp add: insert_wallet_ledger_def numeric_fits fits_nonneg release_entry_def Let_def)
  with upd w(3) show ?thesis
    by (simp add: releasePrepaidWallet_def release_entry_def)
qed

lemma releasePostpaidCredit_eq:
  assumes inv: "billing_inv db" and a: "a \<in> set (auths db)" "au_status a = AuthStatusActive"
      "au_type a = AccountTypePostpaid"
    and c: "c \<in> set (credits db)" "c_account c = au_account a"
      "select1 (\<lambda>c. c_account c = au_account a) (credits db) = Inr c"
  shows "releasePostpaidCredit (\<lambda>_. False) descr (au_account a) (au_estimated a) (au_id a) (au_usage a)
      (set_auth a' db) =
    Inr ((set_credit (credit_release (au_estimated a) c) (set_auth a' db))
           \<lparr>credit_ledger := credit_ledger db @ [released_entry descr a c]\<rparr>)"
proof -
  let ?x = "au_estimated a"
  have row: "credit_check c" "fits (c_exposure c)" "fits (c_settled c)"
    using inv_credit_rowD [OF inv c(1)] by blast+
  have x: "fits ?x" using inv a(1) by (rule inv_auth_rowD)
  have "?x \<le> c_exposure c - c_settled c" using active_covered(2) [OF inv a(1,2,3) c(1,2)] .
  then have le: "?x \<le> c_exposure c" using fits_nonneg [OF row(3)] by simp
  have rel: "credit_check (credit_release ?x c)" "fits (c_exposure c - ?x)"
    using row x le by (simp_all add: credit_check_def fits_diff)
  have "distinct (map c_id (credits (set_auth a' db)))" "c \<in> set (credits (set_auth a' db))"
    using inv c(1) by (simp_all add: billing_inv_def keys_ok_def)
  from update_credit_key [OF this]
  have upd: "update_credit (c_id c) (\<lambda>x. c_exposure x - ?x) c_settled True (set_auth a' db) =
      Inr (set_credit (credit_release ?x c) (set_auth a' db))"
    using rel row by (simp add: numeric_fits credit_release_def Let_def)
  have "closes_wallet a (release_entry descr a w)" "closes_credit a (released_entry descr a c)" for w
    by (simp_all add: closes_wallet_def closes_credit_def release_entry_def released_entry_def)
  from no_closing_entry(2) [OF inv a(1,2) this]
  have "\<not> list_ex (credit_entry_conflict (released_entry descr a c)) (credit_ledger db)"
    by (simp add: release_entry_def released_entry_def)
  moreover have "c_id c \<in> c_id ` set (put_row c_id (credit_release ?x c) (credits db))"
    using c(1) by (metis imageI list.set_map map_key_put_row)
  ultimately have "insert_credit_ledger (released_entry descr a c) (set_credit (credit_release ?x c) (set_auth a' db)) =
      Inr ((set_credit (credit_release ?x c) (set_auth a' db))
           \<lparr>credit_ledger := credit_ledger db @ [released_entry descr a c]\<rparr>)"
    using x by (simp add: insert_credit_ledger_def numeric_fits fits_nonneg released_entry_def Let_def)
  with upd c(3) show ?thesis
    by (simp add: releasePostpaidCredit_def released_entry_def)
qed

text \<open>
  \<open>releases descr a a' db db2\<close>: the effect both release paths promise. The row \<open>a\<close> is replaced by
  the terminal row \<open>a'\<close>, exactly its estimate leaves \<open>reserved\<close> (or \<open>total_exposure\<close>), one ledger
  entry records it, and the usage row moves from reserved to released.
\<close>

definition releases :: "string \<Rightarrow> authorization \<Rightarrow> authorization \<Rightarrow> billing_db \<Rightarrow> billing_db \<Rightarrow> bool" where
  "releases descr a a' db db2 \<longleftrightarrow>
     (\<exists>w\<in>set (wallets db). au_type a = AccountTypePrepaid \<and> w_account w = au_account a \<and>
        db2 = (set_wallet (wallet_release (au_estimated a) w) (set_auth a' db))
           \<lparr>wallet_ledger := wallet_ledger db @ [release_entry descr a w],
            usages := released_usages (au_usage a) db\<rparr>) \<or>
     (\<exists>c\<in>set (credits db). au_type a = AccountTypePostpaid \<and> c_account c = au_account a \<and>
        db2 = (set_credit (credit_release (au_estimated a) c) (set_auth a' db))
           \<lparr>credit_ledger := credit_ledger db @ [released_entry descr a c],
            usages := released_usages (au_usage a) db\<rparr>)"

definition ends :: "authorization \<Rightarrow> authorization \<Rightarrow> bool" where
  "ends a a' \<longleftrightarrow> au_id a' = au_id a \<and> au_usage a' = au_usage a \<and> au_account a' = au_account a \<and>
     au_type a' = au_type a \<and> au_estimated a' = au_estimated a \<and> terminal_auth (au_status a')"

lemma ends_not_active: "ends a a' \<Longrightarrow> au_status a' \<noteq> AuthStatusActive"
  by (auto simp: ends_def)

lemma inv_usage_checks: "billing_inv db \<Longrightarrow> \<forall>u\<in>set (usages db). usage_check u"
  by (simp add: billing_inv_def rows_ok_def)

lemma releases_closing:
  assumes rel: "releases descr a a' db db2" and inv: "billing_inv db"
    and a: "a \<in> set (auths db)" "au_status a = AuthStatusActive" "ends a a'"
  shows "\<exists>es fs. closing db a a' db2 es fs"
proof -
  note us = released_usages_props(1) [of "au_usage a" db] released_usages_props(2) [OF inv_usage_checks [OF inv], of "au_usage a"]
  from us(1) have ius: "iu_id ` set (released_usages (au_usage a) db) = iu_id ` set (usages db)"
    by (metis set_map)
  have aus: "au_id ` set (put_row au_id a' (auths db)) = au_id ` set (auths db)"
    by (metis map_key_put_row set_map)
  have u: "au_usage a \<in> iu_id ` set (usages db)" and i: "au_id a \<in> au_id ` set (auths db)"
    using billing_inv_authD [OF inv a(1)] a(1) by auto
  have refs: "ledger_refs_ok db" using inv by (simp add: billing_inv_def)
  from rel consider
    (w) w where "db2 = (set_wallet (wallet_release (au_estimated a) w) (set_auth a' db))
           \<lparr>wallet_ledger := wallet_ledger db @ [release_entry descr a w],
            usages := released_usages (au_usage a) db\<rparr>"
    | (c) c where "db2 = (set_credit (credit_release (au_estimated a) c) (set_auth a' db))
           \<lparr>credit_ledger := credit_ledger db @ [released_entry descr a c],
            usages := released_usages (au_usage a) db\<rparr>"
    unfolding releases_def by blast
  then show ?thesis
  proof cases
    case w
    have "ledger_refs_ok db2"
      by (rule ledger_refs_ok_extend [OF refs, of _ "[release_entry descr a w]" "[]"])
         (use w i in \<open>simp_all add: aus ius release_entry_def\<close>)
    then have "closing db a a' db2 [release_entry descr a w] []"
      using a us ends_not_active [OF a(3)] by (simp add: closing_def w ends_def release_entry_def)
    then show ?thesis by blast
  next
    case c
    have "ledger_refs_ok db2"
      by (rule ledger_refs_ok_extend [OF refs, of _ "[]" "[released_entry descr a c]"])
         (use c i u in \<open>simp_all add: aus ius released_entry_def\<close>)
    then have "closing db a a' db2 [] [released_entry descr a c]"
      using a us ends_not_active [OF a(3)] by (simp add: closing_def c ends_def released_entry_def)
    then show ?thesis by blast
  qed
qed

lemma releases_inv:
  assumes rel: "releases descr a a' db db2" and inv: "billing_inv db"
    and a: "a \<in> set (auths db)" "au_status a = AuthStatusActive" "ends a a'"
  shows "billing_inv db2"
proof -
  obtain es fs where cl: "closing db a a' db2 es fs" using releases_closing [OF assms] by blast
  have x: "fits (au_estimated a)" using inv a(1) by (rule inv_auth_rowD)
  from rel consider
    (w) w where "w \<in> set (wallets db)" "au_type a = AccountTypePrepaid" "w_account w = au_account a"
      "db2 = (set_wallet (wallet_release (au_estimated a) w) (set_auth a' db))
           \<lparr>wallet_ledger := wallet_ledger db @ [release_entry descr a w],
            usages := released_usages (au_usage a) db\<rparr>"
    | (c) c where "c \<in> set (credits db)" "au_type a = AccountTypePostpaid" "c_account c = au_account a"
      "db2 = (set_credit (credit_release (au_estimated a) c) (set_auth a' db))
           \<lparr>credit_ledger := credit_ledger db @ [released_entry descr a c],
            usages := released_usages (au_usage a) db\<rparr>"
    unfolding releases_def by blast
  then show ?thesis
  proof cases
    case w
    have row: "wallet_check w" "fits (w_balance w)" "fits (w_reserved w)"
      using inv_wallet_rowD [OF inv w(1)] by blast+
    have le: "au_estimated a \<le> w_reserved w" using active_covered(1) [OF inv a(1,2) w(2,1,3)] .
    show ?thesis
      by (rule closing_wallet [OF cl inv w(1,3,2), of "wallet_release (au_estimated a) w"])
         (use wallet_release_ok [OF row(1,3) x le] row w in \<open>simp_all\<close>)
  next
    case c
    have row: "credit_check c" "fits (c_exposure c)" "fits (c_settled c)"
      using inv_credit_rowD [OF inv c(1)] by blast+
    have "au_estimated a \<le> c_exposure c - c_settled c" using active_covered(2) [OF inv a(1,2) c(2,1,3)] .
    then have le: "au_estimated a \<le> c_exposure c" using fits_nonneg [OF row(3)] by simp
    show ?thesis
      by (rule closing_credit [OF cl inv c(1,3,2), of "credit_release (au_estimated a) c"])
         (use row x le c in \<open>simp_all add: credit_check_def fits_diff\<close>)
  qed
qed

definition release_row :: "int \<Rightarrow> authorization \<Rightarrow> authorization" where
  "release_row now a = a\<lparr>au_status := AuthStatusReleased, au_released_at := Some now\<rparr>"

lemma ends_release_row [simp]: "ends a (release_row now a)"
  by (simp add: ends_def release_row_def)

lemma transition_eq:
  assumes "billing_inv db" and "a \<in> set (auths db)" and "au_status a = AuthStatusActive"
    and "au_id (g a) = au_id a"
  shows "update_active_auth (au_id a) (\<lambda>a. Inr (g a)) db = Inr (g a, set_auth (g a) db)"
  using assms by (subst update_active_auth_key) (auto simp: billing_inv_def keys_ok_def)

text \<open>Both transactions end alike: release the funds, mark the usage row, commit.\<close>

lemma release_body:
  assumes inv: "billing_inv db" and a: "a \<in> set (auths db)" "au_status a = AuthStatusActive" "ends a a'"
  obtains db2 where "releases descr a a' db (db2\<lparr>usages := released_usages (au_usage a) db\<rparr>)"
    and "(case au_type a of
            AccountTypePrepaid \<Rightarrow>
              releasePrepaidWallet (\<lambda>_. False) descr (au_account a) (au_estimated a) (au_id a) (set_auth a' db)
          | AccountTypePostpaid \<Rightarrow>
              releasePostpaidCredit (\<lambda>_. False) descr (au_account a) (au_estimated a) (au_id a) (au_usage a)
                (set_auth a' db)
          | AccountTypeOther s \<Rightarrow> Inr (set_auth a' db)) = Inr db2"
    and "mark_released (au_usage a) db2 = Inr (db2\<lparr>usages := released_usages (au_usage a) db\<rparr>)"
    and "ledger_refs_ok (db2\<lparr>usages := released_usages (au_usage a) db\<rparr>)"
proof -
  note chk = inv_usage_checks [OF inv]
  have refs: "ledger_refs_ok db3" if "releases descr a a' db db3" for db3
    using releases_inv [OF that inv a] by (simp add: billing_inv_def)
  have mark: "mark_released (au_usage a) d = Inr (d\<lparr>usages := released_usages (au_usage a) db\<rparr>)"
    if "usages d = usages db" for d
    using mark_released_eq [of d "au_usage a"] chk that by (simp add: released_usages_def)
  have "backed db a" using billing_inv_authD [OF inv a(1)] a(2) by blast
  then consider "au_type a = AccountTypePrepaid" | "au_type a = AccountTypePostpaid"
    by (auto simp: backed_def split: account_type.splits)
  then show thesis
  proof cases
    case 1
    obtain w where w: "w \<in> set (wallets db)" "w_account w = au_account a"
        "select1 (\<lambda>w. w_account w = au_account a) (wallets db) = Inr w"
      by (rule active_wallet [OF inv a(1,2) 1])
    let ?d = "(set_wallet (wallet_release (au_estimated a) w) (set_auth a' db))
           \<lparr>wallet_ledger := wallet_ledger db @ [release_entry descr a w]\<rparr>"
    have rel: "releases descr a a' db (?d\<lparr>usages := released_usages (au_usage a) db\<rparr>)"
      using w(1,2) 1 by (auto simp: releases_def)
    show thesis
      by (rule that [OF rel _ _ refs [OF rel]])
         (use 1 releasePrepaidWallet_eq [OF inv a(1,2) 1 w] mark [of ?d] in \<open>simp_all\<close>)
  next
    case 2
    obtain c where c: "c \<in> set (credits db)" "c_account c = au_account a"
        "select1 (\<lambda>c. c_account c = au_account a) (credits db) = Inr c"
      by (rule active_credit [OF inv a(1,2) 2])
    let ?d = "(set_credit (credit_release (au_estimated a) c) (set_auth a' db))
           \<lparr>credit_ledger := credit_ledger db @ [released_entry descr a c]\<rparr>"
    have rel: "releases descr a a' db (?d\<lparr>usages := released_usages (au_usage a) db\<rparr>)"
      using c(1,2) 2 by (auto simp: releases_def)
    show thesis
      by (rule that [OF rel _ _ refs [OF rel]])
         (use 2 releasePostpaidCredit_eq [OF inv a(1,2) 2 c] mark [of ?d] in \<open>simp_all\<close>)
  qed
qed

lemma Release_active:
  assumes inv: "billing_inv db" and a: "a \<in> set (auths db)" "au_status a = AuthStatusActive"
  shows "\<exists>db2. Release (\<lambda>_. False) now (au_id a) (au_usage a) db = (Inr (), db2) \<and>
    releases ''reservation released'' a (release_row now a) db db2"
proof -
  obtain db2 where *: "releases ''reservation released'' a (release_row now a) db
        (db2\<lparr>usages := released_usages (au_usage a) db\<rparr>)"
      "(case au_type a of
            AccountTypePrepaid \<Rightarrow> releasePrepaidWallet (\<lambda>_. False) ''reservation released'' (au_account a)
              (au_estimated a) (au_id a) (set_auth (release_row now a) db)
          | AccountTypePostpaid \<Rightarrow> releasePostpaidCredit (\<lambda>_. False) ''reservation released'' (au_account a)
              (au_estimated a) (au_id a) (au_usage a) (set_auth (release_row now a) db)
          | AccountTypeOther s \<Rightarrow> Inr (set_auth (release_row now a) db)) = Inr db2"
      "mark_released (au_usage a) db2 = Inr (db2\<lparr>usages := released_usages (au_usage a) db\<rparr>)"
      "ledger_refs_ok (db2\<lparr>usages := released_usages (au_usage a) db\<rparr>)"
    by (rule release_body [OF inv a ends_release_row])
  have "update_active_auth (au_id a)
      (\<lambda>a. Inr (a\<lparr>au_status := AuthStatusReleased, au_released_at := Some now\<rparr>)) db =
      Inr (release_row now a, set_auth (release_row now a) db)"
    using transition_eq [OF inv a, of "release_row now"] by (simp add: release_row_def)
  with * show ?thesis
    by (auto simp: Release_def commit_def release_row_def split: account_type.splits)
qed

lemma Release_inactive:
  assumes "\<forall>a\<in>set (auths db). \<not> (au_id a = authID \<and> au_status a = AuthStatusActive)"
  shows "snd (Release flt now authID usageID db) = db"
  using update_active_auth_none [OF assms]
  by (auto simp: Release_def stmt_def split: sum.splits)

lemma Release_cut:
  "snd (Release flt now authID usageID db) \<in> {db, snd (Release (\<lambda>_. False) now authID usageID db)}"
proof (cases "exec flt ''begin release'' (Inr ())")
  case (Inr u)
  let ?t = "update_active_auth authID
      (\<lambda>a. Inr (a\<lparr>au_status := AuthStatusReleased, au_released_at := Some now\<rparr>)) db"
  let ?b = "\<lambda>flt a db1. bindE (case au_type a of
                   AccountTypePrepaid \<Rightarrow>
                     releasePrepaidWallet flt ''reservation released'' (au_account a) (au_estimated a) authID db1
                 | AccountTypePostpaid \<Rightarrow>
                     releasePostpaidCredit flt ''reservation released'' (au_account a) (au_estimated a) authID usageID db1
                 | AccountTypeOther s \<Rightarrow> Inr db1) (\<lambda>db2.
          bindE (exec flt ''update inference_usage billing_status released'' (mark_released usageID db2)) (\<lambda>db3.
          exec flt ''commit release'' (commit () db3)))"
  have "cut (?b flt a db1) (?b (\<lambda>_. False) a db1)" for a db1
    by (cases "au_type a"; simp only: account_type.case releasePrepaidWallet_def releasePostpaidCredit_def)
       (intro cut_intros)+
  from cut_run_tx [OF this]
  have *: "snd (run_tx db (?b flt a db1)) \<in> {db, snd (run_tx db (?b (\<lambda>_. False) a db1))}" for a db1
    by (metis insertI1 insertI2 singletonI snd_conv)
  show ?thesis
  proof (cases "stmt flt ''release transition'' ?t")
    case (Inl e)
    then show ?thesis using Inr by (simp add: Release_def)
  next
    case R: (Inr p)
    then have "?t = Inr p" "\<not> flt ''release transition''" by simp_all
    with Inr * show ?thesis by (cases p) (simp add: Release_def)
  qed
qed (simp add: Release_def)

lemma Release_inv:
  assumes inv: "billing_inv db" and own: "\<forall>a\<in>set (auths db). au_id a = authID \<longrightarrow> au_usage a = usageID"
  shows "billing_inv (snd (Release flt now authID usageID db))"
proof (cases "\<exists>a\<in>set (auths db). au_id a = authID \<and> au_status a = AuthStatusActive")
  case True
  then obtain a where a: "a \<in> set (auths db)" "au_status a = AuthStatusActive" "au_id a = authID" by blast
  with Release_active [OF inv a(1,2), of now] own
  have "billing_inv (snd (Release (\<lambda>_. False) now authID usageID db))"
    using releases_inv [OF _ inv a(1,2) ends_release_row] by force
  with Release_cut [of flt now authID usageID db] inv show ?thesis by auto
next
  case False
  with Release_inactive [of db authID flt now usageID] inv show ?thesis by auto
qed

subsection \<open>Reserving, exactly\<close>

lemma reserve_errors:
  "fst (Reserve flt now authTTL authID inp db) = Inl e \<Longrightarrow> snd (Reserve flt now authTTL authID inp db) = db"
  by (auto simp: Reserve_def Let_def reservePrepaid_def reservePostpaid_def run_tx_error
      split: account_type.splits)

lemma Reserve_stored:
  assumes "Reserve flt now authTTL authID inp db = (Inr out, db')" and "billing_inv db"
    and "0 \<le> ri_estimated inp"
  shows "auths db' = auths db @ [stored_auth authID inp (now + authTTL)]"
    and "ri_type inp = AccountTypePrepaid \<Longrightarrow>
      \<exists>w\<in>set (wallets db). w_account w = ri_account inp \<and> credits db' = credits db \<and>
        wallets db' = put_row w_id (wallet_reserve (ri_estimated inp) w) (wallets db)"
    and "ri_type inp = AccountTypePostpaid \<Longrightarrow>
      \<exists>c\<in>set (credits db). c_account c = ri_account inp \<and> wallets db' = wallets db \<and>
        credits db' = put_row c_id (credit_reserve (ri_estimated inp) c) (credits db)"
    and "ri_type inp \<in> {AccountTypePrepaid, AccountTypePostpaid}"
proof -
  have ty: "ri_type inp = AccountTypePrepaid \<and> reservePrepaid flt (now + authTTL) authID inp db = (Inr out, db') \<or>
      ri_type inp = AccountTypePostpaid \<and> reservePostpaid flt (now + authTTL) authID inp db = (Inr out, db')"
    using assms(1) by (auto simp: Reserve_def Let_def split: account_type.splits)
  then show "ri_type inp \<in> {AccountTypePrepaid, AccountTypePostpaid}" by blast
  from ty show "auths db' = auths db @ [stored_auth authID inp (now + authTTL)]"
    by (elim disjE conjE reservePrepaid_InrD reservePostpaid_InrD) (use assms in simp_all)
  show "\<exists>w\<in>set (wallets db). w_account w = ri_account inp \<and> credits db' = credits db \<and>
        wallets db' = put_row w_id (wallet_reserve (ri_estimated inp) w) (wallets db)"
    if "ri_type inp = AccountTypePrepaid"
    using ty that by (elim disjE conjE reservePrepaid_InrD) (use assms in auto)
  show "\<exists>c\<in>set (credits db). c_account c = ri_account inp \<and> wallets db' = wallets db \<and>
        credits db' = put_row c_id (credit_reserve (ri_estimated inp) c) (credits db)"
    if "ri_type inp = AccountTypePostpaid"
    using ty that by (elim disjE conjE reservePostpaid_InrD) (use assms in auto)
qed

text \<open>What a wallet or a credit account holds, without its version counter.\<close>

definition wallet_funds :: "wallet \<Rightarrow> id \<times> id \<times> decimal \<times> decimal" where
  "wallet_funds w = (w_id w, w_account w, w_balance w, w_reserved w)"

definition credit_funds :: "credit_account \<Rightarrow> id \<times> id \<times> decimal \<times> decimal \<times> decimal" where
  "credit_funds c = (c_id c, c_account c, c_limit c, c_exposure c, c_settled c)"

lemma put_row_twice: "key r' = key r \<Longrightarrow> put_row key r' (put_row key r rs) = put_row key r' rs"
  by (simp add: put_row_def)

lemma put_row_keyD: "distinct (map key rs) \<Longrightarrow> r \<in> set (put_row key r' rs) \<Longrightarrow> key r = key r' \<Longrightarrow> r = r'"
  by (auto simp: put_row_def split: if_splits)

lemma find_account_put_row:
  assumes "distinct (map key rs)" and "distinct (map acc rs)" and "r \<in> set rs" and "key r' = key r"
    and "acc r' = acc r" and "s \<in> set (put_row key r' rs)" and "acc s = acc r"
  shows "s = r'"
proof -
  have "s = r' \<or> s \<in> set rs \<and> key s \<noteq> key r'" using assms(6) by (auto simp: put_row_def split: if_splits)
  moreover have "\<not> (s \<in> set rs \<and> key s \<noteq> key r')"
    using assms distinct_key_unique [OF assms(2), of s r] by auto
  ultimately show ?thesis by blast
qed

lemma reserve_then_release:
  assumes inv: "billing_inv db" and est: "0 \<le> ri_estimated inp"
    and res: "Reserve flt now authTTL authID inp db = (Inr out, db1)"
  shows "\<exists>db2. Release (\<lambda>_. False) later authID (ri_usage inp) db1 = (Inr (), db2) \<and>
    map wallet_funds (wallets db2) = map wallet_funds (wallets db) \<and>
    map credit_funds (credits db2) = map credit_funds (credits db)"
proof -
  let ?a = "stored_auth authID inp (now + authTTL)" and ?x = "ri_estimated inp"
  note st = Reserve_stored [OF res inv est]
  have inv1: "billing_inv db1" using Reserve_inv [OF inv est, of flt now authTTL authID] res by simp
  have a: "?a \<in> set (auths db1)" "au_status ?a = AuthStatusActive" "au_id ?a = authID"
      "au_usage ?a = ri_usage inp" "au_type ?a = ri_type inp" "au_account ?a = ri_account inp"
      "au_estimated ?a = round8 ?x"
    using st(1) by (simp_all add: new_auth_def)
  obtain db2 where db2: "Release (\<lambda>_. False) later authID (ri_usage inp) db1 = (Inr (), db2)"
      "releases ''reservation released'' ?a (release_row later ?a) db1 db2"
    using Release_active [OF inv1 a(1,2), of later] a(3,4) by auto
  have keys: "keys_ok db" using inv by (simp add: billing_inv_def)
  have "map wallet_funds (wallets db2) = map wallet_funds (wallets db) \<and>
      map credit_funds (credits db2) = map credit_funds (credits db)"
    using db2(2) unfolding releases_def
  proof (elim disjE bexE conjE)
    fix w1 assume w1: "w1 \<in> set (wallets db1)" "au_type ?a = AccountTypePrepaid" "w_account w1 = au_account ?a"
      and d: "db2 = (set_wallet (wallet_release (au_estimated ?a) w1) (set_auth (release_row later ?a) db1))
           \<lparr>wallet_ledger := wallet_ledger db1 @ [release_entry ''reservation released'' ?a w1],
            usages := released_usages (au_usage ?a) db1\<rparr>"
    from st(2) w1(2) a(5) obtain w where w: "w \<in> set (wallets db)" "w_account w = ri_account inp"
      "credits db1 = credits db" "wallets db1 = put_row w_id (wallet_reserve ?x w) (wallets db)" by auto
    have w1': "w1 = wallet_reserve ?x w"
      by (rule find_account_put_row [of w_id "wallets db" w_account w])
         (use keys w w1 a(6) in \<open>auto simp: keys_ok_def\<close>)
    have "map wallet_funds (put_row w_id (wallet_release (round8 ?x) w1) (wallets db)) = map wallet_funds (wallets db)"
      by (rule map_put_row_same [where r = w])
         (use keys w in \<open>simp_all add: keys_ok_def w1' wallet_funds_def\<close>)
    then show ?thesis using d w a(7) w1' by (simp add: put_row_twice)
  next
    fix c1 assume c1: "c1 \<in> set (credits db1)" "au_type ?a = AccountTypePostpaid" "c_account c1 = au_account ?a"
      and d: "db2 = (set_credit (credit_release (au_estimated ?a) c1) (set_auth (release_row later ?a) db1))
           \<lparr>credit_ledger := credit_ledger db1 @ [released_entry ''reservation released'' ?a c1],
            usages := released_usages (au_usage ?a) db1\<rparr>"
    from st(3) c1(2) a(5) obtain c where c: "c \<in> set (credits db)" "c_account c = ri_account inp"
      "wallets db1 = wallets db" "credits db1 = put_row c_id (credit_reserve ?x c) (credits db)" by auto
    have c1': "c1 = credit_reserve ?x c"
      by (rule find_account_put_row [of c_id "credits db" c_account c])
         (use keys c c1 a(6) in \<open>auto simp: keys_ok_def\<close>)
    have "map credit_funds (put_row c_id (credit_release (round8 ?x) c1) (credits db)) = map credit_funds (credits db)"
      by (rule map_put_row_same [where r = c])
         (use keys c in \<open>simp_all add: keys_ok_def c1' credit_funds_def\<close>)
    then show ?thesis using d c a(7) c1' by (simp add: put_row_twice)
  qed
  with db2(1) show ?thesis by blast
qed

lemma Reserve_prepaid_ok:
  assumes inv: "billing_inv db" and est: "0 \<le> ri_estimated inp" and ty: "ri_type inp = AccountTypePrepaid"
    and w: "lock_active_wallet (ri_account inp) db = Inr w"
      "ri_estimated inp \<le> w_balance w - w_reserved w"
    and fresh: "authID \<notin> au_id ` set (auths db)" "ri_usage inp \<notin> au_usage ` set (auths db)"
      "ri_usage inp \<in> iu_id ` set (usages db)"
  shows "fst (Reserve (\<lambda>_. False) now authTTL authID inp db) =
    Inr \<lparr>ro_auth = authID, ro_expires_at = now + authTTL\<rparr>"
proof -
  from w(1) have w': "w \<in> set (wallets db)" "has_active_account (ri_account inp) db"
    by (auto dest: lock_active_wallet_InrD)
  note upd = update_wallet_reserve [OF inv w'(1) est w(2)]
  let ?d1 = "set_wallet (wallet_reserve (ri_estimated inp) w) db"
  let ?d2 = "?d1\<lparr>auths := auths db @ [stored_auth authID inp (now + authTTL)]\<rparr>"
  have "ri_account inp \<in> ba_id ` set (accounts db)"
    using w'(2) unfolding has_active_account_def list_ex_iff by force
  moreover have "numeric_16_8 (ri_estimated inp) = Inr (round8 (ri_estimated inp))" "0 \<le> round8 (ri_estimated inp)"
    using upd(4) by (auto simp: numeric_16_8_Inr fits_def)
  ultimately have 2: "insert_auth_stmt (\<lambda>_. False) (new_auth authID inp (now + authTTL)) ?d1 = Inr ?d2"
    using fresh ty by (simp add: insert_auth_stmt_def insert_auth_def new_auth_def Let_def)
  have 3: "mark_reserved (ri_usage inp) ?d2 = Inr (?d2\<lparr>usages := reserved_usages (ri_usage inp) ?d2\<rparr>)"
    by (rule mark_reserved_eq) (use inv_usage_checks [OF inv] in \<open>simp\<close>)
  have "map iu_id (reserved_usages (ri_usage inp) ?d2) = map iu_id (usages db)"
    by (simp add: reserved_usages_def)
  then have us: "iu_id ` set (reserved_usages (ri_usage inp) ?d2) = iu_id ` set (usages db)"
    by (metis set_map)
  have refs: "ledger_refs_ok db" using inv by (simp add: billing_inv_def)
  have "ledger_refs_ok (?d2\<lparr>usages := reserved_usages (ri_usage inp) ?d2\<rparr>)"
    by (rule ledger_refs_ok_extend [OF refs, of _ "[]" "[]"]) (simp_all add: us subset_insertI)
  then show ?thesis
    using ty w upd(1) 2 3 by (simp add: Reserve_def reservePrepaid_def commit_def Let_def not_less)
qed

end
