(* ===== verification/Billing_Settlement.thy ===== *)
theory Billing_Settlement
  imports Billing_Reservation
begin

text \<open>
  \<open>internal/billing/settlement.go\<close>: \<open>Settle\<close> ends an authorization with the actual cost, capped at
  the reservation, and the recovery path for an authorization that is no longer active
  (\<open>handleExpiryRecovery\<close>, \<open>unplannedDebit\<close>).
\<close>

record settle_input =
  si_auth :: id
  si_usage :: id
  si_account :: id
  si_type :: account_type
  si_actual :: decimal
  si_currency :: string

definition mark_disputed :: "faults \<Rightarrow> id \<Rightarrow> billing_db \<Rightarrow> billing_db" where
  "mark_disputed flt uid db =
     (case stmt flt ''mark disputed''
        (update_usage (\<lambda>u. iu_id u = uid) (\<lambda>u. Inr (u\<lparr>iu_billing := BillingDisputed\<rparr>)) db) of
        Inl _ \<Rightarrow> db | Inr db' \<Rightarrow> db')"

definition mark_committed :: "id \<Rightarrow> decimal \<Rightarrow> billing_db \<Rightarrow> sql_error + billing_db" where
  "mark_committed uid cost =
     update_usage (\<lambda>u. iu_id u = uid)
       (\<lambda>u. bindE (numeric_16_8 cost) (\<lambda>c. Inr (u\<lparr>iu_billing := BillingCommitted, iu_total_cost := c\<rparr>)))"

definition unplannedDebit ::
    "faults \<Rightarrow> settle_input \<Rightarrow> billing_db \<Rightarrow> (billing_error + unit) \<times> billing_db" where
  "unplannedDebit flt inp db =
     (if si_type inp \<noteq> AccountTypePrepaid then (Inr (), mark_disputed flt (si_usage inp) db)
      else case bindE (exec flt ''begin unplanned_debit'' (Inr ())) (\<lambda>_.
             exec flt ''wallet lock for unplanned debit''
               (select1 (\<lambda>w. w_account w = si_account inp) (wallets db))) of
        Inl e \<Rightarrow> (Inl e, db)
      | Inr w \<Rightarrow>
        (let available = w_balance w - w_reserved w in
         if available < si_actual inp then (Inr (), mark_disputed flt (si_usage inp) db)
         else run_tx db (
           bindE (exec flt ''update wallet unplanned debit''
             (update_wallet (w_id w) (\<lambda>x. w_balance x - si_actual inp) w_reserved db)) (\<lambda>db1.
           bindE (exec flt ''insert unplanned_debit ledger''
             (insert_wallet_ledger
                \<lparr>wl_wallet = w_id w, wl_type = LedgerUnplannedDebit, wl_amount = si_actual inp,
                 wl_usage = Some (si_usage inp), wl_auth = None,
                 wl_description = ''late settlement after auth expiry''\<rparr> db1)) (\<lambda>db2.
           bindE (exec flt ''update inference_usage unplanned_debit''
             (mark_committed (si_usage inp) (si_actual inp) db2)) (\<lambda>db3.
           exec flt ''commit unplanned_debit'' (commit () db3)))))))"

definition handleExpiryRecovery ::
    "faults \<Rightarrow> expiry_policy \<Rightarrow> settle_input \<Rightarrow> billing_db \<Rightarrow> (billing_error + unit) \<times> billing_db" where
  "handleExpiryRecovery flt policy inp db =
     (case exec flt ''lookup auth status for recovery''
             (select1 (\<lambda>a. au_id a = si_auth inp) (auths db)) of
        Inl e \<Rightarrow> (Inl e, db)
      | Inr a \<Rightarrow>
          if au_status a = AuthStatusCommitted then (Inr (), db)
          else case policy of
            PolicyBestEffort \<Rightarrow> unplannedDebit flt inp db
          | PolicyWriteOff \<Rightarrow> (Inr (), mark_disputed flt (si_usage inp) db))"

definition commit_row :: "int \<Rightarrow> decimal \<Rightarrow> authorization \<Rightarrow> authorization" where
  "commit_row now actual a =
     a\<lparr>au_status := AuthStatusCommitted, au_actual := Some actual, au_committed_at := Some now\<rparr>"

definition settle_transition ::
    "int \<Rightarrow> settle_input \<Rightarrow> billing_db \<Rightarrow> sql_error + authorization \<times> billing_db" where
  "settle_transition now inp =
     update_active_auth (si_auth inp)
       (\<lambda>a. bindE (numeric_16_8 (si_actual inp)) (\<lambda>c. Inr (commit_row now c a)))"

text \<open>\<open>if actualCost.GreaterThan(estimatedCost) { actualCost = estimatedCost }\<close>\<close>

definition cap :: "settle_input \<Rightarrow> authorization \<Rightarrow> decimal" where
  "cap inp a = (if si_actual inp > au_estimated a then au_estimated a else si_actual inp)"

definition settlePrepaid ::
    "faults \<Rightarrow> expiry_policy \<Rightarrow> int \<Rightarrow> settle_input \<Rightarrow> billing_db \<Rightarrow> (billing_error + unit) \<times> billing_db" where
  "settlePrepaid flt policy now inp db =
     (case exec flt ''begin settle prepaid'' (Inr ()) of
        Inl e \<Rightarrow> (Inl e, db)
      | Inr _ \<Rightarrow>
     (case stmt flt ''settle transition'' (settle_transition now inp db) of
        Inl _ \<Rightarrow> handleExpiryRecovery flt policy inp db
      | Inr (a, db1) \<Rightarrow>
        (let estimatedCost = au_estimated a;
             actualCost = cap inp a;
             delta = estimatedCost - actualCost
         in run_tx db (
           bindE (exec flt ''wallet lookup for settlement''
             (select1 (\<lambda>w. w_account w = si_account inp) (wallets db1))) (\<lambda>w.
           bindE (exec flt ''update wallet on commit''
             (update_wallet (w_id w) (\<lambda>x. w_balance x - actualCost) (\<lambda>x. w_reserved x - estimatedCost) db1)) (\<lambda>db2.
           bindE (guardE (ErrNoWalletRow (w_id w)) (list_ex (\<lambda>x. w_id x = w_id w) (wallets db1))) (\<lambda>_.
           bindE (exec flt ''insert wallet_ledger debit''
             (insert_wallet_ledger
                \<lparr>wl_wallet = w_id w, wl_type = LedgerDebit, wl_amount = actualCost,
                 wl_usage = Some (si_usage inp), wl_auth = Some (si_auth inp),
                 wl_description = ''inference settled''\<rparr> db2)) (\<lambda>db3.
           bindE (if 0 < delta
                  then exec flt ''insert wallet_ledger release''
                    (insert_wallet_ledger
                       \<lparr>wl_wallet = w_id w, wl_type = LedgerRelease, wl_amount = delta,
                        wl_usage = None, wl_auth = Some (si_auth inp),
                        wl_description = ''unused reservation released''\<rparr> db3)
                  else Inr db3) (\<lambda>db4.
           bindE (exec flt ''update inference_usage committed''
             (mark_committed (si_usage inp) actualCost db4)) (\<lambda>db5.
           exec flt ''commit settle prepaid'' (commit () db5)))))))))))"

definition settlePostpaid ::
    "faults \<Rightarrow> expiry_policy \<Rightarrow> int \<Rightarrow> settle_input \<Rightarrow> billing_db \<Rightarrow> (billing_error + unit) \<times> billing_db" where
  "settlePostpaid flt policy now inp db =
     (case exec flt ''begin settle postpaid'' (Inr ()) of
        Inl e \<Rightarrow> (Inl e, db)
      | Inr _ \<Rightarrow>
     (case stmt flt ''settle transition'' (settle_transition now inp db) of
        Inl _ \<Rightarrow> handleExpiryRecovery flt policy inp db
      | Inr (a, db1) \<Rightarrow>
        (let estimatedCost = au_estimated a;
             actualCost = cap inp a;
             delta = estimatedCost - actualCost
         in run_tx db (
           bindE (exec flt ''credit account lookup for settlement''
             (select1 (\<lambda>c. c_account c = si_account inp) (credits db1))) (\<lambda>c.
           bindE (exec flt ''update credit cycle settled''
             (update_credit (c_id c) c_exposure (\<lambda>x. c_settled x + actualCost) True db1)) (\<lambda>db2.
           bindE (if 0 < delta
                  then exec flt ''reduce credit total_exposure delta''
                    (update_credit (c_id c) (\<lambda>x. c_exposure x - delta) c_settled False db2)
                  else Inr db2) (\<lambda>db3.
           bindE (exec flt ''insert credit_ledger settled''
             (insert_credit_ledger
                \<lparr>cl_credit = c_id c, cl_type = CreditLedgerSettled, cl_amount = actualCost,
                 cl_usage = Some (si_usage inp), cl_auth = Some (si_auth inp),
                 cl_description = ''inference settled''\<rparr> db3)) (\<lambda>db4.
           bindE (if 0 < delta
                  then exec flt ''insert credit_ledger released''
                    (insert_credit_ledger
                       \<lparr>cl_credit = c_id c, cl_type = CreditLedgerReleased, cl_amount = delta,
                        cl_usage = None, cl_auth = Some (si_auth inp),
                        cl_description = ''unused reservation released''\<rparr> db4)
                  else Inr db4) (\<lambda>db5.
           bindE (exec flt ''update inference_usage committed postpaid''
             (mark_committed (si_usage inp) actualCost db5)) (\<lambda>db6.
           exec flt ''commit settle postpaid'' (commit () db6)))))))))))"

definition Settle ::
    "faults \<Rightarrow> expiry_policy \<Rightarrow> int \<Rightarrow> settle_input \<Rightarrow> billing_db \<Rightarrow> (billing_error + unit) \<times> billing_db" where
  "Settle flt policy now inp db =
     (case si_type inp of
        AccountTypePrepaid \<Rightarrow> settlePrepaid flt policy now inp db
      | AccountTypePostpaid \<Rightarrow> settlePostpaid flt policy now inp db
      | AccountTypeOther s \<Rightarrow> (Inl (ErrUnknownAccountType (si_type inp)), db))"

subsection \<open>Statements of a settlement\<close>

definition committed_usages :: "id \<Rightarrow> decimal \<Rightarrow> billing_db \<Rightarrow> inference_usage list" where
  "committed_usages uid cost db =
     map (\<lambda>u. if iu_id u = uid then u\<lparr>iu_billing := BillingCommitted, iu_total_cost := round8 cost\<rparr> else u)
       (usages db)"

lemma mark_committed_eq:
  assumes "\<forall>u\<in>set (usages db). usage_check u" and "fits (round8 cost)"
  shows "mark_committed uid cost db = Inr (db\<lparr>usages := committed_usages uid cost db\<rparr>)"
proof -
  have "numeric_16_8 cost = Inr (round8 cost)" using assms(2) by (auto simp: numeric_16_8_Inr fits_def)
  then show ?thesis
    unfolding mark_committed_def committed_usages_def
    by simp (rule update_usage_total, use assms(1) in \<open>auto simp: usage_check_def\<close>)
qed

lemma committed_usages_props:
  "map iu_id (committed_usages uid cost db) = map iu_id (usages db)"
  "\<forall>u\<in>set (usages db). usage_check u \<Longrightarrow> \<forall>u\<in>set (committed_usages uid cost db). usage_check u"
  by (auto simp: committed_usages_def usage_check_def)

lemma mark_disputed_cases:
  assumes "\<forall>u\<in>set (usages db). usage_check u"
  obtains us where "mark_disputed flt uid db = db\<lparr>usages := us\<rparr>"
    and "map iu_id us = map iu_id (usages db)" and "\<forall>u\<in>set us. usage_check u"
proof -
  let ?g = "\<lambda>u. u\<lparr>iu_billing := BillingDisputed\<rparr>"
  have "update_usage (\<lambda>u. iu_id u = uid) (\<lambda>u. Inr (?g u)) db =
      Inr (db\<lparr>usages := map (\<lambda>u. if iu_id u = uid then ?g u else u) (usages db)\<rparr>)"
    by (rule update_usage_total) (use assms in \<open>auto simp: usage_check_def\<close>)
  then have eq: "mark_disputed flt uid db =
      (if flt ''mark disputed'' then db\<lparr>usages := usages db\<rparr>
       else db\<lparr>usages := map (\<lambda>u. if iu_id u = uid then ?g u else u) (usages db)\<rparr>)"
    by (simp add: mark_disputed_def stmt_def)
  show thesis
  proof (cases "flt ''mark disputed''")
    case True
    show thesis by (rule that [of "usages db"]) (use True eq assms in simp_all)
  next
    case False
    show thesis
      by (rule that [of "map (\<lambda>u. if iu_id u = uid then ?g u else u) (usages db)"])
         (use False eq assms in \<open>auto simp: usage_check_def\<close>)
  qed
qed

lemma mark_disputed_inv: "billing_inv db \<Longrightarrow> billing_inv (mark_disputed flt uid db)"
  using mark_disputed_cases [OF inv_usage_checks, of db flt uid]
  by (metis billing_inv_def inv_usages_only refs_usages_only)

lemma insert_wallet_ledger_ok:
  assumes "fits (round8 (wl_amount e))" and "wl_wallet e \<in> w_id ` set (wallets db)"
    and "\<not> list_ex (wallet_entry_conflict e) (wallet_ledger db)"
  shows "insert_wallet_ledger e db =
    Inr (db\<lparr>wallet_ledger := wallet_ledger db @ [e\<lparr>wl_amount := round8 (wl_amount e)\<rparr>]\<rparr>)"
proof -
  have "numeric_16_8 (wl_amount e) = Inr (round8 (wl_amount e))" "0 \<le> round8 (wl_amount e)"
    using assms(1) by (auto simp: numeric_16_8_Inr fits_def)
  moreover have "wallet_entry_conflict (e\<lparr>wl_amount := x\<rparr>) = wallet_entry_conflict e" for x
    by (simp add: wallet_entry_conflict_def fun_eq_iff)
  ultimately show ?thesis using assms(2,3) by (simp add: insert_wallet_ledger_def Let_def)
qed

lemma insert_credit_ledger_ok:
  assumes "fits (round8 (cl_amount e))" and "cl_credit e \<in> c_id ` set (credits db)"
    and "\<not> list_ex (credit_entry_conflict e) (credit_ledger db)"
  shows "insert_credit_ledger e db =
    Inr (db\<lparr>credit_ledger := credit_ledger db @ [e\<lparr>cl_amount := round8 (cl_amount e)\<rparr>]\<rparr>)"
proof -
  have "numeric_16_8 (cl_amount e) = Inr (round8 (cl_amount e))" "0 \<le> round8 (cl_amount e)"
    using assms(1) by (auto simp: numeric_16_8_Inr fits_def)
  moreover have "credit_entry_conflict (e\<lparr>cl_amount := x\<rparr>) = credit_entry_conflict e" for x
    by (simp add: credit_entry_conflict_def fun_eq_iff)
  ultimately show ?thesis using assms(2,3) by (simp add: insert_credit_ledger_def Let_def)
qed

lemma fits_round8_le: "0 \<le> x \<Longrightarrow> x \<le> y \<Longrightarrow> fits y \<Longrightarrow> fits (round8 x)"
  using round8_mono [of x y] by (simp add: fits_def)

lemma settle_transition_eq:
  assumes "billing_inv db" and "a \<in> set (auths db)" and "au_status a = AuthStatusActive"
    and "si_auth inp = au_id a" and "fits (round8 (si_actual inp))"
  shows "settle_transition now inp db =
    Inr (commit_row now (round8 (si_actual inp)) a, set_auth (commit_row now (round8 (si_actual inp)) a) db)"
proof -
  have "numeric_16_8 (si_actual inp) = Inr (round8 (si_actual inp))"
    using assms(5) by (auto simp: numeric_16_8_Inr fits_def)
  then show ?thesis
    using transition_eq [OF assms(1-3), of "commit_row now (round8 (si_actual inp))"] assms(4)
    by (simp add: settle_transition_def commit_row_def)
qed

lemma commit_row_sel [simp]:
  "au_estimated (commit_row now c a) = au_estimated a" "cap inp (commit_row now c a) = cap inp a"
  by (simp_all add: commit_row_def cap_def)

lemma ends_commit_row [simp]: "ends a (commit_row now c a)"
  by (simp add: ends_def commit_row_def)

definition wallet_settle :: "decimal \<Rightarrow> decimal \<Rightarrow> wallet \<Rightarrow> wallet" where
  "wallet_settle cost est w =
     w\<lparr>w_balance := round8 (w_balance w - cost), w_reserved := w_reserved w - est,
       w_version := w_version w + 1\<rparr>"

definition credit_settle :: "decimal \<Rightarrow> decimal \<Rightarrow> credit_account \<Rightarrow> credit_account" where
  "credit_settle cost est c =
     c\<lparr>c_exposure := c_exposure c - est + round8 cost, c_settled := c_settled c + round8 cost,
       c_version := c_version c + 1\<rparr>"

lemma settle_sel [simp]:
  "w_id (wallet_settle cost est w) = w_id w" "w_account (wallet_settle cost est w) = w_account w"
  "w_balance (wallet_settle cost est w) = round8 (w_balance w - cost)"
  "w_reserved (wallet_settle cost est w) = w_reserved w - est"
  "c_id (credit_settle cost est c) = c_id c" "c_account (credit_settle cost est c) = c_account c"
  "c_limit (credit_settle cost est c) = c_limit c"
  "c_exposure (credit_settle cost est c) = c_exposure c - est + round8 cost"
  "c_settled (credit_settle cost est c) = c_settled c + round8 cost"
  by (simp_all add: wallet_settle_def credit_settle_def)

lemma wallet_settle_ok:
  assumes "wallet_check w" and "fits (w_balance w)" and "fits (w_reserved w)" and "fits est"
    and "0 \<le> cost" and "cost \<le> est" and "est \<le> w_reserved w"
  shows "wallet_check (wallet_settle cost est w)" and "fits (round8 (w_balance w - cost))"
    and "fits (w_reserved w - est)"
proof -
  have le: "w_reserved w - est \<le> w_balance w - cost" and nn: "0 \<le> w_balance w - cost"
    using assms by (auto simp: wallet_check_def)
  show "fits (round8 (w_balance w - cost))"
    using nn assms by (intro fits_round8_le [of _ "w_balance w"]) auto
  show fit: "fits (w_reserved w - est)" using assms by (intro fits_diff)
  have "round8 (w_reserved w - est) \<le> round8 (w_balance w - cost)"
    using assms le by (intro round8_mono) auto
  with fit show "wallet_check (wallet_settle cost est w)"
    using nn by (simp add: wallet_check_def fits_def)
qed

lemma credit_settle_ok:
  assumes "credit_check c" and "fits (c_exposure c)" and "fits (c_settled c)" and "fits est"
    and "0 \<le> cost" and "cost \<le> est" and "est \<le> c_exposure c - c_settled c"
  shows "credit_check (credit_settle cost est c)" and "fits (c_exposure c - est + round8 cost)"
    and "fits (c_settled c + round8 cost)" and "fits (round8 cost)"
proof -
  have r: "0 \<le> round8 cost" "round8 cost \<le> est"
    using assms(4-6) round8_mono [of cost est] by (auto simp: fits_def)
  show "fits (c_exposure c - est + round8 cost)" "fits (c_settled c + round8 cost)" "fits (round8 cost)"
    using assms r by (auto simp: fits_def)
  then show "credit_check (credit_settle cost est c)"
    using assms(1) by (simp add: credit_check_def fits_def)
qed

lemma cap_bounds: "0 \<le> si_actual inp \<Longrightarrow> 0 \<le> au_estimated a \<Longrightarrow> 0 \<le> cap inp a \<and> cap inp a \<le> au_estimated a"
  by (simp add: cap_def)

definition debit_entries :: "settle_input \<Rightarrow> authorization \<Rightarrow> wallet \<Rightarrow> wallet_entry list" where
  "debit_entries inp a w =
     \<lparr>wl_wallet = w_id w, wl_type = LedgerDebit, wl_amount = round8 (cap inp a),
      wl_usage = Some (si_usage inp), wl_auth = Some (si_auth inp), wl_description = ''inference settled''\<rparr>
     # (if 0 < au_estimated a - cap inp a
        then [\<lparr>wl_wallet = w_id w, wl_type = LedgerRelease, wl_amount = round8 (au_estimated a - cap inp a),
               wl_usage = None, wl_auth = Some (si_auth inp),
               wl_description = ''unused reservation released''\<rparr>]
        else [])"

definition settled_entries :: "settle_input \<Rightarrow> authorization \<Rightarrow> credit_account \<Rightarrow> credit_entry list" where
  "settled_entries inp a c =
     \<lparr>cl_credit = c_id c, cl_type = CreditLedgerSettled, cl_amount = round8 (cap inp a),
      cl_usage = Some (si_usage inp), cl_auth = Some (si_auth inp), cl_description = ''inference settled''\<rparr>
     # (if 0 < au_estimated a - cap inp a
        then [\<lparr>cl_credit = c_id c, cl_type = CreditLedgerReleased, cl_amount = round8 (au_estimated a - cap inp a),
               cl_usage = None, cl_auth = Some (si_auth inp),
               cl_description = ''unused reservation released''\<rparr>]
        else [])"

text \<open>
  \<open>settles now inp a db db2\<close>: the effect of settling the active authorization \<open>a\<close>. The wallet pays
  the capped cost and gives back the whole reservation; a credit account keeps the capped cost as
  exposure and adds it to the cycle.
\<close>

definition settles :: "int \<Rightarrow> settle_input \<Rightarrow> authorization \<Rightarrow> billing_db \<Rightarrow> billing_db \<Rightarrow> bool" where
  "settles now inp a db db2 \<longleftrightarrow>
     (let a' = commit_row now (round8 (si_actual inp)) a; cost = cap inp a; est = au_estimated a;
          us = committed_usages (si_usage inp) cost db in
     (\<exists>w\<in>set (wallets db). au_type a = AccountTypePrepaid \<and> w_account w = au_account a \<and>
        db2 = (set_wallet (wallet_settle cost est w) (set_auth a' db))
           \<lparr>wallet_ledger := wallet_ledger db @ debit_entries inp a w, usages := us\<rparr>) \<or>
     (\<exists>c\<in>set (credits db). au_type a = AccountTypePostpaid \<and> c_account c = au_account a \<and>
        db2 = (set_credit (credit_settle cost est c) (set_auth a' db))
           \<lparr>credit_ledger := credit_ledger db @ settled_entries inp a c, usages := us\<rparr>))"

text \<open>The caller names the authorization by its own usage row, account and account type.\<close>

definition settle_input_ok :: "settle_input \<Rightarrow> authorization \<Rightarrow> bool" where
  "settle_input_ok inp a \<longleftrightarrow> si_auth inp = au_id a \<and> si_usage inp = au_usage a \<and>
     si_account inp = au_account a \<and> si_type inp = au_type a \<and> 0 \<le> si_actual inp \<and>
     fits (round8 (si_actual inp))"

lemma settles_closing:
  assumes st: "settles now inp a db db2" and inv: "billing_inv db"
    and a: "a \<in> set (auths db)" "au_status a = AuthStatusActive" "settle_input_ok inp a"
  shows "\<exists>es fs. closing db a (commit_row now (round8 (si_actual inp)) a) db2 es fs"
proof -
  let ?us = "committed_usages (si_usage inp) (cap inp a) db" and ?a' = "commit_row now (round8 (si_actual inp)) a"
  note us = committed_usages_props(1) [of "si_usage inp" "cap inp a" db]
    committed_usages_props(2) [OF inv_usage_checks [OF inv], of "si_usage inp" "cap inp a"]
  from us(1) have ius: "iu_id ` set ?us = iu_id ` set (usages db)" by (metis set_map)
  have aus: "au_id ` set (put_row au_id ?a' (auths db)) = au_id ` set (auths db)"
    by (metis map_key_put_row set_map)
  have u: "si_usage inp \<in> iu_id ` set (usages db)" and i: "si_auth inp \<in> au_id ` set (auths db)"
    using billing_inv_authD [OF inv a(1)] a(1,3) by (auto simp: settle_input_ok_def)
  have refs: "ledger_refs_ok db" using inv by (simp add: billing_inv_def)
  have own: "si_usage inp = au_usage a" "si_auth inp = au_id a" using a(3) by (simp_all add: settle_input_ok_def)
  have a': "au_id ?a' = au_id a" "au_usage ?a' = au_usage a" "au_estimated ?a' = au_estimated a"
    "au_status ?a' \<noteq> AuthStatusActive" by (simp_all add: commit_row_def)
  from st show ?thesis unfolding settles_def Let_def
  proof (elim disjE bexE conjE)
    fix w assume d: "db2 = (set_wallet (wallet_settle (cap inp a) (au_estimated a) w) (set_auth ?a' db))
           \<lparr>wallet_ledger := wallet_ledger db @ debit_entries inp a w, usages := ?us\<rparr>"
    have "ledger_refs_ok db2"
      by (rule ledger_refs_ok_extend [OF refs, of _ "debit_entries inp a w" "[]"])
         (use d i u in \<open>auto simp: aus ius debit_entries_def\<close>)
    then have "closing db a ?a' db2 (debit_entries inp a w) []"
      using a us a' own by (simp add: closing_def d debit_entries_def)
    then show ?thesis by blast
  next
    fix c assume d: "db2 = (set_credit (credit_settle (cap inp a) (au_estimated a) c) (set_auth ?a' db))
           \<lparr>credit_ledger := credit_ledger db @ settled_entries inp a c, usages := ?us\<rparr>"
    have "ledger_refs_ok db2"
      by (rule ledger_refs_ok_extend [OF refs, of _ "[]" "settled_entries inp a c"])
         (use d i u in \<open>auto simp: aus ius settled_entries_def\<close>)
    then have "closing db a ?a' db2 [] (settled_entries inp a c)"
      using a us a' own by (simp add: closing_def d settled_entries_def)
    then show ?thesis by blast
  qed
qed

lemma settles_inv:
  assumes st: "settles now inp a db db2" and inv: "billing_inv db"
    and a: "a \<in> set (auths db)" "au_status a = AuthStatusActive" "settle_input_ok inp a"
  shows "billing_inv db2"
proof -
  obtain es fs where cl: "closing db a (commit_row now (round8 (si_actual inp)) a) db2 es fs"
    using settles_closing [OF assms] by blast
  have x: "fits (au_estimated a)" using inv a(1) by (rule inv_auth_rowD)
  have cap: "0 \<le> cap inp a" "cap inp a \<le> au_estimated a"
    using cap_bounds [of inp a] a(3) fits_nonneg [OF x] by (simp_all add: settle_input_ok_def)
  from st show ?thesis unfolding settles_def Let_def
  proof (elim disjE bexE conjE)
    fix w assume w: "w \<in> set (wallets db)" "au_type a = AccountTypePrepaid" "w_account w = au_account a"
      and d: "db2 = (set_wallet (wallet_settle (cap inp a) (au_estimated a) w)
            (set_auth (commit_row now (round8 (si_actual inp)) a) db))
           \<lparr>wallet_ledger := wallet_ledger db @ debit_entries inp a w,
            usages := committed_usages (si_usage inp) (cap inp a) db\<rparr>"
    have row: "wallet_check w" "fits (w_balance w)" "fits (w_reserved w)"
      using inv_wallet_rowD [OF inv w(1)] by blast+
    note ok = wallet_settle_ok [OF row x cap active_covered(1) [OF inv a(1,2) w(2,1,3)]]
    show ?thesis
      by (rule closing_wallet [OF cl inv w(1,3,2), of "wallet_settle (cap inp a) (au_estimated a) w"])
         (use ok d in \<open>simp_all\<close>)
  next
    fix c assume c: "c \<in> set (credits db)" "au_type a = AccountTypePostpaid" "c_account c = au_account a"
      and d: "db2 = (set_credit (credit_settle (cap inp a) (au_estimated a) c)
            (set_auth (commit_row now (round8 (si_actual inp)) a) db))
           \<lparr>credit_ledger := credit_ledger db @ settled_entries inp a c,
            usages := committed_usages (si_usage inp) (cap inp a) db\<rparr>"
    have row: "credit_check c" "fits (c_exposure c)" "fits (c_settled c)"
      using inv_credit_rowD [OF inv c(1)] by blast+
    note ok = credit_settle_ok [OF row x cap active_covered(2) [OF inv a(1,2) c(2,1,3)]]
    show ?thesis
      by (rule closing_credit [OF cl inv c(1,3,2), of "credit_settle (cap inp a) (au_estimated a) c"])
         (use ok d in \<open>simp_all\<close>)
  qed
qed

subsection \<open>Settling an active authorization\<close>

lemma wallet_row_kept: "w \<in> set ws \<Longrightarrow> w_id w' = w_id w \<Longrightarrow> w_id w \<in> w_id ` set (put_row w_id w' ws)"
  by (metis imageI list.set_map map_key_put_row)

lemma credit_row_kept: "c \<in> set cs \<Longrightarrow> c_id c' = c_id c \<Longrightarrow> c_id c \<in> c_id ` set (put_row c_id c' cs)"
  by (metis imageI list.set_map map_key_put_row)

lemma debit_no_conflict:
  assumes "billing_inv db" and "a \<in> set (auths db)" and "au_status a = AuthStatusActive"
    and "wl_type e = LedgerDebit \<and> wl_usage e = Some (au_usage a) \<or>
         wl_type e = LedgerRelease \<and> wl_auth e = Some (au_id a)"
  shows "\<not> list_ex (wallet_entry_conflict e) (wallet_ledger db)"
  by (rule no_closing_entry(1) [OF assms(1-3), of _ "released_entry [] a c" for c])
     (use assms(4) in \<open>auto simp: closes_wallet_def closes_credit_def released_entry_def\<close>)

lemma settled_no_conflict:
  assumes "billing_inv db" and "a \<in> set (auths db)" and "au_status a = AuthStatusActive"
    and "cl_type e = CreditLedgerSettled \<and> cl_usage e = Some (au_usage a) \<or>
         cl_type e = CreditLedgerReleased \<and> cl_auth e = Some (au_id a)"
  shows "\<not> list_ex (credit_entry_conflict e) (credit_ledger db)"
  by (rule no_closing_entry(2) [OF assms(1-3), of "release_entry [] a w" for w])
     (use assms(4) in \<open>auto simp: closes_wallet_def closes_credit_def release_entry_def\<close>)

lemma update_wallet_settle:
  assumes inv: "billing_inv db" and w: "w \<in> set (wallets db)"
    and ok: "fits (round8 (w_balance w - cost))" "fits (w_reserved w - est)"
      "wallet_check (wallet_settle cost est w)"
  shows "update_wallet (w_id w) (\<lambda>x. w_balance x - cost) (\<lambda>x. w_reserved x - est) (set_auth a' db) =
    Inr (set_wallet (wallet_settle cost est w) (set_auth a' db))"
proof -
  have "numeric_16_8 (w_balance w - cost) = Inr (round8 (w_balance w - cost))"
    using ok(1) by (auto simp: numeric_16_8_Inr fits_def)
  moreover have "distinct (map w_id (wallets (set_auth a' db)))" "w \<in> set (wallets (set_auth a' db))"
    using inv w by (simp_all add: billing_inv_def keys_ok_def)
  ultimately show ?thesis
    using ok(2,3) by (subst update_wallet_key) (simp_all add: numeric_fits wallet_settle_def Let_def)
qed

lemma settlePrepaid_active:
  assumes inv: "billing_inv db" and a: "a \<in> set (auths db)" "au_status a = AuthStatusActive"
    "settle_input_ok inp a" "au_type a = AccountTypePrepaid"
  shows "\<exists>db2. settlePrepaid (\<lambda>_. False) policy now inp db = (Inr (), db2) \<and> settles now inp a db db2"
proof -
  let ?c = "cap inp a" and ?x = "au_estimated a" and ?a' = "commit_row now (round8 (si_actual inp)) a"
  have own: "si_usage inp = au_usage a" "si_auth inp = au_id a" "si_account inp = au_account a"
    "fits (round8 (si_actual inp))" using a(3) by (simp_all add: settle_input_ok_def)
  have x: "fits ?x" using inv a(1) by (rule inv_auth_rowD)
  have cap: "0 \<le> ?c" "?c \<le> ?x"
    using cap_bounds [of inp a] a(3) fits_nonneg [OF x] by (simp_all add: settle_input_ok_def)
  obtain w where w: "w \<in> set (wallets db)" "w_account w = au_account a"
      "select1 (\<lambda>w. w_account w = au_account a) (wallets db) = Inr w"
    by (rule active_wallet [OF inv a(1,2,4)])
  have row: "wallet_check w" "fits (w_balance w)" "fits (w_reserved w)"
    using inv_wallet_rowD [OF inv w(1)] by blast+
  note ok = wallet_settle_ok [OF row x cap active_covered(1) [OF inv a(1,2,4) w(1,2)]]
  let ?d2 = "set_wallet (wallet_settle ?c ?x w) (set_auth ?a' db)"
  let ?d4 = "?d2\<lparr>wallet_ledger := wallet_ledger db @ debit_entries inp a w\<rparr>"
  let ?e = "\<lparr>wl_wallet = w_id w, wl_type = LedgerDebit, wl_amount = ?c, wl_usage = Some (si_usage inp),
             wl_auth = Some (si_auth inp), wl_description = ''inference settled''\<rparr>"
  let ?f = "\<lparr>wl_wallet = w_id w, wl_type = LedgerRelease, wl_amount = ?x - ?c, wl_usage = None,
             wl_auth = Some (si_auth inp), wl_description = ''unused reservation released''\<rparr>"
  let ?d3 = "?d2\<lparr>wallet_ledger := wallet_ledger db @ [?e\<lparr>wl_amount := round8 ?c\<rparr>]\<rparr>"
  note kept = wallet_row_kept [OF w(1), of "wallet_settle ?c ?x w", simplified]
  have 3: "insert_wallet_ledger ?e ?d2 = Inr ?d3"
    using insert_wallet_ledger_ok [of ?e ?d2] debit_no_conflict [OF inv a(1,2), of ?e] kept own
      fits_round8_le [OF cap x] by simp
  have 4: "insert_wallet_ledger ?f ?d3 = Inr ?d4" if "?c < ?x"
    using that insert_wallet_ledger_ok [of ?f ?d3] debit_no_conflict [OF inv a(1,2), of ?f] kept own cap
      fits_round8_le [OF _ _ x, of "?x - ?c"]
    by (auto simp: debit_entries_def wallet_entry_conflict_def)
  have 5: "mark_committed (si_usage inp) ?c ?d4 = Inr (?d4\<lparr>usages := committed_usages (si_usage inp) ?c db\<rparr>)"
    using mark_committed_eq [of ?d4 ?c "si_usage inp"] inv_usage_checks [OF inv] fits_round8_le [OF cap x]
    by (simp add: committed_usages_def)
  have st: "settles now inp a db (?d4\<lparr>usages := committed_usages (si_usage inp) ?c db\<rparr>)"
    using w(1,2) a(4) by (auto simp: settles_def Let_def)
  have "ledger_refs_ok (?d4\<lparr>usages := committed_usages (si_usage inp) ?c db\<rparr>)"
    using settles_inv [OF st inv a(1-3)] by (simp add: billing_inv_def)
  moreover have "list_ex (\<lambda>x. w_id x = w_id w) (wallets db)" using w(1) by (auto simp: list_ex_iff)
  ultimately have "settlePrepaid (\<lambda>_. False) policy now inp db =
      (Inr (), ?d4\<lparr>usages := committed_usages (si_usage inp) ?c db\<rparr>)"
    using settle_transition_eq [OF inv a(1,2) own(2,4), of now] w(3) own
      update_wallet_settle [OF inv w(1) ok(2,3,1), of ?a'] 3 4 5
    unfolding settlePrepaid_def Let_def
    by (cases "?c < ?x") (simp_all add: commit_def debit_entries_def)
  with st show ?thesis by blast
qed

lemma update_credit_settle:
  assumes inv: "billing_inv db" and c: "c \<in> set (credits db)" and x: "fits est"
    and cost: "0 \<le> cost" "cost \<le> est" and le: "est \<le> c_exposure c - c_settled c"
  defines "c1 \<equiv> c\<lparr>c_settled := c_settled c + round8 cost, c_version := c_version c + 1\<rparr>"
  shows "update_credit (c_id c) c_exposure (\<lambda>x. c_settled x + cost) True (set_auth a' db) =
      Inr (set_credit c1 (set_auth a' db))"
    and "cost < est \<Longrightarrow> update_credit (c_id c) (\<lambda>x. c_exposure x - (est - cost)) c_settled False
      (set_credit c1 (set_auth a' db)) = Inr (set_credit (credit_settle cost est c) (set_auth a' db))"
    and "\<not> cost < est \<Longrightarrow> c1 = credit_settle cost est c"
proof -
  have row: "credit_check c" "fits (c_exposure c)" "fits (c_settled c)"
    using inv_credit_rowD [OF inv c] by blast+
  note ok = credit_settle_ok [OF row x cost le]
  have dist: "distinct (map c_id (credits db))" using inv by (simp add: billing_inv_def keys_ok_def)
  have "round8 (c_settled c + cost) = c_settled c + round8 cost"
    using row cost by (intro round8_add_grid) (simp_all add: fits_def)
  then have n: "numeric_16_8 (c_settled c + cost) = Inr (c_settled c + round8 cost)"
    using ok(3) by (auto simp: numeric_16_8_Inr fits_def)
  have chk: "credit_check c1" using row(1) by (simp add: credit_check_def c1_def)
  show "update_credit (c_id c) c_exposure (\<lambda>x. c_settled x + cost) True (set_auth a' db) =
      Inr (set_credit c1 (set_auth a' db))"
    using dist c n row chk by (subst update_credit_key) (simp_all add: numeric_fits Let_def c1_def)
  have "round8 (c_exposure c - est + cost) = c_exposure c - est + round8 cost"
    using row x cost le fits_nonneg [OF row(3)] by (intro round8_add_grid) (simp_all add: fits_def)
  then have m: "numeric_16_8 (c_exposure c1 - (est - cost)) = Inr (c_exposure c - est + round8 cost)"
    using ok(2) by (auto simp: numeric_16_8_Inr fits_def c1_def algebra_simps)
  have c1: "c_id c1 = c_id c" "c1 \<in> set (credits (set_credit c1 (set_auth a' db)))"
      "distinct (map c_id (credits (set_credit c1 (set_auth a' db))))"
    using put_row_in_set [of c_id c1 "credits db"] c dist by (auto simp: c1_def)
  show "update_credit (c_id c) (\<lambda>x. c_exposure x - (est - cost)) c_settled False
      (set_credit c1 (set_auth a' db)) = Inr (set_credit (credit_settle cost est c) (set_auth a' db))"
    using update_credit_key [OF c1(3,2), of "\<lambda>x. c_exposure x - (est - cost)" c_settled False] m ok(1,3)
    by (simp add: c1(1) Let_def numeric_fits c1_def credit_settle_def set_credit_def put_row_twice)
  show "c1 = credit_settle cost est c" if "\<not> cost < est"
    using that cost x by (simp add: c1_def credit_settle_def fits_def)
qed

lemma settlePostpaid_active:
  assumes inv: "billing_inv db" and a: "a \<in> set (auths db)" "au_status a = AuthStatusActive"
    "settle_input_ok inp a" "au_type a = AccountTypePostpaid"
  shows "\<exists>db2. settlePostpaid (\<lambda>_. False) policy now inp db = (Inr (), db2) \<and> settles now inp a db db2"
proof -
  let ?c = "cap inp a" and ?x = "au_estimated a" and ?a' = "commit_row now (round8 (si_actual inp)) a"
  have own: "si_usage inp = au_usage a" "si_auth inp = au_id a" "si_account inp = au_account a"
    "fits (round8 (si_actual inp))" using a(3) by (simp_all add: settle_input_ok_def)
  have x: "fits ?x" using inv a(1) by (rule inv_auth_rowD)
  have cap: "0 \<le> ?c" "?c \<le> ?x"
    using cap_bounds [of inp a] a(3) fits_nonneg [OF x] by (simp_all add: settle_input_ok_def)
  obtain c where c: "c \<in> set (credits db)" "c_account c = au_account a"
      "select1 (\<lambda>c. c_account c = au_account a) (credits db) = Inr c"
    by (rule active_credit [OF inv a(1,2,4)])
  note covered = active_covered(2) [OF inv a(1,2,4) c(1,2)]
  note upd = update_credit_settle(1,2) [OF inv c(1) x cap covered, of ?a']
    update_credit_settle(3) [OF inv c(1) x cap covered]
  let ?d2 = "set_credit (credit_settle ?c ?x c) (set_auth ?a' db)"
  let ?d4 = "?d2\<lparr>credit_ledger := credit_ledger db @ settled_entries inp a c\<rparr>"
  let ?e = "\<lparr>cl_credit = c_id c, cl_type = CreditLedgerSettled, cl_amount = ?c, cl_usage = Some (si_usage inp),
             cl_auth = Some (si_auth inp), cl_description = ''inference settled''\<rparr>"
  let ?f = "\<lparr>cl_credit = c_id c, cl_type = CreditLedgerReleased, cl_amount = ?x - ?c, cl_usage = None,
             cl_auth = Some (si_auth inp), cl_description = ''unused reservation released''\<rparr>"
  let ?d3 = "?d2\<lparr>credit_ledger := credit_ledger db @ [?e\<lparr>cl_amount := round8 ?c\<rparr>]\<rparr>"
  note kept = credit_row_kept [OF c(1), of "credit_settle ?c ?x c", simplified]
  have 3: "insert_credit_ledger ?e ?d2 = Inr ?d3"
    using insert_credit_ledger_ok [of ?e ?d2] settled_no_conflict [OF inv a(1,2), of ?e] kept own
      fits_round8_le [OF cap x] by simp
  have 4: "insert_credit_ledger ?f ?d3 = Inr ?d4" if "?c < ?x"
    using that insert_credit_ledger_ok [of ?f ?d3] settled_no_conflict [OF inv a(1,2), of ?f] kept own cap
      fits_round8_le [OF _ _ x, of "?x - ?c"]
    by (auto simp: settled_entries_def credit_entry_conflict_def)
  have 5: "mark_committed (si_usage inp) ?c ?d4 = Inr (?d4\<lparr>usages := committed_usages (si_usage inp) ?c db\<rparr>)"
    using mark_committed_eq [of ?d4 ?c "si_usage inp"] inv_usage_checks [OF inv] fits_round8_le [OF cap x]
    by (simp add: committed_usages_def)
  have st: "settles now inp a db (?d4\<lparr>usages := committed_usages (si_usage inp) ?c db\<rparr>)"
    using c(1,2) a(4) by (auto simp: settles_def Let_def)
  have "ledger_refs_ok (?d4\<lparr>usages := committed_usages (si_usage inp) ?c db\<rparr>)"
    using settles_inv [OF st inv a(1-3)] by (simp add: billing_inv_def)
  then have "settlePostpaid (\<lambda>_. False) policy now inp db =
      (Inr (), ?d4\<lparr>usages := committed_usages (si_usage inp) ?c db\<rparr>)"
    using settle_transition_eq [OF inv a(1,2) own(2,4), of now] c(3) own upd 3 4 5
    unfolding settlePostpaid_def Let_def
    by (cases "?c < ?x") (simp_all add: commit_def settled_entries_def)
  with st show ?thesis by blast
qed

lemma Settle_active:
  assumes inv: "billing_inv db" and a: "a \<in> set (auths db)" "au_status a = AuthStatusActive"
    "settle_input_ok inp a"
  shows "\<exists>db2. Settle (\<lambda>_. False) policy now inp db = (Inr (), db2) \<and> settles now inp a db db2"
proof -
  have "backed db a" using billing_inv_authD [OF inv a(1)] a(2) by blast
  then consider "au_type a = AccountTypePrepaid" | "au_type a = AccountTypePostpaid"
    by (auto simp: backed_def split: account_type.splits)
  then show ?thesis
  proof cases
    case 1
    with settlePrepaid_active [OF inv a] a(3) show ?thesis by (simp add: Settle_def settle_input_ok_def)
  next
    case 2
    with settlePostpaid_active [OF inv a] a(3) show ?thesis by (simp add: Settle_def settle_input_ok_def)
  qed
qed

subsection \<open>The recovery path\<close>

definition wallet_pay :: "decimal \<Rightarrow> wallet \<Rightarrow> wallet" where
  "wallet_pay cost w = w\<lparr>w_balance := round8 (w_balance w - cost), w_version := w_version w + 1\<rparr>"

lemma wallet_pay_ok:
  assumes "wallet_check w" and "fits (w_balance w)" and "fits (w_reserved w)" and "0 \<le> cost"
    and "cost \<le> w_balance w - w_reserved w"
  shows "wallet_check (wallet_pay cost w)" and "fits (round8 (w_balance w - cost))"
  using assms round8_mono [of "w_reserved w" "w_balance w - cost"]
    fits_round8_le [of "w_balance w - cost" "w_balance w"]
  by (auto simp: wallet_pay_def wallet_check_def fits_def)

lemma unplannedDebit_cases:
  fixes flt inp db
  defines "e w \<equiv> \<lparr>wl_wallet = w_id w, wl_type = LedgerUnplannedDebit, wl_amount = si_actual inp,
     wl_usage = Some (si_usage inp), wl_auth = None, wl_description = ''late settlement after auth expiry''\<rparr>"
  obtains "snd (unplannedDebit flt inp db) \<in> {db, mark_disputed flt (si_usage inp) db}"
  | w db1 db2 db' where "unplannedDebit flt inp db = (Inr (), db')"
    and "select1 (\<lambda>w. w_account w = si_account inp) (wallets db) = Inr w"
    and "si_actual inp \<le> w_balance w - w_reserved w"
    and "update_wallet (w_id w) (\<lambda>x. w_balance x - si_actual inp) w_reserved db = Inr db1"
    and "insert_wallet_ledger (e w) db1 = Inr db2"
    and "mark_committed (si_usage inp) (si_actual inp) db2 = Inr db'" and "ledger_refs_ok db'"
proof (cases "snd (unplannedDebit flt inp db) \<in> {db, mark_disputed flt (si_usage inp) db}")
  case False
  then obtain db' w db1 db2 where "unplannedDebit flt inp db = (Inr (), db')"
    and "select1 (\<lambda>w. w_account w = si_account inp) (wallets db) = Inr w"
      "si_actual inp \<le> w_balance w - w_reserved w"
      "update_wallet (w_id w) (\<lambda>x. w_balance x - si_actual inp) w_reserved db = Inr db1"
      "insert_wallet_ledger (e w) db1 = Inr db2"
      "mark_committed (si_usage inp) (si_actual inp) db2 = Inr db'" "ledger_refs_ok db'"
    unfolding e_def
    by (cases "unplannedDebit flt inp db")
       (auto simp: unplannedDebit_def Let_def run_tx_def not_less split: if_splits sum.splits)
  with that(2) show thesis by blast
qed (use that(1) in blast)

lemma unplannedDebit_inv:
  assumes inv: "billing_inv db" and cost: "0 \<le> si_actual inp"
  shows "billing_inv (snd (unplannedDebit flt inp db))"
proof (cases rule: unplannedDebit_cases [of flt inp db])
  case 1
  with inv mark_disputed_inv [OF inv] show ?thesis by auto
next
  case (2 w db1 db2 db')
  note u = 2(1) and w = 2(2,3) and 1 = 2(4) and 3 = 2(6) and refs = 2(7)
  from w(1) have w': "w \<in> set (wallets db)" by (simp add: select1_InrD)
  have row: "wallet_check w" "fits (w_balance w)" "fits (w_reserved w)"
    using inv_wallet_rowD [OF inv w'] by blast+
  have res: "w_reserved w = active_sum AccountTypePrepaid (w_account w) (auths db)"
    using inv_wallet_rowD [OF inv w'] by blast
  have keys: "keys_ok db" using inv by (simp add: billing_inv_def)
  note ok = wallet_pay_ok [OF row cost w(2)]
  have "distinct (map w_id (wallets db))" using keys by (simp add: keys_ok_def)
  from 1 [unfolded update_wallet_key [OF this w']] have db1: "db1 = set_wallet (wallet_pay (si_actual inp) w) db"
    by (auto simp: numeric_fits [OF row(3)] numeric_16_8_Inr Let_def wallet_pay_def)
  note db2 = insert_wallet_ledger_InrD [OF 2(5)]
  have chk: "\<forall>u\<in>set (usages db2). usage_check u" using inv_usage_checks [OF inv] db1 db2 by simp
  obtain us where us: "db' = db2\<lparr>usages := us\<rparr>" "map iu_id us = map iu_id (usages db2)"
      "\<forall>u\<in>set us. usage_check u"
    using 3 [unfolded mark_committed_def] by (rule update_usage_InrD) (use chk in auto)
  have "funds_ok (\<lambda>ty acc. active_sum ty acc (auths db)) (set_wallet (wallet_pay (si_actual inp) w) db)"
    by (rule funds_ok_set_wallet [OF inv_funds_ok [OF inv] keys w'])
       (use ok row res in \<open>simp_all add: wallet_pay_def\<close>)
  then have funds: "funds_ok (\<lambda>ty acc. active_sum ty acc (auths db)) db'"
    using us(1) db1 db2 by (subst funds_ok_cong [of _ "set_wallet (wallet_pay (si_actual inp) w) db"]) simp_all
  note ks = keys_ok_set_wallet [OF keys w', of "wallet_pay (si_actual inp) w"]
  have "billing_inv db'"
  proof (rule billing_inv_sameI [OF inv _ _ _ funds _ _ _ refs,
      where es = "[\<lparr>wl_wallet = w_id w, wl_type = LedgerUnplannedDebit, wl_amount = round8 (si_actual inp),
        wl_usage = Some (si_usage inp), wl_auth = None, wl_description = ''late settlement after auth expiry''\<rparr>]"])
    show "keys_ok db'"
      by (rule keys_ok_cong [of "set_wallet (wallet_pay (si_actual inp) w) db"])
         (use ks us db1 db2 in \<open>simp_all add: wallet_pay_def\<close>)
    show "same_tables db db'"
      using ks us db1 db2 by (simp add: same_tables_def wallet_pay_def) (metis set_map)
  qed (use us db1 db2 in simp_all)
  with u show ?thesis by simp
qed

lemma handleExpiryRecovery_inv:
  assumes "billing_inv db" and "\<forall>a\<in>set (auths db). au_id a = si_auth inp \<longrightarrow> 0 \<le> si_actual inp"
  shows "billing_inv (snd (handleExpiryRecovery flt policy inp db))"
proof (cases "exec flt ''lookup auth status for recovery'' (select1 (\<lambda>a. au_id a = si_auth inp) (auths db))")
  case (Inr a)
  then have "0 \<le> si_actual inp" using assms(2) by (auto dest: select1_InrD)
  with Inr assms(1) show ?thesis
    by (auto simp: handleExpiryRecovery_def unplannedDebit_inv mark_disputed_inv split: expiry_policy.splits)
qed (use assms(1) in \<open>simp add: handleExpiryRecovery_def\<close>)

text \<open>
  Under any fault plan a settlement does nothing, takes the recovery path, or does what the
  undisturbed settlement does.
\<close>

lemma settlePrepaid_cut:
  "snd (settlePrepaid flt policy now inp db) \<in>
     {db, snd (handleExpiryRecovery flt policy inp db), snd (settlePrepaid (\<lambda>_. False) policy now inp db)}"
proof (cases "flt ''begin settle prepaid'' \<or> flt ''settle transition''")
  case False
  show ?thesis
  proof (cases "settle_transition now inp db")
    case (Inr p)
    obtain a db1 where p: "p = (a, db1)" by (cases p)
    define body where "body f = (bindE (exec f ''wallet lookup for settlement''
             (select1 (\<lambda>w. w_account w = si_account inp) (wallets db1))) (\<lambda>w.
           bindE (exec f ''update wallet on commit''
             (update_wallet (w_id w) (\<lambda>x. w_balance x - cap inp a) (\<lambda>x. w_reserved x - au_estimated a) db1)) (\<lambda>db2.
           bindE (guardE (ErrNoWalletRow (w_id w)) (list_ex (\<lambda>x. w_id x = w_id w) (wallets db1))) (\<lambda>_.
           bindE (exec f ''insert wallet_ledger debit''
             (insert_wallet_ledger
                \<lparr>wl_wallet = w_id w, wl_type = LedgerDebit, wl_amount = cap inp a,
                 wl_usage = Some (si_usage inp), wl_auth = Some (si_auth inp),
                 wl_description = ''inference settled''\<rparr> db2)) (\<lambda>db3.
           bindE (if 0 < au_estimated a - cap inp a
                  then exec f ''insert wallet_ledger release''
                    (insert_wallet_ledger
                       \<lparr>wl_wallet = w_id w, wl_type = LedgerRelease, wl_amount = au_estimated a - cap inp a,
                        wl_usage = None, wl_auth = Some (si_auth inp),
                        wl_description = ''unused reservation released''\<rparr> db3)
                  else Inr db3) (\<lambda>db4.
           bindE (exec f ''update inference_usage committed''
             (mark_committed (si_usage inp) (cap inp a) db4)) (\<lambda>db5.
           exec f ''commit settle prepaid'' (commit () db5))))))))" for f
    have eq: "settlePrepaid f policy now inp db = run_tx db (body f)"
      if "\<not> f ''begin settle prepaid''" "\<not> f ''settle transition''" for f
      using that Inr p unfolding settlePrepaid_def body_def Let_def by simp
    have "cut (body flt) (body (\<lambda>_. False))" unfolding body_def by (intro cut_intros)
    from cut_run_tx [OF this, of db] eq [of flt] eq [of "\<lambda>_. False"] False show ?thesis by auto
  qed (use False in \<open>auto simp: settlePrepaid_def\<close>)
qed (auto simp: settlePrepaid_def stmt_def exec_def)

lemma settlePostpaid_cut:
  "snd (settlePostpaid flt policy now inp db) \<in>
     {db, snd (handleExpiryRecovery flt policy inp db), snd (settlePostpaid (\<lambda>_. False) policy now inp db)}"
proof (cases "flt ''begin settle postpaid'' \<or> flt ''settle transition''")
  case False
  show ?thesis
  proof (cases "settle_transition now inp db")
    case (Inr p)
    obtain a db1 where p: "p = (a, db1)" by (cases p)
    define body where "body f = (bindE (exec f ''credit account lookup for settlement''
             (select1 (\<lambda>c. c_account c = si_account inp) (credits db1))) (\<lambda>c.
           bindE (exec f ''update credit cycle settled''
             (update_credit (c_id c) c_exposure (\<lambda>x. c_settled x + cap inp a) True db1)) (\<lambda>db2.
           bindE (if 0 < au_estimated a - cap inp a
                  then exec f ''reduce credit total_exposure delta''
                    (update_credit (c_id c) (\<lambda>x. c_exposure x - (au_estimated a - cap inp a)) c_settled False db2)
                  else Inr db2) (\<lambda>db3.
           bindE (exec f ''insert credit_ledger settled''
             (insert_credit_ledger
                \<lparr>cl_credit = c_id c, cl_type = CreditLedgerSettled, cl_amount = cap inp a,
                 cl_usage = Some (si_usage inp), cl_auth = Some (si_auth inp),
                 cl_description = ''inference settled''\<rparr> db3)) (\<lambda>db4.
           bindE (if 0 < au_estimated a - cap inp a
                  then exec f ''insert credit_ledger released''
                    (insert_credit_ledger
                       \<lparr>cl_credit = c_id c, cl_type = CreditLedgerReleased, cl_amount = au_estimated a - cap inp a,
                        cl_usage = None, cl_auth = Some (si_auth inp),
                        cl_description = ''unused reservation released''\<rparr> db4)
                  else Inr db4) (\<lambda>db5.
           bindE (exec f ''update inference_usage committed postpaid''
             (mark_committed (si_usage inp) (cap inp a) db5)) (\<lambda>db6.
           exec f ''commit settle postpaid'' (commit () db6))))))))" for f
    have eq: "settlePostpaid f policy now inp db = run_tx db (body f)"
      if "\<not> f ''begin settle postpaid''" "\<not> f ''settle transition''" for f
      using that Inr p unfolding settlePostpaid_def body_def Let_def by simp
    have "cut (body flt) (body (\<lambda>_. False))" unfolding body_def by (intro cut_intros)
    from cut_run_tx [OF this, of db] eq [of flt] eq [of "\<lambda>_. False"] False show ?thesis by auto
  qed (use False in \<open>auto simp: settlePostpaid_def\<close>)
qed (auto simp: settlePostpaid_def stmt_def exec_def)

lemma Settle_cut:
  "snd (Settle flt policy now inp db) \<in>
     {db, snd (handleExpiryRecovery flt policy inp db), snd (Settle (\<lambda>_. False) policy now inp db)}"
  using settlePrepaid_cut [of flt policy now inp db] settlePostpaid_cut [of flt policy now inp db]
  by (cases "si_type inp") (simp_all add: Settle_def)

lemma Settle_inactive:
  assumes "\<forall>a\<in>set (auths db). \<not> (au_id a = si_auth inp \<and> au_status a = AuthStatusActive)"
    and "\<not> flt ''begin settle prepaid''" and "\<not> flt ''begin settle postpaid''"
    and "si_type inp \<in> {AccountTypePrepaid, AccountTypePostpaid}"
  shows "Settle flt policy now inp db = handleExpiryRecovery flt policy inp db"
proof -
  have "settle_transition now inp db = Inl SqlNoRows"
    unfolding settle_transition_def by (rule update_active_auth_none [OF assms(1)])
  then show ?thesis
    using assms(2-4) by (auto simp: Settle_def settlePrepaid_def settlePostpaid_def stmt_def)
qed

lemma Settle_inv:
  assumes inv: "billing_inv db"
    and own: "\<forall>a\<in>set (auths db). au_id a = si_auth inp \<longrightarrow> settle_input_ok inp a"
  shows "billing_inv (snd (Settle flt policy now inp db))"
proof -
  have rec: "billing_inv (snd (handleExpiryRecovery f policy inp db))" for f
    by (rule handleExpiryRecovery_inv [OF inv]) (use own in \<open>auto simp: settle_input_ok_def\<close>)
  have "billing_inv (snd (Settle (\<lambda>_. False) policy now inp db))"
  proof (cases "\<exists>a\<in>set (auths db). au_id a = si_auth inp \<and> au_status a = AuthStatusActive")
    case True
    then obtain a where a: "a \<in> set (auths db)" "au_status a = AuthStatusActive" "settle_input_ok inp a"
      using own by blast
    with Settle_active [OF inv a, of policy now] settles_inv [OF _ inv a] show ?thesis by force
  next
    case False
    then show ?thesis
      using Settle_inactive [of db inp "\<lambda>_. False" policy now] rec [of "\<lambda>_. False"] inv
      by (cases "si_type inp") (auto simp: Settle_def)
  qed
  with Settle_cut [of flt policy now inp db] rec [of flt] inv show ?thesis by auto
qed

end
