(* ===== verification/Billing_Sweep.thy ===== *)
theory Billing_Sweep
  imports Billing_Settlement
begin

text \<open>
  The background jobs of \<open>internal/billing/sweep\<close>: the expiry sweep (\<open>expiry.go\<close>), the pending
  sweep (\<open>pending.go\<close>) and the wallet reconciler (\<open>wallet.go\<close>).

  A sweep reads its rows first and then works on them one by one, so the row it works on is a
  snapshot. \<open>alive r\<close> is the answer of \<open>ctx.Err()\<close> when the loop reaches row \<open>r\<close>, and \<open>flt r\<close> the fault
  plan of the calls made for that row.
\<close>

subsection \<open>expiry.go\<close>

datatype expire_result = Expired | Skipped | ExpireError

definition sweep_releasePrepaid ::
    "faults \<Rightarrow> id \<Rightarrow> decimal \<Rightarrow> id \<Rightarrow> billing_db \<Rightarrow> billing_error + billing_db" where
  "sweep_releasePrepaid flt acc amount authID db =
     bindE (exec flt ''wallet lookup'' (select1 (\<lambda>w. w_account w = acc) (wallets db))) (\<lambda>w.
     bindE (exec flt ''wallet reserved decrement''
       (update_wallet (w_id w) w_balance (\<lambda>x. w_reserved x - amount) db)) (\<lambda>db1.
     exec flt ''insert wallet_ledger expired''
       (insert_wallet_ledger
          \<lparr>wl_wallet = w_id w, wl_type = LedgerRelease, wl_amount = amount, wl_usage = None,
           wl_auth = Some authID, wl_description = ''authorization expired - funds released''\<rparr> db1)))"

definition sweep_releasePostpaid ::
    "faults \<Rightarrow> id \<Rightarrow> decimal \<Rightarrow> id \<Rightarrow> id \<Rightarrow> billing_db \<Rightarrow> billing_error + billing_db" where
  "sweep_releasePostpaid flt acc amount authID usageID db =
     bindE (exec flt ''credit account lookup'' (select1 (\<lambda>c. c_account c = acc) (credits db))) (\<lambda>c.
     bindE (exec flt ''credit exposure decrement''
       (update_credit (c_id c) (\<lambda>x. c_exposure x - amount) c_settled True db)) (\<lambda>db1.
     exec flt ''insert credit_ledger expired''
       (insert_credit_ledger
          \<lparr>cl_credit = c_id c, cl_type = CreditLedgerReleased, cl_amount = amount,
           cl_usage = Some usageID, cl_auth = Some authID, cl_description = ''authorization expired''\<rparr> db1)))"

text \<open>
  The error of the usage update is discarded by the code, but a failed statement aborts the
  transaction, so the commit that follows fails.
\<close>

definition expireOne ::
    "faults \<Rightarrow> int \<Rightarrow> id \<Rightarrow> id \<Rightarrow> id \<Rightarrow> account_type \<Rightarrow> billing_db \<Rightarrow> expire_result \<times> billing_db" where
  "expireOne flt now authID usageID acc accountType db =
     (case exec flt ''begin expire'' (Inr ()) of
        Inl _ \<Rightarrow> (ExpireError, db)
      | Inr _ \<Rightarrow>
     (case stmt flt ''expire transition''
             (update_active_auth authID
               (\<lambda>a. Inr (a\<lparr>au_status := AuthStatusExpired, au_expired_at := Some now\<rparr>)) db) of
        Inl _ \<Rightarrow> (Skipped, db)
      | Inr (a, db1) \<Rightarrow>
          (case run_tx db (
             bindE (case accountType of
                      AccountTypePrepaid \<Rightarrow> sweep_releasePrepaid flt acc (au_estimated a) authID db1
                    | AccountTypePostpaid \<Rightarrow> sweep_releasePostpaid flt acc (au_estimated a) authID usageID db1
                    | AccountTypeOther s \<Rightarrow> Inr db1) (\<lambda>db2.
             bindE (exec flt ''update inference_usage released'' (mark_released usageID db2)) (\<lambda>db3.
             exec flt ''commit expire'' (commit () db3)))) of
             (Inl _, db') \<Rightarrow> (ExpireError, db')
           | (Inr _, db') \<Rightarrow> (Expired, db'))))"

record expiry_counts =
  processed :: nat
  skipped :: nat
  errCount :: nat

fun expiry_loop ::
    "(id \<Rightarrow> faults) \<Rightarrow> (id \<Rightarrow> bool) \<Rightarrow> int \<Rightarrow> authorization list \<Rightarrow> expiry_counts \<Rightarrow> billing_db \<Rightarrow>
     expiry_counts \<times> billing_db" where
  "expiry_loop flt alive now [] cnt db = (cnt, db)"
| "expiry_loop flt alive now (a # as) cnt db =
     (if \<not> alive (au_id a) then (cnt, db)
      else case expireOne (flt (au_id a)) now (au_id a) (au_usage a) (au_account a) (au_type a) db of
        (Expired, db') \<Rightarrow> expiry_loop flt alive now as (cnt\<lparr>processed := processed cnt + 1\<rparr>) db'
      | (Skipped, db') \<Rightarrow> expiry_loop flt alive now as (cnt\<lparr>skipped := skipped cnt + 1\<rparr>) db'
      | (ExpireError, db') \<Rightarrow> expiry_loop flt alive now as (cnt\<lparr>errCount := errCount cnt + 1\<rparr>) db')"

text \<open>\<open>WHERE status = 'active' AND expires_at < NOW() ORDER BY expires_at ASC LIMIT 200\<close>\<close>

definition expired_auths :: "int \<Rightarrow> billing_db \<Rightarrow> authorization list" where
  "expired_auths now db =
     take 200 (sort_key au_expires_at
       (filter (\<lambda>a. au_status a = AuthStatusActive \<and> au_expires_at a < now) (auths db)))"

definition ExpirySweep_Run ::
    "bool \<Rightarrow> (id \<Rightarrow> faults) \<Rightarrow> (id \<Rightarrow> bool) \<Rightarrow> int \<Rightarrow> billing_db \<Rightarrow>
     (billing_error + expiry_counts) \<times> billing_db" where
  "ExpirySweep_Run query_fails flt alive now db =
     (if query_fails then (Inl (ErrSQL ''expiry sweep query'' SqlDown), db)
      else case expiry_loop flt alive now (expired_auths now db)
                  \<lparr>processed = 0, skipped = 0, errCount = 0\<rparr> db of
        (cnt, db') \<Rightarrow> (Inr cnt, db'))"

subsection \<open>pending.go\<close>

datatype pending_result = Resolved | Disputed | PendingError

text \<open>\<open>evidencePriority[source]\<close>: a source that is not in the map reads as Go's zero value.\<close>

definition evidencePriority :: "string \<Rightarrow> int" where
  "evidencePriority source =
     (if source = ''provider_reconcile'' then 1 else if source = ''worker'' then 2
      else if source = ''gateway'' then 3 else if source = ''manual'' then 4 else 0)"

fun best_evidence :: "completion option \<Rightarrow> completion list \<Rightarrow> completion option" where
  "best_evidence best [] = best"
| "best_evidence best (e # es) =
     best_evidence
       (case best of None \<Rightarrow> Some e
        | Some b \<Rightarrow> if evidencePriority (ic_source e) < evidencePriority (ic_source b) then Some e else best)
       es"

definition finish_reason :: "completion \<Rightarrow> string" where
  "finish_reason e = (case ic_finish e of None \<Rightarrow> '''' | Some s \<Rightarrow> s)"

definition active_auth_of :: "id \<Rightarrow> billing_db \<Rightarrow> sql_error + authorization" where
  "active_auth_of usageID db =
     select1 (\<lambda>a. au_usage a = usageID \<and> au_status a = AuthStatusActive) (auths db)"

definition releaseIfReserved :: "faults \<Rightarrow> int \<Rightarrow> id \<Rightarrow> billing_db \<Rightarrow> billing_db" where
  "releaseIfReserved flt now usageID db =
     (case stmt flt ''auth lookup during release'' (active_auth_of usageID db) of
        Inl _ \<Rightarrow> db
      | Inr a \<Rightarrow> snd (Release flt now (au_id a) usageID db))"

definition unfinished :: "inference_usage \<Rightarrow> bool" where
  "unfinished u \<longleftrightarrow> iu_exec u = ExecPending \<or> iu_exec u = ExecRunning"

definition markUnknown :: "faults \<Rightarrow> int \<Rightarrow> id \<Rightarrow> billing_db \<Rightarrow> billing_db" where
  "markUnknown flt now usageID db =
     releaseIfReserved flt now usageID
       (case stmt flt ''mark unknown''
          (update_usage (\<lambda>u. iu_id u = usageID \<and> unfinished u)
             (\<lambda>u. Inr (u\<lparr>iu_exec := ExecUnknown, iu_billing := BillingDisputed,
                          iu_completed_at := Some now\<rparr>)) db) of
          Inl _ \<Rightarrow> db | Inr db' \<Rightarrow> db')"

definition finalize_usage ::
    "int \<Rightarrow> id \<Rightarrow> completion \<Rightarrow> decimal \<Rightarrow> billing_db \<Rightarrow> sql_error + billing_db" where
  "finalize_usage now usageID best total_cost =
     update_usage (\<lambda>u. iu_id u = usageID \<and> unfinished u)
       (\<lambda>u. bindE (numeric_16_8 total_cost) (\<lambda>c.
          Inr (u\<lparr>iu_exec := (if finish_reason best = ''error'' \<or> finish_reason best = ''timeout''
                             then ExecPartial else ExecCompleted),
                 iu_input := ic_input best, iu_output := ic_output best, iu_cached := ic_cached best,
                 iu_total_cost := c, iu_billable := ic_output best > 0,
                 iu_finish := finish_reason best, iu_completed_at := Some now\<rparr>)))"

record stale_row =
  sr_id :: id
  sr_account :: "id option"
  sr_type :: "account_type option"
  sr_billing :: billing_status
  sr_currency :: string
  sr_input_rate :: decimal
  sr_output_rate :: decimal
  sr_cached_rate :: decimal

definition evidence_cost :: "stale_row \<Rightarrow> completion \<Rightarrow> decimal" where
  "evidence_cost row best =
     totalCost
       \<lparr>PricingID = '''', InputRate = sr_input_rate row, OutputRate = sr_output_rate row,
        CachedRate = sr_cached_rate row, SnapCurrency = sr_currency row, ResolvedAt = 0\<rparr>
       \<lparr>InputTokens = ic_input best, OutputTokens = ic_output best, CachedTokens = ic_cached best,
        ReasoningTokens = 0\<rparr>"

definition processRow ::
    "faults \<Rightarrow> expiry_policy \<Rightarrow> int \<Rightarrow> stale_row \<Rightarrow> billing_db \<Rightarrow> pending_result \<times> billing_db" where
  "processRow flt policy now row db =
     (let evidenceRows = (if flt ''select evidence'' then []
                          else filter (\<lambda>e. ic_usage e = sr_id row) (completions db)) in
      case best_evidence None evidenceRows of
        None \<Rightarrow> (Disputed, markUnknown flt now (sr_id row) db)
      | Some best \<Rightarrow>
          (let isBillable = ic_output best > 0; total_cost = evidence_cost row best in
           case stmt flt ''finalize usage'' (finalize_usage now (sr_id row) best total_cost db) of
             Inl _ \<Rightarrow> (PendingError, db)
           | Inr db1 \<Rightarrow>
               (case (sr_account row, sr_type row) of
                  (Some acc, Some ty) \<Rightarrow>
                    if \<not> isBillable \<or> sr_billing row \<noteq> BillingReserved
                    then (Resolved, releaseIfReserved flt now (sr_id row) db1)
                    else (case stmt flt ''find authorization'' (active_auth_of (sr_id row) db1) of
                        Inl SqlNoRows \<Rightarrow> (Resolved, db1)
                      | r \<Rightarrow>
                          (let authID = (case r of Inl _ \<Rightarrow> '''' | Inr a \<Rightarrow> au_id a) in
                           case Settle flt policy now
                                  \<lparr>si_auth = authID, si_usage = sr_id row, si_account = acc, si_type = ty,
                                   si_actual = total_cost, si_currency = sr_currency row\<rparr> db1 of
                             (Inl _, db2) \<Rightarrow> (PendingError, db2)
                           | (Inr _, db2) \<Rightarrow> (Resolved, db2)))
                | _ \<Rightarrow> (Resolved, releaseIfReserved flt now (sr_id row) db1))))"

definition stale_row_of :: "billing_db \<Rightarrow> inference_usage \<Rightarrow> stale_row" where
  "stale_row_of db u =
     \<lparr>sr_id = iu_id u, sr_account = iu_account u,
      sr_type = (case iu_account u of None \<Rightarrow> None
                 | Some acc \<Rightarrow> map_option ba_type (find (\<lambda>b. ba_id b = acc) (accounts db))),
      sr_billing = iu_billing u, sr_currency = iu_currency u, sr_input_rate = iu_input_rate u,
      sr_output_rate = iu_output_rate u, sr_cached_rate = iu_cached_rate u\<rparr>"

definition stale_rows :: "int \<Rightarrow> billing_db \<Rightarrow> stale_row list" where
  "stale_rows cutoff db =
     map (stale_row_of db)
       (take 500 (sort_key iu_started_at (filter (\<lambda>u. unfinished u \<and> iu_started_at u < cutoff) (usages db))))"

record pending_counts =
  resolved_n :: nat
  disputed_n :: nat
  failed_n :: nat

fun pending_loop ::
    "(id \<Rightarrow> faults) \<Rightarrow> (id \<Rightarrow> bool) \<Rightarrow> expiry_policy \<Rightarrow> int \<Rightarrow> stale_row list \<Rightarrow> pending_counts \<Rightarrow> billing_db \<Rightarrow>
     pending_counts \<times> billing_db" where
  "pending_loop flt alive policy now [] cnt db = (cnt, db)"
| "pending_loop flt alive policy now (r # rs) cnt db =
     (if \<not> alive (sr_id r) then (cnt, db)
      else case processRow (flt (sr_id r)) policy now r db of
        (Resolved, db') \<Rightarrow> pending_loop flt alive policy now rs (cnt\<lparr>resolved_n := resolved_n cnt + 1\<rparr>) db'
      | (Disputed, db') \<Rightarrow> pending_loop flt alive policy now rs (cnt\<lparr>disputed_n := disputed_n cnt + 1\<rparr>) db'
      | (PendingError, db') \<Rightarrow> pending_loop flt alive policy now rs (cnt\<lparr>failed_n := failed_n cnt + 1\<rparr>) db')"

definition PendingSweep_Run ::
    "bool \<Rightarrow> (id \<Rightarrow> faults) \<Rightarrow> (id \<Rightarrow> bool) \<Rightarrow> expiry_policy \<Rightarrow> int \<Rightarrow> int \<Rightarrow> billing_db \<Rightarrow>
     (billing_error + pending_counts) \<times> billing_db" where
  "PendingSweep_Run query_fails flt alive policy stalenessLimit now db =
     (if query_fails then (Inl (ErrSQL ''pending sweep query'' SqlDown), db)
      else case pending_loop flt alive policy now (stale_rows (now - stalenessLimit) db)
                  \<lparr>resolved_n = 0, disputed_n = 0, failed_n = 0\<rparr> db of
        (cnt, db') \<Rightarrow> (Inr cnt, db'))"

subsection \<open>wallet.go\<close>

text \<open>
  The ledger is the source of truth for the balance, the active authorizations for \<open>reserved\<close>.
  \<open>reconcileWallet\<close> reads both sums without a lock (the database \<open>db0\<close>), and repairs under the row
  lock in the database \<open>db\<close> it finds there: the balance is computed again, \<open>correctReserved\<close> is not.
\<close>

fun balance_effect :: "wallet_entry \<Rightarrow> decimal" where
  "balance_effect e =
     (case wl_type e of LedgerTopup \<Rightarrow> wl_amount e | LedgerDebit \<Rightarrow> - wl_amount e
      | LedgerUnplannedDebit \<Rightarrow> - wl_amount e | _ \<Rightarrow> 0)"

definition ledger_balance :: "id \<Rightarrow> billing_db \<Rightarrow> decimal" where
  "ledger_balance wid db =
     sum_list (map balance_effect (filter (\<lambda>e. wl_wallet e = wid) (wallet_ledger db)))"

definition reserved_sum :: "id \<Rightarrow> billing_db \<Rightarrow> decimal" where
  "reserved_sum acc db =
     sum_list (map au_estimated
       (filter (\<lambda>a. au_account a = acc \<and> au_status a = AuthStatusActive) (auths db)))"

definition driftAlertThreshold :: decimal where
  "driftAlertThreshold = 10000"

definition reconcileWallet ::
    "faults \<Rightarrow> billing_db \<Rightarrow> wallet \<Rightarrow> billing_db \<Rightarrow> (billing_error + unit) \<times> billing_db" where
  "reconcileWallet flt db0 w db =
     (case bindE (exec flt ''ledger sum query'' (Inr (ledger_balance (w_id w) db0))) (\<lambda>correctBalance.
           bindE (exec flt ''active reservations sum query'' (Inr (reserved_sum (w_account w) db0))) (\<lambda>correctReserved.
           Inr (correctBalance, correctReserved))) of
        Inl e \<Rightarrow> (Inl e, db)
      | Inr (correctBalance, correctReserved) \<Rightarrow>
          if \<bar>correctBalance - w_balance w\<bar> < driftAlertThreshold \<and>
             \<bar>correctReserved - w_reserved w\<bar> < driftAlertThreshold then (Inr (), db)
          else run_tx db (
            bindE (exec flt ''begin reconcile tx'' (Inr ())) (\<lambda>_.
            bindE (exec flt ''wallet lock for reconcile'' (select1 (\<lambda>x. w_id x = w_id w) (wallets db))) (\<lambda>locked.
            bindE (exec flt ''ledger sum under lock'' (Inr (ledger_balance (w_id w) db))) (\<lambda>finalCorrectBalance.
            let finalDrift = finalCorrectBalance - w_balance locked in
            bindE (if \<bar>finalDrift\<bar> \<ge> driftAlertThreshold
                   then exec flt ''insert adjustment ledger entry''
                     (insert_wallet_ledger
                        \<lparr>wl_wallet = w_id w, wl_type = LedgerAdjustment, wl_amount = \<bar>finalDrift\<bar>,
                         wl_usage = None, wl_auth = None,
                         wl_description = ''reconciliation correction''\<rparr> db)
                   else Inr db) (\<lambda>db1.
            bindE (exec flt ''wallet balance/reserved correction''
              (update_wallet (w_id w) (\<lambda>_. finalCorrectBalance) (\<lambda>_. correctReserved) db1)) (\<lambda>db2.
            exec flt ''reconcile commit'' (commit () db2))))))))"

fun reconcile_loop ::
    "(id \<Rightarrow> faults) \<Rightarrow> (id \<Rightarrow> bool) \<Rightarrow> wallet list \<Rightarrow> nat \<Rightarrow> billing_db \<Rightarrow> nat \<times> billing_db" where
  "reconcile_loop flt alive [] diverged db = (diverged, db)"
| "reconcile_loop flt alive (w # ws) diverged db =
     (if \<not> alive (w_id w) then (diverged, db)
      else case reconcileWallet (flt (w_id w)) db w db of
        (Inl _, db') \<Rightarrow> reconcile_loop flt alive ws (diverged + 1) db'
      | (Inr _, db') \<Rightarrow> reconcile_loop flt alive ws diverged db')"

definition WalletReconciler_Run ::
    "bool \<Rightarrow> (id \<Rightarrow> faults) \<Rightarrow> (id \<Rightarrow> bool) \<Rightarrow> billing_db \<Rightarrow> (billing_error + nat) \<times> billing_db" where
  "WalletReconciler_Run query_fails flt alive db =
     (if query_fails then (Inl (ErrSQL ''wallet reconciler: list wallets'' SqlDown), db)
      else case reconcile_loop flt alive (wallets db) 0 db of (n, db') \<Rightarrow> (Inr n, db'))"

subsection \<open>The expiry sweep releases exactly what is due\<close>

definition expire_row :: "int \<Rightarrow> authorization \<Rightarrow> authorization" where
  "expire_row now a = a\<lparr>au_status := AuthStatusExpired, au_expired_at := Some now\<rparr>"

lemma ends_expire_row [simp]: "ends a (expire_row now a)"
  by (simp add: ends_def expire_row_def)

definition expire_descr :: "account_type \<Rightarrow> string" where
  "expire_descr ty =
     (if ty = AccountTypePrepaid then ''authorization expired - funds released'' else ''authorization expired'')"

lemma sweep_release_eq:
  "sweep_releasePrepaid (\<lambda>_. False) acc amount authID db = Inr d \<longleftrightarrow>
   releasePrepaidWallet (\<lambda>_. False) ''authorization expired - funds released'' acc amount authID db = Inr d"
  "sweep_releasePostpaid (\<lambda>_. False) acc amount authID usageID db = Inr d \<longleftrightarrow>
   releasePostpaidCredit (\<lambda>_. False) ''authorization expired'' acc amount authID usageID db = Inr d"
  by (simp_all add: sweep_releasePrepaid_def sweep_releasePostpaid_def releasePrepaidWallet_def
      releasePostpaidCredit_def bindE_Inr_iff)

lemma expireOne_active:
  assumes inv: "billing_inv db" and a: "a \<in> set (auths db)" "au_status a = AuthStatusActive"
  shows "\<exists>db2. expireOne (\<lambda>_. False) now (au_id a) (au_usage a) (au_account a) (au_type a) db = (Expired, db2) \<and>
    releases (expire_descr (au_type a)) a (expire_row now a) db db2"
proof -
  let ?a' = "expire_row now a" and ?us = "released_usages (au_usage a) db"
  obtain db2 where *: "releases (expire_descr (au_type a)) a ?a' db (db2\<lparr>usages := ?us\<rparr>)"
      "(case au_type a of
            AccountTypePrepaid \<Rightarrow> releasePrepaidWallet (\<lambda>_. False) (expire_descr (au_type a)) (au_account a)
              (au_estimated a) (au_id a) (set_auth ?a' db)
          | AccountTypePostpaid \<Rightarrow> releasePostpaidCredit (\<lambda>_. False) (expire_descr (au_type a)) (au_account a)
              (au_estimated a) (au_id a) (au_usage a) (set_auth ?a' db)
          | AccountTypeOther s \<Rightarrow> Inr (set_auth ?a' db)) = Inr db2"
      "mark_released (au_usage a) db2 = Inr (db2\<lparr>usages := ?us\<rparr>)" "ledger_refs_ok (db2\<lparr>usages := ?us\<rparr>)"
    by (rule release_body [OF inv a ends_expire_row])
  from *(2) have body: "(case au_type a of
         AccountTypePrepaid \<Rightarrow> sweep_releasePrepaid (\<lambda>_. False) (au_account a) (au_estimated a) (au_id a) (set_auth ?a' db)
       | AccountTypePostpaid \<Rightarrow>
           sweep_releasePostpaid (\<lambda>_. False) (au_account a) (au_estimated a) (au_id a) (au_usage a) (set_auth ?a' db)
       | AccountTypeOther s \<Rightarrow> Inr (set_auth ?a' db)) = Inr db2"
    by (cases "au_type a") (simp_all add: sweep_release_eq expire_descr_def)
  have "update_active_auth (au_id a)
      (\<lambda>a. Inr (a\<lparr>au_status := AuthStatusExpired, au_expired_at := Some now\<rparr>)) db = Inr (?a', set_auth ?a' db)"
    using transition_eq [OF inv a, of "expire_row now"] by (simp add: expire_row_def)
  moreover have "au_estimated ?a' = au_estimated a" by (simp add: expire_row_def)
  ultimately have "expireOne (\<lambda>_. False) now (au_id a) (au_usage a) (au_account a) (au_type a) db =
      (Expired, db2\<lparr>usages := ?us\<rparr>)"
    using body *(3,4) by (cases "au_type a") (simp_all add: expireOne_def commit_def)
  with *(1) show ?thesis by blast
qed

lemma expireOne_inactive:
  assumes "\<forall>a\<in>set (auths db). \<not> (au_id a = authID \<and> au_status a = AuthStatusActive)"
  shows "snd (expireOne flt now authID usageID acc ty db) = db"
  using update_active_auth_none [OF assms] by (auto simp: expireOne_def stmt_def split: sum.splits)

lemma expireOne_cut:
  "snd (expireOne flt now authID usageID acc ty db) \<in>
     {db, snd (expireOne (\<lambda>_. False) now authID usageID acc ty db)}"
proof (cases "flt ''begin expire'' \<or> flt ''expire transition''")
  case False
  show ?thesis
  proof (cases "update_active_auth authID
               (\<lambda>a. Inr (a\<lparr>au_status := AuthStatusExpired, au_expired_at := Some now\<rparr>)) db")
    case (Inr p)
    obtain a db1 where p: "p = (a, db1)" by (cases p)
    define body where "body f = bindE (case ty of
                      AccountTypePrepaid \<Rightarrow> sweep_releasePrepaid f acc (au_estimated a) authID db1
                    | AccountTypePostpaid \<Rightarrow> sweep_releasePostpaid f acc (au_estimated a) authID usageID db1
                    | AccountTypeOther s \<Rightarrow> Inr db1) (\<lambda>db2.
             bindE (exec f ''update inference_usage released'' (mark_released usageID db2)) (\<lambda>db3.
             exec f ''commit expire'' (commit () db3)))" for f
    have eq: "snd (expireOne f now authID usageID acc ty db) = snd (run_tx db (body f))"
      if "\<not> f ''begin expire''" "\<not> f ''expire transition''" for f
      using that Inr p by (auto simp: expireOne_def body_def split: prod.splits sum.splits)
    have "cut (body flt) (body (\<lambda>_. False))"
      unfolding body_def
      by (cases ty; simp only: account_type.case sweep_releasePrepaid_def sweep_releasePostpaid_def)
         (intro cut_intros)+
    from cut_run_tx [OF this, of db] eq [of flt] eq [of "\<lambda>_. False"] False show ?thesis by auto
  qed (use False in \<open>simp add: expireOne_def\<close>)
qed (auto simp: expireOne_def stmt_def exec_def)

definition names_auth :: "billing_db \<Rightarrow> authorization \<Rightarrow> bool" where
  "names_auth db a \<longleftrightarrow> (\<forall>b\<in>set (auths db). au_id b = au_id a \<longrightarrow>
     au_usage b = au_usage a \<and> au_account b = au_account a \<and> au_type b = au_type a)"

lemma expireOne_inv:
  assumes inv: "billing_inv db" and "names_auth db a"
  shows "billing_inv (snd (expireOne flt now (au_id a) (au_usage a) (au_account a) (au_type a) db))"
proof -
  have "billing_inv (snd (expireOne (\<lambda>_. False) now (au_id a) (au_usage a) (au_account a) (au_type a) db))"
  proof (cases "\<exists>b\<in>set (auths db). au_id b = au_id a \<and> au_status b = AuthStatusActive")
    case True
    then obtain b where b: "b \<in> set (auths db)" "au_status b = AuthStatusActive" "au_id b = au_id a" by blast
    with assms(2) have "au_usage b = au_usage a" "au_account b = au_account a" "au_type b = au_type a"
      by (auto simp: names_auth_def)
    with expireOne_active [OF inv b(1,2), of now] b(3) releases_inv [OF _ inv b(1,2) ends_expire_row]
    show ?thesis by force
  next
    case False
    with expireOne_inactive [of db "au_id a"] inv show ?thesis by auto
  qed
  with expireOne_cut [of flt now "au_id a" "au_usage a" "au_account a" "au_type a" db] inv show ?thesis by auto
qed

lemma releases_auths: "releases d a a' db db2 \<Longrightarrow> auths db2 = put_row au_id a' (auths db)"
  by (auto simp: releases_def)

definition sweep_done :: "int \<Rightarrow> authorization list \<Rightarrow> billing_db \<Rightarrow> billing_db \<Rightarrow> bool" where
  "sweep_done now as db db2 \<longleftrightarrow>
     auths db2 = map (\<lambda>b. if au_id b \<in> au_id ` set as then expire_row now b else b) (auths db)"

lemma expiry_loop_done:
  assumes "billing_inv db" and "set as \<subseteq> set (auths db)" and "\<forall>a\<in>set as. au_status a = AuthStatusActive"
    and "distinct (map au_id as)"
  shows "\<exists>db2. expiry_loop (\<lambda>_ _. False) (\<lambda>_. True) now as cnt db =
      (cnt\<lparr>processed := processed cnt + length as\<rparr>, db2) \<and> billing_inv db2 \<and> sweep_done now as db db2"
  using assms
proof (induction as arbitrary: cnt db)
  case Nil
  then show ?case by (simp add: sweep_done_def)
next
  case (Cons a as)
  then have a: "a \<in> set (auths db)" "au_status a = AuthStatusActive" by simp_all
  obtain db1 where one: "expireOne (\<lambda>_. False) now (au_id a) (au_usage a) (au_account a) (au_type a) db = (Expired, db1)"
      "releases (expire_descr (au_type a)) a (expire_row now a) db db1"
    using expireOne_active [OF Cons.prems(1) a] by blast
  have inv1: "billing_inv db1" by (rule releases_inv [OF one(2) Cons.prems(1) a ends_expire_row])
  have au1: "auths db1 = put_row au_id (expire_row now a) (auths db)" by (rule releases_auths [OF one(2)])
  have "set as \<subseteq> set (auths db1)"
  proof
    fix x assume x: "x \<in> set as"
    with Cons.prems(2,4) have "x \<in> set (auths db)" "au_id x \<noteq> au_id (expire_row now a)"
      by (auto simp: expire_row_def) (metis imageI)
    then show "x \<in> set (auths db1)" unfolding au1 by (rule in_set_put_row)
  qed
  moreover have "\<forall>a\<in>set as. au_status a = AuthStatusActive" "distinct (map au_id as)"
    using Cons.prems(3,4) by simp_all
  ultimately obtain db2 where
    rest: "expiry_loop (\<lambda>_ _. False) (\<lambda>_. True) now as (cnt\<lparr>processed := processed cnt + 1\<rparr>) db1 =
      (cnt\<lparr>processed := processed cnt + 1, processed := processed (cnt\<lparr>processed := processed cnt + 1\<rparr>) + length as\<rparr>, db2)"
      "billing_inv db2" "sweep_done now as db1 db2"
    using Cons.IH [OF inv1] by blast
  have id: "au_id (expire_row now b) = au_id b" for b by (simp add: expire_row_def)
  have na: "au_id a \<notin> au_id ` set as" using Cons.prems(4) by simp
  have same: "b = a" if "b \<in> set (auths db)" "au_id b = au_id a" for b
    using that a(1) Cons.prems(1) by (auto simp: billing_inv_def keys_ok_def intro: distinct_key_unique)
  have "auths db2 = map (\<lambda>b. if au_id b \<in> au_id ` set (a # as) then expire_row now b else b) (auths db)"
    unfolding rest(3) [unfolded sweep_done_def] au1 put_row_def map_map
    by (rule map_cong) (use same na in \<open>auto simp: id\<close>)
  then have "sweep_done now (a # as) db db2" by (simp only: sweep_done_def)
  with one rest(1,2) show ?case by simp
qed

lemma expired_auths_props:
  "billing_inv db \<Longrightarrow> set (expired_auths now db) \<subseteq> set (auths db)"
  "\<forall>a\<in>set (expired_auths now db). au_status a = AuthStatusActive \<and> au_expires_at a < now"
  "billing_inv db \<Longrightarrow> distinct (map au_id (expired_auths now db))"
proof -
  let ?f = "filter (\<lambda>a. au_status a = AuthStatusActive \<and> au_expires_at a < now) (auths db)"
  have sub: "set (expired_auths now db) \<subseteq> set ?f"
    unfolding expired_auths_def using set_take_subset by fastforce
  then show "set (expired_auths now db) \<subseteq> set (auths db)"
    and "\<forall>a\<in>set (expired_auths now db). au_status a = AuthStatusActive \<and> au_expires_at a < now" by auto
  assume "billing_inv db"
  then have "distinct (map au_id ?f)"
    by (simp add: billing_inv_def keys_ok_def distinct_map_filter)
  then have "distinct (map au_id (sort_key au_expires_at ?f))" by (simp add: distinct_map)
  then show "distinct (map au_id (expired_auths now db))"
    unfolding expired_auths_def take_map [symmetric] by (rule distinct_take)
qed

lemma expired_auths_all:
  assumes "length (filter (\<lambda>a. au_status a = AuthStatusActive \<and> au_expires_at a < now) (auths db)) \<le> 200"
  shows "set (expired_auths now db) =
    {a \<in> set (auths db). au_status a = AuthStatusActive \<and> au_expires_at a < now}"
  using assms by (auto simp: expired_auths_def)

subsection \<open>The pending sweep\<close>

lemma best_evidence_Some: "best_evidence (Some b) es \<noteq> None"
  by (induction es arbitrary: b) auto

lemma best_evidence_None_iff: "best_evidence None es = None \<longleftrightarrow> es = []"
  by (cases es) (simp_all add: best_evidence_Some)

lemma best_evidence_least:
  "best_evidence best es = Some e \<Longrightarrow>
     e \<in> set_option best \<union> set es \<and>
     (\<forall>f\<in>set_option best \<union> set es. evidencePriority (ic_source e) \<le> evidencePriority (ic_source f))"
proof (induction es arbitrary: best)
  case (Cons x es)
  show ?case
  proof (cases best)
    case None
    with Cons show ?thesis by auto
  next
    case (Some b)
    with Cons show ?thesis
      by (cases "evidencePriority (ic_source x) < evidencePriority (ic_source b)") force+
  qed
qed simp

lemma active_auth_of_eq:
  assumes "billing_inv db" and "a \<in> set (auths db)" and "au_status a = AuthStatusActive"
  shows "active_auth_of (au_usage a) db = Inr a"
proof -
  have "distinct (map au_usage (auths db))" using assms(1) by (simp add: billing_inv_def keys_ok_def)
  then have "b = a" if "b \<in> set (auths db)" "au_usage b = au_usage a" for b
    using that assms(2) by (blast intro: distinct_key_unique)
  then show ?thesis
    using assms by (cases "active_auth_of (au_usage a) db")
      (auto simp: active_auth_of_def select1_no_rows dest: select1_InrD)
qed

definition no_active :: "id \<Rightarrow> billing_db \<Rightarrow> bool" where
  "no_active uid db \<longleftrightarrow> (\<forall>a\<in>set (auths db). au_usage a = uid \<longrightarrow> au_status a \<noteq> AuthStatusActive)"

lemma active_auth_of_cases:
  assumes "billing_inv db"
  obtains "active_auth_of uid db = Inl SqlNoRows" and "no_active uid db"
  | a where "active_auth_of uid db = Inr a" and "a \<in> set (auths db)" and "au_status a = AuthStatusActive"
    and "au_usage a = uid"
proof (cases "no_active uid db")
  case True
  then have "active_auth_of uid db = Inl SqlNoRows"
    by (auto simp: active_auth_of_def select1_no_rows no_active_def)
  with True that(1) show thesis by blast
next
  case False
  then obtain a where "a \<in> set (auths db)" "au_status a = AuthStatusActive" "au_usage a = uid"
    by (auto simp: no_active_def)
  with active_auth_of_eq [OF assms] that(2) show thesis by blast
qed

lemma releases_usages:
  "releases d a a' db db2 \<Longrightarrow> usages db2 = released_usages (au_usage a) db"
  by (auto simp: releases_def)

lemma closed_no_active:
  assumes "billing_inv db" and "a \<in> set (auths db)" and "ends a a'"
    and "auths db2 = put_row au_id a' (auths db)"
  shows "no_active (au_usage a) db2"
proof -
  have d: "distinct (map au_usage (auths db))" using assms(1) by (simp add: billing_inv_def keys_ok_def)
  have "\<forall>b\<in>set (put_row au_id a' (auths db)). au_usage b = au_usage a \<longrightarrow> au_status b \<noteq> AuthStatusActive"
  proof (rule ball_put_row)
    fix b assume b: "b \<in> set (auths db)" "au_id b \<noteq> au_id a'"
    then have "b \<noteq> a" using assms(3) by (auto simp: ends_def)
    with b(1) d assms(2) show "au_usage b = au_usage a \<longrightarrow> au_status b \<noteq> AuthStatusActive"
      using distinct_key_unique [OF d, of b a] by blast
  qed (use ends_not_active [OF assms(3)] in simp)
  with assms(4) show ?thesis by (simp add: no_active_def)
qed

lemma released_usages_finished:
  "(\<forall>v\<in>set (usages db). iu_id v = x \<longrightarrow> \<not> unfinished v) \<Longrightarrow>
     \<forall>v\<in>set (released_usages uid db). iu_id v = x \<longrightarrow> \<not> unfinished v"
  by (auto simp: released_usages_def unfinished_def)

lemma releaseIfReserved_ok:
  assumes inv: "billing_inv db" and fin: "\<forall>v\<in>set (usages db). iu_id v = uid \<longrightarrow> \<not> unfinished v"
  shows "billing_inv (releaseIfReserved (\<lambda>_. False) now uid db) \<and>
    no_active uid (releaseIfReserved (\<lambda>_. False) now uid db) \<and>
    (\<forall>v\<in>set (usages (releaseIfReserved (\<lambda>_. False) now uid db)). iu_id v = uid \<longrightarrow> \<not> unfinished v)"
proof (cases rule: active_auth_of_cases [OF inv, of uid])
  case 1
  with inv fin show ?thesis by (simp add: releaseIfReserved_def)
next
  case (2 a)
  obtain db2 where db2: "Release (\<lambda>_. False) now (au_id a) uid db = (Inr (), db2)"
      "releases ''reservation released'' a (release_row now a) db db2"
    using Release_active [OF inv 2(2,3), of now] 2(4) by auto
  have "billing_inv db2" by (rule releases_inv [OF db2(2) inv 2(2,3) ends_release_row])
  moreover have "no_active uid db2"
    using closed_no_active [OF inv 2(2) ends_release_row releases_auths [OF db2(2)]] 2(4) by simp
  moreover have "\<forall>v\<in>set (usages db2). iu_id v = uid \<longrightarrow> \<not> unfinished v"
    unfolding releases_usages [OF db2(2)] by (rule released_usages_finished [OF fin])
  ultimately show ?thesis using 2(1) db2(1) by (simp add: releaseIfReserved_def)
qed

text \<open>The row after the sweep has written its outcome.\<close>

definition finalized :: "int \<Rightarrow> completion \<Rightarrow> decimal \<Rightarrow> inference_usage \<Rightarrow> inference_usage" where
  "finalized now best c u =
     u\<lparr>iu_exec := (if finish_reason best = ''error'' \<or> finish_reason best = ''timeout''
                   then ExecPartial else ExecCompleted),
       iu_input := ic_input best, iu_output := ic_output best, iu_cached := ic_cached best,
       iu_total_cost := c, iu_billable := ic_output best > 0,
       iu_finish := finish_reason best, iu_completed_at := Some now\<rparr>"

definition evidence_ok :: "completion \<Rightarrow> bool" where
  "evidence_ok e \<longleftrightarrow> 0 \<le> ic_input e \<and> 0 \<le> ic_output e \<and> 0 \<le> ic_cached e"

lemma update_usage_eq_map:
  assumes "\<forall>u\<in>set (usages db). p u \<longrightarrow> \<not> terminal_exec (iu_exec u) \<and> f u = Inr (g u) \<and> usage_check (g u)"
  shows "update_usage p f db = Inr (db\<lparr>usages := map (\<lambda>u. if p u then g u else u) (usages db)\<rparr>)"
proof -
  have "update_rows p (\<lambda>u. bindE (f u) (\<lambda>u'. bindE (fn_guard_execution_transition u u')
          (\<lambda>_. bindE (guardE SqlCheckViolation (usage_check u')) (\<lambda>_. Inr u')))) (usages db)
      = Inr (map (\<lambda>u. if p u then g u else u) (usages db))"
    using assms by (intro update_rows_eq_map) (auto simp: fn_guard_execution_transition_def)
  then show ?thesis by (simp add: update_usage_def)
qed

lemma unfinished_not_terminal: "unfinished u \<Longrightarrow> \<not> terminal_exec (iu_exec u)"
  by (auto simp: unfinished_def)

definition touch :: "id \<Rightarrow> (inference_usage \<Rightarrow> inference_usage) \<Rightarrow> billing_db \<Rightarrow> billing_db" where
  "touch uid g db = db\<lparr>usages := map (\<lambda>u. if iu_id u = uid \<and> unfinished u then g u else u) (usages db)\<rparr>"

lemma touch_ok:
  assumes inv: "billing_inv db"
    and g: "\<And>u. u \<in> set (usages db) \<Longrightarrow> iu_id u = uid \<Longrightarrow> unfinished u \<Longrightarrow>
      iu_id (g u) = iu_id u \<and> \<not> unfinished (g u) \<and> usage_check (g u)"
  shows "billing_inv (touch uid g db)" and "auths (touch uid g db) = auths db"
    and "\<forall>v\<in>set (usages (touch uid g db)). iu_id v = uid \<longrightarrow> \<not> unfinished v"
proof -
  let ?us = "map (\<lambda>u. if iu_id u = uid \<and> unfinished u then g u else u) (usages db)"
  have keys: "map iu_id ?us = map iu_id (usages db)" using g by simp
  have chk: "\<forall>u\<in>set ?us. usage_check u" using g inv_usage_checks [OF inv] by auto
  have refs: "ledger_refs_ok (db\<lparr>usages := ?us\<rparr>)"
    by (rule refs_usages_only [OF _ keys]) (use inv in \<open>simp add: billing_inv_def\<close>)
  show "billing_inv (touch uid g db)"
    unfolding touch_def by (rule inv_usages_only [OF inv keys chk refs])
  show "auths (touch uid g db) = auths db" by (simp add: touch_def)
  show "\<forall>v\<in>set (usages (touch uid g db)). iu_id v = uid \<longrightarrow> \<not> unfinished v"
    using g by (auto simp: touch_def)
qed

lemma finalize_usage_eq:
  assumes "\<forall>u\<in>set (usages db). iu_id u = uid \<longrightarrow> iu_account u \<noteq> None \<or> ic_output best \<le> 0"
    and "evidence_ok best" and "fits (round8 c)"
  shows "finalize_usage now uid best c db = Inr (touch uid (finalized now best (round8 c)) db)"
proof -
  have n: "numeric_16_8 c = Inr (round8 c)" using assms(3) by (auto simp: numeric_16_8_Inr fits_def)
  show ?thesis
    unfolding finalize_usage_def touch_def
    by (rule update_usage_eq_map)
       (use assms(1,2) n unfinished_not_terminal in
         \<open>auto simp: finalized_def usage_check_def evidence_ok_def\<close>)
qed

lemma markUnknown_ok:
  assumes inv: "billing_inv db"
  shows "billing_inv (markUnknown (\<lambda>_. False) now uid db) \<and> no_active uid (markUnknown (\<lambda>_. False) now uid db) \<and>
    (\<forall>v\<in>set (usages (markUnknown (\<lambda>_. False) now uid db)). iu_id v = uid \<longrightarrow> \<not> unfinished v)"
proof -
  let ?g = "\<lambda>u. u\<lparr>iu_exec := ExecUnknown, iu_billing := BillingDisputed, iu_completed_at := Some now\<rparr>"
  note chk = inv_usage_checks [OF inv]
  have "update_usage (\<lambda>u. iu_id u = uid \<and> unfinished u) (\<lambda>u. Inr (?g u)) db = Inr (touch uid ?g db)"
    unfolding touch_def
    by (rule update_usage_eq_map) (use chk unfinished_not_terminal in \<open>auto simp: usage_check_def\<close>)
  then have eq: "markUnknown (\<lambda>_. False) now uid db = releaseIfReserved (\<lambda>_. False) now uid (touch uid ?g db)"
    by (simp add: markUnknown_def)
  have g: "iu_id (?g u) = iu_id u \<and> \<not> unfinished (?g u) \<and> usage_check (?g u)" if "u \<in> set (usages db)" for u
    using chk that by (auto simp: unfinished_def usage_check_def)
  show ?thesis unfolding eq
    by (rule releaseIfReserved_ok [OF touch_ok(1) [OF inv] touch_ok(3) [OF inv]]) (use g in blast)+
qed

definition usage_linked :: "billing_db \<Rightarrow> inference_usage \<Rightarrow> bool" where
  "usage_linked db u \<longleftrightarrow> (\<forall>a\<in>set (auths db). au_usage a = iu_id u \<longrightarrow> au_status a = AuthStatusActive \<longrightarrow>
     sr_account (stale_row_of db u) = Some (au_account a) \<and> sr_type (stale_row_of db u) = Some (au_type a))"

definition evidence_of :: "id \<Rightarrow> billing_db \<Rightarrow> completion list" where
  "evidence_of uid db = filter (\<lambda>e. ic_usage e = uid) (completions db)"

lemma settles_auths:
  "settles now inp a db db2 \<Longrightarrow> auths db2 = put_row au_id (commit_row now (round8 (si_actual inp)) a) (auths db)"
  "settles now inp a db db2 \<Longrightarrow> usages db2 = committed_usages (si_usage inp) (cap inp a) db"
  by (auto simp: settles_def Let_def)

lemma committed_usages_finished:
  "(\<forall>v\<in>set (usages db). iu_id v = x \<longrightarrow> \<not> unfinished v) \<Longrightarrow>
     \<forall>v\<in>set (committed_usages uid c db). iu_id v = x \<longrightarrow> \<not> unfinished v"
  by (auto simp: committed_usages_def unfinished_def)

lemma processRow_settle:
  assumes inv: "billing_inv db1" and fin: "\<forall>v\<in>set (usages db1). iu_id v = sr_id row \<longrightarrow> \<not> unfinished v"
    and link: "\<forall>a\<in>set (auths db1). au_usage a = sr_id row \<longrightarrow> au_status a = AuthStatusActive \<longrightarrow>
      au_account a = acc \<and> au_type a = ty"
    and cost: "0 \<le> c" "fits (round8 c)"
  shows "\<exists>db2. (case stmt (\<lambda>_. False) ''find authorization'' (active_auth_of (sr_id row) db1) of
      Inl SqlNoRows \<Rightarrow> (Resolved, db1)
    | r \<Rightarrow> (let authID = (case r of Inl _ \<Rightarrow> '''' | Inr a \<Rightarrow> au_id a) in
        case Settle (\<lambda>_. False) policy now
               \<lparr>si_auth = authID, si_usage = sr_id row, si_account = acc, si_type = ty,
                si_actual = c, si_currency = sr_currency row\<rparr> db1 of
          (Inl _, db2) \<Rightarrow> (PendingError, db2) | (Inr _, db2) \<Rightarrow> (Resolved, db2))) = (Resolved, db2) \<and>
    billing_inv db2 \<and> no_active (sr_id row) db2 \<and> (\<forall>v\<in>set (usages db2). iu_id v = sr_id row \<longrightarrow> \<not> unfinished v)"
proof (cases rule: active_auth_of_cases [OF inv, of "sr_id row"])
  case 1
  with inv fin show ?thesis by simp
next
  case (2 a)
  let ?i = "\<lparr>si_auth = au_id a, si_usage = sr_id row, si_account = acc, si_type = ty,
             si_actual = c, si_currency = sr_currency row\<rparr>"
  have ok: "settle_input_ok ?i a" using 2 link cost by (simp add: settle_input_ok_def)
  obtain db2 where db2: "Settle (\<lambda>_. False) policy now ?i db1 = (Inr (), db2)" "settles now ?i a db1 db2"
    using Settle_active [OF inv 2(2,3) ok] by blast
  have "billing_inv db2" by (rule settles_inv [OF db2(2) inv 2(2,3) ok])
  moreover have "no_active (sr_id row) db2"
    using closed_no_active [OF inv 2(2) ends_commit_row settles_auths(1) [OF db2(2)]] 2(4) by simp
  moreover have "\<forall>v\<in>set (usages db2). iu_id v = sr_id row \<longrightarrow> \<not> unfinished v"
    unfolding settles_auths(2) [OF db2(2)] by (rule committed_usages_finished [OF fin])
  ultimately show ?thesis using 2(1) db2(1) by simp
qed

lemma evidence_cost_nonneg:
  "evidence_ok e \<Longrightarrow> 0 \<le> sr_input_rate r \<Longrightarrow> 0 \<le> sr_output_rate r \<Longrightarrow> 0 \<le> sr_cached_rate r \<Longrightarrow>
     0 \<le> evidence_cost r e"
  unfolding evidence_cost_def by (rule totalCost_nonneg) (simp_all add: rates_ok_def tokens_ok_def evidence_ok_def)

lemma processRow_ok:
  assumes inv: "billing_inv db" and u: "u \<in> set (usages db)" "iu_account u \<noteq> None"
    and link: "usage_linked db u"
    and rates: "0 \<le> iu_input_rate u" "0 \<le> iu_output_rate u" "0 \<le> iu_cached_rate u"
    and ev: "\<forall>e\<in>set (evidence_of (iu_id u) db). evidence_ok e \<and> fits (round8 (evidence_cost (stale_row_of db u) e))"
  shows "\<exists>r db'. processRow (\<lambda>_. False) policy now (stale_row_of db u) db = (r, db') \<and> r \<noteq> PendingError \<and>
    (r = Disputed \<longleftrightarrow> evidence_of (iu_id u) db = []) \<and> billing_inv db' \<and> no_active (iu_id u) db' \<and>
    (\<forall>v\<in>set (usages db'). iu_id v = iu_id u \<longrightarrow> \<not> unfinished v)"
proof (cases "best_evidence None (evidence_of (iu_id u) db)")
  case None
  then have "evidence_of (iu_id u) db = []" by (simp add: best_evidence_None_iff)
  with None markUnknown_ok [OF inv, of now "iu_id u"] show ?thesis
    by (simp add: processRow_def Let_def evidence_of_def stale_row_of_def)
next
  case (Some best)
  let ?row = "stale_row_of db u" and ?c = "evidence_cost (stale_row_of db u) best"
  let ?db1 = "touch (iu_id u) (finalized now best (round8 ?c)) db"
  have nonempty: "evidence_of (iu_id u) db \<noteq> []" using Some by auto
  have "best \<in> set (evidence_of (iu_id u) db)" using best_evidence_least [OF Some] by simp
  with ev have b: "evidence_ok best" "fits (round8 ?c)" by blast+
  have c: "0 \<le> ?c" using b(1) rates by (intro evidence_cost_nonneg) (simp_all add: stale_row_of_def)
  have only: "v = u" if "v \<in> set (usages db)" "iu_id v = iu_id u" for v
    using that u(1) inv by (auto simp: billing_inv_def keys_ok_def intro: distinct_key_unique)
  have fin: "finalize_usage now (iu_id u) best ?c db = Inr ?db1"
    by (rule finalize_usage_eq [OF _ b]) (use only u(2) in blast)
  have g: "iu_id (finalized now best (round8 ?c) v) = iu_id v \<and> \<not> unfinished (finalized now best (round8 ?c) v) \<and>
      usage_check (finalized now best (round8 ?c) v)" if "v \<in> set (usages db)" "iu_id v = iu_id u" for v
    using only [OF that] u(2) b(1) by (auto simp: finalized_def unfinished_def usage_check_def evidence_ok_def)
  note t = touch_ok [OF inv, of "iu_id u" "finalized now best (round8 ?c)"]
  have t': "billing_inv ?db1" "auths ?db1 = auths db"
      "\<forall>v\<in>set (usages ?db1). iu_id v = iu_id u \<longrightarrow> \<not> unfinished v"
    using t g by blast+
  have id: "sr_id ?row = iu_id u" by (simp add: stale_row_of_def)
  note rel = releaseIfReserved_ok [OF t'(1,3), of now]
  have set: "sr_account ?row = Some acc \<Longrightarrow> sr_type ?row = Some ty \<Longrightarrow>
      \<forall>a\<in>set (auths ?db1). au_usage a = sr_id ?row \<longrightarrow> au_status a = AuthStatusActive \<longrightarrow>
        au_account a = acc \<and> au_type a = ty" for acc ty
    using link t'(2) id by (auto simp: usage_linked_def)
  have unf: "processRow (\<lambda>_. False) policy now ?row db =
      (case (sr_account ?row, sr_type ?row) of
         (Some acc, Some ty) \<Rightarrow>
           if \<not> 0 < ic_output best \<or> sr_billing ?row \<noteq> BillingReserved
           then (Resolved, releaseIfReserved (\<lambda>_. False) now (sr_id ?row) ?db1)
           else (case stmt (\<lambda>_. False) ''find authorization'' (active_auth_of (sr_id ?row) ?db1) of
              Inl SqlNoRows \<Rightarrow> (Resolved, ?db1)
            | r \<Rightarrow> (let authID = (case r of Inl _ \<Rightarrow> '''' | Inr a \<Rightarrow> au_id a) in
                case Settle (\<lambda>_. False) policy now
                       \<lparr>si_auth = authID, si_usage = sr_id ?row, si_account = acc, si_type = ty,
                        si_actual = ?c, si_currency = sr_currency ?row\<rparr> ?db1 of
                  (Inl _, db2) \<Rightarrow> (PendingError, db2) | (Inr _, db2) \<Rightarrow> (Resolved, db2)))
       | _ \<Rightarrow> (Resolved, releaseIfReserved (\<lambda>_. False) now (sr_id ?row) ?db1))"
    using Some fin unfolding evidence_of_def by (simp add: processRow_def id Let_def)
  show ?thesis
  proof (cases "\<exists>acc ty. sr_account ?row = Some acc \<and> sr_type ?row = Some ty \<and> 0 < ic_output best \<and>
      sr_billing ?row = BillingReserved")
    case True
    then obtain acc ty where at: "sr_account ?row = Some acc" "sr_type ?row = Some ty" "0 < ic_output best"
      "sr_billing ?row = BillingReserved" by blast
    from processRow_settle [OF t'(1) _ set [OF at(1,2)] c b(2), of policy now] t'(3) id at nonempty
    show ?thesis unfolding unf by auto
  next
    case False
    then have "processRow (\<lambda>_. False) policy now ?row db =
        (Resolved, releaseIfReserved (\<lambda>_. False) now (iu_id u) ?db1)"
      unfolding unf id by (auto split: option.splits)
    with rel nonempty show ?thesis by simp
  qed
qed

end
