(* ===== verification/Billing_Ops.thy ===== *)
theory Billing_Ops
  imports Billing_Sweep
begin

text \<open>
  The billing operations as a transition system. \<open>billing_op\<close> is the contract every operation on
  the billing database meets: the accounting invariant survives under every fault plan, and an
  operation that reports an error has changed nothing. It is interpreted for \<open>Reserve\<close>, \<open>Release\<close>
  and \<open>Settle\<close>, and the step relation closes them, with the expiry sweep's \<open>expireOne\<close>, under any
  interleaving.
\<close>

subsection \<open>The contract of an operation\<close>

locale billing_op =
  fixes run :: "'i \<Rightarrow> billing_db \<Rightarrow> ('e + 'o) \<times> billing_db"
    and pre :: "'i \<Rightarrow> billing_db \<Rightarrow> bool"
  assumes keeps: "billing_inv db \<Longrightarrow> pre i db \<Longrightarrow> billing_inv (snd (run i db))"
    and failed: "fst (run i db) = Inl e \<Longrightarrow> snd (run i db) = db"
begin

text \<open>A client may retry until the call succeeds: the failed attempts leave no trace.\<close>

fun retry :: "'i list \<Rightarrow> billing_db \<Rightarrow> ('o option) \<times> billing_db" where
  "retry [] db = (None, db)"
| "retry (i # is) db = (case run i db of (Inr out, db') \<Rightarrow> (Some out, db') | (Inl e, db') \<Rightarrow> retry is db')"

lemma retry_once:
  "retry is db = (None, db) \<or> (\<exists>i\<in>set is. \<exists>out. retry is db = (Some out, snd (run i db)) \<and> fst (run i db) = Inr out)"
proof (induction "is")
  case (Cons i "is")
  show ?case
  proof (cases "run i db")
    case (Pair r db')
    show ?thesis
    proof (cases r)
      case (Inl e)
      with failed [of i db e] Pair have "db' = db" by simp
      with Cons Pair Inl show ?thesis by auto
    qed (use Pair in auto)
  qed
qed simp

lemma retry_keeps: "billing_inv db \<Longrightarrow> \<forall>i\<in>set is. pre i db \<Longrightarrow> billing_inv (snd (retry is db))"
  using retry_once [of "is" db] keeps by auto

end

type_synonym reserve_call = "faults \<times> int \<times> int \<times> id \<times> reserve_input"
type_synonym release_call = "faults \<times> int \<times> id \<times> id"
type_synonym settle_call = "faults \<times> expiry_policy \<times> int \<times> settle_input"

definition reserve_pre :: "reserve_call \<Rightarrow> billing_db \<Rightarrow> bool" where
  "reserve_pre = (\<lambda>(flt, now, ttl, authID, inp) db. 0 \<le> ri_estimated inp)"

definition release_pre :: "release_call \<Rightarrow> billing_db \<Rightarrow> bool" where
  "release_pre = (\<lambda>(flt, now, authID, usageID) db.
     list_all (\<lambda>a. au_id a = authID \<longrightarrow> au_usage a = usageID) (auths db))"

definition settle_pre :: "settle_call \<Rightarrow> billing_db \<Rightarrow> bool" where
  "settle_pre = (\<lambda>(flt, policy, now, inp) db.
     list_all (\<lambda>a. au_id a = si_auth inp \<longrightarrow> settle_input_ok inp a) (auths db))"

lemma Release_failed: "fst (Release flt now authID usageID db) = Inl e \<Longrightarrow> snd (Release flt now authID usageID db) = db"
  by (auto simp: Release_def run_tx_error split: sum.splits prod.splits)

lemma unplannedDebit_failed: "fst (unplannedDebit flt inp db) = Inl e \<Longrightarrow> snd (unplannedDebit flt inp db) = db"
  by (auto simp: unplannedDebit_def Let_def run_tx_error split: sum.splits if_splits)

lemma handleExpiryRecovery_failed:
  "fst (handleExpiryRecovery flt policy inp db) = Inl e \<Longrightarrow> snd (handleExpiryRecovery flt policy inp db) = db"
  by (auto simp: handleExpiryRecovery_def unplannedDebit_failed split: sum.splits if_splits expiry_policy.splits)

lemma Settle_failed: "fst (Settle flt policy now inp db) = Inl e \<Longrightarrow> snd (Settle flt policy now inp db) = db"
  by (auto simp: Settle_def settlePrepaid_def settlePostpaid_def Let_def run_tx_error
      handleExpiryRecovery_failed split: sum.splits prod.splits account_type.splits)

interpretation reserve_op: billing_op
  "\<lambda>(flt, now, ttl, authID, inp). Reserve flt now ttl authID inp" reserve_pre
  by unfold_locales (auto simp: reserve_pre_def Reserve_inv dest: reserve_errors)

interpretation release_op: billing_op
  "\<lambda>(flt, now, authID, usageID). Release flt now authID usageID" release_pre
  by unfold_locales (auto simp: release_pre_def list_all_iff Release_inv dest: Release_failed)

interpretation settle_op: billing_op
  "\<lambda>(flt, policy, now, inp). Settle flt policy now inp" settle_pre
  by unfold_locales (auto simp: settle_pre_def list_all_iff Settle_inv dest: Settle_failed)

subsection \<open>Steps\<close>

inductive billing_step :: "billing_db \<Rightarrow> billing_db \<Rightarrow> bool" where
  reserve: "0 \<le> ri_estimated inp \<Longrightarrow> billing_step db (snd (Reserve flt now ttl authID inp db))"
| release: "\<forall>a\<in>set (auths db). au_id a = authID \<longrightarrow> au_usage a = usageID \<Longrightarrow>
    billing_step db (snd (Release flt now authID usageID db))"
| settle: "\<forall>a\<in>set (auths db). au_id a = si_auth inp \<longrightarrow> settle_input_ok inp a \<Longrightarrow>
    billing_step db (snd (Settle flt policy now inp db))"
| expire: "names_auth db a \<Longrightarrow>
    billing_step db (snd (expireOne flt now (au_id a) (au_usage a) (au_account a) (au_type a) db))"

inductive_cases billing_stepE: "billing_step db db'"

lemma billing_step_inv: "billing_step db db' \<Longrightarrow> billing_inv db \<Longrightarrow> billing_inv db'"
  by (induction rule: billing_step.induct) (simp_all add: Reserve_inv Release_inv Settle_inv expireOne_inv)

lemma billing_steps_inv: "billing_step\<^sup>*\<^sup>* db db' \<Longrightarrow> billing_inv db \<Longrightarrow> billing_inv db'"
  by (induction rule: rtranclp_induct) (blast intro: billing_step_inv)+

text \<open>What a step does to the authorization table: nothing, one new active row, or one active row ended.\<close>

definition auth_move :: "authorization list \<Rightarrow> authorization list \<Rightarrow> bool" where
  "auth_move as bs \<longleftrightarrow> bs = as \<or> (\<exists>a. bs = as @ [a] \<and> au_status a = AuthStatusActive) \<or>
     (\<exists>a\<in>set as. \<exists>a'. au_status a = AuthStatusActive \<and> ends a a' \<and> bs = put_row au_id a' as)"

lemma auth_move_refl [simp]: "auth_move as as"
  by (simp add: auth_move_def)

lemma mark_disputed_auths [simp]: "auths (mark_disputed flt uid db) = auths db"
  by (auto simp: mark_disputed_def update_usage_def bindE_def stmt_def split: sum.splits)

lemma update_usage_auths: "update_usage p f db = Inr db' \<Longrightarrow> auths db' = auths db"
  by (auto simp: update_usage_def)

lemma unplannedDebit_auths: "auths (snd (unplannedDebit flt inp db)) = auths db"
proof (cases rule: unplannedDebit_cases [of flt inp db])
  case (2 w db1 db2 db')
  have "auths db1 = auths db" using 2(4) by (auto simp: update_wallet_def)
  with 2(1) insert_wallet_ledger_InrD [OF 2(5)] update_usage_auths [OF 2(6) [unfolded mark_committed_def]]
  show ?thesis by simp
qed auto

lemma handleExpiryRecovery_auths: "auths (snd (handleExpiryRecovery flt policy inp db)) = auths db"
  by (auto simp: handleExpiryRecovery_def unplannedDebit_auths split: sum.splits expiry_policy.splits)

lemma Release_move:
  assumes "billing_inv db" and "\<forall>a\<in>set (auths db). au_id a = authID \<longrightarrow> au_usage a = usageID"
  shows "auth_move (auths db) (auths (snd (Release flt now authID usageID db)))"
proof (cases "\<exists>a\<in>set (auths db). au_id a = authID \<and> au_status a = AuthStatusActive")
  case True
  then obtain a where a: "a \<in> set (auths db)" "au_status a = AuthStatusActive" "au_id a = authID" by blast
  obtain db2 where db2: "Release (\<lambda>_. False) now authID usageID db = (Inr (), db2)"
      "releases ''reservation released'' a (release_row now a) db db2"
    using Release_active [OF assms(1) a(1,2), of now] a(3) assms(2) a(1) by auto
  have "auth_move (auths db) (auths db2)"
    unfolding auth_move_def releases_auths [OF db2(2)] using a ends_release_row by blast
  with Release_cut [of flt now authID usageID db] db2(1) show ?thesis by (auto simp: auth_move_def)
next
  case False
  with Release_inactive [of db authID flt now usageID] show ?thesis by (simp add: auth_move_def)
qed

lemma Settle_move:
  assumes "billing_inv db" and "\<forall>a\<in>set (auths db). au_id a = si_auth inp \<longrightarrow> settle_input_ok inp a"
  shows "auth_move (auths db) (auths (snd (Settle flt policy now inp db)))"
proof -
  have rec: "auth_move (auths db) (auths (snd (handleExpiryRecovery f policy inp db)))" for f
    by (simp add: handleExpiryRecovery_auths auth_move_def)
  have "auth_move (auths db) (auths (snd (Settle (\<lambda>_. False) policy now inp db)))"
  proof (cases "\<exists>a\<in>set (auths db). au_id a = si_auth inp \<and> au_status a = AuthStatusActive")
    case True
    then obtain a where a: "a \<in> set (auths db)" "au_status a = AuthStatusActive" "settle_input_ok inp a"
      using assms(2) by blast
    obtain db2 where db2: "Settle (\<lambda>_. False) policy now inp db = (Inr (), db2)" "settles now inp a db db2"
      using Settle_active [OF assms(1) a] by blast
    then show ?thesis
      using a ends_commit_row settles_auths(1) [OF db2(2)] unfolding auth_move_def by (metis snd_conv)
  next
    case False
    then show ?thesis
      using Settle_inactive [of db inp "\<lambda>_. False" policy now] rec [of "\<lambda>_. False"]
      by (cases "si_type inp") (auto simp: Settle_def auth_move_def)
  qed
  with Settle_cut [of flt policy now inp db] rec [of flt] show ?thesis by auto
qed

lemma expireOne_move:
  assumes "billing_inv db" and "names_auth db a"
  shows "auth_move (auths db) (auths (snd (expireOne flt now (au_id a) (au_usage a) (au_account a) (au_type a) db)))"
proof (cases "\<exists>b\<in>set (auths db). au_id b = au_id a \<and> au_status b = AuthStatusActive")
  case True
  then obtain b where b: "b \<in> set (auths db)" "au_status b = AuthStatusActive" "au_id b = au_id a" by blast
  with assms(2) have eq: "au_usage b = au_usage a" "au_account b = au_account a" "au_type b = au_type a"
    by (auto simp: names_auth_def)
  obtain db2 where db2: "expireOne (\<lambda>_. False) now (au_id a) (au_usage a) (au_account a) (au_type a) db = (Expired, db2)"
      "releases (expire_descr (au_type b)) b (expire_row now b) db db2"
    using expireOne_active [OF assms(1) b(1,2), of now] b(3) eq by auto
  have "auth_move (auths db) (auths db2)"
    unfolding auth_move_def releases_auths [OF db2(2)] using b ends_expire_row by blast
  with expireOne_cut [of flt now "au_id a" "au_usage a" "au_account a" "au_type a" db] db2(1)
  show ?thesis by (auto simp: auth_move_def)
next
  case False
  with expireOne_inactive [of db "au_id a" flt now "au_usage a" "au_account a" "au_type a"]
  show ?thesis by (simp add: auth_move_def)
qed

lemma Reserve_move:
  assumes "billing_inv db" and "0 \<le> ri_estimated inp"
  shows "auth_move (auths db) (auths (snd (Reserve flt now ttl authID inp db)))"
proof (cases "Reserve flt now ttl authID inp db")
  case (Pair r db')
  show ?thesis
  proof (cases r)
    case (Inl e)
    with Pair reserve_errors [of flt now ttl authID inp db e] show ?thesis by (simp add: auth_move_def)
  next
    case (Inr out)
    with Pair Reserve_stored(1) [of flt now ttl authID inp db out db'] assms
    show ?thesis by (auto simp: auth_move_def new_auth_def)
  qed
qed

lemma billing_step_move: "billing_step db db' \<Longrightarrow> billing_inv db \<Longrightarrow> auth_move (auths db) (auths db')"
  by (induction rule: billing_step.induct)
     (simp_all add: Reserve_move Release_move Settle_move expireOne_move)

lemma auth_move_terminal:
  assumes "auth_move as bs" and "distinct (map au_id as)" and "a \<in> set as" and "terminal_auth (au_status a)"
  shows "a \<in> set bs"
  using assms unfolding auth_move_def
proof (elim disjE exE bexE conjE)
  fix b b' assume b: "b \<in> set as" "au_status b = AuthStatusActive" "ends b b'" "bs = put_row au_id b' as"
  have "au_id a \<noteq> au_id b'"
    using b assms(2-4) distinct_key_unique [OF assms(2), of a b] by (auto simp: ends_def)
  with b(4) assms(3) show "a \<in> set bs" by (simp add: in_set_put_row)
qed auto

lemma steps_terminal:
  assumes "billing_step\<^sup>*\<^sup>* db db'" and "billing_inv db" and "a \<in> set (auths db)" and "terminal_auth (au_status a)"
  shows "a \<in> set (auths db')"
  using assms
proof (induction rule: rtranclp_induct)
  case (step db1 db2)
  then have "billing_inv db1" using billing_steps_inv by blast
  with step billing_step_move [of db1 db2] show ?case
    by (auto simp: billing_inv_def keys_ok_def intro: auth_move_terminal)
qed simp

end
