(* ===== verification/Billing_Properties.thy ===== *)
theory Billing_Properties
  imports Billing_Ops
begin

text \<open>
  The properties of the billing subsystem, each with a witness on a small database: a prepaid
  account with one active authorization of 3000 units, a postpaid account, and a second usage row
  that has no authorization yet.
\<close>

subsection \<open>A concrete database\<close>

definition demo_usage :: "id \<Rightarrow> id \<Rightarrow> exec_status \<Rightarrow> billing_status \<Rightarrow> inference_usage" where
  "demo_usage uid acc ex bs =
     \<lparr>iu_id = uid, iu_request = uid, iu_project = None, iu_account = Some acc, iu_input_rate = 100,
      iu_output_rate = 200, iu_cached_rate = 0, iu_exec = ex, iu_billing = bs, iu_input = 0,
      iu_output = 0, iu_cached = 0, iu_total_cost = 0, iu_currency = ''USD'', iu_billable = False,
      iu_finish = '''', iu_started_at = 0, iu_completed_at = None\<rparr>"

definition demo_auth :: authorization where
  "demo_auth =
     \<lparr>au_id = ''a1'', au_usage = ''u1'', au_account = ''acc'', au_type = AccountTypePrepaid,
      au_estimated = 3000, au_actual = None, au_currency = ''USD'', au_status = AuthStatusActive,
      au_expires_at = 5, au_committed_at = None, au_released_at = None, au_expired_at = None\<rparr>"

definition demo_wallet :: wallet where
  "demo_wallet =
     \<lparr>w_id = ''w1'', w_account = ''acc'', w_currency = ''USD'', w_balance = 10000, w_reserved = 3000,
      w_version = 1\<rparr>"

definition demo_db :: billing_db where
  "demo_db =
     \<lparr>accounts = [\<lparr>ba_id = ''acc'', ba_org = ''org'', ba_type = AccountTypePrepaid, ba_status = AccountActive, ba_created = 0\<rparr>,
                  \<lparr>ba_id = ''post'', ba_org = ''org'', ba_type = AccountTypePostpaid, ba_status = AccountActive, ba_created = 1\<rparr>],
      wallets = [demo_wallet],
      credits = [\<lparr>c_id = ''c1'', c_account = ''post'', c_currency = ''USD'', c_limit = 5000, c_exposure = 0,
                  c_settled = 0, c_version = 1\<rparr>],
      wallet_ledger = [\<lparr>wl_wallet = ''w1'', wl_type = LedgerTopup, wl_amount = 10000, wl_usage = None,
                        wl_auth = None, wl_description = ''topup''\<rparr>],
      credit_ledger = [], auths = [demo_auth],
      usages = [demo_usage ''u1'' ''acc'' ExecRunning BillingReserved,
                demo_usage ''u2'' ''acc'' ExecPending BillingPending],
      completions = [\<lparr>ic_usage = ''u1'', ic_source = ''gateway'', ic_input = 4, ic_output = 2, ic_cached = 0,
                      ic_finish = None\<rparr>]\<rparr>"

lemmas demo_defs = demo_db_def demo_auth_def demo_wallet_def demo_usage_def

lemma demo_inv: "billing_inv demo_db"
  by (simp add: demo_defs inv_defs wallet_check_def credit_check_def usage_check_def fits_def on_grid_def
      active_sum_def held_def ledger_refs_ok_def closes_wallet_def closes_credit_def)

lemma demo_auth_mem: "demo_auth \<in> set (auths demo_db)" "au_status demo_auth = AuthStatusActive"
  by (simp_all add: demo_defs)

subsection \<open>Invariants of every run\<close>

text \<open>
  C1: whatever reservations, releases, settlements and expiries run, in any order and under any
  database faults, every wallet keeps \<open>0 \<le> reserved \<le> balance\<close> with \<open>reserved\<close> equal to the sum of the
  estimates of the account's active prepaid authorizations, and every credit account's
  \<open>total_exposure\<close> is the sum of its active postpaid authorizations plus what the cycle settled.
\<close>

theorem accounts_always_balanced:
  assumes "billing_inv db" and "billing_step\<^sup>*\<^sup>* db db'"
  shows "(\<forall>w\<in>set (wallets db'). 0 \<le> w_reserved w \<and> w_reserved w \<le> w_balance w \<and>
        w_reserved w = active_sum AccountTypePrepaid (w_account w) (auths db')) \<and>
      (\<forall>c\<in>set (credits db').
        c_exposure c = active_sum AccountTypePostpaid (c_account c) (auths db') + c_settled c)"
proof -
  have inv: "billing_inv db'" by (rule billing_steps_inv [OF assms(2,1)])
  then show ?thesis
    using inv_wallet_rowD [OF inv] inv_credit_rowD [OF inv] unfolding wallet_check_def by blast
qed

definition demo_reserve :: reserve_input where
  "demo_reserve =
     \<lparr>ri_usage = ''u2'', ri_account = ''acc'', ri_type = AccountTypePrepaid, ri_estimated = 7000,
      ri_currency = ''USD''\<rparr>"

theorem accounts_always_balanced_witness:
  "list_all (\<lambda>w. w_reserved w = 10000 \<and>
       w_reserved w = active_sum AccountTypePrepaid (w_account w)
         (auths (snd (Reserve (\<lambda>_. False) 0 60 ''a2'' demo_reserve demo_db))))
     (wallets (snd (Reserve (\<lambda>_. False) 0 60 ''a2'' demo_reserve demo_db)))"
  unfolding list_all_iff
proof
  let ?db = "snd (Reserve (\<lambda>_. False) 0 60 ''a2'' demo_reserve demo_db)"
  fix w assume w: "w \<in> set (wallets ?db)"
  have "billing_step\<^sup>*\<^sup>* demo_db ?db"
    by (rule r_into_rtranclp, rule billing_step.reserve) (simp add: demo_reserve_def)
  from accounts_always_balanced [OF demo_inv this] w
  have *: "w_reserved w = active_sum AccountTypePrepaid (w_account w) (auths ?db)" by blast
  have "\<forall>w\<in>set (wallets ?db). w_reserved w = 10000" by code_simp
  with * w show "w_reserved w = 10000 \<and> w_reserved w = active_sum AccountTypePrepaid (w_account w) (auths ?db)"
    by blast
qed

text \<open>
  C3: an authorization ends at most once. Once it is committed, released or expired its row never
  changes again, whatever settlements, releases, sweeps and new reservations follow.
\<close>

theorem authorization_ends_once:
  assumes "billing_inv db" and "billing_step\<^sup>*\<^sup>* db db'" and "a \<in> set (auths db)"
    and "au_status a \<noteq> AuthStatusActive"
  shows "a \<in> set (auths db')"
  using steps_terminal [OF assms(2,1,3)] assms(4) by (cases "au_status a") simp_all

definition demo_settle :: settle_input where
  "demo_settle =
     \<lparr>si_auth = ''a1'', si_usage = ''u1'', si_account = ''acc'', si_type = AccountTypePrepaid,
      si_actual = 1000, si_currency = ''USD''\<rparr>"

lemma demo_settle_ok: "settle_input_ok demo_settle demo_auth"
  by (simp add: settle_input_ok_def demo_settle_def demo_auth_def fits_def on_grid_def round8_def)

theorem authorization_ends_once_witness:
  "\<exists>db. commit_row 7 1000 demo_auth \<in> set (auths db) \<and>
     commit_row 7 1000 demo_auth \<in> set (auths (snd (Release (\<lambda>_. False) 9 ''a1'' ''u1'' db)))"
proof -
  let ?db = "snd (Settle (\<lambda>_. False) PolicyBestEffort 7 demo_settle demo_db)"
  have own: "\<forall>a\<in>set (auths demo_db). au_id a = si_auth demo_settle \<longrightarrow> settle_input_ok demo_settle a"
    using demo_settle_ok by (simp add: demo_db_def)
  have inv: "billing_inv ?db" by (rule Settle_inv [OF demo_inv own])
  have mem: "commit_row 7 1000 demo_auth \<in> set (auths ?db)" by code_simp
  have "\<forall>a\<in>set (auths ?db). au_id a = ''a1'' \<longrightarrow> au_usage a = ''u1''" by code_simp
  then have "billing_step\<^sup>*\<^sup>* ?db (snd (Release (\<lambda>_. False) 9 ''a1'' ''u1'' ?db))"
    by (intro r_into_rtranclp billing_step.release)
  from authorization_ends_once [OF inv this mem] mem show ?thesis by (auto simp: commit_row_def)
qed

subsection \<open>Reserving\<close>

text \<open>
  C6: a fault in any statement of \<open>Reserve\<close> never leaves a partial reservation: the call behaves as
  without faults, or returns an error with the database as it was.
\<close>

theorem reserve_all_or_nothing:
  "Reserve flt now ttl authID inp db = Reserve (\<lambda>_. False) now ttl authID inp db \<or>
   (\<exists>e. Reserve flt now ttl authID inp db = (Inl e, db))"
proof -
  have "reservePrepaid flt x authID inp db = reservePrepaid (\<lambda>_. False) x authID inp db \<or>
      (\<exists>e. reservePrepaid flt x authID inp db = (Inl e, db))" for x
    unfolding reservePrepaid_def Let_def by (rule cut_run_tx) (intro cut_intros)
  moreover have "reservePostpaid flt x authID inp db = reservePostpaid (\<lambda>_. False) x authID inp db \<or>
      (\<exists>e. reservePostpaid flt x authID inp db = (Inl e, db))" for x
    unfolding reservePostpaid_def Let_def by (rule cut_run_tx) (intro cut_intros)
  ultimately show ?thesis by (cases "ri_type inp") (simp_all add: Reserve_def Let_def)
qed

text \<open>
  A prepaid reservation for a usage row without one succeeds exactly when the unreserved part
  of the wallet covers the estimate; otherwise the caller gets \<open>ErrInsufficientFunds\<close> and nothing
  changes.
\<close>

theorem reserve_prepaid_iff_funds:
  assumes "billing_inv db" and "0 \<le> ri_estimated inp" and "ri_type inp = AccountTypePrepaid"
    and "lock_active_wallet (ri_account inp) db = Inr w"
    and "authID \<notin> au_id ` set (auths db)" and "ri_usage inp \<notin> au_usage ` set (auths db)"
    and "ri_usage inp \<in> iu_id ` set (usages db)"
  shows "if ri_estimated inp \<le> w_balance w - w_reserved w
    then fst (Reserve (\<lambda>_. False) now ttl authID inp db) = Inr \<lparr>ro_auth = authID, ro_expires_at = now + ttl\<rparr>
    else Reserve (\<lambda>_. False) now ttl authID inp db = (Inl ErrInsufficientFunds, db)"
  using Reserve_prepaid_ok [OF assms(1-4) _ assms(5-7), of now ttl] assms(3,4)
  by (auto simp: Reserve_def reservePrepaid_def Let_def)

theorem reserve_prepaid_iff_funds_witness:
  "fst (Reserve (\<lambda>_. False) 0 60 ''a2'' demo_reserve demo_db) = Inr \<lparr>ro_auth = ''a2'', ro_expires_at = 60\<rparr> \<and>
   Reserve (\<lambda>_. False) 0 60 ''a2'' (demo_reserve\<lparr>ri_estimated := 7001\<rparr>) demo_db = (Inl ErrInsufficientFunds, demo_db)"
proof -
  have lock: "lock_active_wallet ''acc'' demo_db = Inr demo_wallet"
    by (simp add: lock_active_wallet_def select1_def has_active_account_def demo_defs)
  show ?thesis
    using reserve_prepaid_iff_funds [OF demo_inv, of demo_reserve demo_wallet "''a2''" 0 60]
      reserve_prepaid_iff_funds [OF demo_inv, of "demo_reserve\<lparr>ri_estimated := 7001\<rparr>" demo_wallet "''a2''" 0 60] lock
    by (simp add: demo_reserve_def demo_defs)
qed

text \<open>
  C4: a reservation that is released gives back exactly what it took: after \<open>Reserve\<close> and \<open>Release\<close>
  every wallet and every credit account holds the amounts it held before.
\<close>

theorem reserve_release_roundtrip:
  assumes "billing_inv db" and "0 \<le> ri_estimated inp"
    and "Reserve flt now ttl authID inp db = (Inr out, db1)"
  shows "\<exists>db2. Release (\<lambda>_. False) later authID (ri_usage inp) db1 = (Inr (), db2) \<and>
    map wallet_funds (wallets db2) = map wallet_funds (wallets db) \<and>
    map credit_funds (credits db2) = map credit_funds (credits db)"
  using assms by (rule reserve_then_release)

theorem reserve_release_roundtrip_witness:
  "\<exists>db1 db2. Reserve (\<lambda>_. False) 0 60 ''a2'' demo_reserve demo_db = (Inr \<lparr>ro_auth = ''a2'', ro_expires_at = 60\<rparr>, db1) \<and>
     Release (\<lambda>_. False) 9 ''a2'' ''u2'' db1 = (Inr (), db2) \<and>
     map wallet_funds (wallets db2) = [(''w1'', ''acc'', 10000, 3000)]"
proof -
  have "fst (Reserve (\<lambda>_. False) 0 60 ''a2'' demo_reserve demo_db) = Inr \<lparr>ro_auth = ''a2'', ro_expires_at = 60\<rparr>"
    by code_simp
  then obtain db1 where r: "Reserve (\<lambda>_. False) 0 60 ''a2'' demo_reserve demo_db =
      (Inr \<lparr>ro_auth = ''a2'', ro_expires_at = 60\<rparr>, db1)" by (metis prod.collapse)
  have "0 \<le> ri_estimated demo_reserve" "ri_usage demo_reserve = ''u2''" by (simp_all add: demo_reserve_def)
  moreover have "map wallet_funds (wallets demo_db) = [(''w1'', ''acc'', 10000, 3000)]"
    by (simp add: demo_defs wallet_funds_def)
  ultimately show ?thesis using reserve_release_roundtrip [OF demo_inv _ r, of 9] r by auto
qed

subsection \<open>Settling\<close>

text \<open>
  C2: settling an active authorization always succeeds and does exactly this: the authorization is
  committed, the capped cost \<open>min actual estimated\<close> is paid from the wallet (or kept as exposure and
  added to the cycle of the credit account), the whole reservation is given back, and the ledger
  records the debit and the unused rest.
\<close>

theorem settle_exact:
  assumes "billing_inv db" and "a \<in> set (auths db)" and "au_status a = AuthStatusActive"
    and "settle_input_ok inp a"
  shows "\<exists>db2. Settle (\<lambda>_. False) policy now inp db = (Inr (), db2) \<and> settles now inp a db db2 \<and> billing_inv db2"
  using Settle_active [OF assms] settles_inv [OF _ assms] by blast

theorem settle_exact_witness:
  "\<exists>db2. Settle (\<lambda>_. False) PolicyWriteOff 7 demo_settle demo_db = (Inr (), db2) \<and>
     settles 7 demo_settle demo_auth demo_db db2 \<and> map w_balance (wallets db2) = [9000] \<and>
     map w_reserved (wallets db2) = [0]"
proof -
  have "map w_balance (wallets (snd (Settle (\<lambda>_. False) PolicyWriteOff 7 demo_settle demo_db))) = [9000] \<and>
      map w_reserved (wallets (snd (Settle (\<lambda>_. False) PolicyWriteOff 7 demo_settle demo_db))) = [0]"
    by code_simp
  with settle_exact [OF demo_inv demo_auth_mem demo_settle_ok, of PolicyWriteOff 7] show ?thesis by auto
qed

text \<open>
  Settling twice charges once: after a settlement of an active authorization a second call with
  the same input returns success and changes nothing, under either recovery policy.
\<close>

theorem settle_idempotent:
  assumes "billing_inv db" and "a \<in> set (auths db)" and "au_status a = AuthStatusActive"
    and "settle_input_ok inp a" and "Settle (\<lambda>_. False) policy now inp db = (Inr (), db2)"
  shows "Settle (\<lambda>_. False) policy' later inp db2 = (Inr (), db2)"
proof -
  have st: "settles now inp a db db2" using Settle_active [OF assms(1-4), of policy now] assms(5) by auto
  note au = settles_auths(1) [OF st]
  let ?a' = "commit_row now (round8 (si_actual inp)) a"
  have id: "si_auth inp = au_id a" "si_type inp = au_type a" using assms(4) by (simp_all add: settle_input_ok_def)
  have "au_id ?a' = au_id a" "au_status ?a' = AuthStatusCommitted" by (simp_all add: commit_row_def)
  moreover have dist: "distinct (map au_id (auths db))" using assms(1) by (simp add: billing_inv_def keys_ok_def)
  ultimately have only: "\<forall>b\<in>set (auths db2). au_id b = si_auth inp \<longrightarrow> b = ?a'"
    unfolding au id using put_row_keyD [OF dist, of _ ?a'] by metis
  have "select1 (\<lambda>b. au_id b = si_auth inp) (auths db2) = Inr ?a'"
    using find_key_put_row [of au_id "si_auth inp" ?a' "auths db"] assms(2)
    by (simp add: au id select1_eq_Inr commit_row_def)
  moreover have "si_type inp \<in> {AccountTypePrepaid, AccountTypePostpaid}"
    using billing_inv_authD [OF assms(1,2)] assms(3) id by (auto simp: backed_def split: account_type.splits)
  moreover have "\<forall>b\<in>set (auths db2). \<not> (au_id b = si_auth inp \<and> au_status b = AuthStatusActive)"
    using only by (auto simp: commit_row_def)
  ultimately show ?thesis
    using Settle_inactive [of db2 inp "\<lambda>_. False" policy' later]
    by (simp add: handleExpiryRecovery_def commit_row_def)
qed

theorem settle_idempotent_witness:
  "\<exists>db2. Settle (\<lambda>_. False) PolicyBestEffort 7 demo_settle demo_db = (Inr (), db2) \<and>
     Settle (\<lambda>_. False) PolicyBestEffort 8 demo_settle db2 = (Inr (), db2)"
proof -
  obtain db2 where s: "Settle (\<lambda>_. False) PolicyBestEffort 7 demo_settle demo_db = (Inr (), db2)"
    using Settle_active [OF demo_inv demo_auth_mem demo_settle_ok] by blast
  from settle_idempotent [OF demo_inv demo_auth_mem demo_settle_ok s] s show ?thesis by blast
qed

text \<open>
  The row keeps the uncapped cost. When the provider reports more than was reserved, the wallet
  pays the estimate, but \<open>actual_cost\<close> of the authorization is the full amount, although the column
  is documented as capped at \<open>estimated_cost\<close>.
\<close>

theorem settle_records_uncapped_cost:
  assumes "billing_inv db" and "a \<in> set (auths db)" and "au_status a = AuthStatusActive"
    and "settle_input_ok inp a" and "au_estimated a < round8 (si_actual inp)"
    and "Settle (\<lambda>_. False) policy now inp db = (Inr (), db2)"
  shows "\<exists>b\<in>set (auths db2). au_id b = si_auth inp \<and> au_status b = AuthStatusCommitted \<and>
    au_actual b = Some (round8 (si_actual inp)) \<and> au_estimated b < round8 (si_actual inp)"
proof -
  have st: "settles now inp a db db2" using Settle_active [OF assms(1-4), of policy now] assms(6) by auto
  let ?a' = "commit_row now (round8 (si_actual inp)) a"
  have "?a' \<in> set (auths db2)"
    unfolding settles_auths(1) [OF st] by (rule put_row_in_set) (use assms(2) in \<open>simp add: commit_row_def\<close>)
  then show ?thesis
    using assms(4,5) by (intro bexI [of _ ?a']) (simp_all add: commit_row_def settle_input_ok_def)
qed

theorem settle_records_uncapped_cost_witness:
  "\<exists>b\<in>set (auths (snd (Settle (\<lambda>_. False) PolicyWriteOff 7 (demo_settle\<lparr>si_actual := 4000\<rparr>) demo_db))).
     au_actual b = Some 4000 \<and> au_estimated b < 4000"
proof -
  let ?i = "demo_settle\<lparr>si_actual := 4000\<rparr>"
  have ok: "settle_input_ok ?i demo_auth"
    by (simp add: settle_input_ok_def demo_settle_def demo_auth_def fits_def on_grid_def round8_def)
  have r: "round8 4000 = 4000" by (simp add: round8_def)
  obtain db2 where s: "Settle (\<lambda>_. False) PolicyWriteOff 7 ?i demo_db = (Inr (), db2)"
    using Settle_active [OF demo_inv demo_auth_mem ok] by blast
  have "au_estimated demo_auth < round8 (si_actual ?i)" by (simp add: r demo_auth_def)
  from settle_records_uncapped_cost [OF demo_inv demo_auth_mem ok this s] s r show ?thesis by auto
qed

lemma unplannedDebit_eq:
  assumes inv: "billing_inv db" and ty: "si_type inp = AccountTypePrepaid"
    and w: "w \<in> set (wallets db)" "w_account w = si_account inp"
    and c: "0 \<le> si_actual inp" "on_grid (si_actual inp)" "si_actual inp \<le> w_balance w - w_reserved w"
    and u: "si_usage inp \<in> iu_id ` set (usages db)"
  shows "\<exists>db2. unplannedDebit (\<lambda>_. False) inp db = (Inr (), db2) \<and>
    wallets db2 = put_row w_id (w\<lparr>w_balance := w_balance w - si_actual inp, w_version := w_version w + 1\<rparr>) (wallets db) \<and>
    map iu_id (usages db2) = map iu_id (usages db)"
proof -
  have row: "wallet_check w" "fits (w_balance w)" "fits (w_reserved w)"
    using inv_wallet_rowD [OF inv w(1)] by blast+
  have dist: "distinct (map w_id (wallets db))" "distinct (map w_account (wallets db))"
    using inv by (simp_all add: billing_inv_def keys_ok_def)
  note ok = wallet_pay_ok [OF row c(1,3)]
  have grid: "round8 (w_balance w - si_actual inp) = w_balance w - si_actual inp"
    using row(2) c(2) by (simp add: fits_def)
  let ?w = "w\<lparr>w_balance := w_balance w - si_actual inp, w_version := w_version w + 1\<rparr>"
  have pay: "wallet_pay (si_actual inp) w = ?w" by (simp add: wallet_pay_def grid)
  have sel: "select1 (\<lambda>w. w_account w = si_account inp) (wallets db) = Inr w"
    using find_key_distinct [OF dist(2) w(1)] w(2) by (simp add: select1_eq_Inr)
  have 1: "update_wallet (w_id w) (\<lambda>x. w_balance x - si_actual inp) w_reserved db = Inr (set_wallet ?w db)"
  proof -
    have "numeric_16_8 (w_balance w - si_actual inp) = Inr (w_balance w - si_actual inp)"
      using numeric_fits [OF ok(2)] grid by simp
    moreover have "wallet_check ?w" using ok(1) by (simp only: pay)
    ultimately show ?thesis
      unfolding update_wallet_key [OF dist(1) w(1)] by (simp add: numeric_fits [OF row(3)] Let_def)
  qed
  let ?e = "\<lparr>wl_wallet = w_id w, wl_type = LedgerUnplannedDebit, wl_amount = si_actual inp,
     wl_usage = Some (si_usage inp), wl_auth = None, wl_description = ''late settlement after auth expiry''\<rparr>"
  have fc: "fits (round8 (si_actual inp))"
    by (rule fits_round8_le [OF c(1) _ row(2)]) (use c(3) fits_nonneg [OF row(3)] in simp)
  let ?d2 = "(set_wallet ?w db)\<lparr>wallet_ledger := wallet_ledger db @ [?e\<lparr>wl_amount := round8 (si_actual inp)\<rparr>]\<rparr>"
  have 2: "insert_wallet_ledger ?e (set_wallet ?w db) = Inr ?d2"
  proof -
    have "w_id w \<in> w_id ` set (put_row w_id ?w (wallets db))" by (rule wallet_row_kept [OF w(1)]) simp
    then show ?thesis
      using insert_wallet_ledger_ok [of ?e "set_wallet ?w db"] fc
      by (simp add: wallet_entry_conflict_def list_ex_iff)
  qed
  let ?us = "committed_usages (si_usage inp) (si_actual inp) db"
  have 3: "mark_committed (si_usage inp) (si_actual inp) ?d2 = Inr (?d2\<lparr>usages := ?us\<rparr>)"
    using mark_committed_eq [of ?d2 "si_actual inp" "si_usage inp"] inv_usage_checks [OF inv] fc
    by (simp add: committed_usages_def)
  have "iu_id ` set ?us = iu_id ` set (usages db)"
    using committed_usages_props(1) [of "si_usage inp" "si_actual inp" db] by (metis set_map)
  then have ius: "iu_id ` set (usages (?d2\<lparr>usages := ?us\<rparr>)) = iu_id ` set (usages db)" by simp
  have refs0: "ledger_refs_ok db" using inv by (simp add: billing_inv_def)
  have refs: "ledger_refs_ok (?d2\<lparr>usages := ?us\<rparr>)"
    by (rule ledger_refs_ok_extend [OF refs0, of _ "[?e\<lparr>wl_amount := round8 (si_actual inp)\<rparr>]" "[]"])
       (use u ius in simp_all)
  have "unplannedDebit (\<lambda>_. False) inp db = (Inr (), ?d2\<lparr>usages := ?us\<rparr>)"
    using ty sel c(3) 1 2 3 refs by (simp add: unplannedDebit_def commit_def Let_def)
  moreover have "wallets (?d2\<lparr>usages := ?us\<rparr>) = put_row w_id ?w (wallets db)" by simp
  moreover have "map iu_id (usages (?d2\<lparr>usages := ?us\<rparr>)) = map iu_id (usages db)"
    using committed_usages_props(1) [of "si_usage inp" "si_actual inp" db] by simp
  ultimately show ?thesis by blast
qed

text \<open>
  Late settlement is not idempotent. When the authorization expired or was released before the
  settlement and the policy is best-effort, each call debits the wallet again: two calls with the
  same input take the cost twice, as no unique index covers \<open>unplanned_debit\<close> entries.
\<close>

theorem late_settle_charges_twice:
  assumes inv: "billing_inv db" and a: "a \<in> set (auths db)" "au_id a = si_auth inp"
      "au_status a \<in> {AuthStatusExpired, AuthStatusReleased}" "si_type inp = AccountTypePrepaid"
      "settle_input_ok inp a"
    and w: "w \<in> set (wallets db)" "w_account w = si_account inp"
    and c: "on_grid (si_actual inp)" "2 * si_actual inp \<le> w_balance w - w_reserved w"
  shows "\<exists>db1 db2. Settle (\<lambda>_. False) PolicyBestEffort now inp db = (Inr (), db1) \<and>
    Settle (\<lambda>_. False) PolicyBestEffort later inp db1 = (Inr (), db2) \<and>
    (\<exists>w2\<in>set (wallets db2). w_id w2 = w_id w \<and> w_balance w2 = w_balance w - 2 * si_actual inp)"
proof -
  have c0: "0 \<le> si_actual inp" using a(5) by (simp add: settle_input_ok_def)
  have dist: "distinct (map au_id (auths db))" using inv by (simp add: billing_inv_def keys_ok_def)
  have only: "\<forall>b\<in>set (auths db). au_id b = si_auth inp \<longrightarrow> b = a"
    using distinct_key_unique [OF dist _ a(1)] a(2) by simp
  then have own: "\<forall>b\<in>set (auths db). au_id b = si_auth inp \<longrightarrow> settle_input_ok inp b" using a(5) by blast
  have rec: "Settle (\<lambda>_. False) PolicyBestEffort t inp d = unplannedDebit (\<lambda>_. False) inp d"
    if "auths d = auths db" for d t
  proof -
    have "select1 (\<lambda>b. au_id b = si_auth inp) (auths d) = Inr a"
      using find_key_distinct [OF dist a(1)] a(2) that by (simp add: select1_eq_Inr)
    moreover have "\<forall>b\<in>set (auths d). \<not> (au_id b = si_auth inp \<and> au_status b = AuthStatusActive)"
      using only a(3) that by auto
    ultimately show ?thesis
      using Settle_inactive [of d inp "\<lambda>_. False" PolicyBestEffort t] a(3,4)
      by (auto simp: handleExpiryRecovery_def)
  qed
  have u: "si_usage inp \<in> iu_id ` set (usages db)"
    using billing_inv_authD [OF inv a(1)] a(5) by (simp add: settle_input_ok_def)
  let ?w1 = "w\<lparr>w_balance := w_balance w - si_actual inp, w_version := w_version w + 1\<rparr>"
  let ?w2 = "?w1\<lparr>w_balance := w_balance ?w1 - si_actual inp, w_version := w_version ?w1 + 1\<rparr>"
  have le: "si_actual inp \<le> w_balance w - w_reserved w" "si_actual inp \<le> w_balance ?w1 - w_reserved ?w1"
    "w_account ?w1 = si_account inp"
    using c0 c(2) w(2) by simp_all
  obtain db1 where 1: "unplannedDebit (\<lambda>_. False) inp db = (Inr (), db1)"
      "wallets db1 = put_row w_id ?w1 (wallets db)" "map iu_id (usages db1) = map iu_id (usages db)"
    using unplannedDebit_eq [OF inv a(4) w c0 c(1) le(1) u] by blast
  have au1: "auths db1 = auths db" using unplannedDebit_auths [of "\<lambda>_. False" inp db] 1(1) by simp
  have inv1: "billing_inv db1" using Settle_inv [OF inv own, of "\<lambda>_. False" PolicyBestEffort now] rec [of db now] 1(1) by simp
  have w1: "?w1 \<in> set (wallets db1)" unfolding 1(2) by (rule put_row_in_set) (use w(1) in simp)
  have u1: "si_usage inp \<in> iu_id ` set (usages db1)" using u 1(3) by (metis set_map)
  obtain db2 where 2: "unplannedDebit (\<lambda>_. False) inp db1 = (Inr (), db2)"
      "wallets db2 = put_row w_id ?w2 (wallets db1)"
    using unplannedDebit_eq [OF inv1 a(4) w1 le(3) c0 c(1) le(2) u1] by blast
  have "w_id w \<in> set (map w_id (wallets db1))" using imageI [OF w1, of w_id] by simp
  then have "?w2 \<in> set (wallets db2)" unfolding 2(2) by (intro put_row_in_set) simp
  moreover have "w_id ?w2 = w_id w \<and> w_balance ?w2 = w_balance w - 2 * si_actual inp" by simp
  ultimately have "\<exists>w2\<in>set (wallets db2). w_id w2 = w_id w \<and> w_balance w2 = w_balance w - 2 * si_actual inp"
    by blast
  moreover have "Settle (\<lambda>_. False) PolicyBestEffort now inp db = (Inr (), db1)" using rec [of db now] 1(1) by simp
  moreover have "Settle (\<lambda>_. False) PolicyBestEffort later inp db1 = (Inr (), db2)"
    using rec [OF au1, of later] 2(1) by simp
  ultimately show ?thesis by blast
qed

definition expired_demo :: billing_db where
  "expired_demo = snd (expireOne (\<lambda>_. False) 9 ''a1'' ''u1'' ''acc'' AccountTypePrepaid demo_db)"

theorem late_settle_charges_twice_witness:
  "\<exists>db1 db2. Settle (\<lambda>_. False) PolicyBestEffort 10 demo_settle expired_demo = (Inr (), db1) \<and>
     Settle (\<lambda>_. False) PolicyBestEffort 11 demo_settle db1 = (Inr (), db2) \<and>
     (\<exists>w2\<in>set (wallets db2). w_id w2 = ''w1'' \<and> w_balance w2 = 8000)"
proof -
  let ?a = "expire_row 9 demo_auth" and ?w = "demo_wallet\<lparr>w_reserved := 0, w_version := 2\<rparr>"
  have "names_auth demo_db demo_auth" by (simp add: names_auth_def demo_db_def)
  from expireOne_inv [OF demo_inv this, of "\<lambda>_. False" 9]
  have inv: "billing_inv expired_demo" by (simp add: expired_demo_def demo_auth_def)
  have mem: "?a \<in> set (auths expired_demo)" "?w \<in> set (wallets expired_demo)" by code_simp+
  have ok: "settle_input_ok demo_settle ?a"
    using demo_settle_ok by (simp add: settle_input_ok_def expire_row_def)
  show ?thesis
    using late_settle_charges_twice [OF inv mem(1) _ _ _ ok mem(2), of 10 11]
    by (simp add: demo_settle_def demo_auth_def demo_wallet_def expire_row_def on_grid_def)
qed

subsection \<open>The sweeps\<close>

text \<open>
  The expiry sweep is complete. When at most 200 active authorizations are past their expiry,
  an undisturbed pass expires every one of them, counts them, leaves no active authorization past
  its expiry, and keeps the accounts balanced.
\<close>

theorem expiry_sweep_complete:
  assumes "billing_inv db"
    and "length (filter (\<lambda>a. au_status a = AuthStatusActive \<and> au_expires_at a < now) (auths db)) \<le> 200"
  shows "\<exists>db2. ExpirySweep_Run False (\<lambda>_ _. False) (\<lambda>_. True) now db =
      (Inr \<lparr>processed = length (filter (\<lambda>a. au_status a = AuthStatusActive \<and> au_expires_at a < now) (auths db)),
            skipped = 0, errCount = 0\<rparr>, db2) \<and> billing_inv db2 \<and>
      (\<forall>a\<in>set (auths db2). au_status a = AuthStatusActive \<longrightarrow> now \<le> au_expires_at a)"
proof -
  let ?as = "expired_auths now db"
  have act: "\<forall>a\<in>set ?as. au_status a = AuthStatusActive" using expired_auths_props(2) by blast
  obtain db2 where l: "expiry_loop (\<lambda>_ _. False) (\<lambda>_. True) now ?as \<lparr>processed = 0, skipped = 0, errCount = 0\<rparr> db =
      (\<lparr>processed = 0, skipped = 0, errCount = 0\<rparr>\<lparr>processed := processed \<lparr>processed = 0, skipped = 0, errCount = 0\<rparr> + length ?as\<rparr>, db2)"
      "billing_inv db2" "sweep_done now ?as db db2"
    using expiry_loop_done [OF assms(1) expired_auths_props(1) [OF assms(1)] act expired_auths_props(3) [OF assms(1)]]
    by blast
  have len: "length ?as = length (filter (\<lambda>a. au_status a = AuthStatusActive \<and> au_expires_at a < now) (auths db))"
    using assms(2) by (simp add: expired_auths_def)
  have "now \<le> au_expires_at a" if "a \<in> set (auths db2)" "au_status a = AuthStatusActive" for a
  proof (rule ccontr)
    assume late: "\<not> now \<le> au_expires_at a"
    from that(1) obtain b where b: "b \<in> set (auths db)" "a = (if au_id b \<in> au_id ` set ?as then expire_row now b else b)"
      using l(3) by (auto simp: sweep_done_def)
    with that(2) have "a = b" "au_id b \<notin> au_id ` set ?as" by (auto simp: expire_row_def split: if_splits)
    with b(1) that(2) late show False using expired_auths_all [OF assms(2)] by (auto simp: image_iff)
  qed
  with l(1,2) len show ?thesis by (simp add: ExpirySweep_Run_def)
qed

theorem expiry_sweep_complete_witness:
  "\<exists>db2. ExpirySweep_Run False (\<lambda>_ _. False) (\<lambda>_. True) 9 demo_db =
      (Inr \<lparr>processed = 1, skipped = 0, errCount = 0\<rparr>, db2) \<and>
      (\<forall>a\<in>set (auths db2). au_status a = AuthStatusActive \<longrightarrow> 9 \<le> au_expires_at a)"
  using expiry_sweep_complete [OF demo_inv, of 9] by (auto simp: demo_defs)

text \<open>
  C5: the pending sweep frees the funds. For an unfinished usage row with a billing account whose
  active authorization (if any) belongs to that account, an undisturbed \<open>processRow\<close> never errors,
  disputes exactly the rows without evidence, finishes the usage row, and leaves no authorization
  of it active, with the accounts still balanced.
\<close>

theorem pending_sweep_frees_funds:
  assumes "billing_inv db" and "u \<in> set (usages db)" and "iu_account u \<noteq> None" and "usage_linked db u"
    and "0 \<le> iu_input_rate u" and "0 \<le> iu_output_rate u" and "0 \<le> iu_cached_rate u"
    and "\<forall>e\<in>set (evidence_of (iu_id u) db). evidence_ok e \<and> fits (round8 (evidence_cost (stale_row_of db u) e))"
  shows "\<exists>r db'. processRow (\<lambda>_. False) policy now (stale_row_of db u) db = (r, db') \<and> r \<noteq> PendingError \<and>
    (r = Disputed \<longleftrightarrow> evidence_of (iu_id u) db = []) \<and> billing_inv db' \<and>
    (\<forall>a\<in>set (auths db'). au_usage a = iu_id u \<longrightarrow> au_status a \<noteq> AuthStatusActive) \<and>
    (\<forall>v\<in>set (usages db'). iu_id v = iu_id u \<longrightarrow> \<not> unfinished v)"
  using processRow_ok [OF assms, of policy now] unfolding no_active_def .

theorem pending_sweep_frees_funds_witness:
  "\<exists>r db'. processRow (\<lambda>_. False) PolicyWriteOff 99
       (stale_row_of demo_db (demo_usage ''u1'' ''acc'' ExecRunning BillingReserved)) demo_db = (r, db') \<and>
     r \<noteq> PendingError \<and> (\<forall>a\<in>set (auths db'). au_usage a = ''u1'' \<longrightarrow> au_status a \<noteq> AuthStatusActive)"
proof -
  let ?u = "demo_usage ''u1'' ''acc'' ExecRunning BillingReserved"
  have "?u \<in> set (usages demo_db)" "iu_account ?u \<noteq> None" "usage_linked demo_db ?u" "iu_id ?u = ''u1''"
    "0 \<le> iu_input_rate ?u" "0 \<le> iu_output_rate ?u" "0 \<le> iu_cached_rate ?u"
    "\<forall>e\<in>set (evidence_of (iu_id ?u) demo_db). evidence_ok e \<and> fits (round8 (evidence_cost (stale_row_of demo_db ?u) e))"
    by (simp_all add: demo_defs usage_linked_def stale_row_of_def evidence_of_def evidence_ok_def
        evidence_cost_def totalCost_eq fits_def on_grid_def round8_def)
  with pending_sweep_frees_funds [OF demo_inv, of ?u PolicyWriteOff 99] show ?thesis by metis
qed

lemma update_rows_fails:
  "r \<in> set rs \<Longrightarrow> p r \<Longrightarrow> f r = Inl e \<Longrightarrow> \<exists>e'. update_rows p f rs = Inl e'"
  by (induction rs) (auto simp: bindE_def split: sum.splits)

text \<open>
  A usage row without a billing account gets stuck. When its best evidence has output tokens,
  the sweep writes \<open>is_billable = true\<close>, which the constraint \<open>chk_billable_needs_account\<close> refuses, so
  every pass reports an error and leaves the row (and the database) as it was.
\<close>

theorem pending_unaccounted_usage_stuck:
  assumes "u \<in> set (usages db)" and "unfinished u" and "iu_account u = None"
    and "best_evidence None (evidence_of (iu_id u) db) = Some best" and "0 < ic_output best"
  shows "processRow (\<lambda>_. False) policy now (stale_row_of db u) db = (PendingError, db)"
proof -
  let ?c = "evidence_cost (stale_row_of db u) best"
  have "\<exists>e. finalize_usage now (iu_id u) best ?c db = Inl e"
  proof -
    have "\<exists>e. bindE (bindE (numeric_16_8 ?c) (\<lambda>c. Inr (finalized now best c u)))
        (\<lambda>u'. bindE (fn_guard_execution_transition u u')
          (\<lambda>_. bindE (guardE SqlCheckViolation (usage_check u')) (\<lambda>_. Inr u'))) = Inl e"
      using assms(2,3,5) unfinished_not_terminal [OF assms(2)]
      by (cases "numeric_16_8 ?c")
         (simp_all add: finalized_def usage_check_def fn_guard_execution_transition_def)
    then obtain e where e: "bindE (bindE (numeric_16_8 ?c) (\<lambda>c. Inr (finalized now best c u)))
        (\<lambda>u'. bindE (fn_guard_execution_transition u u')
          (\<lambda>_. bindE (guardE SqlCheckViolation (usage_check u')) (\<lambda>_. Inr u'))) = Inl e" by blast
    have "\<exists>e. update_rows (\<lambda>v. iu_id v = iu_id u \<and> unfinished v)
        (\<lambda>v. bindE (bindE (numeric_16_8 ?c) (\<lambda>c. Inr (finalized now best c v)))
          (\<lambda>u'. bindE (fn_guard_execution_transition v u')
            (\<lambda>_. bindE (guardE SqlCheckViolation (usage_check u')) (\<lambda>_. Inr u')))) (usages db) = Inl e"
      by (rule update_rows_fails [OF assms(1)]) (use assms(2) e in simp_all)
    then show ?thesis
      unfolding finalize_usage_def update_usage_def finalized_def by auto
  qed
  then show ?thesis
    using assms(4,5) by (auto simp: processRow_def evidence_of_def stale_row_of_def Let_def)
qed

definition orphan_db :: billing_db where
  "orphan_db = demo_db\<lparr>usages := [(demo_usage ''u1'' ''acc'' ExecRunning BillingNotApplicable)\<lparr>iu_account := None\<rparr>]\<rparr>"

theorem pending_unaccounted_usage_stuck_witness:
  "processRow (\<lambda>_. False) PolicyWriteOff 99 (stale_row_of orphan_db (hd (usages orphan_db))) orphan_db =
     (PendingError, orphan_db)"
  by (rule pending_unaccounted_usage_stuck [where best = "hd (completions demo_db)"])
     (simp_all add: orphan_db_def demo_defs unfinished_def evidence_of_def)


text \<open>What a repair writes: the balance of the ledger under the lock, the \<open>reserved\<close> sum read before it.\<close>

lemma reconcile_writes:
  fixes db0 db w
  defines "bal0 \<equiv> ledger_balance (w_id w) db0" and "res \<equiv> reserved_sum (w_account w) db0"
    and "bal \<equiv> ledger_balance (w_id w) db"
  assumes keys: "keys_ok db" and refs: "ledger_refs_ok db"
    and drift: "\<not> (\<bar>bal0 - w_balance w\<bar> < driftAlertThreshold \<and> \<bar>res - w_reserved w\<bar> < driftAlertThreshold)"
    and v: "v \<in> set (wallets db)" "w_id v = w_id w" "fits (round8 \<bar>bal - w_balance v\<bar>)"
    and ok: "fits bal" "fits res" "res \<le> bal"
  shows "\<exists>db'. reconcileWallet (\<lambda>_. False) db0 w db = (Inr (), db') \<and> auths db' = auths db \<and>
    wallets db' = put_row w_id (v\<lparr>w_balance := bal, w_reserved := res, w_version := w_version v + 1\<rparr>) (wallets db) \<and>
    ledger_balance (w_id w) db' = bal"
proof -
  let ?v' = "v\<lparr>w_balance := bal, w_reserved := res, w_version := w_version v + 1\<rparr>"
  let ?e = "\<lparr>wl_wallet = w_id w, wl_type = LedgerAdjustment, wl_amount = \<bar>bal - w_balance v\<bar>,
             wl_usage = None, wl_auth = None, wl_description = ''reconciliation correction''\<rparr>"
  let ?big = "driftAlertThreshold \<le> \<bar>bal - w_balance v\<bar>"
  let ?es = "if ?big then [?e\<lparr>wl_amount := round8 \<bar>bal - w_balance v\<bar>\<rparr>] else []"
  let ?d1 = "db\<lparr>wallet_ledger := wallet_ledger db @ ?es\<rparr>"
  have dist: "distinct (map w_id (wallets ?d1))" "v \<in> set (wallets ?d1)"
    using keys v(1) by (simp_all add: keys_ok_def)
  have sel: "select1 (\<lambda>x. w_id x = w_id w) (wallets db) = Inr v"
    using find_key_distinct [of w_id "wallets db" v] keys v by (simp add: select1_eq_Inr keys_ok_def)
  have 1: "insert_wallet_ledger ?e db = Inr ?d1" if "?big"
    using that insert_wallet_ledger_ok [of ?e db] v imageI [OF v(1), of w_id]
    by (simp add: wallet_entry_conflict_def list_ex_iff)
  have chk: "wallet_check ?v'" using ok by (simp add: wallet_check_def fits_def)
  have 2: "update_wallet (w_id v) (\<lambda>_. bal) (\<lambda>_. res) ?d1 = Inr (set_wallet ?v' ?d1)"
    unfolding update_wallet_key [OF dist] using ok chk by (simp add: numeric_fits Let_def)
  have "ledger_refs_ok (set_wallet ?v' ?d1)"
    by (rule ledger_refs_ok_extend [OF refs, of _ ?es "[]"]) auto
  then have "reconcileWallet (\<lambda>_. False) db0 w db = (Inr (), set_wallet ?v' ?d1)"
    using drift sel 1 2 v(2) unfolding reconcileWallet_def bal0_def res_def bal_def
    by (cases "driftAlertThreshold \<le> \<bar>ledger_balance (w_id w) db - w_balance v\<bar>") (auto simp: Let_def commit_def)
  moreover have "ledger_balance (w_id w) (set_wallet ?v' ?d1) = bal"
    by (simp add: ledger_balance_def bal_def)
  ultimately show ?thesis by (intro exI [of _ "set_wallet ?v' ?d1"]) simp
qed

text \<open>The decimals count steps of 1e-10, so one millionth is 10000.\<close>

definition drifted :: "decimal \<Rightarrow> decimal \<Rightarrow> bool" where
  "drifted correct current \<longleftrightarrow> \<bar>correct - current\<bar> \<ge> 10000"

definition corrected :: "decimal \<Rightarrow> decimal \<Rightarrow> wallet \<Rightarrow> wallet" where
  "corrected bal res v = v\<lparr>w_balance := round8 bal, w_reserved := round8 res, w_version := w_version v + 1\<rparr>"

definition correction :: "decimal \<Rightarrow> wallet \<Rightarrow> wallet_entry list" where
  "correction bal v = (if drifted bal (w_balance v)
     then [\<lparr>wl_wallet = w_id v, wl_type = LedgerAdjustment, wl_amount = round8 \<bar>bal - w_balance v\<bar>,
            wl_usage = None, wl_auth = None, wl_description = ''reconciliation correction''\<rparr>] else [])"

lemma insert_correction:
  assumes "insert_wallet_ledger \<lparr>wl_wallet = w_id v, wl_type = LedgerAdjustment, wl_amount = \<bar>bal - w_balance v\<bar>,
      wl_usage = None, wl_auth = None, wl_description = ''reconciliation correction''\<rparr> db = Inr db1"
    and "drifted bal (w_balance v)"
  shows "db1 = db\<lparr>wallet_ledger := wallet_ledger db @ correction bal v\<rparr>"
  using assms by (auto simp: insert_wallet_ledger_def bindE_def guardE_def numeric_16_8_def correction_def Let_def split: if_splits)

lemma update_corrected:
  assumes "update_wallet (w_id v) (\<lambda>_. bal) (\<lambda>_. res) db1 = Inr db2" and "distinct (map w_id (wallets db1))" "v \<in> set (wallets db1)"
  shows "db2 = db1\<lparr>wallets := put_row w_id (corrected bal res v) (wallets db1)\<rparr>"
  using assms(1) unfolding update_wallet_key [OF assms(2,3)]
  by (auto simp: bindE_def guardE_def numeric_16_8_def set_wallet_def corrected_def Let_def split: if_splits)

lemma reconcile_cases:
  assumes keys: "keys_ok db" and v: "v \<in> set (wallets db)" "w_id w = w_id v"
    and run: "reconcileWallet flt db0 w db = (r, db')"
  obtains e where "r = Inl e" "db' = db"
  | "r = Inr ()" "\<not> drifted (ledger_balance (w_id w) db0) (w_balance w)" "\<not> drifted (reserved_sum (w_account w) db0) (w_reserved w)"
    "db' = db"
  | "r = Inr ()" "drifted (ledger_balance (w_id w) db0) (w_balance w) \<or> drifted (reserved_sum (w_account w) db0) (w_reserved w)"
    "db' = db\<lparr>wallet_ledger := wallet_ledger db @ correction (ledger_balance (w_id v) db) v,
              wallets := put_row w_id (corrected (ledger_balance (w_id v) db) (reserved_sum (w_account w) db0) v) (wallets db)\<rparr>"
proof -
  let ?bal = "ledger_balance (w_id v) db" and ?res = "reserved_sum (w_account w) db0"
  let ?small = "\<bar>ledger_balance (w_id v) db0 - w_balance w\<bar> < driftAlertThreshold \<and> \<bar>?res - w_reserved w\<bar> < driftAlertThreshold"
  have sel: "select1 (\<lambda>x. w_id x = w_id v) (wallets db) = Inr v"
    using find_key_distinct [of w_id "wallets db" v] keys v by (simp add: select1_eq_Inr keys_ok_def)
  show ?thesis
  proof (cases "\<exists>e. r = Inl e")
    case True
    then show ?thesis
      using run that(1) by (auto simp: reconcileWallet_def run_tx_def Let_def split: sum.splits if_splits)
  next
    case False
    then have r: "r = Inr ()" by (cases r) auto
    have ok: "\<not> flt ''ledger sum query''" "\<not> flt ''active reservations sum query''"
      using run r by (auto simp: reconcileWallet_def bindE_def exec_def wrap_def stmt_def split: if_splits sum.splits)
    show ?thesis
    proof (cases ?small)
      case True
      then have "db' = db" using run r ok by (simp add: reconcileWallet_def v)
      with True r that(2) show ?thesis by (simp add: drifted_def driftAlertThreshold_def v)
    next
      case big: False
      from run r ok big obtain db1 db2 where
          1: "(if drifted ?bal (w_balance v)
               then insert_wallet_ledger \<lparr>wl_wallet = w_id v, wl_type = LedgerAdjustment, wl_amount = \<bar>?bal - w_balance v\<bar>,
                 wl_usage = None, wl_auth = None, wl_description = ''reconciliation correction''\<rparr> db else Inr db) = Inr db1"
          and 2: "update_wallet (w_id v) (\<lambda>_. ?bal) (\<lambda>_. ?res) db1 = Inr db2" and 3: "db' = db2"
        unfolding drifted_def
        by (auto simp: reconcileWallet_def run_tx_def sel v driftAlertThreshold_def commit_def Let_def bindE_Inr_iff
            split: sum.splits if_splits)
      have db1: "db1 = db\<lparr>wallet_ledger := wallet_ledger db @ correction ?bal v\<rparr>"
      proof (cases "drifted ?bal (w_balance v)")
        case True
        with 1 insert_correction show ?thesis by simp
      next
        case False
        with 1 show ?thesis by (simp add: correction_def)
      qed
      have "db' = db1\<lparr>wallets := put_row w_id (corrected ?bal ?res v) (wallets db1)\<rparr>"
        unfolding 3 using 2 by (rule update_corrected) (use keys v in \<open>simp_all add: db1 keys_ok_def\<close>)
      then show ?thesis using that(3) r big by (auto simp: db1 drifted_def driftAlertThreshold_def v not_less)
    qed
  qed
qed

text \<open>
  C7: what the wallet reconciler does, whatever statements fail and whatever else ran between its unlocked reads
  (database \<open>db0\<close>) and its repair under the lock (database \<open>db\<close>). An error changes nothing. When both amounts it
  read are within a millionth of their sums it changes nothing either, so smaller drifts stay, although the comment
  on the threshold says they are corrected silently. Otherwise it changes this wallet alone: the balance becomes
  the sum of the ledger under the lock, with an adjustment entry exactly if that was a drift of a millionth or more,
  and \<open>reserved\<close> the sum of the active estimates read before the lock, so the wallet is exact afterwards when the
  authorizations did not change in between. And it does not fail when the statements succeed and the sums are
  amounts a wallet can hold.
\<close>

theorem reconcile_repairs:
  assumes "keys_ok db" and "v \<in> set (wallets db)" and "w_id w = w_id v" and "w_account w = w_account v"
    and "reconcileWallet flt db0 w db = (r, db')"
    and "bal = ledger_balance (w_id v) db" and "res = reserved_sum (w_account v) db0"
    and "seen = (drifted (ledger_balance (w_id v) db0) (w_balance w) \<or> drifted res (w_reserved w))"
  shows "(r \<noteq> Inr () \<longrightarrow> db' = db) \<and> (r = Inr () \<and> \<not> seen \<longrightarrow> db' = db) \<and>
    (r = Inr () \<and> seen \<longrightarrow>
       db' = db\<lparr>wallet_ledger := wallet_ledger db @ correction bal v,
                wallets := put_row w_id (corrected bal res v) (wallets db)\<rparr> \<and>
       (reserved_sum (w_account v) db = res \<longrightarrow> (\<forall>u\<in>set (wallets db'). w_id u = w_id v \<longrightarrow>
          w_balance u = round8 (ledger_balance (w_id u) db') \<and> w_reserved u = round8 (reserved_sum (w_account u) db')))) \<and>
    ((\<forall>l. \<not> flt l) \<and> ledger_refs_ok db \<and> fits bal \<and> fits res \<and> res \<le> bal \<and> fits (round8 \<bar>bal - w_balance v\<bar>) \<longrightarrow> r = Inr ())"
proof (intro conjI impI)
  note cases = reconcile_cases [OF assms(1-3,5), unfolded assms(3,4), folded assms(6), folded assms(7)]
  show "r \<noteq> Inr () \<Longrightarrow> db' = db" by (rule cases) simp_all
  show "r = Inr () \<and> \<not> seen \<Longrightarrow> db' = db" unfolding assms(8) by (rule cases) blast+
  assume "r = Inr () \<and> seen"
  then have fixed: "r = Inr ()" "drifted (ledger_balance (w_id v) db0) (w_balance w) \<or> drifted res (w_reserved w)"
    using assms(8) by blast+
  show upd: "db' = db\<lparr>wallet_ledger := wallet_ledger db @ correction bal v,
      wallets := put_row w_id (corrected bal res v) (wallets db)\<rparr>"
  proof (cases rule: cases)
    case 1
    with fixed(1) show ?thesis by blast
  next
    case 2
    with fixed(2) show ?thesis by blast
  qed
  assume same: "reserved_sum (w_account v) db = res"
  have "distinct (map w_id (wallets db))" using assms(1) by (simp add: keys_ok_def)
  from put_row_keyD [OF this, of _ "corrected bal res v"]
  have row: "u = corrected bal res v" if "u \<in> set (wallets db')" "w_id u = w_id v" for u
    using that upd by (simp add: corrected_def)
  have c: "w_id (corrected bal res v) = w_id v" "w_account (corrected bal res v) = w_account v"
    "w_balance (corrected bal res v) = round8 bal" "w_reserved (corrected bal res v) = round8 res"
    by (simp_all add: corrected_def)
  have "ledger_balance (w_id v) db' = bal" by (simp add: upd ledger_balance_def correction_def assms(6))
  moreover have "reserved_sum (w_account v) db' = res" using same by (simp add: upd reserved_sum_def)
  ultimately have "w_balance u = round8 (ledger_balance (w_id u) db') \<and> w_reserved u = round8 (reserved_sum (w_account u) db')"
    if "u \<in> set (wallets db')" "w_id u = w_id v" for u
    unfolding row [OF that] c by (intro conjI) simp_all
  then show "\<forall>u\<in>set (wallets db'). w_id u = w_id v \<longrightarrow>
      w_balance u = round8 (ledger_balance (w_id u) db') \<and> w_reserved u = round8 (reserved_sum (w_account u) db')" by blast
next
  assume ok: "(\<forall>l. \<not> flt l) \<and> ledger_refs_ok db \<and> fits bal \<and> fits res \<and> res \<le> bal \<and> fits (round8 \<bar>bal - w_balance v\<bar>)"
  then have f: "flt = (\<lambda>_. False)" by auto
  show "r = Inr ()"
  proof (cases "\<bar>ledger_balance (w_id w) db0 - w_balance w\<bar> < driftAlertThreshold \<and>
      \<bar>reserved_sum (w_account w) db0 - w_reserved w\<bar> < driftAlertThreshold")
    case True
    then show ?thesis using assms(5) by (simp add: f reconcileWallet_def)
  next
    case False
    from reconcile_writes [where ?db0.0 = db0, OF assms(1) _ False assms(2) assms(3) [symmetric]] ok assms(3-5) show ?thesis
      by (simp add: f assms(6,7))
  qed
qed

definition drifted_db :: billing_db where
  "drifted_db = demo_db\<lparr>wallets := [demo_wallet\<lparr>w_balance := 50000, w_reserved := 0\<rparr>]\<rparr>"

theorem reconcile_repairs_witness:
  "fst (reconcileWallet (\<lambda>_. False) drifted_db (hd (wallets drifted_db)) drifted_db) = Inr () \<and>
   wallets (snd (reconcileWallet (\<lambda>_. False) drifted_db (hd (wallets drifted_db)) drifted_db)) =
     [corrected (ledger_balance ''w1'' drifted_db) (reserved_sum ''acc'' drifted_db) (hd (wallets drifted_db))]"
proof -
  let ?w = "hd (wallets drifted_db)"
  have "keys_ok drifted_db" "?w \<in> set (wallets drifted_db)" by (simp_all add: drifted_db_def demo_defs keys_ok_def)
  note main = reconcile_repairs [OF this refl refl prod.collapse [symmetric] refl refl refl, of "\<lambda>_. False" drifted_db]
  have n: "w_id ?w = ''w1''" "w_account ?w = ''acc''" "wallets drifted_db = [?w]" by (simp_all add: drifted_db_def demo_defs)
  have a: "ledger_refs_ok drifted_db" "drifted (ledger_balance ''w1'' drifted_db) (w_balance ?w)"
      "fits (ledger_balance ''w1'' drifted_db)" "fits (reserved_sum ''acc'' drifted_db)"
      "reserved_sum ''acc'' drifted_db \<le> ledger_balance ''w1'' drifted_db"
      "fits (round8 \<bar>ledger_balance ''w1'' drifted_db - w_balance ?w\<bar>)"
    by (simp_all add: drifted_db_def demo_defs ledger_refs_ok_def ledger_balance_def reserved_sum_def drifted_def
        fits_def on_grid_def round8_def)
  have r: "fst (reconcileWallet (\<lambda>_. False) drifted_db ?w drifted_db) = Inr ()"
    using main [unfolded n(1,2), THEN conjunct2, THEN conjunct2, THEN conjunct2] a by blast
  have "snd (reconcileWallet (\<lambda>_. False) drifted_db ?w drifted_db) = (drifted_db\<lparr>wallet_ledger := wallet_ledger drifted_db @ correction (ledger_balance ''w1'' drifted_db) ?w,
        wallets := put_row w_id (corrected (ledger_balance ''w1'' drifted_db) (reserved_sum ''acc'' drifted_db) ?w) (wallets drifted_db)\<rparr>)"
    using main [unfolded n(1,2), THEN conjunct2, THEN conjunct2, THEN conjunct1] a(2) r by blast
  then have "wallets (snd (reconcileWallet (\<lambda>_. False) drifted_db ?w drifted_db)) = put_row w_id (corrected (ledger_balance ''w1'' drifted_db) (reserved_sum ''acc'' drifted_db) ?w) [?w]"
    by (simp add: n(3) [symmetric])
  also have "\<dots> = [corrected (ledger_balance ''w1'' drifted_db) (reserved_sum ''acc'' drifted_db) ?w]"
    by (simp add: put_row_def corrected_def)
  finally show ?thesis using r by blast
qed

text \<open>
  The \<open>reserved\<close> amount is repaired from a stale read. When the authorizations changed between the
  unlocked read (\<open>db0\<close>) and the locked repair (\<open>db\<close>), the wallet ends with a \<open>reserved\<close> that is not the
  sum of the active authorizations, although the comment says the values are re-computed under lock.
\<close>

theorem reconcile_stale_reserved:
  assumes "keys_ok db" and "ledger_refs_ok db" and "w \<in> set (wallets db)"
    and "\<not> (\<bar>ledger_balance (w_id w) db0 - w_balance w\<bar> < driftAlertThreshold \<and>
             \<bar>reserved_sum (w_account w) db0 - w_reserved w\<bar> < driftAlertThreshold)"
    and "fits (round8 \<bar>ledger_balance (w_id w) db - w_balance w\<bar>)"
    and "fits (ledger_balance (w_id w) db)" and "fits (reserved_sum (w_account w) db0)"
    and "reserved_sum (w_account w) db0 \<le> ledger_balance (w_id w) db"
    and "reserved_sum (w_account w) db0 \<noteq> reserved_sum (w_account w) db"
  shows "\<exists>db'. reconcileWallet (\<lambda>_. False) db0 w db = (Inr (), db') \<and>
    (\<exists>v\<in>set (wallets db'). w_id v = w_id w \<and> w_reserved v \<noteq> reserved_sum (w_account v) db')"
proof -
  let ?v = "w\<lparr>w_balance := ledger_balance (w_id w) db, w_reserved := reserved_sum (w_account w) db0,
            w_version := w_version w + 1\<rparr>"
  obtain db' where d: "reconcileWallet (\<lambda>_. False) db0 w db = (Inr (), db')" "auths db' = auths db"
      "wallets db' = put_row w_id ?v (wallets db)"
    using reconcile_writes [OF assms(1,2,4,3) refl assms(5-8)] by blast
  have "?v \<in> set (wallets db')"
    unfolding d(3) by (rule put_row_in_set) (use assms(3) in simp)
  with d(1,2) assms(9) show ?thesis by (intro exI [of _ db'] conjI bexI [of _ ?v]) (simp_all add: reserved_sum_def)
qed

theorem reconcile_stale_reserved_witness:
  "\<exists>db'. reconcileWallet (\<lambda>_. False) (drifted_db\<lparr>auths := []\<rparr>) (hd (wallets drifted_db)) drifted_db = (Inr (), db') \<and>
    (\<exists>v\<in>set (wallets db'). w_id v = ''w1'' \<and> w_reserved v \<noteq> reserved_sum (w_account v) db')"
  using reconcile_stale_reserved [of drifted_db "hd (wallets drifted_db)" "drifted_db\<lparr>auths := []\<rparr>"]
  by (simp add: drifted_db_def demo_defs keys_ok_def ledger_refs_ok_def ledger_balance_def reserved_sum_def
      driftAlertThreshold_def fits_def on_grid_def round8_def)

end
