(* ===== verification/Endpoint_Pool.thy ===== *)
theory Endpoint_Pool
  imports Nexus_Prelude "HOL-Library.Word"
begin

text \<open>
  \<open>internal/runtime/pool.go\<close>: the endpoints of a model and the four routing strategies. The
  round-robin cursor is the source's \<open>atomic.Int64\<close>, a 64-bit word that wraps; an index that would
  panic in Go is the error \<open>IndexPanic\<close>. \<open>rand.Intn(total)\<close> is an argument of the operation, a number
  below \<open>total\<close>.
\<close>

subsection \<open>Data\<close>

datatype HealthStatus = StatusHealthy | StatusDegraded | StatusDown | StatusUnknown | StatusDraining

datatype RoutingStrategy =
  StrategyRoundRobin | StrategyWeighted | StrategyActivePassive | StrategyLeastConn | StrategyOther string

record Endpoint =
  ep_id :: id
  ep_model :: id
  ep_url :: string
  ep_weight :: int
  ep_priority :: int
  ep_status :: HealthStatus
  ep_conns :: int
  ep_last_success :: int

record Pool =
  ModelID :: id
  Strategy :: RoutingStrategy
  endpoints :: "Endpoint list"
  rrIdx :: "64 word"

datatype pool_error = NoHealthyEndpoints id | AllEndpointsDown id | IndexPanic | IntnPanic

definition IsAvailable :: "Endpoint \<Rightarrow> bool" where
  "IsAvailable e \<longleftrightarrow> ep_status e = StatusHealthy \<or> ep_status e = StatusDegraded"

definition SetStatus :: "int \<Rightarrow> HealthStatus \<Rightarrow> Endpoint \<Rightarrow> Endpoint" where
  "SetStatus now s e =
     (let e' = e\<lparr>ep_status := s\<rparr> in if s = StatusHealthy then e'\<lparr>ep_last_success := now\<rparr> else e')"

definition NewPool :: "id \<Rightarrow> RoutingStrategy \<Rightarrow> Pool" where
  "NewPool modelID strategy = \<lparr>ModelID = modelID, Strategy = strategy, endpoints = [], rrIdx = 0\<rparr>"

definition Add :: "Endpoint \<Rightarrow> Pool \<Rightarrow> Pool" where
  "Add ep p = p\<lparr>endpoints := endpoints p @ [ep]\<rparr>"

definition Remove :: "id \<Rightarrow> Pool \<Rightarrow> Pool" where
  "Remove i p = p\<lparr>endpoints := filter (\<lambda>ep. ep_id ep \<noteq> i) (endpoints p)\<rparr>"

definition HealthyCount :: "Pool \<Rightarrow> nat" where
  "HealthyCount p = length (filter IsAvailable (endpoints p))"

definition available :: "Pool \<Rightarrow> Endpoint list" where
  "available p = filter IsAvailable (endpoints p)"

subsection \<open>Strategies\<close>

text \<open>Go's \<open>%\<close> truncates: the result has the sign of the dividend.\<close>

definition go_rem :: "int \<Rightarrow> int \<Rightarrow> int" where
  "go_rem a n = sgn a * (\<bar>a\<bar> mod \<bar>n\<bar>)"

definition roundRobin :: "Pool \<Rightarrow> (pool_error + Endpoint) \<times> Pool" where
  "roundRobin p =
     (let avail = available p; n = int (length avail) in
      if n = 0 then (Inl (NoHealthyEndpoints (ModelID p)), p)
      else
        (let p' = p\<lparr>rrIdx := rrIdx p + 1\<rparr>;
             idx = rrIdx p' - 1;
             idx = (if sint idx < 0 then - idx else idx);
             i = go_rem (sint idx) n
         in if i < 0 then (Inl IndexPanic, p') else (Inr (avail ! nat i), p')))"

fun weighted_scan :: "int \<Rightarrow> int \<Rightarrow> Endpoint list \<Rightarrow> Endpoint option" where
  "weighted_scan r cumulative [] = None"
| "weighted_scan r cumulative (ep # eps) =
     (let cumulative = cumulative + ep_weight ep in
      if r < cumulative then Some ep else weighted_scan r cumulative eps)"

definition weighted :: "(int \<Rightarrow> int) \<Rightarrow> Pool \<Rightarrow> (pool_error + Endpoint) \<times> Pool" where
  "weighted intn p =
     (let avail = available p in
      if length avail = 0 then (Inl (NoHealthyEndpoints (ModelID p)), p)
      else
        (let total = sum_list (map ep_weight avail) in
         if total = 0 then roundRobin p
         else if total < 0 then (Inl IntnPanic, p)
         else case weighted_scan (intn total) 0 avail of
             Some ep \<Rightarrow> (Inr ep, p)
           | None \<Rightarrow> (Inr (last avail), p)))"

fun best_priority :: "Endpoint option \<Rightarrow> Endpoint list \<Rightarrow> Endpoint option" where
  "best_priority best [] = best"
| "best_priority best (ep # eps) =
     (if \<not> IsAvailable ep then best_priority best eps
      else best_priority
        (case best of None \<Rightarrow> Some ep | Some b \<Rightarrow> if ep_priority ep < ep_priority b then Some ep else best) eps)"

definition activePassive :: "Pool \<Rightarrow> pool_error + Endpoint" where
  "activePassive p =
     (case best_priority None (endpoints p) of None \<Rightarrow> Inl (AllEndpointsDown (ModelID p)) | Some b \<Rightarrow> Inr b)"

fun least_scan :: "Endpoint \<Rightarrow> int \<Rightarrow> Endpoint list \<Rightarrow> Endpoint" where
  "least_scan best bestConns [] = best"
| "least_scan best bestConns (ep # eps) =
     (let c = ep_conns ep in if c < bestConns then least_scan ep c eps else least_scan best bestConns eps)"

definition leastConn :: "Pool \<Rightarrow> pool_error + Endpoint" where
  "leastConn p =
     (case available p of [] \<Rightarrow> Inl (NoHealthyEndpoints (ModelID p))
      | best # eps \<Rightarrow> Inr (least_scan best (ep_conns best) eps))"

definition Pick :: "(int \<Rightarrow> int) \<Rightarrow> Pool \<Rightarrow> (pool_error + Endpoint) \<times> Pool" where
  "Pick intn p =
     (case Strategy p of
        StrategyRoundRobin \<Rightarrow> roundRobin p
      | StrategyWeighted \<Rightarrow> weighted intn p
      | StrategyActivePassive \<Rightarrow> (activePassive p, p)
      | StrategyLeastConn \<Rightarrow> (leastConn p, p)
      | StrategyOther s \<Rightarrow> roundRobin p)"

subsection \<open>Each strategy picks an available endpoint\<close>

lemma available_iff: "e \<in> set (available p) \<longleftrightarrow> e \<in> set (endpoints p) \<and> IsAvailable e"
  by (auto simp: available_def)

lemma go_rem_bound: "0 < n \<Longrightarrow> go_rem a n < n"
proof -
  assume n: "0 < n"
  have "sgn a * m < n" if "0 \<le> m" "m < n" for m using that n by (simp add: sgn_if)
  from this [of "\<bar>a\<bar> mod \<bar>n\<bar>"] n show ?thesis by (simp add: go_rem_def)
qed

lemma roundRobin_mem: "fst (roundRobin p) = Inr e \<Longrightarrow> e \<in> set (available p)"
  using go_rem_bound [of "int (length (available p))"]
  by (auto simp: roundRobin_def Let_def split: if_splits) (metis (no_types, lifting) nat_less_iff
      not_less nth_mem of_nat_0_less_iff length_greater_0_conv)+

lemma weighted_scan_mem: "weighted_scan r c eps = Some e \<Longrightarrow> e \<in> set eps"
  by (induction eps arbitrary: c) (auto simp: Let_def split: if_splits)

lemma weighted_mem: "fst (weighted intn p) = Inr e \<Longrightarrow> e \<in> set (available p)"
  by (auto simp: weighted_def Let_def roundRobin_mem split: if_splits option.splits dest: weighted_scan_mem)

lemma best_priority_least:
  "best_priority best eps = Some e \<Longrightarrow>
     e \<in> set_option best \<union> {x \<in> set eps. IsAvailable x} \<and>
     (\<forall>f\<in>set_option best \<union> {x \<in> set eps. IsAvailable x}. ep_priority e \<le> ep_priority f)"
proof (induction eps arbitrary: best)
  case (Cons x eps)
  show ?case
  proof (cases "IsAvailable x")
    case True
    show ?thesis
    proof (cases best)
      case None
      with Cons True show ?thesis by auto
    next
      case (Some b)
      with Cons True show ?thesis by (cases "ep_priority x < ep_priority b") force+
    qed
  qed (use Cons in auto)
qed simp

lemma best_priority_Some: "best_priority (Some b) eps \<noteq> None"
  by (induction eps arbitrary: b) auto

lemma best_priority_None: "best_priority None eps = None \<longleftrightarrow> (\<forall>e\<in>set eps. \<not> IsAvailable e)"
  by (induction eps) (auto simp: best_priority_Some)

lemma least_scan_least:
  "bestConns = ep_conns best \<Longrightarrow> least_scan best bestConns eps \<in> insert best (set eps) \<and>
     (\<forall>f\<in>insert best (set eps). ep_conns (least_scan best bestConns eps) \<le> ep_conns f)"
proof (induction eps arbitrary: best bestConns)
  case (Cons x eps)
  then show ?case
    by (cases "ep_conns x < ep_conns best") (auto simp: Let_def dest: Cons.IH, (force simp: Let_def)+)
qed simp

text \<open>
  Whatever the strategy, an endpoint that \<open>Pick\<close> returns belongs to the pool and can accept
  requests; active/passive returns one of least priority number and least-connections one of
  fewest active connections among those available.
\<close>

theorem pick_available:
  assumes "fst (Pick intn p) = Inr e"
  shows "e \<in> set (endpoints p) \<and> IsAvailable e \<and>
    (Strategy p = StrategyActivePassive \<longrightarrow> (\<forall>f\<in>set (endpoints p). IsAvailable f \<longrightarrow> ep_priority e \<le> ep_priority f)) \<and>
    (Strategy p = StrategyLeastConn \<longrightarrow> (\<forall>f\<in>set (endpoints p). IsAvailable f \<longrightarrow> ep_conns e \<le> ep_conns f))"
proof (cases "Strategy p")
  case StrategyActivePassive
  with assms have "best_priority None (endpoints p) = Some e"
    by (simp add: Pick_def activePassive_def split: option.splits)
  from best_priority_least [OF this] StrategyActivePassive show ?thesis by auto
next
  case StrategyLeastConn
  with assms obtain b eps where av: "available p = b # eps" and e: "e = least_scan b (ep_conns b) eps"
    by (auto simp: Pick_def leastConn_def split: list.splits)
  have "e \<in> set (available p)" "\<forall>f\<in>set (available p). ep_conns e \<le> ep_conns f"
    using least_scan_least [of "ep_conns b" b eps] av e by auto
  then show ?thesis using StrategyLeastConn by (auto simp: available_iff)
qed (use assms roundRobin_mem weighted_mem in \<open>auto simp: Pick_def available_iff\<close>)

definition demo_ep :: "id \<Rightarrow> int \<Rightarrow> int \<Rightarrow> HealthStatus \<Rightarrow> Endpoint" where
  "demo_ep i w pr st = \<lparr>ep_id = i, ep_model = ''m'', ep_url = i, ep_weight = w, ep_priority = pr, ep_status = st,
     ep_conns = w, ep_last_success = 0\<rparr>"

definition demo_pool :: "RoutingStrategy \<Rightarrow> Pool" where
  "demo_pool s = \<lparr>ModelID = ''m'', Strategy = s,
     endpoints = [demo_ep ''a'' 3 2 StatusHealthy, demo_ep ''b'' 1 1 StatusDown, demo_ep ''c'' 2 3 StatusDegraded,
                  demo_ep ''d'' 4 4 StatusHealthy],
     rrIdx = 4\<rparr>"

theorem pick_available_witness:
  "IsAvailable (demo_ep ''a'' 3 2 StatusHealthy) \<and>
   fst (Pick (\<lambda>_. 0) (demo_pool StrategyActivePassive)) = Inr (demo_ep ''a'' 3 2 StatusHealthy)"
proof -
  have "fst (Pick (\<lambda>_. 0) (demo_pool StrategyActivePassive)) = Inr (demo_ep ''a'' 3 2 StatusHealthy)"
    by (simp add: Pick_def activePassive_def demo_pool_def demo_ep_def IsAvailable_def)
  with pick_available [OF this] show ?thesis by blast
qed

subsection \<open>Round robin is fair\<close>

fun picks :: "nat \<Rightarrow> Pool \<Rightarrow> (pool_error + Endpoint) list" where
  "picks 0 p = []"
| "picks (Suc m) p = (case roundRobin p of (r, p') \<Rightarrow> r # picks m p')"

lemma sint_small: "0 \<le> k \<Longrightarrow> k < 2 ^ 63 \<Longrightarrow> sint (word_of_int k :: 64 word) = k"
  by (simp add: sint_sbintrunc' signed_take_bit_int_eq_self)

lemma roundRobin_small:
  assumes "rrIdx p = word_of_int k" and "0 \<le> k" and "k < 2 ^ 63" and "available p \<noteq> []"
  shows "roundRobin p =
    (Inr (available p ! (nat k mod length (available p))), p\<lparr>rrIdx := word_of_int (k + 1)\<rparr>)"
proof -
  let ?n = "int (length (available p))"
  have n: "0 < ?n" using assms(4) by simp
  have rem: "go_rem k ?n = k mod ?n"
    using assms(2) n by (cases "k = 0") (simp_all add: go_rem_def sgn_if)
  have "nat (k mod ?n) = nat k mod length (available p)"
    using assms(2) n by (simp add: nat_mod_distrib)
  moreover have "(k mod ?n < 0) = False" using pos_mod_sign [OF n, of k] by (simp only: not_less [symmetric])
  ultimately show ?thesis
    using assms n rem sint_small [of k] by (simp add: roundRobin_def Let_def)
qed

lemma picks_small:
  assumes "rrIdx p = word_of_int k" and "0 \<le> k" and "k + int m \<le> 2 ^ 63" and "available p \<noteq> []"
  shows "picks m p = map (\<lambda>j. Inr (available p ! ((nat k + j) mod length (available p)))) [0..<m]"
  using assms
proof (induction m arbitrary: p k)
  case (Suc m)
  let ?p = "p\<lparr>rrIdx := word_of_int (k + 1)\<rparr>"
  have av: "available ?p = available p" by (simp add: available_def)
  have step: "roundRobin p = (Inr (available p ! (nat k mod length (available p))), ?p)"
    by (rule roundRobin_small) (use Suc.prems in auto)
  have "picks m ?p = map (\<lambda>j. Inr (available p ! ((nat (k + 1) + j) mod length (available p)))) [0..<m]"
    unfolding av [symmetric] by (rule Suc.IH) (use Suc.prems av in auto)
  moreover have "nat (k + 1) + j = nat k + Suc j" for j using Suc.prems(2) by simp
  ultimately have "picks m ?p = map (\<lambda>j. Inr (available p ! ((nat k + j) mod length (available p)))) (map Suc [0..<m])"
    by (simp only: map_map comp_def)
  with step show ?case by (simp add: map_Suc_upt upt_conv_Cons del: upt_Suc)
qed simp

text \<open>
  Round robin is fair. From any cursor that does not wrap, as many consecutive picks as there
  are available endpoints return each of them exactly once, in the order of the pool rotated to
  the cursor.
\<close>

theorem round_robin_fair:
  assumes "rrIdx p = word_of_int k" and "0 \<le> k" and "k + int (length (available p)) \<le> 2 ^ 63"
    and "available p \<noteq> []"
  shows "picks (length (available p)) p = map Inr (rotate (nat k) (available p))"
  unfolding picks_small [OF assms]
  by (rule nth_equalityI) (simp_all add: nth_rotate add.commute)

theorem round_robin_fair_witness:
  "picks 3 (demo_pool StrategyRoundRobin) =
     map Inr [demo_ep ''c'' 2 3 StatusDegraded, demo_ep ''d'' 4 4 StatusHealthy, demo_ep ''a'' 3 2 StatusHealthy]"
proof -
  have av: "available (demo_pool StrategyRoundRobin) =
      [demo_ep ''a'' 3 2 StatusHealthy, demo_ep ''c'' 2 3 StatusDegraded, demo_ep ''d'' 4 4 StatusHealthy]"
    by (simp add: available_def demo_pool_def demo_ep_def IsAvailable_def)
  have "rrIdx (demo_pool StrategyRoundRobin) = word_of_int 4" by (simp add: demo_pool_def)
  from round_robin_fair [OF this] show ?thesis by (simp add: av eval_nat_numeral)
qed

text \<open>
  The overflow guard of round robin misses one value. When the 64-bit cursor has wrapped to its
  minimum, negating it changes nothing, the remainder is negative and the pick panics, unless the
  number of available endpoints divides \<open>2\<^sup>6\<^sup>3\<close>.
\<close>

theorem round_robin_min_int_panics:
  assumes "rrIdx p = word_of_int (- (2 ^ 63))" and "\<not> int (length (available p)) dvd 2 ^ 63"
    and "available p \<noteq> []"
  shows "fst (roundRobin p) = Inl IndexPanic"
proof -
  let ?n = "int (length (available p))"
  have n: "0 < ?n" using assms(3) by simp
  have min: "sint (word_of_int (- (2 ^ 63)) :: 64 word) = - (2 ^ 63)"
    by (simp add: sint_sbintrunc' signed_take_bit_int_eq_self)
  have neg: "- (word_of_int (- (2 ^ 63)) :: 64 word) = word_of_int (- (2 ^ 63))" by simp
  have "2 ^ 63 mod ?n \<noteq> 0" using assms(2) by (metis dvd_eq_mod_eq_0)
  then have "0 < 2 ^ 63 mod ?n" using pos_mod_sign [OF n, of "2 ^ 63"] by linarith
  then have "go_rem (- (2 ^ 63)) ?n < 0" by (simp add: go_rem_def)
  then show ?thesis
    using assms(1,3) n min neg by (simp add: roundRobin_def Let_def)
qed

theorem round_robin_min_int_panics_witness:
  "fst (roundRobin (demo_pool StrategyRoundRobin\<lparr>rrIdx := word_of_int (- (2 ^ 63))\<rparr>)) = Inl IndexPanic"
  by (rule round_robin_min_int_panics)
     (simp_all add: available_def demo_pool_def demo_ep_def IsAvailable_def)

subsection \<open>Weighted routing is exact\<close>

lemma weighted_scan_card:
  assumes "distinct eps" and "e \<in> set eps" and "\<forall>x\<in>set eps. 0 \<le> ep_weight x"
  shows "{r. c \<le> r \<and> r < c + sum_list (map ep_weight eps) \<and> weighted_scan r c eps = Some e} =
      {c + sum_list (map ep_weight (takeWhile (\<lambda>x. x \<noteq> e) eps)) ..<
       c + sum_list (map ep_weight (takeWhile (\<lambda>x. x \<noteq> e) eps)) + ep_weight e}"
  using assms
proof (induction eps arbitrary: c)
  case (Cons x eps)
  have nn: "0 \<le> sum_list (map ep_weight eps)" using Cons.prems(3) by (intro sum_list_map_nonneg) auto
  show ?case
  proof (cases "x = e")
    case True
    then have "weighted_scan r c' eps \<noteq> Some e" for r c' using Cons.prems(1) weighted_scan_mem by fastforce
    with True nn show ?thesis by (auto simp: Let_def split: if_splits)
  next
    case False
    have "0 \<le> ep_weight x" using Cons.prems(3) by simp
    then have "{r. c \<le> r \<and> r < c + sum_list (map ep_weight (x # eps)) \<and> weighted_scan r c (x # eps) = Some e} =
        {r. c + ep_weight x \<le> r \<and> r < c + ep_weight x + sum_list (map ep_weight eps) \<and>
            weighted_scan r (c + ep_weight x) eps = Some e}"
      using False by (auto simp: Let_def split: if_splits)
    also have "\<dots> = {c + ep_weight x + sum_list (map ep_weight (takeWhile (\<lambda>x. x \<noteq> e) eps)) ..<
       c + ep_weight x + sum_list (map ep_weight (takeWhile (\<lambda>x. x \<noteq> e) eps)) + ep_weight e}"
      using Cons False by (intro Cons.IH) auto
    finally show ?thesis using False by (simp add: add.assoc)
  qed
qed simp

text \<open>
  Weighted routing is exactly proportional. Among the \<open>total\<close> equally likely values of
  \<open>rand.Intn(total)\<close>, exactly \<open>Weight\<close> of them select a given available endpoint; an endpoint of
  weight 0 is never selected.
\<close>

theorem weighted_proportional:
  assumes "distinct (available p)" and "e \<in> set (available p)"
    and "\<forall>x\<in>set (available p). 0 \<le> ep_weight x" and "0 < sum_list (map ep_weight (available p))"
  shows "card {r. 0 \<le> r \<and> r < sum_list (map ep_weight (available p)) \<and> fst (weighted (\<lambda>_. r) p) = Inr e} =
    nat (ep_weight e)"
proof -
  let ?t = "sum_list (map ep_weight (available p))"
  have total: "\<exists>x. weighted_scan r c eps = Some x" if "r < c + sum_list (map ep_weight eps)" "eps \<noteq> []" for r c eps
    using that
  proof (induction eps arbitrary: c)
    case (Cons x eps)
    show ?case
    proof (cases "r < c + ep_weight x \<or> eps = []")
      case False
      with Cons.IH [of "c + ep_weight x"] Cons.prems show ?thesis by (simp add: Let_def add.assoc)
    qed (use Cons.prems in \<open>auto simp: Let_def\<close>)
  qed simp
  have ne: "available p \<noteq> []" using assms(4) by auto
  have "fst (weighted (\<lambda>_. r) p) = Inr e \<longleftrightarrow> weighted_scan r 0 (available p) = Some e" if "r < ?t" for r
    using total [of r 0 "available p"] that ne assms(4) by (auto simp: weighted_def Let_def)
  then have "{r. 0 \<le> r \<and> r < ?t \<and> fst (weighted (\<lambda>_. r) p) = Inr e} =
      {r. 0 \<le> r \<and> r < 0 + ?t \<and> weighted_scan r 0 (available p) = Some e}" by auto
  then show ?thesis unfolding weighted_scan_card [OF assms(1-3), of 0] by simp
qed

theorem weighted_proportional_witness:
  "card {r. 0 \<le> r \<and> r < 9 \<and> fst (weighted (\<lambda>_. r) (demo_pool StrategyWeighted)) = Inr (demo_ep ''c'' 2 3 StatusDegraded)} = 2"
  using weighted_proportional [of "demo_pool StrategyWeighted" "demo_ep ''c'' 2 3 StatusDegraded"]
  by (simp add: available_def demo_pool_def demo_ep_def IsAvailable_def)

end
