(* ===== verification/Gpu_Packing.thy ===== *)
theory Gpu_Packing
  imports Nexus_Prelude "HOL-Library.Multiset"
begin

text \<open>
  \<open>internal/gpu/packing.go\<close>: assignment of GPU devices to models on one server, first fit
  decreasing. \<open>sort.Slice\<close> promises a permutation ordered by the comparison and nothing about ties,
  so the two sorts are arguments of \<open>PackModels\<close>; what the proofs use of them is the locale
  \<open>slice_sorter\<close>. A negative \<open>GPUCount\<close> makes Go panic in \<open>make\<close>, the error \<open>MakeSlicePanic\<close>.
\<close>

subsection \<open>sort.Slice\<close>

locale slice_sorter =
  fixes before :: "'a \<Rightarrow> 'a \<Rightarrow> bool" and slice_sort :: "'a list \<Rightarrow> 'a list"
  assumes slice_perm: "mset (slice_sort xs) = mset xs"
    and slice_sorted: "sorted_wrt (\<lambda>x y. \<not> before y x) (slice_sort xs)"
begin

lemma slice_set: "set (slice_sort xs) = set xs"
  using slice_perm by (metis set_mset_mset)

lemma slice_length: "length (slice_sort xs) = length xs"
  using slice_perm by (metis size_mset)

lemma slice_map_distinct: "distinct (map f (slice_sort xs)) = distinct (map f xs)"
  using slice_perm by (metis mset_map mset_eq_imp_distinct_iff)

end

subsection \<open>Data\<close>

record Device =
  dev_id :: id
  DeviceIndex :: int
  VRAM_MB :: int
  dev_status :: string

record ModelPlacementRequest =
  ModelName :: string
  RequiredVRAMMB :: int
  GPUCount :: int

record PlacementResult =
  Assignments :: "string \<rightharpoonup> int list"
  Unscheduled :: "string list"

datatype pack_error = MakeSlicePanic

subsection \<open>Search\<close>

definition fits_device :: "Device list \<Rightarrow> bool list \<Rightarrow> ModelPlacementRequest \<Rightarrow> nat \<Rightarrow> bool" where
  "fits_device avail used req i \<longleftrightarrow> \<not> (used ! i \<or> VRAM_MB (avail ! i) < RequiredVRAMMB req)"

definition findContiguousBlock ::
    "Device list \<Rightarrow> bool list \<Rightarrow> ModelPlacementRequest \<Rightarrow> pack_error + nat list option" where
  "findContiguousBlock avail used req =
     (let n = int (length avail) in
      case find (\<lambda>start. list_all (fits_device avail used req) [start..<start + nat (GPUCount req)])
             [0..<nat (n - GPUCount req + 1)] of
        None \<Rightarrow> Inr None
      | Some start \<Rightarrow> if GPUCount req < 0 then Inl MakeSlicePanic
                      else Inr (Some (map (\<lambda>i. start + i) [0..<nat (GPUCount req)])))"

fun nonContiguous_scan ::
    "Device list \<Rightarrow> bool list \<Rightarrow> ModelPlacementRequest \<Rightarrow> nat list \<Rightarrow> nat list \<Rightarrow> nat list option" where
  "nonContiguous_scan avail used req chosen [] = None"
| "nonContiguous_scan avail used req chosen (i # is) =
     (if fits_device avail used req i then
        (let chosen = chosen @ [i] in
         if int (length chosen) = GPUCount req then Some chosen
         else nonContiguous_scan avail used req chosen is)
      else nonContiguous_scan avail used req chosen is)"

definition findNonContiguous :: "Device list \<Rightarrow> bool list \<Rightarrow> ModelPlacementRequest \<Rightarrow> nat list option" where
  "findNonContiguous avail used req = nonContiguous_scan avail used req [] [0..<length avail]"

fun mark_used :: "nat list \<Rightarrow> bool list \<Rightarrow> bool list" where
  "mark_used [] used = used"
| "mark_used (i # is) used = mark_used is (used[i := True])"

fun pack_loop ::
    "Device list \<Rightarrow> bool list \<Rightarrow> ModelPlacementRequest list \<Rightarrow> PlacementResult \<Rightarrow> pack_error + PlacementResult" where
  "pack_loop avail used [] result = Inr result"
| "pack_loop avail used (req # reqs) result =
     bindE (findContiguousBlock avail used req) (\<lambda>block.
     case (case block of Some b \<Rightarrow> Some b | None \<Rightarrow> findNonContiguous avail used req) of
       None \<Rightarrow> pack_loop avail used reqs (result\<lparr>Unscheduled := Unscheduled result @ [ModelName req]\<rparr>)
     | Some assigned \<Rightarrow>
         pack_loop avail (mark_used assigned used) reqs
           (result\<lparr>Assignments := (Assignments result)(ModelName req \<mapsto> map (\<lambda>i. DeviceIndex (avail ! i)) assigned)\<rparr>))"

definition device_before :: "Device \<Rightarrow> Device \<Rightarrow> bool" where
  "device_before d e \<longleftrightarrow> DeviceIndex d < DeviceIndex e"

definition request_before :: "ModelPlacementRequest \<Rightarrow> ModelPlacementRequest \<Rightarrow> bool" where
  "request_before r s \<longleftrightarrow> RequiredVRAMMB r * GPUCount r > RequiredVRAMMB s * GPUCount s"

definition PackModels ::
    "(Device list \<Rightarrow> Device list) \<Rightarrow> (ModelPlacementRequest list \<Rightarrow> ModelPlacementRequest list) \<Rightarrow>
     Device list \<Rightarrow> ModelPlacementRequest list \<Rightarrow> pack_error + PlacementResult" where
  "PackModels sortDevices sortRequests devices requests =
     (let avail = sortDevices (filter (\<lambda>d. dev_status d = ''available'') devices);
          used = replicate (length avail) False;
          sorted = sortRequests requests
      in pack_loop avail used sorted \<lparr>Assignments = Map.empty, Unscheduled = []\<rparr>)"

interpretation device_sort: slice_sorter device_before "sort_key DeviceIndex"
proof
  show "sorted_wrt (\<lambda>x y. \<not> device_before y x) (sort_key DeviceIndex xs)" for xs
    using sorted_sort_key [of DeviceIndex xs]
    by (simp add: device_before_def not_less sorted_map)
qed simp

interpretation request_sort: slice_sorter request_before "sort_key (\<lambda>r. - (RequiredVRAMMB r * GPUCount r))"
proof
  show "sorted_wrt (\<lambda>x y. \<not> request_before y x) (sort_key (\<lambda>r. - (RequiredVRAMMB r * GPUCount r)) xs)" for xs
    using sorted_sort_key [of "\<lambda>r. - (RequiredVRAMMB r * GPUCount r)" xs]
    by (simp add: request_before_def not_less sorted_map)
qed simp

subsection \<open>What the searches return\<close>

definition good_block :: "Device list \<Rightarrow> bool list \<Rightarrow> ModelPlacementRequest \<Rightarrow> nat list \<Rightarrow> bool" where
  "good_block avail used req b \<longleftrightarrow> int (length b) = GPUCount req \<and> distinct b \<and>
     (\<forall>i\<in>set b. i < length avail \<and> fits_device avail used req i)"

lemma findContiguousBlock_good:
  assumes "findContiguousBlock avail used req = Inr (Some b)"
  shows "good_block avail used req b"
proof -
  from assms obtain start where s: "find (\<lambda>start. list_all (fits_device avail used req) [start..<start + nat (GPUCount req)])
             [0..<nat (int (length avail) - GPUCount req + 1)] = Some start"
    and b: "b = map (\<lambda>i. start + i) [0..<nat (GPUCount req)]" "\<not> GPUCount req < 0"
    by (auto simp: findContiguousBlock_def Let_def split: option.splits if_splits)
  from s have "list_all (fits_device avail used req) [start..<start + nat (GPUCount req)]"
    and "start < nat (int (length avail) - GPUCount req + 1)"
    by (auto simp: find_Some_iff)
  then show ?thesis
    using b by (auto simp: good_block_def distinct_map list_all_iff)
qed

lemma nonContiguous_scan_good:
  assumes "nonContiguous_scan avail used req chosen is = Some b" and "distinct (chosen @ is)"
    and "\<forall>i\<in>set chosen. fits_device avail used req i" and "\<forall>i\<in>set (chosen @ is). i < length avail"
  shows "good_block avail used req b"
  using assms
proof (induction "is" arbitrary: chosen)
  case (Cons i "is")
  show ?case
  proof (cases "fits_device avail used req i")
    case False
    with Cons.prems show ?thesis by (intro Cons.IH [of chosen]) simp_all
  next
    case True
    show ?thesis
    proof (cases "int (length (chosen @ [i])) = GPUCount req")
      case full: True
      with Cons.prems(1) True have "b = chosen @ [i]" by (simp add: Let_def)
      with full Cons.prems(2-4) True show ?thesis by (auto simp: good_block_def)
    next
      case False
      with Cons.prems True show ?thesis by (intro Cons.IH [of "chosen @ [i]"]) (simp_all add: Let_def)
    qed
  qed
qed simp

lemma findNonContiguous_good:
  "findNonContiguous avail used req = Some b \<Longrightarrow> good_block avail used req b"
  unfolding findNonContiguous_def by (rule nonContiguous_scan_good) auto

lemma nonContiguous_scan_None:
  assumes "nonContiguous_scan avail used req chosen is = None" and "int (length chosen) < GPUCount req"
  shows "int (length chosen + length (filter (fits_device avail used req) is)) < GPUCount req"
  using assms
proof (induction "is" arbitrary: chosen)
  case (Cons i "is")
  show ?case
  proof (cases "fits_device avail used req i")
    case True
    with Cons.prems have "nonContiguous_scan avail used req (chosen @ [i]) is = None"
      and "int (length (chosen @ [i])) < GPUCount req"
      by (auto simp: Let_def split: if_splits)
    from Cons.IH [OF this] True show ?thesis by simp
  qed (use Cons in auto)
qed simp

lemma mark_used_nth: "length (mark_used is used) = length used \<and>
    (\<forall>j<length used. mark_used is used ! j \<longleftrightarrow> used ! j \<or> j \<in> set is)"
proof (induction "is" arbitrary: used)
  case (Cons i "is")
  have "used[i := True] ! j \<longleftrightarrow> used ! j \<or> j = i" if "j < length used" for j
    using that by (cases "j = i") simp_all
  with Cons.IH [of "used[i := True]"] show ?case by auto
qed simp

subsection \<open>The plan is sound\<close>

text \<open>
  The invariant of the loop: every assignment made so far uses devices that fit its request, are
  marked used, and are shared with no other assignment.
\<close>

definition serves :: "Device list \<Rightarrow> ModelPlacementRequest list \<Rightarrow> string \<Rightarrow> nat list \<Rightarrow> bool" where
  "serves avail reqs m b \<longleftrightarrow> (\<exists>req\<in>set reqs. ModelName req = m \<and> int (length b) = GPUCount req \<and> distinct b \<and>
     (\<forall>i\<in>set b. i < length avail \<and> RequiredVRAMMB req \<le> VRAM_MB (avail ! i)))"

definition plan_ok ::
    "Device list \<Rightarrow> ModelPlacementRequest list \<Rightarrow> bool list \<Rightarrow> PlacementResult \<Rightarrow> (string \<rightharpoonup> nat list) \<Rightarrow> bool" where
  "plan_ok avail done used result blocks \<longleftrightarrow> length used = length avail \<and>
     Assignments result = (\<lambda>m. map_option (map (\<lambda>i. DeviceIndex (avail ! i))) (blocks m)) \<and>
     (\<forall>m b. blocks m = Some b \<longrightarrow> serves avail done m b \<and> (\<forall>i\<in>set b. used ! i)) \<and>
     (\<forall>m m' b b'. blocks m = Some b \<longrightarrow> blocks m' = Some b' \<longrightarrow> m \<noteq> m' \<longrightarrow> set b \<inter> set b' = {}) \<and>
     set (Unscheduled result) \<union> dom blocks = ModelName ` set done \<and> set (Unscheduled result) \<inter> dom blocks = {}"

lemma serves_mono: "serves avail done m b \<Longrightarrow> serves avail (done @ rest) m b"
  by (auto simp: serves_def)

lemma plan_ok_skip:
  assumes "plan_ok avail done used result blocks" and "ModelName req \<notin> ModelName ` set done"
  shows "plan_ok avail (done @ [req]) used (result\<lparr>Unscheduled := Unscheduled result @ [ModelName req]\<rparr>) blocks"
proof -
  have "ModelName req \<notin> dom blocks" using assms by (auto simp: plan_ok_def)
  with assms show ?thesis unfolding plan_ok_def by (auto intro: serves_mono)
qed

lemma plan_ok_assign:
  assumes p: "plan_ok avail done used result blocks" and n: "ModelName req \<notin> ModelName ` set done"
    and b: "good_block avail used req b"
  shows "plan_ok avail (done @ [req]) (mark_used b used)
    (result\<lparr>Assignments := (Assignments result)(ModelName req \<mapsto> map (\<lambda>i. DeviceIndex (avail ! i)) b)\<rparr>)
    (blocks(ModelName req \<mapsto> b))"
proof -
  have new: "ModelName req \<notin> set (Unscheduled result)" "blocks (ModelName req) = None"
    using p n by (auto simp: plan_ok_def)
  have len: "length used = length avail" using p by (simp add: plan_ok_def)
  have mk: "mark_used b used ! i \<longleftrightarrow> used ! i \<or> i \<in> set b" if "i < length avail" for i
    using mark_used_nth [of b used] that len by simp
  have srv: "serves avail (done @ [req]) (ModelName req) b"
    using b by (auto simp: serves_def good_block_def fits_device_def)
  have free: "set b \<inter> set b' = {}" if "blocks m = Some b'" for m b'
    using p b that by (auto simp: plan_ok_def good_block_def fits_device_def)
  have old: "serves avail (done @ [req]) m b' \<and> (\<forall>i\<in>set b'. mark_used b used ! i)" if "blocks m = Some b'" for m b'
  proof -
    have "serves avail done m b'" "\<forall>i\<in>set b'. used ! i" using p that by (auto simp: plan_ok_def)
    then show ?thesis using mk by (auto simp: serves_def)
  qed
  have mine: "\<forall>i\<in>set b. mark_used b used ! i" using b mk by (auto simp: good_block_def)
  have disj: "set b1 \<inter> set b2 = {}"
    if "(blocks(ModelName req \<mapsto> b)) m = Some b1" "(blocks(ModelName req \<mapsto> b)) m' = Some b2" "m \<noteq> m'" for m m' b1 b2
    using that free p by (auto simp: plan_ok_def split: if_splits)
  show ?thesis
    unfolding plan_ok_def
  proof (intro conjI allI impI)
    show "length (mark_used b used) = length avail" using mark_used_nth [of b used] len by simp
    show "Assignments (result\<lparr>Assignments := (Assignments result)(ModelName req \<mapsto> map (\<lambda>i. DeviceIndex (avail ! i)) b)\<rparr>) =
        (\<lambda>m. map_option (map (\<lambda>i. DeviceIndex (avail ! i))) ((blocks(ModelName req \<mapsto> b)) m))"
      using p by (auto simp: plan_ok_def fun_eq_iff)
    fix m b' assume "(blocks(ModelName req \<mapsto> b)) m = Some b'"
    then show "serves avail (done @ [req]) m b'" and "\<forall>i\<in>set b'. mark_used b used ! i"
      using old srv mine by (auto split: if_splits)
  next
    show "set b1 \<inter> set b2 = {}" if "(blocks(ModelName req \<mapsto> b)) m = Some b1"
      "(blocks(ModelName req \<mapsto> b)) m' = Some b2" "m \<noteq> m'" for m m' b1 b2
      using disj that by blast
  qed (use p new in \<open>auto simp: plan_ok_def\<close>)
qed

lemma pack_loop_ok:
  assumes "pack_loop avail used reqs result = Inr out" and "plan_ok avail done used result blocks"
    and "distinct (map ModelName (done @ reqs))"
  shows "\<exists>used' blocks'. plan_ok avail (done @ reqs) used' out blocks'"
  using assms
proof (induction reqs arbitrary: used result "done" blocks)
  case (Cons req reqs)
  from Cons.prems(1) obtain block where blk: "findContiguousBlock avail used req = Inr block" by auto
  have n: "ModelName req \<notin> ModelName ` set done" using Cons.prems(3) by auto
  have d: "distinct (map ModelName ((done @ [req]) @ reqs))" using Cons.prems(3) by simp
  let ?pick = "case block of Some b \<Rightarrow> Some b | None \<Rightarrow> findNonContiguous avail used req"
  show ?case
  proof (cases ?pick)
    case None
    with Cons.prems(1) blk have "pack_loop avail used reqs (result\<lparr>Unscheduled := Unscheduled result @ [ModelName req]\<rparr>) = Inr out"
      by (simp add: bindE_def)
    from Cons.IH [OF this plan_ok_skip [OF Cons.prems(2) n] d] show ?thesis by simp
  next
    case (Some b)
    have good: "good_block avail used req b"
      using Some blk findContiguousBlock_good findNonContiguous_good by (auto split: option.splits)
    from Some Cons.prems(1) blk have "pack_loop avail (mark_used b used) reqs
        (result\<lparr>Assignments := (Assignments result)(ModelName req \<mapsto> map (\<lambda>i. DeviceIndex (avail ! i)) b)\<rparr>) = Inr out"
      by (simp add: bindE_def)
    from Cons.IH [OF this plan_ok_assign [OF Cons.prems(2) n good] d] show ?thesis by simp
  qed
qed auto

lemma pack_loop_total:
  "\<forall>r\<in>set reqs. 0 \<le> GPUCount r \<Longrightarrow> \<exists>out. pack_loop avail used reqs result = Inr out"
proof (induction reqs arbitrary: used result)
  case (Cons req reqs)
  then have "\<exists>block. findContiguousBlock avail used req = Inr block"
    by (auto simp: findContiguousBlock_def Let_def split: option.split)
  then obtain block where "findContiguousBlock avail used req = Inr block" ..
  with Cons show ?case by (auto split: option.splits)
qed simp

text \<open>
  C15: the packing plan is sound, whatever order \<open>sort.Slice\<close> leaves ties in. With distinct model
  names and device indices and no negative GPU count the packer returns a plan in which every
  assigned model gets exactly \<open>GPUCount\<close> distinct devices of the server that are available and have
  the required VRAM, no device serves two models, and the unscheduled models are exactly those
  without an assignment.
\<close>

theorem pack_sound:
  assumes "slice_sorter device_before sortDevices" and "slice_sorter request_before sortRequests"
    and "distinct (map ModelName requests)" and "distinct (map DeviceIndex devices)"
    and "\<forall>r\<in>set requests. 0 \<le> GPUCount r"
  shows "\<exists>out. PackModels sortDevices sortRequests devices requests = Inr out \<and>
    (\<forall>m idxs. Assignments out m = Some idxs \<longrightarrow>
       (\<exists>req\<in>set requests. ModelName req = m \<and> int (length idxs) = GPUCount req \<and> distinct idxs \<and>
          (\<forall>i\<in>set idxs. \<exists>d\<in>set devices. DeviceIndex d = i \<and> dev_status d = ''available'' \<and>
             RequiredVRAMMB req \<le> VRAM_MB d))) \<and>
    (\<forall>m m' is js. Assignments out m = Some is \<longrightarrow> Assignments out m' = Some js \<longrightarrow> m \<noteq> m' \<longrightarrow> set is \<inter> set js = {}) \<and>
    (\<forall>req\<in>set requests. ModelName req \<in> set (Unscheduled out) \<longleftrightarrow> Assignments out (ModelName req) = None)"
proof -
  let ?av = "filter (\<lambda>d. dev_status d = ''available'') devices"
  let ?avail = "sortDevices ?av" and ?reqs = "sortRequests requests"
  have av: "set ?avail = set ?av" "distinct (map DeviceIndex ?avail)" "set ?reqs = set requests"
      "distinct (map ModelName ?reqs)"
    using slice_sorter.slice_set [OF assms(1)] slice_sorter.slice_set [OF assms(2)] assms(3,4)
      slice_sorter.slice_map_distinct [OF assms(1), of DeviceIndex ?av]
      slice_sorter.slice_map_distinct [OF assms(2), of ModelName requests]
    by (simp_all add: distinct_map_filter)
  obtain out where out: "pack_loop ?avail (replicate (length ?avail) False) ?reqs \<lparr>Assignments = Map.empty, Unscheduled = []\<rparr> = Inr out"
    using pack_loop_total av(3) assms(5) by blast
  have "plan_ok ?avail [] (replicate (length ?avail) False) \<lparr>Assignments = Map.empty, Unscheduled = []\<rparr> Map.empty"
    by (simp add: plan_ok_def fun_eq_iff)
  from pack_loop_ok [OF out this] av(4) obtain used blocks where ok: "plan_ok ?avail ?reqs used out blocks" by auto
  have inj: "inj_on (\<lambda>i. DeviceIndex (?avail ! i)) {..<length ?avail}"
    using av(2) by (auto simp: inj_on_def distinct_conv_nth)
  have asg: "Assignments out m = map_option (map (\<lambda>i. DeviceIndex (?avail ! i))) (blocks m)" for m
    using ok by (simp add: plan_ok_def)
  have blk: "serves ?avail ?reqs m b" "set b \<subseteq> {..<length ?avail}" if "blocks m = Some b" for m b
    using ok that by (auto simp: plan_ok_def serves_def)
  have 1: "\<exists>req\<in>set requests. ModelName req = m \<and> int (length idxs) = GPUCount req \<and> distinct idxs \<and>
      (\<forall>i\<in>set idxs. \<exists>d\<in>set devices. DeviceIndex d = i \<and> dev_status d = ''available'' \<and> RequiredVRAMMB req \<le> VRAM_MB d)"
    if a: "Assignments out m = Some idxs" for m idxs
  proof -
    obtain b where b: "blocks m = Some b" "idxs = map (\<lambda>i. DeviceIndex (?avail ! i)) b" using a asg by auto
    from blk(1) [OF b(1)] obtain req where r: "req \<in> set requests" "ModelName req = m" "int (length b) = GPUCount req"
        "distinct b" "\<forall>i\<in>set b. i < length ?avail \<and> RequiredVRAMMB req \<le> VRAM_MB (?avail ! i)"
      using av(3) by (auto simp: serves_def)
    have "distinct idxs" using r(4) inj blk(2) [OF b(1)] b(2) by (auto simp: distinct_map intro: inj_on_subset)
    moreover have "?avail ! i \<in> set devices \<and> dev_status (?avail ! i) = ''available''" if "i < length ?avail" for i
      using nth_mem [OF that] av(1) by auto
    ultimately show ?thesis using r b(2) by (intro bexI [of _ req]) auto
  qed
  have 2: "set is \<inter> set js = {}" if m: "Assignments out m = Some is" "Assignments out m' = Some js" "m \<noteq> m'" for m m' "is" js
  proof -
    obtain b b' where b: "blocks m = Some b" "is = map (\<lambda>i. DeviceIndex (?avail ! i)) b"
      "blocks m' = Some b'" "js = map (\<lambda>i. DeviceIndex (?avail ! i)) b'" using m asg by auto
    have "set b \<inter> set b' = {}" using ok b(1,3) m(3) by (auto simp: plan_ok_def)
    with inj_on_image_Int [OF inj blk(2) [OF b(1)] blk(2) [OF b(3)]] b(2,4) show ?thesis by simp
  qed
  have 3: "ModelName req \<in> set (Unscheduled out) \<longleftrightarrow> Assignments out (ModelName req) = None" if "req \<in> set requests" for req
    using ok that av(3) asg by (auto simp: plan_ok_def dom_def)
  show ?thesis using out 1 2 3 by (auto simp: PackModels_def Let_def)
qed

theorem pack_sound_witness:
  "\<exists>out. PackModels (sort_key DeviceIndex) (sort_key (\<lambda>r. - (RequiredVRAMMB r * GPUCount r)))
      [\<lparr>dev_id = ''g0'', DeviceIndex = 0, VRAM_MB = 80, dev_status = ''available''\<rparr>,
       \<lparr>dev_id = ''g1'', DeviceIndex = 1, VRAM_MB = 40, dev_status = ''available''\<rparr>]
      [\<lparr>ModelName = ''small'', RequiredVRAMMB = 20, GPUCount = 1\<rparr>, \<lparr>ModelName = ''big'', RequiredVRAMMB = 70, GPUCount = 1\<rparr>]
      = Inr out \<and> (\<forall>m m' is js. Assignments out m = Some is \<longrightarrow> Assignments out m' = Some js \<longrightarrow> m \<noteq> m' \<longrightarrow> set is \<inter> set js = {})"
  using pack_sound [OF device_sort.slice_sorter_axioms request_sort.slice_sorter_axioms,
      of "[\<lparr>ModelName = ''small'', RequiredVRAMMB = 20, GPUCount = 1\<rparr>, \<lparr>ModelName = ''big'', RequiredVRAMMB = 70, GPUCount = 1\<rparr>]"
      "[\<lparr>dev_id = ''g0'', DeviceIndex = 0, VRAM_MB = 80, dev_status = ''available''\<rparr>,
       \<lparr>dev_id = ''g1'', DeviceIndex = 1, VRAM_MB = 40, dev_status = ''available''\<rparr>]"]
  by fastforce

end
