(* ===== verification/Project_Priority.thy ===== *)
theory Project_Priority
  imports Nexus_Prelude Complex_Main
begin

text \<open>
  \<open>internal/project/types.go\<close>: the priority weights of projects, the preemption rule and the
  effective priority the scheduler sorts by. Weights are small integers read from a column with a
  range check, so Go's \<open>int\<close> is \<open>int\<close>; the waiting time, a \<open>float64\<close>, is a rational.
\<close>

subsection \<open>Weights\<close>

type_synonym PriorityWeight = int

definition WeightEmergency :: PriorityWeight where "WeightEmergency = 1000"
definition WeightProdCritical :: PriorityWeight where "WeightProdCritical = 950"
definition WeightRevenueCrit :: PriorityWeight where "WeightRevenueCrit = 900"
definition WeightStandard :: PriorityWeight where "WeightStandard = 500"
definition MinWeight :: PriorityWeight where "MinWeight = 0"
definition MaxWeight :: PriorityWeight where "MaxWeight = 1000"
definition DefaultWeight :: PriorityWeight where "DefaultWeight = 500"
definition PreemptionMinGap :: int where "PreemptionMinGap = 50"

definition IsValid :: "PriorityWeight \<Rightarrow> bool" where
  "IsValid w \<longleftrightarrow> w \<ge> MinWeight \<and> w \<le> MaxWeight"

definition Label :: "PriorityWeight \<Rightarrow> string" where
  "Label w =
     (if w \<ge> 950 then ''Emergency'' else if w \<ge> 900 then ''Production Critical''
      else if w \<ge> 800 then ''Revenue Critical'' else if w \<ge> 700 then ''Core Internal''
      else if w \<ge> 500 then ''Standard'' else if w \<ge> 300 then ''Batch''
      else if w \<ge> 100 then ''Development'' else if w \<ge> 50 then ''Playground'' else ''Best Effort'')"

definition Color :: "PriorityWeight \<Rightarrow> string" where
  "Color w =
     (if w \<ge> 900 then ''red'' else if w \<ge> 700 then ''orange'' else if w \<ge> 500 then ''blue''
      else if w \<ge> 300 then ''gray'' else ''slate'')"

definition CanPreempt :: "PriorityWeight \<Rightarrow> PriorityWeight \<Rightarrow> bool" where
  "CanPreempt w target \<longleftrightarrow> w - target \<ge> PreemptionMinGap"

definition StandardPresets :: "(PriorityWeight \<times> string \<times> string) list" where
  "StandardPresets =
     [(1000, ''Emergency'', ''red''), (950, ''Customer Production Chat'', ''red''),
      (900, ''Revenue Critical Services'', ''red''), (800, ''Core Internal Services'', ''orange''),
      (700, ''Core Internal (lower)'', ''orange''), (500, ''Standard Business Workloads'', ''blue''),
      (300, ''Batch Processing'', ''gray''), (100, ''Development'', ''gray''), (50, ''Playground'', ''slate''),
      (0, ''Best Effort'', ''slate'')]"

subsection \<open>Effective priority\<close>

record EffectivePriority =
  BaseWeight :: PriorityWeight
  WaitingBonus :: int
  ReservationBonus :: int
  SLABonus :: int
  ResourcePenalty :: int
  Effective :: int

definition Compute :: "EffectivePriority \<Rightarrow> EffectivePriority" where
  "Compute ep =
     (let v = BaseWeight ep + WaitingBonus ep + ReservationBonus ep + SLABonus ep - ResourcePenalty ep;
          v = (if v < 0 then 0 else v);
          v = (if v > 1000 then 1000 else v)
      in ep\<lparr>Effective := v\<rparr>)"

text \<open>\<open>int(x)\<close> of a float truncates toward zero.\<close>

definition go_int :: "rat \<Rightarrow> int" where
  "go_int x = (if 0 \<le> x then \<lfloor>x\<rfloor> else \<lceil>x\<rceil>)"

definition WaitingBonusFor :: "rat \<Rightarrow> int" where
  "WaitingBonusFor waitSecs =
     (let bonus = go_int (waitSecs / 60);
          bonus = (if bonus > 200 then 200 else bonus)
      in if bonus < 0 then 0 else bonus)"

subsection \<open>Preemption is a strict order with a gap\<close>

locale preemption_order =
  fixes beats :: "int \<Rightarrow> int \<Rightarrow> bool" and gap :: int
  assumes gap_pos: "0 < gap" and beats_gap: "beats w v \<Longrightarrow> gap \<le> w - v"
begin

lemma beats_irrefl: "\<not> beats w w"
  using beats_gap [of w w] gap_pos by auto

lemma beats_asym: "beats w v \<Longrightarrow> \<not> beats v w"
  using beats_gap [of w v] beats_gap [of v w] gap_pos by auto

lemma chain_drop: "successively beats (w # ws) \<Longrightarrow> gap * int (length ws) \<le> w - last (w # ws)"
proof (induction ws arbitrary: w)
  case (Cons v ws)
  then have "beats w v" "successively beats (v # ws)" by auto
  with Cons.IH [of v] beats_gap [of w v] have "gap + gap * int (length ws) \<le> w - last (v # ws)" by auto
  then show ?case by (simp add: algebra_simps)
qed simp

lemma chain_length: "successively beats ws \<Longrightarrow> \<forall>w\<in>set ws. 0 \<le> w \<and> w \<le> m \<Longrightarrow> 0 \<le> m \<Longrightarrow> (int (length ws) - 1) * gap \<le> m"
proof (cases ws)
  case (Cons w us)
  assume *: "successively beats ws" "\<forall>w\<in>set ws. 0 \<le> w \<and> w \<le> m" "0 \<le> m"
  have "last (w # us) \<in> set ws" using Cons by (metis last_in_set list.distinct(1))
  with * Cons have "w \<le> m" "0 \<le> last (w # us)" by (metis list.set_intros(1))+
  with chain_drop [of w us] * Cons show ?thesis by (simp add: mult.commute)
qed (use gap_pos in auto)

end

interpretation weight_order: preemption_order CanPreempt PreemptionMinGap
  by unfold_locales (simp_all add: CanPreempt_def PreemptionMinGap_def)

lemma CanPreempt_trans: "transp CanPreempt"
  by (rule transpI) (simp add: CanPreempt_def PreemptionMinGap_def)

text \<open>
  Preemption cannot thrash. In a chain of projects with valid weights in which each may preempt
  the next there are at most 21 members, each may preempt every later one and none may be
  preempted by a later one, so the chain never comes back to a project.
\<close>

theorem preemption_chain_bounded:
  assumes "successively CanPreempt ws" and "\<forall>w\<in>set ws. IsValid w"
  shows "length ws \<le> 21 \<and> sorted_wrt (\<lambda>w v. CanPreempt w v \<and> \<not> CanPreempt v w) ws"
proof
  have "(int (length ws) - 1) * PreemptionMinGap \<le> 1000"
    by (rule weight_order.chain_length [OF assms(1)])
       (use assms(2) in \<open>simp_all add: IsValid_def MinWeight_def MaxWeight_def\<close>)
  then show "length ws \<le> 21" by (simp add: PreemptionMinGap_def)
  from assms(1) have "sorted_wrt CanPreempt ws" by (simp add: successively_conv_sorted_wrt CanPreempt_trans)
  then show "sorted_wrt (\<lambda>w v. CanPreempt w v \<and> \<not> CanPreempt v w) ws"
    by (rule sorted_wrt_mono_rel [rotated]) (simp add: weight_order.beats_asym)
qed

theorem preemption_chain_bounded_witness:
  "length [1000, 950, 900, 500::int] \<le> 21 \<and>
   sorted_wrt (\<lambda>w v. CanPreempt w v \<and> \<not> CanPreempt v w) [1000, 950, 900, 500]"
  by (rule preemption_chain_bounded)
     (simp_all add: CanPreempt_def PreemptionMinGap_def IsValid_def MinWeight_def MaxWeight_def)

text \<open>
  The effective priority stays within \<open>[0, 1000]\<close>, grows with the time spent waiting, and aging
  alone adds at most 200: a project whose other terms are more than 200 behind never overtakes
  by waiting (before the clamp at 1000).
\<close>

lemma go_int_mono: "x \<le> y \<Longrightarrow> go_int x \<le> go_int y"
  by (auto simp: go_int_def floor_mono ceiling_mono) (meson ceiling_le_zero leD linorder_not_le
      order_trans zero_le_floor less_imp_le)

lemma WaitingBonus_bounds: "0 \<le> WaitingBonusFor s \<and> WaitingBonusFor s \<le> 200"
  by (simp add: WaitingBonusFor_def Let_def)

lemma WaitingBonus_mono: "s \<le> t \<Longrightarrow> WaitingBonusFor s \<le> WaitingBonusFor t"
  using go_int_mono [of "s / 60" "t / 60"] by (simp add: WaitingBonusFor_def Let_def divide_right_mono)

theorem effective_priority_aging:
  "0 \<le> Effective (Compute ep) \<and> Effective (Compute ep) \<le> 1000 \<and>
   (s \<le> t \<longrightarrow> Effective (Compute (ep\<lparr>WaitingBonus := WaitingBonusFor s\<rparr>))
            \<le> Effective (Compute (ep\<lparr>WaitingBonus := WaitingBonusFor t\<rparr>))) \<and>
   Effective (Compute (ep\<lparr>WaitingBonus := WaitingBonusFor t\<rparr>))
     \<le> Effective (Compute (ep\<lparr>WaitingBonus := 0\<rparr>)) + 200"
  using WaitingBonus_mono [of s t] WaitingBonus_bounds [of t] by (auto simp: Compute_def Let_def)

theorem effective_priority_aging_witness:
  "Effective (Compute (\<lparr>BaseWeight = 500, WaitingBonus = WaitingBonusFor 0, ReservationBonus = 50, SLABonus = 0,
      ResourcePenalty = 0, Effective = 0\<rparr>)) \<le>
   Effective (Compute (\<lparr>BaseWeight = 500, WaitingBonus = WaitingBonusFor 6000, ReservationBonus = 50, SLABonus = 0,
      ResourcePenalty = 0, Effective = 0\<rparr>))"
  using effective_priority_aging [of "\<lparr>BaseWeight = 500, WaitingBonus = 0, ReservationBonus = 50, SLABonus = 0,
      ResourcePenalty = 0, Effective = 0\<rparr>" 0 6000] by simp

end
