(* ===== verification/Scheduler.thy ===== *)
theory Scheduler
  imports Project_Priority "HOL-Library.Multiset" "HOL-Library.List_Lexorder" "HOL-Library.Char_ord"
begin

text \<open>
  \<open>internal/scheduler\<close>: candidate nodes and their hard constraints, the score, the hand-written
  insertion sort, the decision and the retry queue. The tables the queries read are lists of rows;
  \<open>float64\<close> scores are rationals (the model does not round). A query whose error the code discards
  returns no rows when the fault plan says so. The formatted texts of a rejection are the
  structured failures they are printed from.
\<close>

subsection \<open>Tables\<close>

record node_row =
  n_id :: id
  n_hostname :: string
  n_status :: string
  n_cordoned :: bool
  n_total_cpu :: int
  n_total_ram :: int
  n_total_vram :: int
  n_labels :: "(string \<times> string) list"

record telemetry_row =
  nt_node :: id
  nt_recorded :: int
  nt_cpu_util :: rat
  nt_ram_avail :: int

record runtime_row =
  ar_node :: id
  ar_model :: id
  ar_state :: string

record cpu_alloc_row =
  ca_node :: id
  ca_cores :: int
  ca_released :: bool

record gpu_row =
  g_node :: id
  g_id :: id
  g_index :: int
  g_name :: string
  g_vram :: int
  g_used :: int
  g_util :: int
  g_temp :: int
  g_numa :: int

datatype queue_status = QueuePending | QueueDeployed

record queue_row =
  q_id :: id
  q_project :: id
  q_config :: string
  q_weight :: int
  q_effective :: int
  q_vram :: int
  q_ram :: int
  q_cpu :: int
  q_mode :: string
  q_prefer :: "id option"
  q_attempts :: int
  q_enqueued :: int
  q_last_attempt :: "int option"
  q_next_retry :: "int option"
  q_status :: queue_status

record decision_row =
  d_id :: id
  d_model :: id
  d_node :: id
  d_score :: rat
  d_outcome :: string

record sched_db =
  nodes :: "node_row list"
  node_telemetry :: "telemetry_row list"
  agent_runtimes :: "runtime_row list"
  cpu_allocations :: "cpu_alloc_row list"
  gpu_devices :: "gpu_row list"
  node_model_cache :: "(id \<times> id) list"
  deployment_queue :: "queue_row list"
  scheduler_decisions :: "decision_row list"

subsection \<open>Requests, nodes and decisions\<close>

datatype PlacementMode = ModeAuto | ModeSpecificNode | ModeNodeGroup | ModeLabelSelector

datatype PlacementStrategy = StrategyAuto | StrategyPinned | StrategySpread | StrategyPacked

datatype AcceleratorType = AcceleratorAny | AcceleratorGPU | AcceleratorCPU

record PlacementRequest =
  pr_model :: id
  pr_model_name :: string
  pr_project :: id
  RequiredCPU :: int
  RequiredRAMMB :: int
  RequiredVRAMMB :: int
  RequiredGPUs :: int
  ExecutionMode :: string
  Mode :: PlacementMode
  SpecificNodeID :: id
  NodeGroupID :: string
  NodeSelector :: "(string \<times> string) list"
  pr_strategy :: PlacementStrategy
  AcceleratorReq :: AcceleratorType
  PinnedNodeID :: id
  pr_weight :: PriorityWeight
  pr_effective :: int
  PreferNodeID :: id
  RequireNodeID :: id

record GPUDevice =
  gd_id :: id
  gd_index :: int
  gd_vram :: int
  gd_used :: int
  gd_util :: int

record Node =
  nd_id :: id
  nd_hostname :: string
  nd_status :: string
  nd_total_cpu :: int
  nd_total_ram :: int
  nd_total_vram :: int
  FreeCPU :: int
  FreeRAMMB :: int
  FreeVRAMMB :: int
  nd_cpu_util :: rat
  RuntimeCount :: int
  GPUDevices :: "GPUDevice list"

abbreviation HasGPU :: "Node \<Rightarrow> bool" where
  "HasGPU n \<equiv> GPUDevices n \<noteq> []"

record ScoredNode =
  sn_node :: Node
  sn_score :: rat

datatype shortage =
    ShortVRAM int int
  | ShortRAM int int
  | ShortCPU int int
  | NoGPUForAccelerator
  | NoGPUForMode

datatype placement_error =
    MissingNodeID
  | MissingNodeGroup
  | MissingSelector
  | LoadFailed sql_error
  | PlacementValidationError string "shortage list" "(string \<times> int) list" "(string \<times> int) list"
  | ErrInsufficientCapacity

record PlacementDecision =
  pd_id :: id
  pd_node :: id
  pd_hostname :: string
  GPUDeviceIndices :: "int list"
  pd_weight :: int
  pd_effective :: int
  pd_score :: rat
  pd_candidates :: "(id \<times> rat) list"

subsection \<open>Loading candidates\<close>

definition latest :: "id \<Rightarrow> sched_db \<Rightarrow> telemetry_row option" where
  "latest nid db =
     (case rev (sort_key nt_recorded (filter (\<lambda>t. nt_node t = nid) (node_telemetry db))) of
        [] \<Rightarrow> None | t # _ \<Rightarrow> Some t)"

definition runtime_count :: "id \<Rightarrow> sched_db \<Rightarrow> int" where
  "runtime_count nid db =
     int (length (filter (\<lambda>r. ar_node r = nid \<and> ar_state r \<in> {''ready'', ''active'', ''warm'', ''loading_model''})
       (agent_runtimes db)))"

definition labels_contain :: "(string \<times> string) list \<Rightarrow> (string \<times> string) list \<Rightarrow> bool" where
  "labels_contain labels sel \<longleftrightarrow> list_all (\<lambda>(k, v). map_of labels k = Some v) sel"

text \<open>The mode-specific part of the WHERE clause, or the error for an incomplete request.\<close>

definition mode_filter :: "PlacementRequest \<Rightarrow> placement_error + (node_row \<Rightarrow> bool)" where
  "mode_filter req =
     (case Mode req of
        ModeSpecificNode \<Rightarrow>
          if SpecificNodeID req = '''' then Inl MissingNodeID else Inr (\<lambda>n. n_id n = SpecificNodeID req)
      | ModeNodeGroup \<Rightarrow>
          if NodeGroupID req = '''' then Inl MissingNodeGroup
          else Inr (\<lambda>n. labels_contain (n_labels n) [(''node_group'', NodeGroupID req)])
      | ModeLabelSelector \<Rightarrow>
          if NodeSelector req = [] then Inl MissingSelector
          else Inr (\<lambda>n. labels_contain (n_labels n) (NodeSelector req))
      | ModeAuto \<Rightarrow>
          (case pr_strategy req of
             StrategyPinned \<Rightarrow> if PinnedNodeID req \<noteq> '''' then Inr (\<lambda>n. n_id n = PinnedNodeID req) else Inr (\<lambda>_. True)
           | _ \<Rightarrow> if RequireNodeID req \<noteq> '''' then Inr (\<lambda>n. n_id n = RequireNodeID req) else Inr (\<lambda>_. True)))"

definition schedulable :: "node_row \<Rightarrow> bool" where
  "schedulable n \<longleftrightarrow> (n_status n = ''online'' \<or> n_status n = ''degraded'') \<and> \<not> n_cordoned n"

definition to_device :: "gpu_row \<Rightarrow> GPUDevice" where
  "to_device g = \<lparr>gd_id = g_id g, gd_index = g_index g, gd_vram = g_vram g, gd_used = g_used g, gd_util = g_util g\<rparr>"

definition enrich :: "faults \<Rightarrow> sched_db \<Rightarrow> node_row \<Rightarrow> Node" where
  "enrich flt db r =
     (let rawGPUs = (if flt ''gpu batch'' then [] else filter (\<lambda>g. g_node g = n_id r) (gpu_devices db));
          freeVRAM = sum_list (map (\<lambda>g. g_vram g - g_used g) rawGPUs);
          ramAvail = (if flt ''ram batch'' then 0 else (case latest (n_id r) db of None \<Rightarrow> 0 | Some t \<Rightarrow> nt_ram_avail t));
          ramAvail = (if ramAvail = 0 \<and> n_total_ram r > 0 then n_total_ram r div 2 else ramAvail);
          allocCPU = (if flt ''cpu batch'' then 0
                      else sum_list (map ca_cores (filter (\<lambda>c. ca_node c = n_id r \<and> \<not> ca_released c) (cpu_allocations db))))
      in \<lparr>nd_id = n_id r, nd_hostname = n_hostname r, nd_status = n_status r, nd_total_cpu = n_total_cpu r,
          nd_total_ram = n_total_ram r, nd_total_vram = n_total_vram r, FreeCPU = n_total_cpu r - allocCPU,
          FreeRAMMB = ramAvail, FreeVRAMMB = freeVRAM,
          nd_cpu_util = (case latest (n_id r) db of None \<Rightarrow> 0 | Some t \<Rightarrow> nt_cpu_util t),
          RuntimeCount = runtime_count (n_id r) db, GPUDevices = map to_device rawGPUs\<rparr>)"

definition shortages :: "Node \<Rightarrow> PlacementRequest \<Rightarrow> shortage list" where
  "shortages node req =
     (if RequiredVRAMMB req > 0 \<and> FreeVRAMMB node < RequiredVRAMMB req
      then [ShortVRAM (RequiredVRAMMB req) (FreeVRAMMB node)] else []) @
     (if RequiredRAMMB req > 0 \<and> FreeRAMMB node < RequiredRAMMB req
      then [ShortRAM (RequiredRAMMB req) (FreeRAMMB node)] else []) @
     (if RequiredCPU req > 0 \<and> FreeCPU node < RequiredCPU req
      then [ShortCPU (RequiredCPU req) (FreeCPU node)] else []) @
     (if AcceleratorReq req = AcceleratorGPU \<and> \<not> HasGPU node then [NoGPUForAccelerator] else []) @
     (if ExecutionMode req = ''gpu'' \<and> \<not> HasGPU node then [NoGPUForMode] else [])"

definition validateNodeResources :: "Node \<Rightarrow> PlacementRequest \<Rightarrow> placement_error option" where
  "validateNodeResources node req =
     (let failures = shortages node req;
          rows = (if RequiredVRAMMB req > 0 then [(''vram_mb'', RequiredVRAMMB req, FreeVRAMMB node)] else []) @
                 (if RequiredRAMMB req > 0 then [(''ram_mb'', RequiredRAMMB req, FreeRAMMB node)] else []) @
                 (if RequiredCPU req > 0 then [(''cpu'', RequiredCPU req, FreeCPU node)] else [])
      in if failures = [] then None
         else Some (PlacementValidationError (nd_hostname node) failures
                (map (\<lambda>(k, r, a). (k, r)) rows) (map (\<lambda>(k, r, a). (k, a)) rows)))"

fun joinStrings :: "string list \<Rightarrow> string \<Rightarrow> string" where
  "joinStrings [] sep = ''''"
| "joinStrings [s] sep = s"
| "joinStrings (s # ss) sep = s @ sep @ joinStrings ss sep"

definition too_small :: "Node \<Rightarrow> PlacementRequest \<Rightarrow> bool" where
  "too_small node req \<longleftrightarrow>
     RequiredVRAMMB req > 0 \<and> FreeVRAMMB node < RequiredVRAMMB req \<or>
     RequiredRAMMB req > 0 \<and> FreeRAMMB node < RequiredRAMMB req \<or>
     RequiredCPU req > 0 \<and> FreeCPU node < RequiredCPU req \<or>
     ExecutionMode req = ''gpu'' \<and> \<not> HasGPU node"

definition accelerator_skip :: "Node \<Rightarrow> PlacementRequest \<Rightarrow> bool" where
  "accelerator_skip node req =
     (case AcceleratorReq req of AcceleratorGPU \<Rightarrow> \<not> HasGPU node | AcceleratorCPU \<Rightarrow> HasGPU node | AcceleratorAny \<Rightarrow> False)"

fun enrich_loop ::
    "faults \<Rightarrow> sched_db \<Rightarrow> PlacementRequest \<Rightarrow> node_row list \<Rightarrow> placement_error + Node list" where
  "enrich_loop flt db req [] = Inr []"
| "enrich_loop flt db req (r # rs) =
     (let node = enrich flt db r in
      case (if Mode req = ModeSpecificNode then validateNodeResources node req else None) of
        Some e \<Rightarrow> Inl e
      | None \<Rightarrow>
          if Mode req \<noteq> ModeSpecificNode \<and> too_small node req \<or> accelerator_skip node req
          then enrich_loop flt db req rs
          else bindE (enrich_loop flt db req rs) (\<lambda>ns. Inr (node # ns)))"

definition hosts_model :: "faults \<Rightarrow> sched_db \<Rightarrow> id \<Rightarrow> Node \<Rightarrow> bool" where
  "hosts_model flt db model n \<longleftrightarrow> \<not> flt ''existing nodes'' \<and>
     list_ex (\<lambda>r. ar_model r = model \<and> ar_node r = nd_id n \<and>
        ar_state r \<notin> {''stopped'', ''deleted'', ''archived'', ''unloaded'', ''failed'', ''lost''}) (agent_runtimes db)"

definition spread_packed :: "faults \<Rightarrow> sched_db \<Rightarrow> PlacementRequest \<Rightarrow> Node list \<Rightarrow> Node list" where
  "spread_packed flt db req ns =
     (let here = filter (hosts_model flt db (pr_model req)) ns;
          other = filter (\<lambda>n. \<not> hosts_model flt db (pr_model req) n) ns
      in if pr_strategy req = StrategySpread \<and> pr_model req \<noteq> '''' then (if other \<noteq> [] then other @ here else ns)
         else if pr_strategy req = StrategyPacked \<and> pr_model req \<noteq> '''' then (if here \<noteq> [] then here @ other else ns)
         else ns)"

definition loadCandidateNodes :: "faults \<Rightarrow> sched_db \<Rightarrow> PlacementRequest \<Rightarrow> placement_error + Node list" where
  "loadCandidateNodes flt db req =
     bindE (mode_filter req) (\<lambda>p.
     if flt ''select nodes'' then Inl (LoadFailed SqlDown)
     else
       (let rows = sort_key (\<lambda>n. - n_total_vram n) (filter (\<lambda>n. schedulable n \<and> p n) (nodes db)) in
        if rows = [] then Inr []
        else bindE (enrich_loop flt db req rows) (\<lambda>ns. Inr (spread_packed flt db req ns))))"

subsection \<open>Scoring and sorting\<close>

definition scoreNode :: "faults \<Rightarrow> sched_db \<Rightarrow> Node \<Rightarrow> PlacementRequest \<Rightarrow> rat" where
  "scoreNode flt db node req =
     (let score = (if RequiredVRAMMB req > 0 \<and> nd_total_vram node > 0
                   then of_int (FreeVRAMMB node) / of_int (nd_total_vram node) * 200 else 100);
          score = score + (if nd_total_ram node > 0 then of_int (FreeRAMMB node) / of_int (nd_total_ram node) * 100 else 50);
          score = score + (if nd_total_cpu node > 0 then of_int (FreeCPU node) / of_int (nd_total_cpu node) * 100 else 50);
          gpuUtilScore = (if GPUDevices node = [] then 75
             else sum_list (map (\<lambda>g. (1 - of_int (gd_util g) / 100) * 150 / of_nat (length (GPUDevices node))) (GPUDevices node)));
          score = score + gpuUtilScore;
          score = score + (if RuntimeCount node < 5 then 100 else if RuntimeCount node < 10 then 50 else 0);
          score = score + (if nd_status node = ''online'' then 50 else 0);
          score = score + (if pr_model req \<noteq> '''' \<and> \<not> flt ''cache lookup'' \<and>
                              (nd_id node, pr_model req) \<in> set (node_model_cache db) then 150 else 0)
      in score + of_int (pr_effective req) / 1000 * 200)"

definition less :: "ScoredNode \<Rightarrow> ScoredNode \<Rightarrow> bool" where
  "less a b =
     (if sn_score a \<noteq> sn_score b then sn_score a > sn_score b
      else if FreeVRAMMB (sn_node a) \<noteq> FreeVRAMMB (sn_node b) then FreeVRAMMB (sn_node a) > FreeVRAMMB (sn_node b)
      else if RuntimeCount (sn_node a) \<noteq> RuntimeCount (sn_node b)
           then RuntimeCount (sn_node a) < RuntimeCount (sn_node b)
      else nd_id (sn_node a) < nd_id (sn_node b))"

text \<open>\<open>for j := i; j > 0 && less(nodes[j], nodes[j-1]); j--\<close> swaps in place.\<close>

fun sift_down :: "nat \<Rightarrow> ScoredNode list \<Rightarrow> ScoredNode list" where
  "sift_down 0 ns = ns"
| "sift_down (Suc j) ns =
     (if less (ns ! Suc j) (ns ! j) then sift_down j (ns[Suc j := ns ! j, j := ns ! Suc j]) else ns)"

definition sortScoredNodes :: "ScoredNode list \<Rightarrow> ScoredNode list" where
  "sortScoredNodes ns = fold sift_down [1..<length ns] ns"

subsection \<open>Deciding\<close>

definition buildDecision :: "ScoredNode \<Rightarrow> PlacementRequest \<Rightarrow> ScoredNode list \<Rightarrow> PlacementDecision" where
  "buildDecision best req alternatives =
     \<lparr>pd_id = '''', pd_node = nd_id (sn_node best), pd_hostname = nd_hostname (sn_node best),
      GPUDeviceIndices = map gd_index (take (nat (RequiredGPUs req)) (GPUDevices (sn_node best))),
      pd_weight = pr_weight req, pd_effective = pr_effective req, pd_score = sn_score best,
      pd_candidates = map (\<lambda>a. (nd_id (sn_node a), sn_score a)) (take 5 alternatives)\<rparr>"

definition recordDecision :: "faults \<Rightarrow> id \<Rightarrow> PlacementRequest \<Rightarrow> PlacementDecision \<Rightarrow> sched_db \<Rightarrow> sched_db" where
  "recordDecision flt newID req dec db =
     (if flt ''record decision'' then db
      else db\<lparr>scheduler_decisions := scheduler_decisions db @
             [\<lparr>d_id = newID, d_model = pr_model req, d_node = pd_node dec, d_score = pd_score dec, d_outcome = ''pending''\<rparr>]\<rparr>)"

definition Decide ::
    "faults \<Rightarrow> id \<Rightarrow> PlacementRequest \<Rightarrow> sched_db \<Rightarrow> (placement_error + PlacementDecision) \<times> sched_db" where
  "Decide flt newID req db =
     (case loadCandidateNodes flt db req of
        Inl e \<Rightarrow> (Inl e, db)
      | Inr candidates \<Rightarrow>
          if candidates = [] then (Inl ErrInsufficientCapacity, db)
          else
            (let scored = sortScoredNodes (map (\<lambda>n. \<lparr>sn_node = n, sn_score = scoreNode flt db n req\<rparr>) candidates);
                 dec = buildDecision (hd scored) req (tl scored)
             in (Inr (dec\<lparr>pd_id := newID\<rparr>), recordDecision flt newID req dec db)))"

definition Apply :: "faults \<Rightarrow> PlacementDecision \<Rightarrow> sched_db \<Rightarrow> id \<times> sched_db" where
  "Apply flt dec db =
     (pd_id dec,
      if flt ''apply'' then db
      else db\<lparr>scheduler_decisions :=
             map (\<lambda>d. if d_id d = pd_id dec then d\<lparr>d_outcome := ''success''\<rparr> else d) (scheduler_decisions db)\<rparr>)"

subsection \<open>The retry queue\<close>

fun double_delay :: "nat \<Rightarrow> int \<Rightarrow> int" where
  "double_delay 0 delay = delay"
| "double_delay (Suc i) delay = double_delay i (delay * 2)"

text \<open>Seconds: \<open>base\<close> 30 s, doubled at most six times, capped at 30 min.\<close>

definition backoff :: "int \<Rightarrow> int" where
  "backoff attempts =
     (let delay = double_delay (min (nat attempts) 6) 30 in if delay > 1800 then 1800 else delay)"

definition ToPlacementRequest ::
    "(string \<Rightarrow> (id \<times> string) option) \<Rightarrow> queue_row \<Rightarrow> PlacementRequest option" where
  "ToPlacementRequest unmarshal q =
     (case unmarshal (q_config q) of
        None \<Rightarrow> None
      | Some (modelID, modelName) \<Rightarrow>
          Some \<lparr>pr_model = modelID, pr_model_name = modelName, pr_project = q_project q,
                RequiredCPU = q_cpu q, RequiredRAMMB = q_ram q, RequiredVRAMMB = q_vram q, RequiredGPUs = 0,
                ExecutionMode = q_mode q, Mode = ModeAuto, SpecificNodeID = '''', NodeGroupID = '''',
                NodeSelector = [], pr_strategy = StrategyAuto, AcceleratorReq = AcceleratorAny,
                PinnedNodeID = '''', pr_weight = q_weight q, pr_effective = q_effective q,
                PreferNodeID = (case q_prefer q of None \<Rightarrow> '''' | Some p \<Rightarrow> p), RequireNodeID = ''''\<rparr>)"

definition due :: "int \<Rightarrow> queue_row \<Rightarrow> bool" where
  "due now q \<longleftrightarrow> q_status q = QueuePending \<and> (case q_next_retry q of None \<Rightarrow> True | Some t \<Rightarrow> t \<le> now)"

definition queue_batch :: "int \<Rightarrow> sched_db \<Rightarrow> queue_row list" where
  "queue_batch now db =
     take 10 (sort_key (\<lambda>q. - q_weight q) (sort_key q_enqueued (filter (due now) (deployment_queue db))))"

definition set_queue :: "faults \<Rightarrow> string \<Rightarrow> id \<Rightarrow> (queue_row \<Rightarrow> queue_row) \<Rightarrow> sched_db \<Rightarrow> sched_db" where
  "set_queue flt lbl qid f db =
     (if flt lbl then db
      else db\<lparr>deployment_queue := map (\<lambda>q. if q_id q = qid then f q else q) (deployment_queue db)\<rparr>)"

definition process_item ::
    "faults \<Rightarrow> (string \<Rightarrow> (id \<times> string) option) \<Rightarrow> int \<Rightarrow> id \<Rightarrow> queue_row \<Rightarrow> sched_db \<Rightarrow> sched_db" where
  "process_item flt unmarshal now newID item db =
     (case ToPlacementRequest unmarshal item of
        None \<Rightarrow> db
      | Some req \<Rightarrow>
          (case Decide flt newID req db of
             (Inl e, db') \<Rightarrow>
               set_queue flt ''queue retry'' (q_id item)
                 (\<lambda>q. q\<lparr>q_attempts := q_attempts q + 1, q_last_attempt := Some now,
                         q_next_retry := Some (now + backoff (q_attempts item))\<rparr>) db'
           | (Inr dec, db') \<Rightarrow>
               set_queue flt ''queue deployed'' (q_id item)
                 (\<lambda>q. q\<lparr>q_status := QueueDeployed, q_last_attempt := Some now\<rparr>) db'))"

definition processQueue ::
    "(id \<Rightarrow> faults) \<Rightarrow> bool \<Rightarrow> (string \<Rightarrow> (id \<times> string) option) \<Rightarrow> int \<Rightarrow> (id \<Rightarrow> id) \<Rightarrow> sched_db \<Rightarrow> sched_db" where
  "processQueue flt query_fails unmarshal now newID db =
     (if query_fails then db
      else fold (\<lambda>q. process_item (flt (q_id q)) unmarshal now (newID (q_id q)) q) (queue_batch now db) db)"

end
