(* ===== verification/Scheduler_Props.thy ===== *)
theory Scheduler_Props
  imports Scheduler "HOL-Library.Product_Lexorder"
begin

text \<open>
  Correctness of the scheduler: the insertion sort is the stable sort by score, the decision picks
  a best node among exactly those that satisfy the hard constraints, and the retry queue backs off.
\<close>

subsection \<open>The insertion sort is the stable sort\<close>

definition rank :: "ScoredNode \<Rightarrow> rat \<times> int \<times> int \<times> string" where
  "rank a = (- sn_score a, - FreeVRAMMB (sn_node a), RuntimeCount (sn_node a), nd_id (sn_node a))"

lemma less_rank: "less a b \<longleftrightarrow> rank a < rank b"
  by (auto simp: less_def rank_def less_prod_def')

fun ins_rev :: "ScoredNode \<Rightarrow> ScoredNode list \<Rightarrow> ScoredNode list" where
  "ins_rev y [] = [y]"
| "ins_rev y (x # xs) = (if less y x then x # ins_rev y xs else y # x # xs)"

lemma sift_down_ins: "sift_down (length xs) (xs @ y # zs) = rev (ins_rev y (rev xs)) @ zs"
proof (induction xs arbitrary: zs rule: rev_induct)
  case (snoc x xs)
  have "(xs @ [x]) @ y # zs = xs @ x # y # zs" by simp
  moreover have "(xs @ x # y # zs)[Suc (length xs) := x, length xs := y] = xs @ y # x # zs"
    by (simp add: list_update_append)
  ultimately show ?case using snoc.IH [of "x # zs"] by (simp add: nth_append)
qed simp

lemma ins_rev_mset: "mset (ins_rev y xs) = add_mset y (mset xs)"
  by (induction xs) auto

lemma ins_rev_sorted: "sorted (map rank (rev xs)) \<Longrightarrow> sorted (map rank (rev (ins_rev y xs)))"
proof (induction xs)
  case (Cons x xs)
  have set: "set (ins_rev y xs) = insert y (set xs)" by (metis ins_rev_mset set_mset_add_mset_insert set_mset_mset)
  from Cons show ?case by (auto simp: sorted_append less_rank set not_less)
qed simp

lemma ins_rev_filter: "filter (\<lambda>x. k = rank x) (ins_rev y xs) = filter (\<lambda>x. k = rank x) (y # xs)"
  by (induction xs) (auto simp: less_rank)

lemma fold_sift:
  assumes "m \<le> length ns" and "0 < m"
  shows "fold sift_down [1..<m] ns = sort_key rank (take m ns) @ drop m ns"
  using assms
proof (induction m)
  case (Suc m)
  show ?case
  proof (cases "m = 0")
    case True
    with Suc.prems show ?thesis by (cases ns) simp_all
  next
    case False
    then have m: "fold sift_down [1..<m] ns = sort_key rank (take m ns) @ drop m ns" using Suc by simp
    define xs where "xs = sort_key rank (take m ns)"
    have len: "length xs = m" and lt: "m < length ns" using Suc.prems by (simp_all add: xs_def)
    have "fold sift_down [1..<Suc m] ns = sift_down m (xs @ drop m ns)"
      using False m by (simp add: xs_def)
    also have "drop m ns = ns ! m # drop (Suc m) ns" using lt by (rule Cons_nth_drop_Suc [symmetric])
    also have "sift_down m (xs @ ns ! m # drop (Suc m) ns) = rev (ins_rev (ns ! m) (rev xs)) @ drop (Suc m) ns"
      using sift_down_ins [of xs] len by simp
    also have "rev (ins_rev (ns ! m) (rev xs)) = sort_key rank (take (Suc m) ns)"
    proof (rule properties_for_sort_key [symmetric])
      show "mset (rev (ins_rev (ns ! m) (rev xs))) = mset (take (Suc m) ns)"
        using lt by (simp add: ins_rev_mset xs_def take_Suc_conv_app_nth)
      show "sorted (map rank (rev (ins_rev (ns ! m) (rev xs))))"
        by (rule ins_rev_sorted) (simp add: xs_def)
      fix k
      have "filter (\<lambda>x. rank k = rank x) (rev (ins_rev (ns ! m) (rev xs))) =
          rev (filter (\<lambda>x. rank k = rank x) (ns ! m # rev xs))"
        by (simp add: ins_rev_filter flip: rev_filter)
      also have "\<dots> = filter (\<lambda>x. rank k = rank x) xs @ filter (\<lambda>x. rank k = rank x) [ns ! m]"
        by (simp flip: rev_filter)
      also have "filter (\<lambda>x. rank k = rank x) xs = filter (\<lambda>x. rank k = rank x) (take m ns)"
        unfolding xs_def eq_commute [of "rank k"] by (rule sort_key_stable)
      finally show "filter (\<lambda>x. rank k = rank x) (rev (ins_rev (ns ! m) (rev xs))) =
          filter (\<lambda>x. rank k = rank x) (take (Suc m) ns)"
        using lt by (simp add: take_Suc_conv_app_nth)
    qed
    finally show ?thesis .
  qed
qed simp

lemma sortScoredNodes_sort: "sortScoredNodes ns = sort_key rank ns"
  using fold_sift [of "length ns" ns] by (cases ns) (simp_all add: sortScoredNodes_def)

lemma sort_key_mset:
  assumes "mset xs = mset ys" and "inj_on f (set xs)"
  shows "sort_key f xs = sort_key f ys"
proof -
  have "sort (map f xs) = sort (map f ys)"
    using assms(1) by (metis mset_map sorted_list_of_multiset_mset)
  moreover have "map f (sort_key f zs) = sort (map f zs)" for zs
    by (rule properties_for_sort [symmetric]) simp_all
  ultimately have eq: "map f (sort_key f xs) = map f (sort_key f ys)" by simp
  have "set ys = set xs" using assms(1) by (metis set_mset_mset)
  with assms(2) have "inj_on f (set (sort_key f xs) \<union> set (sort_key f ys))" by simp
  with eq show ?thesis by (rule map_inj_on)
qed

subsection \<open>Candidates\<close>

definition accepts :: "Node \<Rightarrow> PlacementRequest \<Rightarrow> bool" where
  "accepts node req \<longleftrightarrow> \<not> too_small node req \<and> \<not> accelerator_skip node req"

lemma validate_None: "validateNodeResources node req = None \<Longrightarrow> \<not> too_small node req"
  by (auto simp: validateNodeResources_def Let_def shortages_def too_small_def split: if_splits)

lemma enrich_loop_Inr:
  "enrich_loop flt db req rs = Inr ns \<Longrightarrow> ns = map (enrich flt db) (filter (\<lambda>r. accepts (enrich flt db r) req) rs)"
proof (induction rs arbitrary: ns)
  case (Cons r rs)
  show ?case
  proof (cases "Mode req = ModeSpecificNode")
    case True
    with Cons show ?thesis
      by (auto simp: Let_def accepts_def split: option.splits if_splits dest: validate_None)
  next
    case False
    with Cons show ?thesis by (auto simp: Let_def accepts_def split: if_splits)
  qed
qed simp

lemma enrich_loop_total:
  "Mode req \<noteq> ModeSpecificNode \<Longrightarrow> \<exists>ns. enrich_loop flt db req rs = Inr ns"
  by (induction rs) (auto simp: Let_def)

lemma spread_packed_mset: "mset (spread_packed flt db req ns) = mset ns"
proof -
  define A where "A = filter (hosts_model flt db (pr_model req)) ns"
  define B where "B = filter (\<lambda>n. \<not> hosts_model flt db (pr_model req) n) ns"
  have "mset A + mset B = mset ns" by (simp add: A_def B_def mset_filter)
  then show ?thesis
    unfolding spread_packed_def Let_def A_def [symmetric] B_def [symmetric] by (auto simp: add.commute)
qed

lemma spread_packed_set: "set (spread_packed flt db req ns) = set ns"
  using spread_packed_mset by (metis set_mset_mset)

lemma loadCandidateNodes_InrD:
  assumes "loadCandidateNodes flt db req = Inr ns"
  obtains p where "mode_filter req = Inr p"
    and "set ns = enrich flt db ` {r \<in> set (nodes db). schedulable r \<and> p r \<and> accepts (enrich flt db r) req}"
proof -
  from assms obtain p where p: "mode_filter req = Inr p"
    by (cases "mode_filter req") (simp_all add: loadCandidateNodes_def)
  define rows where "rows = sort_key (\<lambda>n. - n_total_vram n) (filter (\<lambda>n. schedulable n \<and> p n) (nodes db))"
  have rows: "set rows = {r \<in> set (nodes db). schedulable r \<and> p r}" by (auto simp: rows_def)
  have load: "(if flt ''select nodes'' then Inl (LoadFailed SqlDown)
      else if rows = [] then Inr []
      else bindE (enrich_loop flt db req rows) (\<lambda>ns. Inr (spread_packed flt db req ns))) = Inr ns"
    using assms unfolding loadCandidateNodes_def p bindE_simps Let_def rows_def .
  have "set ns = enrich flt db ` {r \<in> set rows. accepts (enrich flt db r) req}"
  proof (cases "rows = []")
    case True
    with load show ?thesis by (simp split: if_splits)
  next
    case False
    with load obtain ms where ms: "enrich_loop flt db req rows = Inr ms" "ns = spread_packed flt db req ms"
      by (cases "enrich_loop flt db req rows") (simp_all split: if_splits)
    show ?thesis unfolding ms(2) spread_packed_set enrich_loop_Inr [OF ms(1)] by auto
  qed
  then show thesis using p by (intro that [of p]) (simp_all add: rows conj_ac)
qed

lemma Decide_InrD:
  assumes "Decide flt newID req db = (Inr dec, db')"
  obtains ns n where "loadCandidateNodes flt db req = Inr ns" and "n \<in> set ns" and "pd_node dec = nd_id n"
    and "pd_score dec = scoreNode flt db n req" and "pd_hostname dec = nd_hostname n"
    and "GPUDeviceIndices dec = map gd_index (take (nat (RequiredGPUs req)) (GPUDevices n))"
    and "\<forall>m\<in>set ns. scoreNode flt db m req \<le> scoreNode flt db n req"
proof -
  from assms obtain ns where ns: "loadCandidateNodes flt db req = Inr ns" "ns \<noteq> []"
    by (auto simp: Decide_def split: sum.splits if_splits)
  let ?sc = "map (\<lambda>n. \<lparr>sn_node = n, sn_score = scoreNode flt db n req\<rparr>) ns"
  let ?best = "hd (sort_key rank ?sc)"
  have ne: "sort_key rank ?sc \<noteq> []" using ns(2) by (metis length_0_conv length_map length_sort)
  then obtain b bs where bb: "sort_key rank ?sc = b # bs" by (cases "sort_key rank ?sc") auto
  have "b \<in> set ?sc" using bb by (metis list.set_intros(1) set_sort)
  then obtain n where n: "n \<in> set ns" "b = \<lparr>sn_node = n, sn_score = scoreNode flt db n req\<rparr>" by auto
  have "sorted (map rank (b # bs))" using sorted_sort_key [of rank ?sc] bb by simp
  then have "rank b \<le> rank x" if "x \<in> set ?sc" for x
    using that bb by (metis (no_types, lifting) in_set_conv_decomp list.simps(9) order_refl set_ConsD set_sort sorted_simps(2) image_eqI list.set_map)
  then have "sn_score x \<le> sn_score b" if "x \<in> set ?sc" for x
    using that by (fastforce simp: rank_def less_eq_prod_def)
  from this [of "\<lparr>sn_node = m, sn_score = scoreNode flt db m req\<rparr>" for m]
  have max: "\<forall>m\<in>set ns. scoreNode flt db m req \<le> scoreNode flt db n req" by (simp add: n(2))
  have dec: "dec = (buildDecision b req bs)\<lparr>pd_id := newID\<rparr>"
    using assms ns bb by (auto simp: Decide_def sortScoredNodes_sort Let_def)
  show thesis by (rule that [OF ns(1) n(1)]) (use dec n(2) max in \<open>simp_all add: buildDecision_def\<close>)
qed

subsection \<open>A small cluster\<close>

definition demo_node :: "id \<Rightarrow> int \<Rightarrow> node_row" where
  "demo_node i vram = \<lparr>n_id = i, n_hostname = i, n_status = ''online'', n_cordoned = False, n_total_cpu = 8,
     n_total_ram = 64, n_total_vram = vram, n_labels = []\<rparr>"

definition demo_gpu :: "id \<Rightarrow> int \<Rightarrow> int \<Rightarrow> gpu_row" where
  "demo_gpu n vram util = \<lparr>g_node = n, g_id = n, g_index = 0, g_name = [], g_vram = vram, g_used = 0, g_util = util,
     g_temp = 0, g_numa = 0\<rparr>"

definition demo_item :: "id \<Rightarrow> string \<Rightarrow> int \<Rightarrow> queue_row" where
  "demo_item i cfg vram = \<lparr>q_id = i, q_project = [], q_config = cfg, q_weight = 500, q_effective = 500, q_vram = vram,
     q_ram = 0, q_cpu = 0, q_mode = [], q_prefer = None, q_attempts = 0, q_enqueued = 0, q_last_attempt = None,
     q_next_retry = None, q_status = QueuePending\<rparr>"

definition demo_cluster :: sched_db where
  "demo_cluster = \<lparr>nodes = [demo_node ''a'' 16, demo_node ''b'' 40, demo_node ''c'' 80], node_telemetry = [],
     agent_runtimes = [], cpu_allocations = [],
     gpu_devices = [demo_gpu ''a'' 16 0, demo_gpu ''b'' 40 20, demo_gpu ''c'' 80 90],
     node_model_cache = [], deployment_queue = [demo_item ''q1'' ''m'' 30, demo_item ''q2'' ''m'' 100],
     scheduler_decisions = []\<rparr>"

definition demo_request :: PlacementRequest where
  "demo_request = \<lparr>pr_model = ''m'', pr_model_name = ''m'', pr_project = [], RequiredCPU = 2, RequiredRAMMB = 16,
     RequiredVRAMMB = 30, RequiredGPUs = 1, ExecutionMode = ''gpu'', Mode = ModeAuto, SpecificNodeID = [],
     NodeGroupID = [], NodeSelector = [], pr_strategy = StrategyAuto, AcceleratorReq = AcceleratorAny,
     PinnedNodeID = [], pr_weight = 500, pr_effective = 500, PreferNodeID = [], RequireNodeID = []\<rparr>"

lemmas demo_defs = demo_node_def demo_gpu_def demo_item_def demo_cluster_def demo_request_def

lemma demo_decides:
  "map_sum id pd_node (fst (Decide (\<lambda>_. False) ''d'' demo_request demo_cluster)) = Inr ''b''"
  by code_simp

text \<open>The contract of a placement: the nodes a request may be placed on.\<close>

definition qualifies :: "faults \<Rightarrow> sched_db \<Rightarrow> PlacementRequest \<Rightarrow> (node_row \<Rightarrow> bool) \<Rightarrow> node_row \<Rightarrow> bool" where
  "qualifies flt db req p r \<longleftrightarrow> schedulable r \<and> p r \<and>
     \<not> too_small (enrich flt db r) req \<and> \<not> accelerator_skip (enrich flt db r) req"

text \<open>
  C12: a placement is feasible and best. The chosen node is in the cluster, online or degraded, not
  cordoned, matches the targeting mode, has the requested VRAM, RAM, CPU and GPUs, and no other
  node that qualifies has a higher score.
\<close>

theorem decide_feasible_and_best:
  assumes "Decide flt newID req db = (Inr dec, db')"
  shows "\<exists>p. mode_filter req = Inr p \<and>
    (\<exists>r\<in>set (nodes db). pd_node dec = n_id r \<and> qualifies flt db req p r \<and>
       (\<forall>s\<in>set (nodes db). qualifies flt db req p s \<longrightarrow>
          scoreNode flt db (enrich flt db s) req \<le> scoreNode flt db (enrich flt db r) req))"
proof -
  from assms obtain ns n where d: "loadCandidateNodes flt db req = Inr ns" "n \<in> set ns" "pd_node dec = nd_id n"
    "\<forall>m\<in>set ns. scoreNode flt db m req \<le> scoreNode flt db n req" by (rule Decide_InrD)
  from d(1) obtain p where p: "mode_filter req = Inr p"
    "set ns = enrich flt db ` {r \<in> set (nodes db). schedulable r \<and> p r \<and> accepts (enrich flt db r) req}"
    by (rule loadCandidateNodes_InrD)
  with d(2) obtain r where r: "r \<in> set (nodes db)" "schedulable r" "p r" "accepts (enrich flt db r) req"
    "n = enrich flt db r" by auto
  have "nd_id n = n_id r" by (simp add: r(5) enrich_def Let_def)
  with d(3,4) p r show ?thesis by (auto simp: accepts_def qualifies_def)
qed

theorem decide_feasible_and_best_witness:
  "\<exists>dec db'. Decide (\<lambda>_. False) ''d'' demo_request demo_cluster = (Inr dec, db') \<and> pd_node dec = ''b'' \<and>
    (\<exists>p. mode_filter demo_request = Inr p \<and>
      (\<exists>r\<in>set (nodes demo_cluster). pd_node dec = n_id r \<and> qualifies (\<lambda>_. False) demo_cluster demo_request p r \<and>
       (\<forall>s\<in>set (nodes demo_cluster). qualifies (\<lambda>_. False) demo_cluster demo_request p s \<longrightarrow>
          scoreNode (\<lambda>_. False) demo_cluster (enrich (\<lambda>_. False) demo_cluster s) demo_request
          \<le> scoreNode (\<lambda>_. False) demo_cluster (enrich (\<lambda>_. False) demo_cluster r) demo_request)))"
proof -
  obtain x db' where d: "Decide (\<lambda>_. False) ''d'' demo_request demo_cluster = (x, db')" by fastforce
  with demo_decides obtain dec where x: "x = Inr dec" "pd_node dec = ''b''" by (cases x) simp_all
  show ?thesis using d x(2) decide_feasible_and_best [OF d [unfolded x(1)]] unfolding x(1) by blast
qed

text \<open>
  Placement is complete: outside specific-node mode an undisturbed \<open>Decide\<close> answers
  \<open>ErrInsufficientCapacity\<close> exactly when no node of the cluster qualifies.
\<close>

theorem decide_complete:
  assumes "Mode req \<noteq> ModeSpecificNode" and "mode_filter req = Inr p"
  shows "fst (Decide (\<lambda>_. False) newID req db) = Inl ErrInsufficientCapacity \<longleftrightarrow>
    list_all (\<lambda>r. \<not> qualifies (\<lambda>_. False) db req p r) (nodes db)"
proof -
  have "\<exists>ns. loadCandidateNodes (\<lambda>_. False) db req = Inr ns"
    using enrich_loop_total [OF assms(1), of "\<lambda>_. False" db] assms(2)
    by (auto simp: loadCandidateNodes_def Let_def) (metis bindE_simps(2))
  then obtain ns where ns: "loadCandidateNodes (\<lambda>_. False) db req = Inr ns" by blast
  then obtain q where q: "mode_filter req = Inr q"
    "set ns = enrich (\<lambda>_. False) db ` {r \<in> set (nodes db). schedulable r \<and> q r \<and> accepts (enrich (\<lambda>_. False) db r) req}"
    by (rule loadCandidateNodes_InrD)
  have "fst (Decide (\<lambda>_. False) newID req db) = Inl ErrInsufficientCapacity \<longleftrightarrow> ns = []"
    using ns by (simp add: Decide_def Let_def)
  also have "\<dots> \<longleftrightarrow> set ns = {}" by simp
  finally show ?thesis using q assms(2) by (auto simp: accepts_def qualifies_def list_all_iff)
qed

theorem decide_complete_witness:
  "fst (Decide (\<lambda>_. False) ''d'' (demo_request\<lparr>RequiredVRAMMB := 100\<rparr>) demo_cluster) = Inl ErrInsufficientCapacity \<longleftrightarrow>
    list_all (\<lambda>r. \<not> qualifies (\<lambda>_. False) demo_cluster (demo_request\<lparr>RequiredVRAMMB := 100\<rparr>) (\<lambda>_. True) r)
      (nodes demo_cluster)"
  by (rule decide_complete) (simp_all add: demo_request_def mode_filter_def)

subsection \<open>The strategy does not matter\<close>

lemma strategy_irrelevant:
  "enrich_loop flt db (req\<lparr>pr_strategy := s\<rparr>) rs = enrich_loop flt db req rs"
  "scoreNode flt db n (req\<lparr>pr_strategy := s\<rparr>) = scoreNode flt db n req"
  "buildDecision b (req\<lparr>pr_strategy := s\<rparr>) as = buildDecision b req as"
  "recordDecision flt i (req\<lparr>pr_strategy := s\<rparr>) d db = recordDecision flt i req d db"
  by (induction rs) (simp_all add: Let_def too_small_def accelerator_skip_def validateNodeResources_def shortages_def
      scoreNode_def buildDecision_def recordDecision_def)

lemma mode_filter_strategy:
  "s \<noteq> StrategyPinned \<Longrightarrow> mode_filter (req\<lparr>pr_strategy := s\<rparr>) = mode_filter (req\<lparr>pr_strategy := StrategyAuto\<rparr>)"
  by (cases s) (simp_all add: mode_filter_def split: PlacementMode.splits)

lemma load_strategy:
  assumes "s \<noteq> StrategyPinned" and "distinct (map n_id (nodes db))"
  shows "rel_sum (=) (\<lambda>xs ys. mset xs = mset ys \<and> distinct (map nd_id xs))
    (loadCandidateNodes flt db (req\<lparr>pr_strategy := s\<rparr>)) (loadCandidateNodes flt db (req\<lparr>pr_strategy := StrategyAuto\<rparr>))"
proof (cases "mode_filter (req\<lparr>pr_strategy := StrategyAuto\<rparr>)")
  case (Inl e)
  then show ?thesis by (simp add: loadCandidateNodes_def mode_filter_strategy [OF assms(1)])
next
  case (Inr p)
  define rows where "rows = sort_key (\<lambda>n. - n_total_vram n) (filter (\<lambda>n. schedulable n \<and> p n) (nodes db))"
  have "distinct (map n_id rows)"
    using assms(2) by (simp add: rows_def distinct_map inj_on_def)
  then have "distinct (map nd_id ns)" if "enrich_loop flt db req rows = Inr ns" for ns
    using enrich_loop_Inr [OF that] by (auto simp: distinct_map inj_on_def enrich_def Let_def)
  moreover have "distinct (map nd_id (spread_packed flt db r ns)) = distinct (map nd_id ns)" for r ns
    by (metis spread_packed_mset mset_map mset_eq_imp_distinct_iff)
  ultimately show ?thesis
    unfolding loadCandidateNodes_def mode_filter_strategy [OF assms(1)] Inr bindE_simps Let_def rows_def [symmetric]
      strategy_irrelevant
    by (cases "enrich_loop flt db req rows") (simp_all add: spread_packed_mset)
qed

text \<open>
  The placement strategies \<open>spread\<close> and \<open>packed\<close> have no effect on a decision: \<open>Decide\<close> sorts
  the reordered candidates by score, so with distinct node ids it answers exactly what it answers
  under the automatic strategy.
\<close>

theorem spread_packed_no_effect:
  assumes "s \<noteq> StrategyPinned" and "distinct (map n_id (nodes db))"
  shows "Decide flt newID (req\<lparr>pr_strategy := s\<rparr>) db = Decide flt newID (req\<lparr>pr_strategy := StrategyAuto\<rparr>) db"
proof -
  let ?sc = "\<lambda>n. \<lparr>sn_node = n, sn_score = scoreNode flt db n req\<rparr>"
  have sort: "sort_key rank (map ?sc xs) = sort_key rank (map ?sc ys)"
    if "mset xs = mset ys" and "distinct (map nd_id xs)" for xs ys
  proof (rule sort_key_mset)
    show "mset (map ?sc xs) = mset (map ?sc ys)" using that(1) by simp
    show "inj_on rank (set (map ?sc xs))" using that(2) by (auto simp: inj_on_def rank_def distinct_map)
  qed
  from load_strategy [OF assms, of flt req] show ?thesis
  proof (cases rule: rel_sum.cases)
    case (1 a b)
    then show ?thesis by (simp add: Decide_def)
  next
    case (2 xs ys)
    then have "mset xs = mset ys" "distinct (map nd_id xs)" by simp_all
    with sort [of xs ys] have "sort_key rank (map ?sc xs) = sort_key rank (map ?sc ys)" and "xs = [] \<longleftrightarrow> ys = []"
      by auto
    with 2 show ?thesis by (simp add: Decide_def Let_def sortScoredNodes_sort strategy_irrelevant)
  qed
qed

theorem spread_packed_no_effect_witness:
  "Decide (\<lambda>_. False) ''d'' (demo_request\<lparr>pr_strategy := StrategySpread\<rparr>) demo_cluster
   = Decide (\<lambda>_. False) ''d'' (demo_request\<lparr>pr_strategy := StrategyAuto\<rparr>) demo_cluster"
  by (rule spread_packed_no_effect) (simp_all add: demo_defs)

subsection \<open>Score\<close>

definition node_sane :: "Node \<Rightarrow> bool" where
  "node_sane n \<longleftrightarrow> 0 \<le> FreeVRAMMB n \<and> FreeVRAMMB n \<le> nd_total_vram n \<and>
     0 \<le> FreeRAMMB n \<and> FreeRAMMB n \<le> nd_total_ram n \<and> 0 \<le> FreeCPU n \<and> FreeCPU n \<le> nd_total_cpu n \<and>
     list_all (\<lambda>g. 0 \<le> gd_util g \<and> gd_util g \<le> 100) (GPUDevices n)"

lemma share_bounds:
  fixes c :: rat
  assumes "0 \<le> a" and "a \<le> b" and "0 \<le> c"
  shows "0 \<le> of_int a / of_int b * c" and "of_int a / of_int b * c \<le> c"
proof -
  have q: "0 \<le> (of_int a / of_int b :: rat)" "(of_int a / of_int b :: rat) \<le> 1"
    using assms by (auto simp: divide_le_eq_1)
  show "0 \<le> of_int a / of_int b * c" by (rule mult_nonneg_nonneg [OF q(1) assms(3)])
  show "of_int a / of_int b * c \<le> c" by (rule mult_left_le_one_le [OF assms(3) q])
qed

lemma gpu_load_bounds:
  fixes gs :: "GPUDevice list"
  assumes "list_all (\<lambda>g. 0 \<le> gd_util g \<and> gd_util g \<le> 100) gs" and "0 \<le> (k::rat)"
  shows "0 \<le> sum_list (map (\<lambda>g. (1 - of_int (gd_util g) / 100) * 150 / k) gs)"
    and "sum_list (map (\<lambda>g. (1 - of_int (gd_util g) / 100) * 150 / k) gs) \<le> of_nat (length gs) * (150 / k)"
proof -
  have "0 \<le> (1 - of_int (gd_util g) / 100) * 150 / k \<and> (1 - of_int (gd_util g) / 100) * 150 / k \<le> 150 / k"
    if "g \<in> set gs" for g
  proof -
    from that assms have "0 \<le> (of_int (gd_util g) :: rat)" "(of_int (gd_util g) :: rat) \<le> 100"
      by (auto simp: list_all_iff)
    with assms(2) show ?thesis by (auto intro!: divide_right_mono)
  qed
  note each = this
  show "0 \<le> sum_list (map (\<lambda>g. (1 - of_int (gd_util g) / 100) * 150 / k) gs)"
    by (rule sum_list_nonneg) (use each in auto)
  have "sum_list (map (\<lambda>g. (1 - of_int (gd_util g) / 100) * 150 / k) gs) \<le> sum_list (map (\<lambda>g. 150 / k) gs)"
    by (rule sum_list_mono) (use each in blast)
  then show "sum_list (map (\<lambda>g. (1 - of_int (gd_util g) / 100) * 150 / k) gs) \<le> of_nat (length gs) * (150 / k)"
    by (simp add: sum_list_triv)
qed

text \<open>
  On a node whose free resources lie within its totals and for a priority in the range of the
  project weights, a score lies between 0 and 1050.
\<close>

theorem score_bounds:
  assumes "node_sane n" and "0 \<le> pr_effective req" and "pr_effective req \<le> 1000"
  shows "scoreNode flt db n req \<in> {0..1050}"
proof -
  let ?k = "of_nat (length (GPUDevices n)) :: rat"
  let ?gpu = "if GPUDevices n = [] then 75
     else sum_list (map (\<lambda>g. (1 - of_int (gd_util g) / 100) * 150 / ?k) (GPUDevices n))"
  have gpu: "0 \<le> ?gpu" "?gpu \<le> 150"
    using gpu_load_bounds [of "GPUDevices n" ?k] assms(1) by (auto simp: node_sane_def)
  have vram: "0 \<le> (if c then of_int (FreeVRAMMB n) / of_int (nd_total_vram n) * 200 else 100 :: rat)"
    "(if c then of_int (FreeVRAMMB n) / of_int (nd_total_vram n) * 200 else 100 :: rat) \<le> 200" for c
    using share_bounds [of "FreeVRAMMB n" "nd_total_vram n" 200] assms(1) by (auto simp: node_sane_def)
  have ram: "0 \<le> (if c then of_int (FreeRAMMB n) / of_int (nd_total_ram n) * 100 else 50 :: rat)"
    "(if c then of_int (FreeRAMMB n) / of_int (nd_total_ram n) * 100 else 50 :: rat) \<le> 100" for c
    using share_bounds [of "FreeRAMMB n" "nd_total_ram n" 100] assms(1) by (auto simp: node_sane_def)
  have cpu: "0 \<le> (if c then of_int (FreeCPU n) / of_int (nd_total_cpu n) * 100 else 50 :: rat)"
    "(if c then of_int (FreeCPU n) / of_int (nd_total_cpu n) * 100 else 50 :: rat) \<le> 100" for c
    using share_bounds [of "FreeCPU n" "nd_total_cpu n" 100] assms(1) by (auto simp: node_sane_def)
  have prio: "0 \<le> of_int (pr_effective req) / (1000::rat) * 200" "of_int (pr_effective req) / (1000::rat) * 200 \<le> 200"
    using share_bounds [of "pr_effective req" 1000 200] assms(2,3) by simp_all
  define v r c g p l h m where "v = (if RequiredVRAMMB req > 0 \<and> nd_total_vram n > 0
        then of_int (FreeVRAMMB n) / of_int (nd_total_vram n) * 200 else 100 :: rat)"
    and "r = (if nd_total_ram n > 0 then of_int (FreeRAMMB n) / of_int (nd_total_ram n) * 100 else 50 :: rat)"
    and "c = (if nd_total_cpu n > 0 then of_int (FreeCPU n) / of_int (nd_total_cpu n) * 100 else 50 :: rat)"
    and "g = ?gpu" and "p = of_int (pr_effective req) / (1000::rat) * 200"
    and "l = (if RuntimeCount n < 5 then 100 else if RuntimeCount n < 10 then 50 else 0 :: rat)"
    and "h = (if nd_status n = ''online'' then 50 else 0 :: rat)"
    and "m = (if pr_model req \<noteq> '''' \<and> \<not> flt ''cache lookup'' \<and>
        (nd_id n, pr_model req) \<in> set (node_model_cache db) then 150 else 0 :: rat)"
  have "scoreNode flt db n req = v + r + c + g + l + h + m + p"
    unfolding scoreNode_def Let_def v_def r_def c_def g_def l_def h_def m_def p_def ..
  moreover have "0 \<le> v \<and> v \<le> 200" "0 \<le> r \<and> r \<le> 100" "0 \<le> c \<and> c \<le> 100" "0 \<le> g \<and> g \<le> 150" "0 \<le> p \<and> p \<le> 200"
    unfolding v_def r_def c_def g_def p_def using vram ram cpu gpu prio by blast+
  moreover have "0 \<le> l \<and> l \<le> 100" "0 \<le> h \<and> h \<le> 50" "0 \<le> m \<and> m \<le> 150" by (simp_all add: l_def h_def m_def)
  ultimately show ?thesis by simp
qed

definition demo_idle :: Node where
  "demo_idle = \<lparr>nd_id = ''b'', nd_hostname = ''b'', nd_status = ''online'', nd_total_cpu = 8, nd_total_ram = 64,
     nd_total_vram = 40, FreeCPU = 8, FreeRAMMB = 64, FreeVRAMMB = 40, nd_cpu_util = 0, RuntimeCount = 0,
     GPUDevices = [to_device (demo_gpu ''b'' 40 0)]\<rparr>"

theorem score_bounds_witness:
  "scoreNode (\<lambda>_. False) (demo_cluster\<lparr>node_model_cache := [(''b'', ''m'')]\<rparr>) demo_idle (demo_request\<lparr>pr_effective := 1000\<rparr>)
     = 1050 \<and>
   scoreNode (\<lambda>_. False) (demo_cluster\<lparr>node_model_cache := [(''b'', ''m'')]\<rparr>) demo_idle (demo_request\<lparr>pr_effective := 1000\<rparr>)
     \<in> {0..1050}"
proof
  show "scoreNode (\<lambda>_. False) (demo_cluster\<lparr>node_model_cache := [(''b'', ''m'')]\<rparr>) demo_idle
      (demo_request\<lparr>pr_effective := 1000\<rparr>) = 1050"
    by (simp add: scoreNode_def demo_idle_def demo_request_def demo_cluster_def to_device_def demo_gpu_def)
  show "scoreNode (\<lambda>_. False) (demo_cluster\<lparr>node_model_cache := [(''b'', ''m'')]\<rparr>) demo_idle
      (demo_request\<lparr>pr_effective := 1000\<rparr>) \<in> {0..1050}"
    by (rule score_bounds) (simp_all add: node_sane_def demo_idle_def demo_request_def to_device_def demo_gpu_def)
qed

subsection \<open>Retry queue\<close>

lemma double_delay_pow: "double_delay n d = d * 2 ^ n"
  by (induction n arbitrary: d) simp_all

lemma backoff_eq: "backoff a = min (30 * 2 ^ min (nat a) 6) 1800"
  by (simp add: backoff_def double_delay_pow Let_def)

lemma backoff_ge: "30 \<le> backoff a"
proof -
  have "(30::int) * 1 \<le> 30 * 2 ^ min (nat a) 6" by (intro mult_left_mono) simp_all
  then show ?thesis by (simp add: backoff_eq)
qed

text \<open>
  The retry delay starts at 30 seconds, never shrinks as attempts accumulate and never exceeds
  half an hour.
\<close>

theorem backoff_monotone_bounded:
  assumes "a \<le> b"
  shows "30 \<le> backoff a \<and> backoff a \<le> backoff b \<and> backoff b \<le> 1800"
proof -
  have "(2::int) ^ min (nat a) 6 \<le> 2 ^ min (nat b) 6"
    using assms by (intro power_increasing) auto
  then have "30 * (2::int) ^ min (nat a) 6 \<le> 30 * 2 ^ min (nat b) 6" by (rule mult_left_mono) simp
  then have "backoff a \<le> backoff b" unfolding backoff_eq by (rule min.mono) simp
  then show ?thesis using backoff_ge [of a] by (simp add: backoff_eq)
qed

theorem backoff_monotone_bounded_witness:
  "30 \<le> backoff 0 \<and> backoff 0 \<le> backoff 9 \<and> backoff 9 \<le> 1800"
  by (rule backoff_monotone_bounded) simp

lemma Decide_queue: "deployment_queue (snd (Decide flt i req db)) = deployment_queue db"
  by (simp add: Decide_def recordDecision_def Let_def split: sum.splits)

text \<open>What a tick does to the rows of the queue that carry the item's id.\<close>

definition handled :: "int \<Rightarrow> queue_row \<Rightarrow> queue_row \<Rightarrow> bool" where
  "handled now q q' \<longleftrightarrow>
     q' = q\<lparr>q_status := QueueDeployed, q_last_attempt := Some now\<rparr> \<or>
     q' = q\<lparr>q_attempts := q_attempts q + 1, q_last_attempt := Some now,
            q_next_retry := Some (now + backoff (q_attempts q))\<rparr>"

lemma process_item_queue:
  assumes "unmarshal (q_config item) \<noteq> None"
  obtains f where "deployment_queue (process_item (\<lambda>_. False) unmarshal now i item db) =
      map (\<lambda>q. if q_id q = q_id item then f q else q) (deployment_queue db)"
    and "\<And>q. q_id (f q) = q_id q" and "handled now item (f item)"
proof -
  from assms obtain req where req: "ToPlacementRequest unmarshal item = Some req"
    by (cases "unmarshal (q_config item)") (auto simp: ToPlacementRequest_def)
  obtain r db' where d: "Decide (\<lambda>_. False) i req db = (r, db')" by fastforce
  then have q: "deployment_queue db' = deployment_queue db" using Decide_queue by (metis snd_conv)
  show thesis
  proof (cases r)
    case (Inl e)
    show ?thesis
      by (rule that [of "\<lambda>q. q\<lparr>q_attempts := q_attempts q + 1, q_last_attempt := Some now,
            q_next_retry := Some (now + backoff (q_attempts item))\<rparr>"])
        (simp_all add: process_item_def req d Inl set_queue_def handled_def q)
  next
    case (Inr dec)
    show ?thesis
      by (rule that [of "\<lambda>q. q\<lparr>q_status := QueueDeployed, q_last_attempt := Some now\<rparr>"])
        (simp_all add: process_item_def req d Inr set_queue_def handled_def q)
  qed
qed

lemma process_items_queue:
  assumes "distinct (map q_id items)" and "\<forall>q\<in>set items. unmarshal (q_config q) \<noteq> None"
    and "distinct (map q_id (deployment_queue db))" and "set items \<subseteq> set (deployment_queue db)"
  shows "list_all2 (\<lambda>q q'. q_id q' = q_id q \<and> (if q \<in> set items then handled now q q' else q' = q))
    (deployment_queue db)
    (deployment_queue (fold (\<lambda>q. process_item (\<lambda>_. False) unmarshal now (newID (q_id q)) q) items db))"
  using assms
proof (induction items arbitrary: db)
  case Nil
  then show ?case by (simp add: list_all2_same)
next
  case (Cons item items)
  let ?db = "process_item (\<lambda>_. False) unmarshal now (newID (q_id item)) item db"
  from Cons.prems(2) have "unmarshal (q_config item) \<noteq> None" by simp
  then obtain f where f: "deployment_queue ?db = map (\<lambda>q. if q_id q = q_id item then f q else q) (deployment_queue db)"
    "\<And>q. q_id (f q) = q_id q" "handled now item (f item)"
    by (rule process_item_queue [of unmarshal item now "newID (q_id item)" db]) blast
  have ids: "map q_id (deployment_queue ?db) = map q_id (deployment_queue db)" using f(1,2) by simp
  have out: "q_id x \<noteq> q_id item" if "x \<in> set items" for x using that Cons.prems(1) by (force simp: image_iff)
  have "set items \<subseteq> set (deployment_queue ?db)"
    unfolding f(1) using Cons.prems(4) out by (force simp: image_iff)
  with Cons.prems ids have IH: "list_all2 (\<lambda>q q'. q_id q' = q_id q \<and> (if q \<in> set items then handled now q q' else q' = q))
    (deployment_queue ?db)
    (deployment_queue (fold (\<lambda>q. process_item (\<lambda>_. False) unmarshal now (newID (q_id q)) q) items ?db))"
    by (intro Cons.IH) simp_all
  have same: "q = item" if "q \<in> set (deployment_queue db)" "q_id q = q_id item" for q
    using that Cons.prems(3,4) by (auto simp: distinct_map inj_on_def)
  have item: "f item \<notin> set items" using out f(2) by blast
  from IH show ?case unfolding f(1) list_all2_map1 fold_simps
  proof (rule list.rel_mono_strong)
    fix q q' assume "q \<in> set (deployment_queue db)"
      and "q_id q' = q_id (if q_id q = q_id item then f q else q) \<and>
        (if (if q_id q = q_id item then f q else q) \<in> set items
         then handled now (if q_id q = q_id item then f q else q) q' else q' = (if q_id q = q_id item then f q else q))"
    then show "q_id q' = q_id q \<and> (if q \<in> set (item # items) then handled now q q' else q' = q)"
      using same [of q] out [of q] item f(2,3) by (cases "q = item") auto
  qed
qed

lemma queue_batch_props:
  assumes "distinct (map q_id (deployment_queue db))"
  shows "set (queue_batch now db) \<subseteq> set (deployment_queue db)" "distinct (map q_id (queue_batch now db))"
proof -
  show "set (queue_batch now db) \<subseteq> set (deployment_queue db)"
    by (auto simp: queue_batch_def dest!: in_set_takeD)
  show "distinct (map q_id (queue_batch now db))"
    unfolding queue_batch_def take_map [symmetric]
    by (rule distinct_take) (use assms in \<open>simp add: distinct_map inj_on_def\<close>)
qed

text \<open>
  A tick of the queue serves every row of its batch: each row it picked is afterwards either
  deployed or backed off and not due again for the next 29 seconds, and every other row is untouched.
\<close>

theorem queue_tick_progress:
  assumes "distinct (map q_id (deployment_queue db))"
    and "\<forall>q\<in>set (queue_batch now db). unmarshal (q_config q) \<noteq> None"
  shows "list_all2
    (\<lambda>q q'. q_id q' = q_id q \<and> (if q \<in> set (queue_batch now db) then \<not> due (now + 29) q' else q' = q))
    (deployment_queue db) (deployment_queue (processQueue (\<lambda>_ _. False) False unmarshal now newID db))"
proof -
  have "\<not> due (now + 29) q'" if "handled now q q'" for q q'
    using that backoff_ge [of "q_attempts q"] by (auto simp: handled_def due_def)
  then show ?thesis
    using process_items_queue [OF queue_batch_props(2) assms(2,1) queue_batch_props(1), OF assms(1,1), of now newID]
    by (auto simp: processQueue_def elim: list_all2_mono)
qed

theorem queue_tick_progress_witness:
  "queue_batch 5 demo_cluster = deployment_queue demo_cluster \<and>
   list_all2 (\<lambda>q q'. q_id q' = q_id q \<and>
       (if q \<in> set (queue_batch 5 demo_cluster) then \<not> due (5 + 29) q' else q' = q))
     (deployment_queue demo_cluster)
     (deployment_queue (processQueue (\<lambda>_ _. False) False (\<lambda>c. Some (c, c)) 5 id demo_cluster))"
proof
  show "queue_batch 5 demo_cluster = deployment_queue demo_cluster" by code_simp
  show "list_all2 (\<lambda>q q'. q_id q' = q_id q \<and>
       (if q \<in> set (queue_batch 5 demo_cluster) then \<not> due (5 + 29) q' else q' = q))
     (deployment_queue demo_cluster)
     (deployment_queue (processQueue (\<lambda>_ _. False) False (\<lambda>c. Some (c, c)) 5 id demo_cluster))"
    by (rule queue_tick_progress) (simp_all add: demo_defs)
qed

text \<open>
  A batch of rows whose stored configuration cannot be decoded blocks the queue: the tick changes
  nothing, so the same rows are picked at every later tick.
\<close>

theorem undecodable_rows_block_queue:
  assumes "\<forall>q\<in>set (queue_batch now db). unmarshal (q_config q) = None"
  shows "processQueue flt fails unmarshal now newID db = db"
proof -
  have "fold (\<lambda>q. process_item (flt (q_id q)) unmarshal now (newID (q_id q)) q) qs db = db"
    if "\<forall>q\<in>set qs. unmarshal (q_config q) = None" for qs
    using that by (induction qs) (simp_all add: process_item_def ToPlacementRequest_def)
  with assms show ?thesis by (simp add: processQueue_def)
qed

theorem undecodable_rows_block_queue_witness:
  "queue_batch 5 demo_cluster \<noteq> [] \<and>
   processQueue (\<lambda>_ _. False) False (\<lambda>_. None) 5 id demo_cluster = demo_cluster"
proof
  show "queue_batch 5 demo_cluster \<noteq> []" by code_simp
  show "processQueue (\<lambda>_ _. False) False (\<lambda>_. None) 5 id demo_cluster = demo_cluster"
    by (rule undecodable_rows_block_queue) simp
qed

text \<open>
  The errors of the batch queries are discarded, so when the GPU query fails every request for
  VRAM is answered with \<open>ErrInsufficientCapacity\<close> whatever the cluster looks like.
\<close>

theorem gpu_query_failure_is_no_capacity:
  assumes "flt ''gpu batch''" and "\<not> flt ''select nodes''" and "RequiredVRAMMB req > 0"
    and "Mode req \<noteq> ModeSpecificNode" and "mode_filter req = Inr p"
  shows "Decide flt newID req db = (Inl ErrInsufficientCapacity, db)"
proof -
  have "loadCandidateNodes flt db req = Inr ns \<Longrightarrow> ns = []" for ns
    using assms(1,3) by (auto elim!: loadCandidateNodes_InrD simp: accepts_def too_small_def enrich_def Let_def)
  moreover have "\<exists>ns. loadCandidateNodes flt db req = Inr ns"
    using enrich_loop_total [OF assms(4), of flt db] assms(2,5)
    by (auto simp: loadCandidateNodes_def Let_def) (metis bindE_simps(2))
  ultimately show ?thesis by (auto simp: Decide_def)
qed

theorem gpu_query_failure_is_no_capacity_witness:
  "Decide (\<lambda>l. l = ''gpu batch'') ''d'' demo_request demo_cluster = (Inl ErrInsufficientCapacity, demo_cluster)"
  by (rule gpu_query_failure_is_no_capacity [where p = "\<lambda>_. True"]) (simp_all add: demo_request_def mode_filter_def)

end
