(* ===== verification/Task_Manager.thy ===== *)
theory Task_Manager
  imports Nexus_Prelude "HOL-Library.Sublist" "HOL-Library.Product_Lexorder"
begin

text \<open>
  \<open>internal/taskmanager\<close>: the task queue between the control plane and the node agents. The table
  \<open>agent_tasks\<close> is a list of rows in insertion order; each method of the manager is one statement on
  it. Payloads are the JSON texts the code stores. Timestamps are integers (seconds). The widths of
  the text columns are not modelled.
\<close>

subsection \<open>Types and tables\<close>

datatype TaskType =
    TaskStartModel | TaskStopRuntime | TaskUnloadRuntime | TaskDeleteRuntime | TaskPullModel | TaskDeleteModel
  | TaskVerifyModel | TaskCollectInventory | TaskHealthCheck | TaskDeployRuntime | TaskWarmRuntime
  | TaskRestartRuntime

datatype TaskStatus =
    StatusPending | StatusClaimed | StatusRunning | StatusSuccess | StatusFailed | StatusCancelled | StatusTimeout

record Task =
  t_id :: id
  t_node :: id
  t_type :: TaskType
  t_payload :: string
  t_status :: TaskStatus
  t_priority :: int
  t_created_by :: string
  t_created_at :: int
  t_claimed_at :: "int option"
  t_started_at :: "int option"
  t_completed_at :: "int option"
  t_timeout_at :: "int option"
  t_result :: "string option"
  t_error :: string
  t_runtime :: "id option"
  t_ikey :: "string option"

record task_db =
  known_nodes :: "id list"
  agent_tasks :: "Task list"

datatype task_error = MarshalFailed | EnqueueFailed sql_error

subsection \<open>Options\<close>

record enqueueOptions =
  o_priority :: int
  o_timeout :: int
  o_createdBy :: string
  o_runtimeID :: id
  o_idempotencyKey :: string

type_synonym EnqueueOption = "enqueueOptions \<Rightarrow> enqueueOptions"

definition WithPriority :: "int \<Rightarrow> EnqueueOption" where
  "WithPriority p opts = opts\<lparr>o_priority := p\<rparr>"

definition WithTimeout :: "int \<Rightarrow> EnqueueOption" where
  "WithTimeout d opts = opts\<lparr>o_timeout := d\<rparr>"

definition WithActor :: "string \<Rightarrow> EnqueueOption" where
  "WithActor actor opts = opts\<lparr>o_createdBy := actor\<rparr>"

definition WithRuntimeID :: "id \<Rightarrow> EnqueueOption" where
  "WithRuntimeID rid opts = opts\<lparr>o_runtimeID := rid\<rparr>"

definition WithIdempotencyKey :: "string \<Rightarrow> EnqueueOption" where
  "WithIdempotencyKey key opts = opts\<lparr>o_idempotencyKey := key\<rparr>"

definition default_options :: enqueueOptions where
  "default_options = \<lparr>o_priority = 50, o_timeout = 600, o_createdBy = ''control-plane'', o_runtimeID = '''',
     o_idempotencyKey = ''''\<rparr>"

definition nilableStr :: "string \<Rightarrow> string option" where
  "nilableStr s = (if s = '''' then None else Some s)"

subsection \<open>Statements\<close>

text \<open>
  \<open>INSERT ... ON CONFLICT (idempotency_key) DO NOTHING\<close>: a row with the same key suppresses the
  insertion without an error; a used primary key and an unknown node are errors.
\<close>

definition insert_task :: "Task \<Rightarrow> task_db \<Rightarrow> sql_error + task_db" where
  "insert_task t db =
     (if t_ikey t \<noteq> None \<and> list_ex (\<lambda>u. t_ikey u = t_ikey t) (agent_tasks db) then Inr db
      else if list_ex (\<lambda>u. t_id u = t_id t) (agent_tasks db) then Inl SqlDuplicateKey
      else if t_node t \<notin> set (known_nodes db) then Inl SqlForeignKey
      else Inr (db\<lparr>agent_tasks := agent_tasks db @ [t]\<rparr>))"

definition update_tasks :: "(Task \<Rightarrow> bool) \<Rightarrow> (Task \<Rightarrow> Task) \<Rightarrow> task_db \<Rightarrow> task_db" where
  "update_tasks p f db = db\<lparr>agent_tasks := map (\<lambda>t. if p t then f t else t) (agent_tasks db)\<rparr>"

definition rows_affected :: "(Task \<Rightarrow> bool) \<Rightarrow> task_db \<Rightarrow> int" where
  "rows_affected p db = int (length (filter p (agent_tasks db)))"

text \<open>\<open>db.ExecContext\<close> of an UPDATE: a failed statement changes nothing.\<close>

definition exec_update ::
    "bool \<Rightarrow> (Task \<Rightarrow> bool) \<Rightarrow> (Task \<Rightarrow> Task) \<Rightarrow> task_db \<Rightarrow> (sql_error + int) \<times> task_db" where
  "exec_update fails p f db =
     (if fails then (Inl SqlDown, db) else (Inr (rows_affected p db), update_tasks p f db))"

subsection \<open>Operations\<close>

definition new_task ::
    "int \<Rightarrow> id \<Rightarrow> id \<Rightarrow> TaskType \<Rightarrow> string \<Rightarrow> enqueueOptions \<Rightarrow> Task" where
  "new_task now taskID nodeID taskType payload opts =
     \<lparr>t_id = taskID, t_node = nodeID, t_type = taskType, t_payload = payload, t_status = StatusPending,
      t_priority = o_priority opts, t_created_by = o_createdBy opts, t_created_at = now, t_claimed_at = None,
      t_started_at = None, t_completed_at = None,
      t_timeout_at = (if o_timeout opts > 0 then Some (now + o_timeout opts) else None), t_result = None,
      t_error = '''', t_runtime = nilableStr (o_runtimeID opts), t_ikey = nilableStr (o_idempotencyKey opts)\<rparr>"

definition Enqueue ::
    "bool \<Rightarrow> int \<Rightarrow> id \<Rightarrow> id \<Rightarrow> TaskType \<Rightarrow> string option \<Rightarrow> EnqueueOption list \<Rightarrow> task_db \<Rightarrow>
     (task_error + id) \<times> task_db" where
  "Enqueue fails now taskID nodeID taskType payload opts db =
     (case payload of
        None \<Rightarrow> (Inl MarshalFailed, db)
      | Some payloadBytes \<Rightarrow>
          (let opt = fold (\<lambda>f. f) opts default_options in
           case (if fails then Inl SqlDown else insert_task (new_task now taskID nodeID taskType payloadBytes opt) db) of
             Inl e \<Rightarrow> (Inl (EnqueueFailed e), db)
           | Inr db' \<Rightarrow> (Inr taskID, db')))"

definition pollable :: "int \<Rightarrow> id \<Rightarrow> Task \<Rightarrow> bool" where
  "pollable now nodeID t \<longleftrightarrow> t_node t = nodeID \<and> t_status t = StatusPending \<and>
     (case t_timeout_at t of None \<Rightarrow> True | Some d \<Rightarrow> d > now)"

definition PendingForNode :: "int \<Rightarrow> id \<Rightarrow> nat \<Rightarrow> task_db \<Rightarrow> Task list" where
  "PendingForNode now nodeID limit db =
     take limit (sort_key (\<lambda>t. (- t_priority t, t_created_at t)) (filter (pollable now nodeID) (agent_tasks db)))"

definition ClaimTask :: "bool \<Rightarrow> int \<Rightarrow> id \<Rightarrow> id \<Rightarrow> task_db \<Rightarrow> (sql_error + bool) \<times> task_db" where
  "ClaimTask fails now taskID nodeID db =
     (case exec_update fails (\<lambda>t. t_id t = taskID \<and> t_node t = nodeID \<and> t_status t = StatusPending)
             (\<lambda>t. t\<lparr>t_status := StatusClaimed, t_claimed_at := Some now\<rparr>) db of
        (Inl e, db') \<Rightarrow> (Inl e, db')
      | (Inr n, db') \<Rightarrow> (Inr (n > 0), db'))"

definition MarkRunning :: "bool \<Rightarrow> int \<Rightarrow> id \<Rightarrow> task_db \<Rightarrow> (sql_error + int) \<times> task_db" where
  "MarkRunning fails now taskID =
     exec_update fails (\<lambda>t. t_id t = taskID \<and> t_status t = StatusClaimed)
       (\<lambda>t. t\<lparr>t_status := StatusRunning, t_started_at := Some now\<rparr>)"

definition Complete :: "bool \<Rightarrow> int \<Rightarrow> id \<Rightarrow> string option \<Rightarrow> task_db \<Rightarrow> (sql_error + int) \<times> task_db" where
  "Complete fails now taskID result =
     exec_update fails (\<lambda>t. t_id t = taskID)
       (\<lambda>t. t\<lparr>t_status := StatusSuccess, t_completed_at := Some now, t_result := result\<rparr>)"

definition Fail :: "bool \<Rightarrow> int \<Rightarrow> id \<Rightarrow> string \<Rightarrow> task_db \<Rightarrow> (sql_error + int) \<times> task_db" where
  "Fail fails now taskID errMsg =
     exec_update fails (\<lambda>t. t_id t = taskID)
       (\<lambda>t. t\<lparr>t_status := StatusFailed, t_completed_at := Some now, t_error := errMsg\<rparr>)"

definition Cancel :: "bool \<Rightarrow> int \<Rightarrow> id \<Rightarrow> task_db \<Rightarrow> (sql_error + int) \<times> task_db" where
  "Cancel fails now taskID =
     exec_update fails (\<lambda>t. t_id t = taskID \<and> t_status t \<in> {StatusPending, StatusClaimed})
       (\<lambda>t. t\<lparr>t_status := StatusCancelled, t_completed_at := Some now\<rparr>)"

definition GetTask :: "bool \<Rightarrow> id \<Rightarrow> task_db \<Rightarrow> sql_error + Task" where
  "GetTask fails taskID db = (if fails then Inl SqlDown else select1 (\<lambda>t. t_id t = taskID) (agent_tasks db))"

definition ListForNode :: "id \<Rightarrow> nat \<Rightarrow> task_db \<Rightarrow> Task list" where
  "ListForNode nodeID limit db =
     take limit (sort_key (\<lambda>t. - t_created_at t) (filter (\<lambda>t. t_node t = nodeID) (agent_tasks db)))"

definition overdue :: "int \<Rightarrow> Task \<Rightarrow> bool" where
  "overdue now t \<longleftrightarrow> t_status t \<in> {StatusPending, StatusClaimed, StatusRunning} \<and>
     (case t_timeout_at t of None \<Rightarrow> False | Some d \<Rightarrow> d < now)"

definition TimeoutStale :: "bool \<Rightarrow> int \<Rightarrow> task_db \<Rightarrow> (sql_error + int) \<times> task_db" where
  "TimeoutStale fails now =
     exec_update fails (overdue now) (\<lambda>t. t\<lparr>t_status := StatusTimeout, t_completed_at := Some now\<rparr>)"

subsection \<open>Schema validation\<close>

definition requiredTaskTypes :: "string list" where
  "requiredTaskTypes =
     [''START_MODEL'', ''DEPLOY_RUNTIME'', ''STOP_RUNTIME'', ''RESTART_RUNTIME'', ''DELETE_RUNTIME'', ''WARM_RUNTIME'',
      ''UNLOAD_RUNTIME'', ''PULL_MODEL'', ''DELETE_MODEL'', ''VERIFY_MODEL'', ''COLLECT_INVENTORY'', ''HEALTH_CHECK'']"

text \<open>\<open>strings.Contains\<close> on byte strings is the contiguous sublist.\<close>

definition containsTaskType :: "string \<Rightarrow> string \<Rightarrow> bool" where
  "containsTaskType constraintDef taskType = sublist (CHR 0x27 # taskType @ [CHR 0x27]) constraintDef"

text \<open>The missing types; \<open>None\<close> stands for a query error. The diagnostic texts are left out.\<close>

definition ValidateSchema :: "string option \<Rightarrow> string list + unit" where
  "ValidateSchema constraintDef =
     (case constraintDef of
        None \<Rightarrow> Inl requiredTaskTypes
      | Some def \<Rightarrow>
          if def = '''' then Inl requiredTaskTypes
          else
            (let missing = filter (\<lambda>t. \<not> containsTaskType def t) requiredTaskTypes
             in if missing \<noteq> [] then Inl missing else Inr ()))"

subsection \<open>The queue as a state machine\<close>

inductive task_step :: "task_db \<Rightarrow> task_db \<Rightarrow> bool" where
  enqueue: "task_step db (snd (Enqueue fails now i n ty payload opts db))"
| claim: "task_step db (snd (ClaimTask fails now i n db))"
| running: "task_step db (snd (MarkRunning fails now i db))"
| complete: "task_step db (snd (Complete fails now i r db))"
| fail: "task_step db (snd (Fail fails now i m db))"
| cancel: "task_step db (snd (Cancel fails now i db))"
| timeout: "task_step db (snd (TimeoutStale fails now db))"

text \<open>
  The abstract queue: the status of each task, and the transitions the manager allows. Success and
  failure are reported by the agent and are accepted in every state.
\<close>

definition status_of :: "task_db \<Rightarrow> id \<Rightarrow> TaskStatus option" where
  "status_of db i = map_option t_status (find (\<lambda>t. t_id t = i) (agent_tasks db))"

fun lifecycle :: "TaskStatus \<Rightarrow> TaskStatus \<Rightarrow> bool" where
  "lifecycle s StatusPending = False"
| "lifecycle s StatusClaimed = (s = StatusPending)"
| "lifecycle s StatusRunning = (s = StatusClaimed)"
| "lifecycle s StatusSuccess = True"
| "lifecycle s StatusFailed = True"
| "lifecycle s StatusCancelled = (s = StatusPending \<or> s = StatusClaimed)"
| "lifecycle s StatusTimeout = (s = StatusPending \<or> s = StatusClaimed \<or> s = StatusRunning)"

definition task_moves :: "TaskStatus option \<Rightarrow> TaskStatus option \<Rightarrow> bool" where
  "task_moves a b =
     (case (a, b) of
        (None, None) \<Rightarrow> True
      | (None, Some s) \<Rightarrow> s = StatusPending
      | (Some s, Some s') \<Rightarrow> s' = s \<or> lifecycle s s'
      | (Some s, None) \<Rightarrow> False)"

lemma task_moves_refl [simp]: "task_moves a a"
  by (cases a) (simp_all add: task_moves_def)

lemma find_map_if:
  "(\<And>t. t_id (f t) = t_id t) \<Longrightarrow>
   find (\<lambda>t. t_id t = i) (map (\<lambda>t. if p t then f t else t) ts) =
   map_option (\<lambda>t. if p t then f t else t) (find (\<lambda>t. t_id t = i) ts)"
  by (induction ts) auto

lemma status_of_update:
  assumes "\<And>t. t_id (f t) = t_id t"
  shows "status_of (update_tasks p f db) i =
    map_option (\<lambda>t. t_status (if p t then f t else t)) (find (\<lambda>t. t_id t = i) (agent_tasks db))"
  by (simp add: status_of_def update_tasks_def find_map_if assms option.map_comp comp_def)

lemma exec_update_moves:
  assumes "\<And>t. t_id (f t) = t_id t" and "\<And>t. p t \<Longrightarrow> lifecycle (t_status t) (t_status (f t))"
  shows "task_moves (status_of db i) (status_of (snd (exec_update fails p f db)) i)"
proof (cases "find (\<lambda>t. t_id t = i) (agent_tasks db)")
  case None
  then show ?thesis
    using status_of_update [of f p db i, OF assms(1)] by (simp add: exec_update_def status_of_def task_moves_def)
next
  case (Some t)
  then have "status_of db i = Some (t_status t)" by (simp add: status_of_def)
  moreover have "status_of (update_tasks p f db) i = Some (t_status (if p t then f t else t))"
    using status_of_update [of f p db i, OF assms(1)] Some by simp
  ultimately show ?thesis using assms(2) [of t] by (simp add: exec_update_def task_moves_def)
qed

lemma ClaimTask_snd:
  "snd (ClaimTask fails now i n db) =
   snd (exec_update fails (\<lambda>t. t_id t = i \<and> t_node t = n \<and> t_status t = StatusPending)
          (\<lambda>t. t\<lparr>t_status := StatusClaimed, t_claimed_at := Some now\<rparr>) db)"
  by (auto simp: ClaimTask_def split: sum.splits prod.splits)

lemma find_append: "find P (xs @ ys) = (case find P xs of None \<Rightarrow> find P ys | Some x \<Rightarrow> Some x)"
  by (induction xs) auto

lemma insert_task_moves:
  "insert_task t db = Inr db' \<Longrightarrow> t_status t = StatusPending \<Longrightarrow> task_moves (status_of db i) (status_of db' i)"
  by (auto simp: insert_task_def status_of_def find_append task_moves_def split: if_splits option.splits)

lemma Enqueue_moves: "task_moves (status_of db i) (status_of (snd (Enqueue fails now j n ty payload opts db)) i)"
  by (auto simp: Enqueue_def Let_def new_task_def split: option.splits sum.splits intro: insert_task_moves)

lemma task_step_moves: "task_step db db' \<Longrightarrow> task_moves (status_of db i) (status_of db' i)"
proof (induction rule: task_step.induct)
  case (claim db fails now j n)
  show ?case unfolding ClaimTask_snd by (rule exec_update_moves) simp_all
next
  case (cancel db fails now j)
  show ?case unfolding Cancel_def by (rule exec_update_moves) auto
next
  case (timeout db fails now)
  show ?case unfolding TimeoutStale_def by (rule exec_update_moves) (auto simp: overdue_def)
qed (auto simp: Enqueue_moves MarkRunning_def Complete_def Fail_def intro!: exec_update_moves)

lemma task_steps_moves: "task_step\<^sup>*\<^sup>* db db' \<Longrightarrow> task_moves\<^sup>*\<^sup>* (status_of db i) (status_of db' i)"
proof (induction rule: rtranclp_induct)
  case (step db1 db2)
  from step.IH task_step_moves [OF step.hyps(2)] show ?case by (rule rtranclp.rtrancl_into_rtrancl)
qed simp

subsection \<open>The documented lifecycle\<close>

text \<open>
  The lifecycle of the package comment, pending, claimed, running, and then success, failed or timeout,
  with the withdrawals its methods document: a task that does not run yet can be cancelled, one that has not
  ended can time out. A final status has no successor.
\<close>

definition documented :: "(TaskStatus \<times> TaskStatus) set" where
  "documented =
     {(StatusPending, StatusClaimed), (StatusClaimed, StatusRunning), (StatusRunning, StatusSuccess), (StatusRunning, StatusFailed),
      (StatusRunning, StatusTimeout)} \<union>
     {(StatusPending, StatusCancelled), (StatusClaimed, StatusCancelled), (StatusPending, StatusTimeout), (StatusClaimed, StatusTimeout)}"

definition follows :: "TaskStatus option \<Rightarrow> TaskStatus option \<Rightarrow> bool" where
  "follows a b \<longleftrightarrow>
     (case a of None \<Rightarrow> b = None \<or> b = Some StatusPending
      | Some s \<Rightarrow> (\<exists>s'. b = Some s' \<and> (s' = s \<or> (s, s') \<in> documented)))"

text \<open>
  The protocol of an agent: it reports the end of a task it is running. The manager does not check it, its two
  report statements have no condition on the status.
\<close>

inductive protocol_step :: "task_db \<Rightarrow> task_db \<Rightarrow> bool" where
  p_enqueue: "protocol_step db (snd (Enqueue fails now i n ty payload opts db))"
| p_claim: "protocol_step db (snd (ClaimTask fails now i n db))"
| p_running: "protocol_step db (snd (MarkRunning fails now i db))"
| p_complete: "status_of db i = Some StatusRunning \<Longrightarrow> protocol_step db (snd (Complete fails now i r db))"
| p_fail: "status_of db i = Some StatusRunning \<Longrightarrow> protocol_step db (snd (Fail fails now i m db))"
| p_cancel: "protocol_step db (snd (Cancel fails now i db))"
| p_timeout: "protocol_step db (snd (TimeoutStale fails now db))"

lemma exec_update_follows:
  assumes "\<And>t. t_id (f t) = t_id t"
    and "\<And>t. p t \<Longrightarrow> status_of db (t_id t) = Some (t_status t) \<Longrightarrow> (t_status t, t_status (f t)) \<in> documented"
  shows "follows (status_of db i) (status_of (snd (exec_update fails p f db)) i)"
proof (cases "find (\<lambda>t. t_id t = i) (agent_tasks db)")
  case None
  then show ?thesis
    using status_of_update [of f p db i, OF assms(1)] by (simp add: exec_update_def status_of_def follows_def)
next
  case (Some t)
  then have "t_id t = i" by (auto simp: find_Some_iff)
  with Some have st: "status_of db i = Some (t_status t)" "status_of db (t_id t) = Some (t_status t)" by (simp_all add: status_of_def)
  moreover have "status_of (update_tasks p f db) i = Some (t_status (if p t then f t else t))"
    using status_of_update [of f p db i, OF assms(1)] Some by simp
  ultimately show ?thesis using assms(2) [of t] by (auto simp: exec_update_def follows_def)
qed

lemma insert_task_follows:
  "insert_task t db = Inr db' \<Longrightarrow> t_status t = StatusPending \<Longrightarrow> follows (status_of db i) (status_of db' i)"
  by (auto simp: insert_task_def status_of_def find_append follows_def split: if_splits option.splits)

lemma follows_refl [simp]: "follows a a"
  by (simp add: follows_def split: option.split)

lemma protocol_step_follows: "protocol_step db db' \<Longrightarrow> follows (status_of db i) (status_of db' i)"
proof (induction rule: protocol_step.induct)
  case (p_enqueue db fails now j n ty payload opts)
  show ?case
    by (auto simp: Enqueue_def Let_def new_task_def split: option.splits sum.splits intro: insert_task_follows)
next
  case (p_claim db fails now j n)
  show ?case unfolding ClaimTask_snd by (rule exec_update_follows) (simp_all add: documented_def)
next
  case (p_timeout db fails now)
  show ?case unfolding TimeoutStale_def by (rule exec_update_follows) (auto simp: overdue_def documented_def)
qed (auto simp: MarkRunning_def Complete_def Fail_def Cancel_def documented_def intro!: exec_update_follows)

lemma follows_final:
  "follows\<^sup>*\<^sup>* a b \<Longrightarrow> a = Some s \<Longrightarrow> s \<in> {StatusSuccess, StatusFailed, StatusCancelled, StatusTimeout} \<Longrightarrow> b = a"
  by (induction rule: rtranclp_induct) (auto simp: follows_def documented_def)

lemma protocol_steps_follow: "protocol_step\<^sup>*\<^sup>* db db' \<Longrightarrow> follows\<^sup>*\<^sup>* (status_of db i) (status_of db' i)"
proof (induction rule: rtranclp_induct)
  case (step db1 db2)
  from step.IH protocol_step_follows [OF step.hyps(2)] show ?case by (rule rtranclp.rtrancl_into_rtrancl)
qed simp

lemma status_of_report:
  "status_of (snd (Complete False now i r db)) i = map_option (\<lambda>_. StatusSuccess) (status_of db i)"
proof (cases "find (\<lambda>t. t_id t = i) (agent_tasks db)")
  case (Some t)
  then have "t_id t = i" by (auto simp: find_Some_iff)
  with Some show ?thesis by (simp add: Complete_def exec_update_def status_of_update) (simp add: status_of_def)
next
  case None
  then show ?thesis by (simp add: Complete_def exec_update_def status_of_update) (simp add: status_of_def)
qed

text \<open>
  C39: as long as agents report only on tasks they run, the queue keeps the documented lifecycle under any
  sequence of operations and any failing statements: every task goes from pending through claimed and running
  to its end, a step at a time, is cancelled only before it runs, and keeps a final status for ever. The
  condition is needed, because a report is accepted in every state: it makes a success of a task that was
  cancelled or has timed out.
\<close>

theorem task_queue_refines_lifecycle:
  assumes "protocol_step\<^sup>*\<^sup>* db db'"
  shows "follows\<^sup>*\<^sup>* (status_of db i) (status_of db' i) \<and>
    (status_of db i \<in> Some ` {StatusSuccess, StatusFailed, StatusCancelled, StatusTimeout} \<longrightarrow> status_of db' i = status_of db i) \<and>
    (status_of db' i \<noteq> None \<longrightarrow> status_of (snd (Complete False now i r db')) i = Some StatusSuccess)"
  using protocol_steps_follow [OF assms, of i] follows_final status_of_report by auto

subsection \<open>Claims are exclusive\<close>

text \<open>
  What an agent relies on: a successful claim takes a task out of \<open>open\<close> and nothing puts it back.
\<close>

locale exclusive_claims =
  fixes step :: "'s \<Rightarrow> 's \<Rightarrow> bool" and claimed :: "'i \<Rightarrow> 's \<Rightarrow> 's \<Rightarrow> bool" and is_open :: "'s \<Rightarrow> 'i \<Rightarrow> bool"
    and known :: "'s \<Rightarrow> 'i \<Rightarrow> bool"
  assumes claim_open: "claimed i s s' \<Longrightarrow> is_open s i"
    and claim_closes: "claimed i s s' \<Longrightarrow> known s' i \<and> \<not> is_open s' i"
    and stays_closed: "step s s' \<Longrightarrow> known s i \<Longrightarrow> \<not> is_open s i \<Longrightarrow> known s' i \<and> \<not> is_open s' i"
begin

lemma closed_forever: "step\<^sup>*\<^sup>* s s' \<Longrightarrow> known s i \<Longrightarrow> \<not> is_open s i \<Longrightarrow> known s' i \<and> \<not> is_open s' i"
  by (induction rule: rtranclp_induct) (use stays_closed in blast)+

lemma claimed_once: "claimed i s s1 \<Longrightarrow> step\<^sup>*\<^sup>* s1 s2 \<Longrightarrow> \<not> claimed i s2 s3"
  using claim_closes closed_forever claim_open by blast

end

lemma claim_fst:
  "fst (ClaimTask fails now i n db) = Inr True \<longleftrightarrow>
   \<not> fails \<and> list_ex (\<lambda>t. t_id t = i \<and> t_node t = n \<and> t_status t = StatusPending) (agent_tasks db)"
  by (auto simp: ClaimTask_def exec_update_def rows_affected_def list_ex_iff filter_empty_conv)

definition tasks_ok :: "task_db \<Rightarrow> bool" where
  "tasks_ok db \<longleftrightarrow> distinct (map t_id (agent_tasks db))"

lemma exec_update_ok:
  assumes "\<And>t. t_id (f t) = t_id t" and "tasks_ok db"
  shows "tasks_ok (snd (exec_update fails p f db))"
proof -
  have "t_id \<circ> (\<lambda>t. if p t then f t else t) = t_id" by (auto simp: assms(1))
  with assms(2) show ?thesis by (simp add: tasks_ok_def exec_update_def update_tasks_def)
qed

lemma insert_task_ok: "insert_task t db = Inr db' \<Longrightarrow> tasks_ok db \<Longrightarrow> tasks_ok db'"
  by (force simp: insert_task_def tasks_ok_def list_ex_iff split: if_splits)

lemma task_step_ok: "task_step db db' \<Longrightarrow> tasks_ok db \<Longrightarrow> tasks_ok db'"
proof (induction rule: task_step.induct)
  case (enqueue db fails now i n ty payload opts)
  then show ?case
    by (auto simp: Enqueue_def Let_def split: option.splits sum.splits intro: insert_task_ok)
qed (simp_all add: ClaimTask_snd MarkRunning_def Complete_def Fail_def Cancel_def TimeoutStale_def exec_update_ok)

lemma task_steps_ok: "task_step\<^sup>*\<^sup>* db db' \<Longrightarrow> tasks_ok db \<Longrightarrow> tasks_ok db'"
  by (induction rule: rtranclp_induct) (auto intro: task_step_ok)

lemma pending_status:
  "tasks_ok db \<Longrightarrow> t \<in> set (agent_tasks db) \<Longrightarrow> status_of db (t_id t) = Some (t_status t)"
  by (simp add: status_of_def tasks_ok_def find_key_distinct)

interpretation task_claims: exclusive_claims
  "\<lambda>db db'. task_step db db' \<and> tasks_ok db"
  "\<lambda>i db db'. tasks_ok db \<and> (\<exists>fails now n. ClaimTask fails now i n db = (Inr True, db'))"
  "\<lambda>db i. status_of db i = Some StatusPending"
  "\<lambda>db i. status_of db i \<noteq> None"
proof
  fix i and db db' :: task_db
  assume "tasks_ok db \<and> (\<exists>fails now n. ClaimTask fails now i n db = (Inr True, db'))"
  then obtain fails now n where ok: "tasks_ok db" and c: "ClaimTask fails now i n db = (Inr True, db')" by blast
  then obtain t where t: "t \<in> set (agent_tasks db)" "t_id t = i" "t_node t = n" "t_status t = StatusPending" "\<not> fails"
    using claim_fst [of fails now i n db] by (auto simp: list_ex_iff)
  then show "status_of db i = Some StatusPending" using pending_status [OF ok t(1)] by simp
  have "find (\<lambda>t. t_id t = i) (agent_tasks db) = Some t"
    using ok t(1,2) by (auto simp: tasks_ok_def dest: find_key_distinct)
  then have "status_of db' i = Some StatusClaimed"
    using c t ClaimTask_snd [of fails now i n db] by (simp add: exec_update_def status_of_update)
  then show "status_of db' i \<noteq> None \<and> status_of db' i \<noteq> Some StatusPending" by simp
next
  fix db db' :: task_db and i
  assume "task_step db db' \<and> tasks_ok db" and "status_of db i \<noteq> None" and "status_of db i \<noteq> Some StatusPending"
  then show "status_of db' i \<noteq> None \<and> status_of db' i \<noteq> Some StatusPending"
    using task_step_moves [of db db' i] by (auto simp: task_moves_def split: option.splits)
qed

text \<open>
  A task is executed at most once. After an agent's claim of a task has succeeded, no later claim
  of it succeeds, whatever operations come in between, from whatever node and under any faults.
\<close>

theorem claim_at_most_once:
  assumes "tasks_ok db" and "ClaimTask fails now i n db = (Inr True, db1)" and "task_step\<^sup>*\<^sup>* db1 db2"
  shows "fst (ClaimTask fails' now' i n' db2) \<noteq> Inr True"
proof
  assume again: "fst (ClaimTask fails' now' i n' db2) = Inr True"
  have ok1: "tasks_ok db1" using task_step_ok [OF task_step.claim [of db fails now i n]] assms(1,2) by simp
  have "(\<lambda>db db'. task_step db db' \<and> tasks_ok db)\<^sup>*\<^sup>* db1 db2"
    using assms(3)
  proof (induction rule: rtranclp_induct)
    case (step y z)
    then show ?case using task_steps_ok [OF step.hyps(1) ok1] by (simp add: rtranclp.rtrancl_into_rtrancl)
  qed simp
  with assms(1,2) task_steps_ok [OF assms(3) ok1] again task_claims.claimed_once [of db i db1 db2]
  show False by (metis prod.collapse)
qed

subsection \<open>Polling\<close>

text \<open>
  Polling hands an agent its most urgent work. The tasks returned are pending, unexpired tasks of
  that node, at most the limit, in order of falling priority and rising age, and a pollable task
  that was left out is no more urgent than any task returned.
\<close>

theorem poll_most_urgent:
  assumes "x \<in> set (PendingForNode now n k db)" and "y \<in> set (agent_tasks db)" and "pollable now n y"
    and "y \<notin> set (PendingForNode now n k db)"
  shows "pollable now n x \<and> length (PendingForNode now n k db) = k \<and>
    (t_priority y < t_priority x \<or> t_priority y = t_priority x \<and> t_created_at x \<le> t_created_at y)"
proof -
  let ?f = "\<lambda>t. (- t_priority t, t_created_at t)" and ?xs = "filter (pollable now n) (agent_tasks db)"
  have x: "x \<in> set (take k (sort_key ?f ?xs))" and y: "y \<in> set ?xs" "y \<notin> set (take k (sort_key ?f ?xs))"
    using assms by (simp_all add: PendingForNode_def)
  from x have "x \<in> set ?xs" by (metis in_set_takeD set_sort)
  moreover have "k \<le> length ?xs"
    using y by (metis linorder_le_cases length_sort set_sort take_all)
  moreover have "?f x \<le> ?f y" using x y by (rule sort_key_take_before)
  ultimately show ?thesis by (auto simp: PendingForNode_def less_eq_prod_def)
qed

subsection \<open>Timeouts and idempotent enqueueing\<close>

lemma timeout_clears: "\<not> list_ex (overdue now) (agent_tasks (snd (TimeoutStale False now db)))"
  by (auto simp: TimeoutStale_def exec_update_def update_tasks_def list_ex_iff overdue_def)

lemma timeout_count: "fst (TimeoutStale False now db) = Inr (rows_affected (overdue now) db)"
  by (simp add: TimeoutStale_def exec_update_def)

lemma timeout_twice: "fst (TimeoutStale False now (snd (TimeoutStale False now db))) = Inr 0"
  using timeout_clears [of now db] by (simp add: timeout_count rows_affected_def list_ex_iff filter_empty_conv)

lemma GetTask_none_iff: "GetTask False i db = Inl SqlNoRows \<longleftrightarrow> status_of db i = None"
  by (auto simp: GetTask_def select1_def status_of_def split: option.splits)

lemma Enqueue_same_key:
  assumes "o_idempotencyKey (fold (\<lambda>f. f) opts default_options) = key" and "key \<noteq> ''''"
    and "list_ex (\<lambda>u. t_ikey u = Some key) (agent_tasks db)"
  shows "Enqueue False now i n ty (Some payload) opts db = (Inr i, db)"
  using assms by (simp add: Enqueue_def insert_task_def new_task_def nilableStr_def Let_def)

lemma exec_update_ikeys:
  assumes "\<And>t. t_ikey (f t) = t_ikey t"
  shows "map t_ikey (agent_tasks (snd (exec_update fails p f db))) = map t_ikey (agent_tasks db)"
proof -
  have "t_ikey \<circ> (\<lambda>t. if p t then f t else t) = t_ikey" by (auto simp: assms)
  then show ?thesis by (simp add: exec_update_def update_tasks_def)
qed

lemma has_ikey: "list_ex (\<lambda>u. t_ikey u = k) ts \<longleftrightarrow> k \<in> set (map t_ikey ts)"
  by (auto simp: list_ex_iff)

lemma ikey_kept:
  "task_step db db' \<Longrightarrow> list_ex (\<lambda>u. t_ikey u = k) (agent_tasks db) \<Longrightarrow> list_ex (\<lambda>u. t_ikey u = k) (agent_tasks db')"
proof (induction rule: task_step.induct)
  case (enqueue db fails now i n ty payload opts)
  then show ?case
    by (auto simp: Enqueue_def Let_def insert_task_def split: option.splits sum.splits if_splits)
qed (simp_all add: has_ikey ClaimTask_snd MarkRunning_def Complete_def Fail_def Cancel_def TimeoutStale_def
      exec_update_ikeys del: set_map)

lemma ikeys_kept:
  "task_step\<^sup>*\<^sup>* db db' \<Longrightarrow> list_ex (\<lambda>u. t_ikey u = k) (agent_tasks db) \<Longrightarrow> list_ex (\<lambda>u. t_ikey u = k) (agent_tasks db')"
  by (induction rule: rtranclp_induct) (auto intro: ikey_kept)

subsection \<open>A small queue\<close>

definition demo_task :: "id \<Rightarrow> int \<Rightarrow> Task" where
  "demo_task i prio = new_task 0 i ''n1'' TaskStopRuntime ''{}'' (default_options\<lparr>o_priority := prio\<rparr>)"

definition demo_tasks :: task_db where
  "demo_tasks = \<lparr>known_nodes = [''n1''], agent_tasks = [demo_task ''t1'' 50, demo_task ''t2'' 95]\<rparr>"

theorem task_queue_refines_lifecycle_witness:
  "status_of (snd (Cancel False 2 ''t1'' (snd (ClaimTask False 1 ''t1'' ''n1'' demo_tasks)))) ''t1'' = Some StatusCancelled \<and>
   follows\<^sup>*\<^sup>* (Some StatusPending) (Some StatusCancelled) \<and>
   status_of (snd (Complete False 3 ''t1'' None (snd (Cancel False 2 ''t1'' (snd (ClaimTask False 1 ''t1'' ''n1'' demo_tasks)))))) ''t1''
     = Some StatusSuccess"
proof -
  let ?d = "snd (Cancel False 2 ''t1'' (snd (ClaimTask False 1 ''t1'' ''n1'' demo_tasks)))"
  have st: "status_of demo_tasks ''t1'' = Some StatusPending" "status_of ?d ''t1'' = Some StatusCancelled" by code_simp+
  have "protocol_step\<^sup>*\<^sup>* demo_tasks ?d"
    by (rule converse_rtranclp_into_rtranclp [OF p_claim r_into_rtranclp [of protocol_step]]) (rule p_cancel)
  from task_queue_refines_lifecycle [OF this, of "''t1''" 3 None] show ?thesis unfolding st by simp
qed

theorem claim_at_most_once_witness:
  "fst (ClaimTask False 1 ''t1'' ''n1'' demo_tasks) = Inr True \<and>
   fst (ClaimTask False 2 ''t1'' ''n1'' (snd (ClaimTask False 1 ''t1'' ''n1'' demo_tasks))) \<noteq> Inr True"
proof
  show *: "fst (ClaimTask False 1 ''t1'' ''n1'' demo_tasks) = Inr True" by code_simp
  have "tasks_ok demo_tasks" by code_simp
  moreover from * have "ClaimTask False 1 ''t1'' ''n1'' demo_tasks
      = (Inr True, snd (ClaimTask False 1 ''t1'' ''n1'' demo_tasks))" by (simp add: prod_eq_iff)
  ultimately show "fst (ClaimTask False 2 ''t1'' ''n1'' (snd (ClaimTask False 1 ''t1'' ''n1'' demo_tasks))) \<noteq> Inr True"
    by (rule claim_at_most_once) (rule rtranclp.rtrancl_refl)
qed

theorem poll_most_urgent_witness:
  "pollable 1 ''n1'' (demo_task ''t2'' 95) \<and> length (PendingForNode 1 ''n1'' 1 demo_tasks) = 1 \<and>
   (t_priority (demo_task ''t1'' 50) < t_priority (demo_task ''t2'' 95) \<or>
    t_priority (demo_task ''t1'' 50) = t_priority (demo_task ''t2'' 95) \<and>
    t_created_at (demo_task ''t2'' 95) \<le> t_created_at (demo_task ''t1'' 50))"
proof (rule poll_most_urgent)
  have "PendingForNode 1 ''n1'' 1 demo_tasks = [demo_task ''t2'' 95]" by code_simp
  then show "demo_task ''t2'' 95 \<in> set (PendingForNode 1 ''n1'' 1 demo_tasks)"
    and "demo_task ''t1'' 50 \<notin> set (PendingForNode 1 ''n1'' 1 demo_tasks)"
    by (simp_all add: demo_task_def new_task_def)
  show "demo_task ''t1'' 50 \<in> set (agent_tasks demo_tasks)" by (simp add: demo_tasks_def)
  show "pollable 1 ''n1'' (demo_task ''t1'' 50)" by code_simp
qed

end
