(* ===== verification/Preemption.thy ===== *)
theory Preemption
  imports Task_Manager Project_Priority
begin

text \<open>
  \<open>internal/preemption\<close> and the ownership predicates of \<open>internal/modelguard\<close>: pressure on a node,
  the choice of a victim, and the stop of its runtime through the task queue. The agent that
  executes the stop task, and every other actor, is a parameter \<open>env\<close> that changes the database
  between two polls. A query whose error the code discards leaves its Go zero value.
\<close>

subsection \<open>Deployment ownership (internal/modelguard)\<close>

definition Eligible :: "bool \<Rightarrow> string \<Rightarrow> bool" where
  "Eligible enabled lc \<longleftrightarrow> enabled \<and> lc \<noteq> ''deleted''"

definition SQLCondition :: "bool \<Rightarrow> string option \<Rightarrow> bool" where
  "SQLCondition m_enabled m_lifecycle \<longleftrightarrow>
     m_enabled \<and> (case m_lifecycle of None \<Rightarrow> ''active'' | Some l \<Rightarrow> l) \<noteq> ''deleted''"

definition ManagedByNexus :: "string \<Rightarrow> bool" where
  "ManagedByNexus deploymentMode \<longleftrightarrow> deploymentMode \<noteq> ''manual''"

definition SQLManagedCondition :: "string option \<Rightarrow> bool" where
  "SQLManagedCondition m_mode \<longleftrightarrow> (case m_mode of None \<Rightarrow> ''managed'' | Some s \<Rightarrow> s) \<noteq> ''manual''"

subsection \<open>Tables\<close>

record pnode_row =
  pn_id :: id
  pn_hostname :: string
  pn_status :: string

text \<open>A GPU device with the values of its latest telemetry row.\<close>

record pgpu_row =
  pg_node :: id
  pg_vram :: int
  pg_util :: "int option"
  pg_used :: "int option"

record pram_row =
  pt_node :: id
  pt_recorded :: int
  pt_total :: int
  pt_used :: int

record project_row =
  pj_id :: id
  pj_weight :: int
  pj_preemptible :: bool
  pj_config :: "(bool \<times> bool) option"

record runtime =
  rt_id :: id
  rt_container :: string
  rt_node :: id
  rt_project :: "id option"
  rt_model :: "id option"
  rt_state :: string
  rt_last_used :: "int option"
  rt_endpoint :: id

record endpoint_row =
  pe_id :: id
  pe_enabled :: bool
  pe_lifecycle :: string
  pe_health :: string

record event_row =
  ev_node :: id
  ev_runtime :: "id option"
  ev_project :: "id option"
  ev_weight :: "int option"
  ev_requesting :: "id option"
  ev_trigger :: string
  ev_pressure :: "int option"

record preempt_db =
  p_nodes :: "pnode_row list"
  p_gpus :: "pgpu_row list"
  p_ram :: "pram_row list"
  p_projects :: "project_row list"
  p_reservations :: "(id \<times> int) list"
  p_models :: "(id \<times> string option) list"
  p_runtimes :: "runtime list"
  p_endpoints :: "endpoint_row list"
  preemption_events :: "event_row list"
  p_tasks :: task_db

subsection \<open>Pressure\<close>

record pressureResult =
  pr_trigger :: string
  pressureValue :: int
  needEvict :: bool

definition no_pressure :: pressureResult where
  "no_pressure = \<lparr>pr_trigger = '''', pressureValue = 0, needEvict = False\<rparr>"

definition max_util :: "id \<Rightarrow> preempt_db \<Rightarrow> int" where
  "max_util nodeID db =
     (let us = List.map_filter pg_util (filter (\<lambda>g. pg_node g = nodeID) (p_gpus db)) in if us = [] then 0 else Max (set us))"

definition free_vram :: "id \<Rightarrow> preempt_db \<Rightarrow> int" where
  "free_vram nodeID db =
     sum_list (map (\<lambda>g. pg_vram g - (case pg_used g of None \<Rightarrow> 0 | Some u \<Rightarrow> u)) (filter (\<lambda>g. pg_node g = nodeID) (p_gpus db)))"

text \<open>The join yields a reservation once per runtime of its project on the node.\<close>

definition reserved_vram :: "id \<Rightarrow> preempt_db \<Rightarrow> int" where
  "reserved_vram nodeID db =
     sum_list (concat (concat (map (\<lambda>(pid, vram). map (\<lambda>p. map (\<lambda>_. vram)
        (filter (\<lambda>ar. rt_project ar = Some (pj_id p) \<and> rt_node ar = nodeID \<and>
             rt_state ar \<in> {''ready'', ''active'', ''warm'', ''idle'', ''loading_model''}) (p_runtimes db)))
        (filter (\<lambda>p. pj_id p = pid \<and> pj_weight p \<ge> 700) (p_projects db))) (p_reservations db))))"

definition latest_ram :: "id \<Rightarrow> preempt_db \<Rightarrow> pram_row option" where
  "latest_ram nodeID db =
     (case sort_key (\<lambda>t. - pt_recorded t) (filter (\<lambda>t. pt_node t = nodeID) (p_ram db)) of
        [] \<Rightarrow> None | t # _ \<Rightarrow> Some t)"

definition GPUPressureThresholdPct :: int where "GPUPressureThresholdPct = 95"
definition RAMPressureFreeThresholdPct :: int where "RAMPressureFreeThresholdPct = 5"

definition detectPressure :: "faults \<Rightarrow> id \<Rightarrow> preempt_db \<Rightarrow> pressureResult" where
  "detectPressure flt nodeID db =
     (let maxUtil = (if flt ''gpu util'' then 0 else max_util nodeID db) in
      if maxUtil > GPUPressureThresholdPct
      then \<lparr>pr_trigger = ''gpu_utilization'', pressureValue = maxUtil, needEvict = True\<rparr>
      else
        (let freeVRAM = (if flt ''free vram'' then 0 else free_vram nodeID db);
             reservedVRAM = (if flt ''reserved vram'' then 0 else reserved_vram nodeID db)
         in if freeVRAM < reservedVRAM
            then \<lparr>pr_trigger = ''vram_exhaustion'', pressureValue = freeVRAM, needEvict = True\<rparr>
            else
              (case (if flt ''ram'' then None else latest_ram nodeID db) of
                 None \<Rightarrow> no_pressure
               | Some r \<Rightarrow>
                   (let freeRAM = pt_total r - pt_used r;
                        threshold = pt_total r * RAMPressureFreeThresholdPct div 100
                    in if pt_total r > 0 \<and> freeRAM < threshold
                       then \<lparr>pr_trigger = ''memory_exhaustion'', pressureValue = freeRAM, needEvict = True\<rparr>
                       else no_pressure))))"

subsection \<open>Choosing a victim\<close>

record candidateRuntime =
  RuntimeID :: id
  ContainerID :: string
  NodeID :: id
  ProjectID :: "id option"
  victim_weight :: int
  LastUsedAt :: "int option"
  EndpointID :: id

definition project_of :: "runtime \<Rightarrow> preempt_db \<Rightarrow> project_row option" where
  "project_of r db =
     (case rt_project r of None \<Rightarrow> None | Some pid \<Rightarrow> find (\<lambda>p. pj_id p = pid) (p_projects db))"

definition weight_of :: "runtime \<Rightarrow> preempt_db \<Rightarrow> int" where
  "weight_of r db = (case project_of r db of None \<Rightarrow> 500 | Some p \<Rightarrow> pj_weight p)"

definition mode_of :: "runtime \<Rightarrow> preempt_db \<Rightarrow> string option" where
  "mode_of r db = (case rt_model r of None \<Rightarrow> None | Some m \<Rightarrow> Option.bind (map_of (p_models db) m) (\<lambda>s. s))"

definition evictable :: "id \<Rightarrow> preempt_db \<Rightarrow> runtime \<Rightarrow> bool" where
  "evictable nodeID db r \<longleftrightarrow>
     rt_node r = nodeID \<and> rt_state r \<in> {''ready'', ''active'', ''warm'', ''idle''} \<and>
     SQLManagedCondition (mode_of r db) \<and>
     (case Option.bind (project_of r db) pj_config of
        None \<Rightarrow> True | Some (always_running, protected) \<Rightarrow> \<not> always_running \<and> \<not> protected) \<and>
     (case project_of r db of None \<Rightarrow> True | Some p \<Rightarrow> pj_preemptible p)"

definition eviction_order :: "preempt_db \<Rightarrow> runtime \<Rightarrow> int \<times> int" where
  "eviction_order db r = (weight_of r db, (case rt_last_used r of None \<Rightarrow> 0 | Some t \<Rightarrow> t))"

definition selectEvictionCandidate :: "faults \<Rightarrow> id \<Rightarrow> preempt_db \<Rightarrow> candidateRuntime option" where
  "selectEvictionCandidate flt nodeID db =
     (if flt ''candidates'' then None
      else
        (case take 5 (sort_key (eviction_order db) (filter (evictable nodeID db) (p_runtimes db))) of
           [] \<Rightarrow> None
         | c # _ \<Rightarrow>
             Some \<lparr>RuntimeID = rt_id c, ContainerID = rt_container c, NodeID = rt_node c, ProjectID = rt_project c,
                   victim_weight = weight_of c db, LastUsedAt = rt_last_used c, EndpointID = rt_endpoint c\<rparr>))"

subsection \<open>Stopping the victim\<close>

record StopRuntimePayload =
  sp_runtime :: id
  sp_container :: string
  DrainSecs :: int

datatype wait_error = WaitTimeout | TaskEnded TaskStatus string

datatype preempt_error =
    MarkStoppingFailed
  | EnqueueStopFailed task_error
  | StopFailed wait_error
  | NoCandidates id
  | ErrPreemptionNotAllowed int int

definition set_runtime_state :: "(runtime \<Rightarrow> bool) \<Rightarrow> string \<Rightarrow> preempt_db \<Rightarrow> preempt_db" where
  "set_runtime_state p st db =
     db\<lparr>p_runtimes := map (\<lambda>r. if p r then r\<lparr>rt_state := st\<rparr> else r) (p_runtimes db)\<rparr>"

definition drain_endpoint :: "faults \<Rightarrow> id \<Rightarrow> preempt_db \<Rightarrow> preempt_db" where
  "drain_endpoint flt eid db =
     (if eid = '''' \<or> flt ''drain endpoint'' then db
      else db\<lparr>p_endpoints := map (\<lambda>e. if pe_id e = eid
             then e\<lparr>pe_enabled := False, pe_lifecycle := ''draining'', pe_health := ''draining''\<rparr> else e) (p_endpoints db)\<rparr>)"

text \<open>
  The ticks of the two-second ticker that come before the 60-second context ends; between two of
  them the rest of the system runs.
\<close>

fun waitForTask ::
    "(nat \<Rightarrow> preempt_db \<Rightarrow> preempt_db) \<Rightarrow> (nat \<Rightarrow> bool) \<Rightarrow> nat \<Rightarrow> id \<Rightarrow> preempt_db \<Rightarrow> wait_error option \<times> preempt_db" where
  "waitForTask env getFails 0 taskID db = (Some WaitTimeout, db)"
| "waitForTask env getFails (Suc k) taskID db =
     (let db' = env k db in
      case GetTask (getFails k) taskID (p_tasks db') of
        Inl e \<Rightarrow> waitForTask env getFails k taskID db'
      | Inr t \<Rightarrow>
          (case t_status t of
             StatusSuccess \<Rightarrow> (None, db')
           | StatusFailed \<Rightarrow> (Some (TaskEnded StatusFailed (t_error t)), db')
           | StatusTimeout \<Rightarrow> (Some (TaskEnded StatusTimeout (t_error t)), db')
           | StatusCancelled \<Rightarrow> (Some (TaskEnded StatusCancelled (t_error t)), db')
           | _ \<Rightarrow> waitForTask env getFails k taskID db'))"

definition recordEvaluation :: "faults \<Rightarrow> id \<Rightarrow> pressureResult \<Rightarrow> preempt_db \<Rightarrow> preempt_db" where
  "recordEvaluation flt nodeID pr db =
     (if flt ''record evaluation'' then db
      else db\<lparr>preemption_events := preemption_events db @
             [\<lparr>ev_node = nodeID, ev_runtime = None, ev_project = None, ev_weight = None, ev_requesting = None,
               ev_trigger = pr_trigger pr, ev_pressure = Some (pressureValue pr)\<rparr>]\<rparr>)"

definition recordPreemptionEvent ::
    "faults \<Rightarrow> candidateRuntime \<Rightarrow> id option \<Rightarrow> string \<Rightarrow> preempt_db \<Rightarrow> preempt_db" where
  "recordPreemptionEvent flt c requesting trigger db =
     (if flt ''record event'' then db
      else db\<lparr>preemption_events := preemption_events db @
             [\<lparr>ev_node = NodeID c, ev_runtime = Some (RuntimeID c), ev_project = ProjectID c,
               ev_weight = Some (victim_weight c), ev_requesting = requesting, ev_trigger = trigger,
               ev_pressure = None\<rparr>]\<rparr>)"

definition preempt_options :: "candidateRuntime \<Rightarrow> EnqueueOption list" where
  "preempt_options c =
     [WithPriority 95, WithActor ''preemption-engine'', WithRuntimeID (RuntimeID c), WithTimeout 70,
      WithIdempotencyKey (''preempt:'' @ RuntimeID c)]"

record preempt_world =
  w_faults :: faults
  w_now :: int
  w_taskID :: id
  w_json :: "StopRuntimePayload \<Rightarrow> string option"
  w_env :: "nat \<Rightarrow> preempt_db \<Rightarrow> preempt_db"
  w_getFails :: "nat \<Rightarrow> bool"
  w_ticks :: nat

definition executePreemption ::
    "preempt_world \<Rightarrow> candidateRuntime \<Rightarrow> id option \<Rightarrow> string \<Rightarrow> preempt_db \<Rightarrow> preempt_error option \<times> preempt_db" where
  "executePreemption w c requesting trigger db =
     (let flt = w_faults w in
      if flt ''mark stopping'' then (Some MarkStoppingFailed, db)
      else
        (let db1 = set_runtime_state (\<lambda>r. rt_id r = RuntimeID c \<and> rt_state r \<in> {''active'', ''warm'', ''idle''}) ''stopping'' db;
             db2 = drain_endpoint flt (EndpointID c) db1;
             payload = \<lparr>sp_runtime = RuntimeID c, sp_container = ContainerID c, DrainSecs = 10\<rparr>
         in case Enqueue (flt ''enqueue'') (w_now w) (w_taskID w) (NodeID c) TaskStopRuntime (w_json w payload)
                   (preempt_options c) (p_tasks db2) of
              (Inl e, _) \<Rightarrow>
                (Some (EnqueueStopFailed e),
                 if flt ''revert state'' then db2
                 else set_runtime_state (\<lambda>r. rt_id r = RuntimeID c) ''active'' db2)
            | (Inr taskID, tasks) \<Rightarrow>
                (case waitForTask (w_env w) (w_getFails w) (w_ticks w) taskID (db2\<lparr>p_tasks := tasks\<rparr>) of
                   (Some e, db3) \<Rightarrow> (Some (StopFailed e), recordPreemptionEvent flt c requesting trigger db3)
                 | (None, db3) \<Rightarrow> (None, recordPreemptionEvent flt c requesting trigger db3))))"

definition PreemptForProject ::
    "preempt_world \<Rightarrow> id \<Rightarrow> id \<Rightarrow> id \<Rightarrow> PriorityWeight \<Rightarrow> int \<Rightarrow> preempt_db \<Rightarrow> (bool \<times> preempt_error option) \<times> preempt_db" where
  "PreemptForProject w nodeID requestingRuntimeID requestingProjectID requestingWeight requestingEffective db =
     (case selectEvictionCandidate (w_faults w) nodeID db of
        None \<Rightarrow> ((False, Some (NoCandidates nodeID)), db)
      | Some c \<Rightarrow>
          if \<not> CanPreempt requestingEffective (victim_weight c)
          then ((False, Some (ErrPreemptionNotAllowed requestingEffective (victim_weight c))), db)
          else
            (case executePreemption w c (Some requestingRuntimeID) ''admission'' db of
               (err, db') \<Rightarrow> ((err = None, err), db')))"

definition evaluateNode :: "preempt_world \<Rightarrow> id \<Rightarrow> preempt_db \<Rightarrow> preempt_db" where
  "evaluateNode w nodeID db =
     (let pr = detectPressure (w_faults w) nodeID db in
      if \<not> needEvict pr then db
      else
        (let db1 = recordEvaluation (w_faults w) nodeID pr db in
         case selectEvictionCandidate (w_faults w) nodeID db1 of
           None \<Rightarrow> db1
         | Some c \<Rightarrow> snd (executePreemption w c None (pr_trigger pr) db1)))"

definition sweep :: "(id \<Rightarrow> preempt_world) \<Rightarrow> bool \<Rightarrow> preempt_db \<Rightarrow> preempt_db" where
  "sweep w queryFails db =
     (if queryFails then db
      else fold (\<lambda>n. evaluateNode (w (pn_id n)) (pn_id n))
             (filter (\<lambda>n. pn_status n \<in> {''online'', ''degraded''}) (p_nodes db)) db)"

subsection \<open>The SQL conditions are the Go predicates\<close>

lemma SQLCondition_Eligible: "SQLCondition e (Some l) = Eligible e l" "SQLCondition e None = Eligible e ''active''"
  by (simp_all add: SQLCondition_def Eligible_def)

lemma SQLManagedCondition_ManagedByNexus:
  "SQLManagedCondition (Some m) = ManagedByNexus m" "SQLManagedCondition None = ManagedByNexus ''''"
  by (simp_all add: SQLManagedCondition_def ManagedByNexus_def)

subsection \<open>The victim\<close>

definition is_victim :: "id \<Rightarrow> preempt_db \<Rightarrow> candidateRuntime \<Rightarrow> runtime \<Rightarrow> bool" where
  "is_victim nodeID db c r \<longleftrightarrow> r \<in> set (p_runtimes db) \<and> evictable nodeID db r \<and>
     RuntimeID c = rt_id r \<and> ContainerID c = rt_container r \<and> victim_weight c = weight_of r db \<and> NodeID c = nodeID \<and>
     list_all (\<lambda>s. evictable nodeID db s \<longrightarrow> eviction_order db r \<le> eviction_order db s) (p_runtimes db)"

lemma candidate_SomeD:
  assumes "selectEvictionCandidate flt nodeID db = Some c"
  obtains r where "is_victim nodeID db c r"
proof -
  let ?xs = "filter (evictable nodeID db) (p_runtimes db)"
  from assms obtain r rs where rs: "take 5 (sort_key (eviction_order db) ?xs) = r # rs"
    and c: "c = \<lparr>RuntimeID = rt_id r, ContainerID = rt_container r, NodeID = rt_node r, ProjectID = rt_project r,
      victim_weight = weight_of r db, LastUsedAt = rt_last_used r, EndpointID = rt_endpoint r\<rparr>"
    by (auto simp: selectEvictionCandidate_def split: if_splits list.splits)
  obtain qs where qs: "sort_key (eviction_order db) ?xs = r # qs"
    using rs by (cases "sort_key (eviction_order db) ?xs") auto
  from sort_key_hd_least [OF qs] c show thesis
    by (intro that [of r]) (simp_all add: is_victim_def list_all_iff evictable_def)
qed

lemma candidate_None_iff:
  "selectEvictionCandidate (\<lambda>_. False) nodeID db = None \<longleftrightarrow> list_all (\<lambda>r. \<not> evictable nodeID db r) (p_runtimes db)"
proof (cases "sort_key (eviction_order db) (filter (evictable nodeID db) (p_runtimes db))")
  case Nil
  then have "filter (evictable nodeID db) (p_runtimes db) = []" by (simp only: sort_key_eq_Nil)
  then show ?thesis by (simp add: selectEvictionCandidate_def list_all_iff filter_empty_conv)
next
  case (Cons r rs)
  from sort_key_hd_least(1) [OF Cons] Cons show ?thesis
    by (auto simp: selectEvictionCandidate_def list_all_iff)
qed

subsection \<open>Waiting\<close>


lemma wait_unknown_task:
  assumes "\<And>k d. status_of (p_tasks d) tid = None \<Longrightarrow> status_of (p_tasks (env k d)) tid = None"
  shows "status_of (p_tasks db) tid = None \<Longrightarrow> fst (waitForTask env gf k tid db) = Some WaitTimeout"
proof (induction k arbitrary: db)
  case (Suc k)
  then have none: "status_of (p_tasks (env k db)) tid = None" using assms by blast
  have "\<exists>e. GetTask b tid (p_tasks (env k db)) = Inl e" for b
    using GetTask_none_iff [of tid "p_tasks (env k db)"] none by (cases b) (simp_all add: GetTask_def)
  then obtain e where "GetTask (gf k) tid (p_tasks (env k db)) = Inl e" by blast
  with Suc.IH [OF none] show ?case by (simp add: Let_def)
qed simp

lemma recordPreemptionEvent_tasks [simp]:
  "p_tasks (recordPreemptionEvent flt c r t db) = p_tasks db" "p_runtimes (recordPreemptionEvent flt c r t db) = p_runtimes db"
  by (simp_all add: recordPreemptionEvent_def)

lemma set_runtime_state_simps [simp]:
  "p_tasks (set_runtime_state p st db) = p_tasks db" "p_projects (set_runtime_state p st db) = p_projects db"
  "p_models (set_runtime_state p st db) = p_models db" "p_nodes (set_runtime_state p st db) = p_nodes db"
  by (simp_all add: set_runtime_state_def)

lemma drain_endpoint_simps [simp]:
  "p_tasks (drain_endpoint flt e db) = p_tasks db" "p_runtimes (drain_endpoint flt e db) = p_runtimes db"
  "p_projects (drain_endpoint flt e db) = p_projects db" "p_models (drain_endpoint flt e db) = p_models db"
  by (simp_all add: drain_endpoint_def)


lemma preempt_options_key:
  "o_idempotencyKey (fold (\<lambda>f. f) (preempt_options c) default_options) = ''preempt:'' @ RuntimeID c"
  by (simp add: preempt_options_def WithPriority_def WithActor_def WithRuntimeID_def WithTimeout_def
      WithIdempotencyKey_def default_options_def)
















lemma Enqueue_leaves_key:
  assumes "Enqueue f now i n ty pl (preempt_options c) db = (Inr j, db')"
  shows "list_ex (\<lambda>u. t_ikey u = Some (''preempt:'' @ RuntimeID c)) (agent_tasks db')"
  using assms
  by (auto simp: Enqueue_def Let_def insert_task_def new_task_def preempt_options_key nilableStr_def list_ex_iff
      split: option.splits sum.splits if_splits)

text \<open>
  A runtime can be preempted only once. The idempotency key of the stop task depends only on the
  runtime, and tasks are never removed, so after the stop task of an earlier preemption was enqueued
  no later preemption of that runtime enqueues another: it waits for a task that does not exist and
  fails with a timeout, whatever the agents do.
\<close>

theorem repeated_preemption_times_out:
  assumes "selectEvictionCandidate (w_faults w) n db = Some c" and "CanPreempt eff (victim_weight c)"
    and "w_faults w = (\<lambda>_. False)" and "w_json w \<lparr>sp_runtime = RuntimeID c, sp_container = ContainerID c, DrainSecs = 10\<rparr> \<noteq> None"
    and "Enqueue f now i m ty pl (preempt_options c) before = (Inr i, afterwards)" and "task_step\<^sup>*\<^sup>* afterwards (p_tasks db)"
    and "status_of (p_tasks db) (w_taskID w) = None"
    and "\<And>k d. status_of (p_tasks d) (w_taskID w) = None \<Longrightarrow> status_of (p_tasks (w_env w k d)) (w_taskID w) = None"
  shows "fst (PreemptForProject w n rr rp rw eff db) = (False, Some (StopFailed WaitTimeout))"
proof -
  let ?db1 = "set_runtime_state (\<lambda>r. rt_id r = RuntimeID c \<and> rt_state r \<in> {''active'', ''warm'', ''idle''}) ''stopping'' db"
  let ?db2 = "drain_endpoint (\<lambda>_. False) (EndpointID c) ?db1"
  have t2: "p_tasks ?db2 = p_tasks db" by simp
  from assms(4) obtain js where js: "w_json w \<lparr>sp_runtime = RuntimeID c, sp_container = ContainerID c, DrainSecs = 10\<rparr> = Some js"
    by blast
  have "list_ex (\<lambda>u. t_ikey u = Some (''preempt:'' @ RuntimeID c)) (agent_tasks (p_tasks db))"
    using ikeys_kept [OF assms(6) Enqueue_leaves_key [OF assms(5)]] .
  then have enq: "Enqueue False (w_now w) (w_taskID w) (NodeID c) TaskStopRuntime (Some js) (preempt_options c) (p_tasks ?db2)
      = (Inr (w_taskID w), p_tasks ?db2)"
    unfolding t2 by (intro Enqueue_same_key [OF preempt_options_key]) simp_all
  have "fst (waitForTask (w_env w) (w_getFails w) (w_ticks w) (w_taskID w) (?db2\<lparr>p_tasks := p_tasks ?db2\<rparr>)) = Some WaitTimeout"
    by (rule wait_unknown_task [OF assms(8)]) (simp_all add: assms(7))
  then obtain d where wait: "waitForTask (w_env w) (w_getFails w) (w_ticks w) (w_taskID w) (?db2\<lparr>p_tasks := p_tasks ?db2\<rparr>)
      = (Some WaitTimeout, d)"
    by (cases "waitForTask (w_env w) (w_getFails w) (w_ticks w) (w_taskID w) (?db2\<lparr>p_tasks := p_tasks ?db2\<rparr>)") (simp only: fst_conv)
  have "fst (executePreemption w c (Some rr) ''admission'' db) = Some (StopFailed WaitTimeout)"
    unfolding executePreemption_def Let_def assms(3) js enq prod.case sum.case wait option.case by simp
  then show ?thesis
    unfolding PreemptForProject_def assms(1) option.case
    by (cases "executePreemption w c (Some rr) ''admission'' db") (simp add: assms(2))
qed

subsection \<open>A pressure sweep spares what is protected\<close>

definition spared :: "preempt_db \<Rightarrow> runtime \<Rightarrow> bool" where
  "spared db r \<longleftrightarrow> \<not> SQLManagedCondition (mode_of r db) \<or>
     (\<exists>p. project_of r db = Some p \<and> (\<not> pj_preemptible p \<or> (\<exists>a b. pj_config p = Some (a, b) \<and> (a \<or> b))))"

lemma spared_not_evictable: "spared db r \<Longrightarrow> \<not> evictable n db r"
  by (auto simp: spared_def evictable_def)

text \<open>What a step may touch: it keeps the projects, the models, the runtime ids and the row of \<open>r\<close>.\<close>

definition keeps :: "runtime \<Rightarrow> preempt_db \<Rightarrow> preempt_db \<Rightarrow> bool" where
  "keeps r db db' \<longleftrightarrow> p_projects db' = p_projects db \<and> p_models db' = p_models db \<and>
     map rt_id (p_runtimes db') = map rt_id (p_runtimes db) \<and> (r \<in> set (p_runtimes db) \<longrightarrow> r \<in> set (p_runtimes db'))"

lemma keeps_refl: "keeps r db db"
  by (simp add: keeps_def)

lemma keeps_trans: "keeps r a b \<Longrightarrow> keeps r b c \<Longrightarrow> keeps r a c"
  by (simp add: keeps_def)

lemma keeps_spared: "keeps r db db' \<Longrightarrow> spared db' r = spared db r"
proof -
  assume "keeps r db db'"
  then have "mode_of r db' = mode_of r db" "project_of r db' = project_of r db"
    by (auto simp: keeps_def mode_of_def project_of_def split: option.split)
  then show ?thesis by (simp add: spared_def)
qed

lemma keeps_sets:
  "rt_id r \<noteq> i \<Longrightarrow> (\<And>q. p q \<Longrightarrow> rt_id q = i) \<Longrightarrow> keeps r db (set_runtime_state p st db)"
proof -
  assume a: "rt_id r \<noteq> i" "\<And>q. p q \<Longrightarrow> rt_id q = i"
  then have "\<not> p r" by blast
  moreover have "rt_id \<circ> (\<lambda>q. if p q then q\<lparr>rt_state := st\<rparr> else q) = rt_id" by auto
  ultimately show ?thesis by (force simp: keeps_def set_runtime_state_def)
qed

lemma keeps_wait:
  assumes "\<And>k d. keeps r d (env k d)"
  shows "keeps r db (snd (waitForTask env gf k tid db))"
proof (induction k arbitrary: db)
  case (Suc k)
  from assms [of db k] Suc.IH [of "env k db"] show ?case
    by (auto simp: Let_def intro: keeps_trans split: sum.split TaskStatus.split)
qed (simp add: keeps_refl)

lemma keeps_execute:
  assumes "rt_id r \<noteq> RuntimeID c" and "\<And>k d. keeps r d (w_env w k d)"
  shows "keeps r db (snd (executePreemption w c rq tr db))"
proof -
  let ?st = "\<lambda>db. set_runtime_state (\<lambda>r. rt_id r = RuntimeID c \<and> rt_state r \<in> {''active'', ''warm'', ''idle''}) ''stopping'' db"
  have drain: "keeps r d (drain_endpoint f e d)" for d f e by (simp add: keeps_def)
  have logged: "keeps r d (recordPreemptionEvent f c rq tr d)" for d f by (simp add: keeps_def recordPreemptionEvent_def)
  have tasks: "keeps r d (d\<lparr>p_tasks := t\<rparr>)" for d t by (simp add: keeps_def)
  have st: "keeps r d (?st d)" for d by (rule keeps_sets [OF assms(1)]) blast
  have reverted: "keeps r d (set_runtime_state (\<lambda>r. rt_id r = RuntimeID c) ''active'' d)" for d
    by (rule keeps_sets [OF assms(1)]) blast
  have db2: "keeps r db (drain_endpoint (w_faults w) (EndpointID c) (?st db))"
    using st drain by (rule keeps_trans)
  have waited: "keeps r db (recordPreemptionEvent (w_faults w) c rq tr
      (snd (waitForTask (w_env w) (w_getFails w) (w_ticks w) i
        ((drain_endpoint (w_faults w) (EndpointID c) (?st db))\<lparr>p_tasks := t\<rparr>))))" for i t
    by (rule keeps_trans [OF keeps_trans [OF keeps_trans [OF db2 tasks] keeps_wait [OF assms(2)]] logged])
  define res where "res = Enqueue (w_faults w ''enqueue'') (w_now w) (w_taskID w) (NodeID c) TaskStopRuntime
      (w_json w \<lparr>sp_runtime = RuntimeID c, sp_container = ContainerID c, DrainSecs = 10\<rparr>) (preempt_options c)
      (p_tasks (drain_endpoint (w_faults w) (EndpointID c) (?st db)))"
  show ?thesis unfolding executePreemption_def Let_def res_def [symmetric]
  proof (cases res rule: prod.exhaust [case_names Pair])
    case (Pair x t)
    then show "keeps r db (snd (if w_faults w ''mark stopping'' then (Some MarkStoppingFailed, db) else
      (case res of
         (Inl e, _) \<Rightarrow> (Some (EnqueueStopFailed e),
            if w_faults w ''revert state'' then drain_endpoint (w_faults w) (EndpointID c) (?st db)
            else set_runtime_state (\<lambda>r. rt_id r = RuntimeID c) ''active'' (drain_endpoint (w_faults w) (EndpointID c) (?st db)))
       | (Inr taskID, tasks) \<Rightarrow>
           (case waitForTask (w_env w) (w_getFails w) (w_ticks w) taskID
                ((drain_endpoint (w_faults w) (EndpointID c) (?st db))\<lparr>p_tasks := tasks\<rparr>) of
              (Some e, db3) \<Rightarrow> (Some (StopFailed e), recordPreemptionEvent (w_faults w) c rq tr db3)
            | (None, db3) \<Rightarrow> (None, recordPreemptionEvent (w_faults w) c rq tr db3)))))"
    proof (cases x)
      case (Inl e)
      with Pair keeps_trans [OF db2 reverted] db2 show ?thesis by (simp only: prod.case sum.case split: if_split) (simp add: keeps_refl)
    next
      case (Inr i)
      obtain v d where v: "waitForTask (w_env w) (w_getFails w) (w_ticks w) i
          ((drain_endpoint (w_faults w) (EndpointID c) (?st db))\<lparr>p_tasks := t\<rparr>) = (v, d)" by fastforce
      with waited [of i t] have "keeps r db (recordPreemptionEvent (w_faults w) c rq tr d)" by (simp only: snd_conv)
      with Pair Inr v show ?thesis by (simp only: prod.case sum.case) (cases v, simp_all add: keeps_refl)
    qed
  qed
qed

lemma keeps_evaluate:
  assumes "\<And>k d. keeps r d (w_env w k d)" and "spared db r" and "distinct (map rt_id (p_runtimes db))"
    and "r \<in> set (p_runtimes db)"
  shows "keeps r db (evaluateNode w n db)"
proof -
  have rec: "keeps r db (recordEvaluation (w_faults w) n pr db)" for pr by (simp add: keeps_def recordEvaluation_def)
  show ?thesis
  proof (cases "selectEvictionCandidate (w_faults w) n (recordEvaluation (w_faults w) n (detectPressure (w_faults w) n db) db)")
    case None
    then show ?thesis using rec by (simp add: evaluateNode_def Let_def keeps_refl)
  next
    case (Some c)
    let ?d = "recordEvaluation (w_faults w) n (detectPressure (w_faults w) n db) db"
    from Some obtain q where q: "is_victim n ?d c q" by (rule candidate_SomeD)
    have "q \<noteq> r" using q spared_not_evictable keeps_spared [OF rec] assms(2) by (metis is_victim_def)
    moreover have "q \<in> set (p_runtimes db)" using q by (simp add: is_victim_def recordEvaluation_def split: if_splits)
    ultimately have "rt_id r \<noteq> RuntimeID c"
      using q assms(3,4) by (auto simp: is_victim_def dest: distinct_key_unique)
    then have "keeps r ?d (snd (executePreemption w c None (pr_trigger (detectPressure (w_faults w) n db)) ?d))"
      by (rule keeps_execute) (rule assms(1))
    with rec Some show ?thesis by (auto simp: evaluateNode_def Let_def keeps_refl intro: keeps_trans)
  qed
qed

text \<open>
  A pressure sweep never disturbs a protected runtime. Provided the other actors leave it alone,
  a runtime that is deployed manually or belongs to a protected, always-running or non-preemptible
  project is unchanged after a sweep over all nodes, whatever pressure and faults occur.
\<close>

theorem sweep_spares_protected:
  assumes "r \<in> set (p_runtimes db)" and "distinct (map rt_id (p_runtimes db))" and "spared db r"
    and "\<And>n k d. keeps r d (w_env (w n) k d)"
  shows "r \<in> set (p_runtimes (sweep w qf db))"
proof -
  have "keeps r db (fold (\<lambda>n. evaluateNode (w (pn_id n)) (pn_id n)) ns db)" for ns
    using assms(1-3)
  proof (induction ns arbitrary: db)
    case (Cons n ns)
    have k: "keeps r db (evaluateNode (w (pn_id n)) (pn_id n) db)"
      by (rule keeps_evaluate) (use assms(4) Cons.prems in auto)
    then have "keeps r (evaluateNode (w (pn_id n)) (pn_id n) db)
        (fold (\<lambda>n. evaluateNode (w (pn_id n)) (pn_id n)) ns (evaluateNode (w (pn_id n)) (pn_id n) db))"
      using Cons.prems keeps_spared [OF k] by (intro Cons.IH) (simp_all add: keeps_def)
    with k show ?case by (auto intro: keeps_trans)
  qed (simp add: keeps_refl)
  then have "keeps r db (sweep w qf db)" unfolding sweep_def by (cases qf) (simp_all only: if_True if_False keeps_refl)
  with assms(1) show ?thesis by (simp add: keeps_def)
qed

subsection \<open>A small cluster under pressure\<close>

definition demo_runtime :: "id \<Rightarrow> id \<Rightarrow> runtime" where
  "demo_runtime i pj = \<lparr>rt_id = i, rt_container = i, rt_node = ''n1'', rt_project = Some pj, rt_model = None,
     rt_state = ''active'', rt_last_used = None, rt_endpoint = ''''\<rparr>"

definition demo_project :: "id \<Rightarrow> int \<Rightarrow> bool \<Rightarrow> project_row" where
  "demo_project i wt prot = \<lparr>pj_id = i, pj_weight = wt, pj_preemptible = True, pj_config = Some (False, prot)\<rparr>"

definition demo_pressure :: preempt_db where
  "demo_pressure = \<lparr>p_nodes = [\<lparr>pn_id = ''n1'', pn_hostname = ''n1'', pn_status = ''online''\<rparr>],
     p_gpus = [\<lparr>pg_node = ''n1'', pg_vram = 80, pg_util = Some 99, pg_used = Some 70\<rparr>], p_ram = [],
     p_projects = [demo_project ''guarded'' 100 True, demo_project ''batch'' 300 False],
     p_reservations = [], p_models = [], p_runtimes = [demo_runtime ''r1'' ''guarded'', demo_runtime ''r2'' ''batch''],
     p_endpoints = [], preemption_events = [], p_tasks = demo_tasks\<rparr>"

definition demo_world :: "(nat \<Rightarrow> preempt_db \<Rightarrow> preempt_db) \<Rightarrow> preempt_world" where
  "demo_world env = \<lparr>w_faults = (\<lambda>_. False), w_now = 5, w_taskID = ''task'', w_json = (\<lambda>_. Some ''{}''), w_env = env,
     w_getFails = (\<lambda>_. False), w_ticks = 30\<rparr>"

definition demo_agent :: "nat \<Rightarrow> preempt_db \<Rightarrow> preempt_db" where
  "demo_agent k db = db\<lparr>p_tasks := snd (Complete False 6 ''task'' None (p_tasks db))\<rparr>"



definition demo_victim :: candidateRuntime where
  "demo_victim = \<lparr>RuntimeID = ''r2'', ContainerID = ''r2'', NodeID = ''n1'', ProjectID = Some ''batch'',
     victim_weight = 300, LastUsedAt = None, EndpointID = ''''\<rparr>"

definition demo_stopped_before :: preempt_db where
  "demo_stopped_before = demo_pressure\<lparr>p_tasks :=
     snd (Enqueue False 1 ''old'' ''n1'' TaskStopRuntime (Some ''{}'') (preempt_options demo_victim) demo_tasks)\<rparr>"

theorem repeated_preemption_times_out_witness:
  "fst (PreemptForProject (demo_world (\<lambda>_ d. d)) ''n1'' ''rr'' ''pp'' 950 950 demo_stopped_before)
   = (False, Some (StopFailed WaitTimeout))"
proof (rule repeated_preemption_times_out [where c = demo_victim and f = False and now = 1 and i = "''old''" and m = "''n1''"
      and ty = TaskStopRuntime and pl = "Some ''{}''" and before = demo_tasks and afterwards = "p_tasks demo_stopped_before"])
  show "selectEvictionCandidate (w_faults (demo_world (\<lambda>_ d. d))) ''n1'' demo_stopped_before = Some demo_victim" by code_simp
  have "fst (Enqueue False 1 ''old'' ''n1'' TaskStopRuntime (Some ''{}'') (preempt_options demo_victim) demo_tasks) = Inr ''old''"
    by code_simp
  then show "Enqueue False 1 ''old'' ''n1'' TaskStopRuntime (Some ''{}'') (preempt_options demo_victim) demo_tasks
      = (Inr ''old'', p_tasks demo_stopped_before)" by (simp add: demo_stopped_before_def prod_eq_iff)
  show "CanPreempt 950 (victim_weight demo_victim)" by code_simp
  show "status_of (p_tasks demo_stopped_before) (w_taskID (demo_world (\<lambda>_ d. d))) = None" by code_simp
qed (simp_all add: demo_world_def)

theorem sweep_spares_protected_witness:
  "needEvict (detectPressure (\<lambda>_. False) ''n1'' demo_pressure) \<and>
   demo_runtime ''r1'' ''guarded'' \<in> set (p_runtimes (sweep (\<lambda>_. demo_world demo_agent) False demo_pressure))"
proof
  show "needEvict (detectPressure (\<lambda>_. False) ''n1'' demo_pressure)" by code_simp
  show "demo_runtime ''r1'' ''guarded'' \<in> set (p_runtimes (sweep (\<lambda>_. demo_world demo_agent) False demo_pressure))"
  proof (rule sweep_spares_protected)
    show "spared demo_pressure (demo_runtime ''r1'' ''guarded'')"
      by (auto simp: spared_def demo_pressure_def demo_runtime_def demo_project_def project_of_def)
  qed (simp_all add: demo_pressure_def demo_runtime_def demo_world_def demo_agent_def keeps_def)
qed

end
