(* ===== verification/Redis.thy ===== *)
theory Redis
  imports Nexus_Prelude
begin

text \<open>
  The part of Redis the program uses. A key holds a value and an optional expiry (milliseconds).
  Redis has one key space; the model keeps counters, strings and sorted sets in separate maps,
  since the program never uses one key for values of two kinds. A sorted set is the list of its
  members with their scores. The state is read through three observations, the value of a counter,
  the members of a sorted set and the value of a string, and each command is characterised by what
  it does to them. The record is extended by the policy engine with sets and hashes, so every
  command works on any extension.
\<close>

subsection \<open>State and commands\<close>

type_synonym zset = "(string \<times> int) list"

record redis =
  r_cnt :: "string \<Rightarrow> (int \<times> int option) option"
  r_str :: "string \<Rightarrow> (string \<times> int option) option"
  r_zset :: "string \<Rightarrow> (zset \<times> int option) option"

text \<open>A value past its expiry is gone.\<close>

definition live :: "int \<Rightarrow> ('v \<times> int option) option \<Rightarrow> ('v \<times> int option) option" where
  "live now e =
     (case e of None \<Rightarrow> None
      | Some (v, None) \<Rightarrow> Some (v, None)
      | Some (v, Some t) \<Rightarrow> if t \<le> now then None else Some (v, Some t))"

definition counter :: "int \<Rightarrow> string \<Rightarrow> 'a redis_scheme \<Rightarrow> int" where
  "counter now key r = (case live now (r_cnt r key) of None \<Rightarrow> 0 | Some (v, _) \<Rightarrow> v)"

definition GET :: "int \<Rightarrow> string \<Rightarrow> 'a redis_scheme \<Rightarrow> string option" where
  "GET now key r = map_option fst (live now (r_str r key))"

definition members :: "int \<Rightarrow> string \<Rightarrow> 'a redis_scheme \<Rightarrow> zset" where
  "members now key r = (case live now (r_zset r key) of None \<Rightarrow> [] | Some (z, _) \<Rightarrow> z)"

definition INCRBY :: "int \<Rightarrow> string \<Rightarrow> int \<Rightarrow> 'a redis_scheme \<Rightarrow> 'a redis_scheme" where
  "INCRBY now key n r =
     (case live now (r_cnt r key) of
        None \<Rightarrow> r\<lparr>r_cnt := (r_cnt r)(key := Some (n, None))\<rparr>
      | Some (v, e) \<Rightarrow> r\<lparr>r_cnt := (r_cnt r)(key := Some (v + n, e))\<rparr>)"

definition SET_counter :: "string \<Rightarrow> int \<Rightarrow> 'a redis_scheme \<Rightarrow> 'a redis_scheme" where
  "SET_counter key n r = r\<lparr>r_cnt := (r_cnt r)(key := Some (n, None))\<rparr>"

text \<open>\<open>EXPIRE\<close> and \<open>EXPIREAT\<close> on a counter: a deadline that has passed deletes the key.\<close>

definition EXPIREAT_counter :: "int \<Rightarrow> string \<Rightarrow> int \<Rightarrow> 'a redis_scheme \<Rightarrow> 'a redis_scheme" where
  "EXPIREAT_counter now key t r =
     (case live now (r_cnt r key) of
        None \<Rightarrow> r
      | Some (v, _) \<Rightarrow> r\<lparr>r_cnt := (r_cnt r)(key := (if t \<le> now then None else Some (v, Some t)))\<rparr>)"

definition PEXPIRE_zset :: "int \<Rightarrow> string \<Rightarrow> int \<Rightarrow> 'a redis_scheme \<Rightarrow> 'a redis_scheme" where
  "PEXPIRE_zset now key ttl r =
     (case live now (r_zset r key) of
        None \<Rightarrow> r
      | Some (z, _) \<Rightarrow> r\<lparr>r_zset := (r_zset r)(key := (if ttl \<le> 0 then None else Some (z, Some (now + ttl))))\<rparr>)"

definition SET_EX :: "int \<Rightarrow> string \<Rightarrow> string \<Rightarrow> int \<Rightarrow> 'a redis_scheme \<Rightarrow> 'a redis_scheme" where
  "SET_EX now key s ttl r = r\<lparr>r_str := (r_str r)(key := Some (s, Some (now + ttl * 1000)))\<rparr>"

definition DEL :: "string \<Rightarrow> 'a redis_scheme \<Rightarrow> 'a redis_scheme" where
  "DEL key r = r\<lparr>r_str := (r_str r)(key := None)\<rparr>"

text \<open>A sorted set that becomes empty is removed with its expiry.\<close>

definition put_zset :: "string \<Rightarrow> zset \<Rightarrow> int option \<Rightarrow> 'a redis_scheme \<Rightarrow> 'a redis_scheme" where
  "put_zset key z e r = r\<lparr>r_zset := (r_zset r)(key := (if z = [] then None else Some (z, e)))\<rparr>"

definition zset_expiry :: "int \<Rightarrow> string \<Rightarrow> 'a redis_scheme \<Rightarrow> int option" where
  "zset_expiry now key r = (case live now (r_zset r key) of None \<Rightarrow> None | Some (_, e) \<Rightarrow> e)"

definition ZADD :: "int \<Rightarrow> string \<Rightarrow> int \<Rightarrow> string \<Rightarrow> 'a redis_scheme \<Rightarrow> 'a redis_scheme" where
  "ZADD now key score m r =
     put_zset key ((m, score) # filter (\<lambda>x. fst x \<noteq> m) (members now key r)) (zset_expiry now key r) r"

definition ZREM :: "int \<Rightarrow> string \<Rightarrow> string \<Rightarrow> 'a redis_scheme \<Rightarrow> 'a redis_scheme" where
  "ZREM now key m r = put_zset key (filter (\<lambda>x. fst x \<noteq> m) (members now key r)) (zset_expiry now key r) r"

definition ZREMRANGEBYSCORE :: "int \<Rightarrow> string \<Rightarrow> int \<Rightarrow> 'a redis_scheme \<Rightarrow> 'a redis_scheme" where
  "ZREMRANGEBYSCORE now key hi r =
     put_zset key (filter (\<lambda>x. snd x > hi) (members now key r)) (zset_expiry now key r) r"

definition ZCARD :: "int \<Rightarrow> string \<Rightarrow> 'a redis_scheme \<Rightarrow> int" where
  "ZCARD now key r = int (length (members now key r))"

definition ZSCORE :: "int \<Rightarrow> string \<Rightarrow> string \<Rightarrow> 'a redis_scheme \<Rightarrow> int option" where
  "ZSCORE now key m r = map_of (members now key r) m"

named_theorems redis_obs \<open>what each Redis command does to the observations\<close>

subsection \<open>What the commands do\<close>

lemma live_None [simp]: "live now None = None"
  by (simp add: live_def)

lemma live_idem [simp]: "live now (live now e) = live now e"
  by (auto simp: live_def split: option.splits)

lemma live_Some_iff: "live now (Some (v, e)) = (case e of None \<Rightarrow> Some (v, e) | Some t \<Rightarrow> if t \<le> now then None else Some (v, e))"
  by (auto simp: live_def split: option.splits)

lemma counter_INCRBY [redis_obs]:
  "counter now k (INCRBY now key n r) = (if k = key then counter now key r + n else counter now k r)"
  by (auto simp: counter_def INCRBY_def live_def split: option.splits if_splits)

lemma counter_SET [redis_obs]: "counter now k (SET_counter key n r) = (if k = key then n else counter now k r)"
  by (simp add: counter_def SET_counter_def live_def)

lemma counter_EXPIREAT [redis_obs]:
  "counter now k (EXPIREAT_counter now key t r) = (if k = key \<and> t \<le> now then 0 else counter now k r)"
  by (auto simp: counter_def EXPIREAT_counter_def live_def split: option.splits if_splits)

lemma zset_cnt [simp]:
  "r_cnt (put_zset k z e r) = r_cnt r" "r_str (put_zset k z e r) = r_str r"
  "r_cnt (PEXPIRE_zset now k ttl r) = r_cnt r" "r_str (PEXPIRE_zset now k ttl r) = r_str r"
  "r_cnt (SET_EX now k s ttl r) = r_cnt r" "r_zset (SET_EX now k s ttl r) = r_zset r"
  "r_cnt (DEL k r) = r_cnt r" "r_zset (DEL k r) = r_zset r"
  "r_zset (INCRBY now k n r) = r_zset r" "r_str (INCRBY now k n r) = r_str r"
  "r_zset (SET_counter k n r) = r_zset r" "r_str (SET_counter k n r) = r_str r"
  "r_zset (EXPIREAT_counter now k t r) = r_zset r" "r_str (EXPIREAT_counter now k t r) = r_str r"
  by (auto simp: put_zset_def PEXPIRE_zset_def SET_EX_def DEL_def INCRBY_def SET_counter_def EXPIREAT_counter_def
      split: option.splits)

lemma frame [redis_obs]:
  "counter now k (ZADD now' key s m r) = counter now k r" "counter now k (ZREM now' key m r) = counter now k r"
  "counter now k (ZREMRANGEBYSCORE now' key hi r) = counter now k r" "counter now k (PEXPIRE_zset now' key ttl r) = counter now k r"
  "counter now k (SET_EX now' key s' ttl r) = counter now k r" "counter now k (DEL key r) = counter now k r"
  "GET now k (ZADD now' key s m r) = GET now k r" "GET now k (ZREM now' key m r) = GET now k r"
  "GET now k (ZREMRANGEBYSCORE now' key hi r) = GET now k r" "GET now k (PEXPIRE_zset now' key ttl r) = GET now k r"
  "GET now k (INCRBY now' key n r) = GET now k r" "GET now k (SET_counter key n r) = GET now k r"
  "GET now k (EXPIREAT_counter now' key t r) = GET now k r"
  "members now k (INCRBY now' key n r) = members now k r" "members now k (SET_counter key n r) = members now k r"
  "members now k (EXPIREAT_counter now' key t r) = members now k r"
  "members now k (SET_EX now' key s' ttl r) = members now k r" "members now k (DEL key r) = members now k r"
  by (simp_all add: counter_def GET_def members_def ZADD_def ZREM_def ZREMRANGEBYSCORE_def)

lemma GET_SET_EX [redis_obs]:
  "GET now k (SET_EX now' key s ttl r) = (if k = key then (if now' + ttl * 1000 \<le> now then None else Some s) else GET now k r)"
  by (simp add: GET_def SET_EX_def live_def)

lemma GET_DEL [redis_obs]: "GET now k (DEL key r) = (if k = key then None else GET now k r)"
  by (simp add: GET_def DEL_def)

lemma members_put_zset:
  "members now k (put_zset key z (zset_expiry now key r) r) = (if k = key then z else members now k r)"
  by (auto simp: members_def put_zset_def zset_expiry_def live_def split: option.splits if_splits)

lemma members_ZADD [redis_obs]:
  "members now k (ZADD now key s m r) =
     (if k = key then (m, s) # filter (\<lambda>x. fst x \<noteq> m) (members now key r) else members now k r)"
  by (simp add: ZADD_def members_put_zset)

lemma members_ZREM [redis_obs]:
  "members now k (ZREM now key m r) =
     (if k = key then filter (\<lambda>x. fst x \<noteq> m) (members now key r) else members now k r)"
  by (simp add: ZREM_def members_put_zset)

lemma members_ZREMRANGE [redis_obs]:
  "members now k (ZREMRANGEBYSCORE now key hi r) =
     (if k = key then filter (\<lambda>x. snd x > hi) (members now key r) else members now k r)"
  by (simp add: ZREMRANGEBYSCORE_def members_put_zset)

lemma members_PEXPIRE [redis_obs]:
  "0 < ttl \<Longrightarrow> members now k (PEXPIRE_zset now key ttl r) = members now k r"
  by (auto simp: members_def PEXPIRE_zset_def live_def split: option.splits if_splits)

end
