(* ===== verification/Admission.thy ===== *)
theory Admission
  imports Redis
begin

text \<open>
  \<open>internal/admission\<close>: the admission gate, its three Lua scripts and the PostgreSQL fallback.

  A script runs atomically on the state of theory \<open>Redis\<close>. The key builders never give one key to
  values of two kinds (\<open>admit_keys_distinct\<close> and \<open>token_key_separate\<close> of the properties theory).
\<close>

subsection \<open>Keys\<close>

definition keyModelRPM :: "string \<Rightarrow> string" where "keyModelRPM m = ''nexus:{admission}:model:'' @ m @ '':rpm''"
definition keyModelITPM :: "string \<Rightarrow> string" where "keyModelITPM m = ''nexus:{admission}:model:'' @ m @ '':itpm''"
definition keyModelOTPM :: "string \<Rightarrow> string" where "keyModelOTPM m = ''nexus:{admission}:model:'' @ m @ '':otpm''"
definition keyProjectRPM :: "string \<Rightarrow> string" where "keyProjectRPM p = ''nexus:{admission}:project:'' @ p @ '':rpm''"
definition keyProjectITPM :: "string \<Rightarrow> string" where "keyProjectITPM p = ''nexus:{admission}:project:'' @ p @ '':itpm''"
definition keyProjectOTPM :: "string \<Rightarrow> string" where "keyProjectOTPM p = ''nexus:{admission}:project:'' @ p @ '':otpm''"
definition keyProjectInflight :: "string \<Rightarrow> string" where
  "keyProjectInflight p = ''nexus:{admission}:project:'' @ p @ '':inflight''"
definition keyProjectDaily :: "string \<Rightarrow> string \<Rightarrow> string" where
  "keyProjectDaily p d = ''nexus:{admission}:project:'' @ p @ '':daily:'' @ d"
definition keyProjectMonthly :: "string \<Rightarrow> string \<Rightarrow> string" where
  "keyProjectMonthly p m = ''nexus:{admission}:project:'' @ p @ '':monthly:'' @ m"
definition keyTeamRPM :: "string \<Rightarrow> string" where "keyTeamRPM t = ''nexus:{admission}:team:'' @ t @ '':rpm''"
definition keyTeamITPM :: "string \<Rightarrow> string" where "keyTeamITPM t = ''nexus:{admission}:team:'' @ t @ '':itpm''"
definition keyTeamOTPM :: "string \<Rightarrow> string" where "keyTeamOTPM t = ''nexus:{admission}:team:'' @ t @ '':otpm''"
definition keyOrgMonthly :: "string \<Rightarrow> string" where "keyOrgMonthly g = ''nexus:{admission}:org:'' @ g @ '':monthly''"
definition keyToken :: "string \<Rightarrow> string" where "keyToken q = ''nexus:{admission}:token:'' @ q"

lemmas key_defs = keyModelRPM_def keyModelITPM_def keyModelOTPM_def keyProjectRPM_def keyProjectITPM_def
  keyProjectOTPM_def keyProjectInflight_def keyProjectDaily_def keyProjectMonthly_def keyTeamRPM_def keyTeamITPM_def
  keyTeamOTPM_def keyOrgMonthly_def keyToken_def

subsection \<open>Requests\<close>

record Limits =
  ModelRPM :: int
  ModelITPM :: int
  ProjectRPM :: int
  ProjectITPM :: int
  ProjectInflight :: int
  TeamEnforceRPM :: bool
  TeamRPM :: int
  TeamEnforceTMP :: bool
  TeamITPM :: int
  DailyTokens :: int
  MonthlyTokens :: int
  OrgMonthly :: int

record AdmitParams =
  RequestID :: string
  ap_model :: string
  ap_project :: string
  ap_team :: string
  ap_org :: string
  EstInput :: int
  MaxReservation :: int
  AdmissionDate :: string
  AdmissionMonth :: string
  ap_limits :: Limits

record AdmitResult =
  Admitted :: bool
  Idempotent :: bool
  Token :: string
  RejectedDimension :: string

text \<open>The arguments the gate computes from its clock: token TTL in seconds, ends of day and month.\<close>

record gate_args =
  ga_token :: string
  ga_tokenTTL :: int
  ga_endOfDay :: int
  ga_endOfMonth :: int

definition rpmWindowMs :: int where "rpmWindowMs = 60000"
definition tpmTTLSeconds :: int where "tpmTTLSeconds = 70"
definition heartbeatStaleMs :: int where "heartbeatStaleMs = 600000"

subsection \<open>admission\_gate.lua\<close>

text \<open>A check of phase 1 prunes at most, and may reject with the name of its dimension.\<close>

type_synonym check = "redis \<Rightarrow> string option \<times> redis"

fun run_checks :: "check list \<Rightarrow> check" where
  "run_checks [] r = (None, r)"
| "run_checks (c # cs) r = (case c r of (Some d, r') \<Rightarrow> (Some d, r') | (None, r') \<Rightarrow> run_checks cs r')"

definition check_window :: "int \<Rightarrow> bool \<Rightarrow> int \<Rightarrow> string \<Rightarrow> int \<Rightarrow> string \<Rightarrow> check" where
  "check_window now enforced lim key window dim r =
     (if enforced \<and> lim > 0
      then (let r' = ZREMRANGEBYSCORE now key (now - window) r
            in (if ZCARD now key r' \<ge> lim then Some dim else None, r'))
      else (None, r))"

definition check_counter :: "int \<Rightarrow> bool \<Rightarrow> int \<Rightarrow> string \<Rightarrow> int \<Rightarrow> string \<Rightarrow> check" where
  "check_counter now enforced lim key amount dim r =
     (if enforced \<and> lim > 0 \<and> counter now key r + amount > lim then (Some dim, r) else (None, r))"

definition check_reached :: "int \<Rightarrow> int \<Rightarrow> string \<Rightarrow> string \<Rightarrow> check" where
  "check_reached now lim key dim r = (if lim > 0 \<and> counter now key r \<ge> lim then (Some dim, r) else (None, r))"

definition phase1 :: "int \<Rightarrow> AdmitParams \<Rightarrow> check" where
  "phase1 now p =
     (let l = ap_limits p in run_checks
       [check_window now True (ModelRPM l) (keyModelRPM (ap_model p)) rpmWindowMs ''model_rpm_exceeded'',
        check_counter now True (ModelITPM l) (keyModelITPM (ap_model p)) (EstInput p) ''model_itpm_exceeded'',
        check_window now True (ProjectRPM l) (keyProjectRPM (ap_project p)) rpmWindowMs ''project_rpm_exceeded'',
        check_counter now True (ProjectITPM l) (keyProjectITPM (ap_project p)) (EstInput p) ''project_itpm_exceeded'',
        check_window now True (ProjectInflight l) (keyProjectInflight (ap_project p)) heartbeatStaleMs ''project_concurrency_exceeded'',
        check_window now (TeamEnforceRPM l) (TeamRPM l) (keyTeamRPM (ap_team p)) rpmWindowMs ''team_rpm_exceeded'',
        check_counter now (TeamEnforceTMP l) (TeamITPM l) (keyTeamITPM (ap_team p)) (EstInput p) ''team_itpm_exceeded'',
        check_counter now True (DailyTokens l) (keyProjectDaily (ap_project p) (AdmissionDate p)) (MaxReservation p) ''daily_quota_exceeded'',
        check_counter now True (MonthlyTokens l) (keyProjectMonthly (ap_project p) (AdmissionMonth p)) (MaxReservation p) ''monthly_quota_exceeded'',
        check_reached now (OrgMonthly l) (keyOrgMonthly (ap_org p)) ''org_monthly_exceeded''])"

definition record_window :: "int \<Rightarrow> string \<Rightarrow> string \<Rightarrow> redis \<Rightarrow> redis" where
  "record_window now key req r = PEXPIRE_zset now key (rpmWindowMs * 2) (ZADD now key now req r)"

definition add_counter :: "int \<Rightarrow> string \<Rightarrow> int \<Rightarrow> int \<Rightarrow> redis \<Rightarrow> redis" where
  "add_counter now key n deadline r = EXPIREAT_counter now key deadline (INCRBY now key n r)"

definition phase2 :: "int \<Rightarrow> gate_args \<Rightarrow> AdmitParams \<Rightarrow> redis \<Rightarrow> redis" where
  "phase2 now g p r =
     (let l = ap_limits p;
          r = (if ModelRPM l > 0 then record_window now (keyModelRPM (ap_model p)) (RequestID p) r else r);
          r = (if ModelITPM l > 0
               then add_counter now (keyModelITPM (ap_model p)) (EstInput p) (now + tpmTTLSeconds * 1000) r else r);
          r = record_window now (keyProjectRPM (ap_project p)) (RequestID p) r;
          r = add_counter now (keyProjectITPM (ap_project p)) (EstInput p) (now + tpmTTLSeconds * 1000) r;
          r = ZADD now (keyProjectInflight (ap_project p)) now (RequestID p) r;
          r = record_window now (keyTeamRPM (ap_team p)) (RequestID p) r;
          r = add_counter now (keyTeamITPM (ap_team p)) (EstInput p) (now + tpmTTLSeconds * 1000) r;
          r = (if DailyTokens l > 0
               then add_counter now (keyProjectDaily (ap_project p) (AdmissionDate p)) (MaxReservation p) (ga_endOfDay g * 1000) r
               else r);
          r = (if MonthlyTokens l > 0
               then add_counter now (keyProjectMonthly (ap_project p) (AdmissionMonth p)) (MaxReservation p) (ga_endOfMonth g * 1000) r
               else r)
      in SET_EX now (keyToken (RequestID p)) (ga_token g) (ga_tokenTTL g) r)"

definition scriptAdmit :: "int \<Rightarrow> gate_args \<Rightarrow> AdmitParams \<Rightarrow> redis \<Rightarrow> string list \<times> redis" where
  "scriptAdmit now g p r =
     (if ZSCORE now (keyProjectRPM (ap_project p)) (RequestID p) r \<noteq> None
      then ([''admitted_idempotent'', (case GET now (keyToken (RequestID p)) r of None \<Rightarrow> '''' | Some t \<Rightarrow> t)], r)
      else
        (case phase1 now p r of
           (Some d, r') \<Rightarrow> ([''rejected'', d], r')
         | (None, r') \<Rightarrow> ([''admitted'', ga_token g], phase2 now g p r')))"

subsection \<open>admission\_rollback.lua\<close>

definition safe_decr :: "int \<Rightarrow> string \<Rightarrow> int \<Rightarrow> redis \<Rightarrow> redis" where
  "safe_decr now key amount r =
     (let r' = INCRBY now key (- amount) r in if counter now key r' < 0 then SET_counter key 0 r' else r')"

record RollbackParams =
  rb_request :: string
  rb_token :: string
  rb_model :: string
  rb_project :: string
  rb_team :: string
  rb_date :: string
  rb_month :: string
  rb_estInput :: int
  rb_maxReservation :: int

definition scriptRollback :: "int \<Rightarrow> RollbackParams \<Rightarrow> redis \<Rightarrow> string list \<times> redis" where
  "scriptRollback now p r =
     (if GET now (keyToken (rb_request p)) r \<noteq> Some (rb_token p)
      then ([''noop'', ''token_mismatch_or_expired''], r)
      else
        (let r = ZREM now (keyModelRPM (rb_model p)) (rb_request p) r;
             r = ZREM now (keyProjectRPM (rb_project p)) (rb_request p) r;
             r = ZREM now (keyTeamRPM (rb_team p)) (rb_request p) r;
             r = ZREM now (keyProjectInflight (rb_project p)) (rb_request p) r;
             r = safe_decr now (keyModelITPM (rb_model p)) (rb_estInput p) r;
             r = safe_decr now (keyProjectITPM (rb_project p)) (rb_estInput p) r;
             r = safe_decr now (keyTeamITPM (rb_team p)) (rb_estInput p) r;
             r = safe_decr now (keyProjectDaily (rb_project p) (rb_date p)) (rb_maxReservation p) r;
             r = safe_decr now (keyProjectMonthly (rb_project p) (rb_month p)) (rb_maxReservation p) r
         in ([''rolled_back'', rb_request p], DEL (keyToken (rb_request p)) r)))"

subsection \<open>tpm\_correction.lua\<close>

record CorrectionParams =
  cp_request :: string
  cp_token :: string
  cp_model :: string
  cp_project :: string
  cp_team :: string
  cp_org :: string
  cp_date :: string
  cp_month :: string
  cp_estInput :: int
  cp_actualInput :: int
  cp_actualOutput :: int
  cp_maxReservation :: int

definition safe_adjust :: "int \<Rightarrow> string \<Rightarrow> int \<Rightarrow> int \<Rightarrow> redis \<Rightarrow> redis" where
  "safe_adjust now key delta ttl r =
     (if delta > 0
      then (let r' = INCRBY now key delta r in if ttl > 0 then EXPIREAT_counter now key (now + ttl * 1000) r' else r')
      else if delta < 0 then safe_decr now key (- delta) r
      else r)"

definition scriptCorrect :: "int \<Rightarrow> CorrectionParams \<Rightarrow> redis \<Rightarrow> redis" where
  "scriptCorrect now p r =
     (let input_delta = cp_actualInput p - cp_estInput p;
          actual_total = cp_actualInput p + cp_actualOutput p;
          quota_delta = actual_total - cp_maxReservation p;
          r = safe_adjust now (keyModelITPM (cp_model p)) input_delta 70 r;
          r = safe_adjust now (keyProjectITPM (cp_project p)) input_delta 70 r;
          r = safe_adjust now (keyTeamITPM (cp_team p)) input_delta 70 r;
          r = (if cp_actualOutput p > 0
               then add_counter now (keyTeamOTPM (cp_team p)) (cp_actualOutput p) (now + 70000)
                     (add_counter now (keyProjectOTPM (cp_project p)) (cp_actualOutput p) (now + 70000)
                       (add_counter now (keyModelOTPM (cp_model p)) (cp_actualOutput p) (now + 70000) r))
               else r);
          r = safe_adjust now (keyProjectDaily (cp_project p) (cp_date p)) quota_delta 0 r;
          r = safe_adjust now (keyProjectMonthly (cp_project p) (cp_month p)) quota_delta 0 r;
          r = add_counter now (keyOrgMonthly (cp_org p)) actual_total (now + 33 * 86400 * 1000) r;
          r = ZREM now (keyProjectInflight (cp_project p)) (cp_request p) r
      in DEL (keyToken (cp_request p)) r)"

subsection \<open>The gate\<close>

text \<open>
  What the client sees of a script call: its reply, an error with the script not run, or an error
  after it ran.
\<close>

datatype redis_error = RedisNil | RedisFailure

datatype call = Replied | NotRun redis_error | ReplyLost redis_error

definition isRedisUnavailable :: "redis_error \<Rightarrow> bool" where
  "isRedisUnavailable e \<longleftrightarrow> e \<noteq> RedisNil"

definition no_result :: AdmitResult where
  "no_result = \<lparr>Admitted = False, Idempotent = False, Token = '''', RejectedDimension = ''''\<rparr>"

definition parseAdmitResult :: "string list \<Rightarrow> string \<Rightarrow> AdmitResult" where
  "parseAdmitResult result generatedToken =
     (case result of
        [] \<Rightarrow> no_result
      | h # rest \<Rightarrow>
          if h = ''admitted''
          then no_result\<lparr>Admitted := True,
                 Token := (case rest of [] \<Rightarrow> generatedToken | t # _ \<Rightarrow> if t \<noteq> '''' then t else generatedToken)\<rparr>
          else if h = ''admitted_idempotent''
          then no_result\<lparr>Admitted := True, Idempotent := True, Token := (case rest of [] \<Rightarrow> '''' | t # _ \<Rightarrow> t)\<rparr>
          else if h = ''rejected''
          then no_result\<lparr>RejectedDimension := (case rest of [] \<Rightarrow> '''' | t # _ \<Rightarrow> t)\<rparr>
          else no_result)"

text \<open>PostgreSQL as the fallback reads it; \<open>None\<close> is a failed query or a missing row.\<close>

record quota_db =
  qd_running :: "string \<Rightarrow> int option"
  qd_daily :: "string \<Rightarrow> string \<Rightarrow> int option"
  qd_monthly :: "string \<Rightarrow> string \<Rightarrow> int option"

definition reject :: "string \<Rightarrow> AdmitResult" where
  "reject dim = no_result\<lparr>RejectedDimension := dim\<rparr>"

definition admitPGFallback :: "quota_db \<Rightarrow> AdmitParams \<Rightarrow> AdmitResult" where
  "admitPGFallback db p =
     (let l = ap_limits p in
      if ProjectInflight l > 0 \<and> (case qd_running db (ap_project p) of None \<Rightarrow> False | Some n \<Rightarrow> n \<ge> ProjectInflight l)
      then reject ''project_concurrency_exceeded''
      else if DailyTokens l > 0 \<and>
          (case qd_daily db (ap_project p) (AdmissionDate p) of None \<Rightarrow> False | Some u \<Rightarrow> u + MaxReservation p > DailyTokens l)
      then reject ''daily_quota_exceeded''
      else if MonthlyTokens l > 0 \<and>
          (case qd_monthly db (ap_project p) (AdmissionMonth p) of None \<Rightarrow> False | Some u \<Rightarrow> u + MaxReservation p > MonthlyTokens l)
      then reject ''monthly_quota_exceeded''
      else reject ''admission_redis_unavailable'')"

text \<open>
  \<open>untilExpiry\<close> is \<open>time.Until(AuthExpiresAt)\<close> in whole seconds.
\<close>

definition Admit ::
    "call \<Rightarrow> int \<Rightarrow> string \<Rightarrow> int \<Rightarrow> int \<Rightarrow> int \<Rightarrow> quota_db \<Rightarrow> AdmitParams \<Rightarrow> redis \<Rightarrow> (redis_error + AdmitResult) \<times> redis" where
  "Admit outcome now token untilExpiry endOfDay endOfMonth db p r =
     (let g = \<lparr>ga_token = token, ga_tokenTTL = (if untilExpiry \<le> 0 then 900 else untilExpiry),
               ga_endOfDay = endOfDay, ga_endOfMonth = endOfMonth\<rparr>;
          failed = (\<lambda>e r'. (if isRedisUnavailable e then Inr (admitPGFallback db p) else Inl e, r'))
      in case outcome of
           Replied \<Rightarrow> (case scriptAdmit now g p r of (reply, r') \<Rightarrow> (Inr (parseAdmitResult reply token), r'))
         | NotRun e \<Rightarrow> failed e r
         | ReplyLost e \<Rightarrow> failed e (snd (scriptAdmit now g p r)))"

definition Rollback :: "call \<Rightarrow> int \<Rightarrow> RollbackParams \<Rightarrow> redis \<Rightarrow> redis" where
  "Rollback outcome now p r = (case outcome of NotRun _ \<Rightarrow> r | _ \<Rightarrow> snd (scriptRollback now p r))"

definition Correct :: "call \<Rightarrow> int \<Rightarrow> CorrectionParams \<Rightarrow> redis \<Rightarrow> redis" where
  "Correct outcome now p r = (case outcome of NotRun _ \<Rightarrow> r | _ \<Rightarrow> scriptCorrect now p r)"

definition Heartbeat :: "call \<Rightarrow> int \<Rightarrow> string \<Rightarrow> string \<Rightarrow> redis \<Rightarrow> redis" where
  "Heartbeat outcome now projectID requestID r =
     (case outcome of NotRun _ \<Rightarrow> r | _ \<Rightarrow> ZADD now (keyProjectInflight projectID) now requestID r)"

end
