(* ===== verification/Admission_Props.thy ===== *)
theory Admission_Props
  imports Admission
begin

text \<open>
  Correctness of the admission gate. The state of Redis is read through three observations, the
  value of a counter, the members of a sorted set and the value of a token; each command is
  characterised by what it does to them, and the scripts by chaining these rules.
\<close>

subsection \<open>Commands\<close>

lemma safe_decr_obs [redis_obs]:
  "counter now k (safe_decr now key a r) = (if k = key then max 0 (counter now key r - a) else counter now k r)"
  "members now' k (safe_decr now key a r) = members now' k r"
  "GET now' k (safe_decr now key a r) = GET now' k r"
  by (auto simp: safe_decr_def Let_def redis_obs)

lemma add_counter_obs [redis_obs]:
  "counter now k (add_counter now key n d r) = (if k = key then (if d \<le> now then 0 else counter now key r + n) else counter now k r)"
  "members now' k (add_counter now key n d r) = members now' k r"
  "GET now' k (add_counter now key n d r) = GET now' k r"
  by (auto simp: add_counter_def redis_obs)

lemma record_window_obs [redis_obs]:
  "members now k (record_window now key m r) =
     (if k = key then (m, now) # filter (\<lambda>x. fst x \<noteq> m) (members now key r) else members now k r)"
  "counter now' k (record_window now key m r) = counter now' k r"
  "GET now' k (record_window now key m r) = GET now' k r"
  by (simp_all add: record_window_def rpmWindowMs_def redis_obs)

subsection \<open>Keys\<close>

lemma admit_keys_distinct:
  "distinct [keyModelRPM m, keyModelITPM m, keyModelOTPM m, keyProjectRPM p, keyProjectITPM p, keyProjectOTPM p,
     keyProjectInflight p, keyTeamRPM t, keyTeamITPM t, keyTeamOTPM t, keyProjectDaily p d, keyProjectMonthly p mo,
     keyOrgMonthly g, keyToken q]"
  by (simp add: key_defs)

lemma admit_keys_distinct_rev:
  "distinct [keyToken q, keyOrgMonthly g, keyProjectMonthly p mo, keyProjectDaily p d, keyTeamOTPM t, keyTeamITPM t,
     keyTeamRPM t, keyProjectInflight p, keyProjectOTPM p, keyProjectITPM p, keyProjectRPM p, keyModelOTPM m,
     keyModelITPM m, keyModelRPM m]"
  by (simp add: key_defs)

lemmas key_neq [simp] =
  admit_keys_distinct [unfolded distinct.simps list.set insert_iff empty_iff de_Morgan_disj not_False_eq_True simp_thms]
  admit_keys_distinct_rev [unfolded distinct.simps list.set insert_iff empty_iff de_Morgan_disj not_False_eq_True simp_thms]

lemma token_key_separate:
  "keyToken q \<noteq> keyModelRPM m" "keyToken q \<noteq> keyModelITPM m" "keyToken q \<noteq> keyProjectRPM p" "keyToken q \<noteq> keyProjectITPM p"
  "keyToken q \<noteq> keyTeamRPM t" "keyToken q \<noteq> keyTeamITPM t" "keyToken q \<noteq> keyOrgMonthly g"
  by (simp_all add: key_defs)

subsection \<open>Phase 1 only prunes\<close>

definition pruned_key :: "int \<Rightarrow> redis \<Rightarrow> redis \<Rightarrow> string \<Rightarrow> bool" where
  "pruned_key now r r' k \<longleftrightarrow> counter now k r' = counter now k r \<and> GET now k r' = GET now k r \<and>
     length (members now k r') \<le> length (members now k r) \<and> set (members now k r') \<subseteq> set (members now k r) \<and>
     (\<forall>x\<in>set (members now k r). snd x > now - rpmWindowMs \<longrightarrow> x \<in> set (members now k r'))"

definition pruned :: "int \<Rightarrow> redis \<Rightarrow> redis \<Rightarrow> bool" where
  "pruned now r r' \<longleftrightarrow> (\<forall>k. pruned_key now r r' k)"

lemma pruned_refl: "pruned now r r"
  by (simp add: pruned_def pruned_key_def)

lemma pruned_key_trans: "pruned_key now a b k \<Longrightarrow> pruned_key now b c k \<Longrightarrow> pruned_key now a c k"
  by (auto simp: pruned_key_def)

lemma pruned_trans: "pruned now a b \<Longrightarrow> pruned now b c \<Longrightarrow> pruned now a c"
  unfolding pruned_def by (blast intro: pruned_key_trans)

definition sound_check :: "int \<Rightarrow> check \<Rightarrow> (redis \<Rightarrow> bool) \<Rightarrow> bool" where
  "sound_check now c Q \<longleftrightarrow> (\<forall>r. pruned now r (snd (c r)) \<and> (fst (c r) = None \<longrightarrow> Q (snd (c r))))"

definition stable :: "int \<Rightarrow> (redis \<Rightarrow> bool) \<Rightarrow> bool" where
  "stable now Q \<longleftrightarrow> (\<forall>r r'. Q r \<longrightarrow> pruned now r r' \<longrightarrow> Q r')"

lemma run_checks_sound:
  assumes "list_all (\<lambda>(c, Q). sound_check now c Q \<and> stable now Q) cqs" and "run_checks (map fst cqs) r = (res, r')"
  shows "pruned now r r' \<and> (res = None \<longrightarrow> list_all (\<lambda>(c, Q). Q r') cqs)"
  using assms
proof (induction cqs arbitrary: r)
  case Nil
  then show ?case by (simp add: pruned_refl)
next
  case (Cons cq cqs)
  obtain c Q where cq: "cq = (c, Q)" by fastforce
  with Cons.prems(1) have c: "sound_check now c Q" "stable now Q" by simp_all
  obtain x r1 where x: "c r = (x, r1)" by fastforce
  have "pruned now r (snd (c r)) \<and> (fst (c r) = None \<longrightarrow> Q (snd (c r)))" using c(1) by (simp add: sound_check_def)
  with x have p1: "pruned now r r1" and q: "x = None \<Longrightarrow> Q r1" by simp_all
  show ?case
  proof (cases x)
    case None
    with Cons.prems(2) cq x have rest: "run_checks (map fst cqs) r1 = (res, r')" by simp
    with Cons.IH [of r1] Cons.prems(1) have p2: "pruned now r1 r'" "res = None \<longrightarrow> list_all (\<lambda>(c, Q). Q r') cqs" by simp_all
    then have "Q r'" using q None c(2) by (auto simp: stable_def)
    with p1 p2 cq show ?thesis by (auto intro: pruned_trans)
  next
    case (Some d)
    with Cons.prems(2) cq x p1 show ?thesis by auto
  qed
qed

definition window_room :: "int \<Rightarrow> bool \<Rightarrow> int \<Rightarrow> string \<Rightarrow> redis \<Rightarrow> bool" where
  "window_room now enforced lim key r \<longleftrightarrow> \<not> (enforced \<and> lim > 0) \<or> ZCARD now key r < lim"

definition counter_room :: "int \<Rightarrow> bool \<Rightarrow> int \<Rightarrow> string \<Rightarrow> int \<Rightarrow> redis \<Rightarrow> bool" where
  "counter_room now enforced lim key amount r \<longleftrightarrow> \<not> (enforced \<and> lim > 0) \<or> counter now key r + amount \<le> lim"

lemma stable_room: "stable now (window_room now e l k)" "stable now (counter_room now e l k a)"
proof -
  show "stable now (window_room now e l k)"
    unfolding stable_def window_room_def ZCARD_def pruned_def pruned_key_def by (meson of_nat_mono order_le_less_trans)
  show "stable now (counter_room now e l k a)"
    unfolding stable_def counter_room_def pruned_def pruned_key_def by simp
qed

lemma prune_window: "window \<ge> rpmWindowMs \<Longrightarrow> pruned now r (ZREMRANGEBYSCORE now key (now - window) r)"
  by (auto simp: pruned_def pruned_key_def redis_obs length_filter_le)

lemma sound_window: "window \<ge> rpmWindowMs \<Longrightarrow> sound_check now (check_window now e lim key window dim) (window_room now e lim key)"
  by (auto simp: sound_check_def check_window_def window_room_def Let_def pruned_refl prune_window)

lemma sound_counter: "sound_check now (check_counter now e lim key a dim) (counter_room now e lim key a)"
  by (auto simp: sound_check_def check_counter_def counter_room_def pruned_refl)

lemma sound_reached: "sound_check now (check_reached now lim key dim) (counter_room now True lim key 1)"
  by (auto simp: sound_check_def check_reached_def counter_room_def pruned_refl)

text \<open>Every dimension has room for the request.\<close>

definition has_room :: "int \<Rightarrow> AdmitParams \<Rightarrow> redis \<Rightarrow> bool" where
  "has_room now p r \<longleftrightarrow>
     (let l = ap_limits p in
      window_room now True (ModelRPM l) (keyModelRPM (ap_model p)) r \<and>
      counter_room now True (ModelITPM l) (keyModelITPM (ap_model p)) (EstInput p) r \<and>
      window_room now True (ProjectRPM l) (keyProjectRPM (ap_project p)) r \<and>
      counter_room now True (ProjectITPM l) (keyProjectITPM (ap_project p)) (EstInput p) r \<and>
      window_room now True (ProjectInflight l) (keyProjectInflight (ap_project p)) r \<and>
      window_room now (TeamEnforceRPM l) (TeamRPM l) (keyTeamRPM (ap_team p)) r \<and>
      counter_room now (TeamEnforceTMP l) (TeamITPM l) (keyTeamITPM (ap_team p)) (EstInput p) r \<and>
      counter_room now True (DailyTokens l) (keyProjectDaily (ap_project p) (AdmissionDate p)) (MaxReservation p) r \<and>
      counter_room now True (MonthlyTokens l) (keyProjectMonthly (ap_project p) (AdmissionMonth p)) (MaxReservation p) r \<and>
      counter_room now True (OrgMonthly l) (keyOrgMonthly (ap_org p)) 1 r)"

lemma phase1_sound:
  assumes "phase1 now p r = (res, r')"
  shows "pruned now r r' \<and> (res = None \<longrightarrow> has_room now p r')"
proof -
  let ?l = "ap_limits p"
  let ?cqs = "[(check_window now True (ModelRPM ?l) (keyModelRPM (ap_model p)) rpmWindowMs ''model_rpm_exceeded'',
         window_room now True (ModelRPM ?l) (keyModelRPM (ap_model p))),
        (check_counter now True (ModelITPM ?l) (keyModelITPM (ap_model p)) (EstInput p) ''model_itpm_exceeded'',
         counter_room now True (ModelITPM ?l) (keyModelITPM (ap_model p)) (EstInput p)),
        (check_window now True (ProjectRPM ?l) (keyProjectRPM (ap_project p)) rpmWindowMs ''project_rpm_exceeded'',
         window_room now True (ProjectRPM ?l) (keyProjectRPM (ap_project p))),
        (check_counter now True (ProjectITPM ?l) (keyProjectITPM (ap_project p)) (EstInput p) ''project_itpm_exceeded'',
         counter_room now True (ProjectITPM ?l) (keyProjectITPM (ap_project p)) (EstInput p)),
        (check_window now True (ProjectInflight ?l) (keyProjectInflight (ap_project p)) heartbeatStaleMs ''project_concurrency_exceeded'',
         window_room now True (ProjectInflight ?l) (keyProjectInflight (ap_project p))),
        (check_window now (TeamEnforceRPM ?l) (TeamRPM ?l) (keyTeamRPM (ap_team p)) rpmWindowMs ''team_rpm_exceeded'',
         window_room now (TeamEnforceRPM ?l) (TeamRPM ?l) (keyTeamRPM (ap_team p))),
        (check_counter now (TeamEnforceTMP ?l) (TeamITPM ?l) (keyTeamITPM (ap_team p)) (EstInput p) ''team_itpm_exceeded'',
         counter_room now (TeamEnforceTMP ?l) (TeamITPM ?l) (keyTeamITPM (ap_team p)) (EstInput p)),
        (check_counter now True (DailyTokens ?l) (keyProjectDaily (ap_project p) (AdmissionDate p)) (MaxReservation p) ''daily_quota_exceeded'',
         counter_room now True (DailyTokens ?l) (keyProjectDaily (ap_project p) (AdmissionDate p)) (MaxReservation p)),
        (check_counter now True (MonthlyTokens ?l) (keyProjectMonthly (ap_project p) (AdmissionMonth p)) (MaxReservation p) ''monthly_quota_exceeded'',
         counter_room now True (MonthlyTokens ?l) (keyProjectMonthly (ap_project p) (AdmissionMonth p)) (MaxReservation p)),
        (check_reached now (OrgMonthly ?l) (keyOrgMonthly (ap_org p)) ''org_monthly_exceeded'',
         counter_room now True (OrgMonthly ?l) (keyOrgMonthly (ap_org p)) 1)]"
  have "rpmWindowMs \<le> heartbeatStaleMs" by (simp add: rpmWindowMs_def heartbeatStaleMs_def)
  then have "list_all (\<lambda>(c, Q). sound_check now c Q \<and> stable now Q) ?cqs"
    by (simp add: sound_window sound_counter sound_reached stable_room)
  moreover have "run_checks (map fst ?cqs) r = (res, r')" using assms by (simp add: phase1_def Let_def)
  ultimately have "pruned now r r' \<and> (res = None \<longrightarrow> list_all (\<lambda>(c, Q). Q r') ?cqs)" by (rule run_checks_sound)
  then show ?thesis by (simp add: has_room_def Let_def)
qed

subsection \<open>Admission keeps every limit\<close>

text \<open>What the gate promises after an admission: no enforced dimension exceeds its limit.\<close>

definition window_ok :: "int \<Rightarrow> bool \<Rightarrow> int \<Rightarrow> string \<Rightarrow> redis \<Rightarrow> bool" where
  "window_ok now enforced lim key r \<longleftrightarrow> \<not> (enforced \<and> lim > 0) \<or> ZCARD now key r \<le> lim"

definition within_limits :: "int \<Rightarrow> AdmitParams \<Rightarrow> redis \<Rightarrow> bool" where
  "within_limits now p r \<longleftrightarrow>
     (let l = ap_limits p in
      window_ok now True (ModelRPM l) (keyModelRPM (ap_model p)) r \<and>
      counter_room now True (ModelITPM l) (keyModelITPM (ap_model p)) 0 r \<and>
      window_ok now True (ProjectRPM l) (keyProjectRPM (ap_project p)) r \<and>
      counter_room now True (ProjectITPM l) (keyProjectITPM (ap_project p)) 0 r \<and>
      window_ok now True (ProjectInflight l) (keyProjectInflight (ap_project p)) r \<and>
      window_ok now (TeamEnforceRPM l) (TeamRPM l) (keyTeamRPM (ap_team p)) r \<and>
      counter_room now (TeamEnforceTMP l) (TeamITPM l) (keyTeamITPM (ap_team p)) 0 r \<and>
      counter_room now True (DailyTokens l) (keyProjectDaily (ap_project p) (AdmissionDate p)) 0 r \<and>
      counter_room now True (MonthlyTokens l) (keyProjectMonthly (ap_project p) (AdmissionMonth p)) 0 r \<and>
      counter_room now True (OrgMonthly l) (keyOrgMonthly (ap_org p)) 1 r)"

lemma window_grows:
  assumes "window_room now e lim k r" and "members now k r' = y # filter P (members now k r)"
  shows "window_ok now e lim k r'"
proof -
  have "int (length (members now k r')) \<le> 1 + int (length (members now k r))" by (simp add: assms(2))
  with assms(1) show ?thesis by (auto simp: window_room_def window_ok_def ZCARD_def)
qed

lemma phase2_members:
  "members now (keyModelRPM (ap_model p)) (phase2 now g p r) =
     (if ModelRPM (ap_limits p) > 0
      then (RequestID p, now) # filter (\<lambda>x. fst x \<noteq> RequestID p) (members now (keyModelRPM (ap_model p)) r)
      else members now (keyModelRPM (ap_model p)) r)"
  "members now (keyProjectRPM (ap_project p)) (phase2 now g p r) =
     (RequestID p, now) # filter (\<lambda>x. fst x \<noteq> RequestID p) (members now (keyProjectRPM (ap_project p)) r)"
  "members now (keyProjectInflight (ap_project p)) (phase2 now g p r) =
     (RequestID p, now) # filter (\<lambda>x. fst x \<noteq> RequestID p) (members now (keyProjectInflight (ap_project p)) r)"
  "members now (keyTeamRPM (ap_team p)) (phase2 now g p r) =
     (RequestID p, now) # filter (\<lambda>x. fst x \<noteq> RequestID p) (members now (keyTeamRPM (ap_team p)) r)"
  by (simp_all add: phase2_def Let_def redis_obs)

lemma phase2_counters:
  "counter now (keyModelITPM (ap_model p)) (phase2 now g p r) =
     counter now (keyModelITPM (ap_model p)) r + (if ModelITPM (ap_limits p) > 0 then EstInput p else 0)"
  "counter now (keyProjectITPM (ap_project p)) (phase2 now g p r) = counter now (keyProjectITPM (ap_project p)) r + EstInput p"
  "counter now (keyTeamITPM (ap_team p)) (phase2 now g p r) = counter now (keyTeamITPM (ap_team p)) r + EstInput p"
  "counter now (keyProjectDaily (ap_project p) d) (phase2 now g p r) =
     (if DailyTokens (ap_limits p) > 0 \<and> d = AdmissionDate p
      then (if ga_endOfDay g * 1000 \<le> now then 0 else counter now (keyProjectDaily (ap_project p) d) r + MaxReservation p)
      else counter now (keyProjectDaily (ap_project p) d) r)"
  "counter now (keyProjectMonthly (ap_project p) m) (phase2 now g p r) =
     (if MonthlyTokens (ap_limits p) > 0 \<and> m = AdmissionMonth p
      then (if ga_endOfMonth g * 1000 \<le> now then 0 else counter now (keyProjectMonthly (ap_project p) m) r + MaxReservation p)
      else counter now (keyProjectMonthly (ap_project p) m) r)"
  "counter now (keyOrgMonthly q) (phase2 now g p r) = counter now (keyOrgMonthly q) r"
  by (simp_all add: phase2_def Let_def redis_obs tpmTTLSeconds_def key_defs)

lemma phase2_within:
  assumes "has_room now p r"
  shows "within_limits now p (phase2 now g p r)"
proof -
  let ?r' = "phase2 now g p r" and ?l = "ap_limits p"
  from assms have room:
    "window_room now True (ModelRPM ?l) (keyModelRPM (ap_model p)) r"
    "window_room now True (ProjectRPM ?l) (keyProjectRPM (ap_project p)) r"
    "window_room now True (ProjectInflight ?l) (keyProjectInflight (ap_project p)) r"
    "window_room now (TeamEnforceRPM ?l) (TeamRPM ?l) (keyTeamRPM (ap_team p)) r"
    by (simp_all add: has_room_def Let_def)
  have "window_ok now True (ModelRPM ?l) (keyModelRPM (ap_model p)) ?r'"
  proof (cases "ModelRPM ?l > 0")
    case True
    then show ?thesis by (intro window_grows [OF room(1)]) (simp add: phase2_members)
  qed (simp add: window_ok_def)
  moreover have "window_ok now True (ProjectRPM ?l) (keyProjectRPM (ap_project p)) ?r'"
    using room(2) phase2_members(2) by (rule window_grows)
  moreover have "window_ok now True (ProjectInflight ?l) (keyProjectInflight (ap_project p)) ?r'"
    using room(3) phase2_members(3) by (rule window_grows)
  moreover have "window_ok now (TeamEnforceRPM ?l) (TeamRPM ?l) (keyTeamRPM (ap_team p)) ?r'"
    using room(4) phase2_members(4) by (rule window_grows)
  ultimately show ?thesis
    using assms unfolding has_room_def within_limits_def counter_room_def Let_def phase2_counters by auto
qed

lemma scriptAdmit_cases:
  assumes "scriptAdmit now g p r = (reply, r')"
  obtains (idem) t where "reply = [''admitted_idempotent'', t]" and "r' = r"
      and "GET now (keyToken (RequestID p)) r = Some t \<or> GET now (keyToken (RequestID p)) r = None \<and> t = ''''"
      and "ZSCORE now (keyProjectRPM (ap_project p)) (RequestID p) r \<noteq> None"
  | (rejected) d where "reply = [''rejected'', d]" and "pruned now r r'"
  | (admitted) r1 where "reply = [''admitted'', ga_token g]" and "pruned now r r1" and "has_room now p r1" and "r' = phase2 now g p r1"
proof (cases "ZSCORE now (keyProjectRPM (ap_project p)) (RequestID p) r = None")
  case False
  with assms show thesis
    by (cases "GET now (keyToken (RequestID p)) r") (auto simp: scriptAdmit_def intro: idem)
next
  case True
  obtain x r1 where x: "phase1 now p r = (x, r1)" by fastforce
  show thesis
  proof (cases x)
    case None
    with True assms x have "reply = [''admitted'', ga_token g]" "r' = phase2 now g p r1" by (simp_all add: scriptAdmit_def)
    with phase1_sound [OF x] None admitted show ?thesis by blast
  next
    case (Some d)
    with True assms x have "reply = [''rejected'', d]" "r' = r1" by (simp_all add: scriptAdmit_def)
    with phase1_sound [OF x] rejected show ?thesis by blast
  qed
qed

lemma parse_cases [simp]:
  "parseAdmitResult [''admitted_idempotent'', t] tok = no_result\<lparr>Admitted := True, Idempotent := True, Token := t\<rparr>"
  "parseAdmitResult [''rejected'', d] tok = reject d"
  "parseAdmitResult [''admitted'', tok] tok = no_result\<lparr>Admitted := True, Token := tok\<rparr>"
  by (simp_all add: parseAdmitResult_def reject_def)

abbreviation args_of :: "string \<Rightarrow> int \<Rightarrow> int \<Rightarrow> int \<Rightarrow> gate_args" where
  "args_of tok ttl eod eom \<equiv> \<lparr>ga_token = tok, ga_tokenTTL = (if ttl \<le> 0 then 900 else ttl), ga_endOfDay = eod, ga_endOfMonth = eom\<rparr>"

lemma Admit_Replied:
  "Admit Replied now tok ttl eod eom db p r =
     (case scriptAdmit now (args_of tok ttl eod eom) p r of (reply, r') \<Rightarrow> (Inr (parseAdmitResult reply tok), r'))"
  by (simp add: Admit_def Let_def)

lemma Admit_cases:
  assumes "Admit Replied now tok ttl eod eom db p r = (Inr res, r')"
  obtains (idem) t where "res = no_result\<lparr>Admitted := True, Idempotent := True, Token := t\<rparr>" and "r' = r"
  | (rejected) d where "res = reject d" and "pruned now r r'"
  | (admitted) r1 where "res = no_result\<lparr>Admitted := True, Token := tok\<rparr>" and "pruned now r r1" and "has_room now p r1"
      and "r' = phase2 now (args_of tok ttl eod eom) p r1"
proof -
  obtain reply where s: "scriptAdmit now (args_of tok ttl eod eom) p r = (reply, r')" and res: "res = parseAdmitResult reply tok"
    using assms by (auto simp: Admit_Replied split: prod.splits)
  from s show thesis
  proof (cases rule: scriptAdmit_cases)
    case (idem t)
    with res that(1) show ?thesis by simp
  next
    case (rejected d)
    with res that(2) show ?thesis by simp
  next
    case (admitted r1)
    with res that(3) show ?thesis by simp
  qed
qed

text \<open>
  C32: an admission keeps every limit. When the gate newly admits a request, afterwards no enforced
  request window, token counter, concurrency set or quota of the request exceeds its limit, and the
  organisation's monthly counter is still below its own.
\<close>

theorem admission_keeps_limits:
  assumes "Admit Replied now tok ttl eod eom db p r = (Inr res, r')" and "Admitted res" and "\<not> Idempotent res"
  shows "within_limits now p r'"
  using assms(1)
proof (cases rule: Admit_cases)
  case (admitted r1)
  then show ?thesis by (simp add: phase2_within)
qed (use assms(2,3) in \<open>simp_all add: no_result_def reject_def\<close>)

text \<open>
  A rejection consumes nothing. When the gate rejects a request, every counter and every token is
  as before, and the only members dropped from the sorted sets are older than the sliding window.
\<close>

theorem rejection_consumes_nothing:
  assumes "Admit Replied now tok ttl eod eom db p r = (Inr res, r')" and "\<not> Admitted res"
  shows "counter now k r' = counter now k r \<and> GET now k r' = GET now k r \<and>
    set (members now k r') \<subseteq> set (members now k r) \<and>
    set (filter (\<lambda>x. snd x > now - rpmWindowMs) (members now k r)) \<subseteq> set (members now k r')"
  using assms(1)
proof (cases rule: Admit_cases)
  case (rejected d)
  then show ?thesis by (auto simp: pruned_def pruned_key_def)
qed (use assms(2) in \<open>simp_all add: no_result_def\<close>)

subsection \<open>Rollback undoes an admission\<close>

definition rollback_of :: "AdmitParams \<Rightarrow> string \<Rightarrow> RollbackParams" where
  "rollback_of p tok = \<lparr>rb_request = RequestID p, rb_token = tok, rb_model = ap_model p, rb_project = ap_project p,
     rb_team = ap_team p, rb_date = AdmissionDate p, rb_month = AdmissionMonth p, rb_estInput = EstInput p,
     rb_maxReservation = MaxReservation p\<rparr>"

definition request_counters :: "AdmitParams \<Rightarrow> string list" where
  "request_counters p = [keyModelITPM (ap_model p), keyProjectITPM (ap_project p), keyTeamITPM (ap_team p),
     keyProjectDaily (ap_project p) (AdmissionDate p), keyProjectMonthly (ap_project p) (AdmissionMonth p)]"

definition request_windows :: "AdmitParams \<Rightarrow> string list" where
  "request_windows p = [keyModelRPM (ap_model p), keyProjectRPM (ap_project p), keyTeamRPM (ap_team p),
     keyProjectInflight (ap_project p)]"

lemma add_counter_later:
  "now < d \<Longrightarrow> later < d \<Longrightarrow> counter later k (add_counter now key n d r) =
     (if k = key then counter now key r + n else counter later k r)"
  by (auto simp: counter_def add_counter_def INCRBY_def EXPIREAT_counter_def live_def split: option.splits if_splits)

lemma phase2_counters_later:
  assumes "now \<le> later" and "later < now + 70000" and "later < ga_endOfDay g * 1000" and "later < ga_endOfMonth g * 1000"
  shows "counter later (keyProjectITPM (ap_project p)) (phase2 now g p r) = counter now (keyProjectITPM (ap_project p)) r + EstInput p"
    and "counter later (keyTeamITPM (ap_team p)) (phase2 now g p r) = counter now (keyTeamITPM (ap_team p)) r + EstInput p"
    and "ModelITPM (ap_limits p) > 0 \<Longrightarrow>
      counter later (keyModelITPM (ap_model p)) (phase2 now g p r) = counter now (keyModelITPM (ap_model p)) r + EstInput p"
    and "DailyTokens (ap_limits p) > 0 \<Longrightarrow> counter later (keyProjectDaily (ap_project p) (AdmissionDate p)) (phase2 now g p r)
      = counter now (keyProjectDaily (ap_project p) (AdmissionDate p)) r + MaxReservation p"
    and "DailyTokens (ap_limits p) \<le> 0 \<Longrightarrow> counter later (keyProjectDaily (ap_project p) (AdmissionDate p)) (phase2 now g p r)
      = counter later (keyProjectDaily (ap_project p) (AdmissionDate p)) r"
    and "MonthlyTokens (ap_limits p) > 0 \<Longrightarrow> counter later (keyProjectMonthly (ap_project p) (AdmissionMonth p)) (phase2 now g p r)
      = counter now (keyProjectMonthly (ap_project p) (AdmissionMonth p)) r + MaxReservation p"
  using assms by (simp_all add: phase2_def Let_def redis_obs add_counter_later tpmTTLSeconds_def)

lemma phase2_token:
  "later < now + ga_tokenTTL g * 1000 \<Longrightarrow> GET later (keyToken (RequestID p)) (phase2 now g p r) = Some (ga_token g)"
  by (simp add: phase2_def Let_def redis_obs)

lemma scriptRollback_ok:
  assumes "GET now (keyToken (RequestID p)) r = Some tok"
  shows "counter now (keyModelITPM (ap_model p)) (snd (scriptRollback now (rollback_of p tok) r)) =
        max 0 (counter now (keyModelITPM (ap_model p)) r - EstInput p)"
    and "counter now (keyProjectITPM (ap_project p)) (snd (scriptRollback now (rollback_of p tok) r)) =
        max 0 (counter now (keyProjectITPM (ap_project p)) r - EstInput p)"
    and "counter now (keyTeamITPM (ap_team p)) (snd (scriptRollback now (rollback_of p tok) r)) =
        max 0 (counter now (keyTeamITPM (ap_team p)) r - EstInput p)"
    and "counter now (keyProjectDaily (ap_project p) (AdmissionDate p)) (snd (scriptRollback now (rollback_of p tok) r)) =
        max 0 (counter now (keyProjectDaily (ap_project p) (AdmissionDate p)) r - MaxReservation p)"
    and "counter now (keyProjectMonthly (ap_project p) (AdmissionMonth p)) (snd (scriptRollback now (rollback_of p tok) r)) =
        max 0 (counter now (keyProjectMonthly (ap_project p) (AdmissionMonth p)) r - MaxReservation p)"
    and "list_all (\<lambda>k. RequestID p \<notin> fst ` set (members now k (snd (scriptRollback now (rollback_of p tok) r)))) (request_windows p)"
    and "GET now (keyToken (RequestID p)) (snd (scriptRollback now (rollback_of p tok) r)) = None"
  using assms by (auto simp: scriptRollback_def rollback_of_def request_windows_def Let_def redis_obs)

text \<open>
  A rollback undoes the admission it belongs to. While the counters and the token of the admission
  live, rolling it back returns every counter the request was charged on to its value before the
  admission, takes the request out of every window and deletes its token.
\<close>

theorem rollback_undoes_admission:
  assumes "Admit Replied now tok ttl eod eom db p r = (Inr res, r')" and "Admitted res" and "\<not> Idempotent res"
    and "now \<le> later" and "later < now + 70000" and "later < eod * 1000" and "later < eom * 1000"
    and "later < now + (if ttl \<le> 0 then 900 else ttl) * 1000"
    and "ModelITPM (ap_limits p) > 0" and "DailyTokens (ap_limits p) > 0" and "MonthlyTokens (ap_limits p) > 0"
    and "list_all (\<lambda>k. 0 \<le> counter now k r) (request_counters p)"
  shows "list_all (\<lambda>k. counter later k (Rollback Replied later (rollback_of p (Token res)) r') = counter now k r) (request_counters p) \<and>
    list_all (\<lambda>k. RequestID p \<notin> fst ` set (members later k (Rollback Replied later (rollback_of p (Token res)) r'))) (request_windows p) \<and>
    GET later (keyToken (RequestID p)) (Rollback Replied later (rollback_of p (Token res)) r') = None"
  using assms(1)
proof (cases rule: Admit_cases)
  case (admitted r1)
  let ?g = "args_of tok ttl eod eom"
  have tok: "Token res = tok" using admitted by simp
  have get: "GET later (keyToken (RequestID p)) r' = Some tok"
    unfolding admitted using phase2_token [of later now ?g p r1] assms(8) by simp
  have same: "counter now k r1 = counter now k r" for k using admitted(2) by (simp add: pruned_def pruned_key_def)
  note cs = phase2_counters_later [of now later ?g p r1, unfolded gate_args.simps, OF assms(4-7)]
  show ?thesis
    unfolding tok Rollback_def call.case
    using assms(9-12) scriptRollback_ok [OF get]
    by (simp add: request_counters_def admitted(4) cs same)
qed (use assms(2,3) in \<open>simp_all add: no_result_def reject_def\<close>)

text \<open>
  A rollback also takes back what was never charged. An admission without a daily limit leaves the
  daily counter alone, yet its rollback subtracts the full reservation from that counter (down to
  zero), so usage of the project that the counter already held is forgotten.
\<close>

theorem rollback_refunds_uncharged_quota:
  assumes "Admit Replied now tok ttl eod eom db p r = (Inr res, r')" and "Admitted res" and "\<not> Idempotent res"
    and "DailyTokens (ap_limits p) \<le> 0" and "now < now + (if ttl \<le> 0 then 900 else ttl) * 1000"
  shows "counter now (keyProjectDaily (ap_project p) (AdmissionDate p)) r' = counter now (keyProjectDaily (ap_project p) (AdmissionDate p)) r \<and>
    counter now (keyProjectDaily (ap_project p) (AdmissionDate p)) (Rollback Replied now (rollback_of p (Token res)) r') =
      max 0 (counter now (keyProjectDaily (ap_project p) (AdmissionDate p)) r - MaxReservation p)"
  using assms(1)
proof (cases rule: Admit_cases)
  case (admitted r1)
  have same: "counter now k r1 = counter now k r" for k using admitted(2) by (simp add: pruned_def pruned_key_def)
  have tok: "Token res = tok" using admitted by simp
  have "GET now (keyToken (RequestID p)) r' = Some tok"
    unfolding admitted using phase2_token [of now now "args_of tok ttl eod eom" p r1] assms(5) by simp
  from scriptRollback_ok(4) [OF this] assms(4) show ?thesis
    unfolding tok Rollback_def call.case by (simp add: admitted(4) phase2_counters same)
qed (use assms(2,3) in \<open>simp_all add: no_result_def reject_def\<close>)

subsection \<open>Retries\<close>

lemma members_other_key:
  "k \<noteq> key \<Longrightarrow> members later k (ZADD now key s m r) = members later k r"
  "k \<noteq> key \<Longrightarrow> members later k (record_window now key m r) = members later k r"
  by (auto simp: members_def ZADD_def put_zset_def record_window_def PEXPIRE_zset_def split: option.splits)

lemma record_window_later:
  "later < now + 120000 \<Longrightarrow> members later key (record_window now key m r) = (m, now) # filter (\<lambda>x. fst x \<noteq> m) (members now key r)"
  by (auto simp: members_def record_window_def PEXPIRE_zset_def ZADD_def put_zset_def zset_expiry_def rpmWindowMs_def live_def
      split: option.splits if_splits)

lemma phase2_window_later:
  "later < now + 120000 \<Longrightarrow> ZSCORE later (keyProjectRPM (ap_project p)) (RequestID p) (phase2 now g p r) = Some now"
  by (simp add: ZSCORE_def phase2_def Let_def redis_obs members_other_key record_window_later)

text \<open>
  A retry is not charged twice. Admitting the same request again while its entry and token live
  answers \<open>admitted\<close> with the token of the first admission and leaves Redis exactly as it was.
\<close>

theorem retry_is_idempotent:
  assumes "Admit Replied now tok ttl eod eom db p r = (Inr res, r')" and "Admitted res" and "\<not> Idempotent res"
    and "later < now + 120000" and "later < now + (if ttl \<le> 0 then 900 else ttl) * 1000"
  shows "Admit Replied later newTok newTTL newEod newEom newDb p r' =
    (Inr (no_result\<lparr>Admitted := True, Idempotent := True, Token := Token res\<rparr>), r')"
  using assms(1)
proof (cases rule: Admit_cases)
  case (admitted r1)
  have "ZSCORE later (keyProjectRPM (ap_project p)) (RequestID p) r' = Some now"
    unfolding admitted by (rule phase2_window_later [OF assms(4)])
  moreover have "GET later (keyToken (RequestID p)) r' = Some tok"
    unfolding admitted using phase2_token [of later now "args_of tok ttl eod eom" p r1] assms(5) by simp
  ultimately show ?thesis using admitted(1) by (simp add: Admit_Replied scriptAdmit_def)
qed (use assms(2,3) in \<open>simp_all add: no_result_def reject_def\<close>)

subsection \<open>Correction and fallback\<close>

lemma correct_org:
  "counter now (keyOrgMonthly (cp_org p)) (Correct Replied now p r) =
     counter now (keyOrgMonthly (cp_org p)) r + cp_actualInput p + cp_actualOutput p"
  by (simp add: Correct_def scriptCorrect_def safe_adjust_def Let_def redis_obs)

text \<open>
  The correction does not look at the admission token: a repeated correction charges the
  organisation's monthly counter again.
\<close>

lemma correct_twice_charges_twice:
  "counter now (keyOrgMonthly (cp_org p)) (Correct Replied now p (Correct Replied now p r)) =
     counter now (keyOrgMonthly (cp_org p)) r + 2 * (cp_actualInput p + cp_actualOutput p)"
  by (simp add: correct_org)

text \<open>Without Redis the gate admits nothing, whatever the quotas are.\<close>

lemma fallback_never_admits:
  "Admit (NotRun RedisFailure) now tok ttl eod eom db p r = (Inr res, r') \<Longrightarrow> \<not> Admitted res \<and> r' = r"
  by (auto simp: Admit_def isRedisUnavailable_def admitPGFallback_def reject_def no_result_def Let_def split: if_splits)

subsection \<open>A small gate\<close>

definition demo_limits :: Limits where
  "demo_limits = \<lparr>ModelRPM = 5, ModelITPM = 1000, ProjectRPM = 5, ProjectITPM = 1000, ProjectInflight = 2, TeamEnforceRPM = True,
     TeamRPM = 9, TeamEnforceTMP = False, TeamITPM = 0, DailyTokens = 5000, MonthlyTokens = 9000, OrgMonthly = 100000\<rparr>"

definition demo_admit :: "Limits \<Rightarrow> AdmitParams" where
  "demo_admit l = \<lparr>RequestID = ''q'', ap_model = ''m'', ap_project = ''p'', ap_team = ''t'', ap_org = ''o'', EstInput = 100,
     MaxReservation = 400, AdmissionDate = ''d'', AdmissionMonth = ''m'', ap_limits = l\<rparr>"

definition demo_redis :: redis where
  "demo_redis = \<lparr>r_cnt = (\<lambda>_. None)(keyProjectDaily ''p'' ''d'' := Some (700, Some 100000000)), r_str = (\<lambda>_. None), r_zset = (\<lambda>_. None)\<rparr>"

definition demo_quota :: quota_db where
  "demo_quota = \<lparr>qd_running = (\<lambda>_. None), qd_daily = (\<lambda>_ _. None), qd_monthly = (\<lambda>_ _. None)\<rparr>"

abbreviation demo_run :: "Limits \<Rightarrow> (redis_error + AdmitResult) \<times> redis" where
  "demo_run l \<equiv> Admit Replied 1000 ''tok'' 60 100000 100000 demo_quota (demo_admit l) demo_redis"

definition demo_ok :: AdmitResult where
  "demo_ok = no_result\<lparr>Admitted := True, Token := ''tok''\<rparr>"

lemma demo_ok_simps [simp]: "Admitted demo_ok" "\<not> Idempotent demo_ok" "Token demo_ok = ''tok''"
  by (simp_all add: demo_ok_def no_result_def)

lemma Admit_passes:
  assumes "ZSCORE now (keyProjectRPM (ap_project p)) (RequestID p) r = None" and "fst (phase1 now p r) = None"
  shows "Admit Replied now tok ttl eod eom db p r =
    (Inr (no_result\<lparr>Admitted := True, Token := tok\<rparr>), snd (Admit Replied now tok ttl eod eom db p r))"
  using assms by (cases "phase1 now p r") (simp add: Admit_Replied scriptAdmit_def)

lemma demo_admitted: "demo_run demo_limits = (Inr demo_ok, snd (demo_run demo_limits))"
  unfolding demo_ok_def
proof (rule Admit_passes)
  show "ZSCORE 1000 (keyProjectRPM (ap_project (demo_admit demo_limits))) (RequestID (demo_admit demo_limits)) demo_redis = None"
    by code_simp
  show "fst (phase1 1000 (demo_admit demo_limits) demo_redis) = None" by code_simp
qed

lemma demo_admitted_unlimited:
  "demo_run (demo_limits\<lparr>DailyTokens := 0\<rparr>) = (Inr demo_ok, snd (demo_run (demo_limits\<lparr>DailyTokens := 0\<rparr>)))"
  unfolding demo_ok_def
proof (rule Admit_passes)
  show "ZSCORE 1000 (keyProjectRPM (ap_project (demo_admit (demo_limits\<lparr>DailyTokens := 0\<rparr>))))
      (RequestID (demo_admit (demo_limits\<lparr>DailyTokens := 0\<rparr>))) demo_redis = None" by code_simp
  show "fst (phase1 1000 (demo_admit (demo_limits\<lparr>DailyTokens := 0\<rparr>)) demo_redis) = None" by code_simp
qed

lemma demo_rejected:
  "demo_run (demo_limits\<lparr>DailyTokens := 1000\<rparr>)
   = (Inr (reject ''daily_quota_exceeded''), snd (demo_run (demo_limits\<lparr>DailyTokens := 1000\<rparr>)))"
proof -
  have "fst (demo_run (demo_limits\<lparr>DailyTokens := 1000\<rparr>)) = Inr (reject ''daily_quota_exceeded'')" by code_simp
  then show ?thesis by (simp add: prod_eq_iff)
qed

theorem admission_keeps_limits_witness: "within_limits 1000 (demo_admit demo_limits) (snd (demo_run demo_limits))"
  by (rule admission_keeps_limits [OF demo_admitted]) simp_all

theorem rejection_consumes_nothing_witness:
  "let r' = snd (demo_run (demo_limits\<lparr>DailyTokens := 1000\<rparr>)); k = keyProjectDaily ''p'' ''d'' in
    counter 1000 k r' = counter 1000 k demo_redis \<and> GET 1000 k r' = GET 1000 k demo_redis \<and>
    set (members 1000 k r') \<subseteq> set (members 1000 k demo_redis) \<and>
    set (filter (\<lambda>x. snd x > 1000 - rpmWindowMs) (members 1000 k demo_redis)) \<subseteq> set (members 1000 k r')"
  unfolding Let_def by (rule rejection_consumes_nothing [OF demo_rejected]) (simp add: reject_def no_result_def)

theorem rollback_undoes_admission_witness:
  "let p = demo_admit demo_limits; r'' = Rollback Replied 2000 (rollback_of p (Token demo_ok)) (snd (demo_run demo_limits)) in
    list_all (\<lambda>k. counter 2000 k r'' = counter 1000 k demo_redis) (request_counters p) \<and>
    list_all (\<lambda>k. RequestID p \<notin> fst ` set (members 2000 k r'')) (request_windows p) \<and> GET 2000 (keyToken (RequestID p)) r'' = None"
  unfolding Let_def
proof (rule rollback_undoes_admission [OF demo_admitted])
  show "list_all (\<lambda>k. 0 \<le> counter 1000 k demo_redis) (request_counters (demo_admit demo_limits))" by code_simp
qed (simp_all add: demo_admit_def demo_limits_def)

theorem rollback_refunds_uncharged_quota_witness:
  "let p = demo_admit (demo_limits\<lparr>DailyTokens := 0\<rparr>); r' = snd (demo_run (demo_limits\<lparr>DailyTokens := 0\<rparr>));
       k = keyProjectDaily (ap_project p) (AdmissionDate p) in
   counter 1000 k r' = counter 1000 k demo_redis \<and>
   counter 1000 k (Rollback Replied 1000 (rollback_of p (Token demo_ok)) r') = max 0 (counter 1000 k demo_redis - MaxReservation p)"
  unfolding Let_def
  by (rule rollback_refunds_uncharged_quota [OF demo_admitted_unlimited]) (simp_all add: demo_admit_def)

theorem retry_is_idempotent_witness:
  "Admit Replied 2000 ''other'' 60 100000 100000 demo_quota (demo_admit demo_limits) (snd (demo_run demo_limits)) =
     (Inr (no_result\<lparr>Admitted := True, Idempotent := True, Token := Token demo_ok\<rparr>), snd (demo_run demo_limits))"
  by (rule retry_is_idempotent [OF demo_admitted]) simp_all

end
