(* ===== verification/Quota_Rebuild.thy ===== *)
theory Quota_Rebuild
  imports Admission_Props
begin

text \<open>
  \<open>internal/billing/sweep/rebuild.go\<close>: the quota ledger kept in PostgreSQL and the rebuild of the
  admission counters from it. Calendar days and months of a start time are parameters (\<open>day_of\<close>,
  \<open>month_of\<close>); times are milliseconds.
\<close>

subsection \<open>Tables\<close>

datatype period = Daily | Monthly

record usage_row =
  ur_request :: string
  ur_project :: "string option"
  ur_status :: string
  ur_started :: int
  ur_tokens :: int

record ledger_row =
  lr_scope :: string
  lr_period :: period
  lr_key :: string
  lr_used :: int

record quota_tables =
  usage_rows :: "usage_row list"
  quota_ledger :: "ledger_row list"

subsection \<open>Ledger synchronisation\<close>

definition counted :: "int \<Rightarrow> int \<Rightarrow> usage_row \<Rightarrow> bool" where
  "counted now horizon u \<longleftrightarrow>
     ur_project u \<noteq> None \<and> ur_status u \<in> {''completed'', ''partial'', ''unknown''} \<and> ur_started u > now - horizon"

definition usage_sum :: "(usage_row \<Rightarrow> bool) \<Rightarrow> usage_row list \<Rightarrow> int" where
  "usage_sum p us = sum_list (map ur_tokens (filter p us))"

text \<open>\<open>INSERT ... SELECT ... GROUP BY ... ON CONFLICT DO UPDATE\<close>, one group after the other.\<close>

definition lr_id :: "ledger_row \<Rightarrow> string \<times> period \<times> string" where
  "lr_id l = (lr_scope l, lr_period l, lr_key l)"

definition upsert :: "ledger_row \<Rightarrow> ledger_row list \<Rightarrow> ledger_row list" where
  "upsert row ls =
     (if list_ex (\<lambda>l. lr_id l = lr_id row) ls
      then map (\<lambda>l. if lr_id l = lr_id row then l\<lparr>lr_used := lr_used row\<rparr> else l) ls
      else ls @ [row])"

definition group_key :: "(int \<Rightarrow> string) \<Rightarrow> usage_row \<Rightarrow> string \<times> string" where
  "group_key key_of u = (case ur_project u of None \<Rightarrow> '''' | Some p \<Rightarrow> p, key_of (ur_started u))"

definition group_row :: "period \<Rightarrow> (int \<Rightarrow> string) \<Rightarrow> usage_row list \<Rightarrow> string \<times> string \<Rightarrow> ledger_row" where
  "group_row per key_of us g = \<lparr>lr_scope = fst g, lr_period = per, lr_key = snd g,
     lr_used = usage_sum (\<lambda>u. group_key key_of u = g) us\<rparr>"

definition sync_period :: "int \<Rightarrow> int \<Rightarrow> period \<Rightarrow> (int \<Rightarrow> string) \<Rightarrow> quota_tables \<Rightarrow> quota_tables" where
  "sync_period now horizon per key_of q =
     (let us = filter (counted now horizon) (usage_rows q);
          groups = remdups (map (group_key key_of) us)
      in q\<lparr>quota_ledger := fold (\<lambda>g. upsert (group_row per key_of us g)) groups (quota_ledger q)\<rparr>)"

definition two_days :: int where "two_days = 2 * 86400000"
definition thirty_five_days :: int where "thirty_five_days = 35 * 86400000"

definition QuotaLedgerSync_Run ::
    "faults \<Rightarrow> int \<Rightarrow> (int \<Rightarrow> string) \<Rightarrow> (int \<Rightarrow> string) \<Rightarrow> quota_tables \<Rightarrow> (sql_error + unit) \<times> quota_tables" where
  "QuotaLedgerSync_Run flt now day_of month_of q =
     (if flt ''daily sync'' then (Inl SqlDown, q)
      else
        (let q1 = sync_period now two_days Daily day_of q in
         if flt ''monthly sync'' then (Inl SqlDown, q1)
         else (Inr (), sync_period now thirty_five_days Monthly month_of q1)))"

subsection \<open>Rebuild\<close>

definition two_hours :: int where "two_hours = 7200000"

definition running_rows :: "int \<Rightarrow> quota_tables \<Rightarrow> (string \<times> string) list" where
  "running_rows now q =
     List.map_filter (\<lambda>u. case ur_project u of None \<Rightarrow> None
        | Some p \<Rightarrow> if ur_status u = ''running'' \<and> ur_started u > now - two_hours then Some (p, ur_request u) else None)
       (usage_rows q)"

text \<open>
  A pipeline is not atomic, but its commands run in order; when it fails a prefix of them has run.
  \<open>upto_n\<close> is the length of that prefix.
\<close>

datatype rebuild_error = QueryFailed string | PipelineFailed string

definition rebuildConcurrency ::
    "faults \<Rightarrow> nat \<Rightarrow> int \<Rightarrow> quota_tables \<Rightarrow> redis \<Rightarrow> rebuild_error option \<times> redis" where
  "rebuildConcurrency flt upto_n now q r =
     (if flt ''query running'' then (Some (QueryFailed ''running''), r)
      else
        (let rows = running_rows now q;
             cmds = map (\<lambda>(p, req). ZADD now (keyProjectInflight p) now req) rows
         in if rows = [] then (None, r)
            else if flt ''zadd pipeline'' then (Some (PipelineFailed ''zadd''), fold id (take upto_n cmds) r)
            else (None, fold id cmds r)))"

definition ledger_rows :: "period \<Rightarrow> string \<Rightarrow> quota_tables \<Rightarrow> (string \<times> int) list" where
  "ledger_rows per key q =
     map (\<lambda>l. (lr_scope l, lr_used l)) (filter (\<lambda>l. lr_period l = per \<and> lr_key l = key) (quota_ledger q))"

definition restore_cmds :: "int \<Rightarrow> (string \<Rightarrow> string) \<Rightarrow> int \<Rightarrow> (string \<times> int) list \<Rightarrow> (redis \<Rightarrow> redis) list" where
  "restore_cmds now key_for deadline rows =
     concat (map (\<lambda>(p, used). [SET_counter (key_for p) used, EXPIREAT_counter now (key_for p) (deadline * 1000)]) rows)"

definition rebuild_quota ::
    "faults \<Rightarrow> string \<Rightarrow> nat \<Rightarrow> int \<Rightarrow> (string \<Rightarrow> string) \<Rightarrow> int \<Rightarrow> (string \<times> int) list \<Rightarrow> redis \<Rightarrow>
     rebuild_error option \<times> redis" where
  "rebuild_quota flt lbl upto_n now key_for deadline rows r =
     (if flt (''query '' @ lbl) then (Some (QueryFailed lbl), r)
      else if rows \<noteq> [] \<and> flt (''set '' @ lbl)
      then (Some (PipelineFailed lbl), fold id (take upto_n (restore_cmds now key_for deadline rows)) r)
      else (None, fold id (restore_cmds now key_for deadline rows) r))"

definition rebuildDailyQuotas ::
    "faults \<Rightarrow> nat \<Rightarrow> int \<Rightarrow> string \<Rightarrow> int \<Rightarrow> quota_tables \<Rightarrow> redis \<Rightarrow> rebuild_error option \<times> redis" where
  "rebuildDailyQuotas flt upto_n now today endOfDay q =
     rebuild_quota flt ''daily'' upto_n now (\<lambda>p. keyProjectDaily p today) endOfDay (ledger_rows Daily today q)"

definition rebuildMonthlyQuotas ::
    "faults \<Rightarrow> nat \<Rightarrow> int \<Rightarrow> string \<Rightarrow> int \<Rightarrow> quota_tables \<Rightarrow> redis \<Rightarrow> rebuild_error option \<times> redis" where
  "rebuildMonthlyQuotas flt upto_n now month endOfMonth q =
     rebuild_quota flt ''monthly'' upto_n now (\<lambda>p. keyProjectMonthly p month) endOfMonth (ledger_rows Monthly month q)"

text \<open>Every part runs whatever happens to the others; the first error is returned.\<close>

definition RedisRebuilder_Run ::
    "faults \<Rightarrow> nat \<Rightarrow> int \<Rightarrow> string \<Rightarrow> int \<Rightarrow> string \<Rightarrow> int \<Rightarrow> quota_tables \<Rightarrow> redis \<Rightarrow> rebuild_error option \<times> redis" where
  "RedisRebuilder_Run flt upto_n now today endOfDay month endOfMonth q r =
     (case rebuildConcurrency flt upto_n now q r of (e1, r1) \<Rightarrow>
      (case rebuildDailyQuotas flt upto_n now today endOfDay q r1 of (e2, r2) \<Rightarrow>
      (case rebuildMonthlyQuotas flt upto_n now month endOfMonth q r2 of (e3, r3) \<Rightarrow>
         (case List.map_filter id [e1, e2, e3] of [] \<Rightarrow> None | e # _ \<Rightarrow> Some e, r3))))"

subsection \<open>The ledger holds the sums\<close>

definition ledger_get :: "string \<times> period \<times> string \<Rightarrow> ledger_row list \<Rightarrow> int option" where
  "ledger_get i ls = map_option lr_used (find (\<lambda>l. lr_id l = i) ls)"

lemma ledger_get_Cons: "ledger_get i (l # ls) = (if lr_id l = i then Some (lr_used l) else ledger_get i ls)"
  by (simp add: ledger_get_def)

lemma ledger_get_append: "list_ex (\<lambda>l. lr_id l = i) ls = False \<Longrightarrow> ledger_get j (ls @ [row]) =
    (if lr_id row = j \<and> j = i then Some (lr_used row) else if lr_id row = j \<and> ledger_get j ls = None then Some (lr_used row) else ledger_get j ls)"
  by (induction ls) (auto simp: ledger_get_def)

lemma ledger_get_set:
  "ledger_get j (map (\<lambda>l. if lr_id l = i then l\<lparr>lr_used := v\<rparr> else l) ls) =
     (if j = i \<and> list_ex (\<lambda>l. lr_id l = i) ls then Some v else ledger_get j ls)"
proof (induction ls)
  case (Cons l ls)
  have "lr_id (l\<lparr>lr_used := v\<rparr>) = lr_id l" by (simp add: lr_id_def)
  with Cons show ?case by (auto simp: ledger_get_Cons)
qed (simp add: ledger_get_def)

lemma ledger_get_None: "ledger_get i ls = None \<longleftrightarrow> \<not> list_ex (\<lambda>l. lr_id l = i) ls"
  by (auto simp: ledger_get_def find_None_iff list_ex_iff)

lemma ledger_get_upsert: "ledger_get j (upsert row ls) = (if lr_id row = j then Some (lr_used row) else ledger_get j ls)"
proof (cases "list_ex (\<lambda>l. lr_id l = lr_id row) ls")
  case True
  then show ?thesis by (simp add: upsert_def ledger_get_set)
next
  case False
  then have "ledger_get (lr_id row) ls = None" by (simp add: ledger_get_None)
  with False show ?thesis using ledger_get_append [of "lr_id row" ls j row] by (auto simp: upsert_def)
qed

lemma ledger_get_fold:
  "ledger_get (p, per, k) (fold (\<lambda>g. upsert (group_row per' key_of us g)) gs ls) =
     (if per' = per \<and> (p, k) \<in> set gs then Some (usage_sum (\<lambda>u. group_key key_of u = (p, k)) us) else ledger_get (p, per, k) ls)"
  by (induction gs arbitrary: ls) (auto simp: ledger_get_upsert group_row_def lr_id_def)

text \<open>
  The ledger holds the recent usage. After an undisturbed synchronisation the daily row of a project
  and day with finished requests in the last two days is the sum of their tokens, and a row without
  such requests keeps its value.
\<close>

theorem sync_daily_is_usage:
  shows "ledger_get (p, Daily, d) (quota_ledger (snd (QuotaLedgerSync_Run (\<lambda>_. False) now day_of month_of q))) =
     (if list_ex (\<lambda>u. counted now two_days u \<and> group_key day_of u = (p, d)) (usage_rows q)
      then Some (usage_sum (\<lambda>u. counted now two_days u \<and> group_key day_of u = (p, d)) (usage_rows q))
      else ledger_get (p, Daily, d) (quota_ledger q))"
proof -
  let ?us = "filter (counted now two_days) (usage_rows q)"
  have "(p, d) \<in> set (remdups (map (group_key day_of) ?us)) \<longleftrightarrow>
      list_ex (\<lambda>u. counted now two_days u \<and> group_key day_of u = (p, d)) (usage_rows q)" by (force simp: list_ex_iff)
  moreover have "usage_sum (\<lambda>u. group_key day_of u = (p, d)) ?us =
      usage_sum (\<lambda>u. counted now two_days u \<and> group_key day_of u = (p, d)) (usage_rows q)"
    by (simp add: usage_sum_def conj_commute)
  ultimately show ?thesis
    by (simp add: QuotaLedgerSync_Run_def sync_period_def Let_def ledger_get_fold del: set_remdups set_map)
qed

subsection \<open>The rebuild restores the ledger\<close>

definition uuid_like :: "string \<Rightarrow> bool" where
  "uuid_like p \<longleftrightarrow> CHR '':'' \<notin> set p"

lemma takeWhile_uuid: "uuid_like p \<Longrightarrow> takeWhile (\<lambda>c. c \<noteq> CHR '':'') (p @ CHR '':'' # s) = p"
  by (induction p) (auto simp: uuid_like_def)

lemma daily_not_monthly: "uuid_like p \<Longrightarrow> uuid_like p' \<Longrightarrow> keyProjectDaily p d \<noteq> keyProjectMonthly p' m"
proof
  assume u: "uuid_like p" "uuid_like p'" and "keyProjectDaily p d = keyProjectMonthly p' m"
  then have eq: "p @ CHR '':'' # ''daily:'' @ d = p' @ CHR '':'' # ''monthly:'' @ m" by (simp add: key_defs)
  then have "p = p'" using takeWhile_uuid [OF u(1)] takeWhile_uuid [OF u(2)] by metis
  with eq show False by simp
qed

lemma daily_key_inj: "keyProjectDaily p d = keyProjectDaily p' d \<longleftrightarrow> p = p'"
  by (simp add: key_defs)

lemma restore_other:
  "k \<notin> (\<lambda>(p, u). key_for p) ` set rows \<Longrightarrow> counter now k (fold id (restore_cmds now key_for dl rows) r) = counter now k r"
  by (induction rows arbitrary: r) (auto simp: restore_cmds_def redis_obs)

lemma restore_counter:
  assumes "\<And>p p'. key_for p = key_for p' \<longleftrightarrow> p = p'" and "now < dl * 1000"
  shows "distinct (map fst rows) \<Longrightarrow> (p, u) \<in> set rows \<Longrightarrow>
    counter now (key_for p) (fold id (restore_cmds now key_for dl rows) r) = u"
proof (induction rows arbitrary: r)
  case (Cons row rows)
  obtain p' u' where row: "row = (p', u')" by fastforce
  let ?r = "EXPIREAT_counter now (key_for p') (dl * 1000) (SET_counter (key_for p') u' r)"
  have step: "fold id (restore_cmds now key_for dl (row # rows)) r = fold id (restore_cmds now key_for dl rows) ?r"
    by (simp add: row restore_cmds_def)
  show ?case
  proof (cases "(p, u) = row")
    case True
    with Cons.prems row have "key_for p \<notin> (\<lambda>(p, u). key_for p) ` set rows" by (force simp: assms(1))
    then have "counter now (key_for p) (fold id (restore_cmds now key_for dl rows) ?r) = counter now (key_for p) ?r"
      by (rule restore_other)
    with True row assms(2) show ?thesis unfolding step by (simp add: redis_obs)
  next
    case False
    with Cons.prems Cons.IH [of ?r] show ?thesis unfolding step by (simp add: id_def)
  qed
qed simp

lemma concurrency_counters: "counter now' k (snd (rebuildConcurrency flt n now q r)) = counter now' k r"
proof -
  have "counter now' k (fold id (map (\<lambda>(p, req). ZADD now (keyProjectInflight p) now req) rows) r) = counter now' k r" for rows
    by (induction rows arbitrary: r) (auto simp: redis_obs)
  then show ?thesis by (simp add: rebuildConcurrency_def Let_def take_map)
qed

definition ledger_ok :: "ledger_row list \<Rightarrow> bool" where
  "ledger_ok ls \<longleftrightarrow> distinct (map lr_id ls) \<and> list_all (\<lambda>l. uuid_like (lr_scope l)) ls"

lemma ledger_rows_distinct: "ledger_ok (quota_ledger q) \<Longrightarrow> distinct (map fst (ledger_rows per key q))"
  by (simp add: ledger_ok_def ledger_rows_def distinct_map inj_on_def lr_id_def)

lemma rebuild_daily:
  assumes "ledger_ok (quota_ledger q)" and "l \<in> set (quota_ledger q)" and "lr_period l = Daily" and "now < eod * 1000"
  shows "counter now (keyProjectDaily (lr_scope l) (lr_key l))
    (snd (RedisRebuilder_Run (\<lambda>_. False) n now (lr_key l) eod month eom q r)) = lr_used l"
proof -
  let ?k = "keyProjectDaily (lr_scope l) (lr_key l)"
  define r1 where "r1 = snd (rebuildConcurrency (\<lambda>_. False) n now q r)"
  define r2 where "r2 = fold id (restore_cmds now (\<lambda>p. keyProjectDaily p (lr_key l)) eod (ledger_rows Daily (lr_key l) q)) r1"
  have run: "snd (RedisRebuilder_Run (\<lambda>_. False) n now (lr_key l) eod month eom q r) =
      fold id (restore_cmds now (\<lambda>p. keyProjectMonthly p month) eom (ledger_rows Monthly month q)) r2"
    by (simp add: RedisRebuilder_Run_def rebuildDailyQuotas_def rebuildMonthlyQuotas_def rebuild_quota_def r1_def r2_def
        split: prod.split)
  have "?k \<notin> (\<lambda>(p, u). keyProjectMonthly p month) ` set (ledger_rows Monthly month q)"
    using assms(1,2) by (auto simp: ledger_ok_def ledger_rows_def list_all_iff dest: daily_not_monthly)
  then have "counter now ?k (fold id (restore_cmds now (\<lambda>p. keyProjectMonthly p month) eom (ledger_rows Monthly month q)) r2)
      = counter now ?k r2" by (rule restore_other)
  moreover have "counter now ?k r2 = lr_used l" unfolding r2_def
  proof (rule restore_counter [OF daily_key_inj assms(4)])
    show "distinct (map fst (ledger_rows Daily (lr_key l) q))" by (rule ledger_rows_distinct [OF assms(1)])
    show "(lr_scope l, lr_used l) \<in> set (ledger_rows Daily (lr_key l) q)"
      using assms(2,3) by (auto simp: ledger_rows_def)
  qed
  ultimately show ?thesis by (simp add: run)
qed

lemma correct_daily:
  "counter now (keyProjectDaily (cp_project p) (cp_date p)) (Correct Replied now p r) =
     (let delta = cp_actualInput p + cp_actualOutput p - cp_maxReservation p;
          c = counter now (keyProjectDaily (cp_project p) (cp_date p)) r
      in if delta < 0 then max 0 (c + delta) else c + delta)"
  by (auto simp: Correct_def scriptCorrect_def safe_adjust_def Let_def redis_obs)

text \<open>
  A rebuild forgets the reservations of running requests. It overwrites the daily counter with
  the usage the ledger holds; when a request that was running during the rebuild finishes with fewer
  tokens than it reserved, the correction releases a reservation the counter no longer contains, and
  the counter ends below the true usage \<open>used + actual\<close> by up to the unused reservation.
\<close>

theorem rebuild_loses_reservations:
  assumes "ledger_ok (quota_ledger q)" and "l \<in> set (quota_ledger q)" and "lr_period l = Daily" and "now < eod * 1000"
    and "cp_project p = lr_scope l" and "cp_date p = lr_key l"
    and "cp_actualInput p + cp_actualOutput p < cp_maxReservation p"
  shows "counter now (keyProjectDaily (lr_scope l) (lr_key l))
      (Correct Replied now p (snd (RedisRebuilder_Run (\<lambda>_. False) n now (lr_key l) eod month eom q r))) =
    max 0 (lr_used l + cp_actualInput p + cp_actualOutput p - cp_maxReservation p)"
  using correct_daily [of now p "snd (RedisRebuilder_Run (\<lambda>_. False) n now (lr_key l) eod month eom q r)"]
    rebuild_daily [OF assms(1-4), of n month eom r] assms(5-7) by (simp add: Let_def algebra_simps)

definition demo_ledger :: quota_tables where
  "demo_ledger = \<lparr>usage_rows = [\<lparr>ur_request = ''q1'', ur_project = Some ''p'', ur_status = ''completed'', ur_started = 500, ur_tokens = 300\<rparr>],
     quota_ledger = [\<lparr>lr_scope = ''p'', lr_period = Daily, lr_key = ''d'', lr_used = 300\<rparr>]\<rparr>"

definition demo_correction :: CorrectionParams where
  "demo_correction = \<lparr>cp_request = ''q2'', cp_token = ''tok'', cp_model = ''m'', cp_project = ''p'', cp_team = ''t'', cp_org = ''o'',
     cp_date = ''d'', cp_month = ''m'', cp_estInput = 100, cp_actualInput = 100, cp_actualOutput = 50, cp_maxReservation = 400\<rparr>"

theorem rebuild_loses_reservations_witness:
  "counter 1000 (keyProjectDaily ''p'' ''d'')
     (Correct Replied 1000 demo_correction (snd (RedisRebuilder_Run (\<lambda>_. False) 0 1000 ''d'' 100 ''m'' 100 demo_ledger demo_redis))) = 50"
  using rebuild_loses_reservations [of demo_ledger "hd (quota_ledger demo_ledger)" 1000 100 demo_correction 0 "''m''" 100 demo_redis]
  by (simp add: demo_ledger_def demo_correction_def ledger_ok_def uuid_like_def lr_id_def)

end
