(* ===== verification/Go_Text.thy ===== *)
theory Go_Text
  imports Nexus_Prelude
begin

text \<open>
  The parts of Go's \<open>strconv\<close>, \<open>strings\<close> and \<open>path\<close> packages the program uses on text:
  decimal numbers, splitting and trimming, and the glob matcher \<open>path.Match\<close> behind both
  \<open>globMatch\<close> functions. Text is a list of 8-bit characters read as ASCII: multi-byte runes, which
  \<open>?\<close> and character classes would read as one character, are outside the model.
\<close>

subsection \<open>Decimal numbers\<close>

definition digit :: "nat \<Rightarrow> char" where "digit n = char_of (48 + n)"

definition is_digit :: "char \<Rightarrow> bool" where "is_digit c \<longleftrightarrow> of_char c \<ge> (48::nat) \<and> of_char c \<le> (57::nat)"

definition digit_val :: "char \<Rightarrow> nat" where "digit_val c = of_char c - 48"

fun digits :: "nat \<Rightarrow> string" where
  "digits n = (if n < 10 then [digit n] else digits (n div 10) @ [digit (n mod 10)])"

declare digits.simps [simp del]

definition FormatInt :: "int \<Rightarrow> string" where
  "FormatInt i = (if i < 0 then CHR ''-'' # digits (nat (- i)) else digits (nat i))"

text \<open>
  \<open>ParseUint\<close> stops with a range error as soon as the number passes \<open>2^64 - 1\<close>, and with a syntax
  error at the first character that is not a digit.
\<close>

fun parse_uint :: "nat \<Rightarrow> string \<Rightarrow> nat option" where
  "parse_uint n [] = Some n"
| "parse_uint n (c # cs) =
     (if \<not> is_digit c then None
      else let m = n * 10 + digit_val c in if m \<ge> 2 ^ 64 then Some (2 ^ 64 - 1) else parse_uint m cs)"

text \<open>
  \<open>n, _ := strconv.ParseInt(s, 10, 64)\<close> with the error discarded, and the error itself: a syntax
  error gives 0, a number out of range the nearest bound. \<open>Atoi\<close> is the same on a 64-bit machine.
\<close>

definition parse_signed :: "bool \<Rightarrow> string \<Rightarrow> int \<times> bool" where
  "parse_signed neg ds =
     (if ds = [] then (0, True)
      else case parse_uint 0 ds of
        None \<Rightarrow> (0, True)
      | Some u \<Rightarrow>
          if \<not> neg \<and> u \<ge> 2 ^ 63 then (2 ^ 63 - 1, True)
          else if neg \<and> u > 2 ^ 63 then (- (2 ^ 63), True)
          else (if neg then - int u else int u, False))"

definition ParseInt :: "string \<Rightarrow> int \<times> bool" where
  "ParseInt s =
     (case s of
        [] \<Rightarrow> (0, True)
      | c # cs \<Rightarrow> if c = CHR ''-'' then parse_signed True cs
                 else if c = CHR ''+'' then parse_signed False cs
                 else parse_signed False s)"

definition Atoi :: "string \<Rightarrow> int" where "Atoi s = fst (ParseInt s)"

lemma digit_simps [simp]:
  "n < 10 \<Longrightarrow> is_digit (digit n)" "n < 10 \<Longrightarrow> digit_val (digit n) = n"
  by (simp_all add: is_digit_def digit_def digit_val_def)

lemma digits_not_sign: "digits n = c # cs \<Longrightarrow> is_digit c"
proof (induction n arbitrary: c cs rule: digits.induct)
  case (1 n)
  show ?case
  proof (cases "n < 10")
    case True
    then show ?thesis using 1(2) by (auto simp: digits.simps [of n])
  next
    case False
    then have "digits (n div 10) @ [digit (n mod 10)] = c # cs" using 1(2) by (simp add: digits.simps [of n])
    moreover have "digits (n div 10) \<noteq> []" by (simp add: digits.simps [of "n div 10"])
    ultimately obtain cs' where "digits (n div 10) = c # cs'" by (auto simp: append_eq_Cons_conv)
    then show ?thesis using 1(1) [OF False] by blast
  qed
qed

lemma parse_uint_append:
  "parse_uint a xs = Some n \<Longrightarrow> n < 2 ^ 64 - 1 \<Longrightarrow> parse_uint a (xs @ ys) = parse_uint n ys"
  by (induction xs arbitrary: a) (auto simp: Let_def split: if_splits)

lemma parse_uint_digits: "n < 2 ^ 64 \<Longrightarrow> parse_uint 0 (digits n) = Some n"
proof (induction n rule: digits.induct)
  case (1 n)
  show ?case
  proof (cases "n < 10")
    case True
    then show ?thesis by (simp add: digits.simps [of n])
  next
    case False
    then have "parse_uint 0 (digits (n div 10)) = Some (n div 10)" using 1 by simp
    then have "parse_uint 0 (digits (n div 10) @ [digit (n mod 10)]) = parse_uint (n div 10) [digit (n mod 10)]"
      using 1(2) by (intro parse_uint_append) simp_all
    then show ?thesis using False 1(2) by (simp add: digits.simps [of n])
  qed
qed

lemma digits_not_Nil [simp]: "digits n \<noteq> []"
  by (simp add: digits.simps [of n])

lemma ParseInt_FormatInt:
  assumes "- (2 ^ 63) \<le> i" and "i < 2 ^ 63" shows "ParseInt (FormatInt i) = (i, False)"
proof (cases "i < 0")
  case True
  then have "parse_uint 0 (digits (nat (- i))) = Some (nat (- i))" using assms by (intro parse_uint_digits) simp
  then show ?thesis using True assms by (simp add: FormatInt_def ParseInt_def parse_signed_def nat_le_iff)
next
  case False
  obtain c cs where c: "digits (nat i) = c # cs" by (cases "digits (nat i)") auto
  have "c \<noteq> CHR ''-''" "c \<noteq> CHR ''+''" using digits_not_sign [OF c] by (auto simp: is_digit_def)
  then have "ParseInt (digits (nat i)) = parse_signed False (digits (nat i))" by (simp add: ParseInt_def c)
  moreover have "parse_uint 0 (digits (nat i)) = Some (nat i)" using assms False by (intro parse_uint_digits) simp
  ultimately show ?thesis using False assms by (simp add: FormatInt_def parse_signed_def nat_less_iff)
qed

lemma Atoi_FormatInt: "- (2 ^ 63) \<le> i \<Longrightarrow> i < 2 ^ 63 \<Longrightarrow> Atoi (FormatInt i) = i"
  by (simp add: Atoi_def ParseInt_FormatInt)

lemma parse_signed_bounds: "fst (parse_signed neg s) < 2 ^ 63" "- (2 ^ 63) \<le> fst (parse_signed neg s)"
  by (auto simp: parse_signed_def split: option.splits)

lemma ParseInt_bounds: "fst (ParseInt s) < 2 ^ 63" "- (2 ^ 63) \<le> fst (ParseInt s)"
  using parse_signed_bounds by (auto simp: ParseInt_def split: list.splits)

subsection \<open>Strings\<close>

fun Split :: "char \<Rightarrow> string \<Rightarrow> string list" where
  "Split sep [] = [[]]"
| "Split sep (c # cs) =
     (if c = sep then [] # Split sep cs
      else case Split sep cs of [] \<Rightarrow> [[c]] | w # ws \<Rightarrow> (c # w) # ws)"

definition is_space :: "char \<Rightarrow> bool" where
  "is_space c \<longleftrightarrow> c = CHR '' '' \<or> 9 \<le> (of_char c :: nat) \<and> (of_char c :: nat) \<le> 13"

definition TrimSpace :: "string \<Rightarrow> string" where
  "TrimSpace s = rev (dropWhile is_space (rev (dropWhile is_space s)))"

definition lower :: "char \<Rightarrow> char" where
  "lower c = (if 65 \<le> (of_char c :: nat) \<and> (of_char c :: nat) \<le> 90 then char_of ((of_char c :: nat) + 32) else c)"

definition EqualFold :: "string \<Rightarrow> string \<Rightarrow> bool" where
  "EqualFold s t \<longleftrightarrow> map lower s = map lower t"

definition HasPrefix :: "string \<Rightarrow> string \<Rightarrow> bool" where
  "HasPrefix s p \<longleftrightarrow> take (length p) s = p"

fun contains :: "string \<Rightarrow> string \<Rightarrow> bool" where
  "contains p [] \<longleftrightarrow> p = []"
| "contains p (c # s) \<longleftrightarrow> HasPrefix (c # s) p \<or> contains p s"

definition ToLower :: "string \<Rightarrow> string" where "ToLower s = map lower s"

fun Join :: "string \<Rightarrow> string list \<Rightarrow> string" where
  "Join sep [] = []"
| "Join sep [x] = x"
| "Join sep (x # y # xs) = x @ sep @ Join sep (y # xs)"

subsection \<open>Glob patterns\<close>

text \<open>
  \<open>path.Match\<close> splits the pattern at its stars into chunks; \<open>scan\<close> returns the next chunk, in
  which a star inside brackets or after a backslash stands for itself, and the rest.
\<close>

fun scan :: "bool \<Rightarrow> string \<Rightarrow> string \<times> string" where
  "scan inrange [] = ([], [])"
| "scan inrange (c # cs) =
     (if c = CHR 0x5C then
        (case cs of [] \<Rightarrow> ([c], []) | d # ds \<Rightarrow> (case scan inrange ds of (a, b) \<Rightarrow> (c # d # a, b)))
      else if c = CHR ''*'' \<and> \<not> inrange then ([], c # cs)
      else case scan (if c = CHR ''['' then True else if c = CHR '']'' then False else inrange) cs of
        (a, b) \<Rightarrow> (c # a, b))"

definition scanChunk :: "string \<Rightarrow> bool \<times> string \<times> string" where
  "scanChunk pattern =
     (let p = dropWhile (\<lambda>c. c = CHR ''*'') pattern in (pattern \<noteq> p, scan False p))"

text \<open>A possibly escaped character of a class, and the rest, which may not be empty.\<close>

definition getEsc :: "string \<Rightarrow> (char \<times> string) option" where
  "getEsc chunk =
     (case chunk of [] \<Rightarrow> None
      | c # cs \<Rightarrow>
          if c = CHR ''-'' \<or> c = CHR '']'' then None
          else if c = CHR 0x5C then
            (case cs of [] \<Rightarrow> None | d # ds \<Rightarrow> if ds = [] then None else Some (d, ds))
          else if cs = [] then None else Some (c, cs))"

lemma getEsc_length: "getEsc chunk = Some (c, rest) \<Longrightarrow> length rest < length chunk"
  by (auto simp: getEsc_def split: list.splits if_splits)

text \<open>The ranges of a character class up to its closing bracket: whether one holds \<open>r\<close>, and the rest.\<close>

function class_ranges :: "bool \<Rightarrow> bool \<Rightarrow> char \<Rightarrow> string \<Rightarrow> (bool \<times> string) option" where
  "class_ranges some match r chunk =
     (if chunk \<noteq> [] \<and> hd chunk = CHR '']'' \<and> some then Some (match, tl chunk)
      else case getEsc chunk of
        None \<Rightarrow> None
      | Some (lo, rest) \<Rightarrow>
          if hd rest = CHR ''-'' then
            (case getEsc (tl rest) of
               None \<Rightarrow> None
             | Some (hi, rest') \<Rightarrow>
                 class_ranges True (match \<or> of_char lo \<le> (of_char r :: nat) \<and> (of_char r :: nat) \<le> of_char hi) r rest')
          else class_ranges True (match \<or> r = lo) r rest)"
  by pat_completeness auto
termination
  by (relation "measure (\<lambda>(_, _, _, chunk). length chunk)") (auto dest!: getEsc_length)

declare class_ranges.simps [simp del]

lemma class_ranges_length: "class_ranges sm m r chunk = Some (b, rest) \<Longrightarrow> length rest \<le> length chunk"
proof (induction chunk arbitrary: sm m rule: measure_induct_rule [of length])
  case (less chunk)
  have shorter: "length rest \<le> length chunk"
    if "class_ranges sm' m' r c = Some (b, rest)" "length c < length chunk" for sm' m' c
    using less(1) [OF that(2,1)] that(2) by simp
  from less(2) show ?case
    unfolding class_ranges.simps [of sm m r chunk]
    by (auto split: if_splits option.splits prod.splits dest!: getEsc_length intro: shorter)
qed

function matchChunk :: "string \<Rightarrow> string \<Rightarrow> string option" where
  "matchChunk chunk s =
     (case chunk of
        [] \<Rightarrow> Some s
      | c # cs \<Rightarrow>
         (case s of
            [] \<Rightarrow> None
          | r # s' \<Rightarrow>
              if c = CHR ''['' then
                (let negated = (cs \<noteq> [] \<and> hd cs = CHR ''^'') in
                 case class_ranges False False r (if negated then tl cs else cs) of
                   None \<Rightarrow> None
                 | Some (match, rest) \<Rightarrow> if match = negated then None else matchChunk rest s')
              else if c = CHR ''?'' then (if r = CHR ''/'' then None else matchChunk cs s')
              else if c = CHR 0x5C then
                (case cs of [] \<Rightarrow> None | d # ds \<Rightarrow> if d \<noteq> r then None else matchChunk ds s')
              else if c \<noteq> r then None
              else matchChunk cs s'))"
  by pat_completeness auto
termination
  by (relation "measure (\<lambda>(_, s). length s)") auto

declare matchChunk.simps [simp del]

text \<open>After a star the chunk is tried at every later position that does not pass a slash.\<close>

fun skip_match :: "string \<Rightarrow> bool \<Rightarrow> string \<Rightarrow> string option" where
  "skip_match chunk final [] = None"
| "skip_match chunk final (c # cs) =
     (if c = CHR ''/'' then None
      else case matchChunk chunk cs of
        None \<Rightarrow> skip_match chunk final cs
      | Some t \<Rightarrow> if final \<and> t \<noteq> [] then skip_match chunk final cs else Some t)"

lemma scan_Cons_cases:
  obtains (stop) "snd (scan b (c # cs)) = c # cs" "c = CHR ''*''"
  | (escaped) "cs = []" "snd (scan b (c # cs)) = []"
  | (quoted) d ds where "cs = d # ds" "snd (scan b (c # cs)) = snd (scan b ds)"
  | (plain) b' where "snd (scan b (c # cs)) = snd (scan b' cs)"
proof (cases "c = CHR 0x5C")
  case True
  then show ?thesis
    using escaped quoted by (cases cs) (simp_all add: case_prod_unfold)
next
  case False
  show ?thesis
  proof (cases "c = CHR ''*'' \<and> \<not> b")
    case True
    then show ?thesis by (intro stop) simp_all
  next
    case other: False
    have "snd (scan b (c # cs)) = snd (scan (if c = CHR ''['' then True else if c = CHR '']'' then False else b) cs)"
      using False other by (auto simp: case_prod_unfold)
    then show ?thesis by (rule plain)
  qed
qed

declare scan.simps [simp del]

lemma scan_Nil [simp]: "scan b [] = ([], [])"
  by (simp add: scan.simps)

lemma scan_length: "length (snd (scan b p)) \<le> length p"
proof (induction p arbitrary: b rule: measure_induct_rule [of length])
  case (less p)
  show ?case
  proof (cases p)
    case (Cons c cs)
    have "length (snd (scan b' q)) \<le> Suc (length cs)" if "length q \<le> length cs" for b' q
      using less [of q b'] that Cons by simp
    then have "length (snd (scan b (c # cs))) \<le> Suc (length cs)"
      by - (rule scan_Cons_cases [of b c cs], simp_all)
    then show ?thesis by (simp add: Cons)
  qed simp
qed

lemma scan_progress:
  assumes "p \<noteq> []" and "hd p \<noteq> CHR ''*''" shows "length (snd (scan b p)) < length p"
proof (cases p)
  case (Cons c cs)
  have "length (snd (scan b' q)) < Suc (length cs)" if "length q \<le> length cs" for b' q
    using scan_length [of b' q] that by simp
  then have "length (snd (scan b (c # cs))) < Suc (length cs)"
    using assms(2) by - (rule scan_Cons_cases [of b c cs], simp_all add: Cons)
  then show ?thesis by (simp add: Cons)
qed (use assms in simp)

lemma scanChunk_progress:
  assumes "p \<noteq> []" and "scanChunk p = (star, chunk, rest)" shows "length rest < length p"
proof -
  let ?q = "dropWhile (\<lambda>c. c = CHR ''*'') p"
  have rest: "rest = snd (scan False ?q)" using assms(2) by (auto simp: scanChunk_def Let_def)
  show ?thesis
  proof (cases "?q = []")
    case True
    then show ?thesis using assms(1) rest unfolding True by simp
  next
    case False
    then have "length (snd (scan False ?q)) < length ?q" using hd_dropWhile [OF False] by (intro scan_progress) auto
    moreover have "length ?q \<le> length p" by (rule length_dropWhile_le)
    ultimately show ?thesis using rest by simp
  qed
qed

text \<open>
  The main loop, with a malformed pattern and a mismatch both read as \<open>False\<close>: the program discards
  the error, and \<open>matched\<close> is false with it.
\<close>

function path_match :: "string \<Rightarrow> string \<Rightarrow> bool" where
  "path_match pattern name =
     (if pattern = [] then name = []
      else case scanChunk pattern of
        (star, chunk, rest) \<Rightarrow>
          if star \<and> chunk = [] then CHR ''/'' \<notin> set name
          else
            (let first = (case matchChunk chunk name of
                            None \<Rightarrow> None | Some t \<Rightarrow> if t = [] \<or> rest \<noteq> [] then Some t else None);
                 found = (case first of Some t \<Rightarrow> Some t
                          | None \<Rightarrow> if star then skip_match chunk (rest = []) name else None)
             in case found of None \<Rightarrow> False | Some t \<Rightarrow> path_match rest t))"
  by pat_completeness auto
termination
  by (relation "measure (\<lambda>(p, _). length p)") (auto dest!: sym [of "(_, _, _)"] simp: scanChunk_progress)

declare path_match.simps [simp del]

text \<open>The helper \<open>globMatch\<close> of \<open>internal/policy/engine.go\<close> and of \<open>internal/catalog/rules.go\<close>.\<close>

definition globMatch :: "string \<Rightarrow> string \<Rightarrow> bool" where
  "globMatch pattern name = (if pattern = [] then False else path_match pattern name)"

subsection \<open>What the common patterns match\<close>

definition literal :: "char \<Rightarrow> bool" where
  "literal c \<longleftrightarrow> c \<noteq> CHR ''*'' \<and> c \<noteq> CHR ''?'' \<and> c \<noteq> CHR ''['' \<and> c \<noteq> CHR 0x5C"

lemma scan_literal: "list_all literal p \<Longrightarrow> scan False (p @ q) = (p @ fst (scan False q), snd (scan False q))"
  by (induction p) (simp_all add: scan.simps(2) literal_def case_prod_unfold)

lemma matchChunk_Nil [simp]: "matchChunk [] s = Some s"
  by (simp add: matchChunk.simps)

lemma matchChunk_literal:
  "list_all literal p \<Longrightarrow> matchChunk p s = (if HasPrefix s p then Some (drop (length p) s) else None)"
proof (induction p arbitrary: s)
  case (Cons c p)
  then show ?case by (cases s) (auto simp: matchChunk.simps [of "c # p"] literal_def HasPrefix_def)
qed (simp add: HasPrefix_def)

lemma HasPrefix_iff: "HasPrefix s p \<longleftrightarrow> (\<exists>x. s = p @ x)"
  by (metis HasPrefix_def append_eq_conv_conj append_take_drop_id)

lemma dropWhile_literal:
  assumes "p \<noteq> []" and "list_all literal p" shows "dropWhile (\<lambda>c. c = CHR ''*'') (p @ q) = p @ q"
  using assms by (cases p) (simp_all add: literal_def)

lemma scanChunk_literal:
  assumes "p \<noteq> []" and "list_all literal p"
  shows "scanChunk (p @ q) = (False, p @ fst (scan False q), snd (scan False q))"
  using scan_literal [OF assms(2), of q] by (simp add: scanChunk_def Let_def dropWhile_literal [OF assms])

text \<open>A pattern without special characters matches itself only.\<close>

lemma glob_literal:
  assumes "p \<noteq> []" and "list_all literal p" shows "globMatch p n \<longleftrightarrow> n = p"
  using assms scanChunk_literal [OF assms, of "[]"]
  by (auto simp: globMatch_def path_match.simps [of p] path_match.simps [of "[]"] Let_def
      matchChunk_literal HasPrefix_iff split: option.splits if_splits)

lemma path_match_star: "path_match ''*'' n \<longleftrightarrow> CHR ''/'' \<notin> set n"
  by (simp add: path_match.simps [of "''*''"] scanChunk_def)

text \<open>A star at the end matches the rest of the name, provided it has no slash.\<close>

lemma glob_star:
  assumes "p \<noteq> []" and "list_all literal p"
  shows "globMatch (p @ ''*'') n \<longleftrightarrow> (\<exists>x. n = p @ x \<and> CHR ''/'' \<notin> set x)"
proof -
  have "scanChunk (p @ ''*'') = (False, p, ''*'')"
    using scanChunk_literal [OF assms, of "''*''"] by (simp add: scan.simps)
  then show ?thesis
    using assms by (auto simp: globMatch_def path_match.simps [of "p @ ''*''"] Let_def path_match_star
        matchChunk_literal HasPrefix_iff split: option.splits if_splits)
qed

text \<open>A star at the start matches any beginning without a slash.\<close>

lemma before_suffix:
  "n = p \<or> (\<exists>c x. n = c # x @ p \<and> CHR ''/'' \<notin> set (c # x)) \<longleftrightarrow> (\<exists>x. n = x @ p \<and> CHR ''/'' \<notin> set x)"
proof
  assume "\<exists>x. n = x @ p \<and> CHR ''/'' \<notin> set x"
  then obtain x where "n = x @ p" "CHR ''/'' \<notin> set x" by blast
  then show "n = p \<or> (\<exists>c x. n = c # x @ p \<and> CHR ''/'' \<notin> set (c # x))" by (cases x) auto
qed (force intro: exI [of _ "_ # _"] exI [of _ "[]"])

lemma skip_match_final:
  assumes "list_all literal p"
  shows "skip_match p True n = (if \<exists>c x. n = c # x @ p \<and> CHR ''/'' \<notin> set (c # x) then Some [] else None)"
proof (induction n)
  case (Cons c n)
  have "matchChunk p n = Some [] \<longleftrightarrow> n = p" "matchChunk p n = None \<or> (\<exists>t. matchChunk p n = Some t)"
    using assms by (auto simp: matchChunk_literal HasPrefix_iff)
  then show ?case using Cons before_suffix [of n p] by (auto split: option.splits)
qed simp

lemma glob_star_suffix:
  assumes "p \<noteq> []" and "list_all literal p"
  shows "globMatch (CHR ''*'' # p) n \<longleftrightarrow> (\<exists>x. n = x @ p \<and> CHR ''/'' \<notin> set x)"
proof -
  have "scanChunk (CHR ''*'' # p) = (True, p, [])"
    using scan_literal [OF assms(2), of "[]"] dropWhile_literal [OF assms, of "[]"] by (simp add: scanChunk_def Let_def)
  then have "globMatch (CHR ''*'' # p) n \<longleftrightarrow>
      n = p \<or> (\<exists>c x. n = c # x @ p \<and> CHR ''/'' \<notin> set (c # x))"
    using assms by (auto simp: globMatch_def path_match.simps [of "CHR ''*'' # p"] path_match.simps [of "[]"] Let_def
        skip_match_final matchChunk_literal HasPrefix_iff split: option.splits if_splits)
  then show ?thesis by (simp only: before_suffix)
qed

end
