(* ===== verification/Catalog_Rules.thy ===== *)
theory Catalog_Rules
  imports Go_Text "HOL-Library.Multiset"
begin

text \<open>
  \<open>internal/catalog/rules.go\<close>: the exposure rules that decide which models of a provider's catalogue
  clients can see, and the preview of their effect; \<open>internal/catalog/provider_access.go\<close>: the prefix
  rules of a project's grant on a provider.
\<close>

subsection \<open>Rules and entries\<close>

record ExposureRule =
  er_id :: string
  er_provider :: string
  RuleType :: string
  Pattern :: string
  er_model :: string
  RequireStreaming :: "bool option"
  RequireTools :: "bool option"
  RequireVision :: "bool option"
  RequireAudio :: "bool option"
  RequireEmbedding :: "bool option"
  RequireReasoning :: "bool option"
  DenyTagsRaw :: string
  Priority :: int
  er_enabled :: bool

record CatalogEntry =
  ProviderModelID :: string
  Tags :: "string list"
  SupportsStreaming :: bool
  SupportsTools :: bool
  SupportsVision :: bool
  SupportsAudio :: bool
  SupportsSpeech :: bool
  SupportsEmbedding :: bool
  SupportsReasoning :: bool

definition DenyTags :: "ExposureRule \<Rightarrow> string list" where
  "DenyTags r =
     (if DenyTagsRaw r = [] then []
      else filter (\<lambda>t. t \<noteq> []) (map TrimSpace (Split (CHR '','') (DenyTagsRaw r))))"

definition splitTags :: "string \<Rightarrow> string list" where
  "splitTags raw = (if raw = [] then [] else Split (CHR '','') raw)"

subsection \<open>Evaluation\<close>

definition lacks :: "bool option \<Rightarrow> bool \<Rightarrow> bool" where
  "lacks required supported \<longleftrightarrow> required \<noteq> None \<and> the required \<and> \<not> supported"

definition capabilityFilterPasses :: "ExposureRule \<Rightarrow> CatalogEntry \<Rightarrow> bool" where
  "capabilityFilterPasses r entry =
     (if lacks (RequireStreaming r) (SupportsStreaming entry) then False
      else if lacks (RequireTools r) (SupportsTools entry) then False
      else if lacks (RequireVision r) (SupportsVision entry) then False
      else if lacks (RequireAudio r) (SupportsAudio entry) then False
      else if lacks (RequireEmbedding r) (SupportsEmbedding entry) then False
      else if lacks (RequireReasoning r) (SupportsReasoning entry) then False
      else True)"

definition denies :: "CatalogEntry \<Rightarrow> ExposureRule \<Rightarrow> bool" where
  "denies entry r \<longleftrightarrow>
     RuleType r = ''deny_pattern'' \<and> globMatch (Pattern r) (ProviderModelID entry) \<or>
     list_ex (\<lambda>tag. list_ex (\<lambda>entryTag. EqualFold tag entryTag) (Tags entry)) (DenyTags r)"

definition rule_matches :: "CatalogEntry \<Rightarrow> ExposureRule \<Rightarrow> bool" where
  "rule_matches entry r =
     (if RuleType r = ''allow_model'' then EqualFold (er_model r) (ProviderModelID entry)
      else if RuleType r = ''allow_pattern'' then globMatch (Pattern r) (ProviderModelID entry)
      else if RuleType r = ''capability_filter'' then True
      else False)"

fun deny_pass :: "CatalogEntry \<Rightarrow> ExposureRule list \<Rightarrow> bool" where
  "deny_pass entry [] = False"
| "deny_pass entry (r # rs) =
     (if \<not> er_enabled r then deny_pass entry rs else if denies entry r then True else deny_pass entry rs)"

fun allow_pass :: "CatalogEntry \<Rightarrow> ExposureRule list \<Rightarrow> bool" where
  "allow_pass entry [] = False"
| "allow_pass entry (r # rs) =
     (if \<not> er_enabled r then allow_pass entry rs
      else if rule_matches entry r \<and> capabilityFilterPasses r entry then True
      else allow_pass entry rs)"

text \<open>
  \<open>sort.Slice\<close> is not stable; the model sorts stably, and \<open>exposure_ignores_order\<close> below shows that
  no order of the rules changes the outcome.
\<close>

definition IsExposed :: "CatalogEntry \<Rightarrow> ExposureRule list \<Rightarrow> bool" where
  "IsExposed entry rules =
     (let sorted = sort_key Priority rules in if deny_pass entry sorted then False else allow_pass entry sorted)"

subsection \<open>The rule store and the preview\<close>

definition ListForProvider :: "bool \<Rightarrow> string \<Rightarrow> ExposureRule list \<Rightarrow> sql_error + ExposureRule list" where
  "ListForProvider fails providerID tbl =
     (if fails then Inl SqlDown
      else Inr (sort_key Priority (filter (\<lambda>r. er_provider r = providerID \<and> er_enabled r) tbl)))"

definition RuleStore_ListAll :: "bool \<Rightarrow> string \<Rightarrow> ExposureRule list \<Rightarrow> sql_error + ExposureRule list" where
  "RuleStore_ListAll fails providerID tbl =
     (if fails then Inl SqlDown else Inr (sort_key Priority (filter (\<lambda>r. er_provider r = providerID) tbl)))"

text \<open>A row of \<open>provider_remote_models\<close>: provider, enabled, model id, raw tags, capabilities.\<close>

record remote_model =
  rm_provider :: string
  rm_enabled :: bool
  rm_model :: string
  rm_tags_raw :: string
  rm_streaming :: bool
  rm_tools :: bool
  rm_vision :: bool
  rm_audio :: bool
  rm_embeddings :: bool
  rm_reasoning :: bool

definition preview_entry :: "remote_model \<Rightarrow> CatalogEntry" where
  "preview_entry c =
     \<lparr>ProviderModelID = rm_model c, Tags = splitTags (rm_tags_raw c), SupportsStreaming = rm_streaming c,
      SupportsTools = rm_tools c, SupportsVision = rm_vision c, SupportsAudio = rm_audio c, SupportsSpeech = False,
      SupportsEmbedding = rm_embeddings c, SupportsReasoning = rm_reasoning c\<rparr>"

fun preview_loop :: "ExposureRule list \<Rightarrow> remote_model list \<Rightarrow> string list \<times> string list \<Rightarrow> string list \<times> string list" where
  "preview_loop rules [] (exposed, blocked) = (exposed, blocked)"
| "preview_loop rules (c # cs) (exposed, blocked) =
     preview_loop rules cs
       (if IsExposed (preview_entry c) rules then (exposed @ [rm_model c], blocked) else (exposed, blocked @ [rm_model c]))"

definition PreviewExposure ::
    "faults \<Rightarrow> string \<Rightarrow> remote_model list \<Rightarrow> ExposureRule list \<Rightarrow> sql_error + string list \<times> string list" where
  "PreviewExposure flt providerID models rules =
     (if flt ''catalog'' then Inl SqlDown
      else bindE (ListForProvider (flt ''rules'') providerID rules) (\<lambda>rs.
        Inr (preview_loop rs (filter (\<lambda>c. rm_provider c = providerID \<and> rm_enabled c) models) ([], []))))"

subsection \<open>Provider grants\<close>

definition prefix_rules_allow :: "string list \<Rightarrow> string list \<Rightarrow> string \<Rightarrow> bool" where
  "prefix_rules_allow allowed denied name =
     (if list_ex (\<lambda>pat. globMatch pat name) denied then False
      else if allowed = [] then True
      else list_ex (\<lambda>pat. globMatch pat name) allowed)"

record ProjectProviderAccess =
  ppa_id :: string
  ppa_project :: string
  ppa_provider :: string
  AllowedPrefixes :: "string list"
  DeniedPrefixes :: "string list"
  ppa_enabled :: bool
  ppa_credential :: "string option"

definition IsAllowed :: "ProjectProviderAccess \<Rightarrow> string \<Rightarrow> bool" where
  "IsAllowed a name = prefix_rules_allow (AllowedPrefixes a) (DeniedPrefixes a) name"

subsection \<open>Correctness\<close>

lemma deny_pass_iff: "deny_pass e rs \<longleftrightarrow> (\<exists>r\<in>set rs. er_enabled r \<and> denies e r)"
  by (induction rs) auto

lemma allow_pass_iff:
  "allow_pass e rs \<longleftrightarrow> (\<exists>r\<in>set rs. er_enabled r \<and> rule_matches e r \<and> capabilityFilterPasses r e)"
  by (induction rs) auto

lemma IsExposed_iff:
  "IsExposed e rs \<longleftrightarrow> \<not> (\<exists>r\<in>set rs. er_enabled r \<and> denies e r) \<and>
     (\<exists>r\<in>set rs. er_enabled r \<and> rule_matches e r \<and> capabilityFilterPasses r e)"
  by (simp add: IsExposed_def Let_def deny_pass_iff allow_pass_iff)

lemma capabilityFilterPasses_iff:
  "capabilityFilterPasses r e \<longleftrightarrow>
     (RequireStreaming r = Some True \<longrightarrow> SupportsStreaming e) \<and> (RequireTools r = Some True \<longrightarrow> SupportsTools e) \<and>
     (RequireVision r = Some True \<longrightarrow> SupportsVision e) \<and> (RequireAudio r = Some True \<longrightarrow> SupportsAudio e) \<and>
     (RequireEmbedding r = Some True \<longrightarrow> SupportsEmbedding e) \<and> (RequireReasoning r = Some True \<longrightarrow> SupportsReasoning e)"
proof -
  have "lacks q s \<longleftrightarrow> q = Some True \<and> \<not> s" for q s by (cases q) (auto simp: lacks_def)
  then show ?thesis by (simp add: capabilityFilterPasses_def)
qed

text \<open>
  C28: the exposure decision is the declarative one. A catalogue entry is exposed exactly when no
  enabled rule denies it and some enabled rule matches it with its capability requirements met, so
  the outcome depends neither on the order of the rules nor on their priorities.
\<close>

theorem exposure_ignores_order:
  "(IsExposed e rs \<longleftrightarrow> \<not> list_ex (\<lambda>r. er_enabled r \<and> denies e r) rs \<and>
      list_ex (\<lambda>r. er_enabled r \<and> rule_matches e r \<and> capabilityFilterPasses r e) rs) \<and>
   IsExposed e (map (\<lambda>r. r\<lparr>Priority := f r\<rparr>) rs) = IsExposed e rs"
proof -
  have "denies e (r\<lparr>Priority := p\<rparr>) = denies e r" "rule_matches e (r\<lparr>Priority := p\<rparr>) = rule_matches e r"
    "capabilityFilterPasses (r\<lparr>Priority := p\<rparr>) e = capabilityFilterPasses r e" for r p
    by (simp_all add: denies_def rule_matches_def capabilityFilterPasses_def DenyTags_def)
  then show ?thesis by (auto simp: IsExposed_iff list_ex_iff)
qed

lemma preview_loop_eq:
  "preview_loop rules cs (ex, bl) =
     (ex @ map rm_model (filter (\<lambda>c. IsExposed (preview_entry c) rules) cs),
      bl @ map rm_model (filter (\<lambda>c. \<not> IsExposed (preview_entry c) rules) cs))"
  by (induction cs arbitrary: ex bl) auto

lemma mset_map_partition:
  "mset (map f (filter P xs)) + mset (map f (filter (\<lambda>x. \<not> P x) xs)) = mset (map f xs)"
  by (induction xs) auto

text \<open>
  The preview splits the enabled models of the provider: every one is in exactly one of the two lists.
\<close>

lemma preview_partitions:
  assumes "PreviewExposure flt pid models tbl = Inr (ex, bl)"
  shows "mset ex + mset bl = mset (map rm_model (filter (\<lambda>c. rm_provider c = pid \<and> rm_enabled c) models))"
proof -
  let ?cs = "filter (\<lambda>c. rm_provider c = pid \<and> rm_enabled c) models"
  obtain rs where "preview_loop rs ?cs ([], []) = (ex, bl)"
    using assms unfolding PreviewExposure_def bindE_Inr_iff by (simp only: split: if_splits) (auto simp: bindE_Inr_iff)
  then have "ex = map rm_model (filter (\<lambda>c. IsExposed (preview_entry c) rs) ?cs)"
    "bl = map rm_model (filter (\<lambda>c. \<not> IsExposed (preview_entry c) rs) ?cs)"
    unfolding preview_loop_eq append_Nil prod.inject by blast+
  then show ?thesis using mset_map_partition by blast
qed

text \<open>A grant's deny patterns win over its allow patterns.\<close>

lemma prefix_rules_deny_wins: "pat \<in> set denied \<Longrightarrow> globMatch pat name \<Longrightarrow> \<not> prefix_rules_allow allowed denied name"
  by (auto simp: prefix_rules_allow_def list_ex_iff)

lemma denies_pattern:
  "denies e (r\<lparr>RuleType := ''deny_pattern'', Pattern := p, DenyTagsRaw := []\<rparr>) \<longleftrightarrow> globMatch p (ProviderModelID e)"
  by (simp add: denies_def DenyTags_def)

text \<open>
  A deny rule with the pattern \<open>*:free\<close> never fires for a model id with a slash, although the
  documentation lists \<open>openai/gpt-4o:free\<close> as matched by it: a star does not pass a slash. With an
  allow rule \<open>openai/*\<close> beside it the model stays exposed; the pattern \<open>*\<close>, documented as
  matching all models, matches none with a slash.
\<close>

theorem star_patterns_stop_at_slash:
  assumes "CHR ''/'' \<in> set (ProviderModelID e)" and "CHR ''/'' \<notin> set suffix" and "list_all literal suffix"
    and "er_enabled allow" and "rule_matches e allow" and "capabilityFilterPasses allow e"
    and "DenyTagsRaw allow = []" and "RuleType allow = ''allow_pattern''"
  shows "IsExposed e
    [r\<lparr>RuleType := ''deny_pattern'', Pattern := CHR ''*'' # suffix, DenyTagsRaw := []\<rparr>, allow]"
proof -
  have "\<not> globMatch (CHR ''*'' # suffix) (ProviderModelID e)"
  proof (cases "suffix = []")
    case True
    then show ?thesis using assms(1) path_match_star by (simp add: globMatch_def)
  next
    case False
    show ?thesis unfolding glob_star_suffix [OF False assms(3)] using assms(1,2) by auto
  qed
  moreover have "\<not> denies e allow" using assms(7,8) by (simp add: denies_def DenyTags_def)
  ultimately show ?thesis using assms(4-6) denies_pattern [where e = e and r = r] by (auto simp: IsExposed_iff)
qed

definition demo_rule :: ExposureRule where
  "demo_rule =
     \<lparr>er_id = ''r'', er_provider = ''p'', RuleType = ''allow_pattern'', Pattern = ''openai/*'', er_model = [],
      RequireStreaming = Some True, RequireTools = None, RequireVision = None, RequireAudio = None, RequireEmbedding = None,
      RequireReasoning = None, DenyTagsRaw = [], Priority = 50, er_enabled = True\<rparr>"

definition demo_entry :: CatalogEntry where
  "demo_entry =
     \<lparr>ProviderModelID = ''openai/gpt-4o:free'', Tags = [''free''], SupportsStreaming = True, SupportsTools = False,
      SupportsVision = False, SupportsAudio = False, SupportsSpeech = False, SupportsEmbedding = False,
      SupportsReasoning = False\<rparr>"

lemma demo_matches: "rule_matches demo_entry demo_rule"
proof -
  have "globMatch (''openai/'' @ ''*'') (''openai/'' @ ''gpt-4o:free'')"
    by (subst glob_star) (simp_all add: literal_def)
  then show ?thesis by (simp add: rule_matches_def demo_entry_def demo_rule_def)
qed

theorem star_patterns_stop_at_slash_witness:
  "IsExposed demo_entry
     [demo_rule\<lparr>RuleType := ''deny_pattern'', Pattern := ''*:free'', DenyTagsRaw := []\<rparr>, demo_rule]"
  using star_patterns_stop_at_slash [of demo_entry "'':free''" demo_rule demo_rule] demo_matches
  by (simp add: demo_entry_def demo_rule_def literal_def capabilityFilterPasses_iff)

end
