(* ===== verification/Policy_Engine.thy ===== *)
theory Policy_Engine
  imports Redis Go_Text Catalog_Rules "HOL-Library.Word"
begin

text \<open>
  \<open>internal/policy/engine.go\<close>: the two-layer policy engine of the gateway. Every inference request
  passes the model ACL, the limits of its project (or of its team, for keys without a project) and
  the guardrails of its organisation, all read from Redis.

  The engine's Redis state extends the one of the admission gate with sets, hashes of text and the
  \<open>vproviders\<close> hashes, whose JSON values are kept decoded (\<open>None\<close> is a value that does not decode).
  Each call takes the behaviour of the network as an argument: a command is answered, is lost, or is
  executed while its reply is lost. The engine drops the errors of its reads, so a failed read
  yields the zero value. The dates come with the clock.
\<close>

subsection \<open>State\<close>

record providerAccessEntry =
  ProviderPrefix :: string
  AllowedPatterns :: "string list"
  DeniedPatterns :: "string list"

record policy_redis = redis +
  r_set :: "string \<Rightarrow> string list"
  r_hash :: "string \<Rightarrow> ((string \<times> string) list \<times> int option) option"
  r_grants :: "string \<Rightarrow> ((string \<times> providerAccessEntry option) list \<times> int option) option"

record clock =
  c_now :: int
  c_today :: string
  c_month :: string

datatype net = Fine | Lost | ReplyLost

type_synonym network = "string \<Rightarrow> net"

definition int64 :: "int \<Rightarrow> int" where "int64 x = sint (word_of_int x :: 64 word)"

text \<open>A read with its error dropped, a write, and a pipeline, which may break after any of its commands.\<close>

definition reading :: "net \<Rightarrow> 'v \<Rightarrow> 'v \<Rightarrow> 'v" where
  "reading n zero v = (if n = Fine then v else zero)"

definition writing :: "net \<Rightarrow> ('s \<Rightarrow> 's) \<Rightarrow> 's \<Rightarrow> bool \<times> 's" where
  "writing n cmd s = (n = Fine, if n = Lost then s else cmd s)"

definition pipe_exec :: "nat option \<Rightarrow> ('s \<Rightarrow> 's) list \<Rightarrow> 's \<Rightarrow> bool \<times> 's" where
  "pipe_exec broken cmds s =
     (case broken of
        None \<Rightarrow> (True, fold (\<lambda>c. c) cmds s)
      | Some k \<Rightarrow> (False, fold (\<lambda>c. c) (take k cmds) s))"

definition SADD :: "string \<Rightarrow> string \<Rightarrow> policy_redis \<Rightarrow> policy_redis" where
  "SADD key m r = r\<lparr>r_set := (r_set r)(key := List.insert m (r_set r key))\<rparr>"

definition SREM :: "string \<Rightarrow> string \<Rightarrow> policy_redis \<Rightarrow> policy_redis" where
  "SREM key m r = r\<lparr>r_set := (r_set r)(key := removeAll m (r_set r key))\<rparr>"

definition DEL_set :: "string \<Rightarrow> policy_redis \<Rightarrow> policy_redis" where
  "DEL_set key r = r\<lparr>r_set := (r_set r)(key := [])\<rparr>"

definition SET :: "string \<Rightarrow> string \<Rightarrow> policy_redis \<Rightarrow> policy_redis" where
  "SET key s r = r\<lparr>r_str := (r_str r)(key := Some (s, None))\<rparr>"

definition hash_of :: "int \<Rightarrow> ('v list \<times> int option) option \<Rightarrow> 'v list" where
  "hash_of now h = (case live now h of None \<Rightarrow> [] | Some (fs, _) \<Rightarrow> fs)"

definition hash_expiry :: "int \<Rightarrow> ('v list \<times> int option) option \<Rightarrow> int option" where
  "hash_expiry now h = (case live now h of None \<Rightarrow> None | Some (_, e) \<Rightarrow> e)"

fun put_field :: "string \<Rightarrow> 'v \<Rightarrow> (string \<times> 'v) list \<Rightarrow> (string \<times> 'v) list" where
  "put_field f v [] = [(f, v)]"
| "put_field f v ((g, w) # fs) = (if f = g then (f, v) # fs else (g, w) # put_field f v fs)"

definition HSET :: "int \<Rightarrow> string \<Rightarrow> (string \<times> string) list \<Rightarrow> policy_redis \<Rightarrow> policy_redis" where
  "HSET now key fvs r =
     r\<lparr>r_hash := (r_hash r)(key :=
         Some (fold (\<lambda>(f, v). put_field f v) fvs (hash_of now (r_hash r key)), hash_expiry now (r_hash r key)))\<rparr>"

definition EXPIRE_hash :: "int \<Rightarrow> string \<Rightarrow> int \<Rightarrow> policy_redis \<Rightarrow> policy_redis" where
  "EXPIRE_hash now key ttl r =
     r\<lparr>r_hash := (r_hash r)(key := map_option (\<lambda>(fs, _). (fs, Some (now + ttl))) (live now (r_hash r key)))\<rparr>"

definition HSET_grant :: "int \<Rightarrow> string \<Rightarrow> string \<Rightarrow> providerAccessEntry \<Rightarrow> policy_redis \<Rightarrow> policy_redis" where
  "HSET_grant now key f e r =
     r\<lparr>r_grants := (r_grants r)(key :=
         Some (put_field f (Some e) (hash_of now (r_grants r key)), hash_expiry now (r_grants r key)))\<rparr>"

definition EXPIRE_grant :: "int \<Rightarrow> string \<Rightarrow> int \<Rightarrow> policy_redis \<Rightarrow> policy_redis" where
  "EXPIRE_grant now key ttl r =
     r\<lparr>r_grants := (r_grants r)(key := map_option (\<lambda>(fs, _). (fs, Some (now + ttl))) (live now (r_grants r key)))\<rparr>"

definition HDEL_grant :: "int \<Rightarrow> string \<Rightarrow> string \<Rightarrow> policy_redis \<Rightarrow> policy_redis" where
  "HDEL_grant now key f r =
     (let fs = filter (\<lambda>x. fst x \<noteq> f) (hash_of now (r_grants r key)) in
      r\<lparr>r_grants := (r_grants r)(key := (if fs = [] then None else Some (fs, hash_expiry now (r_grants r key))))\<rparr>)"

definition DEL_grants :: "string \<Rightarrow> policy_redis \<Rightarrow> policy_redis" where
  "DEL_grants key r = r\<lparr>r_grants := (r_grants r)(key := None)\<rparr>"

text \<open>\<open>SET key 0 KEEPTTL\<close> on a counter.\<close>

definition SET_KEEPTTL :: "int \<Rightarrow> string \<Rightarrow> int \<Rightarrow> policy_redis \<Rightarrow> policy_redis" where
  "SET_KEEPTTL now key n r =
     r\<lparr>r_cnt := (r_cnt r)(key := Some (n, case live now (r_cnt r key) of None \<Rightarrow> None | Some (_, e) \<Rightarrow> e))\<rparr>"

subsection \<open>Keys\<close>

definition projectPrefix :: string where "projectPrefix = ''nexus:project:''"
definition orgPrefix :: string where "orgPrefix = ''nexus:org:''"
definition poolPrefix :: string where "poolPrefix = ''nexus:pool:''"
definition teamModelsPrefix :: string where "teamModelsPrefix = ''nexus:team:''"
definition teamPolicyPrefix :: string where "teamPolicyPrefix = ''nexus:policy:''"
definition quotaPrefix :: string where "quotaPrefix = ''nexus:quota:''"
definition ratelimitPrefix :: string where "ratelimitPrefix = ''nexus:ratelimit:''"
definition inflightPrefix :: string where "inflightPrefix = ''nexus:inflight:''"

definition teamModelsKey :: "string \<Rightarrow> string" where "teamModelsKey t = teamModelsPrefix @ t @ '':models''"
definition projectModelsKey :: "string \<Rightarrow> string" where "projectModelsKey p = projectPrefix @ p @ '':models''"
definition projectModelsConfiguredKey :: "string \<Rightarrow> string" where
  "projectModelsConfiguredKey p = projectPrefix @ p @ '':models:configured''"
definition orgModelsKey :: "string \<Rightarrow> string" where "orgModelsKey g = orgPrefix @ g @ '':models''"
definition vprovidersKey :: "string \<Rightarrow> string" where "vprovidersKey p = projectPrefix @ p @ '':vproviders''"
definition projectPolicyKey :: "string \<Rightarrow> string" where "projectPolicyKey p = projectPrefix @ p @ '':policy''"
definition rpmKey :: "string \<Rightarrow> string" where "rpmKey p = projectPrefix @ p @ '':rpm''"
definition tpmKey :: "string \<Rightarrow> string" where "tpmKey p = projectPrefix @ p @ '':tpm''"
definition dailyKey :: "clock \<Rightarrow> string \<Rightarrow> string" where "dailyKey c p = projectPrefix @ p @ '':daily:'' @ c_today c"
definition monthlyKey :: "clock \<Rightarrow> string \<Rightarrow> string" where "monthlyKey c p = projectPrefix @ p @ '':monthly:'' @ c_month c"
definition inflightKey :: "string \<Rightarrow> string" where "inflightKey p = projectPrefix @ p @ '':inflight''"
definition disabledKey :: "string \<Rightarrow> string" where "disabledKey g = orgPrefix @ g @ '':disabled''"
definition budgetKey :: "string \<Rightarrow> string" where "budgetKey g = orgPrefix @ g @ '':budget:monthly''"
definition usedKey :: "clock \<Rightarrow> string \<Rightarrow> string" where "usedKey c g = orgPrefix @ g @ '':monthly:'' @ c_month c"
definition poolKey :: "string \<Rightarrow> string" where "poolKey m = poolPrefix @ m @ '':at_capacity''"
definition teamRpmKey :: "string \<Rightarrow> string" where "teamRpmKey t = ratelimitPrefix @ t @ '':rpm''"
definition teamDailyKey :: "clock \<Rightarrow> string \<Rightarrow> string" where "teamDailyKey c t = quotaPrefix @ t @ '':daily:'' @ c_today c"
definition teamInflightKey :: "string \<Rightarrow> string" where "teamInflightKey t = inflightPrefix @ t"

subsection \<open>Requests and policies\<close>

record PolicyDecision =
  Allowed :: bool
  RejectReason :: string
  QueueInstead :: bool
  QueuePriority :: int

record InferenceRequest =
  Model :: string
  EstimatedInputTokens :: int
  OrgID :: string
  TeamID :: string
  ProjectID :: string

record ProjectPolicy =
  RPMLimit :: int
  TPMLimit :: int
  MaxConcurrent :: int
  MaxContextTokens :: int
  DailyTokenBudget :: int
  MonthlyTokenBudget :: int

record TeamPolicy =
  tp_RPMLimit :: int
  tp_TPDLimit :: int
  tp_MaxConcurrent :: int
  tp_MaxContextTokens :: int

definition allow_decision :: PolicyDecision where
  "allow_decision = \<lparr>Allowed = True, RejectReason = [], QueueInstead = False, QueuePriority = 0\<rparr>"

definition reject_with :: "string \<Rightarrow> PolicyDecision" where
  "reject_with reason = \<lparr>Allowed = False, RejectReason = reason, QueueInstead = False, QueuePriority = 0\<rparr>"

definition queue_with :: "int \<Rightarrow> string \<Rightarrow> PolicyDecision" where
  "queue_with priority reason = \<lparr>Allowed = False, RejectReason = reason, QueueInstead = True, QueuePriority = priority\<rparr>"

subsection \<open>Provider ACL\<close>

definition isAllowed :: "providerAccessEntry \<Rightarrow> string \<Rightarrow> bool" where
  "isAllowed e name =
     (if ProviderPrefix e \<noteq> [] \<and> \<not> HasPrefix name (ProviderPrefix e @ ''/'') then False
      else prefix_rules_allow (AllowedPatterns e) (DeniedPatterns e) name)"

definition isVirtualModelAllowedForProject :: "network \<Rightarrow> int \<Rightarrow> string \<Rightarrow> string \<Rightarrow> policy_redis \<Rightarrow> bool" where
  "isVirtualModelAllowedForProject net now projectID name r =
     (let fields = reading (net ''vproviders'') [] (hash_of now (r_grants r (vprovidersKey projectID))) in
      list_ex (\<lambda>(_, raw). case raw of None \<Rightarrow> False | Some entry \<Rightarrow> isAllowed entry name) fields)"

definition SetProjectProviderAccess ::
    "nat option \<Rightarrow> int \<Rightarrow> string \<Rightarrow> string \<Rightarrow> providerAccessEntry \<Rightarrow> policy_redis \<Rightarrow> bool \<times> policy_redis" where
  "SetProjectProviderAccess broken now projectID providerID entry =
     pipe_exec broken
       [HSET_grant now (vprovidersKey projectID) providerID entry,
        EXPIRE_grant now (vprovidersKey projectID) (48 * 3600 * 1000)]"

definition RemoveProjectProviderAccess :: "net \<Rightarrow> int \<Rightarrow> string \<Rightarrow> string \<Rightarrow> policy_redis \<Rightarrow> bool \<times> policy_redis" where
  "RemoveProjectProviderAccess n now projectID providerID = writing n (HDEL_grant now (vprovidersKey projectID) providerID)"

definition ClearProjectProviderAccess :: "net \<Rightarrow> string \<Rightarrow> policy_redis \<Rightarrow> bool \<times> policy_redis" where
  "ClearProjectProviderAccess n projectID = writing n (DEL_grants (vprovidersKey projectID))"

subsection \<open>Model ACL\<close>

definition SetProjectModelAllowed :: "nat option \<Rightarrow> string \<Rightarrow> string \<Rightarrow> policy_redis \<Rightarrow> bool \<times> policy_redis" where
  "SetProjectModelAllowed broken projectID model =
     pipe_exec broken [SADD (projectModelsKey projectID) model, SET (projectModelsConfiguredKey projectID) ''1'']"

definition RemoveProjectModelAllowed :: "nat option \<Rightarrow> string \<Rightarrow> string \<Rightarrow> policy_redis \<Rightarrow> bool \<times> policy_redis" where
  "RemoveProjectModelAllowed broken projectID model =
     pipe_exec broken [SREM (projectModelsKey projectID) model, SET (projectModelsConfiguredKey projectID) ''1'']"

definition ClearProjectModelAccess :: "net \<Rightarrow> string \<Rightarrow> policy_redis \<Rightarrow> bool \<times> policy_redis" where
  "ClearProjectModelAccess n projectID =
     writing n (\<lambda>r. DEL (projectModelsConfiguredKey projectID) (DEL_set (projectModelsKey projectID) r))"

definition SetOrgModelAllowed :: "net \<Rightarrow> string \<Rightarrow> string \<Rightarrow> policy_redis \<Rightarrow> bool \<times> policy_redis" where
  "SetOrgModelAllowed n orgID model = writing n (SADD (orgModelsKey orgID) model)"

definition RemoveOrgModelAllowed :: "net \<Rightarrow> string \<Rightarrow> string \<Rightarrow> policy_redis \<Rightarrow> bool \<times> policy_redis" where
  "RemoveOrgModelAllowed n orgID model = writing n (SREM (orgModelsKey orgID) model)"

definition SetModelAllowed :: "net \<Rightarrow> string \<Rightarrow> string \<Rightarrow> policy_redis \<Rightarrow> bool \<times> policy_redis" where
  "SetModelAllowed n teamID model = writing n (SADD (teamModelsKey teamID) model)"

definition RemoveModelAllowed :: "net \<Rightarrow> string \<Rightarrow> string \<Rightarrow> policy_redis \<Rightarrow> bool \<times> policy_redis" where
  "RemoveModelAllowed n teamID model = writing n (SREM (teamModelsKey teamID) model)"

definition TeamModelSet :: "net \<Rightarrow> string \<Rightarrow> policy_redis \<Rightarrow> sql_error + string list" where
  "TeamModelSet n teamID r = (if n = Fine then Inr (r_set r (teamModelsKey teamID)) else Inl SqlDown)"

definition ProjectModelSet :: "net \<Rightarrow> string \<Rightarrow> policy_redis \<Rightarrow> sql_error + string list" where
  "ProjectModelSet n projectID r = (if n = Fine then Inr (r_set r (projectModelsKey projectID)) else Inl SqlDown)"

text \<open>Step 0 of \<open>Evaluate\<close>.\<close>

definition modelAllowed :: "network \<Rightarrow> int \<Rightarrow> InferenceRequest \<Rightarrow> policy_redis \<Rightarrow> bool" where
  "modelAllowed net now req r =
     (let teamAllowed =
            (if TeamID req \<noteq> [] then reading (net ''team models'') False (Model req \<in> set (r_set r (teamModelsKey (TeamID req))))
             else False);
          publicAllowed =
            (if \<not> teamAllowed then False
             else if ProjectID req = [] then True
             else
               (let configured = reading (net ''configured'') 0
                      (if GET now (projectModelsConfiguredKey (ProjectID req)) r = None then 0 else 1 :: int) in
                if configured = 0 then True
                else reading (net ''project models'') False (Model req \<in> set (r_set r (projectModelsKey (ProjectID req))))))
      in if \<not> publicAllowed \<and> ProjectID req \<noteq> []
         then isVirtualModelAllowedForProject net now (ProjectID req) (Model req) r
         else publicAllowed)"

subsection \<open>Policies in Redis\<close>

definition SetProjectPolicy :: "nat option \<Rightarrow> int \<Rightarrow> string \<Rightarrow> ProjectPolicy \<Rightarrow> policy_redis \<Rightarrow> bool \<times> policy_redis" where
  "SetProjectPolicy broken now projectID pp =
     pipe_exec broken
       [HSET now (projectPolicyKey projectID)
          [(''rpm'', FormatInt (RPMLimit pp)), (''tpm'', FormatInt (TPMLimit pp)),
           (''max_concurrent'', FormatInt (MaxConcurrent pp)), (''max_context_tokens'', FormatInt (MaxContextTokens pp)),
           (''daily_tokens'', FormatInt (DailyTokenBudget pp)), (''monthly_tokens'', FormatInt (MonthlyTokenBudget pp))],
        EXPIRE_hash now (projectPolicyKey projectID) (48 * 3600 * 1000)]"

definition positive_field :: "(string \<times> string) list \<Rightarrow> string \<Rightarrow> int" where
  "positive_field vals f =
     (case map_of vals f of None \<Rightarrow> 0 | Some v \<Rightarrow> let n = Atoi v in if n > 0 then n else 0)"

definition loadProjectPolicy :: "network \<Rightarrow> int \<Rightarrow> string \<Rightarrow> policy_redis \<Rightarrow> ProjectPolicy" where
  "loadProjectPolicy net now projectID r =
     (let vals = reading (net ''project policy'') [] (hash_of now (r_hash r (projectPolicyKey projectID))) in
      \<lparr>RPMLimit = positive_field vals ''rpm'', TPMLimit = positive_field vals ''tpm'',
       MaxConcurrent = positive_field vals ''max_concurrent'', MaxContextTokens = positive_field vals ''max_context_tokens'',
       DailyTokenBudget = positive_field vals ''daily_tokens'', MonthlyTokenBudget = positive_field vals ''monthly_tokens''\<rparr>)"

definition override_field :: "(string \<times> string) list \<Rightarrow> string \<Rightarrow> int \<Rightarrow> int" where
  "override_field vals f old =
     (case map_of vals f of None \<Rightarrow> old | Some v \<Rightarrow> let n = Atoi v in if n \<ge> 0 then n else old)"

definition loadTeamPolicy :: "network \<Rightarrow> int \<Rightarrow> string \<Rightarrow> TeamPolicy option \<Rightarrow> policy_redis \<Rightarrow> TeamPolicy" where
  "loadTeamPolicy net now teamID fallback r =
     (let vals = reading (net ''team policy'') [] (hash_of now (r_hash r (teamPolicyPrefix @ teamID)));
          start = (case fallback of
                     None \<Rightarrow> \<lparr>tp_RPMLimit = 0, tp_TPDLimit = 0, tp_MaxConcurrent = 0, tp_MaxContextTokens = 0\<rparr>
                   | Some f \<Rightarrow> f)
      in if vals = [] then start
         else \<lparr>tp_RPMLimit = override_field vals ''rpm'' (tp_RPMLimit start),
               tp_TPDLimit = override_field vals ''tpd'' (tp_TPDLimit start),
               tp_MaxConcurrent = override_field vals ''max_concurrent'' (tp_MaxConcurrent start),
               tp_MaxContextTokens = override_field vals ''max_context_tokens'' (tp_MaxContextTokens start)\<rparr>)"

subsection \<open>Sliding window\<close>

text \<open>The script is atomic; its error is dropped by the callers and reads as not exceeded.\<close>

definition window_script :: "int \<Rightarrow> string \<Rightarrow> int \<Rightarrow> int \<Rightarrow> policy_redis \<Rightarrow> bool \<times> policy_redis" where
  "window_script now key limit window r =
     (let r1 = ZREMRANGEBYSCORE now key (now - window) r in
      if ZCARD now key r1 \<ge> limit then (True, r1)
      else (False, PEXPIRE_zset now key window (ZADD now key now (FormatInt now) r1)))"

definition checkSlidingWindow :: "net \<Rightarrow> int \<Rightarrow> string \<Rightarrow> int \<Rightarrow> int \<Rightarrow> policy_redis \<Rightarrow> bool \<times> policy_redis" where
  "checkSlidingWindow n now key limit window r =
     (case n of Lost \<Rightarrow> (False, r)
      | ReplyLost \<Rightarrow> (False, snd (window_script now key limit window r))
      | Fine \<Rightarrow> window_script now key limit window r)"

subsection \<open>Organisation guardrails\<close>

definition text_of :: "net \<Rightarrow> string option \<Rightarrow> string" where
  "text_of n v = reading n [] (case v of None \<Rightarrow> [] | Some s \<Rightarrow> s)"

definition SetOrgDisabled :: "net \<Rightarrow> string \<Rightarrow> bool \<Rightarrow> policy_redis \<Rightarrow> bool \<times> policy_redis" where
  "SetOrgDisabled n orgID disabled =
     (if disabled then writing n (SET (disabledKey orgID) ''1'') else writing n (DEL (disabledKey orgID)))"

definition SetOrgMonthlyBudget :: "net \<Rightarrow> string \<Rightarrow> int \<Rightarrow> policy_redis \<Rightarrow> bool \<times> policy_redis" where
  "SetOrgMonthlyBudget n orgID limit =
     (if limit \<le> 0 then writing n (DEL (budgetKey orgID)) else writing n (SET (budgetKey orgID) (FormatInt limit)))"

definition SetPoolCapacity :: "net \<Rightarrow> int \<Rightarrow> string \<Rightarrow> bool \<Rightarrow> policy_redis \<Rightarrow> bool \<times> policy_redis" where
  "SetPoolCapacity n now model atCapacity =
     writing n (SET_EX now (poolKey model) (if atCapacity then ''1'' else ''0'') 30)"

definition orgGovernanceCheck :: "network \<Rightarrow> clock \<Rightarrow> InferenceRequest \<Rightarrow> int \<Rightarrow> policy_redis \<Rightarrow> PolicyDecision" where
  "orgGovernanceCheck net c req priority r =
     (let now = c_now c;
          limitStr = text_of (net ''org budget'') (GET now (budgetKey (OrgID req)) r);
          limit = ParseInt limitStr
      in if OrgID req \<noteq> [] \<and> text_of (net ''org disabled'') (GET now (disabledKey (OrgID req)) r) = ''1''
         then reject_with ''org_disabled''
         else if OrgID req \<noteq> [] \<and> limitStr \<noteq> [] \<and> \<not> snd limit \<and> fst limit > 0 \<and>
              reading (net ''org used'') 0 (counter now (usedKey c (OrgID req)) r) \<ge> fst limit
         then reject_with ''org_monthly_budget_exceeded''
         else if text_of (net ''pool'') (GET now (poolKey (Model req)) r) = ''1''
         then queue_with priority ''gpu_capacity_exhausted''
         else allow_decision)"

record GovernanceStatus =
  gs_disabled :: bool
  gs_budget :: int
  gs_used :: int

definition GetOrgGovernanceStatus :: "network \<Rightarrow> clock \<Rightarrow> string \<Rightarrow> policy_redis \<Rightarrow> GovernanceStatus" where
  "GetOrgGovernanceStatus net c orgID r =
     \<lparr>gs_disabled = (text_of (net ''org disabled'') (GET (c_now c) (disabledKey orgID) r) = ''1''),
      gs_budget = Atoi (text_of (net ''org budget'') (GET (c_now c) (budgetKey orgID) r)),
      gs_used = reading (net ''org used'') 0 (counter (c_now c) (usedKey c orgID) r)\<rparr>"

subsection \<open>Evaluate\<close>

definition project_layer ::
    "network \<Rightarrow> clock \<Rightarrow> InferenceRequest \<Rightarrow> int \<Rightarrow> policy_redis \<Rightarrow> PolicyDecision \<times> policy_redis" where
  "project_layer net c req priority r =
     (let now = c_now c; p = ProjectID req; pp = loadProjectPolicy net now p r in
      if MaxContextTokens pp > 0 \<and> EstimatedInputTokens req > MaxContextTokens pp
      then (reject_with ''context_length_exceeded'', r)
      else
        (case (if RPMLimit pp > 0 then checkSlidingWindow (net ''rpm'') now (rpmKey p) (RPMLimit pp) 60000 r else (False, r)) of
           (exceeded, r1) \<Rightarrow>
             if exceeded then (reject_with ''project_rate_limit_exceeded'', r1)
             else if TPMLimit pp > 0 \<and>
                int64 (reading (net ''tpm'') 0 (counter now (tpmKey p) r1) + EstimatedInputTokens req) > TPMLimit pp
             then (reject_with ''project_token_rate_exceeded'', r1)
             else if DailyTokenBudget pp > 0 \<and> reading (net ''daily'') 0 (counter now (dailyKey c p) r1) \<ge> DailyTokenBudget pp
             then (reject_with ''project_daily_budget_exceeded'', r1)
             else if MonthlyTokenBudget pp > 0 \<and> reading (net ''monthly'') 0 (counter now (monthlyKey c p) r1) \<ge> MonthlyTokenBudget pp
             then (reject_with ''project_monthly_budget_exceeded'', r1)
             else if MaxConcurrent pp > 0 \<and> reading (net ''inflight'') 0 (counter now (inflightKey p) r1) \<ge> MaxConcurrent pp
             then (queue_with priority ''project_concurrency_limit_reached'', r1)
             else (orgGovernanceCheck net c req priority r1, r1)))"

definition team_layer ::
    "network \<Rightarrow> clock \<Rightarrow> InferenceRequest \<Rightarrow> int \<Rightarrow> TeamPolicy option \<Rightarrow> policy_redis \<Rightarrow> PolicyDecision \<times> policy_redis" where
  "team_layer net c req priority fallback r =
     (let now = c_now c; t = TeamID req; lv = loadTeamPolicy net now t fallback r in
      if tp_MaxContextTokens lv > 0 \<and> EstimatedInputTokens req > tp_MaxContextTokens lv
      then (reject_with ''context_length_exceeded'', r)
      else
        (case (if tp_RPMLimit lv > 0
               then checkSlidingWindow (net ''rpm'') now (teamRpmKey t) (tp_RPMLimit lv) 60000 r else (False, r)) of
           (exceeded, r1) \<Rightarrow>
             if exceeded then (reject_with ''rate_limit_exceeded'', r1)
             else if tp_TPDLimit lv > 0 \<and> reading (net ''daily'') 0 (counter now (teamDailyKey c t) r1) \<ge> tp_TPDLimit lv
             then (reject_with ''daily_quota_exceeded'', r1)
             else if tp_MaxConcurrent lv > 0 \<and> reading (net ''inflight'') 0 (counter now (teamInflightKey t) r1) \<ge> tp_MaxConcurrent lv
             then (queue_with priority ''concurrency_limit_reached'', r1)
             else (orgGovernanceCheck net c req priority r1, r1)))"

definition Evaluate ::
    "network \<Rightarrow> clock \<Rightarrow> InferenceRequest \<Rightarrow> int \<Rightarrow> TeamPolicy option \<Rightarrow> policy_redis \<Rightarrow> PolicyDecision \<times> policy_redis" where
  "Evaluate net c req priority fallback r =
     (if \<not> modelAllowed net (c_now c) req r then (reject_with ''model_not_allowed'', r)
      else if ProjectID req \<noteq> [] then project_layer net c req priority r
      else team_layer net c req priority fallback r)"

subsection \<open>In-flight and token counters\<close>

definition EXPIRE_counter :: "int \<Rightarrow> string \<Rightarrow> int \<Rightarrow> policy_redis \<Rightarrow> policy_redis" where
  "EXPIRE_counter now key ttl r = EXPIREAT_counter now key (now + ttl) r"

definition incr_inflight :: "nat option \<Rightarrow> int \<Rightarrow> string \<Rightarrow> policy_redis \<Rightarrow> bool \<times> policy_redis" where
  "incr_inflight broken now key = pipe_exec broken [INCRBY now key 1, EXPIRE_counter now key (10 * 60 * 1000)]"

definition clamp_script :: "int \<Rightarrow> string \<Rightarrow> policy_redis \<Rightarrow> policy_redis" where
  "clamp_script now key r =
     (let r1 = INCRBY now key (- 1) r in if counter now key r1 < 0 then SET_KEEPTTL now key 0 r1 else r1)"

definition IncrementProjectInflight :: "nat option \<Rightarrow> int \<Rightarrow> string \<Rightarrow> policy_redis \<Rightarrow> bool \<times> policy_redis" where
  "IncrementProjectInflight broken now projectID r =
     (if projectID = [] then (True, r) else incr_inflight broken now (inflightKey projectID) r)"

definition DecrementProjectInflight :: "net \<Rightarrow> int \<Rightarrow> string \<Rightarrow> policy_redis \<Rightarrow> bool \<times> policy_redis" where
  "DecrementProjectInflight n now projectID r =
     (if projectID = [] then (True, r) else writing n (clamp_script now (inflightKey projectID)) r)"

definition IncrementInflight :: "nat option \<Rightarrow> int \<Rightarrow> string \<Rightarrow> policy_redis \<Rightarrow> bool \<times> policy_redis" where
  "IncrementInflight broken now teamID = incr_inflight broken now (teamInflightKey teamID)"

definition DecrementInflight :: "net \<Rightarrow> int \<Rightarrow> string \<Rightarrow> policy_redis \<Rightarrow> bool \<times> policy_redis" where
  "DecrementInflight n now teamID = writing n (clamp_script now (teamInflightKey teamID))"

definition RecordProjectTokenUsage ::
    "nat option \<Rightarrow> clock \<Rightarrow> string \<Rightarrow> int \<Rightarrow> int \<Rightarrow> policy_redis \<Rightarrow> bool \<times> policy_redis" where
  "RecordProjectTokenUsage broken c projectID inputTokens outputTokens r =
     (if projectID = [] then (True, r)
      else
        (let total = int64 (inputTokens + outputTokens); now = c_now c in
         pipe_exec broken
           [INCRBY now (tpmKey projectID) total, EXPIRE_counter now (tpmKey projectID) (70 * 1000),
            INCRBY now (dailyKey c projectID) total, EXPIRE_counter now (dailyKey c projectID) (48 * 3600 * 1000),
            INCRBY now (monthlyKey c projectID) total, EXPIRE_counter now (monthlyKey c projectID) (33 * 24 * 3600 * 1000)] r))"

definition RecordTokenUsage ::
    "nat option \<Rightarrow> clock \<Rightarrow> string \<Rightarrow> int \<Rightarrow> int \<Rightarrow> policy_redis \<Rightarrow> bool \<times> policy_redis" where
  "RecordTokenUsage broken c teamID inputTokens outputTokens =
     pipe_exec broken
       [INCRBY (c_now c) (teamDailyKey c teamID) (int64 (inputTokens + outputTokens)),
        EXPIRE_counter (c_now c) (teamDailyKey c teamID) (48 * 3600 * 1000)]"

definition RecordOrgTokenUsage ::
    "nat option \<Rightarrow> clock \<Rightarrow> string \<Rightarrow> int \<Rightarrow> int \<Rightarrow> policy_redis \<Rightarrow> bool \<times> policy_redis" where
  "RecordOrgTokenUsage broken c orgID inputTokens outputTokens r =
     (if orgID = [] then (True, r)
      else pipe_exec broken
        [INCRBY (c_now c) (usedKey c orgID) (int64 (inputTokens + outputTokens)),
         EXPIRE_counter (c_now c) (usedKey c orgID) (33 * 24 * 3600 * 1000)] r)"

record QuotaStatus =
  daily_tokens_used :: int
  monthly_tokens_used :: int
  tpm_current :: int
  qs_inflight :: int

definition GetProjectQuotaStatus :: "network \<Rightarrow> clock \<Rightarrow> string \<Rightarrow> policy_redis \<Rightarrow> QuotaStatus" where
  "GetProjectQuotaStatus net c p r =
     \<lparr>daily_tokens_used = reading (net ''daily'') 0 (counter (c_now c) (dailyKey c p) r),
      monthly_tokens_used = reading (net ''monthly'') 0 (counter (c_now c) (monthlyKey c p) r),
      tpm_current = reading (net ''tpm'') 0 (counter (c_now c) (tpmKey p) r),
      qs_inflight = reading (net ''inflight'') 0 (counter (c_now c) (inflightKey p) r)\<rparr>"

end
