(* ===== verification/Policy_Props.thy ===== *)
theory Policy_Props
  imports Policy_Engine
begin

text \<open>
  Correctness of the policy engine: what an allowed request satisfies, that a project can only narrow
  the access of its team, that a stored policy is the one enforced, and two ways in which limits
  and restrictions are not enforced.
\<close>

abbreviation fine :: network where "fine \<equiv> \<lambda>_. Fine"

subsection \<open>Reads and writes\<close>

lemma reading_Fine [simp]: "reading Fine z v = v" "reading Lost z v = z" "reading ReplyLost z v = z"
  by (simp_all add: reading_def)

lemma writing_Fine [simp]: "writing Fine cmd s = (True, cmd s)"
  by (simp add: writing_def)

lemma pipe_exec_None [simp]: "pipe_exec None cmds s = (True, fold (\<lambda>c. c) cmds s)"
  by (simp add: pipe_exec_def)

lemma decision_simps [simp]:
  "Allowed allow_decision" "\<not> Allowed (reject_with s)" "\<not> Allowed (queue_with p s)" "RejectReason (reject_with s) = s"
  by (simp_all add: allow_decision_def reject_with_def queue_with_def)

lemma int64_id: "- (2 ^ 63) \<le> x \<Longrightarrow> x < 2 ^ 63 \<Longrightarrow> int64 x = x"
  by (simp add: int64_def sint_sbintrunc' signed_take_bit_int_eq_self)

lemma map_of_put_field: "map_of (put_field f v fs) = (map_of fs)(f \<mapsto> v)"
  by (induction f v fs rule: put_field.induct) auto

lemma put_field_not_Nil [simp]: "put_field f v fs \<noteq> []"
  by (cases fs) (auto split: if_splits)

lemma window_script_frame:
  "r_cnt (snd (window_script now k l w r)) = r_cnt r" "r_str (snd (window_script now k l w r)) = r_str r"
  "r_set (snd (window_script now k l w r)) = r_set r" "r_hash (snd (window_script now k l w r)) = r_hash r"
  "r_grants (snd (window_script now k l w r)) = r_grants r"
  by (auto simp: window_script_def Let_def ZREMRANGEBYSCORE_def ZADD_def put_zset_def PEXPIRE_zset_def split: option.splits)

lemma window_frame:
  "r_cnt (snd (checkSlidingWindow n now k l w r)) = r_cnt r" "r_str (snd (checkSlidingWindow n now k l w r)) = r_str r"
  "r_set (snd (checkSlidingWindow n now k l w r)) = r_set r" "r_hash (snd (checkSlidingWindow n now k l w r)) = r_hash r"
  "r_grants (snd (checkSlidingWindow n now k l w r)) = r_grants r"
  by (simp_all add: checkSlidingWindow_def window_script_frame split: net.split)

lemma counter_cong: "r_cnt r = r_cnt r' \<Longrightarrow> counter now k r = counter now k r'"
  by (simp add: counter_def)

lemma GET_cong: "r_str r = r_str r' \<Longrightarrow> GET now k r = GET now k r'"
  by (simp add: GET_def)

lemma orgGovernanceCheck_cong:
  "r_cnt r = r_cnt r' \<Longrightarrow> r_str r = r_str r' \<Longrightarrow> orgGovernanceCheck net c req p r = orgGovernanceCheck net c req p r'"
  by (simp add: orgGovernanceCheck_def Let_def counter_def GET_def)

subsection \<open>The contract\<close>

definition recent :: "int \<Rightarrow> string \<Rightarrow> policy_redis \<Rightarrow> int" where
  "recent now key r = int (length (filter (\<lambda>x. snd x > now - 60000) (members now key r)))"

definition acl_ok :: "int \<Rightarrow> InferenceRequest \<Rightarrow> policy_redis \<Rightarrow> bool" where
  "acl_ok now req r \<longleftrightarrow>
     TeamID req \<noteq> [] \<and> Model req \<in> set (r_set r (teamModelsKey (TeamID req))) \<and>
       (GET now (projectModelsConfiguredKey (ProjectID req)) r = None \<or>
        Model req \<in> set (r_set r (projectModelsKey (ProjectID req)))) \<or>
     list_ex (\<lambda>(_, raw). case raw of None \<Rightarrow> False | Some entry \<Rightarrow> isAllowed entry (Model req))
       (hash_of now (r_grants r (vprovidersKey (ProjectID req))))"

definition within_project_limits :: "clock \<Rightarrow> InferenceRequest \<Rightarrow> ProjectPolicy \<Rightarrow> policy_redis \<Rightarrow> bool" where
  "within_project_limits c req pp r \<longleftrightarrow>
     (let now = c_now c; p = ProjectID req in
      (MaxContextTokens pp > 0 \<longrightarrow> EstimatedInputTokens req \<le> MaxContextTokens pp) \<and>
      (RPMLimit pp > 0 \<longrightarrow> recent now (rpmKey p) r < RPMLimit pp) \<and>
      (TPMLimit pp > 0 \<longrightarrow> counter now (tpmKey p) r + EstimatedInputTokens req \<le> TPMLimit pp) \<and>
      (DailyTokenBudget pp > 0 \<longrightarrow> counter now (dailyKey c p) r < DailyTokenBudget pp) \<and>
      (MonthlyTokenBudget pp > 0 \<longrightarrow> counter now (monthlyKey c p) r < MonthlyTokenBudget pp) \<and>
      (MaxConcurrent pp > 0 \<longrightarrow> counter now (inflightKey p) r < MaxConcurrent pp))"

text \<open>The budget an organisation has configured; text that is not a positive number sets none.\<close>

definition org_budget :: "int \<Rightarrow> string \<Rightarrow> policy_redis \<Rightarrow> int option" where
  "org_budget now g r =
     (case GET now (budgetKey g) r of None \<Rightarrow> None
      | Some s \<Rightarrow> if \<not> snd (ParseInt s) \<and> fst (ParseInt s) > 0 then Some (fst (ParseInt s)) else None)"

definition governance_ok :: "clock \<Rightarrow> InferenceRequest \<Rightarrow> policy_redis \<Rightarrow> bool" where
  "governance_ok c req r \<longleftrightarrow>
     (OrgID req \<noteq> [] \<longrightarrow> GET (c_now c) (disabledKey (OrgID req)) r \<noteq> Some ''1'' \<and>
        (\<forall>b. org_budget (c_now c) (OrgID req) r = Some b \<longrightarrow> counter (c_now c) (usedKey c (OrgID req)) r < b)) \<and>
     GET (c_now c) (poolKey (Model req)) r \<noteq> Some ''1''"

lemma text_of_Fine: "text_of Fine v = s \<longleftrightarrow> (case v of None \<Rightarrow> s = [] | Some t \<Rightarrow> s = t)"
  by (auto simp: text_of_def split: option.splits)

lemma modelAllowed_fine: "ProjectID req \<noteq> [] \<Longrightarrow> modelAllowed fine now req r \<longleftrightarrow> acl_ok now req r"
  by (auto simp: modelAllowed_def acl_ok_def isVirtualModelAllowedForProject_def Let_def)

lemma governance_fine: "Allowed (orgGovernanceCheck fine c req p r) \<longleftrightarrow> governance_ok c req r"
proof -
  let ?b = "text_of Fine (GET (c_now c) (budgetKey (OrgID req)) r)"
  have "?b \<noteq> [] \<and> \<not> snd (ParseInt ?b) \<and> fst (ParseInt ?b) > 0 \<and> x \<ge> fst (ParseInt ?b) \<longleftrightarrow>
      \<not> (\<forall>b. org_budget (c_now c) (OrgID req) r = Some b \<longrightarrow> x < b)" for x
    by (auto simp: org_budget_def text_of_def ParseInt_def [of "[]"] split: option.splits if_splits)
  then show ?thesis
    by (auto simp: orgGovernanceCheck_def governance_ok_def Let_def text_of_Fine split: option.splits)
qed

lemma checkSlidingWindow_fine:
  "fst (checkSlidingWindow Fine now key limit 60000 r) \<longleftrightarrow> recent now key r \<ge> limit"
  by (simp add: checkSlidingWindow_def window_script_def Let_def recent_def ZCARD_def members_ZREMRANGE)

lemma rpm_step:
  "fst (if l > 0 then checkSlidingWindow Fine now k l 60000 r else (False, r)) \<longleftrightarrow> l > 0 \<and> recent now k r \<ge> l"
  by (simp add: checkSlidingWindow_fine)

lemma project_layer_fine:
  fixes r :: policy_redis
  assumes "- (2 ^ 63) \<le> counter (c_now c) (tpmKey (ProjectID req)) r + EstimatedInputTokens req"
    and "counter (c_now c) (tpmKey (ProjectID req)) r + EstimatedInputTokens req < 2 ^ 63"
  shows "Allowed (fst (project_layer fine c req p r)) \<longleftrightarrow>
    within_project_limits c req (loadProjectPolicy fine (c_now c) (ProjectID req) r) r \<and> governance_ok c req r"
proof -
  let ?pp = "loadProjectPolicy fine (c_now c) (ProjectID req) r"
  define w where "w = (if RPMLimit ?pp > 0
    then checkSlidingWindow Fine (c_now c) (rpmKey (ProjectID req)) (RPMLimit ?pp) 60000 r else (False, r))"
  have "r_cnt (snd w) = r_cnt r" "r_str (snd w) = r_str r" unfolding w_def by (simp_all add: window_frame)
  note same = counter_cong [OF this(1)] orgGovernanceCheck_cong [OF this]
  have "fst w \<longleftrightarrow> RPMLimit ?pp > 0 \<and> recent (c_now c) (rpmKey (ProjectID req)) r \<ge> RPMLimit ?pp"
    unfolding w_def by (rule rpm_step)
  then show ?thesis
    using int64_id [OF assms] unfolding project_layer_def Let_def w_def [symmetric] case_prod_unfold within_project_limits_def
    by (simp add: same governance_fine not_le not_less)
qed

lemma project_layer_writes:
  "snd (project_layer net c req p r) =
    (let pp = loadProjectPolicy net (c_now c) (ProjectID req) r in
     if MaxContextTokens pp > 0 \<and> EstimatedInputTokens req > MaxContextTokens pp \<or> \<not> RPMLimit pp > 0 then r
     else snd (checkSlidingWindow (net ''rpm'') (c_now c) (rpmKey (ProjectID req)) (RPMLimit pp) 60000 r))"
proof -
  let ?pp = "loadProjectPolicy net (c_now c) (ProjectID req) r"
  define w where "w = (if RPMLimit ?pp > 0
    then checkSlidingWindow (net ''rpm'') (c_now c) (rpmKey (ProjectID req)) (RPMLimit ?pp) 60000 r else (False, r))"
  have "snd (project_layer net c req p r) =
      (if MaxContextTokens ?pp > 0 \<and> EstimatedInputTokens req > MaxContextTokens ?pp then r else snd w)"
    unfolding project_layer_def Let_def w_def [symmetric] case_prod_unfold by (simp only: if_distrib [of snd] snd_conv if_cancel)
  then show ?thesis unfolding w_def Let_def by simp
qed

text \<open>
  The request window after a request: entries older than a minute are gone, and a request that finds room for
  itself is recorded at the current millisecond and renews the expiry. The window is consulted after the model ACL
  and the context limit, and only if the project has a request limit.
\<close>

definition window_consulted :: "clock \<Rightarrow> InferenceRequest \<Rightarrow> ProjectPolicy \<Rightarrow> policy_redis \<Rightarrow> bool" where
  "window_consulted c req pp r \<longleftrightarrow> acl_ok (c_now c) req r \<and>
     (MaxContextTokens pp > 0 \<longrightarrow> EstimatedInputTokens req \<le> MaxContextTokens pp) \<and> RPMLimit pp > 0"

definition last_minute :: "int \<Rightarrow> string \<Rightarrow> policy_redis \<Rightarrow> zset" where
  "last_minute now key r = filter (\<lambda>x. snd x > now - 60000) (members now key r)"

lemma recent_last_minute: "recent now key r = int (length (last_minute now key r))"
  by (simp add: recent_def last_minute_def)

lemma window_other_keys: "k \<noteq> key \<Longrightarrow> r_zset (snd (window_script now key l w r)) k = r_zset r k"
  by (auto simp: window_script_def Let_def ZREMRANGEBYSCORE_def ZADD_def put_zset_def PEXPIRE_zset_def split: option.splits)

lemma window_full:
  assumes "recent now key r \<ge> l" shows "members now key (snd (window_script now key l 60000 r)) = last_minute now key r"
  using assms by (simp add: window_script_def Let_def recent_def ZCARD_def members_ZREMRANGE last_minute_def)

lemma window_room:
  assumes "recent now key r < l"
  shows "r_zset (snd (window_script now key l 60000 r)) key =
    Some ((FormatInt now, now) # filter (\<lambda>x. fst x \<noteq> FormatInt now) (last_minute now key r), Some (now + 60000))"
proof -
  let ?r1 = "ZREMRANGEBYSCORE now key (now - 60000) r"
  let ?r2 = "ZADD now key now (FormatInt now) ?r1"
  let ?z = "(FormatInt now, now) # filter (\<lambda>x. fst x \<noteq> FormatInt now) (last_minute now key r)"
  have m: "members now key ?r2 = ?z" by (simp add: members_ZADD members_ZREMRANGE last_minute_def del: filter_filter)
  obtain e where e: "live now (r_zset ?r2 key) = Some (?z, e)"
  proof (cases "live now (r_zset ?r2 key)")
    case (Some ze)
    then show ?thesis using m that by (cases ze) (simp add: members_def)
  qed (use m in \<open>simp add: members_def\<close>)
  have "ZCARD now key ?r1 = recent now key r" by (simp add: ZCARD_def recent_def members_ZREMRANGE)
  then have "snd (window_script now key l 60000 r) = PEXPIRE_zset now key 60000 ?r2"
    using assms by (simp only: window_script_def Let_def not_le [symmetric] if_False snd_conv)
  then show ?thesis by (simp only: PEXPIRE_zset_def e option.case prod.case) simp
qed

text \<open>
  C25: with every call to Redis answered, a project request is allowed exactly when its contract holds: the team
  is granted the model and the project, once it has any model grant, is granted it too, or a provider
  grant of the project covers it; every configured limit of the project holds with this request
  counted; and the organisation is enabled, below its budget and has capacity for the model.
  Evaluation writes nothing but the request window of the project, and that exactly as a sliding window of one
  minute: when it is consulted and has room the request is recorded in it, whatever the later checks
  decide; when it is full only old entries go; and otherwise Redis is unchanged.
\<close>

theorem evaluate_allows_iff:
  assumes "ProjectID req \<noteq> []"
    and "- (2 ^ 63) \<le> counter (c_now c) (tpmKey (ProjectID req)) r + EstimatedInputTokens req"
    and "counter (c_now c) (tpmKey (ProjectID req)) r + EstimatedInputTokens req < 2 ^ 63"
    and "pp = loadProjectPolicy fine (c_now c) (ProjectID req) r" and "key = rpmKey (ProjectID req)"
    and "r' = snd (Evaluate fine c req prio fb r)"
  shows "(Allowed (fst (Evaluate fine c req prio fb r)) \<longleftrightarrow>
      acl_ok (c_now c) req r \<and> within_project_limits c req pp r \<and> governance_ok c req r) \<and>
    r_cnt r' = r_cnt r \<and> r_str r' = r_str r \<and> r_set r' = r_set r \<and> r_hash r' = r_hash r \<and> r_grants r' = r_grants r \<and>
    (\<forall>k. k \<noteq> key \<longrightarrow> r_zset r' k = r_zset r k) \<and>
    (if \<not> window_consulted c req pp r then r' = r
     else if recent (c_now c) key r \<ge> RPMLimit pp then members (c_now c) key r' = last_minute (c_now c) key r
     else r_zset r' key = Some ((FormatInt (c_now c), c_now c) #
       filter (\<lambda>x. fst x \<noteq> FormatInt (c_now c)) (last_minute (c_now c) key r), Some (c_now c + 60000)))"
proof -
  let ?w = "snd (window_script (c_now c) key (RPMLimit pp) 60000 r)"
  have ev: "Evaluate fine c req prio fb r =
      (if acl_ok (c_now c) req r then project_layer fine c req prio r else (reject_with ''model_not_allowed'', r))"
    using assms(1) by (simp add: Evaluate_def modelAllowed_fine)
  have pl: "snd (project_layer fine c req prio r) =
      (if (MaxContextTokens pp > 0 \<longrightarrow> EstimatedInputTokens req \<le> MaxContextTokens pp) \<and> RPMLimit pp > 0 then ?w else r)"
    unfolding project_layer_writes assms(4) [symmetric] assms(5) [symmetric] checkSlidingWindow_def net.case by (simp add: not_less)
  have r': "r' = (if window_consulted c req pp r then ?w else r)"
    unfolding assms(6) ev window_consulted_def by (cases "acl_ok (c_now c) req r") (simp_all add: pl)
  have A: "Allowed (fst (Evaluate fine c req prio fb r)) \<longleftrightarrow>
      acl_ok (c_now c) req r \<and> within_project_limits c req pp r \<and> governance_ok c req r"
    using project_layer_fine [OF assms(2,3)] unfolding ev assms(4) by simp
  have B: "r_cnt r' = r_cnt r" "r_str r' = r_str r" "r_set r' = r_set r" "r_hash r' = r_hash r" "r_grants r' = r_grants r"
    unfolding r' by (simp_all add: window_script_frame)
  have C: "\<forall>k. k \<noteq> key \<longrightarrow> r_zset r' k = r_zset r k" unfolding r' by (simp add: window_other_keys)
  have D: "if \<not> window_consulted c req pp r then r' = r
     else if recent (c_now c) key r \<ge> RPMLimit pp then members (c_now c) key r' = last_minute (c_now c) key r
     else r_zset r' key = Some ((FormatInt (c_now c), c_now c) #
       filter (\<lambda>x. fst x \<noteq> FormatInt (c_now c)) (last_minute (c_now c) key r), Some (c_now c + 60000))"
  proof (cases "window_consulted c req pp r")
    case True
    then have w: "r' = ?w" unfolding r' by simp
    show ?thesis
    proof (cases "recent (c_now c) key r \<ge> RPMLimit pp")
      case full: True
      then show ?thesis unfolding w using window_full [OF full] True by simp
    next
      case room: False
      then have "recent (c_now c) key r < RPMLimit pp" by simp
      from window_room [OF this] show ?thesis unfolding w using True room by (simp only: if_False not_True_eq_False)
    qed
  next
    case False
    then show ?thesis unfolding r' by simp
  qed
  show ?thesis by (intro conjI A B C D)
qed

text \<open>
  A project only narrows its team's access. Whatever Redis calls fail, a project request let
  through by the model ACL is covered by a provider grant of the project, or the same team's key
  without a project would be let through too.
\<close>

theorem project_only_narrows:
  assumes "modelAllowed net now req r" and "\<not> isVirtualModelAllowedForProject net now (ProjectID req) (Model req) r"
  shows "modelAllowed net now (req\<lparr>ProjectID := []\<rparr>) r"
  using assms by (auto simp: modelAllowed_def Let_def split: if_splits)

lemma hash_expiry_live: "hash_expiry now h = Some e \<Longrightarrow> now < e"
  by (auto simp: hash_expiry_def live_def split: option.splits if_splits)

lemma HSET_EXPIRE:
  assumes "now' < now + ttl" and "now < now + ttl"
  shows "hash_of now' (r_hash (EXPIRE_hash now key ttl (HSET now key fvs r)) key) =
     fold (\<lambda>(f, v). put_field f v) fvs (hash_of now (r_hash r key))"
  using assms hash_expiry_live [of now "r_hash r key"]
  by (auto simp: EXPIRE_hash_def HSET_def hash_of_def live_Some_iff split: option.splits)

lemma positive_field_FormatInt:
  "map_of fs f = Some (FormatInt x) \<Longrightarrow> - (2 ^ 63) \<le> x \<Longrightarrow> x < 2 ^ 63 \<Longrightarrow> positive_field fs f = max 0 x"
  by (simp add: positive_field_def Let_def Atoi_FormatInt)

text \<open>
  A policy stored for a project is the policy enforced for the next 48 hours, with negative
  limits read as no limit.
\<close>

theorem set_load_policy_roundtrip:
  assumes "\<forall>x \<in> {RPMLimit pp, TPMLimit pp, MaxConcurrent pp, MaxContextTokens pp, DailyTokenBudget pp, MonthlyTokenBudget pp}.
      - (2 ^ 63) \<le> x \<and> x < 2 ^ 63"
    and "now \<le> now'" and "now' < now + 48 * 3600 * 1000"
  shows "loadProjectPolicy fine now' p (snd (SetProjectPolicy None now p pp r)) =
    \<lparr>RPMLimit = max 0 (RPMLimit pp), TPMLimit = max 0 (TPMLimit pp), MaxConcurrent = max 0 (MaxConcurrent pp),
     MaxContextTokens = max 0 (MaxContextTokens pp), DailyTokenBudget = max 0 (DailyTokenBudget pp),
     MonthlyTokenBudget = max 0 (MonthlyTokenBudget pp)\<rparr>"
proof -
  have "now' < now + 172800000" using assms(3) by simp
  then show ?thesis
    using assms(1) by (simp add: SetProjectPolicy_def loadProjectPolicy_def Let_def HSET_EXPIRE map_of_put_field
        positive_field_FormatInt [of _ _ "RPMLimit pp"] positive_field_FormatInt [of _ _ "TPMLimit pp"]
        positive_field_FormatInt [of _ _ "MaxConcurrent pp"] positive_field_FormatInt [of _ _ "MaxContextTokens pp"]
        positive_field_FormatInt [of _ _ "DailyTokenBudget pp"] positive_field_FormatInt [of _ _ "MonthlyTokenBudget pp"])
qed

subsection \<open>Where limits and restrictions do not hold\<close>

text \<open>
  A project's model restriction fails open. When the one call that asks whether the project has
  been configured is lost, the error is dropped and the request is checked against the team's grant
  only, even for a project whose explicit grants exclude the model.
\<close>

theorem restriction_fails_open:
  assumes "TeamID req \<noteq> []" and "Model req \<in> set (r_set r (teamModelsKey (TeamID req)))" and "ProjectID req \<noteq> []"
    and "GET now (projectModelsConfiguredKey (ProjectID req)) r = Some ''1''"
    and "Model req \<notin> set (r_set r (projectModelsKey (ProjectID req)))"
    and "\<not> isVirtualModelAllowedForProject fine now (ProjectID req) (Model req) r"
  shows "\<not> modelAllowed fine now req r \<and> modelAllowed (fine(''configured'' := Lost)) now req r"
  using assms by (simp add: modelAllowed_def Let_def)

fun window_calls :: "nat \<Rightarrow> int \<Rightarrow> string \<Rightarrow> int \<Rightarrow> policy_redis \<Rightarrow> bool list" where
  "window_calls 0 now key limit r = []"
| "window_calls (Suc n) now key limit r =
     (case checkSlidingWindow Fine now key limit 60000 r of (b, r1) \<Rightarrow> b # window_calls n now key limit r1)"

definition others :: "int \<Rightarrow> string \<Rightarrow> policy_redis \<Rightarrow> int" where
  "others now key r = int (length (filter (\<lambda>x. snd x > now - 60000 \<and> fst x \<noteq> FormatInt now) (members now key r)))"

lemma others_le_recent: "others now key r \<le> recent now key r"
  unfolding others_def recent_def by (simp add: length_filter_conv_card) (rule card_mono, auto)

lemma window_call_members:
  assumes "recent now key r < limit"
  shows "fst (checkSlidingWindow Fine now key limit 60000 r) = False"
    and "members now key (snd (checkSlidingWindow Fine now key limit 60000 r)) =
      (FormatInt now, now) # filter (\<lambda>x. fst x \<noteq> FormatInt now) (filter (\<lambda>x. snd x > now - 60000) (members now key r))"
  using assms
  by (simp_all add: checkSlidingWindow_def window_script_def Let_def recent_def ZCARD_def members_ZREMRANGE
      members_PEXPIRE members_ZADD del: filter_filter)

lemma window_call_counts:
  assumes "recent now key r < limit"
  defines "r1 \<equiv> snd (checkSlidingWindow Fine now key limit 60000 r)"
  shows "others now key r1 = others now key r" and "recent now key r1 = others now key r + 1"
  unfolding r1_def others_def recent_def window_call_members(2) [OF assms(1)] by (simp_all add: conj_ac cong: conj_cong)

text \<open>
  Requests in one millisecond are counted once. The window stores the current millisecond as
  the member of each request, so as soon as the window has two free places any number of requests
  with the same timestamp pass the limit.
\<close>

theorem burst_within_millisecond_unlimited:
  assumes "recent now key r + 1 < limit"
  shows "window_calls n now key limit r = replicate n False"
proof -
  have "window_calls n now key limit r = replicate n False"
    if "recent now key r < limit" "others now key r + 1 < limit" for r
    using that
  proof (induction n arbitrary: r)
    case (Suc n)
    let ?w = "checkSlidingWindow Fine now key limit 60000 r"
    have "window_calls n now key limit (snd ?w) = replicate n False"
      using Suc.prems window_call_counts [OF Suc.prems(1)] by (intro Suc.IH) simp_all
    then show ?case using window_call_members(1) [OF Suc.prems(1)] by (simp add: case_prod_unfold)
  qed simp
  then show ?thesis using assms others_le_recent [of now key r] by simp
qed

text \<open>The window never lets more than \<open>limit\<close> distinct timestamps in.\<close>

lemma window_bounded:
  assumes "recent now key r \<le> limit" and "0 < limit"
  shows "recent now key (snd (checkSlidingWindow Fine now key limit 60000 r)) \<le> limit"
proof (cases "recent now key r < limit")
  case True
  then show ?thesis using window_call_counts [OF True] others_le_recent [of now key r] by simp
next
  case False
  then show ?thesis using assms
    by (simp add: checkSlidingWindow_def window_script_def Let_def recent_def ZCARD_def members_ZREMRANGE)
qed

text \<open>In-flight counters never go below zero, whatever the order of starts and ends and whenever they expire.\<close>

datatype inflight_event = Start (ev_at: int) (ev_broken: "nat option") | Finish (ev_at: int) (ev_net: net)

fun inflight_run :: "string \<Rightarrow> inflight_event list \<Rightarrow> policy_redis \<Rightarrow> policy_redis" where
  "inflight_run p [] r = r"
| "inflight_run p (Start now b # es) r = inflight_run p es (snd (IncrementProjectInflight b now p r))"
| "inflight_run p (Finish now n # es) r = inflight_run p es (snd (DecrementProjectInflight n now p r))"

definition stored_nonneg :: "string \<Rightarrow> policy_redis \<Rightarrow> bool" where
  "stored_nonneg key r \<longleftrightarrow> (case r_cnt r key of None \<Rightarrow> True | Some (v, _) \<Rightarrow> 0 \<le> v)"

lemma stored_nonneg_steps:
  "stored_nonneg key r \<Longrightarrow> 0 \<le> n \<Longrightarrow> stored_nonneg key (INCRBY now key n r)"
  "stored_nonneg key r \<Longrightarrow> stored_nonneg key (EXPIRE_counter now key ttl r)"
  "stored_nonneg key r \<Longrightarrow> stored_nonneg key (clamp_script now key r)"
  by (auto simp: stored_nonneg_def INCRBY_def EXPIRE_counter_def EXPIREAT_counter_def clamp_script_def Let_def
      SET_KEEPTTL_def counter_def live_def split: option.splits if_splits)

lemma incr_nonneg: "stored_nonneg key r \<Longrightarrow> stored_nonneg key (snd (incr_inflight b now key r))"
proof (cases b)
  case (Some k)
  assume "stored_nonneg key r"
  then show ?thesis
    by (cases k; cases "k - 1") (auto simp: incr_inflight_def pipe_exec_def Some stored_nonneg_steps take_Cons')
qed (simp add: incr_inflight_def stored_nonneg_steps)

lemma inflight_nonneg: "stored_nonneg (inflightKey p) r \<Longrightarrow> 0 \<le> counter now (inflightKey p) (inflight_run p es r)"
proof (induction p es r rule: inflight_run.induct)
  case (1 p r)
  then show ?case by (auto simp: counter_def stored_nonneg_def live_def split: option.splits)
qed (auto simp: IncrementProjectInflight_def DecrementProjectInflight_def writing_def incr_nonneg stored_nonneg_steps)

subsection \<open>Witnesses\<close>

definition demo_policy_redis :: policy_redis where
  "demo_policy_redis =
     \<lparr>r_cnt = Map.empty, r_str = Map.empty(projectModelsConfiguredKey ''p'' \<mapsto> (''1'', None)), r_zset = Map.empty,
      r_set = (\<lambda>_. [])(teamModelsKey ''t'' := [''m'', ''k''], projectModelsKey ''p'' := [''k'']),
      r_hash = Map.empty, r_grants = Map.empty\<rparr>"

definition demo_clock :: clock where
  "demo_clock = \<lparr>c_now = 1000000, c_today = ''2025-01-02'', c_month = ''2025-01''\<rparr>"

definition demo_req :: "string \<Rightarrow> InferenceRequest" where
  "demo_req m = \<lparr>Model = m, EstimatedInputTokens = 12, OrgID = ''g'', TeamID = ''t'', ProjectID = ''p''\<rparr>"

definition demo_policy :: ProjectPolicy where
  "demo_policy =
     \<lparr>RPMLimit = 60, TPMLimit = 0, MaxConcurrent = 4, MaxContextTokens = 8192, DailyTokenBudget = 100000, MonthlyTokenBudget = - 1\<rparr>"

lemmas demo_simps = demo_policy_redis_def demo_clock_def demo_req_def teamModelsKey_def projectModelsKey_def
  projectModelsConfiguredKey_def teamModelsPrefix_def projectPrefix_def GET_def live_def

lemma demo_spec:
  "acl_ok 1000000 (demo_req ''k'') demo_policy_redis"
  "within_project_limits demo_clock (demo_req ''k'') (loadProjectPolicy fine (c_now demo_clock) ''p'' demo_policy_redis) demo_policy_redis"
  "governance_ok demo_clock (demo_req ''k'') demo_policy_redis"
  by (simp_all add: acl_ok_def within_project_limits_def loadProjectPolicy_def positive_field_def hash_of_def governance_ok_def
      org_budget_def disabledKey_def budgetKey_def poolKey_def poolPrefix_def orgPrefix_def demo_simps)

definition limited_redis :: policy_redis where
  "limited_redis = snd (SetProjectPolicy None 1000000 ''p'' demo_policy demo_policy_redis)"

lemma limited:
  "window_consulted demo_clock (demo_req ''k'') (demo_policy\<lparr>MonthlyTokenBudget := 0\<rparr>) limited_redis"
  "r_cnt limited_redis = Map.empty" "r_zset limited_redis = Map.empty"
proof -
  have f: "r_set limited_redis = r_set demo_policy_redis" "r_str limited_redis = r_str demo_policy_redis"
    "r_grants limited_redis = r_grants demo_policy_redis" "r_cnt limited_redis = r_cnt demo_policy_redis"
    "r_zset limited_redis = r_zset demo_policy_redis"
    by (simp_all add: limited_redis_def SetProjectPolicy_def HSET_def EXPIRE_hash_def Let_def)
  have "acl_ok 1000000 (demo_req ''k'') limited_redis"
    using demo_spec(1) unfolding acl_ok_def GET_def f .
  then show "window_consulted demo_clock (demo_req ''k'') (demo_policy\<lparr>MonthlyTokenBudget := 0\<rparr>) limited_redis"
    by (simp add: window_consulted_def demo_clock_def demo_req_def demo_policy_def)
  show "r_cnt limited_redis = Map.empty" "r_zset limited_redis = Map.empty" by (simp_all add: f demo_policy_redis_def)
qed

theorem evaluate_allows_iff_witness:
  "Allowed (fst (Evaluate fine demo_clock (demo_req ''k'') 5 None demo_policy_redis)) \<and>
   r_zset (snd (Evaluate fine demo_clock (demo_req ''k'') 5 None limited_redis)) (rpmKey ''p'')
     = Some ([(FormatInt 1000000, 1000000)], Some 1060000)"
proof
  show "Allowed (fst (Evaluate fine demo_clock (demo_req ''k'') 5 None demo_policy_redis))"
    using evaluate_allows_iff [OF _ _ _ refl refl refl, of "demo_req ''k''" demo_clock demo_policy_redis 5 None] demo_spec
    by (simp add: demo_clock_def demo_req_def demo_policy_redis_def counter_def)
  have lp: "loadProjectPolicy fine (c_now demo_clock) (ProjectID (demo_req ''k'')) limited_redis = demo_policy\<lparr>MonthlyTokenBudget := 0\<rparr>"
    using set_load_policy_roundtrip [of demo_policy 1000000 1000000 "''p''" demo_policy_redis]
    by (simp add: limited_redis_def demo_clock_def demo_req_def demo_policy_def)
  show "r_zset (snd (Evaluate fine demo_clock (demo_req ''k'') 5 None limited_redis)) (rpmKey ''p'')
     = Some ([(FormatInt 1000000, 1000000)], Some 1060000)"
    using evaluate_allows_iff [OF _ _ _ lp [symmetric] refl refl, of 5 None] limited
    by (simp add: demo_clock_def demo_req_def demo_policy_def counter_def recent_def last_minute_def members_def)
qed

theorem project_only_narrows_witness:
  "modelAllowed fine 1000000 ((demo_req ''k'')\<lparr>ProjectID := []\<rparr>) demo_policy_redis"
  by (rule project_only_narrows)
    (simp_all add: modelAllowed_def isVirtualModelAllowedForProject_def hash_of_def Let_def demo_simps)

theorem set_load_policy_roundtrip_witness:
  "RPMLimit (loadProjectPolicy fine 2000000 ''p'' (snd (SetProjectPolicy None 1000000 ''p'' demo_policy demo_policy_redis))) = 60 \<and>
   MonthlyTokenBudget (loadProjectPolicy fine 2000000 ''p'' (snd (SetProjectPolicy None 1000000 ''p'' demo_policy demo_policy_redis))) = 0"
  using set_load_policy_roundtrip [of demo_policy 1000000 2000000 "''p''" demo_policy_redis] by (simp add: demo_policy_def)

theorem restriction_fails_open_witness:
  "\<not> modelAllowed fine 1000000 (demo_req ''m'') demo_policy_redis \<and>
   modelAllowed (fine(''configured'' := Lost)) 1000000 (demo_req ''m'') demo_policy_redis"
  by (rule restriction_fails_open)
    (simp_all add: isVirtualModelAllowedForProject_def hash_of_def Let_def demo_simps)

theorem burst_within_millisecond_unlimited_witness:
  "window_calls 1000 1000000 (rpmKey ''p'') 2 demo_policy_redis = replicate 1000 False"
  by (rule burst_within_millisecond_unlimited) (simp add: recent_def members_def demo_policy_redis_def)

end
