(* ===== verification/Access_Control.thy ===== *)
theory Access_Control
  imports Policy_Props "HOL-Library.List_Lexorder" "HOL-Library.Char_ord" "HOL-Library.Product_Lexorder"
begin

text \<open>
  Who may call which model: the permission tables in PostgreSQL, the admin handlers that change them
  (\<open>internal/admin/handlers/team.go\<close>, \<open>project_models.go\<close>, \<open>catalog.go\<close>), the copies in Redis that
  the policy engine enforces, the seeding of those copies by the gateway (\<open>cmd/gateway/main.go\<close>) and
  the reconciliation sweep (\<open>handlers/reconcile.go\<close>) that repairs them.

  A handler returns the HTTP status with the new database and Redis states. Statements that fail are
  chosen by \<open>flt\<close>, Redis calls by \<open>net\<close>. A map that the code iterates over is a list here; each of its
  keys is handled on its own, so the order does not matter.
\<close>

subsection \<open>Tables\<close>

record model_row =
  md_id :: id
  md_name :: string
  md_enabled :: bool
  md_lifecycle :: "string option"
  md_created :: int

record provider_row =
  pv_id :: id
  pv_name :: string
  pv_enabled :: bool
  pv_mode :: "string option"
  pv_prefix :: string

record acl_key_row =
  ak_hash :: string
  ak_team :: id
  ak_project :: "id option"
  ak_active :: bool

record perm_db =
  models :: "model_row list"
  teams :: "(id \<times> id) list"
  team_model_permissions :: "(id \<times> id) list"
  project_model_permissions :: "(id \<times> id) list"
  model_permission_scopes :: "(string \<times> id) list"
  providers :: "provider_row list"
  project_provider_access :: "ProjectProviderAccess list"
  provider_credentials :: "(id \<times> id) list"
  project_policies :: "(id \<times> ProjectPolicy) list"
  api_keys :: "acl_key_row list"

definition not_deleted :: "model_row \<Rightarrow> bool" where
  "not_deleted m \<longleftrightarrow> (case md_lifecycle m of None \<Rightarrow> ''active'' | Some l \<Rightarrow> l) \<noteq> ''deleted''"

text \<open>\<open>ORDER BY created_at DESC LIMIT 1\<close>.\<close>

definition newest :: "(model_row \<Rightarrow> bool) \<Rightarrow> perm_db \<Rightarrow> id option" where
  "newest P db =
     (case sort_key (\<lambda>m. - md_created m) (filter P (models db)) of [] \<Rightarrow> None | m # _ \<Rightarrow> Some (md_id m))"

definition active_model :: "string \<Rightarrow> perm_db \<Rightarrow> id option" where
  "active_model name = newest (\<lambda>m. md_name m = name \<and> md_enabled m \<and> not_deleted m)"

definition any_model :: "string \<Rightarrow> perm_db \<Rightarrow> id option" where
  "any_model name = newest (\<lambda>m. md_name m = name)"

definition insert_once :: "'a \<Rightarrow> 'a list \<Rightarrow> 'a list" where
  "insert_once x xs = (if x \<in> set xs then xs else xs @ [x])"

definition markModelPermissionScopeConfigured :: "faults \<Rightarrow> string \<Rightarrow> id \<Rightarrow> perm_db \<Rightarrow> perm_db" where
  "markModelPermissionScopeConfigured flt scopeType scopeID db =
     (if flt ''scope'' then db
      else db\<lparr>model_permission_scopes := insert_once (scopeType, scopeID) (model_permission_scopes db)\<rparr>)"

type_synonym outcome = "int \<times> perm_db \<times> policy_redis"

subsection \<open>Grants and revocations of a team\<close>

definition bust_keys :: "network \<Rightarrow> string list \<Rightarrow> policy_redis \<Rightarrow> policy_redis" where
  "bust_keys net hashes r = fold (\<lambda>h r. snd (writing (net (''del '' @ h)) (DEL (''nexus:apikey:'' @ h)) r)) hashes r"

definition grants_in_org :: "id \<Rightarrow> string \<Rightarrow> perm_db \<Rightarrow> nat" where
  "grants_in_org orgID name db =
     length (filter (\<lambda>(t, m). map_of (teams db) t = Some orgID \<and>
       list_ex (\<lambda>x. md_id x = m \<and> md_name x = name) (models db)) (team_model_permissions db))"

definition syncPermissionChanges ::
    "faults \<Rightarrow> network \<Rightarrow> id \<Rightarrow> string \<Rightarrow> bool \<Rightarrow> perm_db \<Rightarrow> policy_redis \<Rightarrow> policy_redis" where
  "syncPermissionChanges flt net teamID name isAdd db r =
     (let orgID = (if flt ''org'' then [] else case map_of (teams db) teamID of None \<Rightarrow> [] | Some g \<Rightarrow> g);
          r1 = (if orgID = [] then r
                else if isAdd then snd (SetOrgModelAllowed (net ''org sadd'') orgID name r)
                else (let count = (if flt ''count'' then 0 else grants_in_org orgID name db) in
                      if count = 0 then snd (RemoveOrgModelAllowed (net ''org srem'') orgID name r) else r));
          hashes = (if flt ''keys'' then [] else map ak_hash (filter (\<lambda>k. ak_team k = teamID \<and> ak_active k) (api_keys db)))
      in bust_keys net hashes r1)"

definition team_model_lookup :: "faults \<Rightarrow> string \<Rightarrow> perm_db \<Rightarrow> id option" where
  "team_model_lookup flt name db =
     (case (if flt ''model'' then None else active_model name db) of
        Some m \<Rightarrow> Some m
      | None \<Rightarrow> if flt ''model fallback'' then None else any_model name db)"

definition AddModelPermission :: "faults \<Rightarrow> network \<Rightarrow> id \<Rightarrow> string \<Rightarrow> perm_db \<times> policy_redis \<Rightarrow> outcome" where
  "AddModelPermission flt net teamID name = (\<lambda>(db, r).
     case team_model_lookup flt name db of
       None \<Rightarrow> (404, db, r)
     | Some modelID \<Rightarrow>
         if flt ''insert'' then (500, db, r)
         else
           (let db1 = db\<lparr>team_model_permissions := insert_once (teamID, modelID) (team_model_permissions db)\<rparr>;
                db2 = markModelPermissionScopeConfigured flt ''team'' teamID db1
            in case SetModelAllowed (net ''team sadd'') teamID name r of
                 (False, r1) \<Rightarrow> (500, db2, r1)
               | (True, r1) \<Rightarrow> (200, db2, syncPermissionChanges flt net teamID name True db2 r1)))"

definition RemoveModelPermission :: "faults \<Rightarrow> network \<Rightarrow> id \<Rightarrow> string \<Rightarrow> perm_db \<times> policy_redis \<Rightarrow> outcome" where
  "RemoveModelPermission flt net teamID name = (\<lambda>(db, r).
     case team_model_lookup flt name db of
       None \<Rightarrow> (404, db, r)
     | Some modelID \<Rightarrow>
         if flt ''delete'' then (500, db, r)
         else
           (let db1 = db\<lparr>team_model_permissions := removeAll (teamID, modelID) (team_model_permissions db)\<rparr>;
                db2 = markModelPermissionScopeConfigured flt ''team'' teamID db1
            in case RemoveModelAllowed (net ''team srem'') teamID name r of
                 (False, r1) \<Rightarrow> (500, db2, r1)
               | (True, r1) \<Rightarrow> (200, db2, syncPermissionChanges flt net teamID name False db2 r1)))"

subsection \<open>Grants and revocations of a project\<close>

definition syncProjectPermissionChange :: "faults \<Rightarrow> network \<Rightarrow> id \<Rightarrow> perm_db \<Rightarrow> policy_redis \<Rightarrow> policy_redis" where
  "syncProjectPermissionChange flt net projectID db r =
     bust_keys net (if flt ''keys'' then []
       else map ak_hash (filter (\<lambda>k. ak_project k = Some projectID \<and> ak_active k) (api_keys db))) r"

definition AddProjectModelPermission ::
    "faults \<Rightarrow> network \<Rightarrow> nat option \<Rightarrow> id \<Rightarrow> string \<Rightarrow> perm_db \<times> policy_redis \<Rightarrow> outcome" where
  "AddProjectModelPermission flt net broken projectID name = (\<lambda>(db, r).
     case (if flt ''model'' then None else active_model name db) of
       None \<Rightarrow> (404, db, r)
     | Some modelID \<Rightarrow>
         if flt ''insert'' then (500, db, r)
         else
           (let db1 = db\<lparr>project_model_permissions := insert_once (projectID, modelID) (project_model_permissions db)\<rparr>;
                db2 = markModelPermissionScopeConfigured flt ''project'' projectID db1
            in case SetProjectModelAllowed broken projectID name r of
                 (False, r1) \<Rightarrow> (500, db2, r1)
               | (True, r1) \<Rightarrow> (200, db2, syncProjectPermissionChange flt net projectID db2 r1)))"

definition RemoveProjectModelPermission ::
    "faults \<Rightarrow> network \<Rightarrow> nat option \<Rightarrow> id \<Rightarrow> string \<Rightarrow> perm_db \<times> policy_redis \<Rightarrow> outcome" where
  "RemoveProjectModelPermission flt net broken projectID name = (\<lambda>(db, r).
     case (if flt ''model'' then None else active_model name db) of
       None \<Rightarrow> (404, db, r)
     | Some modelID \<Rightarrow>
         if flt ''delete'' then (500, db, r)
         else
           (let db1 = db\<lparr>project_model_permissions := removeAll (projectID, modelID) (project_model_permissions db)\<rparr>;
                db2 = markModelPermissionScopeConfigured flt ''project'' projectID db1
            in case RemoveProjectModelAllowed broken projectID name r of
                 (False, r1) \<Rightarrow> (500, db2, r1)
               | (True, r1) \<Rightarrow> (200, db2, syncProjectPermissionChange flt net projectID db2 r1)))"

definition ListProjectModels :: "faults \<Rightarrow> network \<Rightarrow> id \<Rightarrow> perm_db \<times> policy_redis \<Rightarrow> sql_error + (string \<times> bool) list" where
  "ListProjectModels flt net projectID = (\<lambda>(db, r).
     if flt ''rows'' then Inl SqlDown
     else
       (let names = sort (remdups [md_name m. (p, mid) \<leftarrow> project_model_permissions db, m \<leftarrow> models db,
                       p = projectID \<and> md_id m = mid \<and> not_deleted m]) in
        case ProjectModelSet (net ''project smembers'') projectID r of
          Inl _ \<Rightarrow> Inr (map (\<lambda>n. (n, False)) names)
        | Inr live_set \<Rightarrow> Inr (map (\<lambda>n. (n, n \<in> set live_set)) names)))"

subsection \<open>Provider grants\<close>

definition provider_by_id_or_name :: "string \<Rightarrow> perm_db \<Rightarrow> provider_row option" where
  "provider_by_id_or_name x db = find (\<lambda>p. pv_id p = x \<or> pv_name p = x) (providers db)"

definition mode_of_provider :: "provider_row \<Rightarrow> string" where
  "mode_of_provider p = (case pv_mode p of None \<Rightarrow> ''managed'' | Some m \<Rightarrow> m)"

definition IsVirtual :: "string \<Rightarrow> bool" where
  "IsVirtual m \<longleftrightarrow> m = ''catalog'' \<or> m = ''hybrid''"

text \<open>\<open>Inl ()\<close> is a 400 response; \<open>Inr None\<close> is no pin.\<close>

definition validateCredentialBelongsToProvider ::
    "faults \<Rightarrow> string option \<Rightarrow> id \<Rightarrow> perm_db \<Rightarrow> unit + string option" where
  "validateCredentialBelongsToProvider flt credentialID providerID db =
     (case credentialID of
        None \<Rightarrow> Inr None
      | Some c \<Rightarrow>
          if c = [] then Inr None
          else case (if flt ''credential'' then None else map_of (provider_credentials db) c) of
            None \<Rightarrow> Inl ()
          | Some p \<Rightarrow> if p \<noteq> providerID then Inl () else Inr (Some c))"

text \<open>
  \<open>arr\<close> stands for \<open>pq.Array\<close>, the encoding of a possibly nil slice as an SQL value; the two prefix
  columns are \<open>NOT NULL\<close>, and a project has one row per provider.
\<close>

definition GrantProjectProviderAccess ::
    "(string list option \<Rightarrow> string list option) \<Rightarrow> faults \<Rightarrow> id \<Rightarrow> id \<Rightarrow> string \<Rightarrow> string option \<Rightarrow>
     string list option \<Rightarrow> string list option \<Rightarrow> perm_db \<Rightarrow> int \<times> perm_db" where
  "GrantProjectProviderAccess arr flt grantID projectID provider credentialID allowedP deniedP db =
     (case (if flt ''provider'' then None else provider_by_id_or_name provider db) of
        None \<Rightarrow> (400, db)
      | Some p \<Rightarrow>
          if \<not> IsVirtual (mode_of_provider p) then (400, db)
          else case validateCredentialBelongsToProvider flt credentialID (pv_id p) db of
            Inl _ \<Rightarrow> (400, db)
          | Inr cred \<Rightarrow>
             (case (arr allowedP, arr deniedP) of
                (Some al, Some de) \<Rightarrow>
                  if flt ''upsert'' then (500, db)
                  else
                    (let same = (\<lambda>a. ppa_project a = projectID \<and> ppa_provider a = pv_id p) in
                     if list_ex same (project_provider_access db)
                     then (201, db\<lparr>project_provider_access := map (\<lambda>a. if same a
                            then a\<lparr>AllowedPrefixes := al, DeniedPrefixes := de, ppa_enabled := True, ppa_credential := cred\<rparr>
                            else a) (project_provider_access db)\<rparr>)
                     else (201, db\<lparr>project_provider_access := project_provider_access db @
                            [\<lparr>ppa_id = grantID, ppa_project = projectID, ppa_provider = pv_id p, AllowedPrefixes = al,
                              DeniedPrefixes = de, ppa_enabled = True, ppa_credential = cred\<rparr>]\<rparr>))
              | _ \<Rightarrow> (500, db)))"

definition update_access ::
    "bool \<Rightarrow> id \<Rightarrow> id \<Rightarrow> (ProjectProviderAccess \<Rightarrow> ProjectProviderAccess) \<Rightarrow> perm_db \<Rightarrow> perm_db" where
  "update_access fails projectID providerID f db =
     (if fails then db
      else db\<lparr>project_provider_access :=
        map (\<lambda>a. if ppa_project a = projectID \<and> ppa_provider a = providerID then f a else a) (project_provider_access db)\<rparr>)"

text \<open>The JSON field \<open>credential_id\<close>: absent, or present with its value.\<close>

definition UpdateProjectProviderAccess ::
    "faults \<Rightarrow> id \<Rightarrow> id \<Rightarrow> string list option \<Rightarrow> string list option \<Rightarrow> bool option \<Rightarrow> string option option \<Rightarrow>
     perm_db \<Rightarrow> int \<times> perm_db" where
  "UpdateProjectProviderAccess flt projectID providerID allowedP deniedP enabled credential db =
     (let db1 = (case allowedP of None \<Rightarrow> db
                 | Some al \<Rightarrow> update_access (flt ''allowed'') projectID providerID (\<lambda>a. a\<lparr>AllowedPrefixes := al\<rparr>) db);
          db2 = (case deniedP of None \<Rightarrow> db1
                 | Some de \<Rightarrow> update_access (flt ''denied'') projectID providerID (\<lambda>a. a\<lparr>DeniedPrefixes := de\<rparr>) db1);
          db3 = (case enabled of None \<Rightarrow> db2
                 | Some e \<Rightarrow> update_access (flt ''enabled'') projectID providerID (\<lambda>a. a\<lparr>ppa_enabled := e\<rparr>) db2)
      in case credential of
           None \<Rightarrow> (200, db3)
         | Some c \<Rightarrow>
             (case validateCredentialBelongsToProvider flt c providerID db3 of
                Inl _ \<Rightarrow> (400, db3)
              | Inr cred \<Rightarrow>
                  (200, update_access (flt ''pin'') projectID providerID (\<lambda>a. a\<lparr>ppa_credential := cred\<rparr>) db3)))"

definition RevokeProjectProviderAccess :: "faults \<Rightarrow> id \<Rightarrow> id \<Rightarrow> perm_db \<Rightarrow> int \<times> perm_db" where
  "RevokeProjectProviderAccess flt projectID providerID db =
     (200, update_access (flt ''revoke'') projectID providerID (\<lambda>a. a\<lparr>ppa_enabled := False\<rparr>) db)"

subsection \<open>Seeding by the gateway\<close>

text \<open>\<open>ProjectProviderAccessStore.ListForProject\<close> and \<open>ListAll\<close>: a grant with its provider.\<close>

definition provider_of :: "ProjectProviderAccess \<Rightarrow> perm_db \<Rightarrow> provider_row option" where
  "provider_of a db = find (\<lambda>p. pv_id p = ppa_provider a) (providers db)"

definition enabled_grant :: "perm_db \<Rightarrow> ProjectProviderAccess \<Rightarrow> bool" where
  "enabled_grant db a \<longleftrightarrow>
     ppa_enabled a \<and> (case provider_of a db of None \<Rightarrow> False | Some p \<Rightarrow> pv_enabled p)"

definition ListForProject :: "bool \<Rightarrow> id \<Rightarrow> perm_db \<Rightarrow> sql_error + ProjectProviderAccess list" where
  "ListForProject fails projectID db =
     (if fails then Inl SqlDown
      else Inr (sort_key (\<lambda>a. pv_name (the (provider_of a db)))
        (filter (\<lambda>a. ppa_project a = projectID \<and> enabled_grant db a) (project_provider_access db))))"

definition virtual_grant :: "perm_db \<Rightarrow> ProjectProviderAccess \<Rightarrow> bool" where
  "virtual_grant db a \<longleftrightarrow> enabled_grant db a \<and> pv_mode (the (provider_of a db)) \<in> {Some ''catalog'', Some ''hybrid''}"

definition AccessStore_ListAll :: "bool \<Rightarrow> perm_db \<Rightarrow> sql_error + ProjectProviderAccess list" where
  "AccessStore_ListAll fails db =
     (if fails then Inl SqlDown
      else Inr (sort_key (\<lambda>a. (ppa_project a, pv_name (the (provider_of a db))))
        (filter (virtual_grant db) (project_provider_access db))))"

definition prefixByID :: "faults \<Rightarrow> perm_db \<Rightarrow> id \<Rightarrow> string" where
  "prefixByID flt db providerID =
     (case find (\<lambda>p. pv_id p = providerID \<and> pv_enabled p \<and> pv_mode p \<in> {Some ''catalog'', Some ''hybrid''})
             (if flt ''prefixes'' then [] else providers db) of
        None \<Rightarrow> []
      | Some p \<Rightarrow> if pv_prefix p = [] then pv_name p else pv_prefix p)"

definition seed_entry :: "faults \<Rightarrow> perm_db \<Rightarrow> ProjectProviderAccess \<Rightarrow> providerAccessEntry" where
  "seed_entry flt db g =
     \<lparr>ProviderPrefix = (if prefixByID flt db (ppa_provider g) = [] then pv_name (the (provider_of g db))
                       else prefixByID flt db (ppa_provider g)),
      AllowedPatterns = AllowedPrefixes g, DeniedPatterns = DeniedPrefixes g\<rparr>"

definition seed_grant ::
    "faults \<Rightarrow> (string \<Rightarrow> nat option) \<Rightarrow> int \<Rightarrow> perm_db \<Rightarrow> ProjectProviderAccess \<Rightarrow> policy_redis \<Rightarrow> policy_redis" where
  "seed_grant flt brk now db g r =
     snd (SetProjectProviderAccess (brk (''grant '' @ ppa_id g)) now (ppa_project g) (ppa_provider g) (seed_entry flt db g) r)"

definition seedProjectProviderAccess ::
    "faults \<Rightarrow> (string \<Rightarrow> nat option) \<Rightarrow> int \<Rightarrow> perm_db \<Rightarrow> policy_redis \<Rightarrow> policy_redis" where
  "seedProjectProviderAccess flt brk now db r =
     (case AccessStore_ListAll (flt ''grants'') db of
        Inl _ \<Rightarrow> r
      | Inr grants \<Rightarrow> fold (seed_grant flt brk now db) grants r)"

definition seedModelPermissions :: "faults \<Rightarrow> network \<Rightarrow> perm_db \<Rightarrow> policy_redis \<Rightarrow> policy_redis" where
  "seedModelPermissions flt net db r =
     fold (\<lambda>(orgID, teamID, name) r.
         snd (SetModelAllowed (net (''team '' @ teamID @ name)) teamID name
           (snd (SetOrgModelAllowed (net (''org '' @ orgID @ name)) orgID name r))))
       (if flt ''permissions'' then []
        else [(g, t, md_name m). (t, mid) \<leftarrow> team_model_permissions db, m \<leftarrow> models db, (t', g) \<leftarrow> teams db,
                md_id m = mid \<and> t' = t \<and> md_enabled m]) r"

definition seedProjectPolicies :: "faults \<Rightarrow> (string \<Rightarrow> nat option) \<Rightarrow> int \<Rightarrow> perm_db \<Rightarrow> policy_redis \<Rightarrow> policy_redis" where
  "seedProjectPolicies flt brk now db r =
     fold (\<lambda>(p, pp) r. snd (SetProjectPolicy (brk (''policy '' @ p)) now p pp r))
       (if flt ''policies'' then [] else project_policies db) r"

definition reload :: "faults \<Rightarrow> network \<Rightarrow> (string \<Rightarrow> nat option) \<Rightarrow> int \<Rightarrow> perm_db \<Rightarrow> policy_redis \<Rightarrow> policy_redis" where
  "reload flt net brk now db r =
     seedProjectProviderAccess flt brk now db
       (seedProjectPolicies flt brk now db (seedModelPermissions flt net db r))"

subsection \<open>Reconciliation\<close>

record ReconcileReport =
  TeamsChecked :: nat
  ProjectsChecked :: nat
  TeamRepairs :: nat
  ProjectRepairs :: nat
  Errors :: nat

text \<open>The names of the models a scope is granted, by its permission rows.\<close>

definition granted_names :: "(id \<times> id) list \<Rightarrow> perm_db \<Rightarrow> id \<Rightarrow> string list" where
  "granted_names perms db scope =
     remdups [md_name m. (s, mid) \<leftarrow> perms, m \<leftarrow> models db, s = scope \<and> md_id m = mid \<and> not_deleted m]"

definition granted_scopes :: "(id \<times> id) list \<Rightarrow> perm_db \<Rightarrow> id list" where
  "granted_scopes perms db = remdups [s. (s, mid) \<leftarrow> perms, m \<leftarrow> models db, md_id m = mid \<and> not_deleted m]"

definition addConfiguredScopes :: "bool \<Rightarrow> string \<Rightarrow> perm_db \<Rightarrow> id list \<Rightarrow> nat \<times> id list" where
  "addConfiguredScopes fails scopeType db byScope =
     (if fails then (1, byScope)
      else (0, fold insert_once (map snd (filter (\<lambda>x. fst x = scopeType) (model_permission_scopes db))) byScope))"

text \<open>
  The repair of one scope: \<open>setf\<close> and \<open>remf\<close> are the engine's operations on its Redis set. The result
  counts repairs and errors.
\<close>

fun repair_all :: "(string \<Rightarrow> policy_redis \<Rightarrow> bool \<times> policy_redis) \<Rightarrow> string list \<Rightarrow> nat \<times> nat \<times> policy_redis \<Rightarrow> nat \<times> nat \<times> policy_redis" where
  "repair_all f [] st = st"
| "repair_all f (m # ms) (repairs, errs, r) =
     (case f m r of (True, r1) \<Rightarrow> repair_all f ms (repairs + 1, errs, r1)
      | (False, r1) \<Rightarrow> repair_all f ms (repairs, errs + 1, r1))"

definition repair_scope ::
    "(sql_error + string list) \<Rightarrow> (string \<Rightarrow> policy_redis \<Rightarrow> bool \<times> policy_redis) \<Rightarrow>
     (string \<Rightarrow> policy_redis \<Rightarrow> bool \<times> policy_redis) \<Rightarrow> string list \<Rightarrow> nat \<times> nat \<times> policy_redis \<Rightarrow> nat \<times> nat \<times> policy_redis" where
  "repair_scope live_read setf remf wanted st =
     (case live_read of
        Inl _ \<Rightarrow> (case st of (repairs, errs, r) \<Rightarrow> (repairs, errs + 1, r))
      | Inr live_set \<Rightarrow>
          repair_all remf (filter (\<lambda>m. m \<notin> set wanted) live_set)
            (repair_all setf (filter (\<lambda>m. m \<notin> set live_set) wanted) st))"

text \<open>The loop over the scopes, the same for teams and for projects.\<close>

fun repair_scopes ::
    "(id \<Rightarrow> policy_redis \<Rightarrow> sql_error + string list) \<Rightarrow> (id \<Rightarrow> string \<Rightarrow> policy_redis \<Rightarrow> bool \<times> policy_redis) \<Rightarrow>
     (id \<Rightarrow> string \<Rightarrow> policy_redis \<Rightarrow> bool \<times> policy_redis) \<Rightarrow> (id \<Rightarrow> string list) \<Rightarrow> id list \<Rightarrow>
     nat \<times> nat \<times> policy_redis \<Rightarrow> nat \<times> nat \<times> policy_redis" where
  "repair_scopes look add remove wanted [] st = st"
| "repair_scopes look add remove wanted (s # ss) st =
     repair_scopes look add remove wanted ss
       (repair_scope (look s (snd (snd st))) (add s) (remove s) (wanted s) st)"

definition repair_teams :: "network \<Rightarrow> perm_db \<Rightarrow> id list \<Rightarrow> nat \<times> nat \<times> policy_redis \<Rightarrow> nat \<times> nat \<times> policy_redis" where
  "repair_teams net db =
     repair_scopes (\<lambda>t. TeamModelSet (net (''smembers '' @ t)) t) (\<lambda>t m. SetModelAllowed (net (''sadd '' @ t @ m)) t m)
       (\<lambda>t m. RemoveModelAllowed (net (''srem '' @ t @ m)) t m) (granted_names (team_model_permissions db) db)"

definition repair_projects ::
    "network \<Rightarrow> (string \<Rightarrow> nat option) \<Rightarrow> perm_db \<Rightarrow> id list \<Rightarrow> nat \<times> nat \<times> policy_redis \<Rightarrow> nat \<times> nat \<times> policy_redis" where
  "repair_projects net brk db =
     repair_scopes (\<lambda>p. ProjectModelSet (net (''psmembers '' @ p)) p) (\<lambda>p m. SetProjectModelAllowed (brk (''sadd '' @ p @ m)) p m)
       (\<lambda>p m. RemoveProjectModelAllowed (brk (''srem '' @ p @ m)) p m) (granted_names (project_model_permissions db) db)"

definition ReconcilePermissions ::
    "faults \<Rightarrow> network \<Rightarrow> (string \<Rightarrow> nat option) \<Rightarrow> perm_db \<Rightarrow> policy_redis \<Rightarrow> ReconcileReport \<times> policy_redis" where
  "ReconcilePermissions flt net brk db r =
     (let (tn, trep, terr, r1) =
            (if flt ''team permissions'' then (0, 0, 1, r)
             else case addConfiguredScopes (flt ''team scopes'') ''team'' db (granted_scopes (team_model_permissions db) db) of
               (e, ts) \<Rightarrow> (length ts, repair_teams net db ts (0, e, r)));
          (pn, prep, perr, r2) =
            (if flt ''project permissions'' then (0, 0, 1, r1)
             else case addConfiguredScopes (flt ''project scopes'') ''project'' db (granted_scopes (project_model_permissions db) db) of
               (e, ps) \<Rightarrow> (length ps, repair_projects net brk db ps (0, e, r1)))
      in (\<lparr>TeamsChecked = tn, ProjectsChecked = pn, TeamRepairs = trep, ProjectRepairs = prep, Errors = terr + perr\<rparr>, r2))"

definition ReconcileNow :: "faults \<Rightarrow> network \<Rightarrow> (string \<Rightarrow> nat option) \<Rightarrow> perm_db \<Rightarrow> policy_redis \<Rightarrow> int \<times> policy_redis" where
  "ReconcileNow flt net brk db r =
     (case ReconcilePermissions flt net brk db r of (report, r') \<Rightarrow> (if Errors report > 0 then 206 else 200, r'))"

end
