(* ===== verification/Access_Props.thy ===== *)
theory Access_Props
  imports Access_Control
begin

text \<open>
  Correctness of the permission paths. The sets of granted models in Redis are the interface between
  the admin side and the policy engine: \<open>acl_cache\<close> states what a set promises, the repair of a scope
  is proved from it, and it is interpreted for the sets of teams and of projects.
\<close>

subsection \<open>The interface\<close>

locale acl_cache =
  fixes key :: "id \<Rightarrow> string"
    and look :: "id \<Rightarrow> policy_redis \<Rightarrow> sql_error + string list"
    and add :: "id \<Rightarrow> string \<Rightarrow> policy_redis \<Rightarrow> bool \<times> policy_redis"
    and remove :: "id \<Rightarrow> string \<Rightarrow> policy_redis \<Rightarrow> bool \<times> policy_redis"
  assumes key_inj: "key s = key s' \<Longrightarrow> s = s'"
    and look: "look s r = Inr (r_set r (key s))"
    and add_ok: "fst (add s m r)"
    and add_set: "set (r_set (snd (add s m r)) k) = (if k = key s then insert m (set (r_set r k)) else set (r_set r k))"
    and remove_ok: "fst (remove s m r)"
    and remove_set: "set (r_set (snd (remove s m r)) k) = (if k = key s then set (r_set r k) - {m} else set (r_set r k))"
begin

lemma repair_all_errors:
  assumes "\<And>m r. fst (f m r)" shows "fst (snd (repair_all f ms st)) = fst (snd st)"
proof (induction ms arbitrary: st)
  case (Cons m ms)
  obtain a b r where "st = (a, b, r)" by (cases st) auto
  moreover obtain r1 where "f m r = (True, r1)" using assms [of m r] by (cases "f m r") auto
  ultimately show ?case using Cons by simp
qed simp

lemma repair_all_set:
  assumes ok: "\<And>m r. fst (f m r)" and set: "\<And>m r. set (r_set (snd (f m r)) k) = g m (set (r_set r k))"
  shows "set (r_set (snd (snd (repair_all f ms st))) k) = fold g ms (set (r_set (snd (snd st)) k))"
proof (induction ms arbitrary: st)
  case (Cons m ms)
  obtain a b r where "st = (a, b, r)" by (cases st) auto
  moreover obtain r1 where "f m r = (True, r1)" using ok [of m r] by (cases "f m r") auto
  ultimately show ?case using Cons set [of m r] by simp
qed simp

lemma fold_insert: "fold insert ms A = set ms \<union> A"
  by (induction ms arbitrary: A) auto

lemma fold_const: "fold (\<lambda>_ A. A) ms B = B"
  by (induction ms) auto

lemma fold_delete: "fold (\<lambda>m B. B - {m}) ms A = A - set ms"
  by (induction ms arbitrary: A) auto

lemma repair_add:
  "fst (snd (repair_all (add s) ms st)) = fst (snd st)"
  "set (r_set (snd (snd (repair_all (add s) ms st))) k) =
     (if k = key s then set ms \<union> set (r_set (snd (snd st)) k) else set (r_set (snd (snd st)) k))"
  using repair_all_errors [of "add s", OF add_ok]
    repair_all_set [of "add s" "key s" insert, OF add_ok] repair_all_set [of "add s" k "\<lambda>_ A. A", OF add_ok]
  by (simp_all add: add_set fold_insert fold_const)

lemma repair_remove:
  "fst (snd (repair_all (remove s) ms st)) = fst (snd st)"
  "set (r_set (snd (snd (repair_all (remove s) ms st))) k) =
     (if k = key s then set (r_set (snd (snd st)) k) - set ms else set (r_set (snd (snd st)) k))"
  using repair_all_errors [of "remove s", OF remove_ok]
    repair_all_set [of "remove s" "key s" "\<lambda>m B. B - {m}", OF remove_ok] repair_all_set [of "remove s" k "\<lambda>_ A. A", OF remove_ok]
  by (simp_all add: remove_set fold_delete fold_const)

lemma repair_one:
  "fst (snd (repair_scope (look s (snd (snd st))) (add s) (remove s) w st)) = fst (snd st)"
  "set (r_set (snd (snd (repair_scope (look s (snd (snd st))) (add s) (remove s) w st))) k) =
     (if k = key s then set w else set (r_set (snd (snd st)) k))"
  by (auto simp: repair_scope_def look repair_add repair_remove)

text \<open>The sweep makes the set of every scope it visits the wanted one and touches no other set.\<close>

lemma repair_scopes_errors: "fst (snd (repair_scopes look add remove w ss st)) = fst (snd st)"
  by (induction ss arbitrary: st) (simp_all add: repair_one)

lemma repair_scopes_other:
  "k \<notin> key ` set ss \<Longrightarrow> set (r_set (snd (snd (repair_scopes look add remove w ss st))) k) = set (r_set (snd (snd st)) k)"
  by (induction ss arbitrary: st) (simp_all add: repair_one)

lemma repair_scopes_visited:
  "distinct ss \<Longrightarrow> s \<in> set ss \<Longrightarrow> set (r_set (snd (snd (repair_scopes look add remove w ss st))) (key s)) = set (w s)"
proof (induction ss arbitrary: st)
  case (Cons s' ss)
  show ?case
  proof (cases "s = s'")
    case True
    then have "key s \<notin> key ` set ss" using Cons.prems by (auto dest: key_inj)
    then show ?thesis using True by (simp add: repair_scopes_other repair_one)
  qed (use Cons in auto)
qed simp

end

lemma set_cmds [simp]:
  "r_set (SADD k m r) = (r_set r)(k := List.insert m (r_set r k))" "r_set (SREM k m r) = (r_set r)(k := removeAll m (r_set r k))"
  "r_set (SET k s r) = r_set r" "r_set (DEL k r) = r_set r"
  "r_str (SADD k m r) = r_str r" "r_str (SREM k m r) = r_str r" "r_str (SET k s r) = (r_str r)(k \<mapsto> (s, None))"
  "r_grants (SADD k m r) = r_grants r" "r_grants (SREM k m r) = r_grants r" "r_grants (SET k s r) = r_grants r"
  "r_grants (DEL k r) = r_grants r"
  by (simp_all add: SADD_def SREM_def SET_def DEL_def)

lemma keys_inj [simp]:
  "teamModelsKey s = teamModelsKey s' \<longleftrightarrow> s = s'" "projectModelsKey s = projectModelsKey s' \<longleftrightarrow> s = s'"
  "vprovidersKey s = vprovidersKey s' \<longleftrightarrow> s = s'" "projectModelsConfiguredKey s = projectModelsConfiguredKey s' \<longleftrightarrow> s = s'"
  "teamModelsKey s \<noteq> projectModelsKey p" "projectModelsKey p \<noteq> teamModelsKey s"
  "teamModelsKey s \<noteq> orgModelsKey g" "projectModelsKey p \<noteq> orgModelsKey g"
  by (simp_all add: teamModelsKey_def projectModelsKey_def vprovidersKey_def projectModelsConfiguredKey_def orgModelsKey_def
      teamModelsPrefix_def projectPrefix_def orgPrefix_def)

interpretation team_acl: acl_cache teamModelsKey "TeamModelSet Fine" "SetModelAllowed Fine" "RemoveModelAllowed Fine"
  by unfold_locales (auto simp: TeamModelSet_def SetModelAllowed_def RemoveModelAllowed_def)

interpretation project_acl: acl_cache projectModelsKey "ProjectModelSet Fine" "SetProjectModelAllowed None" "RemoveProjectModelAllowed None"
  by unfold_locales (auto simp: ProjectModelSet_def SetProjectModelAllowed_def RemoveProjectModelAllowed_def)

subsection \<open>Reconciliation\<close>

text \<open>The scopes the sweep visits: those with a permission row of a model not deleted, and those marked.\<close>

definition known_scopes :: "string \<Rightarrow> (id \<times> id) list \<Rightarrow> perm_db \<Rightarrow> id list" where
  "known_scopes kind perms db = snd (addConfiguredScopes False kind db (granted_scopes perms db))"

lemma insert_once_props: "distinct xs \<Longrightarrow> distinct (fold insert_once ys xs)" "set (fold insert_once ys xs) = set ys \<union> set xs"
  by (induction ys arbitrary: xs) (auto simp: insert_once_def)

lemma known_scopes_props:
  "distinct (known_scopes kind perms db)"
  "set (known_scopes kind perms db) = {s. (kind, s) \<in> set (model_permission_scopes db)} \<union> set (granted_scopes perms db)"
  by (auto simp: known_scopes_def addConfiguredScopes_def insert_once_props granted_scopes_def image_iff
      intro!: insert_once_props(1))

lemma reconcile_fine:
  "ReconcilePermissions (\<lambda>_. False) fine (\<lambda>_. None) db r =
     (let st = repair_scopes (TeamModelSet Fine) (SetModelAllowed Fine) (RemoveModelAllowed Fine)
            (granted_names (team_model_permissions db) db) (known_scopes ''team'' (team_model_permissions db) db) (0, 0, r);
          st' = repair_scopes (ProjectModelSet Fine) (SetProjectModelAllowed None) (RemoveProjectModelAllowed None)
            (granted_names (project_model_permissions db) db) (known_scopes ''project'' (project_model_permissions db) db)
            (0, 0, snd (snd st))
      in (\<lparr>TeamsChecked = length (known_scopes ''team'' (team_model_permissions db) db),
           ProjectsChecked = length (known_scopes ''project'' (project_model_permissions db) db),
           TeamRepairs = fst st, ProjectRepairs = fst st', Errors = fst (snd st) + fst (snd st')\<rparr>, snd (snd st')))"
  by (simp add: ReconcilePermissions_def known_scopes_def addConfiguredScopes_def repair_teams_def repair_projects_def
      Let_def case_prod_unfold)

lemma reconcile_sets:
  fixes db r
  defines "out \<equiv> ReconcilePermissions (\<lambda>_. False) fine (\<lambda>_. None) db r"
  shows "Errors (fst out) = 0"
    and "t \<in> set (known_scopes ''team'' (team_model_permissions db) db) \<Longrightarrow>
      set (r_set (snd out) (teamModelsKey t)) = set (granted_names (team_model_permissions db) db t)"
    and "p \<in> set (known_scopes ''project'' (project_model_permissions db) db) \<Longrightarrow>
      set (r_set (snd out) (projectModelsKey p)) = set (granted_names (project_model_permissions db) db p)"
    and "t \<notin> set (known_scopes ''team'' (team_model_permissions db) db) \<Longrightarrow>
      set (r_set (snd out) (teamModelsKey t)) = set (r_set r (teamModelsKey t))"
    and "p \<notin> set (known_scopes ''project'' (project_model_permissions db) db) \<Longrightarrow>
      set (r_set (snd out) (projectModelsKey p)) = set (r_set r (projectModelsKey p))"
proof -
  note errors = team_acl.repair_scopes_errors project_acl.repair_scopes_errors
  note visited = team_acl.repair_scopes_visited project_acl.repair_scopes_visited known_scopes_props(1)
  note other = team_acl.repair_scopes_other project_acl.repair_scopes_other
  show "Errors (fst out) = 0" by (simp add: out_def reconcile_fine Let_def errors)
  show "set (r_set (snd out) (teamModelsKey t)) = set (granted_names (team_model_permissions db) db t)"
    if "t \<in> set (known_scopes ''team'' (team_model_permissions db) db)"
  proof -
    have "teamModelsKey t \<notin> projectModelsKey ` X" for X by auto
    then show ?thesis using that by (simp add: out_def reconcile_fine Let_def visited other(2))
  qed
  show "set (r_set (snd out) (projectModelsKey p)) = set (granted_names (project_model_permissions db) db p)"
    if "p \<in> set (known_scopes ''project'' (project_model_permissions db) db)"
    using that by (simp add: out_def reconcile_fine Let_def visited)
  show "set (r_set (snd out) (teamModelsKey t)) = set (r_set r (teamModelsKey t))"
    if "t \<notin> set (known_scopes ''team'' (team_model_permissions db) db)"
  proof -
    have "teamModelsKey t \<notin> projectModelsKey ` X" "teamModelsKey t \<notin> teamModelsKey ` Y \<longleftrightarrow> t \<notin> Y" for X Y by auto
    then show ?thesis using that by (simp add: out_def reconcile_fine Let_def other)
  qed
  show "set (r_set (snd out) (projectModelsKey p)) = set (r_set r (projectModelsKey p))"
    if "p \<notin> set (known_scopes ''project'' (project_model_permissions db) db)"
  proof -
    have "projectModelsKey p \<notin> teamModelsKey ` X" "projectModelsKey p \<notin> projectModelsKey ` Y \<longleftrightarrow> p \<notin> Y" for X Y by auto
    then show ?thesis using that by (simp add: out_def reconcile_fine Let_def other)
  qed
qed

text \<open>
  C26: a reconciliation sweep without failures makes Redis agree with PostgreSQL. For every team and
  every project with a live permission row or a configured mark, the enforced set becomes exactly the
  set of names its rows grant, and the sets of all other teams and projects are left alone.
\<close>

theorem reconcile_makes_cache_exact:
  "Errors (fst (ReconcilePermissions (\<lambda>_. False) fine (\<lambda>_. None) db r)) = 0 \<and>
   set (r_set (snd (ReconcilePermissions (\<lambda>_. False) fine (\<lambda>_. None) db r)) (teamModelsKey t)) =
     (if (''team'', t) \<in> set (model_permission_scopes db) \<or> t \<in> set (granted_scopes (team_model_permissions db) db)
      then set (granted_names (team_model_permissions db) db t) else set (r_set r (teamModelsKey t))) \<and>
   set (r_set (snd (ReconcilePermissions (\<lambda>_. False) fine (\<lambda>_. None) db r)) (projectModelsKey p)) =
     (if (''project'', p) \<in> set (model_permission_scopes db) \<or> p \<in> set (granted_scopes (project_model_permissions db) db)
      then set (granted_names (project_model_permissions db) db p) else set (r_set r (projectModelsKey p)))"
  using reconcile_sets [where db = db and r = r] known_scopes_props(2) by simp

subsection \<open>Acknowledged changes\<close>

lemma bust_keys_frame: "r_set (bust_keys net hs r) = r_set r" "r_grants (bust_keys net hs r) = r_grants r"
  unfolding bust_keys_def by (induction hs arbitrary: r) (simp_all add: writing_def)

lemma sync_frame:
  "r_set (syncPermissionChanges flt net t n b db r) (teamModelsKey t') = r_set r (teamModelsKey t')"
  "r_set (syncProjectPermissionChange flt net p db r) = r_set r"
  "r_grants (syncProjectPermissionChange flt net p db r) = r_grants r"
  by (simp_all add: syncPermissionChanges_def syncProjectPermissionChange_def bust_keys_frame SetOrgModelAllowed_def
      RemoveOrgModelAllowed_def writing_def Let_def)

lemma GET_DEL_other: "k \<noteq> k' \<Longrightarrow> GET now k (DEL k' r) = GET now k r"
  by (simp add: GET_def DEL_def)

lemma bust_keys_GET:
  assumes "\<And>h. k \<noteq> ''nexus:apikey:'' @ h" shows "GET now k (bust_keys net hs r) = GET now k r"
  unfolding bust_keys_def using assms by (induction hs arbitrary: r) (simp_all add: writing_def GET_DEL_other)

lemma sync_GET: "GET now (projectModelsConfiguredKey p) (syncProjectPermissionChange flt net q db r) =
    GET now (projectModelsConfiguredKey p) r"
  unfolding syncProjectPermissionChange_def
  by (rule bust_keys_GET) (simp add: projectModelsConfiguredKey_def projectPrefix_def)

lemma add_team_200:
  assumes "AddModelPermission flt net t name (db, r) = (200, db', r')" shows "name \<in> set (r_set r' (teamModelsKey t))"
  using assms by (auto simp: AddModelPermission_def Let_def SetModelAllowed_def writing_def sync_frame
      split: option.splits if_splits prod.splits bool.splits)

lemma remove_team_200:
  assumes "RemoveModelPermission flt net t name (db, r) = (200, db', r')" shows "name \<notin> set (r_set r' (teamModelsKey t))"
  using assms by (auto simp: RemoveModelPermission_def Let_def RemoveModelAllowed_def writing_def sync_frame
      split: option.splits if_splits prod.splits bool.splits)

lemma add_project_200:
  assumes "AddProjectModelPermission flt net brk p name (db, r) = (200, db', r')"
  shows "name \<in> set (r_set r' (projectModelsKey p))"
  using assms by (auto simp: AddProjectModelPermission_def Let_def SetProjectModelAllowed_def pipe_exec_def sync_frame
      split: option.splits if_splits prod.splits bool.splits)

lemma GET_SET: "GET now k (SET k s r) = Some s"
  by (simp add: GET_def live_def)

lemma remove_project_200:
  assumes "RemoveProjectModelPermission flt net brk p name (db, r) = (200, db', r')"
  shows "name \<notin> set (r_set r' (projectModelsKey p))" and "GET now (projectModelsConfiguredKey p) r' = Some ''1''"
  using assms by (auto simp: RemoveProjectModelPermission_def Let_def RemoveProjectModelAllowed_def pipe_exec_def
      sync_frame sync_GET GET_SET split: option.splits if_splits prod.splits bool.splits)

text \<open>
  C27: an acknowledged revocation is enforced at once, except where a provider grant of the project covers the
  model (revoking those is another operation). When the revoke handler of a team answers 200, then whatever Redis
  calls fail a request of that team for the model, with or without a project, passes the model ACL exactly if it has
  a project with such a grant. When the handler of a project answers 200, the same holds of every request of the
  project, whatever its team is granted, as long as Redis answers whether the project has explicit grants.
\<close>

theorem acknowledged_revocations_enforced:
  assumes "Model req = name"
  shows "(fst (RemoveModelPermission flt net t name (db, r)) = 200 \<and> TeamID req = t \<longrightarrow>
      modelAllowed net' now req (snd (snd (RemoveModelPermission flt net t name (db, r)))) =
      (ProjectID req \<noteq> [] \<and> isVirtualModelAllowedForProject net' now (ProjectID req) name
         (snd (snd (RemoveModelPermission flt net t name (db, r)))))) \<and>
    (fst (RemoveProjectModelPermission flt net brk p name (db, r)) = 200 \<and> ProjectID req = p \<and> p \<noteq> [] \<and>
        net' ''configured'' = Fine \<longrightarrow>
      modelAllowed net' now req (snd (snd (RemoveProjectModelPermission flt net brk p name (db, r)))) =
      isVirtualModelAllowedForProject net' now p name (snd (snd (RemoveProjectModelPermission flt net brk p name (db, r)))))"
proof -
  obtain s1 db1 r1 where 1: "RemoveModelPermission flt net t name (db, r) = (s1, db1, r1)" by (metis prod_cases3)
  obtain s2 db2 r2 where 2: "RemoveProjectModelPermission flt net brk p name (db, r) = (s2, db2, r2)" by (metis prod_cases3)
  have team: "modelAllowed net' now req r1 = (ProjectID req \<noteq> [] \<and> isVirtualModelAllowedForProject net' now (ProjectID req) name r1)"
    if "name \<notin> set (r_set r1 (teamModelsKey (TeamID req)))"
    using that assms by (simp add: modelAllowed_def Let_def reading_def split: net.split)
  have project: "modelAllowed net' now req r2 = isVirtualModelAllowedForProject net' now p name r2"
    if "name \<notin> set (r_set r2 (projectModelsKey p))" "GET now (projectModelsConfiguredKey p) r2 = Some ''1''"
      "ProjectID req = p" "p \<noteq> []" "net' ''configured'' = Fine"
    using that assms by (simp add: modelAllowed_def Let_def reading_def split: net.split)
  show ?thesis
    unfolding 1 2 fst_conv snd_conv
    using remove_team_200 [of flt net t name db r db1 r1] remove_project_200 [of flt net brk p name db r db2 r2]
      1 2 team project by blast
qed

subsection \<open>A project denied everything\<close>

lemma repair_all_inv:
  assumes "\<And>m r. m \<in> set ms \<Longrightarrow> I r \<Longrightarrow> I (snd (f m r))" and "I (snd (snd st))"
  shows "I (snd (snd (repair_all f ms st)))"
  using assms
proof (induction ms arbitrary: st)
  case (Cons m ms)
  obtain a b r where st: "st = (a, b, r)" by (cases st) auto
  obtain o1 r1 where f: "f m r = (o1, r1)" by (cases "f m r")
  have "I r1" using Cons.prems(1) [of m r] Cons.prems(2) st f by simp
  then show ?case using Cons.IH [of "(_, _, r1)"] Cons.prems(1) st f by (cases o1) simp_all
qed simp

lemma repair_scopes_inv:
  assumes "\<And>s m r. s \<in> set ss \<Longrightarrow> m \<in> set (wanted s) \<Longrightarrow> I r \<Longrightarrow> I (snd (add s m r))"
    and "\<And>s l m r. s \<in> set ss \<Longrightarrow> I r \<Longrightarrow> look s r = Inr l \<Longrightarrow> m \<in> set l \<Longrightarrow> \<forall>r'. I r' \<longrightarrow> I (snd (remove s m r'))"
    and "I (snd (snd st))"
  shows "I (snd (snd (repair_scopes look add remove wanted ss st)))"
  using assms
proof (induction ss arbitrary: st)
  case (Cons s ss)
  have "I (snd (snd (repair_scope (look s (snd (snd st))) (add s) (remove s) (wanted s) st)))"
  proof (cases "look s (snd (snd st))")
    case (Inr l)
    have added: "I (snd (snd (repair_all (add s) (filter (\<lambda>m. m \<notin> set l) (wanted s)) st)))"
    proof (rule repair_all_inv [where I = I])
      show "I (snd (add s m r))" if "m \<in> set (filter (\<lambda>m. m \<notin> set l) (wanted s))" "I r" for m r
        using Cons.prems(1) [OF _ _ that(2), of s m] that(1) by simp
    qed (rule Cons.prems(3))
    have "I (snd (snd (repair_all (remove s) (filter (\<lambda>m. m \<notin> set (wanted s)) l)
        (repair_all (add s) (filter (\<lambda>m. m \<notin> set l) (wanted s)) st))))"
    proof (rule repair_all_inv [where I = I])
      show "I (snd (remove s m r))" if "m \<in> set (filter (\<lambda>m. m \<notin> set (wanted s)) l)" "I r" for m r
        using Cons.prems(2) [OF _ Cons.prems(3) Inr, of m] that by simp
    qed (rule added)
    then show ?thesis by (simp add: repair_scope_def Inr)
  qed (use Cons.prems(3) in \<open>auto simp: repair_scope_def split: prod.splits\<close>)
  note step = this
  show ?case unfolding repair_scopes.simps
  proof (rule Cons.IH)
    fix q l m r assume "q \<in> set ss" "I r" "look q r = Inr l" "m \<in> set l"
    then show "\<forall>r'. I r' \<longrightarrow> I (snd (remove q m r'))" using Cons.prems(2) [of q r l m] by simp
  next
    fix q m r assume "q \<in> set ss" "m \<in> set (wanted q)" "I r"
    then show "I (snd (add q m r))" using Cons.prems(1) [of q m r] by simp
  qed (rule step)
qed simp

text \<open>What the sweep leaves of a project without grants: nothing for it changes.\<close>

definition project_view :: "id \<Rightarrow> policy_redis \<Rightarrow> string list \<times> (string \<times> int option) option \<times> _" where
  "project_view p r = (r_set r (projectModelsKey p), r_str r (projectModelsConfiguredKey p), r_grants r)"

lemma reconcile_project_view:
  assumes "granted_names (project_model_permissions db) db p = []" and "r_set r (projectModelsKey p) = []"
  shows "project_view p (snd (ReconcilePermissions (\<lambda>_. False) fine (\<lambda>_. None) db r)) = project_view p r"
proof -
  let ?I = "\<lambda>r'. project_view p r' = project_view p r"
  have "?I (snd (snd (repair_scopes (TeamModelSet Fine) (SetModelAllowed Fine) (RemoveModelAllowed Fine) w ss (0, 0, r))))" for w ss
    by (rule repair_scopes_inv) (simp_all add: SetModelAllowed_def RemoveModelAllowed_def project_view_def)
  moreover have "?I (snd (snd (repair_scopes (ProjectModelSet Fine) (SetProjectModelAllowed None) (RemoveProjectModelAllowed None)
      (granted_names (project_model_permissions db) db) ss (0, 0, r'))))" if "?I r'" for ss r'
  proof (rule repair_scopes_inv)
    fix s m q assume "m \<in> set (granted_names (project_model_permissions db) db s)" "?I q"
    then show "?I (snd (SetProjectModelAllowed None s m q))"
      using assms(1) by (cases "s = p") (simp_all add: SetProjectModelAllowed_def project_view_def)
  next
    fix s l m q assume "?I q" "ProjectModelSet Fine s q = Inr l" "m \<in> set l"
    then have "s \<noteq> p" using assms(2) by (auto simp: ProjectModelSet_def project_view_def)
    then show "\<forall>r'. ?I r' \<longrightarrow> ?I (snd (RemoveProjectModelAllowed None s m r'))"
      by (simp add: RemoveProjectModelAllowed_def project_view_def)
  qed (use that in simp)
  ultimately show ?thesis by (simp add: reconcile_fine Let_def)
qed

definition empty_redis :: policy_redis where
  "empty_redis = \<lparr>r_cnt = Map.empty, r_str = Map.empty, r_zset = Map.empty, r_set = (\<lambda>_. []), r_hash = Map.empty, r_grants = Map.empty\<rparr>"

text \<open>
  A project denied every model is let through again after Redis loses its data. The mark that
  the project has explicit grants is kept in Redis only; with it the project stays denied, without it
  the sweep, which finds no difference for a project without grants, does not restore it, and the
  project gets every model its team is granted.
\<close>

theorem deny_all_lost_with_redis:
  assumes "granted_names (project_model_permissions db) db (ProjectID req) = []" and "ProjectID req \<noteq> []" and "TeamID req \<noteq> []"
    and "(''project'', ProjectID req) \<in> set (model_permission_scopes db)"
    and "(''team'', TeamID req) \<in> set (model_permission_scopes db)"
    and "Model req \<in> set (granted_names (team_model_permissions db) db (TeamID req))"
  shows "\<not> modelAllowed fine now req (snd (ReconcilePermissions (\<lambda>_. False) fine (\<lambda>_. None) db
        (SET (projectModelsConfiguredKey (ProjectID req)) ''1'' empty_redis))) \<and>
    modelAllowed fine now req (snd (ReconcilePermissions (\<lambda>_. False) fine (\<lambda>_. None) db empty_redis))"
proof -
  let ?s = "SET (projectModelsConfiguredKey (ProjectID req)) ''1'' empty_redis"
  have team: "Model req \<in> set (r_set (snd (ReconcilePermissions (\<lambda>_. False) fine (\<lambda>_. None) db r)) (teamModelsKey (TeamID req)))" for r
    using reconcile_sets(2) [where db = db and r = r and t = "TeamID req"] assms(5,6) known_scopes_props(2) by simp
  have "project_view (ProjectID req) (snd (ReconcilePermissions (\<lambda>_. False) fine (\<lambda>_. None) db r)) = project_view (ProjectID req) r"
    if "r_set r = (\<lambda>_. [])" for r using assms(1) that by (intro reconcile_project_view) simp_all
  from this [of empty_redis] this [of ?s] team [of empty_redis] team [of ?s] show ?thesis
    using assms(2,3) by (auto simp: project_view_def empty_redis_def modelAllowed_def isVirtualModelAllowedForProject_def Let_def
        GET_def live_def hash_of_def)
qed

subsection \<open>Revoked provider grants\<close>

text \<open>The stored hash of a project has the grant \<open>e\<close> for provider \<open>q\<close> and the expiry \<open>x\<close>.\<close>

definition holds_grant :: "id \<Rightarrow> id \<Rightarrow> providerAccessEntry \<Rightarrow> int option \<Rightarrow> policy_redis \<Rightarrow> bool" where
  "holds_grant p q e x r \<longleftrightarrow> (\<exists>fs. r_grants r (vprovidersKey p) = Some (fs, x) \<and> map_of fs q = Some (Some e))"

definition not_expired :: "int \<Rightarrow> int option \<Rightarrow> bool" where
  "not_expired now x \<longleftrightarrow> (case x of None \<Rightarrow> True | Some t \<Rightarrow> now < t)"

lemma live_not_expired: "not_expired now x \<Longrightarrow> live now (Some (v, x)) = Some (v, x)"
  by (auto simp: not_expired_def live_def split: option.splits)

definition grant_ttl :: int where "grant_ttl = 48 * 3600 * 1000"

lemma seed_grant_holds:
  assumes "holds_grant p q e x r" and "not_expired now x" and "\<not> (ppa_project g = p \<and> ppa_provider g = q)"
  shows "holds_grant p q e (if ppa_project g = p then Some (now + grant_ttl) else x) (seed_grant flt (\<lambda>_. None) now db g r)"
proof -
  obtain fs where fs: "r_grants r (vprovidersKey p) = Some (fs, x)" "map_of fs q = Some (Some e)"
    using assms(1) by (auto simp: holds_grant_def)
  note lv = live_not_expired [OF assms(2), of fs] live_not_expired [OF assms(2), of "put_field _ _ fs"]
  show ?thesis
  proof (cases "ppa_project g = p")
    case True
    then show ?thesis using fs assms(3) lv
      by (simp add: holds_grant_def seed_grant_def SetProjectProviderAccess_def HSET_grant_def EXPIRE_grant_def hash_of_def
          hash_expiry_def map_of_put_field grant_ttl_def)
  next
    case False
    then have "vprovidersKey p \<noteq> vprovidersKey (ppa_project g)" by auto
    then show ?thesis using fs False
      by (simp add: holds_grant_def seed_grant_def SetProjectProviderAccess_def HSET_grant_def EXPIRE_grant_def)
  qed
qed

lemma seed_fold_holds:
  assumes "holds_grant p q e x r" and "not_expired now x" and "\<forall>g\<in>set gs. \<not> (ppa_project g = p \<and> ppa_provider g = q)"
  shows "holds_grant p q e (if \<exists>g\<in>set gs. ppa_project g = p then Some (now + grant_ttl) else x)
    (fold (seed_grant flt (\<lambda>_. None) now db) gs r)"
  using assms
proof (induction gs arbitrary: r x)
  case (Cons g gs)
  let ?x = "if ppa_project g = p then Some (now + grant_ttl) else x"
  have "holds_grant p q e ?x (seed_grant flt (\<lambda>_. None) now db g r)" using Cons.prems by (intro seed_grant_holds) simp_all
  moreover have "not_expired now ?x" using Cons.prems(2) by (simp add: not_expired_def grant_ttl_def)
  ultimately have "holds_grant p q e (if \<exists>g\<in>set gs. ppa_project g = p then Some (now + grant_ttl) else ?x)
      (fold (seed_grant flt (\<lambda>_. None) now db) (g # gs) r)"
    using Cons.IH Cons.prems(3) by simp
  moreover have "(if \<exists>g\<in>set gs. ppa_project g = p then Some (now + grant_ttl) else ?x) =
      (if \<exists>h\<in>set (g # gs). ppa_project h = p then Some (now + grant_ttl) else x)" by simp
  ultimately show ?case by (simp only:)
qed simp

lemma fold_keeps_grants: "(\<And>x r. r_grants (f x r) = r_grants r) \<Longrightarrow> r_grants (fold f xs r) = r_grants r"
  by (induction xs arbitrary: r) simp_all

lemma pipe_keeps:
  assumes "\<And>c s. c \<in> set cs \<Longrightarrow> f (c s) = f s" shows "f (snd (pipe_exec b cs s)) = f s"
proof -
  have "f (fold (\<lambda>c. c) ds s) = f s" if "set ds \<subseteq> set cs" for ds s
    using that assms by (induction ds arbitrary: s) auto
  then show ?thesis by (cases b) (simp_all add: pipe_exec_def set_take_subset)
qed

lemma policy_keeps_grants: "r_grants (snd (SetProjectPolicy b now p pp r)) = r_grants r"
  unfolding SetProjectPolicy_def by (rule pipe_keeps) (auto simp: HSET_def EXPIRE_hash_def)

lemma seeds_keep_grants:
  "r_grants (seedModelPermissions flt net db r) = r_grants r" "r_grants (seedProjectPolicies flt brk now db r) = r_grants r"
  unfolding seedModelPermissions_def seedProjectPolicies_def
  by (rule fold_keeps_grants;
      simp add: case_prod_unfold SetModelAllowed_def SetOrgModelAllowed_def writing_def policy_keeps_grants)+

fun reloads :: "perm_db \<Rightarrow> int list \<Rightarrow> policy_redis \<Rightarrow> policy_redis" where
  "reloads db [] r = r"
| "reloads db (t # ts) r = reloads db ts (reload (\<lambda>_. False) fine (\<lambda>_. None) t db r)"

text \<open>Each reload comes less than 48 hours after the one before.\<close>

fun regular :: "int \<Rightarrow> int list \<Rightarrow> bool" where
  "regular t [] = True"
| "regular t (u # ts) = (t \<le> u \<and> u < t + grant_ttl \<and> regular u ts)"

lemma reload_holds:
  assumes "holds_grant p q e x r" and "not_expired t x"
    and "\<forall>a\<in>set (project_provider_access db). virtual_grant db a \<longrightarrow> \<not> (ppa_project a = p \<and> ppa_provider a = q)"
    and "a \<in> set (project_provider_access db)" and "virtual_grant db a" and "ppa_project a = p"
  shows "holds_grant p q e (Some (t + grant_ttl)) (reload (\<lambda>_. False) fine (\<lambda>_. None) t db r)"
proof -
  let ?gs = "sort_key (\<lambda>a. (ppa_project a, pv_name (the (provider_of a db)))) (filter (virtual_grant db) (project_provider_access db))"
  let ?r = "seedProjectPolicies (\<lambda>_. False) (\<lambda>_. None) t db (seedModelPermissions (\<lambda>_. False) fine db r)"
  have "holds_grant p q e x ?r" using assms(1) by (simp add: holds_grant_def seeds_keep_grants)
  from seed_fold_holds [OF this assms(2), of ?gs]
  have "holds_grant p q e (if \<exists>g\<in>set ?gs. ppa_project g = p then Some (t + grant_ttl) else x)
      (fold (seed_grant (\<lambda>_. False) (\<lambda>_. None) t db) ?gs ?r)" using assms(3) by simp
  moreover have "\<exists>g\<in>set ?gs. ppa_project g = p" using assms(4-6) by auto
  ultimately show ?thesis by (simp add: reload_def seedProjectProviderAccess_def AccessStore_ListAll_def)
qed

lemma holds_grant_allows:
  assumes "holds_grant p q e x r" and "not_expired now x" and "isAllowed e m"
  shows "isVirtualModelAllowedForProject fine now p m r"
proof -
  obtain fs where fs: "r_grants r (vprovidersKey p) = Some (fs, x)" "map_of fs q = Some (Some e)"
    using assms(1) by (auto simp: holds_grant_def)
  then have "(q, Some e) \<in> set fs" by (simp add: map_of_SomeD)
  then show ?thesis using fs(1) assms(3) live_not_expired [OF assms(2), of fs]
    by (auto simp: isVirtualModelAllowedForProject_def hash_of_def list_ex_iff intro!: bexI [of _ "(q, Some e)"])
qed

lemma reloads_hold:
  assumes "holds_grant p q e x r" and "not_expired t x" and "regular t ts" and "ts \<noteq> [] \<longrightarrow> hd ts = t"
    and "\<forall>a\<in>set (project_provider_access db). virtual_grant db a \<longrightarrow> \<not> (ppa_project a = p \<and> ppa_provider a = q)"
    and "a \<in> set (project_provider_access db)" and "virtual_grant db a" and "ppa_project a = p"
  shows "\<exists>x. holds_grant p q e x (reloads db ts r) \<and> not_expired (last (t # ts)) x"
  using assms(1-4)
proof (induction ts arbitrary: r x t)
  case (Cons u ts)
  have h: "holds_grant p q e (Some (u + grant_ttl)) (reload (\<lambda>_. False) fine (\<lambda>_. None) u db r)"
    using Cons.prems(1,2,4) by (intro reload_holds [OF _ _ assms(5-8)]) simp_all
  show ?case
  proof (cases ts)
    case Nil
    then show ?thesis using h by (auto simp: not_expired_def grant_ttl_def)
  next
    case (Cons v vs)
    have "not_expired v (Some (u + grant_ttl))" "regular v ts"
      using Cons.prems(3) Cons by (simp_all add: not_expired_def grant_ttl_def)
    then show ?thesis using Cons.IH [OF h, of v] Cons by simp
  qed
qed auto

text \<open>
  Revoking a project's access to a provider does not take it away. The handler disables the row
  in PostgreSQL, but nothing removes the grant from Redis: as long as the project has another grant,
  every reload of the gateway renews the expiry of the whole hash, and the revoked models stay
  allowed.
\<close>

theorem revoked_provider_access_survives:
  assumes "holds_grant p q e x r" and "not_expired t x" and "isAllowed e m"
    and "a \<in> set (project_provider_access db)" and "ppa_project a = p" and "ppa_provider a \<noteq> q" and "virtual_grant db a"
    and "regular t ts" and "ts = [] \<or> hd ts = t"
  shows "isVirtualModelAllowedForProject fine (last (t # ts)) p m
    (reloads (snd (RevokeProjectProviderAccess (\<lambda>_. False) p q db)) ts r)"
proof -
  let ?db = "snd (RevokeProjectProviderAccess (\<lambda>_. False) p q db)"
  have same: "virtual_grant ?db b = virtual_grant db b" for b
    by (simp add: RevokeProjectProviderAccess_def update_access_def virtual_grant_def enabled_grant_def provider_of_def)
  have tbl: "project_provider_access ?db =
      map (\<lambda>b. if ppa_project b = p \<and> ppa_provider b = q then b\<lparr>ppa_enabled := False\<rparr> else b) (project_provider_access db)"
    by (simp add: RevokeProjectProviderAccess_def update_access_def)
  have en: "virtual_grant d b \<Longrightarrow> ppa_enabled b" for d b by (simp add: virtual_grant_def enabled_grant_def)
  have none: "\<forall>b\<in>set (project_provider_access ?db). virtual_grant ?db b \<longrightarrow> \<not> (ppa_project b = p \<and> ppa_provider b = q)"
  proof (intro ballI impI notI)
    fix b assume "b \<in> set (project_provider_access ?db)" "virtual_grant ?db b" and b: "ppa_project b = p \<and> ppa_provider b = q"
    then obtain c where "b = (if ppa_project c = p \<and> ppa_provider c = q then c\<lparr>ppa_enabled := False\<rparr> else c)" "ppa_enabled b"
      unfolding tbl set_map using en by blast
    then show False using b by (simp split: if_splits)
  qed
  have mem: "a \<in> set (project_provider_access ?db)"
    using assms(4,6) unfolding tbl set_map by (intro image_eqI [of _ _ a]) simp_all
  have "ts \<noteq> [] \<longrightarrow> hd ts = t" "virtual_grant ?db a" using assms(7,9) same by auto
  from reloads_hold [OF assms(1,2,8) this(1) none mem this(2) assms(5)]
  obtain x' where "holds_grant p q e x' (reloads ?db ts r)" "not_expired (last (t # ts)) x'" by (elim exE conjE)
  then show ?thesis using assms(3) by (rule holds_grant_allows)
qed

text \<open>
  A grant request that leaves the prefix lists out, documented as optional, is answered with an error
  when a nil slice is encoded as NULL: the columns do not accept it.
\<close>

lemma grant_without_prefixes_fails:
  assumes "arr None = None"
  shows "fst (GrantProjectProviderAccess arr flt gid p prov cred None de db) \<in> {400, 500} \<and>
    snd (GrantProjectProviderAccess arr flt gid p prov cred None de db) = db"
  using assms by (auto simp: GrantProjectProviderAccess_def split: option.splits sum.splits)

subsection \<open>Witnesses\<close>

definition demo_perm_db :: perm_db where
  "demo_perm_db =
     \<lparr>models = [\<lparr>md_id = ''m1'', md_name = ''llama'', md_enabled = True, md_lifecycle = None, md_created = 1\<rparr>],
      teams = [(''t'', ''g'')], team_model_permissions = [(''t'', ''m1'')], project_model_permissions = [],
      model_permission_scopes = [(''team'', ''t''), (''project'', ''p'')],
      providers = [\<lparr>pv_id = ''q1'', pv_name = ''openrouter'', pv_enabled = True, pv_mode = Some ''catalog'', pv_prefix = []\<rparr>,
                   \<lparr>pv_id = ''q2'', pv_name = ''groq'', pv_enabled = True, pv_mode = Some ''hybrid'', pv_prefix = []\<rparr>],
      project_provider_access =
        [\<lparr>ppa_id = ''1'', ppa_project = ''p'', ppa_provider = ''q1'', AllowedPrefixes = [], DeniedPrefixes = [],
          ppa_enabled = True, ppa_credential = None\<rparr>,
         \<lparr>ppa_id = ''2'', ppa_project = ''p'', ppa_provider = ''q2'', AllowedPrefixes = [], DeniedPrefixes = [],
          ppa_enabled = True, ppa_credential = None\<rparr>],
      provider_credentials = [], project_policies = [], api_keys = []\<rparr>"

definition demo_acl_request :: InferenceRequest where
  "demo_acl_request = \<lparr>Model = ''llama'', EstimatedInputTokens = 1, OrgID = ''g'', TeamID = ''t'', ProjectID = ''p''\<rparr>"

theorem deny_all_lost_with_redis_witness:
  "modelAllowed fine 0 demo_acl_request (snd (ReconcilePermissions (\<lambda>_. False) fine (\<lambda>_. None) demo_perm_db empty_redis))"
  using deny_all_lost_with_redis [of demo_perm_db demo_acl_request 0]
  by (simp add: demo_perm_db_def demo_acl_request_def granted_names_def not_deleted_def)

theorem acknowledged_revocations_enforced_witness:
  "\<not> modelAllowed fine 0 (demo_acl_request\<lparr>ProjectID := []\<rparr>)
     (snd (snd (RemoveModelPermission (\<lambda>_. False) fine ''t'' ''llama'' (demo_perm_db, empty_redis))))"
proof -
  have "fst (RemoveModelPermission (\<lambda>_. False) fine ''t'' ''llama'' (demo_perm_db, empty_redis)) = 200"
    by (simp add: RemoveModelPermission_def team_model_lookup_def active_model_def newest_def not_deleted_def demo_perm_db_def
        RemoveModelAllowed_def writing_def Let_def)
  then show ?thesis
    using acknowledged_revocations_enforced [of "demo_acl_request\<lparr>ProjectID := []\<rparr>" "''llama''" "\<lambda>_. False" fine "''t''"
        demo_perm_db empty_redis fine 0 None "''p''"]
    by (simp add: demo_acl_request_def)
qed

definition demo_grant :: providerAccessEntry where
  "demo_grant = \<lparr>ProviderPrefix = ''openrouter'', AllowedPatterns = [], DeniedPatterns = []\<rparr>"

definition demo_seeded :: policy_redis where
  "demo_seeded = empty_redis\<lparr>r_grants := Map.empty(vprovidersKey ''p'' \<mapsto> ([(''q1'', Some demo_grant)], Some 100))\<rparr>"

theorem revoked_provider_access_survives_witness:
  "isVirtualModelAllowedForProject fine 60050 ''p'' ''openrouter/openai/gpt-4o''
     (reloads (snd (RevokeProjectProviderAccess (\<lambda>_. False) ''p'' ''q1'' demo_perm_db)) [50, 60050] demo_seeded)"
  using revoked_provider_access_survives [of "''p''" "''q1''" demo_grant "Some 100" demo_seeded 50 "''openrouter/openai/gpt-4o''"
      "project_provider_access demo_perm_db ! 1" demo_perm_db "[50, 60050]"]
  by (simp add: holds_grant_def demo_seeded_def not_expired_def isAllowed_def demo_grant_def HasPrefix_def prefix_rules_allow_def
      grant_ttl_def virtual_grant_def enabled_grant_def provider_of_def demo_perm_db_def)

end
