(* ===== verification/Backend_Types.thy ===== *)
theory Backend_Types
  imports Main
begin

text \<open>
  The backend types of \<open>internal/runtime/backend.go\<close>, the map of implementations that
  \<open>internal/runtime/registry.go\<close> is built with, and which types are cloud providers
  (\<open>internal/runtime/factory.go\<close>).
\<close>

definition provider_types :: "string list" where
  "provider_types =
     [''openai_provider'', ''anthropic_provider'', ''google_provider'', ''azure_openai_provider'', ''openrouter_provider'',
      ''groq_provider'', ''together_provider'', ''mistral_provider'', ''cohere_provider'', ''deepseek_provider'']"

definition IsProviderBackend :: "string \<Rightarrow> bool" where
  "IsProviderBackend t \<longleftrightarrow> t \<in> set provider_types"

definition registered_backends :: "string list" where
  "registered_backends = [''vllm'', ''tgi'', ''openai_compat'', ''cpu_native'', ''llamacpp''] @ provider_types"

text \<open>The type of the backend that serves an endpoint; an unknown type gets the compatible one.\<close>

definition BackendForType :: "string \<Rightarrow> string" where
  "BackendForType t = (if t \<in> set registered_backends then t else ''openai_compat'')"

end
