(* ===== verification/Start_Payload.thy ===== *)
theory Start_Payload
  imports Complex_Main Go_Text Backend_Types "HOL-Library.AList"
begin

text \<open>
  The payload of the task that starts a model (\<open>taskmanager.StartModelPayload\<close>), how the reconciler and
  the admin handlers build it, and what the backend adapters of \<open>internal/runtime\<close> add to it.

  A Go map from names to values is a list of pairs updated with \<^const>\<open>AList.update\<close>; its order stands for
  the order the program happens to iterate in. A \<open>float64\<close> is the rational number it denotes.
\<close>

type_synonym env = "(string \<times> string) list"

record StartModelPayload =
  sm_RuntimeID :: string
  sm_EndpointID :: string
  sm_ModelID :: string
  sm_RuntimeName :: string
  sm_Backend :: string
  sm_Image :: string
  sm_ModelName :: string
  sm_ServedAs :: string
  sm_BindHost :: string
  sm_BindPort :: int
  sm_GPUDevices :: "int list"
  sm_CPUSetCPUs :: string
  sm_NUMANode :: int
  sm_MemoryLimit :: string
  sm_CPULimit :: string
  sm_GGUFPath :: string
  sm_HFRepo :: string
  sm_HFFile :: string
  sm_HFToken :: string
  sm_ModelsVolume :: string
  sm_CtxSize :: int
  sm_NGPULayers :: int
  sm_ExecutionMode :: string
  sm_WorkloadPolicy :: string
  sm_TensorParallel :: int
  sm_GPUMemoryUtil :: rat
  sm_MaxModelLen :: int
  sm_Dtype :: string
  sm_Quantization :: string
  sm_ExtraArgs :: "string list"
  sm_Env :: env
  sm_LlamaCppModelPath :: string
  sm_LlamaCppHFRepo :: string
  sm_LlamaCppHFFile :: string
  sm_LlamaCppCtxSize :: int
  sm_LlamaCppNGPULayers :: int
  sm_LlamaCppModelsVolume :: string
  sm_StaleContainerNames :: "string list"

text \<open>The zero value of the structure: what a literal leaves out.\<close>

definition zero_payload :: StartModelPayload where
  "zero_payload = \<lparr>sm_RuntimeID = [], sm_EndpointID = [], sm_ModelID = [], sm_RuntimeName = [], sm_Backend = [], sm_Image = [],
     sm_ModelName = [], sm_ServedAs = [], sm_BindHost = [], sm_BindPort = 0, sm_GPUDevices = [], sm_CPUSetCPUs = [],
     sm_NUMANode = 0, sm_MemoryLimit = [], sm_CPULimit = [], sm_GGUFPath = [], sm_HFRepo = [], sm_HFFile = [], sm_HFToken = [],
     sm_ModelsVolume = [], sm_CtxSize = 0, sm_NGPULayers = 0, sm_ExecutionMode = [], sm_WorkloadPolicy = [],
     sm_TensorParallel = 0, sm_GPUMemoryUtil = 0, sm_MaxModelLen = 0, sm_Dtype = [], sm_Quantization = [], sm_ExtraArgs = [],
     sm_Env = [], sm_LlamaCppModelPath = [], sm_LlamaCppHFRepo = [], sm_LlamaCppHFFile = [], sm_LlamaCppCtxSize = 0,
     sm_LlamaCppNGPULayers = 0, sm_LlamaCppModelsVolume = [], sm_StaleContainerNames = []\<rparr>"

subsection \<open>Backend adapters\<close>

record ModelStartupCaps =
  SupportsThinking :: bool
  ThinkingEnabled :: bool

definition PrepareStartupArgs :: "string \<Rightarrow> ModelStartupCaps \<Rightarrow> string list \<Rightarrow> string list" where
  "PrepareStartupArgs backend caps extraArgs =
     (if BackendForType backend \<noteq> ''llamacpp'' then extraArgs
      else if \<not> SupportsThinking caps \<or> ThinkingEnabled caps then extraArgs
      else if list_ex (\<lambda>a. a = ''--reasoning'' \<or> a = ''-rea'') extraArgs then extraArgs
      else [''--reasoning'', ''off''] @ extraArgs)"

definition port_vars :: "int \<Rightarrow> env" where
  "port_vars port = [(''PORT'', FormatInt port), (''HTTP_PORT'', FormatInt port), (''UVICORN_PORT'', FormatInt port)]"

definition ContainerPortEnvVars :: "string \<Rightarrow> int \<Rightarrow> env" where
  "ContainerPortEnvVars backend port =
     (if BackendForType backend \<in> {''openai_compat'', ''cpu_native''} then port_vars port else [])"

definition merge_env :: "env \<Rightarrow> env \<Rightarrow> env" where
  "merge_env new old = fold (\<lambda>(k, v). AList.update k v) new old"

subsection \<open>The reconciler\<close>

text \<open>
  A row of \<open>loadRuntimeConfig\<close>'s query before the defaults; \<open>None\<close> is NULL, and for the JSON columns also a
  text of another shape, which both leave the variable nil.
\<close>

record config_columns =
  cc_backend :: "string option"
  cc_image :: "string option"
  cc_gguf :: "string option"
  cc_hf_repo :: "string option"
  cc_hf_file :: "string option"
  cc_hf_token :: "string option"
  cc_volume :: "string option"
  cc_ctx :: "int option"
  cc_layers :: "int option"
  cc_gpus :: "int list option"
  cc_mode :: "string option"
  cc_workload :: "string option"
  cc_memory :: "string option"
  cc_threads :: "string option"
  cc_tensor :: "int option"
  cc_util :: "rat option"
  cc_max_len :: "int option"
  cc_dtype :: "string option"
  cc_quant :: "string option"
  cc_extra :: "string list option"
  cc_env :: "env option"
  cc_supports_thinking :: "bool option"
  cc_thinking :: "bool option"

record runtimeConfig =
  rc_ModelID :: string
  rc_ModelName :: string
  rc_Backend :: string
  rc_Image :: string
  rc_GGUFPath :: string
  rc_HFRepo :: string
  rc_HFFile :: string
  rc_HFToken :: string
  rc_ModelsVolume :: string
  rc_CtxSize :: int
  rc_NGPULayers :: int
  rc_GPUDevices :: "int list"
  rc_ExecutionMode :: string
  rc_WorkloadPolicy :: string
  rc_MemoryLimit :: string
  rc_CPUThreads :: string
  rc_TensorParallel :: int
  rc_GPUMemoryUtil :: rat
  rc_MaxModelLen :: int
  rc_Dtype :: string
  rc_Quantization :: string
  rc_ExtraArgs :: "string list"
  rc_Env :: env

definition coalesce :: "'a \<Rightarrow> 'a option \<Rightarrow> 'a" where
  "coalesce d x = (case x of None \<Rightarrow> d | Some v \<Rightarrow> v)"

text \<open>\<open>registry\<close> tells whether the reconciler has one.\<close>

definition read_config :: "bool \<Rightarrow> string \<Rightarrow> string \<Rightarrow> config_columns \<Rightarrow> runtimeConfig" where
  "read_config registry modelID name c =
     (let backend = coalesce ''openai_compat'' (cc_backend c);
          caps = \<lparr>SupportsThinking = coalesce False (cc_supports_thinking c), ThinkingEnabled = coalesce False (cc_thinking c)\<rparr>;
          extra = coalesce [] (cc_extra c)
      in \<lparr>rc_ModelID = modelID, rc_ModelName = name, rc_Backend = backend, rc_Image = coalesce [] (cc_image c),
          rc_GGUFPath = coalesce [] (cc_gguf c), rc_HFRepo = coalesce [] (cc_hf_repo c), rc_HFFile = coalesce [] (cc_hf_file c),
          rc_HFToken = coalesce [] (cc_hf_token c), rc_ModelsVolume = coalesce [] (cc_volume c),
          rc_CtxSize = coalesce 4096 (cc_ctx c), rc_NGPULayers = coalesce 0 (cc_layers c),
          rc_GPUDevices = coalesce [] (cc_gpus c), rc_ExecutionMode = coalesce ''auto'' (cc_mode c),
          rc_WorkloadPolicy = coalesce ''lazy_load'' (cc_workload c), rc_MemoryLimit = coalesce [] (cc_memory c),
          rc_CPUThreads = coalesce [] (cc_threads c), rc_TensorParallel = coalesce 1 (cc_tensor c),
          rc_GPUMemoryUtil = coalesce (9 / 10) (cc_util c), rc_MaxModelLen = coalesce 0 (cc_max_len c),
          rc_Dtype = coalesce ''auto'' (cc_dtype c), rc_Quantization = coalesce [] (cc_quant c),
          rc_ExtraArgs = (if registry then PrepareStartupArgs backend caps extra else extra), rc_Env = coalesce [] (cc_env c)\<rparr>)"

definition reconciler_payload :: "runtimeConfig \<Rightarrow> string \<Rightarrow> string \<Rightarrow> string \<Rightarrow> int \<Rightarrow> string \<Rightarrow> StartModelPayload" where
  "reconciler_payload cfg runtimeID name host port effectiveMode =
     zero_payload\<lparr>sm_RuntimeID := runtimeID, sm_ModelID := rc_ModelID cfg, sm_RuntimeName := name, sm_Backend := rc_Backend cfg,
       sm_Image := rc_Image cfg, sm_ModelName := rc_ModelName cfg, sm_ServedAs := rc_ModelName cfg, sm_BindHost := host,
       sm_BindPort := port, sm_GPUDevices := rc_GPUDevices cfg, sm_MemoryLimit := rc_MemoryLimit cfg,
       sm_CPULimit := rc_CPUThreads cfg, sm_GGUFPath := rc_GGUFPath cfg, sm_HFRepo := rc_HFRepo cfg, sm_HFFile := rc_HFFile cfg,
       sm_HFToken := rc_HFToken cfg,
       sm_ModelsVolume := (if rc_ModelsVolume cfg = [] then ''nexus_models'' else rc_ModelsVolume cfg),
       sm_CtxSize := (if rc_CtxSize cfg = 0 then 4096 else rc_CtxSize cfg),
       sm_NGPULayers := (if effectiveMode = ''cpu'' then 0 else rc_NGPULayers cfg), sm_TensorParallel := rc_TensorParallel cfg,
       sm_GPUMemoryUtil := rc_GPUMemoryUtil cfg, sm_MaxModelLen := rc_MaxModelLen cfg, sm_Dtype := rc_Dtype cfg,
       sm_Quantization := rc_Quantization cfg, sm_ExtraArgs := rc_ExtraArgs cfg, sm_ExecutionMode := effectiveMode,
       sm_WorkloadPolicy := rc_WorkloadPolicy cfg,
       sm_Env := (if rc_HFToken cfg \<noteq> [] then AList.update ''HUGGING_FACE_HUB_TOKEN'' (rc_HFToken cfg) (rc_Env cfg) else rc_Env cfg)\<rparr>"

end
