(* ===== verification/Ha_Reconciler.thy ===== *)
theory Ha_Reconciler
  imports Preemption Start_Payload "HOL-Library.List_Lexorder" "HOL-Library.Char_ord"
begin

text \<open>
  \<open>internal/ha\<close>: the reconciler that keeps the desired number of replicas of each model alive, with
  the slot guard of \<open>internal/replicaguard\<close>, the address lookup of \<open>internal/nodeaddr\<close> and the database
  functions, view and trigger the migrations define for them.

  Times are seconds. \<open>flt\<close> tells which statements fail; a query whose error the code drops leaves the
  zero value. New identifiers come from \<open>gen\<close>, the JSON texts of task payloads from \<open>json\<close>. A panic
  of the program is the outcome \<open>None\<close>.
\<close>

subsection \<open>Tables\<close>

record ha_runtime =
  h_id :: id
  h_node :: id
  h_model :: id
  h_name :: string
  h_state :: string
  h_error :: string
  h_container :: string
  h_host :: string
  h_port :: int
  h_replaced_by :: "id option"
  h_updated :: int
  h_next_retry :: "int option"
  h_attempt :: int
  h_recovered_from :: "id option"
  h_index :: "int option"
  h_mode :: string

record replica_spec =
  rs_model :: id
  rs_desired :: "int option"
  rs_policy :: "string option"
  rs_auto :: "bool option"
  rs_surge :: "int option"
  rs_start_timeout :: "int option"
  rs_drain :: "int option"
  rs_grace :: "int option"
  rs_delay :: "int option"

text \<open>A model joined with its configuration and the image of its first endpoint.\<close>

record ha_model =
  hm_id :: id
  hm_name :: string
  hm_enabled :: bool
  hm_lifecycle :: "string option"
  hm_deployment :: "string option"
  hm_columns :: config_columns

record ha_node =
  hn_id :: id
  hn_ip :: "string option"
  hn_hostname :: "string option"
  hn_status :: string
  hn_cordoned :: bool
  hn_gpu_count :: "int option"
  hn_devices :: "(int \<times> int option) list"

record port_lease =
  pl_node :: id
  pl_port :: int
  pl_model :: id
  pl_runtime :: "id option"
  pl_released :: bool

record recovery_entry =
  re_id :: id
  re_model :: id
  re_runtime :: "id option"
  re_node :: "id option"
  re_status :: string
  re_reason :: string
  re_index :: int
  re_created :: int

record ha_db =
  runtimes :: "ha_runtime list"
  specs :: "replica_spec list"
  ha_models :: "ha_model list"
  ha_nodes :: "ha_node list"
  leases :: "port_lease list"
  recovery_log :: "recovery_entry list"
  ha_tasks :: task_db
  last_sweep :: int
  models_checked :: int
  recoveries_triggered :: int

definition spec_of :: "id \<Rightarrow> ha_db \<Rightarrow> replica_spec option" where
  "spec_of m db = find (\<lambda>s. rs_model s = m) (specs db)"

definition spec_field :: "(replica_spec \<Rightarrow> 'a option) \<Rightarrow> 'a \<Rightarrow> id \<Rightarrow> ha_db \<Rightarrow> 'a" where
  "spec_field f d m db = coalesce d (Option.bind (spec_of m db) f)"

subsection \<open>Slots, ports and addresses\<close>

definition non_terminal :: "string \<Rightarrow> bool" where
  "non_terminal s \<longleftrightarrow>
     s \<notin> {''stopped'', ''deleted'', ''archived'', ''unloaded'', ''lost'', ''draining'', ''failed'', ''unhealthy''}"

definition serving :: "string \<Rightarrow> bool" where
  "serving s \<longleftrightarrow> s \<in> {''ready'', ''active'', ''warm'', ''idle''}"

definition live_count :: "id \<Rightarrow> ha_db \<Rightarrow> int" where
  "live_count m db = int (length (filter (\<lambda>r. h_model r = m \<and> non_terminal (h_state r)) (runtimes db)))"

definition claim_replica_slot :: "id \<Rightarrow> int \<Rightarrow> int \<Rightarrow> ha_db \<Rightarrow> bool" where
  "claim_replica_slot m desired surge db \<longleftrightarrow> live_count m db < desired + surge"

definition ClaimSlot :: "bool \<Rightarrow> id \<Rightarrow> int \<Rightarrow> int list \<Rightarrow> ha_db \<Rightarrow> sql_error + bool" where
  "ClaimSlot fails m desired maxSurge db =
     (let surge = (case maxSurge of s # _ \<Rightarrow> if s > 1 then s else 1 | [] \<Rightarrow> 1) in
      if fails then Inl SqlDown else Inr (claim_replica_slot m desired surge db))"

definition DesiredReplicas :: "bool \<Rightarrow> id \<Rightarrow> ha_db \<Rightarrow> int \<times> bool" where
  "DesiredReplicas fails m db =
     (if fails then (1, True)
      else let n = spec_field rs_desired 1 m db in (if n \<le> 0 then 1 else n, False))"

definition active_lease :: "id \<Rightarrow> int \<Rightarrow> port_lease \<Rightarrow> bool" where
  "active_lease node port l \<longleftrightarrow> pl_node l = node \<and> pl_port l = port \<and> \<not> pl_released l"

definition release_node_port :: "id \<Rightarrow> int \<Rightarrow> port_lease list \<Rightarrow> port_lease list" where
  "release_node_port node port = map (\<lambda>l. if active_lease node port l then l\<lparr>pl_released := True\<rparr> else l)"

definition node_ports :: "int list" where "node_ports = [8100..8999]"

definition allocate_node_port :: "id \<Rightarrow> id \<Rightarrow> port_lease list \<Rightarrow> int \<times> port_lease list" where
  "allocate_node_port node model ls =
     (case find (\<lambda>p. \<not> list_ex (active_lease node p) ls) node_ports of
        None \<Rightarrow> (0, ls)
      | Some p \<Rightarrow> (p, ls @ [\<lparr>pl_node = node, pl_port = p, pl_model = model, pl_runtime = None, pl_released = False\<rparr>]))"

definition release_port :: "bool \<Rightarrow> id \<Rightarrow> int \<Rightarrow> ha_db \<Rightarrow> ha_db" where
  "release_port fails node port db = (if fails then db else db\<lparr>leases := release_node_port node port (leases db)\<rparr>)"

definition CanonicalHost :: "bool \<Rightarrow> id \<Rightarrow> ha_db \<Rightarrow> string option" where
  "CanonicalHost fails node db =
     (if node = [] \<or> fails then None
      else case find (\<lambda>n. hn_id n = node) (ha_nodes db) of
        None \<Rightarrow> None
      | Some n \<Rightarrow>
          if hn_ip n \<noteq> None \<and> hn_ip n \<noteq> Some [] then hn_ip n
          else if hn_hostname n \<noteq> None \<and> hn_hostname n \<noteq> Some [] then hn_hostname n
          else None)"

text \<open>
  An update of \<open>agent_runtimes\<close>. The trigger releases the port of a row that enters a terminal state.
\<close>

definition port_terminal :: "string \<Rightarrow> bool" where
  "port_terminal s \<longleftrightarrow> s \<in> {''stopped'', ''deleted'', ''archived'', ''unloaded'', ''failed''}"

definition update_runtimes ::
    "bool \<Rightarrow> (ha_runtime \<Rightarrow> bool) \<Rightarrow> (ha_runtime \<Rightarrow> ha_runtime) \<Rightarrow> ha_db \<Rightarrow> ha_db" where
  "update_runtimes fails P f db =
     (if fails then db
      else db\<lparr>runtimes := map (\<lambda>r. if P r then f r else r) (runtimes db),
              leases := fold (\<lambda>r. release_node_port (h_node r) (h_port r))
                (filter (\<lambda>r. P r \<and> port_terminal (h_state (f r)) \<and> \<not> port_terminal (h_state r)) (runtimes db)) (leases db)\<rparr>)"

definition runtime_by_id :: "bool \<Rightarrow> id \<Rightarrow> ha_db \<Rightarrow> ha_runtime option" where
  "runtime_by_id fails i db = (if fails then None else find (\<lambda>r. h_id r = i) (runtimes db))"

subsection \<open>Planning\<close>

record ReplicaStatus =
  st_model :: id
  st_name :: string
  st_desired :: int
  st_policy :: string
  st_auto :: bool
  st_surge :: int
  st_lost :: int

record ReconcileAction =
  ra_model :: id
  ra_name :: string
  ra_node :: id
  ra_index :: int
  ra_from :: id
  ra_reason :: string

definition mostRecentUnrepairedFailure :: "bool \<Rightarrow> id \<Rightarrow> ha_db \<Rightarrow> id" where
  "mostRecentUnrepairedFailure fails m db =
     (if fails then []
      else case sort_key (\<lambda>r. - h_updated r)
             (filter (\<lambda>r. h_model r = m \<and> h_state r \<in> {''failed'', ''stopped'', ''lost''} \<and> h_replaced_by r = None) (runtimes db)) of
        [] \<Rightarrow> [] | r # _ \<Rightarrow> h_id r)"

definition maxUnhealthyRecoveryAttempts :: int where "maxUnhealthyRecoveryAttempts = 5"

definition nextRecoveryAttempt :: "bool \<Rightarrow> id \<Rightarrow> ha_db \<Rightarrow> int \<times> bool" where
  "nextRecoveryAttempt fails recoveredFrom db =
     (if recoveredFrom = [] then (1, True)
      else case runtime_by_id fails recoveredFrom db of
        None \<Rightarrow> (1, True)
      | Some r \<Rightarrow> (h_attempt r + 1, h_attempt r + 1 \<le> maxUnhealthyRecoveryAttempts))"

text \<open>\<open>for i := 0; ; i++ { if !taken[i] { return i } }\<close>\<close>

function first_free :: "int list \<Rightarrow> int \<Rightarrow> int" where
  "first_free taken i = (if i \<in> set taken then first_free taken (i + 1) else i)"
  by pat_completeness auto
termination
proof (relation "measure (\<lambda>(taken, i). card {x \<in> set taken. i \<le> x})")
  fix taken :: "int list" and i :: int assume "i \<in> set taken"
  then have "i \<in> {x \<in> set taken. i \<le> x}" "i \<notin> {x \<in> set taken. i + 1 \<le> x}" by simp_all
  moreover have "{x \<in> set taken. i + 1 \<le> x} \<subseteq> {x \<in> set taken. i \<le> x}" by auto
  ultimately have "{x \<in> set taken. i + 1 \<le> x} \<subset> {x \<in> set taken. i \<le> x}" by blast
  then show "((taken, i + 1), taken, i) \<in> measure (\<lambda>(taken, i). card {x \<in> set taken. i \<le> x})"
    by (simp add: psubset_card_mono)
qed simp

declare first_free.simps [simp del]

definition taken_indices :: "id \<Rightarrow> ha_db \<Rightarrow> int list" where
  "taken_indices m db =
     map (\<lambda>r. coalesce (- 1) (h_index r)) (filter (\<lambda>r. h_model r = m \<and> non_terminal (h_state r)) (runtimes db))"

definition nextReplicaIndexUsing :: "bool \<Rightarrow> id \<Rightarrow> ha_db \<Rightarrow> int" where
  "nextReplicaIndexUsing fails m db = first_free (if fails then [] else taken_indices m db) 0"

text \<open>
  One row of the node query: the joins repeat every device for each runtime of the node and every
  runtime for each device, so the sum of free memory is counted once per runtime.
\<close>

definition node_rows :: "ha_node \<Rightarrow> ha_db \<Rightarrow> int" where
  "node_rows n db = max 1 (int (length (filter (\<lambda>r. h_node r = hn_id n) (runtimes db))))"

definition device_sum :: "ha_node \<Rightarrow> int" where
  "device_sum n = sum_list (map fst (hn_devices n)) - sum_list (map (coalesce 0 \<circ> snd) (hn_devices n))"

definition free_vram_mb :: "ha_node \<Rightarrow> ha_db \<Rightarrow> int" where
  "free_vram_mb n db = node_rows n db * device_sum n"

definition candidate_nodes :: "ha_db \<Rightarrow> ha_node list" where
  "candidate_nodes db =
     sort_key hn_id (filter (\<lambda>n. hn_status n \<in> {''online'', ''degraded''} \<and> \<not> hn_cordoned n) (ha_nodes db))"

definition existing_nodes :: "bool \<Rightarrow> id \<Rightarrow> ha_db \<Rightarrow> id list" where
  "existing_nodes fails m db =
     (if fails then []
      else map h_node (filter (\<lambda>r. h_model r = m \<and>
        h_state r \<notin> {''stopped'', ''deleted'', ''archived'', ''unloaded'', ''lost''}) (runtimes db)))"

fun most_vram :: "ha_db \<Rightarrow> ha_node \<Rightarrow> ha_node list \<Rightarrow> ha_node" where
  "most_vram db best [] = best"
| "most_vram db best (n # ns) = most_vram db (if free_vram_mb n db > free_vram_mb best db then n else best) ns"

definition selectNode :: "faults \<Rightarrow> ReplicaStatus \<Rightarrow> ha_db \<Rightarrow> id option" where
  "selectNode flt status db =
     (let nodes = candidate_nodes db;
          existing = existing_nodes (flt ''existing'') (st_model status) db;
          fresh = find (\<lambda>n. hn_id n \<notin> set existing) nodes;
          used = find (\<lambda>n. hn_id n \<in> set existing) nodes;
          fallback = Some (hn_id (most_vram db (hd nodes) (tl nodes)))
      in if flt ''nodes'' \<or> nodes = [] then None
         else if st_policy status = ''anti_affinity'' then
           (case fresh of Some n \<Rightarrow> Some (hn_id n) | None \<Rightarrow> if length nodes = 1 then Some (hn_id (hd nodes)) else None)
         else if st_policy status = ''spread'' then
           (case fresh of Some n \<Rightarrow> Some (hn_id n) | None \<Rightarrow> fallback)
         else if st_policy status = ''pack'' then
           (case used of Some n \<Rightarrow> Some (hn_id n) | None \<Rightarrow> fallback)
         else fallback)"

definition recoveryDelay :: "bool \<Rightarrow> id \<Rightarrow> ha_db \<Rightarrow> int" where
  "recoveryDelay fails m db =
     (let secs = (if fails \<or> spec_of m db = None then 0 else spec_field rs_delay 30 m db) in if secs \<le> 0 then 30 else secs)"

definition lostSince :: "bool \<Rightarrow> int \<Rightarrow> id \<Rightarrow> ha_db \<Rightarrow> int" where
  "lostSince fails now m db =
     (case sort_key h_updated (filter (\<lambda>r. h_model r = m \<and> h_state r = ''lost'') (runtimes db)) of
        [] \<Rightarrow> now | r # _ \<Rightarrow> if fails then now else h_updated r)"

definition recent_logs :: "bool \<Rightarrow> int \<Rightarrow> id \<Rightarrow> int \<Rightarrow> (string \<Rightarrow> bool) \<Rightarrow> ha_db \<Rightarrow> nat" where
  "recent_logs fails now m window P db =
     (if fails then 0
      else length (filter (\<lambda>e. re_model e = m \<and> re_created e > now - window \<and> P (re_reason e)) (recovery_log db)))"

definition recentLog :: "faults \<Rightarrow> int \<Rightarrow> id \<Rightarrow> ha_db \<Rightarrow> nat" where
  "recentLog flt now m db =
     (let dead = recent_logs (flt ''dead logs'') now m 60 (contains ''container-dead'') db in
      if dead = 0 then recent_logs (flt ''logs'') now m 360 (\<lambda>_. True) db else dead)"

definition plan :: "faults \<Rightarrow> int \<Rightarrow> ReplicaStatus \<Rightarrow> ha_db \<Rightarrow> ReconcileAction option" where
  "plan flt now status db =
     (let m = st_model status; nonTerminal = (if flt ''count'' then 0 else live_count m db) in
      if \<not> st_auto status then None
      else if nonTerminal \<ge> st_desired status then None
      else if recentLog flt now m db > 0 then None
      else if st_lost status > 0 \<and> now - lostSince (flt ''lost since'') now m db < recoveryDelay (flt ''delay'') m db then None
      else case selectNode flt status db of
        None \<Rightarrow> None
      | Some node \<Rightarrow>
          Some \<lparr>ra_model = m, ra_name = st_name status, ra_node = node,
                ra_index = nextReplicaIndexUsing (flt ''index'') m db,
                ra_from = mostRecentUnrepairedFailure (flt ''failure'') m db, 
                ra_reason = ''ha_recovery: non_terminal='' @ FormatInt nonTerminal @ '' lost='' @ FormatInt (st_lost status) @
                  '' desired='' @ FormatInt (st_desired status)\<rparr>)"

subsection \<open>Starting a replica\<close>

definition sanitize_char :: "char \<Rightarrow> char" where
  "sanitize_char c =
     (let n = (of_char c :: nat) in
      if 97 \<le> n \<and> n \<le> 122 \<or> is_digit c \<or> c = CHR ''-'' then c
      else if 65 \<le> n \<and> n \<le> 90 then char_of (n + 32)
      else CHR ''-'')"

definition sanitize :: "string \<Rightarrow> string" where "sanitize s = map sanitize_char s"

definition containerName :: "string \<Rightarrow> int \<Rightarrow> id \<Rightarrow> string" where
  "containerName name idx runtimeID =
     ''nexus-'' @ sanitize name @ ''-r'' @ FormatInt idx @ ''-'' @ take 6 (filter (\<lambda>c. c \<noteq> CHR ''-'') runtimeID)"

definition resolveExecutionMode :: "bool \<Rightarrow> id \<Rightarrow> runtimeConfig \<Rightarrow> ha_db \<Rightarrow> string" where
  "resolveExecutionMode fails node cfg db =
     (if rc_ExecutionMode cfg = ''cpu'' then ''cpu''
      else if rc_ExecutionMode cfg = ''gpu'' then ''gpu''
      else if \<not> fails \<and> coalesce 0 (Option.bind (find (\<lambda>n. hn_id n = node) (ha_nodes db)) hn_gpu_count) > 0 then ''gpu''
      else ''cpu'')"

definition recordLog :: "bool \<Rightarrow> int \<Rightarrow> id \<Rightarrow> ReconcileAction \<Rightarrow> id \<Rightarrow> string \<Rightarrow> string \<Rightarrow> ha_db \<Rightarrow> ha_db" where
  "recordLog fails now logID a runtimeID status reason db =
     (if fails then db
      else if list_ex (\<lambda>e. re_id e = logID) (recovery_log db)
      then db\<lparr>recovery_log := map (\<lambda>e. if re_id e = logID then e\<lparr>re_status := status, re_reason := reason\<rparr> else e) (recovery_log db)\<rparr>
      else db\<lparr>recovery_log := recovery_log db @
        [\<lparr>re_id = logID, re_model = ra_model a, re_runtime = nilableStr runtimeID, re_node = nilableStr (ra_node a),
          re_status = status, re_reason = reason, re_index = ra_index a, re_created = now\<rparr>]\<rparr>)"

definition loadRuntimeConfig :: "bool \<Rightarrow> bool \<Rightarrow> id \<Rightarrow> ha_db \<Rightarrow> runtimeConfig option" where
  "loadRuntimeConfig registry fails m db =
     (if fails then None
      else map_option (\<lambda>x. read_config registry (hm_id x) (hm_name x) (hm_columns x))
             (find (\<lambda>x. hm_id x = m \<and> hm_enabled x) (ha_models db)))"

datatype ha_error = ErrRecoveryChainExhausted | HaFailed string

definition new_runtime :: "int \<Rightarrow> id \<Rightarrow> runtimeConfig \<Rightarrow> string \<Rightarrow> int \<Rightarrow> int \<Rightarrow> string \<Rightarrow> ReconcileAction \<Rightarrow> int \<Rightarrow> ha_runtime" where
  "new_runtime now runtimeID cfg host port attempt mode a idx =
     \<lparr>h_id = runtimeID, h_node = ra_node a, h_model = ra_model a, h_name = containerName (rc_ModelName cfg) (ra_index a) runtimeID,
      h_state = ''pending'', h_error = [], h_container = [], h_host = host, h_port = port, h_replaced_by = None, h_updated = now,
      h_next_retry = None, h_attempt = attempt, h_recovered_from = nilableStr (ra_from a), h_index = Some idx, h_mode = mode\<rparr>"

text \<open>
  The transaction that claims a slot and inserts the row. It ends in an error with its log status, the
  runtime named in the log and the reason, or without a slot, or with the new row.
\<close>

definition claim_and_insert ::
    "faults \<Rightarrow> ReplicaStatus \<Rightarrow> ReconcileAction \<Rightarrow> (int \<Rightarrow> ha_runtime) \<Rightarrow> ha_db \<Rightarrow>
     (string \<times> id \<times> string) + (int \<times> ha_db) option" where
  "claim_and_insert flt status a row db =
     (if flt ''begin'' then Inl (''failed'', [], ''begin tx'')
      else case ClaimSlot (flt ''claim'') (ra_model a) (st_desired status) [if st_surge status < 1 then 1 else st_surge status] db of
        Inl _ \<Rightarrow> Inl (''skipped'', [], ''claim_replica_slot error'')
      | Inr False \<Rightarrow> Inr None
      | Inr True \<Rightarrow>
          (let idx = nextReplicaIndexUsing (flt ''tx index'') (ra_model a) db in
           if flt ''insert'' \<or> h_id (row idx) \<in> h_id ` set (runtimes db)
           then Inl (''failed'', h_id (row idx), ''insert agent_runtime'')
           else if flt ''commit'' then Inl (''failed'', h_id (row idx), ''commit tx'')
           else Inr (Some (idx, db\<lparr>runtimes := runtimes db @ [row idx]\<rparr>))))"

definition start_options :: "ReconcileAction \<Rightarrow> id \<Rightarrow> EnqueueOption list" where
  "start_options a runtimeID =
     [WithPriority 85, WithActor ''ha-reconciler'', WithRuntimeID runtimeID,
      WithIdempotencyKey (''ha-recover:'' @ ra_model a @ '':'' @ ra_node a @ '':'' @ runtimeID)]"

text \<open>What the whole pass shares: failures, time, new identifiers, whether there is a registry, the JSON texts of the two payloads and
  the text of a time.\<close>

record ha_world =
  hw_faults :: faults
  hw_now :: int
  hw_gen :: "string \<Rightarrow> id"
  hw_registry :: bool
  hw_start :: "StartModelPayload \<Rightarrow> string option"
  hw_stop :: "StopRuntimePayload \<Rightarrow> string option"
  hw_rfc3339 :: "int \<Rightarrow> string"

definition log_action :: "ha_world \<Rightarrow> ReconcileAction \<Rightarrow> id \<Rightarrow> string \<Rightarrow> string \<Rightarrow> ha_db \<Rightarrow> ha_db" where
  "log_action w a = recordLog (hw_faults w ''log'') (hw_now w) (hw_gen w ''log'') a"

definition give_up_port :: "ha_world \<Rightarrow> ReconcileAction \<Rightarrow> int \<Rightarrow> ha_db \<Rightarrow> ha_db" where
  "give_up_port w a = release_port (hw_faults w ''release'') (ra_node a)"

text \<open>Steps 0, 6 and 7, and 2 to 5 of \<open>executeReturningID\<close>.\<close>

definition abandon :: "ha_world \<Rightarrow> ReconcileAction \<Rightarrow> int \<Rightarrow> ha_db \<Rightarrow> ha_db" where
  "abandon w a attempt db =
     (let reason = ''recovery chain exhausted after '' @ FormatInt (attempt - 1) @ '' attempts'' in
      log_action w (a\<lparr>ra_index := - 1, ra_reason := reason\<rparr>) (ra_from a) ''abandoned'' reason
        (update_runtimes (hw_faults w ''mark lost'')
           (\<lambda>r. h_id r = ra_from a \<and> h_state r \<notin> {''lost'', ''stopped'', ''deleted'', ''archived''})
           (\<lambda>r. r\<lparr>h_state := ''lost'', h_error := reason, h_updated := hw_now w\<rparr>) db))"

definition dispatch_start ::
    "ha_world \<Rightarrow> ReconcileAction \<Rightarrow> runtimeConfig \<Rightarrow> ha_runtime \<Rightarrow> int \<Rightarrow> ha_db \<Rightarrow> (ha_error + id \<times> int) \<times> ha_db" where
  "dispatch_start w a cfg row idx db =
     (let flt = hw_faults w;
          db1 = (if flt ''link lease'' then db
                 else db\<lparr>leases := map (\<lambda>l. if active_lease (ra_node a) (h_port row) l
                        then l\<lparr>pl_runtime := Some (h_id row)\<rparr> else l) (leases db)\<rparr>)
      in case Enqueue (flt ''enqueue'') (hw_now w) (hw_gen w ''task'') (ra_node a) TaskStartModel
                (hw_start w (reconciler_payload cfg (h_id row) (h_name row) (h_host row) (h_port row) (h_mode row)))
                (start_options a (h_id row)) (ha_tasks db1) of
           (Inl _, _) \<Rightarrow>
             (Inl (HaFailed ''enqueue START_MODEL''),
              log_action w a (h_id row) ''failed'' ''enqueue'' (give_up_port w a (h_port row)
                (update_runtimes (flt ''mark failed'') (\<lambda>r. h_id r = h_id row) (\<lambda>r. r\<lparr>h_state := ''failed''\<rparr>) db1)))
         | (Inr _, ts) \<Rightarrow>
             (Inr (h_id row, h_attempt row),
              log_action w (a\<lparr>ra_index := idx\<rparr>) (h_id row) ''success'' (ra_reason a) (db1\<lparr>ha_tasks := ts\<rparr>)))"

definition place_replica ::
    "ha_world \<Rightarrow> ReplicaStatus \<Rightarrow> ReconcileAction \<Rightarrow> runtimeConfig \<Rightarrow> int \<Rightarrow> int \<Rightarrow> ha_db \<Rightarrow> (ha_error + id \<times> int) \<times> ha_db" where
  "place_replica w status a cfg attempt port db =
     (let flt = hw_faults w in
      case CanonicalHost (flt ''host'') (ra_node a) db of
        None \<Rightarrow> (Inl (HaFailed ''resolve bind host''), log_action w a [] ''failed'' ''resolve bind host'' (give_up_port w a port db))
      | Some host \<Rightarrow>
          (let row = new_runtime (hw_now w) (hw_gen w ''runtime'') cfg host port attempt
                       (resolveExecutionMode (flt ''capabilities'') (ra_node a) cfg db) a
           in case claim_and_insert flt status a row db of
                Inl (st, rt, why) \<Rightarrow> (Inl (HaFailed why), log_action w a rt st why (give_up_port w a port db))
              | Inr None \<Rightarrow> (Inr ([], 0), log_action w a [] ''skipped'' ''at capacity'' (give_up_port w a port db))
              | Inr (Some (idx, db')) \<Rightarrow> dispatch_start w a cfg (row idx) idx db'))"

definition executeReturningID ::
    "ha_world \<Rightarrow> ReplicaStatus \<Rightarrow> ReconcileAction \<Rightarrow> ha_db \<Rightarrow> (ha_error + id \<times> int) \<times> ha_db" where
  "executeReturningID w status a db =
     (let flt = hw_faults w in
      case nextRecoveryAttempt (flt ''attempt'') (ra_from a) db of
        (attempt, False) \<Rightarrow> (Inl ErrRecoveryChainExhausted, abandon w a attempt db)
      | (attempt, True) \<Rightarrow>
          (case loadRuntimeConfig (hw_registry w) (flt ''config'') (ra_model a) db of
             None \<Rightarrow> (Inl (HaFailed ''loadRuntimeConfig''), log_action w a [] ''failed'' ''loadRuntimeConfig'' db)
           | Some cfg \<Rightarrow>
               if rc_Image cfg = []
               then (Inl (HaFailed ''no runtime_image''), log_action w a [] ''failed'' ''model has no runtime_image configured'' db)
               else
                 (case (if flt ''port'' then (0, leases db) else allocate_node_port (ra_node a) (ra_model a) (leases db)) of
                    (port, ls) \<Rightarrow>
                      if port = 0
                      then (Inl (HaFailed ''allocate_node_port''), log_action w a [] ''failed'' ''allocate_node_port'' db)
                      else place_replica w status a cfg attempt port (db\<lparr>leases := ls\<rparr>))))"

subsection \<open>Rolling replacement\<close>

text \<open>\<open>base * time.Duration(uint(1) << uint(attempt))\<close> capped, in seconds; the attempts are at most six.\<close>

definition unhealthyRecoveryCooldown :: "int \<Rightarrow> int" where
  "unhealthyRecoveryCooldown attempt = (let d = 30 * 2 ^ nat attempt in if d > 900 then 900 else d)"

definition stop_options :: "int \<Rightarrow> string \<Rightarrow> id \<Rightarrow> string \<Rightarrow> EnqueueOption list" where
  "stop_options priority actor runtimeID key =
     [WithPriority priority, WithActor actor, WithRuntimeID runtimeID, WithIdempotencyKey key]"

definition stopFailedRuntimeContainer ::
    "faults \<Rightarrow> int \<Rightarrow> (string \<Rightarrow> id) \<Rightarrow> (StopRuntimePayload \<Rightarrow> string option) \<Rightarrow> id \<Rightarrow> ha_db \<Rightarrow> ha_db" where
  "stopFailedRuntimeContainer flt now gen json runtimeID db =
     (case runtime_by_id (flt ''load failed'') runtimeID db of
        None \<Rightarrow> db
      | Some r \<Rightarrow>
          if h_container r = [] \<or> h_node r = [] then db
          else case Enqueue (flt ''enqueue stop'') now (gen ''stop task'') (h_node r) TaskUnloadRuntime
                 (json \<lparr>sp_runtime = runtimeID, sp_container = h_container r, DrainSecs = 5\<rparr>)
                 (stop_options 70 ''ha-reconciler-failed-cleanup'' runtimeID (''failed-cleanup-stop:'' @ runtimeID)) (ha_tasks db) of
            (Inl _, _) \<Rightarrow> db
          | (Inr _, ts) \<Rightarrow> db\<lparr>ha_tasks := ts\<rparr>)"

definition loadPlacementPolicy :: "bool \<Rightarrow> id \<Rightarrow> ha_db \<Rightarrow> string" where
  "loadPlacementPolicy fails m db =
     (if fails \<or> spec_of m db = None then ''spread''
      else let p = spec_field rs_policy ''spread'' m db in if p = [] then ''spread'' else p)"

definition retry_later :: "ha_world \<Rightarrow> id \<Rightarrow> int \<Rightarrow> ha_db \<Rightarrow> ha_db" where
  "retry_later w runtimeID replacementAttempt =
     update_runtimes (hw_faults w ''retry'') (\<lambda>r. h_id r = runtimeID)
       (\<lambda>r. r\<lparr>h_replaced_by := None, h_updated := hw_now w,
              h_next_retry := Some (hw_now w + unhealthyRecoveryCooldown (replacementAttempt + 1))\<rparr>)"

text \<open>Case 1: a replacement has been started.\<close>

definition check_replacement :: "ha_world \<Rightarrow> ha_runtime \<Rightarrow> id \<Rightarrow> int \<Rightarrow> ha_db \<Rightarrow> ha_db" where
  "check_replacement w old new timeout db =
     (let flt = hw_faults w; now = hw_now w in
      case runtime_by_id (flt ''replacement'') new db of
        None \<Rightarrow> update_runtimes (flt ''clear'') (\<lambda>r. h_id r = h_id old) (\<lambda>r. r\<lparr>h_replaced_by := None, h_updated := now\<rparr>) db
      | Some n \<Rightarrow>
          if serving (h_state n) then
            update_runtimes (flt ''drain'') (\<lambda>r. h_id r = h_id old \<and> h_state r = ''unhealthy'')
              (\<lambda>r. r\<lparr>h_state := ''draining'', h_updated := now\<rparr>) db
          else if h_state n \<in> {''failed'', ''stopped'', ''deleted''} then
            retry_later w (h_id old) (h_attempt n) (stopFailedRuntimeContainer flt now (hw_gen w) (hw_stop w) new db)
          else if now - h_updated old > timeout then
            retry_later w (h_id old) (h_attempt n)
              (stopFailedRuntimeContainer flt now (hw_gen w) (hw_stop w) new
                (update_runtimes (flt ''timeout'') (\<lambda>r. h_id r = new)
                  (\<lambda>r. r\<lparr>h_state := ''failed'', h_error := ''rolling replacement: startup timeout exceeded'', h_updated := now\<rparr>) db))
          else db)"

definition rolling_status :: "faults \<Rightarrow> ha_runtime \<Rightarrow> string \<Rightarrow> int \<Rightarrow> int \<Rightarrow> ha_db \<Rightarrow> ReplicaStatus" where
  "rolling_status flt old name desired surge db =
     \<lparr>st_model = h_model old, st_name = name, st_desired = desired,
      st_policy = loadPlacementPolicy (flt ''policy'') (h_model old) db, st_auto = True, st_surge = surge, st_lost = 0\<rparr>"

text \<open>Case 2: none has been started.\<close>

definition launch_replacement :: "ha_world \<Rightarrow> ha_runtime \<Rightarrow> ReplicaStatus \<Rightarrow> ReconcileAction \<Rightarrow> ha_db \<Rightarrow> ha_db" where
  "launch_replacement w old status a db =
     (case executeReturningID w status a db of
        (Inl _, db') \<Rightarrow> db'
      | (Inr (newID, attemptNum), db') \<Rightarrow>
          if newID = [] then db'
          else update_runtimes (hw_faults w ''link'') (\<lambda>r. h_id r = h_id old)
                 (\<lambda>r. r\<lparr>h_replaced_by := Some newID, h_attempt := attemptNum, h_updated := hw_now w\<rparr>) db')"

definition spawn_replacement :: "ha_world \<Rightarrow> ha_runtime \<Rightarrow> string \<Rightarrow> int \<Rightarrow> int \<Rightarrow> ha_db \<Rightarrow> ha_db" where
  "spawn_replacement w old name desired surge db =
     (let flt = hw_faults w; now = hw_now w; status = rolling_status flt old name desired surge db in
      if (case h_next_retry old of Some t \<Rightarrow> now < t | None \<Rightarrow> now - h_updated old < unhealthyRecoveryCooldown 0) then db
      else case selectNode flt status db of
        None \<Rightarrow> db
      | Some node \<Rightarrow>
          launch_replacement w old status
            \<lparr>ra_model = h_model old, ra_name = name, ra_node = node,
             ra_index = nextReplicaIndexUsing (flt ''index'') (h_model old) db, ra_from = h_id old,
             ra_reason = ''rolling_replacement: old='' @ h_id old @ '' unhealthy_since='' @ hw_rfc3339 w (h_updated old)\<rparr> db)"

definition handleUnhealthyReplica :: "ha_world \<Rightarrow> ha_runtime \<Rightarrow> string \<Rightarrow> int \<Rightarrow> int \<Rightarrow> int \<Rightarrow> ha_db \<Rightarrow> ha_db" where
  "handleUnhealthyReplica w old name desired surge timeout db =
     (case h_replaced_by old of
        Some new \<Rightarrow> if new \<noteq> [] then check_replacement w old new timeout db else spawn_replacement w old name desired surge db
      | None \<Rightarrow> spawn_replacement w old name desired surge db)"

definition managed :: "(ha_model \<Rightarrow> bool) \<Rightarrow> id \<Rightarrow> ha_db \<Rightarrow> ha_model option" where
  "managed P m db = find (\<lambda>x. hm_id x = m \<and> P x \<and> SQLManagedCondition (hm_deployment x)) (ha_models db)"

definition always_on :: "ha_model \<Rightarrow> bool" where
  "always_on m \<longleftrightarrow> coalesce ''lazy_load'' (cc_workload (hm_columns m)) = ''always_on''"

definition unhealthy_rows :: "bool \<Rightarrow> ha_db \<Rightarrow> (ha_runtime \<times> ha_model) list" where
  "unhealthy_rows fails db =
     (if fails then []
      else List.map_filter (\<lambda>r. if h_state r = ''unhealthy''
        then map_option (\<lambda>m. (r, m)) (managed (\<lambda>x. SQLCondition (hm_enabled x) (hm_lifecycle x) \<and> always_on x) (h_model r) db)
        else None) (runtimes db))"

text \<open>Every row is handled with its own faults and identifiers; the rows and specifications are read once.\<close>

definition stepUnhealthyReplicas :: "(id \<Rightarrow> ha_world) \<Rightarrow> bool \<Rightarrow> ha_db \<Rightarrow> ha_db" where
  "stepUnhealthyReplicas ws fails db =
     fold (\<lambda>(r, m). handleUnhealthyReplica (ws (h_id r)) r (hm_name m) (spec_field rs_desired 1 (h_model r) db)
         (spec_field rs_surge 1 (h_model r) db) (spec_field rs_start_timeout 900 (h_model r) db))
       (unhealthy_rows fails db) db"

definition stopDrainedRuntime :: "ha_world \<Rightarrow> ha_runtime \<Rightarrow> int \<Rightarrow> ha_db \<Rightarrow> ha_db" where
  "stopDrainedRuntime w r grace db =
     (let flt = hw_faults w; now = hw_now w;
          db1 = update_runtimes (flt ''stopping'') (\<lambda>x. h_id x = h_id r \<and> h_state x = ''draining'')
                  (\<lambda>x. x\<lparr>h_state := ''stopping'', h_updated := now\<rparr>) db
      in case Enqueue (flt ''enqueue drain'') now (hw_gen w ''drain task'') (h_node r) TaskUnloadRuntime
                (hw_stop w \<lparr>sp_runtime = h_id r, sp_container = h_container r, DrainSecs = grace\<rparr>)
                (stop_options 70 ''ha-reconciler-drain'' (h_id r) (''drain-stop:'' @ h_id r)) (ha_tasks db1) of
           (Inl _, _) \<Rightarrow> update_runtimes (flt ''back'') (\<lambda>x. h_id x = h_id r \<and> h_state x = ''stopping'')
                           (\<lambda>x. x\<lparr>h_state := ''draining'', h_updated := now\<rparr>) db1
         | (Inr _, ts) \<Rightarrow> db1\<lparr>ha_tasks := ts\<rparr>)"

text \<open>The number of active connections is the constant 0 of the query.\<close>

definition drained :: "int \<Rightarrow> ha_db \<Rightarrow> ha_runtime \<Rightarrow> bool" where
  "drained now db r \<longleftrightarrow>
     (let timeInDrain = now - h_updated r; activeConns = (0::int) in
      timeInDrain \<ge> spec_field rs_drain 30 (h_model r) db \<or> activeConns = 0 \<and> timeInDrain \<ge> 2)"

definition stepDrainingReplicas :: "(id \<Rightarrow> ha_world) \<Rightarrow> bool \<Rightarrow> ha_db \<Rightarrow> ha_db" where
  "stepDrainingReplicas ws fails db =
     fold (\<lambda>r. stopDrainedRuntime (ws (h_id r)) r (spec_field rs_grace 15 (h_model r) db))
       (if fails then []
        else filter (\<lambda>r. h_state r = ''draining'' \<and> managed hm_enabled (h_model r) db \<noteq> None \<and>
               drained (hw_now (ws (h_id r))) db r) (runtimes db)) db"

definition rollingReplacementSweep :: "(id \<Rightarrow> ha_world) \<Rightarrow> faults \<Rightarrow> ha_db \<Rightarrow> ha_db" where
  "rollingReplacementSweep ws flt db =
     stepDrainingReplicas ws (flt ''draining rows'') (stepUnhealthyReplicas ws (flt ''unhealthy rows'') db)"

subsection \<open>The sweep\<close>

definition stale_failed :: "int \<Rightarrow> ha_runtime \<Rightarrow> bool" where
  "stale_failed now r \<longleftrightarrow>
     h_state r = ''failed'' \<and> \<not> contains ''[container-dead]'' (h_error r) \<and> h_updated r < now - 300"

text \<open>
  \<open>res, _ := ExecContext(...)\<close> followed by \<open>res.RowsAffected()\<close>: on an error \<open>res\<close> is nil and the call
  panics.
\<close>

definition sweepFailedContainers :: "(id \<Rightarrow> ha_world) \<Rightarrow> faults \<Rightarrow> int \<Rightarrow> ha_db \<Rightarrow> ha_db option" where
  "sweepFailedContainers ws flt now db =
     (if flt ''dead rows'' then None
      else
        (let db1 = update_runtimes False (\<lambda>r. h_state r = ''failed'' \<and> contains ''[container-dead]'' (h_error r))
                     (\<lambda>r. r\<lparr>h_state := ''stopped'', h_updated := now\<rparr>) db;
             stale = (if flt ''stale rows'' then [] else map h_id (filter (stale_failed now) (runtimes db1)));
             db2 = fold (\<lambda>i. stopFailedRuntimeContainer (hw_faults (ws i)) now (hw_gen (ws i)) (hw_stop (ws i)) i) stale db1
         in if stale = [] then Some db2
            else if flt ''move stale'' then None
            else Some (update_runtimes False (stale_failed now)
              (\<lambda>r. r\<lparr>h_state := ''stopped'', h_updated := now,
                     h_error := h_error r @ '' [ha-sweep: moved failed to stopped after grace period]''\<rparr>) db2)))"

definition replica_status :: "ha_db \<Rightarrow> ha_model \<Rightarrow> ReplicaStatus" where
  "replica_status db m =
     \<lparr>st_model = hm_id m, st_name = hm_name m, st_desired = spec_field rs_desired 1 (hm_id m) db,
      st_policy = spec_field rs_policy ''spread'' (hm_id m) db, st_auto = spec_field rs_auto True (hm_id m) db,
      st_surge = spec_field rs_surge 1 (hm_id m) db,
      st_lost = int (length (filter (\<lambda>r. h_model r = hm_id m \<and> h_state r = ''lost'') (runtimes db)))\<rparr>"

definition loadReplicaStatuses :: "bool \<Rightarrow> ha_db \<Rightarrow> ReplicaStatus list option" where
  "loadReplicaStatuses fails db =
     (if fails then None
      else Some (filter (\<lambda>s. st_desired s > 0) (map (replica_status db)
        (filter (\<lambda>m. SQLCondition (hm_enabled m) (hm_lifecycle m) \<and> always_on m \<and> SQLManagedCondition (hm_deployment m))
          (ha_models db)))))"

text \<open>One model of the sweep, with whether it is counted as a triggered recovery.\<close>

definition recover_model :: "ha_world \<Rightarrow> ReplicaStatus \<Rightarrow> ha_db \<Rightarrow> bool \<times> ha_db" where
  "recover_model w status db =
     (case plan (hw_faults w) (hw_now w) status db of
        None \<Rightarrow> (False, db)
      | Some a \<Rightarrow>
          (case executeReturningID w status a db of
             (Inl _, db') \<Rightarrow> (False, db')
           | (Inr (newID, _), db') \<Rightarrow>
               (True,
                if ra_from a \<noteq> [] \<and> newID \<noteq> []
                then update_runtimes (hw_faults w ''advance'') (\<lambda>r. h_id r = ra_from a)
                       (\<lambda>r. r\<lparr>h_replaced_by := Some newID, h_updated := hw_now w\<rparr>) db'
                else db')))"

fun recover_models :: "(id \<Rightarrow> ha_world) \<Rightarrow> ReplicaStatus list \<Rightarrow> int \<Rightarrow> int \<Rightarrow> ha_db \<Rightarrow> int \<times> int \<times> ha_db" where
  "recover_models ws [] checked triggered db = (checked, triggered, db)"
| "recover_models ws (s # ss) checked triggered db =
     (case recover_model (ws (st_model s)) s db of
        (t, db') \<Rightarrow> recover_models ws ss (checked + 1) (if t then triggered + 1 else triggered) db')"

definition ha_sweep :: "(id \<Rightarrow> ha_world) \<Rightarrow> faults \<Rightarrow> int \<Rightarrow> ha_db \<Rightarrow> ha_db option" where
  "ha_sweep ws flt now db =
     (case sweepFailedContainers ws flt now (rollingReplacementSweep ws flt db) of
        None \<Rightarrow> None
      | Some db1 \<Rightarrow>
          (case loadReplicaStatuses (flt ''statuses'') db1 of
             None \<Rightarrow> Some db1
           | Some statuses \<Rightarrow>
               (case recover_models ws statuses 0 0 db1 of
                  (checked, triggered, db2) \<Rightarrow>
                    Some (if flt ''reconciler state'' then db2
                      else db2\<lparr>last_sweep := now, models_checked := checked, recoveries_triggered := triggered\<rparr>))))"

end
