(* ===== verification/Ha_Lifecycle.thy ===== *)
theory Ha_Lifecycle
  imports Ha_Reconciler
begin

text \<open>
  The replica life cycle the reconciler promises, as a step relation on the rows of \<open>agent_runtimes\<close>, and
  its invariants; then the simulation: every operation of the sweep performs steps of the life cycle,
  under any failures.
\<close>

named_theorems tracks_intros

subsection \<open>The life cycle\<close>

definition same_replica :: "ha_runtime \<Rightarrow> ha_runtime \<Rightarrow> bool" where
  "same_replica r r' \<longleftrightarrow>
     h_id r' = h_id r \<and> h_node r' = h_node r \<and> h_model r' = h_model r \<and> h_name r' = h_name r \<and>
     h_container r' = h_container r \<and> h_host r' = h_host r \<and> h_port r' = h_port r \<and> h_index r' = h_index r \<and>
     h_mode r' = h_mode r \<and> h_recovered_from r' = h_recovered_from r"

definition handed_over :: "ha_runtime list \<Rightarrow> id \<Rightarrow> bool" where
  "handed_over rs i \<longleftrightarrow>
     (\<exists>r\<in>set rs. \<exists>n\<in>set rs. h_id r = i \<and> h_state r = ''unhealthy'' \<and> h_replaced_by r = Some (h_id n) \<and> serving (h_state n))"

inductive state_step :: "bool \<Rightarrow> string \<Rightarrow> string \<Rightarrow> bool" where
  stay: "state_step h s s"
| give_up: "s \<notin> {''lost'', ''stopped'', ''deleted'', ''archived''} \<Longrightarrow> state_step h s ''lost''"
| fail: "state_step h s ''failed''"
| drain: "state_step True ''unhealthy'' ''draining''"
| stop: "state_step h ''draining'' ''stopping''"
| resume: "state_step h ''stopping'' ''draining''"
| clean: "state_step h ''failed'' ''stopped''"

inductive_cases state_stepE: "state_step h s s'"

definition row_step :: "ha_runtime list \<Rightarrow> ha_runtime \<Rightarrow> ha_runtime \<Rightarrow> bool" where
  "row_step rs0 r r' \<longleftrightarrow>
     same_replica r r' \<and> \<not> serving (h_state r) \<and> state_step (handed_over rs0 (h_id r)) (h_state r) (h_state r') \<and>
     (h_attempt r' = h_attempt r \<or> h_attempt r' \<le> maxUnhealthyRecoveryAttempts)"

definition occupied :: "id \<Rightarrow> ha_runtime list \<Rightarrow> int" where
  "occupied m rs = int (length (filter (\<lambda>r. h_model r = m \<and> non_terminal (h_state r) \<and> h_state r \<noteq> ''stopping'') rs))"

text \<open>\<open>rs0\<close> are the rows at the start of the sweep, \<open>slots\<close> the number of slots of a model.\<close>

inductive replica_step :: "ha_runtime list \<Rightarrow> (id \<Rightarrow> int) \<Rightarrow> ha_runtime list \<Rightarrow> ha_runtime list \<Rightarrow> bool"
  for rs0 slots where
  evolve: "(\<And>r. r \<in> set rs \<Longrightarrow> P r \<Longrightarrow> row_step rs0 r (f r)) \<Longrightarrow>
     replica_step rs0 slots rs (map (\<lambda>r. if P r then f r else r) rs)"
| start: "h_id r \<notin> h_id ` set rs \<Longrightarrow> h_state r = ''pending'' \<Longrightarrow> h_attempt r \<le> maxUnhealthyRecoveryAttempts \<Longrightarrow>
     occupied (h_model r) rs < slots (h_model r) \<Longrightarrow> replica_step rs0 slots rs (rs @ [r])"

lemma state_step_not_serving: "state_step h s s' \<Longrightarrow> \<not> serving s \<Longrightarrow> \<not> serving s'"
  by (erule state_stepE) (auto simp: serving_def)

lemma state_step_not_occupying:
  "state_step h s s' \<Longrightarrow> non_terminal s' \<Longrightarrow> s' \<noteq> ''stopping'' \<Longrightarrow> non_terminal s \<and> s \<noteq> ''stopping''"
  by (erule state_stepE) (auto simp: non_terminal_def)

lemma row_stepD:
  assumes "row_step rs0 r r'"
  shows "h_id r' = h_id r" "h_model r' = h_model r" "\<not> serving (h_state r)" "\<not> serving (h_state r')"
    "h_attempt r \<le> maxUnhealthyRecoveryAttempts \<Longrightarrow> h_attempt r' \<le> maxUnhealthyRecoveryAttempts"
  using assms state_step_not_serving unfolding row_step_def same_replica_def by auto

subsection \<open>Invariants of the life cycle\<close>

lemma filter_map_if_same:
  assumes "\<And>x. x \<in> set xs \<Longrightarrow> P x \<Longrightarrow> \<not> Q x \<and> \<not> Q (f x)"
  shows "filter Q (map (\<lambda>x. if P x then f x else x) xs) = filter Q xs"
  using assms by (induction xs) auto

lemma length_filter_map_le:
  assumes "\<And>x. x \<in> set xs \<Longrightarrow> Q (g x) \<Longrightarrow> Q x"
  shows "length (filter Q (map g xs)) \<le> length (filter Q xs)"
  using assms by (induction xs) (auto intro: le_SucI)

lemma replica_step_serving:
  "replica_step rs0 slots rs rs' \<Longrightarrow> filter (\<lambda>r. serving (h_state r)) rs' = filter (\<lambda>r. serving (h_state r)) rs"
proof (induction rule: replica_step.induct)
  case (evolve rs P f)
  then show ?case by (intro filter_map_if_same) (blast dest: row_stepD)
next
  case (start r rs)
  then show ?case by (simp add: serving_def)
qed

lemma replica_step_ids: "replica_step rs0 slots rs rs' \<Longrightarrow> distinct (map h_id rs) \<Longrightarrow> distinct (map h_id rs')"
proof (induction rule: replica_step.induct)
  case (evolve rs P f)
  then have "map h_id (map (\<lambda>r. if P r then f r else r) rs) = map h_id rs"
    using row_stepD(1) by (auto simp: map_eq_conv)
  with evolve.prems show ?case by metis
next
  case (start r rs)
  then show ?case by simp
qed

lemma replica_step_occupied:
  "replica_step rs0 slots rs rs' \<Longrightarrow> occupied m rs' \<le> max (occupied m rs) (slots m)"
proof (induction rule: replica_step.induct)
  case (evolve rs P f)
  have "length (filter (\<lambda>r. h_model r = m \<and> non_terminal (h_state r) \<and> h_state r \<noteq> ''stopping'')
      (map (\<lambda>r. if P r then f r else r) rs)) \<le>
    length (filter (\<lambda>r. h_model r = m \<and> non_terminal (h_state r) \<and> h_state r \<noteq> ''stopping'') rs)"
  proof (rule length_filter_map_le)
    fix r assume r: "r \<in> set rs" and
      "h_model (if P r then f r else r) = m \<and> non_terminal (h_state (if P r then f r else r)) \<and>
       h_state (if P r then f r else r) \<noteq> ''stopping''"
    then show "h_model r = m \<and> non_terminal (h_state r) \<and> h_state r \<noteq> ''stopping''"
      using evolve [OF r] by (cases "P r") (auto simp: row_step_def same_replica_def dest: state_step_not_occupying)
  qed
  then show ?case by (simp add: occupied_def)
next
  case (start r rs)
  then show ?case by (cases "h_model r = m") (auto simp: occupied_def)
qed

lemma replica_step_attempts:
  "replica_step rs0 slots rs rs' \<Longrightarrow> \<forall>r\<in>set rs. h_attempt r \<le> maxUnhealthyRecoveryAttempts \<Longrightarrow>
   \<forall>r\<in>set rs'. h_attempt r \<le> maxUnhealthyRecoveryAttempts"
proof (induction rule: replica_step.induct)
  case (evolve rs P f)
  then show ?case by (auto dest: row_stepD(5))
next
  case (start r rs)
  then show ?case by auto
qed

text \<open>A row is drained or stopped only if it was already, or has handed over.\<close>

definition retired_well :: "ha_runtime list \<Rightarrow> ha_runtime list \<Rightarrow> bool" where
  "retired_well rs0 rs \<longleftrightarrow>
     (\<forall>r\<in>set rs. h_state r \<in> {''draining'', ''stopping''} \<longrightarrow>
        handed_over rs0 (h_id r) \<or> (\<exists>r0\<in>set rs0. h_id r0 = h_id r \<and> h_state r0 \<in> {''draining'', ''stopping''}))"

lemma row_step_retired:
  assumes "row_step rs0 r r'" "h_state r' \<in> {''draining'', ''stopping''}"
  shows "h_state r \<in> {''draining'', ''stopping''} \<or> handed_over rs0 (h_id r)"
  using assms unfolding row_step_def by (auto elim: state_stepE)

lemma replica_step_retired: "replica_step rs0 slots rs rs' \<Longrightarrow> retired_well rs0 rs \<Longrightarrow> retired_well rs0 rs'"
proof (induction rule: replica_step.induct)
  case (evolve rs P f)
  show ?case unfolding retired_well_def
  proof (intro ballI impI)
    fix r' assume "r' \<in> set (map (\<lambda>r. if P r then f r else r) rs)" and s: "h_state r' \<in> {''draining'', ''stopping''}"
    then obtain r where r: "r \<in> set rs" "r' = (if P r then f r else r)" by auto
    show "handed_over rs0 (h_id r') \<or> (\<exists>r0\<in>set rs0. h_id r0 = h_id r' \<and> h_state r0 \<in> {''draining'', ''stopping''})"
    proof (cases "P r")
      case True
      then have "row_step rs0 r r'" using evolve.hyps r by simp
      then show ?thesis using row_step_retired [of rs0 r r'] row_stepD(1) [of rs0 r r'] s r evolve.prems
        unfolding retired_well_def by metis
    next
      case False
      then show ?thesis using r s evolve.prems unfolding retired_well_def by metis
    qed
  qed
next
  case (start r rs)
  then show ?case by (auto simp: retired_well_def)
qed

subsection \<open>Tracking the life cycle\<close>

definition slots_of :: "ha_db \<Rightarrow> id \<Rightarrow> int" where
  "slots_of db m = spec_field rs_desired 1 m db + max 1 (spec_field rs_surge 1 m db)"

definition exclusive_leases :: "port_lease list \<Rightarrow> bool" where
  "exclusive_leases ls \<longleftrightarrow>
     distinct (map (\<lambda>l. (pl_node l, pl_port l)) (filter (\<lambda>l. \<not> pl_released l) ls)) \<and>
     (\<forall>l\<in>set ls. \<not> pl_released l \<longrightarrow> 8100 \<le> pl_port l \<and> pl_port l \<le> 8999)"

abbreviation ha_steps :: "ha_db \<Rightarrow> ha_runtime list \<Rightarrow> ha_runtime list \<Rightarrow> bool" where
  "ha_steps db0 \<equiv> (replica_step (runtimes db0) (slots_of db0))\<^sup>*\<^sup>*"

definition tracks :: "ha_db \<Rightarrow> ha_db \<Rightarrow> bool" where
  "tracks db0 db \<longleftrightarrow>
     specs db = specs db0 \<and> ha_steps db0 (runtimes db0) (runtimes db) \<and> distinct (map h_id (runtimes db)) \<and>
     (exclusive_leases (leases db0) \<longrightarrow> exclusive_leases (leases db))"

definition idle_id :: "ha_db \<Rightarrow> id \<Rightarrow> bool" where
  "idle_id db i \<longleftrightarrow> (\<forall>r\<in>set (runtimes db). h_id r = i \<longrightarrow> \<not> serving (h_state r))"

lemma tracks_refl: "distinct (map h_id (runtimes db)) \<Longrightarrow> tracks db db"
  by (simp add: tracks_def)

lemma ha_steps_serving:
  "ha_steps db0 rs rs' \<Longrightarrow> filter (\<lambda>r. serving (h_state r)) rs' = filter (\<lambda>r. serving (h_state r)) rs"
  by (induction rule: rtranclp_induct) (simp_all add: replica_step_serving)

lemma tracks_serving_iff:
  assumes "tracks db0 db" "serving (h_state r)"
  shows "r \<in> set (runtimes db) \<longleftrightarrow> r \<in> set (runtimes db0)"
proof -
  have "r \<in> set (filter (\<lambda>r. serving (h_state r)) (runtimes db)) \<longleftrightarrow>
    r \<in> set (filter (\<lambda>r. serving (h_state r)) (runtimes db0))"
    using ha_steps_serving [of db0 "runtimes db0" "runtimes db"] assms(1) unfolding tracks_def by metis
  with assms(2) show ?thesis by simp
qed

lemma tracks_idle: "tracks db0 db \<Longrightarrow> idle_id db i \<longleftrightarrow> idle_id db0 i"
  unfolding idle_id_def using tracks_serving_iff by blast

lemma tracks_distinct: "tracks db0 db \<Longrightarrow> distinct (map h_id (runtimes db))"
  by (simp add: tracks_def)

lemma distinct_idle:
  assumes "distinct (map h_id (runtimes db))" "r \<in> set (runtimes db)" "\<not> serving (h_state r)"
  shows "idle_id db (h_id r)"
  using assms unfolding idle_id_def by (metis distinct_map inj_onD)

text \<open>Changes of other tables, and of leases that stay exclusive.\<close>

lemma tracks_same_rows:
  assumes "tracks db0 db" "specs db' = specs db" "runtimes db' = runtimes db"
    "exclusive_leases (leases db) \<Longrightarrow> exclusive_leases (leases db')"
  shows "tracks db0 db'"
  using assms by (auto simp: tracks_def)

lemma tracks_step:
  assumes "tracks db0 db" "replica_step (runtimes db0) (slots_of db0) (runtimes db) (runtimes db')"
    "specs db' = specs db" "exclusive_leases (leases db) \<Longrightarrow> exclusive_leases (leases db')"
  shows "tracks db0 db'"
  using assms replica_step_ids by (auto simp: tracks_def intro: rtranclp.rtrancl_into_rtrancl)

lemma release_keys:
  "map (\<lambda>l. (pl_node l, pl_port l)) (filter (\<lambda>l. \<not> pl_released l) (release_node_port n p ls)) =
   filter (\<lambda>k. k \<noteq> (n, p)) (map (\<lambda>l. (pl_node l, pl_port l)) (filter (\<lambda>l. \<not> pl_released l) ls))"
  unfolding release_node_port_def active_lease_def by (induction ls) auto

lemma release_exclusive: "exclusive_leases ls \<Longrightarrow> exclusive_leases (release_node_port n p ls)"
proof -
  assume ls: "exclusive_leases ls"
  then have "distinct (map (\<lambda>l. (pl_node l, pl_port l)) (filter (\<lambda>l. \<not> pl_released l) (release_node_port n p ls)))"
    unfolding release_keys exclusive_leases_def by (metis distinct_filter)
  with ls show "exclusive_leases (release_node_port n p ls)"
    by (auto simp: exclusive_leases_def release_node_port_def)
qed

lemma fold_release_exclusive:
  "exclusive_leases ls \<Longrightarrow> exclusive_leases (fold (\<lambda>r. release_node_port (h_node r) (h_port r)) rs ls)"
  by (induction rs arbitrary: ls) (simp_all add: release_exclusive)

lemma tracks_update:
  assumes "tracks db0 db" "\<And>r. r \<in> set (runtimes db) \<Longrightarrow> P r \<Longrightarrow> row_step (runtimes db0) r (f r)"
  shows "tracks db0 (update_runtimes b P f db)"
proof (cases b)
  case True
  then show ?thesis using assms(1) by (simp add: update_runtimes_def)
next
  case False
  have "replica_step (runtimes db0) (slots_of db0) (runtimes db) (runtimes (update_runtimes b P f db))"
    using replica_step.evolve [of "runtimes db" P, OF assms(2)] by (simp add: False update_runtimes_def)
  with assms(1) show ?thesis by (rule tracks_step) (simp_all add: False update_runtimes_def fold_release_exclusive)
qed

lemma tracks_release: "tracks db0 db \<Longrightarrow> tracks db0 (release_port b n p db)"
  by (erule tracks_same_rows) (simp_all add: release_port_def release_exclusive)

lemma tracks_log: "tracks db0 db \<Longrightarrow> tracks db0 (recordLog b now i a rt st why db)"
  by (erule tracks_same_rows) (simp_all add: recordLog_def)

lemma tracks_tasks: "tracks db0 db \<Longrightarrow> tracks db0 (db\<lparr>ha_tasks := ts\<rparr>)"
  by (erule tracks_same_rows) simp_all

lemma set_node_ports: "set node_ports = {8100..8999}"
  unfolding node_ports_def by (rule set_upto)

lemma allocate_exclusive:
  assumes "exclusive_leases ls" "allocate_node_port n m ls = (p, ls')"
  shows "exclusive_leases ls'"
proof (cases "find (\<lambda>p. \<not> list_ex (active_lease n p) ls) node_ports")
  case None
  then show ?thesis using assms by (simp add: allocate_node_port_def)
next
  case (Some q)
  then have "q \<in> set node_ports" "\<not> list_ex (active_lease n q) ls" by (auto simp: find_Some_iff)
  then have "8100 \<le> q" "q \<le> 8999" "\<not> list_ex (active_lease n q) ls" by (simp_all add: set_node_ports)
  moreover from this(3) have "\<forall>l\<in>set ls. \<not> pl_released l \<longrightarrow> (pl_node l, pl_port l) \<noteq> (n, q)"
    by (auto simp: list_ex_iff active_lease_def)
  ultimately show ?thesis using assms Some by (auto simp: allocate_node_port_def exclusive_leases_def)
qed

subsection \<open>Starting a replica\<close>

lemma nextRecoveryAttempt_bound: "nextRecoveryAttempt b i db = (n, True) \<Longrightarrow> n \<le> maxUnhealthyRecoveryAttempts"
  by (auto simp: nextRecoveryAttempt_def maxUnhealthyRecoveryAttempts_def split: if_splits option.splits)

lemma nextRecoveryAttempt_exhausted: "nextRecoveryAttempt b i db = (n, False) \<Longrightarrow> i \<noteq> []"
  by (auto simp: nextRecoveryAttempt_def)

lemma row_step_lost:
  assumes "\<not> serving (h_state r)" "h_state r \<notin> {''lost'', ''stopped'', ''deleted'', ''archived''}"
  shows "row_step rs0 r (r\<lparr>h_state := ''lost'', h_error := e, h_updated := t\<rparr>)"
  using assms by (simp add: row_step_def same_replica_def state_step.give_up)

lemma tracks_abandon:
  assumes "tracks db0 db" "idle_id db0 (ra_from a)"
  shows "tracks db0 (abandon w a n db)"
proof -
  have "idle_id db (ra_from a)" using assms tracks_idle by blast
  then have "tracks db0 (update_runtimes b (\<lambda>r. h_id r = ra_from a \<and> h_state r \<notin> {''lost'', ''stopped'', ''deleted'', ''archived''})
      (\<lambda>r. r\<lparr>h_state := ''lost'', h_error := e, h_updated := t\<rparr>) db)" for b e t
    by (intro tracks_update [OF assms(1)] row_step_lost) (auto simp: idle_id_def)
  then show ?thesis unfolding abandon_def log_action_def Let_def by (intro tracks_log)
qed

lemma length_filter_mono: "(\<And>x. P x \<Longrightarrow> Q x) \<Longrightarrow> length (filter P xs) \<le> length (filter Q xs)"
  by (induction xs) (auto intro: le_SucI)

lemma occupied_le_live: "occupied m (runtimes db) \<le> live_count m db"
  unfolding occupied_def live_count_def of_nat_le_iff by (rule length_filter_mono) simp

lemma claim_and_insert_Some:
  assumes "claim_and_insert flt status a row db = Inr (Some (idx, db'))"
  shows "db' = db\<lparr>runtimes := runtimes db @ [row idx]\<rparr>" "h_id (row idx) \<notin> h_id ` set (runtimes db)"
    "live_count (ra_model a) db < st_desired status + max 1 (st_surge status)"
  using assms unfolding claim_and_insert_def ClaimSlot_def claim_replica_slot_def Let_def
  by (auto split: if_splits sum.splits bool.splits)

lemma new_runtime_sel [simp]:
  "h_id (new_runtime now i cfg host port n mode a idx) = i"
  "h_model (new_runtime now i cfg host port n mode a idx) = ra_model a"
  "h_state (new_runtime now i cfg host port n mode a idx) = ''pending''"
  "h_attempt (new_runtime now i cfg host port n mode a idx) = n"
  by (simp_all add: new_runtime_def)

lemma tracks_insert:
  assumes "tracks db0 db" "h_id r \<notin> h_id ` set (runtimes db)" "h_state r = ''pending''"
    "h_attempt r \<le> maxUnhealthyRecoveryAttempts" "live_count (h_model r) db < slots_of db0 (h_model r)"
  shows "tracks db0 (db\<lparr>runtimes := runtimes db @ [r]\<rparr>)"
proof -
  have "occupied (h_model r) (runtimes db) < slots_of db0 (h_model r)"
    using assms(5) occupied_le_live [of "h_model r" db] by simp
  then have "replica_step (runtimes db0) (slots_of db0) (runtimes db) (runtimes db @ [r])"
    using assms by (intro replica_step.start)
  then show ?thesis by (intro tracks_step [OF assms(1)]) simp_all
qed

lemma row_step_failed:
  assumes "\<not> serving (h_state r)"
  shows "row_step rs0 r (r\<lparr>h_state := ''failed''\<rparr>)" "row_step rs0 r (r\<lparr>h_state := ''failed'', h_error := e, h_updated := t\<rparr>)"
  using assms by (simp_all add: row_step_def same_replica_def state_step.fail)

lemma dispatch_start_tracks:
  assumes "tracks db0 db" "row \<in> set (runtimes db)" "h_state row = ''pending''"
    "dispatch_start w a cfg row idx db = (res, db')"
  shows "tracks db0 db'" "res = Inr (i, n) \<Longrightarrow> n = h_attempt row"
proof -
  define db1 where "db1 = (if hw_faults w ''link lease'' then db
     else db\<lparr>leases := map (\<lambda>l. if active_lease (ra_node a) (h_port row) l
        then l\<lparr>pl_runtime := Some (h_id row)\<rparr> else l) (leases db)\<rparr>)"
  have keys: "map (\<lambda>l. (pl_node l, pl_port l)) (filter (\<lambda>l. \<not> pl_released l)
      (map (\<lambda>l. if active_lease x p l then l\<lparr>pl_runtime := y\<rparr> else l) ls)) =
    map (\<lambda>l. (pl_node l, pl_port l)) (filter (\<lambda>l. \<not> pl_released l) ls)" for x p y ls
    by (induction ls) simp_all
  have t1: "tracks db0 db1"
    using assms(1) by (rule tracks_same_rows) (auto simp: db1_def exclusive_leases_def keys)
  have "idle_id db1 (h_id row)"
    using distinct_idle [of db row] assms tracks_distinct [OF assms(1)] by (simp add: db1_def idle_id_def serving_def)
  then have t2: "tracks db0 (update_runtimes b (\<lambda>r. h_id r = h_id row) (\<lambda>r. r\<lparr>h_state := ''failed''\<rparr>) db1)" for b
    by (intro tracks_update [OF t1] row_step_failed(1)) (auto simp: idle_id_def)
  show "tracks db0 db'" using assms(4) t1 t2 unfolding dispatch_start_def Let_def db1_def [symmetric]
    by (auto simp: log_action_def give_up_port_def intro!: tracks_log tracks_release tracks_tasks split: prod.splits sum.splits)
  show "res = Inr (i, n) \<Longrightarrow> n = h_attempt row" using assms(4) unfolding dispatch_start_def Let_def db1_def [symmetric]
    by (auto split: prod.splits sum.splits)
qed

lemma place_replica_tracks:
  assumes "tracks db0 db" "st_desired status + max 1 (st_surge status) \<le> slots_of db0 (ra_model a)"
    "n \<le> maxUnhealthyRecoveryAttempts" "place_replica w status a cfg n port db = (res, db')"
  shows "tracks db0 db'" "res = Inr (i, k) \<Longrightarrow> i \<noteq> [] \<Longrightarrow> k \<le> maxUnhealthyRecoveryAttempts"
proof -
  have gu: "tracks db0 (log_action w a rt st why (give_up_port w a port db))" for rt st why
    unfolding log_action_def give_up_port_def by (intro tracks_log tracks_release assms(1))
  have "tracks db0 db' \<and> (\<forall>i k. res = Inr (i, k) \<longrightarrow> i \<noteq> [] \<longrightarrow> k \<le> maxUnhealthyRecoveryAttempts)"
  proof (cases "CanonicalHost (hw_faults w ''host'') (ra_node a) db")
    case None
    then show ?thesis using assms(4) gu by (auto simp: place_replica_def)
  next
    case (Some host)
    define row where "row = new_runtime (hw_now w) (hw_gen w ''runtime'') cfg host port n
      (resolveExecutionMode (hw_faults w ''capabilities'') (ra_node a) cfg db) a"
    show ?thesis
    proof (cases "\<exists>idx db1. claim_and_insert (hw_faults w) status a row db = Inr (Some (idx, db1))")
      case True
      then obtain idx db1 where c: "claim_and_insert (hw_faults w) status a row db = Inr (Some (idx, db1))" by blast
      note ci = claim_and_insert_Some [OF c]
      have "tracks db0 db1" unfolding ci(1)
        using ci(2,3) assms(2,3) by (intro tracks_insert [OF assms(1)]) (simp_all add: row_def)
      moreover have "dispatch_start w a cfg (row idx) idx db1 = (res, db')"
        using assms(4) Some c unfolding place_replica_def Let_def row_def by simp
      ultimately show ?thesis
        using dispatch_start_tracks [of db0 db1 "row idx" w a cfg idx res db'] assms(3) ci(1) by (auto simp: row_def)
    next
      case False
      then show ?thesis using assms(4) Some gu unfolding place_replica_def Let_def row_def [symmetric]
        by (auto simp: row_def [symmetric] split: sum.splits option.splits prod.splits)
    qed
  qed
  then show "tracks db0 db'" "res = Inr (i, k) \<Longrightarrow> i \<noteq> [] \<Longrightarrow> k \<le> maxUnhealthyRecoveryAttempts" by blast+
qed

lemma executeReturningID_tracks:
  assumes "tracks db0 db" "st_desired status + max 1 (st_surge status) \<le> slots_of db0 (ra_model a)"
    "ra_from a \<noteq> [] \<Longrightarrow> idle_id db0 (ra_from a)" "executeReturningID w status a db = (res, db')"
  shows "tracks db0 db'" "res = Inr (i, k) \<Longrightarrow> i \<noteq> [] \<Longrightarrow> k \<le> maxUnhealthyRecoveryAttempts"
proof -
  have lg: "tracks db0 (log_action w a rt st why db)" for rt st why
    unfolding log_action_def by (intro tracks_log assms(1))
  obtain n b where nb: "nextRecoveryAttempt (hw_faults w ''attempt'') (ra_from a) db = (n, b)" by fastforce
  obtain port ls where pl: "(if hw_faults w ''port'' then (0, leases db) else allocate_node_port (ra_node a) (ra_model a) (leases db)) = (port, ls)"
    by fastforce
  have tl: "tracks db0 (db\<lparr>leases := ls\<rparr>)"
    using assms(1) pl by (intro tracks_same_rows [OF assms(1)]) (auto intro: allocate_exclusive split: if_splits)
  have "tracks db0 db' \<and> (\<forall>i k. res = Inr (i, k) \<longrightarrow> i \<noteq> [] \<longrightarrow> k \<le> maxUnhealthyRecoveryAttempts)"
  proof (cases b)
    case False
    then have "res = Inl ErrRecoveryChainExhausted" "db' = abandon w a n db"
      using assms(4) nb by (simp_all add: executeReturningID_def)
    then show ?thesis
      using False nb tracks_abandon [OF assms(1)] assms(3) nextRecoveryAttempt_exhausted by (metis Inl_Inr_False)
  next
    case True
    then have n: "n \<le> maxUnhealthyRecoveryAttempts" using nb nextRecoveryAttempt_bound by simp
    show ?thesis
    proof (cases "\<exists>cfg. loadRuntimeConfig (hw_registry w) (hw_faults w ''config'') (ra_model a) db = Some cfg \<and> rc_Image cfg \<noteq> [] \<and> port \<noteq> 0")
      case True
      then obtain cfg where c: "loadRuntimeConfig (hw_registry w) (hw_faults w ''config'') (ra_model a) db = Some cfg" "rc_Image cfg \<noteq> []" "port \<noteq> 0"
        by blast
      have "place_replica w status a cfg n port (db\<lparr>leases := ls\<rparr>) = (res, db')"
        using assms(4) nb \<open>b\<close> c pl unfolding executeReturningID_def Let_def by simp
      from place_replica_tracks [OF tl assms(2) n this] show ?thesis by blast
    next
      case False
      then show ?thesis
        using assms(4) nb \<open>b\<close> pl lg unfolding executeReturningID_def Let_def
        by (auto split: option.splits if_splits)
    qed
  qed
  then show "tracks db0 db'" "res = Inr (i, k) \<Longrightarrow> i \<noteq> [] \<Longrightarrow> k \<le> maxUnhealthyRecoveryAttempts" by blast+
qed

subsection \<open>Rolling replacement\<close>

lemma tracks_stopFailed: "tracks db0 db \<Longrightarrow> tracks db0 (stopFailedRuntimeContainer flt now gen json i db)"
  unfolding stopFailedRuntimeContainer_def
  by (auto intro: tracks_tasks split: option.splits sum.splits prod.splits)

text \<open>Bookkeeping on a row that is not serving.\<close>

lemma tracks_bookkeeping:
  assumes "tracks db0 db" "idle_id db0 i"
    "\<And>r. same_replica r (f r) \<and> h_state (f r) = h_state r \<and>
       (h_attempt (f r) = h_attempt r \<or> h_attempt (f r) \<le> maxUnhealthyRecoveryAttempts)"
  shows "tracks db0 (update_runtimes b (\<lambda>r. h_id r = i) f db)"
proof (rule tracks_update [OF assms(1)])
  fix r assume "r \<in> set (runtimes db)" "h_id r = i"
  then have "\<not> serving (h_state r)" using assms(1,2) tracks_idle unfolding idle_id_def by blast
  with assms(3) [of r] show "row_step (runtimes db0) r (f r)" by (simp add: row_step_def state_step.stay)
qed

lemma tracks_retry: "tracks db0 db \<Longrightarrow> idle_id db0 i \<Longrightarrow> tracks db0 (retry_later w i n db)"
  unfolding retry_later_def by (rule tracks_bookkeeping) (simp_all add: same_replica_def)

lemma runtime_by_id_Some: "runtime_by_id b i db = Some r \<Longrightarrow> r \<in> set (runtimes db) \<and> h_id r = i"
  by (auto simp: runtime_by_id_def find_Some_iff split: if_splits)

lemma check_replacement_tracks:
  assumes "tracks db0 db" "old \<in> set (runtimes db0)" "h_state old = ''unhealthy''" "h_replaced_by old = Some new"
    "idle_id db0 (h_id old)"
  shows "tracks db0 (check_replacement w old new timeout db)"
proof (cases "runtime_by_id (hw_faults w ''replacement'') new db")
  case None
  then show ?thesis
    unfolding check_replacement_def Let_def
    by (simp, intro tracks_bookkeeping [OF assms(1,5)]) (simp add: same_replica_def)
next
  case (Some n)
  note n = runtime_by_id_Some [OF Some]
  consider "serving (h_state n)" | "\<not> serving (h_state n)" by blast
  then show ?thesis
  proof cases
    case 1
    have "n \<in> set (runtimes db0)" using tracks_serving_iff [OF assms(1) 1] n by simp
    then have ho: "handed_over (runtimes db0) (h_id old)"
      unfolding handed_over_def using assms(2-4) n 1 by blast
    have "tracks db0 (update_runtimes b (\<lambda>r. h_id r = h_id old \<and> h_state r = ''unhealthy'')
        (\<lambda>r. r\<lparr>h_state := ''draining'', h_updated := t\<rparr>) db)" for b t
      by (rule tracks_update [OF assms(1)])
        (use ho in \<open>auto simp: row_step_def same_replica_def serving_def state_step.drain\<close>)
    then show ?thesis using Some 1 by (simp add: check_replacement_def)
  next
    case 2
    then have "idle_id db (h_id n)" using distinct_idle tracks_distinct assms(1) n by blast
    then have "tracks db0 (update_runtimes b (\<lambda>r. h_id r = new)
        (\<lambda>r. r\<lparr>h_state := ''failed'', h_error := e, h_updated := t\<rparr>) db)" for b e t
      using n by (intro tracks_update [OF assms(1)] row_step_failed(2)) (auto simp: idle_id_def)
    then show ?thesis using Some 2 assms(1,5) unfolding check_replacement_def Let_def
      by (simp add: tracks_retry tracks_stopFailed)
  qed
qed

lemma launch_replacement_tracks:
  assumes "tracks db0 db" "idle_id db0 (h_id old)" "ra_from a = h_id old"
    "st_desired status + max 1 (st_surge status) \<le> slots_of db0 (ra_model a)"
  shows "tracks db0 (launch_replacement w old status a db)"
proof -
  obtain res db' where e: "executeReturningID w status a db = (res, db')" by fastforce
  note t = executeReturningID_tracks [OF assms(1,4) _ e]
  have t1: "tracks db0 db'" using t(1) assms(2,3) by simp
  show ?thesis
  proof (cases res)
    case (Inl x)
    then show ?thesis using e t1 by (simp add: launch_replacement_def)
  next
    case (Inr ik)
    obtain i k where ik: "ik = (i, k)" by fastforce
    have "tracks db0 (update_runtimes b (\<lambda>r. h_id r = h_id old)
        (\<lambda>r. r\<lparr>h_replaced_by := Some i, h_attempt := k, h_updated := u\<rparr>) db')" if "i \<noteq> []" for b u
      using t(2) [of i k] that Inr ik assms(2,3) by (intro tracks_bookkeeping [OF t1]) (simp_all add: same_replica_def)
    then show ?thesis using e Inr ik t1 by (simp add: launch_replacement_def)
  qed
qed

lemma spawn_replacement_tracks:
  assumes "tracks db0 db" "idle_id db0 (h_id old)" "desired + max 1 surge \<le> slots_of db0 (h_model old)"
  shows "tracks db0 (spawn_replacement w old name desired surge db)"
proof -
  have "tracks db0 (launch_replacement w old (rolling_status (hw_faults w) old name desired surge db)
      \<lparr>ra_model = h_model old, ra_name = nm, ra_node = node, ra_index = k, ra_from = h_id old, ra_reason = why\<rparr> db)" for nm node k why
    using assms by (intro launch_replacement_tracks) (simp_all add: rolling_status_def)
  then show ?thesis using assms(1) by (simp add: spawn_replacement_def Let_def split: option.split)
qed

lemma handleUnhealthyReplica_tracks:
  assumes "tracks db0 db" "old \<in> set (runtimes db0)" "h_state old = ''unhealthy''"
    "desired + max 1 surge \<le> slots_of db0 (h_model old)" "distinct (map h_id (runtimes db0))"
  shows "tracks db0 (handleUnhealthyReplica w old name desired surge timeout db)"
proof -
  have "idle_id db0 (h_id old)" using assms(2,3,5) by (simp add: distinct_idle serving_def)
  then show ?thesis unfolding handleUnhealthyReplica_def
    using assms check_replacement_tracks spawn_replacement_tracks by (auto split: option.split)
qed

lemma unhealthy_rows_mem: "(r, m) \<in> set (unhealthy_rows b db) \<Longrightarrow> r \<in> set (runtimes db) \<and> h_state r = ''unhealthy''"
  by (auto simp: unhealthy_rows_def List.map_filter_def split: if_splits)

lemma tracks_fold:
  assumes "tracks db0 db" "\<And>x d. x \<in> set xs \<Longrightarrow> tracks db0 d \<Longrightarrow> tracks db0 (f x d)"
  shows "tracks db0 (fold f xs db)"
  using assms by (induction xs arbitrary: db) simp_all

lemma stepUnhealthyReplicas_tracks:
  assumes "distinct (map h_id (runtimes db))"
  shows "tracks db (stepUnhealthyReplicas ws b db)"
  unfolding stepUnhealthyReplicas_def
proof (rule tracks_fold [OF tracks_refl [OF assms]])
  fix x d assume x: "x \<in> set (unhealthy_rows b db)" and d: "tracks db d"
  obtain r m where "x = (r, m)" by fastforce
  with x unhealthy_rows_mem have "r \<in> set (runtimes db)" "h_state r = ''unhealthy''" "x = (r, m)" by blast+
  then show "tracks db ((case x of (r, m) \<Rightarrow> handleUnhealthyReplica (ws (h_id r)) r (hm_name m)
      (spec_field rs_desired 1 (h_model r) db) (spec_field rs_surge 1 (h_model r) db)
      (spec_field rs_start_timeout 900 (h_model r) db)) d)"
    using handleUnhealthyReplica_tracks [OF d _ _ _ assms] by (simp add: slots_of_def)
qed

lemma stopDrainedRuntime_tracks: "tracks db0 db \<Longrightarrow> tracks db0 (stopDrainedRuntime w r grace db)"
proof -
  assume t: "tracks db0 db"
  have t1: "tracks db0 (update_runtimes b (\<lambda>x. h_id x = h_id r \<and> h_state x = ''draining'')
      (\<lambda>x. x\<lparr>h_state := ''stopping'', h_updated := u\<rparr>) db)" for b u
    by (rule tracks_update [OF t]) (auto simp: row_step_def same_replica_def serving_def state_step.stop)
  have t2: "tracks db0 (update_runtimes b (\<lambda>x. h_id x = h_id r \<and> h_state x = ''stopping'')
      (\<lambda>x. x\<lparr>h_state := ''draining'', h_updated := u\<rparr>) d)" if "tracks db0 d" for b u d
    by (rule tracks_update [OF that]) (auto simp: row_step_def same_replica_def serving_def state_step.resume)
  show ?thesis unfolding stopDrainedRuntime_def Let_def
    by (auto intro!: t1 t2 tracks_tasks split: prod.split sum.split)
qed

lemma stepDrainingReplicas_tracks: "tracks db0 db \<Longrightarrow> tracks db0 (stepDrainingReplicas ws b db)"
  unfolding stepDrainingReplicas_def by (rule tracks_fold) (simp_all add: stopDrainedRuntime_tracks)

lemma rollingReplacementSweep_tracks:
  "distinct (map h_id (runtimes db)) \<Longrightarrow> tracks db (rollingReplacementSweep ws flt db)"
  by (simp add: rollingReplacementSweep_def stepDrainingReplicas_tracks stepUnhealthyReplicas_tracks)

subsection \<open>The sweep\<close>

lemma sweepFailedContainers_tracks:
  assumes "tracks db0 db" "sweepFailedContainers ws flt now db = Some db'"
  shows "tracks db0 db'"
proof -
  have clean: "tracks db0 (update_runtimes b P f d)"
    if "tracks db0 d" "\<And>r. P r \<Longrightarrow> h_state r = ''failed''"
      "\<And>r. same_replica r (f r) \<and> h_state (f r) = ''stopped'' \<and> h_attempt (f r) = h_attempt r" for b P f d
    by (rule tracks_update [OF that(1)]) (use that in \<open>auto simp: row_step_def serving_def state_step.clean\<close>)
  define db1 where "db1 = update_runtimes False (\<lambda>r. h_state r = ''failed'' \<and> contains ''[container-dead]'' (h_error r))
    (\<lambda>r. r\<lparr>h_state := ''stopped'', h_updated := now\<rparr>) db"
  have t1: "tracks db0 db1" unfolding db1_def by (rule clean [OF assms(1)]) (simp_all add: same_replica_def)
  define stale where "stale = (if flt ''stale rows'' then [] else map h_id (filter (stale_failed now) (runtimes db1)))"
  define db2 where "db2 = fold (\<lambda>i. stopFailedRuntimeContainer (hw_faults (ws i)) now (hw_gen (ws i)) (hw_stop (ws i)) i) stale db1"
  have t2: "tracks db0 db2" unfolding db2_def by (rule tracks_fold [OF t1]) (simp add: tracks_stopFailed)
  have t3: "tracks db0 (update_runtimes False (stale_failed now) (\<lambda>r. r\<lparr>h_state := ''stopped'', h_updated := now,
      h_error := h_error r @ e\<rparr>) db2)" for e
    by (rule clean [OF t2]) (simp_all add: same_replica_def stale_failed_def)
  show ?thesis using assms(2) t2 t3
    unfolding sweepFailedContainers_def Let_def db1_def [symmetric] stale_def [symmetric] db2_def [symmetric]
    by (auto split: if_splits)
qed

end
