(* ===== verification/Ha_Props.thy ===== *)
theory Ha_Props
  imports Ha_Lifecycle
begin

text \<open>
  What a pass of the high-availability reconciler guarantees: it refines the replica life cycle, never
  disturbs a serving replica, drains an unhealthy one only after its replacement serves, keeps the number
  of replicas, the recovery attempts and the port leases within their bounds.
\<close>

subsection \<open>The whole sweep tracks the life cycle\<close>

lemma mostRecentUnrepairedFailure_idle:
  assumes "distinct (map h_id (runtimes db))" "mostRecentUnrepairedFailure b m db \<noteq> []"
  shows "idle_id db (mostRecentUnrepairedFailure b m db)"
proof -
  let ?rows = "sort_key (\<lambda>r. - h_updated r)
    (filter (\<lambda>r. h_model r = m \<and> h_state r \<in> {''failed'', ''stopped'', ''lost''} \<and> h_replaced_by r = None) (runtimes db))"
  obtain r rs where rs: "?rows = r # rs" "mostRecentUnrepairedFailure b m db = h_id r"
    using assms(2) unfolding mostRecentUnrepairedFailure_def by (auto split: if_splits list.splits)
  then have "r \<in> set ?rows" by simp
  then have "r \<in> set (runtimes db)" "\<not> serving (h_state r)" by (auto simp: serving_def)
  with assms(1) rs(2) show ?thesis using distinct_idle by metis
qed

lemma plan_Some:
  assumes "plan flt now status db = Some a"
  shows "ra_model a = st_model status" "ra_from a = mostRecentUnrepairedFailure (flt ''failure'') (st_model status) db"
  using assms unfolding plan_def Let_def by (auto split: if_splits option.splits)

lemma recover_model_tracks:
  assumes "tracks db0 db" "st_desired s + max 1 (st_surge s) \<le> slots_of db0 (st_model s)" "recover_model w s db = (t, db')"
  shows "tracks db0 db'"
proof (cases "plan (hw_faults w) (hw_now w) s db")
  case None
  then show ?thesis using assms by (simp add: recover_model_def)
next
  case (Some a)
  note a = plan_Some [OF Some]
  have idle: "ra_from a \<noteq> [] \<Longrightarrow> idle_id db0 (ra_from a)"
    using mostRecentUnrepairedFailure_idle [OF tracks_distinct [OF assms(1)]]
    unfolding a(2) tracks_idle [OF assms(1)] by blast
  obtain res db1 where e: "executeReturningID w s a db = (res, db1)" by fastforce
  have t: "tracks db0 db1" using executeReturningID_tracks(1) [OF assms(1) _ idle e] assms(2) a(1) by simp
  have "tracks db0 (update_runtimes b (\<lambda>r. h_id r = ra_from a) (\<lambda>r. r\<lparr>h_replaced_by := x, h_updated := u\<rparr>) db1)"
    if "ra_from a \<noteq> []" for b x u
    by (rule tracks_bookkeeping [OF t idle [OF that]]) (simp add: same_replica_def)
  then show ?thesis using assms(3) Some e t unfolding recover_model_def
    by (auto split: sum.splits prod.splits if_splits)
qed

lemma recover_models_tracks:
  assumes "tracks db0 db" "\<And>s. s \<in> set ss \<Longrightarrow> st_desired s + max 1 (st_surge s) \<le> slots_of db0 (st_model s)"
    "recover_models ws ss n k db = (n', k', db')"
  shows "tracks db0 db'"
  using assms
proof (induction ss arbitrary: n k db)
  case (Cons s ss)
  obtain t db1 where e: "recover_model (ws (st_model s)) s db = (t, db1)" by fastforce
  have "tracks db0 db1" using recover_model_tracks [OF Cons.prems(1) _ e] Cons.prems(2) by simp
  then show ?case using Cons.IH [of db1] Cons.prems(2,3) e by auto
qed simp

lemma loadReplicaStatuses_slots:
  assumes "tracks db0 db" "loadReplicaStatuses b db = Some ss" "s \<in> set ss"
  shows "st_desired s + max 1 (st_surge s) \<le> slots_of db0 (st_model s)"
proof -
  have "specs db = specs db0" using assms(1) by (simp add: tracks_def)
  then show ?thesis using assms(2,3)
    by (auto simp: loadReplicaStatuses_def replica_status_def slots_of_def spec_field_def spec_of_def split: if_splits)
qed

lemma ha_sweep_tracks:
  assumes "distinct (map h_id (runtimes db))" "ha_sweep ws flt now db = Some db'"
  shows "tracks db db'"
proof -
  obtain db1 where s1: "sweepFailedContainers ws flt now (rollingReplacementSweep ws flt db) = Some db1"
    using assms(2) unfolding ha_sweep_def by (auto split: option.splits)
  have t1: "tracks db db1" by (rule sweepFailedContainers_tracks [OF rollingReplacementSweep_tracks [OF assms(1)] s1])
  show ?thesis
  proof (cases "loadReplicaStatuses (flt ''statuses'') db1")
    case None
    then show ?thesis using assms(2) s1 t1 by (simp add: ha_sweep_def)
  next
    case (Some ss)
    obtain n k db2 where r: "recover_models ws ss 0 0 db1 = (n, k, db2)" by (metis prod_cases3)
    have t2: "tracks db db2" by (rule recover_models_tracks [OF t1 loadReplicaStatuses_slots [OF t1 Some] r])
    have "tracks db (db2\<lparr>last_sweep := now, models_checked := n, recoveries_triggered := k\<rparr>)"
      by (rule tracks_same_rows [OF t2]) simp_all
    then show ?thesis using assms(2) s1 Some r t2 by (auto simp: ha_sweep_def)
  qed
qed

subsection \<open>Properties\<close>

lemma ha_steps_retired: "ha_steps db0 rs rs' \<Longrightarrow> retired_well (runtimes db0) rs \<Longrightarrow> retired_well (runtimes db0) rs'"
  by (induction rule: rtranclp_induct) (simp_all add: replica_step_retired)

lemma ha_steps_occupied: "ha_steps db0 rs rs' \<Longrightarrow> occupied m rs' \<le> max (occupied m rs) (slots_of db0 m)"
proof (induction rule: rtranclp_induct)
  case (step y z)
  then show ?case using replica_step_occupied [OF step.hyps(2), of m] by linarith
qed simp

lemma ha_steps_attempts:
  "ha_steps db0 rs rs' \<Longrightarrow> \<forall>r\<in>set rs. h_attempt r \<le> maxUnhealthyRecoveryAttempts \<Longrightarrow>
   \<forall>r\<in>set rs'. h_attempt r \<le> maxUnhealthyRecoveryAttempts"
  by (induction rule: rtranclp_induct) (simp_all add: replica_step_attempts)

text \<open>A small cluster for the witnesses: replica \<open>a\<close> is unhealthy, its replacement \<open>b\<close> serves.\<close>

definition wit_row :: "id \<Rightarrow> string \<Rightarrow> id option \<Rightarrow> ha_runtime" where
  "wit_row i s by_id = \<lparr>h_id = i, h_node = ''n'', h_model = ''m'', h_name = i, h_state = s, h_error = [], h_container = ''c'',
     h_host = ''h'', h_port = 8100, h_replaced_by = by_id, h_updated = 0, h_next_retry = None, h_attempt = 1,
     h_recovered_from = None, h_index = Some 0, h_mode = ''cpu''\<rparr>"

definition wit_columns :: config_columns where
  "wit_columns = \<lparr>cc_backend = Some ''vllm'', cc_image = Some ''i'', cc_gguf = None, cc_hf_repo = None, cc_hf_file = None,
     cc_hf_token = None, cc_volume = None, cc_ctx = None, cc_layers = None, cc_gpus = None, cc_mode = Some ''cpu'',
     cc_workload = Some ''always_on'', cc_memory = None, cc_threads = None, cc_tensor = None, cc_util = None, cc_max_len = None,
     cc_dtype = None, cc_quant = None, cc_extra = None, cc_env = None, cc_supports_thinking = None, cc_thinking = None\<rparr>"

definition wit_db :: ha_db where
  "wit_db = \<lparr>runtimes = [wit_row ''a'' ''unhealthy'' (Some ''b''), wit_row ''b'' ''ready'' None], specs = [],
     ha_models = [\<lparr>hm_id = ''m'', hm_name = ''m'', hm_enabled = True, hm_lifecycle = None, hm_deployment = None,
       hm_columns = wit_columns\<rparr>], ha_nodes = [],
     leases = [\<lparr>pl_node = ''n'', pl_port = 8100, pl_model = ''m'', pl_runtime = Some ''b'', pl_released = False\<rparr>], recovery_log = [],
     ha_tasks = \<lparr>known_nodes = [''n''], agent_tasks = []\<rparr>, last_sweep = 0, models_checked = 0, recoveries_triggered = 0\<rparr>"

definition wit_world :: ha_world where
  "wit_world = \<lparr>hw_faults = (\<lambda>_. False), hw_now = 100, hw_gen = (\<lambda>s. s), hw_registry = True, hw_start = (\<lambda>_. Some []), hw_stop = (\<lambda>_. Some []),
     hw_rfc3339 = (\<lambda>_. [])\<rparr>"

definition ha_inv :: "ha_db \<Rightarrow> bool" where
  "ha_inv db \<longleftrightarrow>
     distinct (map h_id (runtimes db)) \<and> (\<forall>r\<in>set (runtimes db). h_attempt r \<le> maxUnhealthyRecoveryAttempts) \<and>
     exclusive_leases (leases db)"

definition wit_node :: "id \<Rightarrow> int \<Rightarrow> ha_node" where
  "wit_node i mb = \<lparr>hn_id = i, hn_ip = Some ''h'', hn_hostname = None, hn_status = ''online'', hn_cordoned = False,
     hn_gpu_count = Some 1, hn_devices = [(mb, None)]\<rparr>"

lemmas wit_defs = wit_db_def wit_row_def wit_world_def

lemma wit_distinct: "distinct (map h_id (runtimes wit_db))" by (simp add: wit_defs)

definition wit_drained :: "ha_runtime list" where
  "wit_drained = [(wit_row ''a'' ''unhealthy'' (Some ''b''))\<lparr>h_state := ''draining'', h_updated := 100\<rparr>, wit_row ''b'' ''ready'' None]"

lemma wit_sweep_rows: "map_option runtimes (ha_sweep (\<lambda>_. wit_world) (\<lambda>_. False) 100 wit_db) = Some wit_drained"
  by code_simp

lemma wit_sweepE:
  obtains db' where "ha_sweep (\<lambda>_. wit_world) (\<lambda>_. False) 100 wit_db = Some db'" "runtimes db' = wit_drained"
  using wit_sweep_rows by auto

text \<open>
  C33: refinement. Whatever statements fail, a pass of the reconciler that ends takes the rows of
  \<open>agent_runtimes\<close> through steps of the replica life cycle: a row keeps its identity, only rows that are not
  serving change, their states move along the cycle, and a row is added only under a fresh identifier, in
  state \<open>pending\<close>, within the budget of attempts and while the model has a free slot.
\<close>

theorem sweep_refines_lifecycle:
  assumes "distinct (map h_id (runtimes db))" "ha_sweep ws flt now db = Some db'"
  shows "(replica_step (runtimes db) (slots_of db))\<^sup>*\<^sup>* (runtimes db) (runtimes db')"
  using ha_sweep_tracks [OF assms] by (simp add: tracks_def)

theorem sweep_refines_lifecycle_witness:
  "(replica_step (runtimes wit_db) (slots_of wit_db))\<^sup>*\<^sup>* (runtimes wit_db) wit_drained"
proof -
  obtain db' where "ha_sweep (\<lambda>_. wit_world) (\<lambda>_. False) 100 wit_db = Some db'" "runtimes db' = wit_drained"
    by (rule wit_sweepE)
  then show ?thesis using sweep_refines_lifecycle [OF wit_distinct] by metis
qed

text \<open>
  A pass of the reconciler leaves the rows of serving replicas exactly as they are, and makes no
  row serving.
\<close>

theorem serving_replicas_untouched:
  assumes "distinct (map h_id (runtimes db))" "ha_sweep ws flt now db = Some db'"
  shows "filter (\<lambda>r. serving (h_state r)) (runtimes db') = filter (\<lambda>r. serving (h_state r)) (runtimes db)"
  using ha_sweep_tracks [OF assms] ha_steps_serving [of db "runtimes db" "runtimes db'"] by (simp add: tracks_def)

theorem serving_replicas_untouched_witness:
  "filter (\<lambda>r. serving (h_state r)) wit_drained = filter (\<lambda>r. serving (h_state r)) (runtimes wit_db)"
proof -
  obtain db' where "ha_sweep (\<lambda>_. wit_world) (\<lambda>_. False) 100 wit_db = Some db'" "runtimes db' = wit_drained"
    by (rule wit_sweepE)
  then show ?thesis using serving_replicas_untouched [OF wit_distinct] by metis
qed

text \<open>
  C34: zero downtime. A replica that a pass drains or stops has a replacement that is serving when the pass
  ends.
\<close>

theorem drained_only_after_handover:
  assumes "distinct (map h_id (runtimes db))" "ha_sweep ws flt now db = Some db'"
    "r \<in> set (runtimes db)" "h_state r \<notin> {''draining'', ''stopping''}"
    "r' \<in> set (runtimes db')" "h_id r' = h_id r" "h_state r' \<in> {''draining'', ''stopping''}"
  shows "\<exists>n\<in>set (runtimes db'). h_replaced_by r = Some (h_id n) \<and> serving (h_state n)"
proof -
  note t = ha_sweep_tracks [OF assms(1,2)]
  have "retired_well (runtimes db) (runtimes db)" by (auto simp: retired_well_def)
  with t have "retired_well (runtimes db) (runtimes db')" using ha_steps_retired unfolding tracks_def by blast
  then have "handed_over (runtimes db) (h_id r) \<or> (\<exists>r0\<in>set (runtimes db). h_id r0 = h_id r \<and> h_state r0 \<in> {''draining'', ''stopping''})"
    using assms(5,7) unfolding retired_well_def assms(6) [symmetric] by blast
  moreover have same: "r0 = r" if "r0 \<in> set (runtimes db)" "h_id r0 = h_id r" for r0
    using assms(1,3) that by (metis distinct_map inj_onD)
  ultimately have "handed_over (runtimes db) (h_id r)" using assms(4) by blast
  then show ?thesis unfolding handed_over_def using same tracks_serving_iff [OF t] by blast
qed

theorem drained_only_after_handover_witness:
  "\<exists>n\<in>set wit_drained. h_replaced_by (wit_row ''a'' ''unhealthy'' (Some ''b'')) = Some (h_id n) \<and> serving (h_state n)"
proof -
  obtain db' where s: "ha_sweep (\<lambda>_. wit_world) (\<lambda>_. False) 100 wit_db = Some db'" "runtimes db' = wit_drained"
    by (rule wit_sweepE)
  show ?thesis
    using drained_only_after_handover [OF wit_distinct s(1), of "wit_row ''a'' ''unhealthy'' (Some ''b'')"
      "(wit_row ''a'' ''unhealthy'' (Some ''b''))\<lparr>h_state := ''draining'', h_updated := 100\<rparr>"] s(2)
    by (simp add: wit_drained_def wit_db_def) (simp add: wit_row_def)
qed

text \<open>
  C35: a pass raises the number of replicas of a model that are starting or running at most to the desired
  number plus the surge, which is at least one.
\<close>

theorem replicas_bounded:
  assumes "distinct (map h_id (runtimes db))" "ha_sweep ws flt now db = Some db'"
  shows "occupied m (runtimes db') \<le>
    max (occupied m (runtimes db)) (spec_field rs_desired 1 m db + max 1 (spec_field rs_surge 1 m db))"
  using ha_sweep_tracks [OF assms] ha_steps_occupied [of db "runtimes db" "runtimes db'" m]
  by (simp add: tracks_def slots_of_def)

theorem replicas_bounded_witness: "occupied ''m'' wit_drained \<le> 2"
proof -
  obtain db' where s: "ha_sweep (\<lambda>_. wit_world) (\<lambda>_. False) 100 wit_db = Some db'" "runtimes db' = wit_drained"
    by (rule wit_sweepE)
  have "occupied ''m'' (runtimes wit_db) = 1" "spec_field rs_desired 1 ''m'' wit_db = 1" "spec_field rs_surge 1 ''m'' wit_db = 1"
    by code_simp+
  then show ?thesis using replicas_bounded [OF wit_distinct s(1), of "''m''"] s(2) by simp
qed

text \<open>
  C36: invariant of the tables: identifiers are distinct, no row exceeds five attempts, and no two active
  leases of a node share a port, all in 8100 to 8999. A pass keeps it under any failures.
\<close>

theorem ha_inv_preserved:
  assumes "ha_inv db" "ha_sweep ws flt now db = Some db'"
  shows "ha_inv db'"
proof -
  have t: "tracks db db'" using ha_sweep_tracks assms by (simp add: ha_inv_def)
  then have "\<forall>r\<in>set (runtimes db'). h_attempt r \<le> maxUnhealthyRecoveryAttempts"
    using ha_steps_attempts [of db "runtimes db" "runtimes db'"] assms(1) by (simp add: tracks_def ha_inv_def)
  with t assms(1) show ?thesis by (simp add: tracks_def ha_inv_def)
qed

theorem ha_inv_preserved_witness:
  "\<exists>db'. ha_sweep (\<lambda>_. wit_world) (\<lambda>_. False) 100 wit_db = Some db' \<and> ha_inv db'"
proof -
  obtain db' where s: "ha_sweep (\<lambda>_. wit_world) (\<lambda>_. False) 100 wit_db = Some db'" by (rule wit_sweepE)
  have "ha_inv wit_db" by (simp add: ha_inv_def wit_defs exclusive_leases_def maxUnhealthyRecoveryAttempts_def)
  with ha_inv_preserved s show ?thesis by blast
qed

subsection \<open>Planning and recovery budget\<close>

lemma first_free_least: "first_free ts i \<notin> set ts \<and> i \<le> first_free ts i \<and> {i..<first_free ts i} \<subseteq> set ts"
proof (induction ts i rule: first_free.induct)
  case (1 ts i)
  show ?case
  proof (cases "i \<in> set ts")
    case True
    then have e: "first_free ts i = first_free ts (i + 1)" by (simp add: first_free.simps)
    have "{i..<first_free ts (i + 1)} \<subseteq> insert i {i + 1..<first_free ts (i + 1)}" by auto
    with 1 [OF True] True show ?thesis unfolding e by (auto simp: subset_iff)
  next
    case False
    then show ?thesis by (simp add: first_free.simps)
  qed
qed

text \<open>
  C37: \<open>nextReplicaIndex\<close>, a loop without a bound in the source, returns: the result is the least index from 0
  that no live replica of the model has, and it is at most the number of live replicas.
\<close>

theorem replica_index_least_free:
  "nextReplicaIndexUsing False m db \<notin> set (taken_indices m db) \<and> 0 \<le> nextReplicaIndexUsing False m db \<and>
   {0..<nextReplicaIndexUsing False m db} \<subseteq> set (taken_indices m db) \<and>
   nextReplicaIndexUsing False m db \<le> live_count m db"
proof -
  define i where "i = first_free (taken_indices m db) 0"
  have i: "i \<notin> set (taken_indices m db)" "0 \<le> i" "{0..<i} \<subseteq> set (taken_indices m db)"
    using first_free_least [of "taken_indices m db" 0] unfolding i_def by blast+
  have "nat i = card {0..<i}" by simp
  also have "\<dots> \<le> card (set (taken_indices m db))" using i(3) by (intro card_mono) simp_all
  also have "\<dots> \<le> length (taken_indices m db)" by (rule card_length)
  finally have "i \<le> live_count m db" using i(2) by (simp add: taken_indices_def live_count_def)
  with i show ?thesis by (simp add: nextReplicaIndexUsing_def i_def)
qed

lemma recordLog_frame:
  "runtimes (recordLog b t i a rt st why d) = runtimes d" "ha_tasks (recordLog b t i a rt st why d) = ha_tasks d"
  "leases (recordLog b t i a rt st why d) = leases d"
  by (simp_all add: recordLog_def)

lemmas abandon_unfold = abandon_def Let_def log_action_def recordLog_frame update_runtimes_def port_terminal_def

lemma abandon_frame: "ha_tasks (abandon w a n db) = ha_tasks db \<and> leases (abandon w a n db) = leases db"
  by (simp add: abandon_unfold)

lemma abandon_rows:
  assumes "\<And>x. x \<in> set (runtimes db) \<Longrightarrow> h_id x = h_id r \<Longrightarrow> x = r" "h_state r = ''unhealthy''"
    "\<not> hw_faults w ''mark lost''" "ra_from a = h_id r"
  shows "\<exists>e. runtimes (abandon w a n db) =
    map (\<lambda>x. if h_id x = h_id r then r\<lparr>h_state := ''lost'', h_error := e, h_updated := hw_now w\<rparr> else x) (runtimes db)"
proof
  define e where "e = ''recovery chain exhausted after '' @ FormatInt (n - 1) @ '' attempts''"
  have "(if h_id x = h_id r \<and> h_state x \<notin> {''lost'', ''stopped'', ''deleted'', ''archived''}
      then x\<lparr>h_state := ''lost'', h_error := e, h_updated := hw_now w\<rparr> else x) =
    (if h_id x = h_id r then r\<lparr>h_state := ''lost'', h_error := e, h_updated := hw_now w\<rparr> else x)" if "x \<in> set (runtimes db)" for x
    using assms(1) [OF that] assms(2) by (cases "h_id x = h_id r") simp_all
  then show "runtimes (abandon w a n db) =
    map (\<lambda>x. if h_id x = h_id r then r\<lparr>h_state := ''lost'', h_error := e, h_updated := hw_now w\<rparr> else x) (runtimes db)"
    using assms(3,4) unfolding abandon_unfold e_def [symmetric] by simp
qed

text \<open>
  The recovery budget. When the row a replacement would follow has used its attempts, no row is inserted,
  no task is sent and no lease changes: the call ends in \<open>ErrRecoveryChainExhausted\<close> and the row becomes
  \<open>lost\<close>. Neither the time since the attempts nor how long the row served enters.
\<close>

theorem exhausted_chain_gives_up:
  assumes "r \<in> set (runtimes db)" "distinct (map h_id (runtimes db))" "h_id r \<noteq> []" "h_state r = ''unhealthy''"
    "maxUnhealthyRecoveryAttempts \<le> h_attempt r" "ra_from a = h_id r"
    "\<not> hw_faults w ''attempt''" "\<not> hw_faults w ''mark lost''"
  shows "\<exists>db' e. executeReturningID w status a db = (Inl ErrRecoveryChainExhausted, db') \<and>
    runtimes db' = map (\<lambda>x. if h_id x = h_id r then r\<lparr>h_state := ''lost'', h_error := e, h_updated := hw_now w\<rparr> else x) (runtimes db) \<and>
    ha_tasks db' = ha_tasks db \<and> leases db' = leases db"
proof -
  have same: "x = r" if "x \<in> set (runtimes db)" "h_id x = h_id r" for x
    using assms(1,2) that by (metis distinct_map inj_onD)
  have "find (\<lambda>x. h_id x = h_id r) (runtimes db) \<noteq> None" using assms(1) unfolding find_None_iff by blast
  then obtain x where x: "find (\<lambda>x. h_id x = h_id r) (runtimes db) = Some x" by blast
  moreover from x have "x \<in> set (runtimes db) \<and> h_id x = h_id r" by (auto simp: find_Some_iff)
  ultimately have "find (\<lambda>x. h_id x = h_id r) (runtimes db) = Some r" using same by blast
  then have "nextRecoveryAttempt False (h_id r) db = (h_attempt r + 1, False)"
    using assms(3,5) by (simp add: nextRecoveryAttempt_def runtime_by_id_def)
  then have e: "executeReturningID w status a db = (Inl ErrRecoveryChainExhausted, abandon w a (h_attempt r + 1) db)"
    using assms(6,7) by (simp add: executeReturningID_def)
  with abandon_frame [of w a "h_attempt r + 1" db] abandon_rows [OF same assms(4,8,6)] show ?thesis by blast
qed

theorem exhausted_chain_gives_up_witness:
  "\<exists>db' e. executeReturningID wit_world (replica_status wit_db (hd (ha_models wit_db)))
      \<lparr>ra_model = ''m'', ra_name = ''m'', ra_node = ''n'', ra_index = 0, ra_from = ''a'', ra_reason = []\<rparr>
      (wit_db\<lparr>runtimes := [(wit_row ''a'' ''unhealthy'' None)\<lparr>h_attempt := 5\<rparr>]\<rparr>) = (Inl ErrRecoveryChainExhausted, db') \<and>
    runtimes db' = [(wit_row ''a'' ''lost'' None)\<lparr>h_attempt := 5, h_error := e, h_updated := 100\<rparr>] \<and>
    ha_tasks db' = ha_tasks wit_db \<and> leases db' = leases wit_db"
  using exhausted_chain_gives_up [of "(wit_row ''a'' ''unhealthy'' None)\<lparr>h_attempt := 5\<rparr>"
    "wit_db\<lparr>runtimes := [(wit_row ''a'' ''unhealthy'' None)\<lparr>h_attempt := 5\<rparr>]\<rparr>"
    "\<lparr>ra_model = ''m'', ra_name = ''m'', ra_node = ''n'', ra_index = 0, ra_from = ''a'', ra_reason = []\<rparr>" wit_world
    "replica_status wit_db (hd (ha_models wit_db))"]
  by (simp add: wit_row_def wit_world_def maxUnhealthyRecoveryAttempts_def)

text \<open>
  The short cooldown for confirmed container deaths has no effect. While the log has any entry of the
  model in the last six minutes, whatever its reason, no replica is planned.
\<close>

theorem no_recovery_within_six_minutes:
  assumes "e \<in> set (recovery_log db)" "re_model e = st_model status" "now - 360 < re_created e" "\<not> flt ''logs''"
  shows "plan flt now status db = None"
proof -
  have "0 < recentLog flt now (st_model status) db"
    using assms unfolding recentLog_def recent_logs_def Let_def by (auto simp: filter_empty_conv)
  then show ?thesis by (simp add: plan_def Let_def)
qed

definition wit_death :: recovery_entry where
  "wit_death = \<lparr>re_id = ''l'', re_model = ''m'', re_runtime = None, re_node = None, re_status = ''failed'',
     re_reason = ''container-dead'', re_index = 0, re_created = 0\<rparr>"

theorem no_recovery_within_six_minutes_witness:
  "plan (\<lambda>_. False) 61 (replica_status wit_db (hd (ha_models wit_db)))
     (wit_db\<lparr>runtimes := [], ha_nodes := [wit_node ''n'' 1], recovery_log := [wit_death]\<rparr>) = None \<and>
   plan (\<lambda>_. False) 361 (replica_status wit_db (hd (ha_models wit_db)))
     (wit_db\<lparr>runtimes := [], ha_nodes := [wit_node ''n'' 1], recovery_log := [wit_death]\<rparr>) \<noteq> None"
proof
  show "plan (\<lambda>_. False) 61 (replica_status wit_db (hd (ha_models wit_db)))
     (wit_db\<lparr>runtimes := [], ha_nodes := [wit_node ''n'' 1], recovery_log := [wit_death]\<rparr>) = None"
    by (rule no_recovery_within_six_minutes [of wit_death]) (simp_all add: wit_death_def wit_db_def replica_status_def)
qed code_simp

text \<open>
  C9: the fallback placement counts the free memory of a node once per row of \<open>agent_runtimes\<close> on it, so it
  prefers a node with many rows to a node with more free memory.
\<close>

theorem loaded_node_preferred:
  assumes "candidate_nodes db = [n1, n2]" "\<not> flt ''nodes''" "st_policy status \<notin> {''anti_affinity'', ''spread'', ''pack''}"
    "node_rows n2 db = 1" "device_sum n1 < device_sum n2" "device_sum n2 < node_rows n1 db * device_sum n1"
  shows "selectNode flt status db = Some (hn_id n1)"
  using assms by (simp add: selectNode_def Let_def free_vram_mb_def)

theorem loaded_node_preferred_witness:
  "selectNode (\<lambda>_. False) ((replica_status wit_db (hd (ha_models wit_db)))\<lparr>st_policy := ''balanced''\<rparr>)
     (wit_db\<lparr>ha_nodes := [wit_node ''n'' 3, wit_node ''p'' 5]\<rparr>) = Some ''n''"
proof -
  have "candidate_nodes (wit_db\<lparr>ha_nodes := [wit_node ''n'' 3, wit_node ''p'' 5]\<rparr>) = [wit_node ''n'' 3, wit_node ''p'' 5]"
    by code_simp
  from loaded_node_preferred [OF this, of "\<lambda>_. False" "(replica_status wit_db (hd (ha_models wit_db)))\<lparr>st_policy := ''balanced''\<rparr>"]
  show ?thesis by (simp add: wit_node_def wit_defs node_rows_def device_sum_def coalesce_def)
qed

end
