(* ===== verification/Docker_Args.thy ===== *)
theory Docker_Args
  imports Start_Payload
begin

text \<open>
  The pure part of \<open>internal/nodeagent/executor.go\<close>: the payload as the agent reads it, its legacy aliases,
  and \<open>buildDockerArgs\<close>, which turns it into the arguments of \<open>docker run\<close>.
\<close>

record startModelPayload =
  RuntimeID :: string
  EndpointID :: string
  ModelID :: string
  RuntimeName :: string
  Backend :: string
  Image :: string
  ModelName :: string
  ServedAs :: string
  BindHost :: string
  BindPort :: int
  GPUDevices :: "int list"
  CPUSetCPUs :: string
  NUMANode :: int
  MemoryLimit :: string
  CPULimit :: string
  GGUFPath :: string
  HFRepo :: string
  HFFile :: string
  HFToken :: string
  ModelsVolume :: string
  CtxSize :: int
  NGPULayers :: int
  TensorParallel :: int
  GPUMemoryUtil :: rat
  MaxModelLen :: int
  Dtype :: string
  Quantization :: string
  ExtraArgs :: "string list"
  Env :: env
  ExecutionMode :: string
  LlamaCppModelPath :: string
  LlamaCppHFRepo :: string
  LlamaCppHFFile :: string
  LlamaCppCtxSize :: int
  LlamaCppNGPULayers :: int
  LlamaCppModelsVolume :: string
  StaleContainerNames :: "string list"

text \<open>What the agent reads back from the JSON of a control-plane payload: the two structures share their keys.\<close>

definition received :: "StartModelPayload \<Rightarrow> startModelPayload" where
  "received m =
     \<lparr>RuntimeID = sm_RuntimeID m, EndpointID = sm_EndpointID m, ModelID = sm_ModelID m, RuntimeName = sm_RuntimeName m,
      Backend = sm_Backend m, Image = sm_Image m, ModelName = sm_ModelName m, ServedAs = sm_ServedAs m,
      BindHost = sm_BindHost m, BindPort = sm_BindPort m, GPUDevices = sm_GPUDevices m, CPUSetCPUs = sm_CPUSetCPUs m,
      NUMANode = sm_NUMANode m, MemoryLimit = sm_MemoryLimit m, CPULimit = sm_CPULimit m, GGUFPath = sm_GGUFPath m,
      HFRepo = sm_HFRepo m, HFFile = sm_HFFile m, HFToken = sm_HFToken m, ModelsVolume = sm_ModelsVolume m,
      CtxSize = sm_CtxSize m, NGPULayers = sm_NGPULayers m, TensorParallel = sm_TensorParallel m,
      GPUMemoryUtil = sm_GPUMemoryUtil m, MaxModelLen = sm_MaxModelLen m, Dtype = sm_Dtype m, Quantization = sm_Quantization m,
      ExtraArgs = sm_ExtraArgs m, Env = sm_Env m, ExecutionMode = sm_ExecutionMode m,
      LlamaCppModelPath = sm_LlamaCppModelPath m, LlamaCppHFRepo = sm_LlamaCppHFRepo m, LlamaCppHFFile = sm_LlamaCppHFFile m,
      LlamaCppCtxSize = sm_LlamaCppCtxSize m, LlamaCppNGPULayers = sm_LlamaCppNGPULayers m,
      LlamaCppModelsVolume = sm_LlamaCppModelsVolume m, StaleContainerNames = sm_StaleContainerNames m\<rparr>"

definition resolveModelSource :: "startModelPayload \<Rightarrow> startModelPayload" where
  "resolveModelSource p =
     p\<lparr>GGUFPath := (if GGUFPath p = [] \<and> LlamaCppModelPath p \<noteq> [] then LlamaCppModelPath p else GGUFPath p),
       HFRepo := (if HFRepo p = [] \<and> LlamaCppHFRepo p \<noteq> [] then LlamaCppHFRepo p else HFRepo p),
       HFFile := (if HFFile p = [] \<and> LlamaCppHFFile p \<noteq> [] then LlamaCppHFFile p else HFFile p),
       ModelsVolume := (if ModelsVolume p = [] \<and> LlamaCppModelsVolume p \<noteq> [] then LlamaCppModelsVolume p else ModelsVolume p),
       CtxSize := (if CtxSize p = 0 \<and> LlamaCppCtxSize p \<noteq> 0 then LlamaCppCtxSize p else CtxSize p),
       NGPULayers := (if NGPULayers p = 0 \<and> LlamaCppNGPULayers p \<noteq> 0 then LlamaCppNGPULayers p else NGPULayers p),
       ServedAs := (if ServedAs p = [] then ModelName p else ServedAs p)\<rparr>"

fun firstNonEmpty :: "string list \<Rightarrow> string" where
  "firstNonEmpty [] = []"
| "firstNonEmpty (v # vs) = (if v \<noteq> [] then v else firstNonEmpty vs)"

definition llamacppHealthStartPeriod :: "int \<Rightarrow> int \<Rightarrow> string" where
  "llamacppHealthStartPeriod nGPULayers ctxSize =
     (if nGPULayers = 0 then ''15m''
      else if nGPULayers < 0 then ''10m''
      else if ctxSize \<ge> 32768 then ''15m''
      else if ctxSize \<ge> 8192 then ''10m''
      else ''8m'')"

definition backendPortEnvVars :: "string \<Rightarrow> int \<Rightarrow> env" where
  "backendPortEnvVars backend port =
     (if backend \<in> {''vllm'', ''tgi'', ''llamacpp''} then [] else port_vars port)"

definition usesEnvVarPortOnly :: "string \<Rightarrow> bool" where
  "usesEnvVarPortOnly img \<longleftrightarrow>
     list_ex (\<lambda>marker. contains marker (ToLower img)) [''faster-whisper'', ''whisper-server'', ''kokoro'']"

subsection \<open>Building the command\<close>

text \<open>\<open>fmt.Sprintf("%.2f", x)\<close> of a positive number: the nearest multiple of 1/100, ties to even.\<close>

definition round_even :: "rat \<Rightarrow> int" where
  "round_even x =
     (let f = \<lfloor>x\<rfloor>; d = x - of_int f in
      if d < 1 / 2 then f else if d > 1 / 2 then f + 1 else if even f then f else f + 1)"

definition fixed2 :: "rat \<Rightarrow> string" where
  "fixed2 x =
     (let n = round_even (x * 100) in
      FormatInt (n div 100) @ ''.'' @ FormatInt (n mod 100 div 10) @ FormatInt (n mod 10))"

definition port_flag :: "string \<Rightarrow> bool" where
  "port_flag a \<longleftrightarrow> a = ''--port'' \<or> a = ''-p'' \<or> HasPrefix a ''--port=''"

definition emitsOwnPort :: "startModelPayload \<Rightarrow> bool" where
  "emitsOwnPort p \<longleftrightarrow> Backend p \<in> {''vllm'', ''tgi'', ''tei''} \<or> usesEnvVarPortOnly (Image p)"

definition inject_port :: "startModelPayload \<Rightarrow> string list \<Rightarrow> string list" where
  "inject_port p extra =
     (if BindPort p > 0 \<and> \<not> emitsOwnPort p \<and> \<not> list_ex port_flag extra then extra @ [''--port'', FormatInt (BindPort p)] else extra)"

definition model_flag :: "string \<Rightarrow> bool" where
  "model_flag a \<longleftrightarrow> a = ''--model-name-or-path'' \<or> a = ''--model-id'' \<or> HasPrefix a ''--model-name-or-path='' \<or> HasPrefix a ''--model-id=''"

definition inject_model :: "startModelPayload \<Rightarrow> string list \<Rightarrow> string list" where
  "inject_model p extra =
     (if contains ''infinity'' (ToLower (Image p)) \<and> ModelName p \<noteq> [] \<and> \<not> list_ex model_flag extra \<and> contains ''/'' (ModelName p)
      then (if ''v2'' \<in> set extra then extra else ''v2'' # extra) @ [''--model-id'', ModelName p]
      else extra)"

text \<open>The extra arguments after the injections of the generic case.\<close>

definition final_extra :: "startModelPayload \<Rightarrow> string list" where
  "final_extra p = (if Backend p = ''llamacpp'' then ExtraArgs p else inject_model p (inject_port p (ExtraArgs p)))"

definition base_args :: "startModelPayload \<Rightarrow> string list" where
  "base_args p =
     [''run'', ''-d'', ''--name'', RuntimeName p, ''--restart'', ''unless-stopped'',
      ''--label'', ''nexus.managed=true'', ''--label'', ''nexus.model='' @ ModelName p, ''--label'', ''nexus.runtime_id='' @ RuntimeID p]"

definition network_args :: "startModelPayload \<Rightarrow> string list" where
  "network_args p =
     (if Backend p = ''llamacpp''
      then [''-v'', firstNonEmpty [ModelsVolume p, ''llamacpp_models''] @ '':/models'', ''--network'', ''host'',
            ''--health-cmd'', ''curl -sf http://localhost:'' @ FormatInt (BindPort p) @ ''/health || exit 1'',
            ''--health-interval'', ''30s'', ''--health-timeout'', ''10s'', ''--health-retries'', ''5'',
            ''--health-start-period'', llamacppHealthStartPeriod (NGPULayers p) (CtxSize p)]
      else (if ModelsVolume p \<noteq> [] then [''-v'', ModelsVolume p @ '':/models''] else []) @ [''--network'', ''host''])"

definition wantsGPU :: "startModelPayload \<Rightarrow> bool" where
  "wantsGPU p \<longleftrightarrow>
     (if ExecutionMode p = ''cpu'' then False
      else if ExecutionMode p = ''gpu'' then True
      else GPUDevices p \<noteq> [] \<or> Backend p = ''llamacpp'' \<and> NGPULayers p \<noteq> 0)"

definition gpu_args :: "startModelPayload \<Rightarrow> string list" where
  "gpu_args p =
     (if wantsGPU p
      then if GPUDevices p \<noteq> [] then [''--gpus'', ''device='' @ Join '','' (map FormatInt (GPUDevices p))] else [''--gpus'', ''all'']
      else [''--runtime'', ''runc'']) @
     (if wantsGPU p \<and> Backend p \<in> {''vllm'', ''tgi''} then [''--shm-size'', ''4g''] else [])"

definition limit_args :: "startModelPayload \<Rightarrow> string list" where
  "limit_args p =
     (if CPUSetCPUs p \<noteq> [] then [''--cpuset-cpus'', CPUSetCPUs p] else []) @
     (if NUMANode p \<ge> 0 then [''--cpuset-mems'', FormatInt (NUMANode p)] else []) @
     (if CPULimit p \<noteq> [] then [''--cpus'', CPULimit p] else []) @
     (if MemoryLimit p \<noteq> [] then [''--memory'', MemoryLimit p] else [])"

definition env_args :: "startModelPayload \<Rightarrow> string list" where
  "env_args p = concat (map (\<lambda>(k, v). [''-e'', k @ ''='' @ v]) (Env p))"

definition opt_arg :: "bool \<Rightarrow> string \<Rightarrow> string \<Rightarrow> string list" where
  "opt_arg b flag v = (if b then [flag, v] else [])"

definition vllm_args :: "startModelPayload \<Rightarrow> string list" where
  "vllm_args p =
     (let vllmModel = (if GGUFPath p \<noteq> [] then GGUFPath p else ModelName p) in
      [''--model'', vllmModel, ''--port'', FormatInt (BindPort p)] @
      opt_arg (ServedAs p \<noteq> [] \<and> ServedAs p \<noteq> vllmModel) ''--served-model-name'' (ServedAs p) @
      opt_arg (TensorParallel p > 1) ''--tensor-parallel-size'' (FormatInt (TensorParallel p)) @
      opt_arg (GPUMemoryUtil p > 0) ''--gpu-memory-utilization'' (fixed2 (GPUMemoryUtil p)) @
      opt_arg (MaxModelLen p > 0) ''--max-model-len'' (FormatInt (MaxModelLen p)) @
      opt_arg (Dtype p \<noteq> [] \<and> Dtype p \<noteq> ''auto'') ''--dtype'' (Dtype p) @
      opt_arg (Quantization p \<noteq> []) ''--quantization'' (Quantization p))"

definition tgi_args :: "startModelPayload \<Rightarrow> string list" where
  "tgi_args p =
     [''--model-id'', ModelName p, ''--port'', FormatInt (BindPort p)] @ opt_arg (Quantization p \<noteq> []) ''--quantize'' (Quantization p)"

definition tei_args :: "startModelPayload \<Rightarrow> string list" where
  "tei_args p =
     (let modelID = (if GGUFPath p \<noteq> [] then GGUFPath p else if HFRepo p \<noteq> [] then HFRepo p else ModelName p) in
      [''--model-id'', modelID, ''--port'', FormatInt (BindPort p)] @ opt_arg (Dtype p \<noteq> [] \<and> Dtype p \<noteq> ''auto'') ''--dtype'' (Dtype p))"

definition llamacpp_source :: "startModelPayload \<Rightarrow> string list" where
  "llamacpp_source p =
     (if GGUFPath p \<noteq> [] then [''--model'', GGUFPath p]
      else if HFRepo p \<noteq> [] \<and> HFFile p \<noteq> [] then [''--hf-repo'', HFRepo p, ''--hf-file'', HFFile p]
      else if HFRepo p \<noteq> [] then [''--hf-repo'', HFRepo p]
      else if HasPrefix (ModelName p) ''/'' then [''--model'', ModelName p]
      else [])"

definition llamacpp_args :: "startModelPayload \<Rightarrow> string list" where
  "llamacpp_args p =
     llamacpp_source p @
     [''--host'', ''0.0.0.0'', ''--port'', FormatInt (BindPort p), ''--ctx-size'', FormatInt (CtxSize p)] @
     opt_arg (CPULimit p \<noteq> [] \<and> CPULimit p \<noteq> ''0'') ''--threads'' (CPULimit p) @
     opt_arg (wantsGPU p) ''--n-gpu-layers''
       (if GPUDevices p \<noteq> [] \<and> NGPULayers p = 0 then ''-1'' else if NGPULayers p \<noteq> 0 then FormatInt (NGPULayers p) else ''-1'')"

definition command_args :: "startModelPayload \<Rightarrow> string list" where
  "command_args p =
     (if Backend p = ''vllm'' then vllm_args p
      else if Backend p = ''tgi'' then tgi_args p
      else if Backend p = ''tei'' then tei_args p
      else if Backend p = ''llamacpp'' then llamacpp_args p
      else [])"

definition buildDockerArgs :: "startModelPayload \<Rightarrow> string list" where
  "buildDockerArgs p =
     base_args p @ network_args p @ gpu_args p @ limit_args p @ env_args p @ [Image p] @ command_args p @ final_extra p"

end
