(* ===== verification/Node_Executor.thy ===== *)
theory Node_Executor
  imports Docker_Args "HOL-Library.State_Monad"
begin

text \<open>
  The node agent's executor (\<open>internal/nodeagent/executor.go\<close>): how a task becomes a sequence of commands.
  The programs it runs (\<open>docker\<close>, \<open>stat\<close>, the downloaders) are not part of the repository: a host answers
  every command, given the commands run before it, with whether it succeeded and its output. The state of
  the monad is the list of commands run so far. Log lines are left out and error texts shortened.
\<close>

type_synonym cmd = "string list"

record host =
  hs_run :: "cmd list \<Rightarrow> cmd \<Rightarrow> bool \<times> string"
  hs_free :: "int \<Rightarrow> bool"
  hs_ephemeral :: "int option"
  hs_dial :: "int \<Rightarrow> bool"
  hs_tool :: "string \<Rightarrow> bool"
  hs_done :: "nat \<Rightarrow> bool"

definition sh :: "host \<Rightarrow> cmd \<Rightarrow> (cmd list, bool \<times> string) state" where
  "sh w c = State (\<lambda>h. (hs_run w h c, h @ [c]))"

subsection \<open>Text helpers of the executor\<close>

fun Fields_aux :: "string \<Rightarrow> string \<Rightarrow> string list" where
  "Fields_aux cur [] = (if cur = [] then [] else [cur])"
| "Fields_aux cur (c # s) =
     (if is_space c then (if cur = [] then Fields_aux [] s else cur # Fields_aux [] s) else Fields_aux (cur @ [c]) s)"

definition Fields :: "string \<Rightarrow> string list" where "Fields s = Fields_aux [] s"

definition TrimPrefix :: "string \<Rightarrow> string \<Rightarrow> string" where
  "TrimPrefix s p = (if HasPrefix s p then drop (length p) s else s)"

definition pos_int :: "string \<Rightarrow> int" where
  "pos_int s = (case ParseInt s of (n, err) \<Rightarrow> if \<not> err \<and> n > 0 then n else 0)"

definition after_last :: "char \<Rightarrow> string \<Rightarrow> string" where
  "after_last c s = rev (takeWhile (\<lambda>x. x \<noteq> c) (rev s))"

definition before_last :: "char \<Rightarrow> string \<Rightarrow> string" where
  "before_last c s = take (length s - length (after_last c s) - 1) s"

subsection \<open>Inspecting containers\<close>

definition owner_cmd :: "string \<Rightarrow> cmd" where
  "owner_cmd name = [''docker'', ''inspect'', name, ''--format'',
     ''{{index .Config.Labels \"nexus.managed\"}}|{{index .Config.Labels \"com.docker.compose.project\"}}'']"

definition owner_of :: "string \<Rightarrow> string \<times> bool" where
  "owner_of out =
     (let s = TrimSpace out; nexusManaged = takeWhile (\<lambda>c. c \<noteq> CHR ''|'') s; composeProject = drop (Suc (length nexusManaged)) s in
      if nexusManaged = ''true'' then ([], False)
      else if composeProject \<noteq> [] \<and> composeProject \<noteq> ''<no value>'' then (''docker compose project '' @ composeProject, True)
      else ([], False))"

definition operatorOwnedContainer :: "host \<Rightarrow> string \<Rightarrow> (cmd list, string \<times> bool) state" where
  "operatorOwnedContainer w name =
     (if name = [] then State_Monad.return ([], False)
      else do {
        (ok, out) \<leftarrow> sh w (owner_cmd name);
        State_Monad.return (if ok then owner_of out else ([], False))
      })"

definition running_cmd :: "string \<Rightarrow> cmd" where
  "running_cmd name = [''docker'', ''inspect'', ''--format'', ''{{.State.Running}}'', name]"

definition bindings_cmd :: "string \<Rightarrow> cmd" where
  "bindings_cmd name = [''docker'', ''inspect'', ''--format'',
     ''{{range $p, $conf := .HostConfig.PortBindings}}{{if $conf}}{{(index $conf 0).HostPort}}{{end}}{{end}}'', name]"

definition args_cmd :: "string \<Rightarrow> cmd" where
  "args_cmd name = [''docker'', ''inspect'', ''--format'', ''{{join .Args \" \"}}'', name]"

fun scan_port :: "string list \<Rightarrow> int" where
  "scan_port [] = 0"
| "scan_port (a # rest) =
     (let p1 = (if a = ''--port'' \<or> a = ''-p'' then (case rest of v # _ \<Rightarrow> pos_int v | [] \<Rightarrow> 0) else 0);
          p2 = (if HasPrefix a ''--port='' then pos_int (TrimPrefix a ''--port='') else 0)
      in if p1 > 0 then p1 else if p2 > 0 then p2 else scan_port rest)"

definition runningContainerPort :: "host \<Rightarrow> string \<Rightarrow> (cmd list, int) state" where
  "runningContainerPort w name = do {
     (ok, out) \<leftarrow> sh w (running_cmd name);
     if \<not> ok \<or> TrimSpace out \<noteq> ''true'' then State_Monad.return 0
     else do {
       (ok, out) \<leftarrow> sh w (bindings_cmd name);
       if ok \<and> TrimSpace out \<noteq> [] \<and> pos_int (TrimSpace out) > 0 then State_Monad.return (pos_int (TrimSpace out))
       else do {
         (ok, out) \<leftarrow> sh w (args_cmd name);
         State_Monad.return (if ok then scan_port (Fields (TrimSpace out)) else 0)
       }
     }
   }"

definition env_line :: "string \<Rightarrow> env \<Rightarrow> env" where
  "env_line line m =
     (let k = takeWhile (\<lambda>c. c \<noteq> CHR ''='') line in
      if k \<noteq> [] \<and> length k < length line then AList.update k (TrimSpace (drop (Suc (length k)) line)) m else m)"

fun env_port :: "env \<Rightarrow> string list \<Rightarrow> int" where
  "env_port m [] = 0"
| "env_port m (v # vs) =
     (let val = (case map_of m v of None \<Rightarrow> [] | Some x \<Rightarrow> x); p = pos_int (after_last (CHR '':'') val) in
      if val \<noteq> [] \<and> p > 0 then p else env_port m vs)"

definition env_cmd :: "string \<Rightarrow> cmd" where
  "env_cmd name = [''docker'', ''inspect'', ''--format'', ''{{range .Config.Env}}{{println .}}{{end}}'', name]"

definition inspectEnvPort :: "host \<Rightarrow> string \<Rightarrow> string list \<Rightarrow> (cmd list, int) state" where
  "inspectEnvPort w name vars = do {
     (ok, out) \<leftarrow> sh w (env_cmd name);
     State_Monad.return (if ok then env_port (fold env_line (Split (CHR ''\<newline>'') out) []) vars else 0)
   }"

definition probe_vars :: "string \<Rightarrow> string list" where
  "probe_vars backend =
     (if backend = ''ollama'' then [''OLLAMA_HOST'']
      else if backend = ''cpu_native'' \<or> backend = ''openai_compat'' then [''PORT'', ''HTTP_PORT'', ''UVICORN_PORT'']
      else if backend \<in> {''vllm'', ''tgi'', ''llamacpp''} then []
      else [''PORT'', ''HTTP_PORT'', ''OLLAMA_HOST'', ''UVICORN_PORT''])"

definition probe :: "host \<Rightarrow> string \<Rightarrow> string \<Rightarrow> (cmd list, int) state" where
  "probe w name backend = do {
     p \<leftarrow> runningContainerPort w name;
     if p > 0 then State_Monad.return p
     else if probe_vars backend = [] then State_Monad.return 0
     else inspectEnvPort w name (probe_vars backend)
   }"

text \<open>The attempts left; a cancelled context ends the wait only while the container is not running.\<close>

fun discover :: "host \<Rightarrow> string \<Rightarrow> string \<Rightarrow> int \<Rightarrow> nat \<Rightarrow> (cmd list, int) state" where
  "discover w name backend fallback 0 = State_Monad.return fallback"
| "discover w name backend fallback (Suc n) = do {
     (ok, out) \<leftarrow> sh w (running_cmd name);
     if \<not> ok \<or> TrimSpace out \<noteq> ''true'' then
       (if hs_done w n then State_Monad.return fallback else discover w name backend fallback n)
     else do {
       port \<leftarrow> probe w name backend;
       if port > 0 then State_Monad.return port else discover w name backend fallback n
     }
   }"

definition discoverPortForBackend :: "host \<Rightarrow> string \<Rightarrow> string \<Rightarrow> int \<Rightarrow> (cmd list, int) state" where
  "discoverPortForBackend w name backend fallback = discover w name backend fallback 15"

fun recover_names :: "host \<Rightarrow> string list \<Rightarrow> (string \<times> int) list \<Rightarrow> (cmd list, (string \<times> int) list) state" where
  "recover_names w [] m = State_Monad.return m"
| "recover_names w (n # ns) m =
     (let name = TrimSpace n in
      if name = [] then recover_names w ns m
      else do {
        p \<leftarrow> runningContainerPort w name;
        port \<leftarrow> (if p = 0 then inspectEnvPort w name [''PORT'', ''HTTP_PORT'', ''UVICORN_PORT'', ''OLLAMA_HOST''] else State_Monad.return p);
        recover_names w ns (if port > 0 then AList.update name port m else m)
      })"

definition RecoverContainers :: "host \<Rightarrow> (cmd list, (string \<times> int) list) state" where
  "RecoverContainers w = do {
     (ok, out) \<leftarrow> sh w [''docker'', ''ps'', ''--filter'', ''name=nexus-'', ''--format'', ''{{.Names}}''];
     if ok then recover_names w (Split (CHR ''\<newline>'') (TrimSpace out)) [] else State_Monad.return []
   }"

subsection \<open>Pruning\<close>

definition prune_cmd :: cmd where
  "prune_cmd = [''docker'', ''ps'', ''-a'', ''--filter'', ''status=exited'', ''--filter'', ''label=nexus.managed=true'',
     ''--filter'', ''name=nexus-'', ''--format'', ''{{.ID}} {{.Names}}'']"

definition prune_ids :: "string \<Rightarrow> string list" where
  "prune_ids out = List.map_filter (\<lambda>line. case Fields line of
       cid # name # _ \<Rightarrow> if HasPrefix name ''nexus-'' then Some cid else None
     | _ \<Rightarrow> None) (Split (CHR ''\<newline>'') (TrimSpace out))"

definition pruneExitedNexusContainers :: "host \<Rightarrow> (cmd list, unit) state" where
  "pruneExitedNexusContainers w = do {
     (ok, out) \<leftarrow> sh w prune_cmd;
     if \<not> ok \<or> out = [] \<or> prune_ids out = [] then State_Monad.return ()
     else do { _ \<leftarrow> sh w ([''docker'', ''rm''] @ prune_ids out); State_Monad.return () }
   }"

subsection \<open>Ports\<close>

fun find_port :: "host \<Rightarrow> int \<Rightarrow> nat \<Rightarrow> int option" where
  "find_port w candidate 0 = None"
| "find_port w candidate (Suc n) =
     (if candidate > 65535 then None
      else if hs_free w candidate then Some candidate
      else find_port w (candidate + 1) n)"

definition findAvailablePort :: "host \<Rightarrow> int \<Rightarrow> nat \<Rightarrow> int option" where
  "findAvailablePort w start maxSearch = find_port w start maxSearch"

subsection \<open>The model cache\<close>

definition volume_cmd :: "string \<Rightarrow> cmd" where
  "volume_cmd v = [''docker'', ''volume'', ''inspect'', ''--format'', ''{{.Mountpoint}}'', v]"

definition volume_candidates :: "startModelPayload \<Rightarrow> string list" where
  "volume_candidates p = (if ModelsVolume p \<noteq> [] then [ModelsVolume p] else []) @ [''nexus_models'', ''llamacpp_models'']"

text \<open>The first candidate that is an absolute path or a volume with a mountpoint, with its directory.\<close>

fun resolve_volume :: "host \<Rightarrow> string list \<Rightarrow> (cmd list, (string \<times> string) option) state" where
  "resolve_volume w [] = State_Monad.return None"
| "resolve_volume w (v # vs) =
     (if HasPrefix v ''/'' then State_Monad.return (Some (v, v))
      else do {
        (ok, out) \<leftarrow> sh w (volume_cmd v);
        if ok \<and> TrimSpace out \<noteq> [] then State_Monad.return (Some (v, TrimSpace out)) else resolve_volume w vs
      })"

definition resolveModelsVolumeMount :: "host \<Rightarrow> startModelPayload \<Rightarrow> (cmd list, string) state" where
  "resolveModelsVolumeMount w p =
     (if GGUFPath p = [] \<and> ModelsVolume p = [] then State_Monad.return []
      else if HasPrefix (ModelsVolume p) ''/'' then State_Monad.return (ModelsVolume p)
      else do {
        r \<leftarrow> resolve_volume w (volume_candidates p);
        State_Monad.return (case r of Some (v, _) \<Rightarrow> v | None \<Rightarrow> hd (volume_candidates p))
      })"

definition stat_cmd :: "string \<Rightarrow> cmd" where
  "stat_cmd path = [''stat'', ''-c'', ''%s'', path]"

definition empty_size :: "string \<Rightarrow> bool" where
  "empty_size out \<longleftrightarrow> TrimSpace out = ''0'' \<or> TrimSpace out = []"

fun find_cached :: "host \<Rightarrow> string list \<Rightarrow> (cmd list, string option) state" where
  "find_cached w [] = State_Monad.return None"
| "find_cached w (path # paths) = do {
     (ok, out) \<leftarrow> sh w (stat_cmd path);
     if \<not> ok then find_cached w paths
     else if empty_size out then do { _ \<leftarrow> sh w [''rm'', ''-f'', path]; find_cached w paths }
     else State_Monad.return (Some path)
   }"

definition hf_url :: "startModelPayload \<Rightarrow> string" where
  "hf_url p = ''https://huggingface.co/'' @ HFRepo p @ ''/resolve/main/'' @ HFFile p"

text \<open>\<open>downloadFromHF\<close>: an error, or the path of the file.\<close>

definition downloadFromHF :: "host \<Rightarrow> startModelPayload \<Rightarrow> string \<Rightarrow> string \<Rightarrow> (cmd list, string + string) state" where
  "downloadFromHF w p dir relPath =
     (let targetDir = (if CHR ''/'' \<in> set relPath then dir @ ''/'' @ before_last (CHR ''/'') relPath else dir);
          file = targetDir @ ''/'' @ HFFile p;
          result = (\<lambda>(ok, out). State_Monad.return (if ok then Inr file else Inl out)) in
      do {
        (ok, out) \<leftarrow> sh w [''mkdir'', ''-p'', targetDir];
        if \<not> ok then State_Monad.return (Inl ''mkdir'')
        else if hs_tool w ''huggingface-cli'' then
          sh w ([''huggingface-cli'', ''download'', HFRepo p] @ (if HFFile p \<noteq> [] then [HFFile p] else []) @ [''--local-dir'', targetDir]) \<bind> result
        else if HFFile p = [] then State_Monad.return (Inl ''huggingface-cli and aria2c not found and no hf_file set for wget fallback'')
        else if hs_tool w ''aria2c'' then
          sh w ([''aria2c'', ''--continue=true'', ''--max-connection-per-server=8'', ''--split=8'', ''--min-split-size=50M'',
                 ''--dir'', targetDir, ''--out'', HFFile p] @
                (if HFToken p \<noteq> [] then [''--header=Authorization: Bearer '' @ HFToken p] else []) @ [hf_url p]) \<bind> result
        else
          sh w (''wget'' # (if HFToken p \<noteq> [] then [''--header'', ''Authorization: Bearer '' @ HFToken p] else []) @
                [''-c'', ''-O'', file, hf_url p]) \<bind> result
      })"

definition rel_path :: "string \<Rightarrow> string" where
  "rel_path path = (if HasPrefix path ''/models/'' then drop 8 path else TrimPrefix path ''/'')"

text \<open>Cases 1 and 2: a path is set.\<close>

definition ensure_path :: "host \<Rightarrow> startModelPayload \<Rightarrow> string \<Rightarrow> (cmd list, string + startModelPayload) state" where
  "ensure_path w p dir =
     (let file = dir @ ''/'' @ rel_path (GGUFPath p) in
      do {
        (ok, out) \<leftarrow> sh w (stat_cmd file);
        if ok \<and> \<not> empty_size out then State_Monad.return (Inr p)
        else do {
          _ \<leftarrow> (if ok then sh w [''rm'', ''-f'', file] else State_Monad.return (True, []));
          if HFRepo p = [] then State_Monad.return (Inl ''GGUF file not found and no hf_repo configured for auto-download'')
          else do {
            r \<leftarrow> downloadFromHF w p dir (rel_path (GGUFPath p));
            State_Monad.return (case r of
                Inl e \<Rightarrow> Inl e
              | Inr path \<Rightarrow> Inr (p\<lparr>GGUFPath := ''/models/'' @ TrimPrefix path (dir @ ''/'')\<rparr>))
          }
        }
      })"

text \<open>\<open>ensureModelCached\<close>: an error, or the payload with the resolved volume and path.\<close>

definition ensureModelCached :: "host \<Rightarrow> startModelPayload \<Rightarrow> (cmd list, string + startModelPayload) state" where
  "ensureModelCached w p =
     (if GGUFPath p = [] \<and> HFRepo p = [] \<and> \<not> HasPrefix (ModelName p) ''/'' then
        State_Monad.return (Inl ''llamacpp requires a model source'')
      else do {
        r \<leftarrow> resolve_volume w (volume_candidates p);
        let (root, dir) = (case r of Some (v, mp) \<Rightarrow> (v, mp) | None \<Rightarrow> (last (volume_candidates p), last (volume_candidates p)));
        let p1 = p\<lparr>ModelsVolume := root\<rparr>;
        if GGUFPath p = [] \<and> HFRepo p \<noteq> [] \<and> HFFile p \<noteq> [] then do {
          c \<leftarrow> find_cached w [dir @ ''/'' @ HFFile p, dir @ ''/'' @ HFRepo p @ ''/'' @ HFFile p];
          State_Monad.return (case c of
              Some path \<Rightarrow> Inr (p1\<lparr>GGUFPath := ''/models/'' @ TrimPrefix path (dir @ ''/''), HFRepo := [], HFFile := []\<rparr>)
            | None \<Rightarrow> Inr p1)
        }
        else if GGUFPath p = [] then State_Monad.return (Inr p1)
        else ensure_path w p1 dir
      })"

subsection \<open>Starting a model\<close>

datatype data_value = DStr string | DInt int | DBool bool | DHealth env

record TaskResult =
  tr_Success :: bool
  tr_RuntimeID :: string
  tr_RuntimeState :: string
  tr_ContainerID :: string
  tr_Error :: string
  tr_Data :: "(string \<times> data_value) list"

definition task_error :: "string \<Rightarrow> string \<Rightarrow> TaskResult" where
  "task_error runtimeID e =
     \<lparr>tr_Success = False, tr_RuntimeID = runtimeID, tr_RuntimeState = ''failed'', tr_ContainerID = [], tr_Error = e, tr_Data = []\<rparr>"

definition validation_error :: "startModelPayload \<Rightarrow> string option" where
  "validation_error p =
     (if RuntimeName p = [] then Some ''validation failed: runtime_name is required''
      else if Image p = [] then Some ''validation failed: container image is required''
      else if BindPort p < 0 then Some ''validation failed: bind_port must be 0 (auto) or a positive port number''
      else None)"

definition with_defaults :: "startModelPayload \<Rightarrow> startModelPayload" where
  "with_defaults p =
     p\<lparr>Backend := (if Backend p = [] then ''openai_compat'' else Backend p),
       CtxSize := (if CtxSize p = 0 then 4096 else CtxSize p),
       Env := (if HFToken p \<noteq> [] then AList.update ''HUGGING_FACE_HUB_TOKEN'' (HFToken p) (Env p) else Env p)\<rparr>"

definition download_stage :: "host \<Rightarrow> startModelPayload \<Rightarrow> (cmd list, string + startModelPayload) state" where
  "download_stage w p =
     (if Backend p = ''llamacpp'' then ensureModelCached w p
      else if GGUFPath p \<noteq> [] \<or> ModelsVolume p \<noteq> [] then do {
        v \<leftarrow> resolveModelsVolumeMount w p;
        State_Monad.return (Inr (p\<lparr>ModelsVolume := v\<rparr>))
      }
      else State_Monad.return (Inr p))"

definition reused :: "startModelPayload \<Rightarrow> int \<Rightarrow> string \<Rightarrow> TaskResult" where
  "reused p port cid =
     \<lparr>tr_Success = True, tr_RuntimeID = RuntimeID p, tr_RuntimeState = ''loading_model'', tr_ContainerID = cid, tr_Error = [],
      tr_Data = [(''container_id'', DStr cid), (''bind_port'', DInt port), (''actual_port'', DInt port), (''reused'', DBool True)]\<rparr>"

text \<open>Case C: the requested port is taken.\<close>

definition scan_busy :: "host \<Rightarrow> startModelPayload \<Rightarrow> TaskResult + startModelPayload" where
  "scan_busy w p =
     (if hs_free w (BindPort p) then Inr p
      else case findAvailablePort w (BindPort p + 1) 50 of
        Some port \<Rightarrow> Inr (p\<lparr>BindPort := port\<rparr>)
      | None \<Rightarrow> Inl (task_error (RuntimeID p) ''port is busy and no free port found''))"

text \<open>The port of the container; \<open>Inl\<close> ends the task, with an error or a running container to reuse.\<close>

definition port_stage :: "host \<Rightarrow> startModelPayload \<Rightarrow> (cmd list, TaskResult + startModelPayload) state" where
  "port_stage w p =
     (if BindPort p = 0 then
        State_Monad.return (case hs_ephemeral w of
            None \<Rightarrow> Inl (task_error (RuntimeID p) ''port allocation failed'')
          | Some port \<Rightarrow> Inr (p\<lparr>BindPort := port\<rparr>))
      else do {
        port \<leftarrow> runningContainerPort w (RuntimeName p);
        if port > 0 \<and> hs_dial w port then do {
          (ok, out) \<leftarrow> sh w [''docker'', ''inspect'', ''--format'', ''{{.Id}}'', RuntimeName p];
          State_Monad.return (Inl (reused p port (TrimSpace (if ok then out else []))))
        }
        else State_Monad.return (scan_busy w p)
      })"

definition rm_cmd :: "string \<Rightarrow> cmd" where "rm_cmd name = [''docker'', ''rm'', ''-f'', name]"

fun remove_stale :: "host \<Rightarrow> string \<Rightarrow> string list \<Rightarrow> (cmd list, unit) state" where
  "remove_stale w name [] = State_Monad.return ()"
| "remove_stale w name (s # ss) =
     (if s = [] \<or> s = name then remove_stale w name ss
      else do {
        (owner, owned) \<leftarrow> operatorOwnedContainer w s;
        if owned then remove_stale w name ss
        else do { _ \<leftarrow> sh w (rm_cmd s); remove_stale w name ss }
      })"

definition started :: "startModelPayload \<Rightarrow> string \<Rightarrow> TaskResult" where
  "started p cid =
     \<lparr>tr_Success = True, tr_RuntimeID = RuntimeID p, tr_RuntimeState = ''loading_model'', tr_ContainerID = cid, tr_Error = [],
      tr_Data = [(''container_id'', DStr cid), (''bind_port'', DInt (BindPort p)), (''actual_port'', DInt (BindPort p)),
                 (''gguf_path'', DStr (GGUFPath p))]\<rparr>"

definition launch :: "host \<Rightarrow> startModelPayload \<Rightarrow> (cmd list, TaskResult) state" where
  "launch w p = do {
     (ok, out) \<leftarrow> sh w (''docker'' # buildDockerArgs p);
     if \<not> ok then State_Monad.return (task_error (RuntimeID p) (''docker run failed: '' @ out))
     else do {
       port \<leftarrow> discoverPortForBackend w (RuntimeName p) (Backend p) (BindPort p);
       State_Monad.return (started (if port > 0 then p\<lparr>BindPort := port\<rparr> else p) (TrimSpace out))
     }
   }"

text \<open>
  Everything after the port is known. The pruning of exited containers is launched as a goroutine: it is a process of
  its own, \<^const>\<open>pruneExitedNexusContainers\<close>, and what is left here is that it was launched, an entry of the history.
  The commands of a process may find the host changed by the other; as the answers of a host are an arbitrary
  function of the history, a statement about a process for every host covers every interleaving.
\<close>

definition launch_prune :: "(cmd list, unit) state" where
  "launch_prune = State (\<lambda>h. ((), h @ [[''go'', ''pruneExitedNexusContainers'']]))"

definition replace_container :: "host \<Rightarrow> startModelPayload \<Rightarrow> (cmd list, TaskResult) state" where
  "replace_container w p =
     (let p1 = p\<lparr>Env := (if BindPort p > 0 then merge_env (backendPortEnvVars (Backend p) (BindPort p)) (Env p) else Env p)\<rparr> in
      do {
        (owner, owned) \<leftarrow> operatorOwnedContainer w (RuntimeName p);
        if owned then State_Monad.return (task_error (RuntimeID p) (''container already exists and was not created by NexusLLM: '' @ owner))
        else do {
          _ \<leftarrow> sh w (rm_cmd (RuntimeName p));
          _ \<leftarrow> remove_stale w (RuntimeName p) (StaleContainerNames p);
          _ \<leftarrow> launch_prune;
          launch w p1
        }
      })"

definition startModel :: "host \<Rightarrow> startModelPayload \<Rightarrow> (cmd list, TaskResult) state" where
  "startModel w p0 =
     (let p = resolveModelSource p0 in
      case validation_error p of
        Some e \<Rightarrow> State_Monad.return (task_error (RuntimeID p) e)
      | None \<Rightarrow> do {
          d \<leftarrow> download_stage w (with_defaults p);
          case d of
            Inl e \<Rightarrow> State_Monad.return (task_error (RuntimeID p) (''downloading/validation failed: '' @ e))
          | Inr p2 \<Rightarrow> do {
              r \<leftarrow> port_stage w p2;
              case r of
                Inl res \<Rightarrow> State_Monad.return res
              | Inr p3 \<Rightarrow> replace_container w p3
            }
        })"

subsection \<open>The other tasks\<close>

record stopPayload =
  xs_RuntimeID :: string
  xs_ContainerID :: string
  xs_DrainSecs :: int

definition stopRuntime :: "host \<Rightarrow> stopPayload \<Rightarrow> (cmd list, TaskResult) state" where
  "stopRuntime w p = do {
     (ok, out) \<leftarrow> sh w [''docker'', ''stop'', ''-t'', FormatInt (if xs_DrainSecs p \<le> 0 then 30 else xs_DrainSecs p), xs_ContainerID p];
     State_Monad.return
       (if ok then \<lparr>tr_Success = True, tr_RuntimeID = xs_RuntimeID p, tr_RuntimeState = ''stopped'', tr_ContainerID = [], tr_Error = [], tr_Data = []\<rparr>
        else task_error (xs_RuntimeID p) (''docker stop: '' @ out))
   }"

definition deleteRuntime :: "host \<Rightarrow> stopPayload \<Rightarrow> (cmd list, TaskResult) state" where
  "deleteRuntime w p = do {
     (ok, out) \<leftarrow> sh w (rm_cmd (xs_ContainerID p));
     State_Monad.return
       (if ok then \<lparr>tr_Success = True, tr_RuntimeID = xs_RuntimeID p, tr_RuntimeState = ''deleted'', tr_ContainerID = [], tr_Error = [], tr_Data = []\<rparr>
        else (task_error (xs_RuntimeID p) (''docker rm: '' @ out))\<lparr>tr_RuntimeState := []\<rparr>)
   }"

record pullModelPayload =
  pm_HFRepo :: string
  pm_HFToken :: string
  pm_Backend :: string
  pm_LocalPath :: string

definition plain_result :: "bool \<Rightarrow> string \<Rightarrow> (string \<times> data_value) list \<Rightarrow> TaskResult" where
  "plain_result ok e d =
     \<lparr>tr_Success = ok, tr_RuntimeID = [], tr_RuntimeState = [], tr_ContainerID = [], tr_Error = e, tr_Data = d\<rparr>"

definition pullModel :: "host \<Rightarrow> pullModelPayload \<Rightarrow> (cmd list, TaskResult) state" where
  "pullModel w p =
     (if pm_Backend p = ''llamacpp'' then
        (let localPath = firstNonEmpty [pm_LocalPath p, ''/models''];
             modelDir = (if CHR ''/'' \<in> set (pm_HFRepo p) then tl (dropWhile (\<lambda>c. c \<noteq> CHR ''/'') (pm_HFRepo p)) else pm_HFRepo p) in
         do {
           (ok, out) \<leftarrow> sh w ([''docker'', ''run'', ''--rm'', ''-v'', localPath @ '':/models''] @
             (if pm_HFToken p \<noteq> [] then [''-e'', ''HUGGING_FACE_HUB_TOKEN='' @ pm_HFToken p] else []) @
             [''ghcr.io/ggml-org/llama.cpp:full'', ''--all-in-one'', ''/models/'', pm_HFRepo p]);
           State_Monad.return (if ok
             then plain_result True [] [(''model_path'', DStr (localPath @ ''/'' @ modelDir @ ''/ggml-model-q4_0.gguf''))]
             else plain_result False (''llamacpp convert: '' @ out) [])
         })
      else State_Monad.return (plain_result True [] [(''note'', DStr ''model will be downloaded on container start'')]))"

fun health_of :: "host \<Rightarrow> string list \<Rightarrow> env \<Rightarrow> (cmd list, env) state" where
  "health_of w [] m = State_Monad.return m"
| "health_of w (r # rs) m = do {
     (ok, out) \<leftarrow> sh w [''docker'', ''inspect'', ''--format'', ''{{.State.Status}}'', r];
     health_of w rs (AList.update r (if ok then TrimSpace out else ''not_found'') m)
   }"

definition healthCheck :: "host \<Rightarrow> string list \<Rightarrow> (cmd list, TaskResult) state" where
  "healthCheck w ids = do {
     m \<leftarrow> health_of w ids [];
     State_Monad.return (plain_result True [] [(''runtime_health'', DHealth m)])
   }"

subsection \<open>Dispatch\<close>

text \<open>Decoding of JSON texts is a parameter: an object of the wanted type, or a string.\<close>

record codec =
  cd_start :: "string \<Rightarrow> startModelPayload option"
  cd_stop :: "string \<Rightarrow> stopPayload option"
  cd_pull :: "string \<Rightarrow> pullModelPayload option"
  cd_ids :: "string \<Rightarrow> string list option"
  cd_string :: "string \<Rightarrow> string option"

definition unmarshalPayload :: "(string \<Rightarrow> 'p option) \<Rightarrow> (string \<Rightarrow> string option) \<Rightarrow> 'p \<Rightarrow> string \<Rightarrow> 'p option" where
  "unmarshalPayload js str zero raw =
     (if raw = [] then Some zero
      else case js raw of
        Some p \<Rightarrow> Some p
      | None \<Rightarrow> (case str raw of None \<Rightarrow> None | Some s \<Rightarrow> js s))"

definition on_payload :: "'p option \<Rightarrow> string \<Rightarrow> ('p \<Rightarrow> (cmd list, TaskResult) state) \<Rightarrow> (cmd list, TaskResult) state" where
  "on_payload p e f = (case p of None \<Rightarrow> State_Monad.return (plain_result False e []) | Some x \<Rightarrow> f x)"

definition zero_stop :: stopPayload where "zero_stop = \<lparr>xs_RuntimeID = [], xs_ContainerID = [], xs_DrainSecs = 0\<rparr>"

definition zero_pull :: pullModelPayload where
  "zero_pull = \<lparr>pm_HFRepo = [], pm_HFToken = [], pm_Backend = [], pm_LocalPath = []\<rparr>"

definition Execute :: "host \<Rightarrow> codec \<Rightarrow> string \<Rightarrow> string \<Rightarrow> (cmd list, TaskResult) state" where
  "Execute w c task_type raw =
     (if task_type \<in> {''START_MODEL'', ''DEPLOY_RUNTIME'', ''WARM_RUNTIME'', ''RESTART_RUNTIME''} then
        on_payload (unmarshalPayload (cd_start c) (cd_string c) (received zero_payload) raw) ''parse payload'' (startModel w)
      else if task_type \<in> {''STOP_RUNTIME'', ''UNLOAD_RUNTIME''} then
        on_payload (unmarshalPayload (cd_stop c) (cd_string c) zero_stop raw) ''payload'' (stopRuntime w)
      else if task_type = ''DELETE_RUNTIME'' then
        on_payload (unmarshalPayload (cd_stop c) (cd_string c) zero_stop raw) ''payload'' (deleteRuntime w)
      else if task_type = ''PULL_MODEL'' then
        on_payload (unmarshalPayload (cd_pull c) (cd_string c) zero_pull raw) ''payload'' (pullModel w)
      else if task_type = ''DELETE_MODEL'' then
        on_payload (unmarshalPayload (cd_pull c) (cd_string c) zero_pull raw) ''payload'' (\<lambda>_. State_Monad.return (plain_result True [] []))
      else if task_type = ''COLLECT_INVENTORY'' then
        State_Monad.return (plain_result True [] [(''note'', DStr ''inventory pushed via heartbeat loop'')])
      else if task_type = ''HEALTH_CHECK'' then healthCheck w (case cd_ids c raw of None \<Rightarrow> [] | Some ids \<Rightarrow> ids)
      else State_Monad.return (plain_result False (''unknown task type: '' @ task_type) []))"

end
