(* ===== verification/Executor_Props.thy ===== *)
theory Executor_Props
  imports Node_Executor "HOL-Library.Sublist"
begin

text \<open>
  What the node agent's executor guarantees: it removes a container only right after the daemon did not
  name an operator as its owner, or, when pruning, because the daemon listed it as one of NexusLLM's own; a CPU deployment never asks for a GPU, and the port reaches the process
  exactly once.
\<close>

named_theorems keeps_intros

subsection \<open>Commands and invariants of the trace\<close>

definition keeps :: "(cmd list \<Rightarrow> bool) \<Rightarrow> (cmd list, 'a) state \<Rightarrow> bool" where
  "keeps I m \<longleftrightarrow> (\<forall>h. I h \<longrightarrow> I (snd (run_state m h)))"

lemma keeps_return [keeps_intros]: "keeps I (State_Monad.return x)"
  by (simp add: keeps_def)

lemma keeps_bind [keeps_intros]: "keeps I m \<Longrightarrow> (\<And>x. keeps I (f x)) \<Longrightarrow> keeps I (State_Monad.bind m f)"
  unfolding keeps_def by (auto split: prod.split) 

lemma keeps_if [keeps_intros]: "(b \<Longrightarrow> keeps I m) \<Longrightarrow> (\<not> b \<Longrightarrow> keeps I n) \<Longrightarrow> keeps I (if b then m else n)"
  by simp

lemma keeps_prod [keeps_intros]: "(\<And>a b. keeps I (f a b)) \<Longrightarrow> keeps I (case x of (a, b) \<Rightarrow> f a b)"
  by (simp split: prod.split)

lemma keeps_sum [keeps_intros]:
  "(\<And>a. keeps I (f a)) \<Longrightarrow> (\<And>b. keeps I (g b)) \<Longrightarrow> keeps I (case x of Inl a \<Rightarrow> f a | Inr b \<Rightarrow> g b)"
  by (simp split: sum.split)

lemma keeps_option [keeps_intros]: "keeps I m \<Longrightarrow> (\<And>a. keeps I (f a)) \<Longrightarrow> keeps I (case x of None \<Rightarrow> m | Some a \<Rightarrow> f a)"
  by (simp split: option.split)

lemma keeps_sh: "(\<And>h. I h \<Longrightarrow> I (h @ [c])) \<Longrightarrow> keeps I (sh w c)"
  by (simp add: keeps_def sh_def)

text \<open>What every result of a program satisfies, with the library's \<^const>\<open>pred_state\<close>.\<close>

named_theorems results

lemma results_return [results]: "P x \<Longrightarrow> pred_state P (State_Monad.return x)"
  by (simp add: State_Monad.return_def)

lemma results_bind [results]: "(\<And>x. pred_state P (f x)) \<Longrightarrow> pred_state P (State_Monad.bind m f)"
  by (rule bind_predI, rule pred_stateI)

lemma results_if [results]: "(b \<Longrightarrow> pred_state P m) \<Longrightarrow> (\<not> b \<Longrightarrow> pred_state P n) \<Longrightarrow> pred_state P (if b then m else n)"
  by simp

lemma results_prod [results]: "(\<And>a b. pred_state P (f a b)) \<Longrightarrow> pred_state P (case x of (a, b) \<Rightarrow> f a b)"
  by (simp split: prod.split)

lemma keeps_bind_result:
  assumes "keeps I m" "pred_state P m" "\<And>x. P x \<Longrightarrow> keeps I (f x)"
  shows "keeps I (State_Monad.bind m f)"
  unfolding keeps_def
proof (intro allI impI)
  fix h assume "I h"
  obtain x h' where m: "run_state m h = (x, h')" by fastforce
  have "I h'" using assms(1) \<open>I h\<close> m unfolding keeps_def by (metis snd_conv)
  moreover have "P x" using assms(2) m by (rule pred_stateD)
  ultimately show "I (snd (run_state (State_Monad.bind m f) h))"
    using assms(3) m unfolding keeps_def by simp
qed

definition same_name :: "string \<Rightarrow> 'e + startModelPayload \<Rightarrow> bool" where
  "same_name n r \<longleftrightarrow> (case r of Inl _ \<Rightarrow> True | Inr p \<Rightarrow> RuntimeName p = n)"

lemma download_stage_name: "pred_state (same_name (RuntimeName p)) (download_stage w p)"
  unfolding download_stage_def ensureModelCached_def ensure_path_def Let_def
  by (intro results; simp add: same_name_def split: option.splits sum.splits)

lemma port_stage_name: "pred_state (same_name (RuntimeName p)) (port_stage w p)"
  unfolding port_stage_def scan_busy_def
  by (intro results; simp add: same_name_def split: option.splits)

text \<open>The subcommands of \<open>docker\<close> that change nothing, as the executor uses them.\<close>

definition looks :: "string set" where "looks = {''inspect'', ''ps'', ''volume''}"

lemma looks_simps [simp]:
  "''inspect'' \<in> looks" "''ps'' \<in> looks" "''volume'' \<in> looks" "''rm'' \<notin> looks" "''run'' \<notin> looks"
  by (simp_all add: looks_def)

text \<open>
  An invariant that only other commands of \<open>docker\<close> can break is kept by everything the executor does to
  look at the host and to fetch a model.
\<close>

locale trace_invariant =
  fixes I :: "cmd list \<Rightarrow> bool"
  assumes other_program: "I h \<Longrightarrow> a \<noteq> ''docker'' \<Longrightarrow> I (h @ [a # xs])"
    and looking: "I h \<Longrightarrow> b \<in> looks \<Longrightarrow> I (h @ [''docker'' # b # xs])"
begin

lemma keeps_looking [keeps_intros]: "b \<in> looks \<Longrightarrow> keeps I (sh w (''docker'' # b # xs))"
  by (rule keeps_sh) (rule looking)

lemma keeps_prune_launch [keeps_intros]: "keeps I launch_prune"
  unfolding keeps_def launch_prune_def by (simp add: other_program)

lemma keeps_other [keeps_intros]: "a \<noteq> ''docker'' \<Longrightarrow> keeps I (sh w (a # xs))"
  by (rule keeps_sh) (rule other_program)

lemma keeps_inspections [keeps_intros]:
  "keeps I (sh w (owner_cmd n))" "keeps I (sh w (running_cmd n))" "keeps I (sh w (bindings_cmd n))" "keeps I (sh w (args_cmd n))"
  "keeps I (sh w (env_cmd n))" "keeps I (sh w (volume_cmd n))" "keeps I (sh w (stat_cmd n))"
  unfolding owner_cmd_def running_cmd_def bindings_cmd_def args_cmd_def env_cmd_def volume_cmd_def stat_cmd_def
  by (rule keeps_looking keeps_other; simp)+

lemma keeps_owned [keeps_intros]: "keeps I (operatorOwnedContainer w n)"
  unfolding operatorOwnedContainer_def by (intro keeps_intros)

lemma keeps_running [keeps_intros]: "keeps I (runningContainerPort w n)"
  unfolding runningContainerPort_def by (intro keeps_intros)

lemma keeps_envport [keeps_intros]: "keeps I (inspectEnvPort w n vs)"
  unfolding inspectEnvPort_def by (intro keeps_intros)

lemma keeps_discover: "keeps I (discover w n b f k)"
proof (induction k)
  case (Suc k)
  then show ?case unfolding discover.simps probe_def by (intro keeps_intros)
qed (simp add: keeps_return)

lemma keeps_volume [keeps_intros]: "keeps I (resolve_volume w vs)"
proof (induction vs)
  case (Cons v vs)
  then show ?case unfolding resolve_volume.simps by (intro keeps_intros)
qed (simp add: keeps_return)

lemma keeps_cached [keeps_intros]: "keeps I (find_cached w ps)"
proof (induction ps)
  case (Cons p ps)
  then show ?case unfolding find_cached.simps by (intro keeps_intros; simp)
qed (simp add: keeps_return)

lemma keeps_download [keeps_intros]: "keeps I (downloadFromHF w p dir rel)"
  unfolding downloadFromHF_def Let_def append_Cons append_Nil by (intro keeps_intros; simp)

lemma keeps_ensure [keeps_intros]: "keeps I (ensureModelCached w p)"
  unfolding ensureModelCached_def ensure_path_def Let_def
  by (intro keeps_intros; simp)

lemma keeps_download_stage [keeps_intros]: "keeps I (download_stage w p)"
  unfolding download_stage_def resolveModelsVolumeMount_def by (intro keeps_intros)

lemma keeps_port_stage [keeps_intros]: "keeps I (port_stage w p)"
  unfolding port_stage_def by (intro keeps_intros; simp)

lemma keeps_startModel:
  assumes "\<And>p. RuntimeName p = RuntimeName p0 \<Longrightarrow> RuntimeName p \<noteq> [] \<Longrightarrow> keeps I (replace_container w p)"
  shows "keeps I (startModel w p0)"
proof -
  let ?p = "resolveModelSource p0"
  have n: "RuntimeName (with_defaults ?p) = RuntimeName p0" by (simp add: with_defaults_def resolveModelSource_def)
  show ?thesis
  proof (cases "validation_error ?p")
    case None
    then have ne: "RuntimeName p0 \<noteq> []" by (auto simp: validation_error_def resolveModelSource_def split: if_splits)
    have *: "keeps I (case r of Inl res \<Rightarrow> State_Monad.return res | Inr p3 \<Rightarrow> replace_container w p3)"
      if "same_name (RuntimeName p0) r" for r
      using that ne assms by (auto simp: same_name_def keeps_return split: sum.split)
    have "keeps I (case d of Inl e \<Rightarrow> State_Monad.return (task_error (RuntimeID ?p) (''downloading/validation failed: '' @ e))
        | Inr p2 \<Rightarrow> port_stage w p2 \<bind> (\<lambda>r. case r of Inl res \<Rightarrow> State_Monad.return res | Inr p3 \<Rightarrow> replace_container w p3))"
      if "same_name (RuntimeName p0) d" for d
      using that by (auto simp: same_name_def keeps_return split: sum.split
        intro!: keeps_bind_result [OF keeps_port_stage port_stage_name] *)
    then show ?thesis unfolding startModel_def Let_def None option.case
      by (intro keeps_bind_result [OF keeps_download_stage download_stage_name]) (simp add: n)
  qed (simp add: startModel_def keeps_return)
qed

end

subsection \<open>Removing and starting containers\<close>

definition unowned :: "host \<Rightarrow> cmd list \<Rightarrow> string \<Rightarrow> bool" where
  "unowned w h n \<longleftrightarrow> (case hs_run w h (owner_cmd n) of (ok, out) \<Rightarrow> \<not> (ok \<and> snd (owner_of out)))"

definition harms :: "cmd \<Rightarrow> bool" where
  "harms c = (case c of a # b # _ \<Rightarrow> a = ''docker'' \<and> b \<notin> insert ''run'' looks | _ \<Rightarrow> False)"

definition guarded :: "host \<Rightarrow> cmd list \<Rightarrow> bool" where
  "guarded w h \<longleftrightarrow> (\<forall>i < length h. harms (h ! i) \<longrightarrow>
     (\<exists>j n. i = Suc j \<and> h ! i = rm_cmd n \<and> h ! j = owner_cmd n \<and> unowned w (take j h) n))"

definition own_run :: "string \<Rightarrow> cmd \<Rightarrow> bool" where
  "own_run n c \<longleftrightarrow>
     (take 2 c = [''docker'', ''run''] \<longrightarrow>
      take 9 c = [''docker'', ''run'', ''-d'', ''--name'', n, ''--restart'', ''unless-stopped'', ''--label'', ''nexus.managed=true''])"

lemma guarded_append:
  assumes "guarded w h"
    and "harms c \<Longrightarrow> \<exists>j n. length h = Suc j \<and> c = rm_cmd n \<and> h ! j = owner_cmd n \<and> unowned w (take j h) n"
  shows "guarded w (h @ [c])"
  unfolding guarded_def
proof (intro allI impI)
  fix i assume i: "i < length (h @ [c])" "harms ((h @ [c]) ! i)"
  show "\<exists>j n. i = Suc j \<and> (h @ [c]) ! i = rm_cmd n \<and> (h @ [c]) ! j = owner_cmd n \<and> unowned w (take j (h @ [c])) n"
  proof (cases "i < length h")
    case True
    then obtain j n where "i = Suc j" "h ! i = rm_cmd n" "h ! j = owner_cmd n" "unowned w (take j h) n"
      using assms(1) i unfolding guarded_def by (auto simp: nth_append)
    with True show ?thesis by (auto simp: nth_append)
  next
    case False
    then have c: "i = length h" "harms c" using i by (auto simp: nth_append)
    then obtain j n where "length h = Suc j" "c = rm_cmd n" "h ! j = owner_cmd n" "unowned w (take j h) n" using assms(2) by blast
    with c(1) show ?thesis by (intro exI [of _ j] exI [of _ n]) (simp add: nth_append)
  qed
qed

interpretation removals: trace_invariant "guarded w" for w
  by unfold_locales (rule guarded_append; auto simp: harms_def split: list.splits)+

interpretation launches: trace_invariant "list_all (own_run n)" for n
  by unfold_locales (auto simp: own_run_def)

lemma guarded_rm: "guarded w h \<Longrightarrow> unowned w h n \<Longrightarrow> guarded w (h @ [owner_cmd n, rm_cmd n])"
proof -
  assume g: "guarded w h" and u: "unowned w h n"
  have "guarded w (h @ [owner_cmd n])" by (rule guarded_append [OF g]) (simp add: owner_cmd_def harms_def)
  then have "guarded w ((h @ [owner_cmd n]) @ [rm_cmd n])"
    by (rule guarded_append) (use u in \<open>auto simp: rm_cmd_def\<close>)
  then show ?thesis by simp
qed

text \<open>A removal that follows its check.\<close>

lemma keeps_checked_rm:
  assumes "n \<noteq> []" "\<And>x. keeps (guarded w) (A x)" "keeps (guarded w) B"
  shows "keeps (guarded w) (operatorOwnedContainer w n \<bind> (\<lambda>(x, owned). if owned then A x else sh w (rm_cmd n) \<bind> (\<lambda>_. B)))"
  unfolding keeps_def
proof (intro allI impI)
  fix h assume h: "guarded w h"
  obtain ok out where r: "hs_run w h (owner_cmd n) = (ok, out)" by fastforce
  let ?o = "if ok then owner_of out else ([], False)"
  have h1: "guarded w (h @ [owner_cmd n])" using removals.keeps_inspections(1) [of w w n] h by (simp add: keeps_def sh_def)
  show "guarded w (snd (run_state (operatorOwnedContainer w n \<bind> (\<lambda>(x, owned). if owned then A x else sh w (rm_cmd n) \<bind> (\<lambda>_. B))) h))"
  proof (cases "snd ?o")
    case True
    with h1 assms(1,2) r show ?thesis by (cases ?o) (simp add: operatorOwnedContainer_def sh_def keeps_def)
  next
    case False
    then have "unowned w h n" using r by (simp add: unowned_def split: if_splits)
    then have "guarded w (h @ [owner_cmd n, rm_cmd n])" by (rule guarded_rm [OF h])
    with False assms(1,3) r show ?thesis by (cases ?o) (simp add: operatorOwnedContainer_def sh_def keeps_def)
  qed
qed

lemma keeps_remove_stale: "keeps (guarded w) (remove_stale w n ss)"
proof (induction ss)
  case (Cons s ss)
  then show ?case unfolding remove_stale.simps by (intro keeps_if keeps_checked_rm) simp_all
qed (simp add: keeps_return)

lemma keeps_launch: "keeps (guarded w) (launch w p)"
  unfolding launch_def discoverPortForBackend_def
  by (intro keeps_bind keeps_prod keeps_if keeps_return removals.keeps_discover keeps_sh guarded_append)
    (auto simp: harms_def buildDockerArgs_def base_args_def)

lemma keeps_replace: "RuntimeName p \<noteq> [] \<Longrightarrow> keeps (guarded w) (replace_container w p)"
  unfolding replace_container_def Let_def
  by (intro keeps_checked_rm keeps_bind keeps_return keeps_remove_stale keeps_launch removals.keeps_prune_launch)

lemma own_runs_launch: "keeps (list_all (own_run (RuntimeName p))) (launch w p)"
  unfolding launch_def discoverPortForBackend_def
  by (intro keeps_bind keeps_prod keeps_if keeps_return launches.keeps_discover keeps_sh)
    (simp add: own_run_def buildDockerArgs_def base_args_def)

lemma own_runs_rm: "keeps (list_all (own_run n)) (sh w (rm_cmd m))"
  by (rule keeps_sh) (simp add: own_run_def rm_cmd_def)

lemma own_runs_stale: "keeps (list_all (own_run n)) (remove_stale w m ss)"
proof (induction ss)
  case (Cons s ss)
  then show ?case unfolding remove_stale.simps by (intro keeps_intros launches.keeps_owned own_runs_rm)
qed (simp add: keeps_return)

lemma own_runs_replace: "keeps (list_all (own_run (RuntimeName p))) (replace_container w p)"
proof -
  have "keeps (list_all (own_run (RuntimeName p))) (launch w (p\<lparr>Env := e\<rparr>))" for e
    using own_runs_launch [of "p\<lparr>Env := e\<rparr>"] by simp
  then show ?thesis unfolding replace_container_def Let_def
    by (intro keeps_intros launches.keeps_owned launches.keeps_prune_launch own_runs_rm own_runs_stale)
qed

subsection \<open>Pruning\<close>

text \<open>
  What \<open>docker ps\<close> promises: a container it lists matches every filter it was given. Which container matches which
  filter, its labels and its status, is the daemon's business.
\<close>

definition filters_hold :: "(string \<Rightarrow> string \<Rightarrow> bool) \<Rightarrow> host \<Rightarrow> bool" where
  "filters_hold matches w \<longleftrightarrow> (\<forall>h xs out line cid rest f.
     hs_run w h (''docker'' # ''ps'' # xs) = (True, out) \<longrightarrow> line \<in> set (Split (CHR ''\<newline>'') (TrimSpace out)) \<longrightarrow>
     Fields line = cid # rest \<longrightarrow> sublist [''--filter'', f] xs \<longrightarrow> matches cid f)"

text \<open>The containers a command removes.\<close>

definition removed :: "cmd \<Rightarrow> string list" where
  "removed c = (if take 2 c = [''docker'', ''rm''] then drop 2 c else [])"

definition prunes_only :: "(string \<Rightarrow> bool) \<Rightarrow> cmd list \<Rightarrow> bool" where
  "prunes_only ok h \<longleftrightarrow> list_all (\<lambda>c. (harms c \<longrightarrow> take 2 c = [''docker'', ''rm'']) \<and> list_all ok (removed c)) h"

lemma prune_ids_listed:
  assumes "cid \<in> set (prune_ids out)"
  obtains line name rest where "line \<in> set (Split (CHR ''\<newline>'') (TrimSpace out))" "Fields line = cid # name # rest"
proof -
  from assms obtain line where "line \<in> set (Split (CHR ''\<newline>'') (TrimSpace out))"
      "(case Fields line of cid # name # _ \<Rightarrow> if HasPrefix name ''nexus-'' then Some cid else None | _ \<Rightarrow> None) = Some cid"
    unfolding prune_ids_def map_filter_def by auto
  then show ?thesis using that by (auto split: list.splits if_splits)
qed

lemma prune_filters:
  "\<exists>xs. prune_cmd = ''docker'' # ''ps'' # xs \<and> sublist [''--filter'', ''label=nexus.managed=true''] xs \<and> sublist [''--filter'', ''status=exited''] xs"
  by (intro exI [of _ "drop 2 prune_cmd"]) (simp add: prune_cmd_def sublist_code)

lemma prune_removes_listed:
  assumes "filters_hold matches w"
  shows "prunes_only (\<lambda>cid. matches cid ''label=nexus.managed=true'' \<and> matches cid ''status=exited'')
    (snd (run_state (pruneExitedNexusContainers w) []))"
proof -
  obtain ok out where r: "hs_run w [] prune_cmd = (ok, out)" by fastforce
  obtain xs where xs: "prune_cmd = ''docker'' # ''ps'' # xs" "sublist [''--filter'', ''label=nexus.managed=true''] xs"
    "sublist [''--filter'', ''status=exited''] xs" using prune_filters by blast
  have ids: "matches cid ''label=nexus.managed=true'' \<and> matches cid ''status=exited''" if "ok" "cid \<in> set (prune_ids out)" for cid
  proof -
    from that(2) obtain line name rest where l: "line \<in> set (Split (CHR ''\<newline>'') (TrimSpace out))" "Fields line = cid # name # rest"
      by (rule prune_ids_listed)
    have "hs_run w [] (''docker'' # ''ps'' # xs) = (True, out)" using r that(1) xs(1) by simp
    with assms l xs(2,3) show ?thesis unfolding filters_hold_def by blast
  qed
  have "\<not> harms prune_cmd" "removed prune_cmd = []" by (simp_all add: prune_cmd_def harms_def removed_def)
  with ids show ?thesis
    by (auto simp: pruneExitedNexusContainers_def sh_def r prunes_only_def removed_def list_all_iff)
qed

text \<open>
  C38: the agent never removes a container of the operator. While it starts a model every \<open>docker\<close> command but
  \<open>inspect\<close>, \<open>ps\<close>, \<open>volume\<close> and \<open>run\<close> is the removal of one container by name, right after the daemon was asked
  for its owner and named no operator, and every container it runs has the name of the task and the label
  \<open>nexus.managed=true\<close>, for every payload and whatever the commands answer. The pruning goroutine it launches removes
  only containers that have that label and have exited, as long as \<open>docker ps\<close> lists only what matches its filters.
  Each process has a host of its own, so each meets whatever the other does to the machine.
\<close>

theorem operator_containers_safe:
  assumes "filters_hold matches w'"
  shows "guarded w (snd (run_state (startModel w p) [])) \<and>
    list_all (own_run (RuntimeName p)) (snd (run_state (startModel w p) [])) \<and>
    prunes_only (\<lambda>cid. matches cid ''label=nexus.managed=true'' \<and> matches cid ''status=exited'')
      (snd (run_state (pruneExitedNexusContainers w') []))"
proof (intro conjI)
  have "keeps (guarded w) (startModel w p)" by (rule removals.keeps_startModel) (rule keeps_replace)
  moreover have "guarded w []" by (simp add: guarded_def)
  ultimately show "guarded w (snd (run_state (startModel w p) []))" by (simp add: keeps_def)
  have "keeps (list_all (own_run (RuntimeName p))) (startModel w p)"
    by (rule launches.keeps_startModel) (metis own_runs_replace)
  then show "list_all (own_run (RuntimeName p)) (snd (run_state (startModel w p) []))" by (simp add: keeps_def)
qed (rule prune_removes_listed [OF assms])

text \<open>A machine with one exited container of NexusLLM and a running one of the operator.\<close>

definition demo_daemon :: host where
  "demo_daemon = \<lparr>hs_run = (\<lambda>h c. (True, if take 2 c = [''docker'', ''ps''] then ''4fe1 nexus-llama'' else [])),
     hs_free = (\<lambda>_. True), hs_ephemeral = Some 8000, hs_dial = (\<lambda>_. True), hs_tool = (\<lambda>_. True), hs_done = (\<lambda>_. False)\<rparr>"

theorem operator_containers_safe_witness:
  "prunes_only (\<lambda>cid. cid = ''4fe1'') (snd (run_state (pruneExitedNexusContainers demo_daemon) [])) \<and>
   last (snd (run_state (pruneExitedNexusContainers demo_daemon) [])) = [''docker'', ''rm'', ''4fe1'']"
proof
  have "line = ''4fe1 nexus-llama''" if "line \<in> set (Split (CHR ''\<newline>'') (TrimSpace ''4fe1 nexus-llama''))" for line
    using that by (simp add: TrimSpace_def is_space_def)
  moreover have "Fields ''4fe1 nexus-llama'' = [''4fe1'', ''nexus-llama'']" by (simp add: Fields_def is_space_def)
  ultimately have one: "cid = ''4fe1''"
    if "line \<in> set (Split (CHR ''\<newline>'') (TrimSpace ''4fe1 nexus-llama''))" "Fields line = cid # rest" for line cid rest
    using that by fastforce
  have "filters_hold (\<lambda>cid f. cid = ''4fe1'') demo_daemon"
    unfolding filters_hold_def using one by (simp add: demo_daemon_def)
  from operator_containers_safe [OF this]
  show "prunes_only (\<lambda>cid. cid = ''4fe1'') (snd (run_state (pruneExitedNexusContainers demo_daemon) []))" by simp
  show "last (snd (run_state (pruneExitedNexusContainers demo_daemon) [])) = [''docker'', ''rm'', ''4fe1'']"
    by code_simp
qed

subsection \<open>The arguments of docker run\<close>

text \<open>The texts a payload contributes as whole arguments.\<close>

definition user_strings :: "startModelPayload \<Rightarrow> string list" where
  "user_strings p = [RuntimeName p, Image p, CPUSetCPUs p, CPULimit p, MemoryLimit p, ModelName p, GGUFPath p, HFRepo p, HFFile p,
     ServedAs p, Dtype p, Quantization p] @ ExtraArgs p"

lemma neq_by_char: "c \<in> set xs \<Longrightarrow> c \<notin> set ys \<Longrightarrow> xs \<noteq> ys" by blast

lemma digits_chars: "c \<in> set (digits n) \<Longrightarrow> is_digit c"
  by (induction n rule: digits.induct) (subst (asm) (2) digits.simps, auto split: if_splits)

lemma FormatInt_chars: "c \<in> set (FormatInt i) \<Longrightarrow> c = CHR ''-'' \<or> is_digit c"
  by (auto simp: FormatInt_def digits_chars split: if_splits)

definition flags :: "string set" where "flags = {''--gpus'', ''--n-gpu-layers'', ''--port''}"

lemma flag_chars:
  assumes "f \<in> flags"
  shows "CHR '':'' \<notin> set f" "CHR ''='' \<notin> set f" "CHR ''.'' \<notin> set f" "CHR ''p'' \<in> set f"
  using assms by (auto simp: flags_def)

lemma flag_neq:
  assumes "f \<in> flags"
  shows "f \<noteq> FormatInt i" "f \<noteq> x @ '':/models''" "f \<noteq> k @ ''='' @ v" "f \<noteq> fixed2 q" "f \<noteq> CHR ''n'' # x" "f \<noteq> CHR ''c'' # x"
    "f \<noteq> CHR ''d'' # x"
proof -
  have "CHR ''p'' \<notin> set (FormatInt i)" using FormatInt_chars [of "CHR ''p''" i] by (auto simp: is_digit_def)
  then show "f \<noteq> FormatInt i" using flag_chars(4) [OF assms] by blast
  show "f \<noteq> fixed2 q" using flag_chars(3) [OF assms] by (auto simp: fixed2_def Let_def)
  show "f \<noteq> x @ '':/models''" "f \<noteq> k @ ''='' @ v" using flag_chars(1,2) [OF assms] by auto
  show "f \<noteq> CHR ''n'' # x" "f \<noteq> CHR ''c'' # x" "f \<noteq> CHR ''d'' # x" using assms by (auto simp: flags_def)
qed

lemma base_args_clean: "f \<in> flags \<Longrightarrow> f \<notin> set (user_strings p) \<Longrightarrow> f \<notin> set (base_args p)"
  by (simp add: base_args_def user_strings_def flag_neq(5)) (auto simp: flags_def)

lemma network_args_clean: "f \<in> flags \<Longrightarrow> f \<notin> set (network_args p)"
  by (simp add: network_args_def flag_neq(2,6) del: append_Cons append_Nil firstNonEmpty.simps)
    (auto simp: flags_def llamacppHealthStartPeriod_def)

lemma limit_args_clean: "f \<in> flags \<Longrightarrow> f \<notin> set (user_strings p) \<Longrightarrow> f \<notin> set (limit_args p)"
  by (simp add: limit_args_def user_strings_def flag_neq(1)) (auto simp: flags_def)

lemma env_args_clean: "f \<in> flags \<Longrightarrow> f \<notin> set (env_args p)"
  unfolding env_args_def by (auto simp: flag_neq(3) simp del: append_Cons append_Nil) (auto simp: flags_def)

lemma cpu_gpu_args: "\<not> wantsGPU p \<Longrightarrow> f \<in> flags \<Longrightarrow> f \<notin> set (gpu_args p)"
  by (auto simp: gpu_args_def flags_def)

lemma port_not_in_gpu_args: "''--port'' \<notin> set (gpu_args p)"
  by (simp add: gpu_args_def)

lemma opt_arg_clean: "f \<noteq> flag \<Longrightarrow> f \<noteq> v \<Longrightarrow> f \<notin> set (opt_arg b flag v)"
  by (simp add: opt_arg_def)

lemma command_args_clean:
  assumes "f \<in> flags - {''--port''}" "f \<notin> set (user_strings p)" "\<not> wantsGPU p"
  shows "f \<notin> set (command_args p)"
proof -
  have f: "f \<in> flags" "f \<noteq> ''--port''" using assms(1) by auto
  then have l: "f \<notin> {''--model'', ''--served-model-name'', ''--tensor-parallel-size'', ''--gpu-memory-utilization'', ''--max-model-len'',
      ''--dtype'', ''--quantization'', ''--model-id'', ''--quantize'', ''--hf-repo'', ''--hf-file'', ''--host'', ''0.0.0.0'', ''--ctx-size'', ''--threads''}"
    by (auto simp: flags_def)
  show ?thesis using assms(2,3) f l
    by (simp add: command_args_def vllm_args_def tgi_args_def tei_args_def llamacpp_args_def llamacpp_source_def opt_arg_def Let_def
        flag_neq(1,4) user_strings_def)
qed

lemma inject_model_clean:
  assumes "f \<in> flags" "f \<notin> set extra" "f \<noteq> ModelName p"
  shows "f \<notin> set (inject_model p extra)"
proof -
  have "f \<noteq> ''v2''" "f \<noteq> ''--model-id''" using assms(1) by (auto simp: flags_def)
  then show ?thesis using assms(2,3) by (simp add: inject_model_def)
qed

lemma final_extra_clean:
  assumes "f \<in> flags" "f \<noteq> ''--port''" "f \<notin> set (user_strings p)"
  shows "f \<notin> set (final_extra p)"
proof -
  have "f \<notin> set (inject_port p (ExtraArgs p))"
    using assms(2,3) flag_neq(1) [OF assms(1)] by (simp add: inject_port_def user_strings_def)
  with assms(3) inject_model_clean [OF assms(1)] show ?thesis by (simp add: final_extra_def user_strings_def)
qed

text \<open>
  A payload in CPU mode is started without GPUs: unless one of its own texts is the flag, neither
  \<open>--gpus\<close> nor \<open>--n-gpu-layers\<close> is an argument, whatever devices and layers it names, and the daemon's
  default runtime is overridden.
\<close>

theorem cpu_mode_requests_no_gpu:
  assumes "ExecutionMode p = ''cpu''" "f \<in> {''--gpus'', ''--n-gpu-layers''}" "f \<notin> set (user_strings p)"
  shows "f \<notin> set (buildDockerArgs p) \<and> (\<exists>xs ys. buildDockerArgs p = xs @ [''--runtime'', ''runc''] @ ys)"
proof
  have w: "\<not> wantsGPU p" using assms(1) by (simp add: wantsGPU_def)
  have f: "f \<in> flags" "f \<in> flags - {''--port''}" "f \<noteq> ''--port''" using assms(2) by (auto simp: flags_def)
  show "f \<notin> set (buildDockerArgs p)"
    using base_args_clean [OF f(1) assms(3)] network_args_clean [OF f(1)] cpu_gpu_args [OF w f(1)] limit_args_clean [OF f(1) assms(3)]
      env_args_clean [OF f(1)] command_args_clean [OF f(2) assms(3) w] final_extra_clean [OF f(1,3) assms(3)] assms(3)
    by (simp add: buildDockerArgs_def user_strings_def)
  have "buildDockerArgs p = (base_args p @ network_args p) @ [''--runtime'', ''runc''] @ (limit_args p @ env_args p @ [Image p] @ command_args p @ final_extra p)"
    using w by (simp add: buildDockerArgs_def gpu_args_def)
  then show "\<exists>xs ys. buildDockerArgs p = xs @ [''--runtime'', ''runc''] @ ys" by blast
qed

definition wit_payload :: "string \<Rightarrow> string \<Rightarrow> startModelPayload" where
  "wit_payload backend mode =
     (received zero_payload)\<lparr>RuntimeName := ''nexus-a'', Image := ''img'', Backend := backend, ModelName := ''org/a'', ExecutionMode := mode,
       BindPort := 8100, GPUDevices := [0, 1], NGPULayers := 99\<rparr>"

lemmas wit_payload_simps = wit_payload_def received_def zero_payload_def user_strings_def

theorem cpu_mode_requests_no_gpu_witness:
  "''--gpus'' \<notin> set (buildDockerArgs (wit_payload ''llamacpp'' ''cpu'')) \<and>
   (\<exists>xs ys. buildDockerArgs (wit_payload ''llamacpp'' ''cpu'') = xs @ [''--runtime'', ''runc''] @ ys)"
  by (rule cpu_mode_requests_no_gpu) (simp_all add: wit_payload_simps)

text \<open>Where the port goes.\<close>

lemma port_in_flags: "''--port'' \<in> flags" by (simp add: flags_def)

lemma prefix_no_port:
  assumes "''--port'' \<notin> set (user_strings p)"
  shows "''--port'' \<notin> set (base_args p @ network_args p @ gpu_args p @ limit_args p @ env_args p @ [Image p])"
  using base_args_clean [OF port_in_flags assms] network_args_clean [OF port_in_flags] limit_args_clean [OF port_in_flags assms]
    env_args_clean [OF port_in_flags] port_not_in_gpu_args assms
  by (simp add: user_strings_def)

lemma command_args_port:
  assumes "''--port'' \<notin> set (user_strings p)" "Backend p \<in> {''vllm'', ''tgi'', ''tei'', ''llamacpp''}"
  shows "\<exists>xs ys. command_args p = xs @ [''--port'', FormatInt (BindPort p)] @ ys \<and> ''--port'' \<notin> set xs \<and> ''--port'' \<notin> set ys"
proof -
  note n = flag_neq [OF port_in_flags]
  consider "Backend p = ''vllm''" | "Backend p = ''tgi''" | "Backend p = ''tei''" | "Backend p = ''llamacpp''" using assms(2) by auto
  then show ?thesis
  proof cases
    case 1
    then show ?thesis using assms(1) n
      by (intro exI [of _ "take 2 (vllm_args p)"] exI [of _ "drop 4 (vllm_args p)"])
        (simp add: command_args_def vllm_args_def Let_def user_strings_def opt_arg_def)
  next
    case 2
    then show ?thesis using assms(1) n
      by (intro exI [of _ "take 2 (tgi_args p)"] exI [of _ "drop 4 (tgi_args p)"])
        (simp add: command_args_def tgi_args_def user_strings_def opt_arg_def)
  next
    case 3
    then show ?thesis using assms(1) n
      by (intro exI [of _ "take 2 (tei_args p)"] exI [of _ "drop 4 (tei_args p)"])
        (simp add: command_args_def tei_args_def Let_def user_strings_def opt_arg_def)
  next
    case 4
    then show ?thesis using assms(1) n
      by (intro exI [of _ "llamacpp_source p @ [''--host'', ''0.0.0.0'']"] exI [of _ "drop (length (llamacpp_source p) + 4) (llamacpp_args p)"])
        (simp add: command_args_def llamacpp_args_def llamacpp_source_def user_strings_def opt_arg_def)
  qed
qed

lemma final_extra_keeps:
  assumes "''--port'' \<notin> set (user_strings p)" "Backend p = ''llamacpp'' \<or> emitsOwnPort p"
  shows "''--port'' \<notin> set (final_extra p)"
  using assms inject_model_clean [OF port_in_flags, of "ExtraArgs p" p]
  by (auto simp: final_extra_def inject_port_def user_strings_def)

lemma final_extra_port:
  assumes "''--port'' \<notin> set (user_strings p)" "\<not> list_ex port_flag (ExtraArgs p)" "BindPort p > 0"
    "Backend p \<noteq> ''llamacpp''" "\<not> emitsOwnPort p"
  shows "\<exists>xs ys. final_extra p = xs @ [''--port'', FormatInt (BindPort p)] @ ys \<and> ''--port'' \<notin> set xs \<and> ''--port'' \<notin> set ys"
proof -
  define pre where "pre = (if final_extra p = inject_port p (ExtraArgs p) \<or> ''v2'' \<in> set (inject_port p (ExtraArgs p)) then [] else [''v2''])"
  define post where "post = (if final_extra p = inject_port p (ExtraArgs p) then [] else [''--model-id'', ModelName p])"
  have "inject_port p (ExtraArgs p) = ExtraArgs p @ [''--port'', FormatInt (BindPort p)]" using assms by (simp add: inject_port_def)
  then have "final_extra p = (pre @ ExtraArgs p) @ [''--port'', FormatInt (BindPort p)] @ post"
    using assms(4) by (auto simp: final_extra_def inject_model_def pre_def post_def)
  moreover have "''--port'' \<notin> set (pre @ ExtraArgs p)" "''--port'' \<notin> set post"
    using assms(1) by (auto simp: pre_def post_def user_strings_def)
  ultimately show ?thesis by blast
qed

text \<open>
  The allocated port reaches the started process exactly once. For images that read it from the
  environment only, no \<open>--port\<close> argument is added; for every other image and backend there is exactly one,
  followed by the port, provided the payload's own texts have none.
\<close>

theorem port_passed_exactly_once:
  assumes "BindPort p > 0" "''--port'' \<notin> set (user_strings p)" "\<not> list_ex port_flag (ExtraArgs p)"
  shows "if usesEnvVarPortOnly (Image p) \<and> Backend p \<notin> {''vllm'', ''tgi'', ''tei'', ''llamacpp''}
     then ''--port'' \<notin> set (buildDockerArgs p)
     else \<exists>xs ys. buildDockerArgs p = xs @ [''--port'', FormatInt (BindPort p)] @ ys \<and> ''--port'' \<notin> set xs \<and> ''--port'' \<notin> set ys"
proof -
  define pre where "pre = base_args p @ network_args p @ gpu_args p @ limit_args p @ env_args p @ [Image p]"
  have pre: "''--port'' \<notin> set pre" unfolding pre_def by (rule prefix_no_port [OF assms(2)])
  have b: "buildDockerArgs p = pre @ command_args p @ final_extra p" by (simp add: buildDockerArgs_def pre_def)
  show ?thesis
  proof (cases "Backend p \<in> {''vllm'', ''tgi'', ''tei'', ''llamacpp''}")
    case True
    then obtain xs ys where c: "command_args p = xs @ [''--port'', FormatInt (BindPort p)] @ ys" "''--port'' \<notin> set xs" "''--port'' \<notin> set ys"
      using command_args_port [OF assms(2)] by blast
    have "''--port'' \<notin> set (final_extra p)"
      using True by (intro final_extra_keeps [OF assms(2)]) (auto simp: emitsOwnPort_def)
    with True b c pre show ?thesis
      by (simp, intro exI [of _ "pre @ xs"] exI [of _ "ys @ final_extra p"]) simp
  next
    case False
    then have c: "command_args p = []" by (simp add: command_args_def)
    show ?thesis
    proof (cases "usesEnvVarPortOnly (Image p)")
      case True
      then have "''--port'' \<notin> set (final_extra p)" by (intro final_extra_keeps [OF assms(2)]) (simp add: emitsOwnPort_def)
      with True False b c pre show ?thesis by simp
    next
      case e: False
      obtain xs ys where f: "final_extra p = xs @ [''--port'', FormatInt (BindPort p)] @ ys" "''--port'' \<notin> set xs" "''--port'' \<notin> set ys"
        using final_extra_port [OF assms(2,3,1)] False e by (auto simp: emitsOwnPort_def)
      with e b c pre show ?thesis by (simp, intro exI [of _ "pre @ xs"] exI [of _ ys]) simp
    qed
  qed
qed

theorem port_passed_exactly_once_witness:
  "\<exists>xs ys. buildDockerArgs (wit_payload ''cpu_native'' ''cpu'') = xs @ [''--port'', FormatInt 8100] @ ys \<and> ''--port'' \<notin> set xs \<and> ''--port'' \<notin> set ys"
proof -
  have "\<not> usesEnvVarPortOnly ''img''" by code_simp
  moreover have "BindPort (wit_payload b m) = 8100" "Image (wit_payload b m) = ''img''" "ExtraArgs (wit_payload b m) = []"
    "Backend (wit_payload b m) = b" for b m
    by (simp_all add: wit_payload_simps)
  ultimately show ?thesis
    using port_passed_exactly_once [of "wit_payload ''cpu_native'' ''cpu''"] by (simp add: wit_payload_simps)
qed

text \<open>
  The agent's table of port variables and the control plane's \<open>Backend.ContainerPortEnvVars\<close>, which are
  to be kept in sync by hand, agree exactly on the backends that are not external providers.
\<close>

theorem port_env_in_sync: "backendPortEnvVars b port = ContainerPortEnvVars b port \<longleftrightarrow> b \<notin> set provider_types"
  by (auto simp: backendPortEnvVars_def ContainerPortEnvVars_def BackendForType_def registered_backends_def provider_types_def port_vars_def)

text \<open>
  A replica the reconciler starts is bound to the memory of NUMA node 0 on every host: the payload leaves
  the node at 0, and the agent passes every node from 0 on to \<open>--cpuset-mems\<close>.
\<close>

theorem reconciler_pins_memory_node_zero:
  "\<exists>xs ys. buildDockerArgs (received (reconciler_payload cfg rid name hostname port mode)) = xs @ [''--cpuset-mems'', ''0''] @ ys"
proof -
  define p where "p = received (reconciler_payload cfg rid name hostname port mode)"
  have "NUMANode p = 0" "CPUSetCPUs p = []" by (simp_all add: p_def received_def reconciler_payload_def zero_payload_def)
  moreover have "FormatInt 0 = ''0''" by code_simp
  ultimately obtain zs where "limit_args p = [''--cpuset-mems'', ''0''] @ zs" by (simp add: limit_args_def)
  then have "buildDockerArgs p = (base_args p @ network_args p @ gpu_args p) @ [''--cpuset-mems'', ''0''] @ zs @ env_args p @ [Image p] @ command_args p @ final_extra p"
    by (simp add: buildDockerArgs_def)
  then show ?thesis unfolding p_def by blast
qed

end
