(* ===== verification/Chat_Request.thy ===== *)
theory Chat_Request
  imports Complex_Main Go_Text
begin

text \<open>
  \<open>internal/models/types.go\<close> and the request helpers of \<open>internal/proxy/handler.go\<close>: the body of a chat
  completion request, the estimate of its input tokens, the names of its tools and the fields that a
  local backend does not get. A value of Go's \<open>interface{}\<close> type is a decoded JSON value; a text is
  its bytes; a pointer to a number is an option.
\<close>

subsection \<open>JSON values\<close>

datatype json =
    JNull
  | JBool bool
  | JNum rat
  | JStr string
  | JList "json list"
  | JObj "(string \<times> json) list"

fun field :: "string \<Rightarrow> json \<Rightarrow> json option" where
  "field k (JObj kvs) = map_of kvs k"
| "field k _ = None"

fun is_object :: "json \<Rightarrow> bool" where
  "is_object (JObj _) = True"
| "is_object _ = False"

fun as_string :: "json \<Rightarrow> string option" where
  "as_string (JStr s) = Some s"
| "as_string _ = None"

subsection \<open>Requests\<close>

record ThinkingControl =
  tc_type :: string
  tc_budget :: "int option"

definition ThinkingEnabled :: "int \<Rightarrow> ThinkingControl" where
  "ThinkingEnabled budget = \<lparr>tc_type = ''enabled'', tc_budget = Some budget\<rparr>"

definition ThinkingDisabled :: ThinkingControl where
  "ThinkingDisabled = \<lparr>tc_type = ''disabled'', tc_budget = None\<rparr>"

record Message =
  m_role :: string
  m_content :: json
  m_name :: string
  m_tool_calls :: json
  m_tool_call_id :: string
  m_refusal :: "string option"
  m_reasoning :: "string option"

definition text_message :: "string \<Rightarrow> string \<Rightarrow> Message" where
  "text_message role s =
     \<lparr>m_role = role, m_content = JStr s, m_name = [], m_tool_calls = JNull, m_tool_call_id = [],
      m_refusal = None, m_reasoning = None\<rparr>"

record chat_request =
  q_model :: string
  q_messages :: "Message list"
  q_stream :: bool
  q_max_tokens :: "int option"
  q_temperature :: "rat option"
  q_top_p :: "rat option"
  q_n :: "int option"
  q_stop :: json
  q_presence_penalty :: "rat option"
  q_frequency_penalty :: "rat option"
  q_logit_bias :: json
  q_user :: string
  q_tools :: "json list"
  q_tool_choice :: json
  q_response_format :: json
  q_seed :: "int option"
  q_stream_options :: json
  q_parallel_tool_calls :: "bool option"
  q_service_tier :: "string option"
  q_store :: "bool option"
  q_max_completion_tokens :: "int option"
  q_logprobs :: "bool option"
  q_top_logprobs :: "int option"
  q_metadata :: json
  q_modalities :: json
  q_prediction :: json
  q_audio :: json
  q_web_search_options :: json
  q_reasoning_effort :: "string option"
  q_effort :: "string option"
  q_thinking :: "ThinkingControl option"
  q_template_kwargs :: "(string \<times> json) list option"

text \<open>A request in which only the model and the messages are set.\<close>

definition plain_request :: "string \<Rightarrow> Message list \<Rightarrow> chat_request" where
  "plain_request model msgs =
     \<lparr>q_model = model, q_messages = msgs, q_stream = False, q_max_tokens = None, q_temperature = None,
      q_top_p = None, q_n = None, q_stop = JNull, q_presence_penalty = None, q_frequency_penalty = None,
      q_logit_bias = JNull, q_user = [], q_tools = [], q_tool_choice = JNull, q_response_format = JNull,
      q_seed = None, q_stream_options = JNull, q_parallel_tool_calls = None, q_service_tier = None,
      q_store = None, q_max_completion_tokens = None, q_logprobs = None, q_top_logprobs = None,
      q_metadata = JNull, q_modalities = JNull, q_prediction = JNull, q_audio = JNull,
      q_web_search_options = JNull, q_reasoning_effort = None, q_effort = None, q_thinking = None,
      q_template_kwargs = None\<rparr>"

subsection \<open>Helpers\<close>

text \<open>The name of a tool: of its \<open>function\<close> object when it has one with a name, else its own.\<close>

definition extractToolName :: "json \<Rightarrow> string" where
  "extractToolName tool =
     (if \<not> is_object tool then []
      else case Option.bind (Option.bind (field ''function'' tool) (field ''name'')) as_string of
        Some name \<Rightarrow> name
      | None \<Rightarrow> (case Option.bind (field ''name'' tool) as_string of Some name \<Rightarrow> name | None \<Rightarrow> []))"

text \<open>Four tokens for each message and one for every four bytes of a text.\<close>

fun estimateTokens :: "Message list \<Rightarrow> int" where
  "estimateTokens [] = 0"
| "estimateTokens (m # ms) =
     (case as_string (m_content m) of Some s \<Rightarrow> int (length s) div 4 | None \<Rightarrow> 0) + 4 + estimateTokens ms"

text \<open>The shorthand of the \<open>X-Nexus-Provider\<close> header.\<close>

definition resolveModelWithProvider :: "string \<Rightarrow> string \<Rightarrow> string" where
  "resolveModelWithProvider header model =
     (let provider = TrimSpace header in
      if provider = [] then model
      else if HasPrefix model (provider @ ''/'') then model
      else provider @ ''/'' @ model)"

text \<open>
  The fields a local backend gets. \<open>max_completion_tokens\<close> is translated when it is set, and it wins
  when it is larger.
\<close>

definition translate_max_tokens :: "chat_request \<Rightarrow> chat_request" where
  "translate_max_tokens q =
     (case q_max_completion_tokens q of
        None \<Rightarrow> q
      | Some n \<Rightarrow>
          (case q_max_tokens q of
             None \<Rightarrow> q\<lparr>q_max_tokens := Some n, q_max_completion_tokens := None\<rparr>
           | Some k \<Rightarrow>
               if n > k then q\<lparr>q_max_tokens := Some n, q_max_completion_tokens := None\<rparr>
               else q\<lparr>q_max_completion_tokens := None\<rparr>))"

definition sanitizeForBackend :: "string \<Rightarrow> chat_request \<Rightarrow> chat_request" where
  "sanitizeForBackend backendType q =
     (if backendType = ''openai_compat'' then q
      else (translate_max_tokens q)
        \<lparr>q_stream_options := JNull, q_parallel_tool_calls := None, q_service_tier := None, q_store := None,
         q_logprobs := None, q_top_logprobs := None, q_metadata := JNull, q_modalities := JNull,
         q_prediction := JNull, q_audio := JNull, q_web_search_options := JNull,
         q_reasoning_effort := None, q_effort := None\<rparr>)"

definition local_fields_only :: "chat_request \<Rightarrow> bool" where
  "local_fields_only q \<longleftrightarrow>
     q_stream_options q = JNull \<and> q_parallel_tool_calls q = None \<and> q_service_tier q = None \<and> q_store q = None \<and>
     q_max_completion_tokens q = None \<and> q_logprobs q = None \<and> q_top_logprobs q = None \<and> q_metadata q = JNull \<and>
     q_modalities q = JNull \<and> q_prediction q = JNull \<and> q_audio q = JNull \<and> q_web_search_options q = JNull \<and>
     q_reasoning_effort q = None \<and> q_effort q = None"

subsection \<open>Facts\<close>

lemma estimateTokens_nonneg: "4 * int (length ms) \<le> estimateTokens ms"
  by (induction ms) (auto split: option.splits)

lemma estimateTokens_append: "estimateTokens (xs @ ys) = estimateTokens xs + estimateTokens ys"
  by (induction xs) (simp_all split: option.splits)

lemma HasPrefix_append [simp]: "HasPrefix (p @ s) p"
  by (simp add: HasPrefix_def)

lemma resolveModelWithProvider_idem:
  "resolveModelWithProvider h (resolveModelWithProvider h m) = resolveModelWithProvider h m"
  using HasPrefix_append [of "TrimSpace h @ ''/''" m] by (simp add: resolveModelWithProvider_def Let_def)

lemma translate_max_tokens_cases:
  "q_max_completion_tokens (translate_max_tokens q) = None"
  "q_max_tokens (translate_max_tokens q) =
     (case (q_max_tokens q, q_max_completion_tokens q) of
        (k, None) \<Rightarrow> k | (None, Some n) \<Rightarrow> Some n | (Some k, Some n) \<Rightarrow> Some (max k n))"
  by (auto simp: translate_max_tokens_def max_def split: option.splits)

lemma sanitized_local: "backendType \<noteq> ''openai_compat'' \<Longrightarrow> local_fields_only (sanitizeForBackend backendType q)"
  by (simp add: sanitizeForBackend_def local_fields_only_def translate_max_tokens_cases)

lemma sanitize_idem: "sanitizeForBackend b (sanitizeForBackend b q) = sanitizeForBackend b q"
  by (simp add: sanitizeForBackend_def translate_max_tokens_def translate_max_tokens_cases split: option.split)

lemma sanitize_max_tokens:
  "q_max_tokens (sanitizeForBackend b q) =
     (if b = ''openai_compat'' then q_max_tokens q
      else case (q_max_tokens q, q_max_completion_tokens q) of
        (k, None) \<Rightarrow> k | (None, Some n) \<Rightarrow> Some n | (Some k, Some n) \<Rightarrow> Some (max k n))"
  by (simp add: sanitizeForBackend_def translate_max_tokens_cases)

lemma translate_frame [simp]:
  "q_model (translate_max_tokens q) = q_model q" "q_messages (translate_max_tokens q) = q_messages q"
  "q_stream (translate_max_tokens q) = q_stream q" "q_tools (translate_max_tokens q) = q_tools q"
  "q_temperature (translate_max_tokens q) = q_temperature q" "q_thinking (translate_max_tokens q) = q_thinking q"
  "q_template_kwargs (translate_max_tokens q) = q_template_kwargs q"
  by (simp_all add: translate_max_tokens_def split: option.splits)

lemma sanitize_frame [simp]:
  "q_model (sanitizeForBackend b q) = q_model q" "q_messages (sanitizeForBackend b q) = q_messages q"
  "q_stream (sanitizeForBackend b q) = q_stream q" "q_tools (sanitizeForBackend b q) = q_tools q"
  "q_temperature (sanitizeForBackend b q) = q_temperature q" "q_thinking (sanitizeForBackend b q) = q_thinking q"
  "q_template_kwargs (sanitizeForBackend b q) = q_template_kwargs q"
  by (simp_all add: sanitizeForBackend_def)

end
