(* ===== verification/Thinking_Mode.thy ===== *)
theory Thinking_Mode
  imports Chat_Request Nexus_Prelude
begin

text \<open>
  \<open>internal/thinking/resolver.go\<close>: whether a request uses the reasoning mode of a model, how the backend
  is told, and how reasoning is counted in and removed from a response.

  A request is passed by value, but its messages stay in an array that the copy shares with the
  original. The functions that write to that array return, beside the new request, the messages which
  the original has afterwards.
\<close>

subsection \<open>Resolution\<close>

record ModelCaps =
  SupportsThinking :: bool
  mc_ThinkingEnabled :: bool
  MinThinkingTokens :: int
  mc_BackendType :: string

record thinking_row =
  tr_name :: string
  tr_enabled :: bool
  tr_supports :: "bool option"
  tr_default :: "bool option"
  tr_min :: "int option"
  tr_backend :: "string option"

definition or_else :: "'a option \<Rightarrow> 'a \<Rightarrow> 'a" where
  "or_else x d = (case x of None \<Rightarrow> d | Some y \<Rightarrow> y)"

definition no_caps :: ModelCaps where
  "no_caps = \<lparr>SupportsThinking = False, mc_ThinkingEnabled = False, MinThinkingTokens = 0, mc_BackendType = []\<rparr>"

definition LoadCaps :: "bool \<Rightarrow> string \<Rightarrow> thinking_row list \<Rightarrow> ModelCaps" where
  "LoadCaps fails modelName tbl =
     (if fails then no_caps
      else case find (\<lambda>r. tr_name r = modelName \<and> tr_enabled r) tbl of
        None \<Rightarrow> no_caps
      | Some r \<Rightarrow>
          \<lparr>SupportsThinking = or_else (tr_supports r) False, mc_ThinkingEnabled = or_else (tr_default r) False,
           MinThinkingTokens = or_else (tr_min r) 500, mc_BackendType = or_else (tr_backend r) []\<rparr>)"

text \<open>What a value of \<open>chat_template_kwargs.thinking\<close> means; other types than these say nothing.\<close>

fun kwarg_mode :: "json \<Rightarrow> bool option" where
  "kwarg_mode (JBool b) = Some b"
| "kwarg_mode (JNum x) = Some (x \<noteq> 0)"
| "kwarg_mode (JStr s) = Some (s = ''true'' \<or> s = ''1'' \<or> s = ''enabled'')"
| "kwarg_mode _ = None"

definition kwarg_override :: "chat_request \<Rightarrow> bool option" where
  "kwarg_override q =
     Option.bind (Option.bind (q_template_kwargs q) (\<lambda>kvs. map_of kvs ''thinking'')) kwarg_mode"

definition effort_of :: "chat_request \<Rightarrow> string" where
  "effort_of q = (case q_effort q of Some e \<Rightarrow> e | None \<Rightarrow> (case q_reasoning_effort q of Some e \<Rightarrow> e | None \<Rightarrow> []))"

definition tight_budget :: "chat_request \<Rightarrow> ModelCaps \<Rightarrow> bool" where
  "tight_budget q caps \<longleftrightarrow>
     (case q_max_tokens q of None \<Rightarrow> False | Some n \<Rightarrow> MinThinkingTokens caps > 0 \<and> n < MinThinkingTokens caps)"

definition ResolveMode :: "chat_request \<Rightarrow> ModelCaps \<Rightarrow> bool" where
  "ResolveMode q caps =
     (if \<not> SupportsThinking caps then False
      else case q_thinking q of
        Some t \<Rightarrow> tc_type t = ''enabled''
      | None \<Rightarrow>
          (case kwarg_override q of
             Some b \<Rightarrow> b
           | None \<Rightarrow>
               if effort_of q = ''low'' then False
               else if effort_of q = ''high'' then True
               else if tight_budget q caps then False
               else mc_ThinkingEnabled caps))"

subsection \<open>Telling the backend\<close>

definition directive :: string where
  "directive = ''Do not produce internal reasoning or chain-of-thought steps. Return only the final answer directly.''"

definition newline :: char where "newline = char_of (10 :: nat)"

text \<open>The new messages, and the messages of the original request afterwards.\<close>

definition injectNoThinkDirective :: "Message list \<Rightarrow> Message list \<times> Message list" where
  "injectNoThinkDirective msgs =
     (case msgs of
        m # ms \<Rightarrow>
          (case as_string (m_content m) of
             Some s \<Rightarrow>
               if m_role m = ''system'' then
                 (let shared = m\<lparr>m_content := JStr (directive @ [newline, newline] @ s)\<rparr> # ms in (shared, shared))
               else (text_message ''system'' directive # msgs, msgs)
           | None \<Rightarrow> (text_message ''system'' directive # msgs, msgs))
      | [] \<Rightarrow> ([text_message ''system'' directive], []))"

definition put_kwarg :: "string \<Rightarrow> json \<Rightarrow> (string \<times> json) list option \<Rightarrow> (string \<times> json) list" where
  "put_kwarg k v kvs = (k, v) # filter (\<lambda>kv. fst kv \<noteq> k) (or_else kvs [])"

definition thinking_budget :: "int option \<Rightarrow> int" where
  "thinking_budget mx = (case mx of None \<Rightarrow> 2048 | Some n \<Rightarrow> if n > 100 then n div 2 else 2048)"

definition InjectNoThinkDirectiveOnly :: "chat_request \<Rightarrow> chat_request \<times> Message list" where
  "InjectNoThinkDirectiveOnly q =
     (let (own, orig) = injectNoThinkDirective (q_messages q) in (q\<lparr>q_messages := own\<rparr>, orig))"

definition InjectThinkingControl :: "chat_request \<Rightarrow> bool \<Rightarrow> ModelCaps \<Rightarrow> chat_request \<times> Message list" where
  "InjectThinkingControl q thinkingOn caps =
     (if \<not> SupportsThinking caps then (q, q_messages q)
      else if mc_BackendType caps = ''llamacpp'' then
        (q\<lparr>q_template_kwargs := Some (put_kwarg ''thinking'' (JBool thinkingOn) (q_template_kwargs q))\<rparr>, q_messages q)
      else if mc_BackendType caps = ''vllm'' then
        (if thinkingOn then (q\<lparr>q_thinking := Some (ThinkingEnabled (thinking_budget (q_max_tokens q)))\<rparr>, q_messages q)
         else InjectNoThinkDirectiveOnly (q\<lparr>q_thinking := Some ThinkingDisabled\<rparr>))
      else if thinkingOn then (q, q_messages q)
      else InjectNoThinkDirectiveOnly q)"

definition ClientRequestedNoThinking :: "chat_request \<Rightarrow> bool" where
  "ClientRequestedNoThinking q \<longleftrightarrow>
     (case q_thinking q of Some t \<Rightarrow> tc_type t = ''disabled'' | None \<Rightarrow> False) \<or> effort_of q = ''low''"

subsection \<open>Counting and removing reasoning\<close>

text \<open>The code points of a text, as Go decodes UTF-8; a byte that starts no valid sequence is U+FFFD.\<close>

definition tail_byte :: "nat \<Rightarrow> bool" where "tail_byte b \<longleftrightarrow> 128 \<le> b \<and> b \<le> 191"

definition second_ok :: "nat \<Rightarrow> nat \<Rightarrow> bool" where
  "second_ok b0 b1 \<longleftrightarrow>
     (if b0 = 224 then 160 \<le> b1 \<and> b1 \<le> 191
      else if b0 = 237 then 128 \<le> b1 \<and> b1 \<le> 159
      else if b0 = 240 then 144 \<le> b1 \<and> b1 \<le> 191
      else if b0 = 244 then 128 \<le> b1 \<and> b1 \<le> 143
      else tail_byte b1)"

definition rune_width :: "nat \<Rightarrow> nat list \<Rightarrow> nat" where
  "rune_width b0 bs =
     (if 194 \<le> b0 \<and> b0 \<le> 223 then (case bs of b1 # _ \<Rightarrow> if tail_byte b1 then 2 else 1 | _ \<Rightarrow> 1)
      else if 224 \<le> b0 \<and> b0 \<le> 239 then
        (case bs of b1 # b2 # _ \<Rightarrow> if second_ok b0 b1 \<and> tail_byte b2 then 3 else 1 | _ \<Rightarrow> 1)
      else if 240 \<le> b0 \<and> b0 \<le> 244 then
        (case bs of b1 # b2 # b3 # _ \<Rightarrow> if second_ok b0 b1 \<and> tail_byte b2 \<and> tail_byte b3 then 4 else 1 | _ \<Rightarrow> 1)
      else 1)"

definition code_point :: "nat \<Rightarrow> nat list \<Rightarrow> nat" where
  "code_point b0 bs =
     (let w = rune_width b0 bs in
      if w = 1 then (if b0 < 128 then b0 else 65533)
      else if w = 2 then (b0 mod 32) * 64 + bs ! 0 mod 64
      else if w = 3 then ((b0 mod 16) * 64 + bs ! 0 mod 64) * 64 + bs ! 1 mod 64
      else (((b0 mod 8) * 64 + bs ! 0 mod 64) * 64 + bs ! 1 mod 64) * 64 + bs ! 2 mod 64)"

function utf8_runes :: "nat list \<Rightarrow> nat list" where
  "utf8_runes [] = []"
| "utf8_runes (b # bs) = code_point b bs # utf8_runes (drop (rune_width b bs - 1) bs)"
  by pat_completeness auto
termination by (relation "measure length") simp_all

definition open_tag :: string where "open_tag = ''<think>''"
definition close_tag :: string where "close_tag = ''</think>''"

definition code_points :: "string \<Rightarrow> nat list" where "code_points s = utf8_runes (map of_char s)"

text \<open>\<open>EstimateThinkingTokens\<close> over the code points: (reasoning, visible) characters.\<close>

function count_loop :: "bool \<Rightarrow> nat list \<Rightarrow> nat \<times> nat \<Rightarrow> nat \<times> nat" where
  "count_loop inside [] (t, v) = (t, v)"
| "count_loop inside (r # rs) (t, v) =
     (if \<not> inside then
        (if take 7 (r # rs) = map of_char open_tag then count_loop True (drop 7 (r # rs)) (t, v)
         else count_loop False rs (t, v + 1))
      else
        (if take 8 (r # rs) = map of_char close_tag then count_loop False (drop 8 (r # rs)) (t, v)
         else count_loop True rs (t + 1, v)))"
  by pat_completeness auto
termination by (relation "measure (\<lambda>(_, rs, _). length rs)") simp_all

definition EstimateThinkingTokens :: "string \<Rightarrow> nat \<times> nat" where
  "EstimateThinkingTokens s = (let (t, v) = count_loop False (code_points s) (0, 0) in (t div 4, v div 4))"

function strip_loop :: "bool \<Rightarrow> string \<Rightarrow> string" where
  "strip_loop inside [] = []"
| "strip_loop inside (c # cs) =
     (if \<not> inside \<and> take 7 (c # cs) = open_tag then strip_loop True (drop 7 (c # cs))
      else if inside \<and> take 8 (c # cs) = close_tag then strip_loop False (drop 8 (c # cs))
      else if \<not> inside then c # strip_loop inside cs
      else strip_loop inside cs)"
  by pat_completeness auto
termination by (relation "measure (\<lambda>(_, s). length s)") simp_all

definition stripThinkBlocks :: "string \<Rightarrow> string" where "stripThinkBlocks s = strip_loop False s"

definition StripThinkBlocks :: "string \<Rightarrow> string" where "StripThinkBlocks s = TrimSpace (stripThinkBlocks s)"

definition blank :: "char \<Rightarrow> bool" where
  "blank c \<longleftrightarrow> c = CHR '' '' \<or> of_char c \<in> {10, 13, 9 :: nat}"

definition IsEmptyVisible :: "string \<Rightarrow> bool" where
  "IsEmptyVisible s \<longleftrightarrow> list_all blank (stripThinkBlocks s)"

subsection \<open>Facts\<close>

lemma put_kwarg_lookup: "map_of (put_kwarg k v kvs) k = Some v"
  by (simp add: put_kwarg_def)

lemma inject_no_think_frame [simp]:
  "q_thinking (fst (InjectNoThinkDirectiveOnly q)) = q_thinking q"
  "q_template_kwargs (fst (InjectNoThinkDirectiveOnly q)) = q_template_kwargs q"
  "q_effort (fst (InjectNoThinkDirectiveOnly q)) = q_effort q"
  "q_reasoning_effort (fst (InjectNoThinkDirectiveOnly q)) = q_reasoning_effort q"
  "q_max_tokens (fst (InjectNoThinkDirectiveOnly q)) = q_max_tokens q"
  by (simp_all add: InjectNoThinkDirectiveOnly_def split: prod.splits)

lemma tag_start:
  assumes "take (length t) (c # v @ t @ rest) = t" and "t = x # t'" and "x \<notin> set t'"
  shows "HasPrefix (c # v) t"
proof (rule ccontr)
  assume *: "\<not> HasPrefix (c # v) t"
  have short: "Suc (length v) < length t"
  proof (rule ccontr)
    assume "\<not> Suc (length v) < length t"
    then have "take (length t) (c # v @ t @ rest) = take (length t) (c # v)" by (cases "length t") simp_all
    with assms(1) * show False by (simp add: HasPrefix_def)
  qed
  let ?k = "Suc (length v)"
  have "t ! ?k = take (length t) (c # v @ t @ rest) ! ?k" using assms(1) by simp
  also have "\<dots> = (c # v @ t @ rest) ! ?k" using short by simp
  also have "\<dots> = t ! 0" using assms(2) by (simp add: nth_append)
  finally have "t' ! length v = x" using assms(2) by simp
  then show False using short assms(2,3) by (auto simp: in_set_conv_nth)
qed

lemma contains_Cons: "\<not> contains t (c # v) \<Longrightarrow> \<not> HasPrefix (c # v) t \<and> \<not> contains t v"
  by simp

lemma HasPrefix_tags: "HasPrefix s open_tag \<longleftrightarrow> take 7 s = open_tag" "HasPrefix s close_tag \<longleftrightarrow> take 8 s = close_tag"
  by (simp_all add: HasPrefix_def open_tag_def close_tag_def eval_nat_numeral)

lemma strip_steps:
  "take 7 (c # s) \<noteq> open_tag \<Longrightarrow> strip_loop False (c # s) = c # strip_loop False s"
  "take 8 (c # s) \<noteq> close_tag \<Longrightarrow> strip_loop True (c # s) = strip_loop True s"
  by (subst strip_loop.simps, simp)+

lemma strip_tags: "strip_loop False (open_tag @ s) = strip_loop True s" "strip_loop True (close_tag @ s) = strip_loop False s"
  by (simp_all add: open_tag_def close_tag_def)

declare strip_loop.simps(2) [simp del]

lemma tag_not_across:
  "\<not> contains open_tag (c # v) \<Longrightarrow> take 7 (c # v @ open_tag @ rest) \<noteq> open_tag"
  "\<not> contains close_tag (c # v) \<Longrightarrow> take 8 (c # v @ close_tag @ rest) \<noteq> close_tag"
proof -
  have *: "take (length t) (c # v @ t @ rest) \<noteq> t" if "\<not> contains t (c # v)" "t = CHR ''<'' # t'" "CHR ''<'' \<notin> set t'" for t t'
  proof
    assume "take (length t) (c # v @ t @ rest) = t"
    then have "HasPrefix (c # v) t" using that(2,3) by (rule tag_start)
    with that(1) show False by simp
  qed
  have l: "length open_tag = 7" "length close_tag = 8" by (simp_all add: open_tag_def close_tag_def)
  have t: "open_tag = CHR ''<'' # ''think>''" "close_tag = CHR ''<'' # ''/think>''" by (simp_all add: open_tag_def close_tag_def)
  have n: "CHR ''<'' \<notin> set ''think>''" "CHR ''<'' \<notin> set ''/think>''" by simp_all
  show "\<not> contains open_tag (c # v) \<Longrightarrow> take 7 (c # v @ open_tag @ rest) \<noteq> open_tag"
    by (rule * [OF _ t(1) n(1), unfolded l(1)])
  show "\<not> contains close_tag (c # v) \<Longrightarrow> take 8 (c # v @ close_tag @ rest) \<noteq> close_tag"
    by (rule * [OF _ t(2) n(2), unfolded l(2)])
qed

lemma strip_visible: "\<not> contains open_tag v \<Longrightarrow> strip_loop False (v @ open_tag @ rest) = v @ strip_loop True rest"
  by (induction v) (simp_all add: strip_tags strip_steps(1) [OF tag_not_across(1), simplified])

lemma strip_hidden: "\<not> contains close_tag v \<Longrightarrow> strip_loop True (v @ close_tag @ rest) = strip_loop False rest"
  by (induction v) (simp_all add: strip_tags strip_steps(2) [OF tag_not_across(2), simplified])

lemma strip_plain: "\<not> contains open_tag v \<Longrightarrow> strip_loop False v = v"
  by (induction v) (simp_all add: HasPrefix_tags strip_steps)

lemma strip_open: "\<not> contains close_tag v \<Longrightarrow> strip_loop True v = []"
  by (induction v) (simp_all add: HasPrefix_tags strip_steps)

text \<open>A response with reasoning: visible texts, each followed by a block, and the visible rest.\<close>

fun render :: "(string \<times> string) list \<Rightarrow> string \<Rightarrow> string" where
  "render [] rest = rest"
| "render ((v, t) # segs) rest = v @ open_tag @ t @ close_tag @ render segs rest"

lemma code_point_ascii [simp]: "b < 128 \<Longrightarrow> utf8_runes (b # bs) = b # utf8_runes bs"
  by (simp add: code_point_def rune_width_def)

lemma runes_ascii: "list_all (\<lambda>b. b < 128) bs \<Longrightarrow> utf8_runes bs = bs"
  by (induction bs) (simp_all del: utf8_runes.simps(2))

lemma map_of_char_eq: "map of_char xs = (map of_char ys :: nat list) \<longleftrightarrow> xs = ys"
  by (metis (no_types, lifting) inj_map_eq_map inj_onI of_char_eq_iff)

lemma count_matches_strip:
  "snd (count_loop inside (map of_char s) (t, v)) = v + length (strip_loop inside s)"
proof (induction inside s arbitrary: t v rule: strip_loop.induct)
  case (2 inside c cs)
  have "take 7 (of_char c # map of_char cs) = (map of_char open_tag :: nat list) \<longleftrightarrow> take 7 (c # cs) = open_tag"
       "take 8 (of_char c # map of_char cs) = (map of_char close_tag :: nat list) \<longleftrightarrow> take 8 (c # cs) = close_tag"
    using map_of_char_eq [of "take 7 (c # cs)" open_tag] map_of_char_eq [of "take 8 (c # cs)" close_tag]
    by (simp_all add: take_map)
  with 2 show ?case
    by (cases inside) (simp_all add: drop_map [symmetric] strip_loop.simps(2))
qed simp

subsection \<open>Properties\<close>

text \<open>
  Removing the reasoning of a response gives back exactly its visible parts, as long as no visible
  part contains an opening tag and no block contains a closing tag; a block that is never closed hides
  the rest of the response.
\<close>

theorem strip_gives_visible_text:
  assumes "list_all (\<lambda>(v, t). \<not> contains open_tag v \<and> \<not> contains close_tag t) segs" and "\<not> contains open_tag rest"
    and "\<not> contains close_tag hid"
  shows "stripThinkBlocks (render segs rest) = concat (map fst segs) @ rest \<and>
    stripThinkBlocks (render segs (rest @ open_tag @ hid)) = concat (map fst segs) @ rest"
  using assms(1)
proof (induction segs)
  case Nil then show ?case using assms(2,3) by (simp add: stripThinkBlocks_def strip_plain strip_visible strip_open)
next
  case (Cons seg segs)
  then show ?case by (cases seg) (simp add: stripThinkBlocks_def strip_visible strip_hidden)
qed

theorem strip_gives_visible_text_witness:
  "stripThinkBlocks (render [(''a'', ''why'')] ''b'') = ''ab'' \<and>
   stripThinkBlocks (render [(''a'', ''why'')] (''b'' @ open_tag @ ''cut'')) = ''ab''"
proof -
  have "list_all (\<lambda>(v, t). \<not> contains open_tag v \<and> \<not> contains close_tag t) [(''a'', ''why'')]"
    "\<not> contains open_tag ''b''" "\<not> contains close_tag ''cut''" by code_simp+
  from strip_gives_visible_text [OF this] show ?thesis by simp
qed

text \<open>
  The mode resolved for a request is the mode the backend is told: resolving the request again
  after the injection gives the same answer, for each kind of backend and whatever overrides
  the client sent.
\<close>

theorem injected_mode_is_resolved_mode:
  "ResolveMode (fst (InjectThinkingControl q (ResolveMode q caps) caps)) caps = ResolveMode q caps"
proof (cases "SupportsThinking caps")
  case True
  show ?thesis
  proof (cases "mc_BackendType caps = ''llamacpp''")
    case True
    then show ?thesis using \<open>SupportsThinking caps\<close>
      by (cases "q_thinking q") (simp_all add: InjectThinkingControl_def ResolveMode_def kwarg_override_def put_kwarg_lookup)
  next
    case llama: False
    have frame: "ResolveMode (fst (InjectNoThinkDirectiveOnly q')) caps = ResolveMode q' caps" for q'
      by (simp add: ResolveMode_def kwarg_override_def effort_of_def tight_budget_def cong: option.case_cong if_cong)
    show ?thesis
    proof (cases "mc_BackendType caps = ''vllm''")
      case True
      then show ?thesis using \<open>SupportsThinking caps\<close>
        by (cases "ResolveMode q caps")
          (simp_all add: InjectThinkingControl_def frame, simp_all add: ResolveMode_def ThinkingEnabled_def ThinkingDisabled_def)
    next
      case False
      then show ?thesis using llama by (simp add: InjectThinkingControl_def frame)
    qed
  qed
qed (simp add: InjectThinkingControl_def)

text \<open>
  The injection is not free of side effects on the original request, although it works on a copy:
  it changes the messages of the original exactly when the directive against reasoning is added to a
  system message that is already there.
\<close>

theorem injection_writes_original:
  "snd (InjectNoThinkDirectiveOnly q) = q_messages q \<longleftrightarrow>
     \<not> (case q_messages q of m # _ \<Rightarrow> m_role m = ''system'' \<and> as_string (m_content m) \<noteq> None | [] \<Rightarrow> False)"
proof (cases "q_messages q")
  case (Cons m ms)
  show ?thesis
  proof (cases "m_content m")
    case (JStr s)
    have "JStr (directive @ newline # newline # s) \<noteq> JStr s" by simp
    then have "m\<lparr>m_content := JStr (directive @ newline # newline # s)\<rparr> \<noteq> m"
      using JStr by (metis Message.select_convs(2) Message.surjective Message.update_convs(2))
    then show ?thesis
      using Cons JStr by (simp add: InjectNoThinkDirectiveOnly_def injectNoThinkDirective_def Let_def)
  qed (use Cons in \<open>simp_all add: InjectNoThinkDirectiveOnly_def injectNoThinkDirective_def\<close>)
qed (simp add: InjectNoThinkDirectiveOnly_def injectNoThinkDirective_def)

lemma visible_estimate_ascii:
  assumes "list_all (\<lambda>c. of_char c < (128 :: nat)) s"
  shows "snd (EstimateThinkingTokens s) = length (stripThinkBlocks s) div 4"
proof -
  have "code_points s = map of_char s"
    unfolding code_points_def using assms by (intro runes_ascii) (simp add: list_all_iff)
  then show ?thesis
    using count_matches_strip [of False s 0 0]
    by (cases "count_loop False (map of_char s) (0, 0)") (simp add: EstimateThinkingTokens_def stripThinkBlocks_def)
qed

end
