(* ===== verification/Chat_Answer.thy ===== *)
theory Chat_Answer
  imports Thinking_Mode Billing_Pricing
begin

text \<open>
  From the answer of a backend to the answer of the gateway: the middle part of \<open>syncChat\<close>,
  \<open>normalizeToolCallArguments\<close> and \<open>applyEstimatedCost\<close> in \<open>internal/proxy/handler.go\<close>. A cost is kept as the
  decimal it is computed from; its rounding to \<open>float64\<close> is left out. \<open>marshal\<close> is \<open>json.Marshal\<close> on decoded
  values.
\<close>

subsection \<open>Answers\<close>

record answer_usage =
  au_prompt :: int
  au_completion :: int
  au_total :: int
  au_thinking :: int
  au_cached :: "int option"
  au_reasoning :: "int option"
  au_cost :: decimal
  au_details :: "(decimal \<times> decimal \<times> decimal) option"

record answer_choice =
  ac_message :: "Message option"
  ac_rest :: json

record chat_answer =
  an_model :: string
  an_choices :: "answer_choice list"
  an_usage :: answer_usage
  an_fingerprint :: string
  an_rest :: json

subsection \<open>Tool calls\<close>

definition string_value :: "(json \<Rightarrow> string) \<Rightarrow> json \<Rightarrow> json" where
  "string_value marshal v = (case v of JNull \<Rightarrow> v | JStr _ \<Rightarrow> v | _ \<Rightarrow> JStr (marshal v))"

definition on_field :: "string \<Rightarrow> (json \<Rightarrow> json) \<Rightarrow> (string \<times> json) list \<Rightarrow> (string \<times> json) list" where
  "on_field k f = map (\<lambda>(k', v). (k', if k' = k then f v else v))"

fun string_function :: "(json \<Rightarrow> string) \<Rightarrow> json \<Rightarrow> json" where
  "string_function marshal (JObj fn) = JObj (on_field ''arguments'' (string_value marshal) fn)"
| "string_function marshal v = v"

fun string_call :: "(json \<Rightarrow> string) \<Rightarrow> json \<Rightarrow> json" where
  "string_call marshal (JObj tc) = JObj (on_field ''function'' (string_function marshal) tc)"
| "string_call marshal v = v"

fun string_calls :: "(json \<Rightarrow> string) \<Rightarrow> json \<Rightarrow> json" where
  "string_calls marshal (JList tcs) = JList (map (string_call marshal) tcs)"
| "string_calls marshal v = v"

definition normalizeToolCallArguments :: "(json \<Rightarrow> string) \<Rightarrow> chat_answer \<Rightarrow> chat_answer" where
  "normalizeToolCallArguments marshal a =
     a\<lparr>an_choices := map (\<lambda>ch. ch\<lparr>ac_message := map_option (\<lambda>m. m\<lparr>m_tool_calls := string_calls marshal (m_tool_calls m)\<rparr>) (ac_message ch)\<rparr>)
         (an_choices a)\<rparr>"

subsection \<open>Cost\<close>

definition applyEstimatedCost ::
    "bool \<Rightarrow> faults \<Rightarrow> (string \<Rightarrow> decimal option) \<Rightarrow> model_pricing list \<Rightarrow> int \<Rightarrow> id \<Rightarrow> chat_answer \<Rightarrow> chat_answer" where
  "applyEstimatedCost hasDB flt parse tbl now modelID a =
     (let u = an_usage a in
      if \<not> hasDB \<or> modelID = [] \<or> au_cost u \<noteq> 0 then a
      else case SnapshotForModel flt parse tbl now modelID of
        Inl _ \<Rightarrow> a
      | Inr snap \<Rightarrow>
          if InputRate snap = 0 \<and> OutputRate snap = 0 \<and> CachedRate snap = 0 then a
          else
            (let (inputCost, cachedCost, outputCost, total) =
                   ComputeCost snap \<lparr>InputTokens = au_prompt u, OutputTokens = au_completion u, CachedTokens = or_else (au_cached u) 0, ReasoningTokens = 0\<rparr>
             in a\<lparr>an_usage := u\<lparr>au_cost := total, au_details := Some (total, inputCost + cachedCost, outputCost)\<rparr>\<rparr>))"

subsection \<open>Reasoning\<close>

text \<open>The first choice without its reasoning, and whether nothing visible is left of it.\<close>

definition strip_answer :: "ModelCaps \<Rightarrow> chat_answer \<Rightarrow> chat_answer \<times> bool" where
  "strip_answer caps a =
     (case an_choices a of
        [] \<Rightarrow> (a, False)
      | ch # chs \<Rightarrow>
          (case ac_message ch of
             None \<Rightarrow> (a, False)
           | Some msg \<Rightarrow>
               (case as_string (m_content msg) of
                  None \<Rightarrow> (a, False)
                | Some s \<Rightarrow>
                    (let thinkTok = fst (EstimateThinkingTokens s) in
                     if thinkTok = 0 then (a, False)
                     else
                       (a\<lparr>an_choices := ch\<lparr>ac_message := Some (msg\<lparr>m_content := JStr (StripThinkBlocks s)\<rparr>)\<rparr> # chs,
                          an_usage := (if SupportsThinking caps then (an_usage a)\<lparr>au_thinking := int thinkTok\<rparr> else an_usage a)\<rparr>,
                        SupportsThinking caps \<and> IsEmptyVisible s)))))"

definition finish_answer ::
    "(json \<Rightarrow> string) \<Rightarrow> bool \<Rightarrow> faults \<Rightarrow> (string \<Rightarrow> decimal option) \<Rightarrow> model_pricing list \<Rightarrow> int \<Rightarrow> ModelCaps \<Rightarrow> string \<Rightarrow> id \<Rightarrow>
     chat_answer \<Rightarrow> chat_answer \<times> bool" where
  "finish_answer marshal hasDB flt parse tbl now caps model modelID a =
     strip_answer caps (applyEstimatedCost hasDB flt parse tbl now modelID
       (normalizeToolCallArguments marshal
         (a\<lparr>an_model := model, an_fingerprint := (if an_fingerprint a = [] then ''nexusllm-v1'' else an_fingerprint a)\<rparr>)))"

subsection \<open>Facts\<close>

text \<open>The arguments of a function call that are neither absent nor a text.\<close>

definition raw_arguments :: "json \<Rightarrow> bool" where
  "raw_arguments tc \<longleftrightarrow>
     (case Option.bind (field ''function'' tc) (field ''arguments'') of
        None \<Rightarrow> False | Some v \<Rightarrow> v \<noteq> JNull \<and> as_string v = None)"

lemma map_of_on_field: "map_of (on_field k f kvs) k' = (if k' = k then map_option f (map_of kvs k) else map_of kvs k')"
  by (induction kvs) (auto simp: on_field_def)

lemma string_value_text: "string_value marshal v = JNull \<or> as_string (string_value marshal v) \<noteq> None"
  by (cases v) (simp_all add: string_value_def)

lemma string_call_text: "\<not> raw_arguments (string_call marshal tc)"
proof (cases tc)
  case (JObj kvs)
  have f: "field ''function'' (string_call marshal tc) = map_option (string_function marshal) (field ''function'' tc)"
    by (simp add: JObj map_of_on_field)
  show ?thesis
  proof (cases "field ''function'' tc")
    case None
    then show ?thesis by (simp add: raw_arguments_def f)
  next
    case (Some fn)
    then have "field ''function'' (string_call marshal tc) = Some (string_function marshal fn)" by (simp add: f)
    moreover have "case field ''arguments'' (string_function marshal fn) of None \<Rightarrow> True | Some v \<Rightarrow> v = JNull \<or> as_string v \<noteq> None"
      using string_value_text [of marshal] by (cases fn) (auto simp: map_of_on_field split: option.split)
    ultimately show ?thesis by (auto simp: raw_arguments_def split: option.splits)
  qed
qed (simp_all add: raw_arguments_def)

fun calls_of :: "json \<Rightarrow> json list" where
  "calls_of (JList tcs) = tcs"
| "calls_of _ = []"

definition all_calls :: "chat_answer \<Rightarrow> json list" where
  "all_calls a = concat (map (\<lambda>ch. case ac_message ch of None \<Rightarrow> [] | Some m \<Rightarrow> calls_of (m_tool_calls m)) (an_choices a))"

lemma normalized_calls: "tc \<in> set (all_calls (normalizeToolCallArguments marshal a)) \<Longrightarrow> \<not> raw_arguments tc"
proof -
  assume "tc \<in> set (all_calls (normalizeToolCallArguments marshal a))"
  then obtain ch m where "ch \<in> set (an_choices a)" "ac_message ch = Some m" "tc \<in> set (calls_of (string_calls marshal (m_tool_calls m)))"
    by (auto simp: all_calls_def normalizeToolCallArguments_def split: option.splits dest: sym)
  then show "\<not> raw_arguments tc" by (cases "m_tool_calls m") (auto simp: string_call_text)
qed

lemma cost_calls: "all_calls (applyEstimatedCost hasDB flt parse tbl now i a) = all_calls a"
  by (simp add: all_calls_def applyEstimatedCost_def Let_def split: sum.split prod.split)

lemma cost_keeps [simp]:
  "an_choices (applyEstimatedCost hasDB flt parse tbl now i a) = an_choices a"
  "an_model (applyEstimatedCost hasDB flt parse tbl now i a) = an_model a"
  "au_prompt (an_usage (applyEstimatedCost hasDB flt parse tbl now i a)) = au_prompt (an_usage a)"
  "au_completion (an_usage (applyEstimatedCost hasDB flt parse tbl now i a)) = au_completion (an_usage a)"
  by (simp_all add: applyEstimatedCost_def Let_def split: sum.split prod.split)

lemma normalize_keeps [simp]:
  "an_model (normalizeToolCallArguments marshal a) = an_model a" "an_usage (normalizeToolCallArguments marshal a) = an_usage a"
  by (simp_all add: normalizeToolCallArguments_def)

lemma strip_keeps:
  "all_calls (fst (strip_answer caps a)) = all_calls a" "an_model (fst (strip_answer caps a)) = an_model a"
  "au_prompt (an_usage (fst (strip_answer caps a))) = au_prompt (an_usage a)"
  "au_completion (an_usage (fst (strip_answer caps a))) = au_completion (an_usage a)"
  by (auto simp: strip_answer_def all_calls_def Let_def split: list.split option.split)

lemma strip_empty_supports: "snd (strip_answer caps a) \<Longrightarrow> SupportsThinking caps"
  by (auto simp: strip_answer_def Let_def split: list.splits option.splits if_splits)

lemma finish_answer_facts:
  "an_model (fst (finish_answer marshal hasDB flt parse tbl now caps model i a)) = model"
  "au_prompt (an_usage (fst (finish_answer marshal hasDB flt parse tbl now caps model i a))) = au_prompt (an_usage a)"
  "au_completion (an_usage (fst (finish_answer marshal hasDB flt parse tbl now caps model i a))) = au_completion (an_usage a)"
  by (simp_all add: finish_answer_def strip_keeps)

lemma finish_answer_calls:
  "tc \<in> set (all_calls (fst (finish_answer marshal hasDB flt parse tbl now caps model i a))) \<Longrightarrow> \<not> raw_arguments tc"
  by (simp only: finish_answer_def strip_keeps(1) cost_calls, erule normalized_calls)

end
