(* ===== verification/Gateway_Policy.thy ===== *)
theory Gateway_Policy
  imports Chat_Request Nexus_Prelude "HOL-Library.Multiset"
begin

text \<open>
  \<open>internal/gatewaypolicy/engine.go\<close>: the limits an organisation, a project, a team or a key puts on a
  request. A table row keeps its model and tool lists; the loader does not read them. A query with an
  empty organisation fails in the database, since the empty text is no UUID. The message of a violation
  is represented by the arguments of its format.
\<close>

subsection \<open>Policies and their evaluation\<close>

record GatewayPolicy =
  gp_scope :: string
  MaxTemperature :: "rat option"
  gp_MaxContextTokens :: "int option"
  MaxOutputTokens :: "int option"
  StreamAllowed :: bool
  FunctionCallAllowed :: bool
  AllowedModels :: "string list"
  DeniedModels :: "string list"
  AllowedToolNames :: "string list"
  DeniedToolNames :: "string list"
  gp_Enabled :: bool

record Violation =
  v_code :: string
  v_args :: "string list"

record gateway_policy_row = GatewayPolicy +
  gp_scope_id :: id

definition scope_rank :: "string \<Rightarrow> nat" where
  "scope_rank s = (if s = ''org'' then 1 else if s = ''project'' then 2 else if s = ''team'' then 3 else 4)"

definition applies :: "id \<Rightarrow> id \<Rightarrow> id \<Rightarrow> id \<Rightarrow> gateway_policy_row \<Rightarrow> bool" where
  "applies orgID projectID teamID apiKeyID r \<longleftrightarrow>
     gp_Enabled r \<and>
     (gp_scope r = ''org'' \<and> gp_scope_id r = orgID \<or>
      gp_scope r = ''project'' \<and> projectID \<noteq> [] \<and> gp_scope_id r = projectID \<or>
      gp_scope r = ''team'' \<and> teamID \<noteq> [] \<and> gp_scope_id r = teamID \<or>
      gp_scope r = ''api_key'' \<and> apiKeyID \<noteq> [] \<and> gp_scope_id r = apiKeyID)"

definition scanned :: "gateway_policy_row \<Rightarrow> GatewayPolicy" where
  "scanned r =
     \<lparr>gp_scope = gp_scope r, MaxTemperature = MaxTemperature r, gp_MaxContextTokens = gp_MaxContextTokens r,
      MaxOutputTokens = MaxOutputTokens r, StreamAllowed = StreamAllowed r,
      FunctionCallAllowed = FunctionCallAllowed r, AllowedModels = [], DeniedModels = [],
      AllowedToolNames = [], DeniedToolNames = [], gp_Enabled = gp_Enabled r\<rparr>"

definition loadPolicies ::
    "bool \<Rightarrow> id \<Rightarrow> id \<Rightarrow> id \<Rightarrow> id \<Rightarrow> gateway_policy_row list \<Rightarrow> GatewayPolicy list" where
  "loadPolicies fails orgID projectID teamID apiKeyID tbl =
     (if fails \<or> orgID = [] then []
      else map scanned (sort_key (\<lambda>r. scope_rank (gp_scope r)) (filter (applies orgID projectID teamID apiKeyID) tbl)))"

fun tool_check :: "GatewayPolicy \<Rightarrow> json list \<Rightarrow> Violation option" where
  "tool_check p [] = None"
| "tool_check p (tool # tools) =
     (let name = extractToolName tool in
      if name \<in> set (DeniedToolNames p) then
        Some \<lparr>v_code = ''tool_denied'', v_args = [name, gp_scope p]\<rparr>
      else if AllowedToolNames p \<noteq> [] \<and> name \<notin> set (AllowedToolNames p) then
        Some \<lparr>v_code = ''tool_not_allowed'', v_args = [name]\<rparr>
      else tool_check p tools)"

text \<open>The checks one policy makes, in the order of the code.\<close>

definition check_policy :: "GatewayPolicy \<Rightarrow> int \<Rightarrow> chat_request \<Rightarrow> Violation option" where
  "check_policy p inputTokenEstimate q =
     (if AllowedModels p \<noteq> [] \<and> q_model q \<notin> set (AllowedModels p) then
        Some \<lparr>v_code = ''model_not_allowed_by_gateway'', v_args = [q_model q, gp_scope p]\<rparr>
      else if q_model q \<in> set (DeniedModels p) then
        Some \<lparr>v_code = ''model_denied_by_gateway'', v_args = [q_model q, gp_scope p]\<rparr>
      else if q_stream q \<and> \<not> StreamAllowed p then
        Some \<lparr>v_code = ''stream_not_allowed'', v_args = [gp_scope p]\<rparr>
      else if q_tools q \<noteq> [] \<and> \<not> FunctionCallAllowed p then
        Some \<lparr>v_code = ''function_call_not_allowed'', v_args = [gp_scope p]\<rparr>
      else case tool_check p (q_tools q) of
        Some v \<Rightarrow> Some v
      | None \<Rightarrow>
          (case gp_MaxContextTokens p of
             Some n \<Rightarrow>
               if inputTokenEstimate > n then
                 Some \<lparr>v_code = ''context_too_long'', v_args = [FormatInt inputTokenEstimate, FormatInt n]\<rparr>
               else None
           | None \<Rightarrow> None))"

definition clamp_output :: "int option \<Rightarrow> chat_request \<Rightarrow> chat_request" where
  "clamp_output limit q =
     (case limit of
        None \<Rightarrow> q
      | Some n \<Rightarrow>
          (case q_max_tokens q of
             None \<Rightarrow> q\<lparr>q_max_tokens := Some n\<rparr>
           | Some k \<Rightarrow> if k > n then q\<lparr>q_max_tokens := Some n\<rparr> else q))"

definition clamp_temperature :: "rat option \<Rightarrow> chat_request \<Rightarrow> chat_request" where
  "clamp_temperature limit q =
     (case (limit, q_temperature q) of
        (Some n, Some t) \<Rightarrow> if t > n then q\<lparr>q_temperature := Some n\<rparr> else q
      | _ \<Rightarrow> q)"

fun enforce_loop :: "int \<Rightarrow> GatewayPolicy list \<Rightarrow> chat_request \<Rightarrow> Violation option \<times> chat_request" where
  "enforce_loop est [] q = (None, q)"
| "enforce_loop est (p # ps) q =
     (if \<not> gp_Enabled p then enforce_loop est ps q
      else case check_policy p est q of
        Some v \<Rightarrow> (Some v, q)
      | None \<Rightarrow> enforce_loop est ps (clamp_temperature (MaxTemperature p) (clamp_output (MaxOutputTokens p) q)))"

definition Enforce ::
    "bool \<Rightarrow> id \<Rightarrow> id \<Rightarrow> id \<Rightarrow> id \<Rightarrow> gateway_policy_row list \<Rightarrow> int \<Rightarrow> chat_request \<Rightarrow>
     Violation option \<times> chat_request" where
  "Enforce fails orgID projectID teamID apiKeyID tbl inputTokenEstimate q =
     enforce_loop inputTokenEstimate (loadPolicies fails orgID projectID teamID apiKeyID tbl) q"

subsection \<open>The effect of a chain of policies\<close>

definition opt_min :: "'a::linorder option \<Rightarrow> 'a option \<Rightarrow> 'a option" where
  "opt_min a b = (case (a, b) of (None, x) \<Rightarrow> x | (x, None) \<Rightarrow> x | (Some x, Some y) \<Rightarrow> Some (min x y))"

definition least_of :: "'a::linorder option list \<Rightarrow> 'a option" where
  "least_of xs = fold opt_min xs None"

text \<open>What a policy asks of a request, apart from what it clamps.\<close>

definition permits :: "int \<Rightarrow> chat_request \<Rightarrow> GatewayPolicy \<Rightarrow> bool" where
  "permits est q p \<longleftrightarrow>
     (AllowedModels p \<noteq> [] \<longrightarrow> q_model q \<in> set (AllowedModels p)) \<and> q_model q \<notin> set (DeniedModels p) \<and>
     (q_stream q \<longrightarrow> StreamAllowed p) \<and> (q_tools q \<noteq> [] \<longrightarrow> FunctionCallAllowed p) \<and>
     (\<forall>t\<in>set (q_tools q). extractToolName t \<notin> set (DeniedToolNames p) \<and>
        (AllowedToolNames p \<noteq> [] \<longrightarrow> extractToolName t \<in> set (AllowedToolNames p))) \<and>
     (\<forall>n. gp_MaxContextTokens p = Some n \<longrightarrow> est \<le> n)"

lemma opt_min_simps [simp]:
  "opt_min None b = b" "opt_min a None = a" "opt_min (Some x) (Some y) = Some (min x y)"
  by (cases a) (simp_all add: opt_min_def split: option.split)

lemma opt_min_assoc: "opt_min (opt_min a b) c = opt_min a (opt_min b c)"
  by (cases a; cases b; cases c) (simp_all add: min.assoc)

lemma opt_min_commute: "opt_min a b = opt_min b a"
  by (cases a; cases b) (simp_all add: min.commute)

lemma fold_opt_min: "fold opt_min xs a = opt_min a (least_of xs)"
proof (induction xs arbitrary: a)
  case Nil then show ?case by (simp add: least_of_def)
next
  case (Cons x xs)
  have "fold opt_min xs (opt_min x a) = opt_min (opt_min x a) (least_of xs)" by (rule Cons.IH)
  also have "\<dots> = opt_min a (opt_min x (least_of xs))" using opt_min_assoc opt_min_commute by metis
  also have "opt_min x (least_of xs) = least_of (x # xs)" using Cons.IH [of x] by (simp add: least_of_def)
  finally show ?case by simp
qed

lemma least_of_Cons [simp]: "least_of (x # xs) = opt_min x (least_of xs)"
  using fold_opt_min [of xs x] by (simp add: least_of_def)

lemma least_of_Nil [simp]: "least_of [] = None"
  by (simp add: least_of_def)

lemma least_of_le: "Some n \<in> set xs \<Longrightarrow> \<exists>k. least_of xs = Some k \<and> k \<le> n"
proof (induction xs)
  case (Cons x xs)
  show ?case
  proof (cases "x = Some n")
    case True then show ?thesis by (cases "least_of xs") auto
  next
    case False
    with Cons obtain k where "least_of xs = Some k" "k \<le> n" by auto
    then show ?thesis by (cases x) (auto simp: min_def)
  qed
qed simp

lemma tool_check_None:
  "tool_check p tools = None \<longleftrightarrow>
     (\<forall>t\<in>set tools. extractToolName t \<notin> set (DeniedToolNames p) \<and>
        (AllowedToolNames p \<noteq> [] \<longrightarrow> extractToolName t \<in> set (AllowedToolNames p)))"
  by (induction tools) (auto simp: Let_def)

lemma check_policy_None: "check_policy p est q = None \<longleftrightarrow> permits est q p"
proof -
  have "check_policy p est q = None \<longleftrightarrow>
      (AllowedModels p = [] \<or> q_model q \<in> set (AllowedModels p)) \<and> q_model q \<notin> set (DeniedModels p) \<and>
      (q_stream q \<longrightarrow> StreamAllowed p) \<and> (q_tools q \<noteq> [] \<longrightarrow> FunctionCallAllowed p) \<and>
      tool_check p (q_tools q) = None \<and> (\<forall>n. gp_MaxContextTokens p = Some n \<longrightarrow> est \<le> n)"
    by (simp add: check_policy_def split: option.split)
  then show ?thesis by (simp add: permits_def tool_check_None) blast
qed

lemma clamp_simps [simp]:
  "q_max_tokens (clamp_output n q) = opt_min n (q_max_tokens q)"
  "q_temperature (clamp_output n q) = q_temperature q"
  "q_max_tokens (clamp_temperature t q) = q_max_tokens q"
  "q_model (clamp_output n q) = q_model q" "q_stream (clamp_output n q) = q_stream q"
  "q_tools (clamp_output n q) = q_tools q" "q_model (clamp_temperature t q) = q_model q"
  "q_stream (clamp_temperature t q) = q_stream q" "q_tools (clamp_temperature t q) = q_tools q"
  "q_messages (clamp_output n q) = q_messages q" "q_messages (clamp_temperature t q) = q_messages q"
  "q_max_completion_tokens (clamp_output n q) = q_max_completion_tokens q"
  "q_max_completion_tokens (clamp_temperature t q) = q_max_completion_tokens q"
  by (auto simp: clamp_output_def clamp_temperature_def split: option.splits)

lemma clamp_temperature_value [simp]:
  "q_temperature (clamp_temperature n q) = (case q_temperature q of None \<Rightarrow> None | Some t \<Rightarrow> opt_min n (Some t))"
  by (auto simp: clamp_temperature_def split: option.splits)

lemma permits_clamped [simp]:
  "permits est (clamp_temperature t (clamp_output n q)) p = permits est q p"
  by (simp add: permits_def)

lemma enforce_violation:
  "fst (enforce_loop est ps q) = None \<longleftrightarrow> (\<forall>p\<in>set ps. gp_Enabled p \<longrightarrow> permits est q p)"
proof (induction ps arbitrary: q)
  case (Cons p ps)
  show ?case
  proof (cases "gp_Enabled p \<and> \<not> permits est q p")
    case True
    then obtain v where "check_policy p est q = Some v" using check_policy_None by blast
    with True show ?thesis by simp
  next
    case False then show ?thesis by (simp add: Cons.IH check_policy_None [THEN iffD2])
  qed
qed simp

definition clamped :: "GatewayPolicy list \<Rightarrow> chat_request \<Rightarrow> chat_request" where
  "clamped ps q = q
     \<lparr>q_max_tokens := opt_min (q_max_tokens q) (least_of (map MaxOutputTokens ps)),
      q_temperature := (case q_temperature q of None \<Rightarrow> None
        | Some t \<Rightarrow> opt_min (Some t) (least_of (map MaxTemperature ps)))\<rparr>"

lemma clamp_output_as_update: "clamp_output n q = q\<lparr>q_max_tokens := opt_min n (q_max_tokens q)\<rparr>"
  by (auto simp: clamp_output_def min_def split: option.splits)

lemma clamp_temperature_as_update:
  "clamp_temperature n q =
     q\<lparr>q_temperature := (case q_temperature q of None \<Rightarrow> None | Some t \<Rightarrow> opt_min n (Some t))\<rparr>"
  by (auto simp: clamp_temperature_def min_def split: option.splits)

lemma clamped_Cons: "clamped (p # ps) q = clamped ps (clamp_temperature (MaxTemperature p) (clamp_output (MaxOutputTokens p) q))"
proof -
  have "opt_min (q_max_tokens q) (opt_min x y) = opt_min (opt_min x (q_max_tokens q)) y" for x y
    by (metis opt_min_assoc opt_min_commute)
  moreover have "opt_min (Some t) (opt_min x y) = opt_min (opt_min x (Some t)) y" for x y and t :: rat
    by (metis opt_min_assoc opt_min_commute)
  ultimately show ?thesis
    by (cases "q_temperature q"; cases "MaxTemperature p")
      (simp_all add: clamped_def clamp_output_as_update clamp_temperature_as_update)
qed

lemma enforce_clamps:
  "\<forall>p\<in>set ps. gp_Enabled p \<Longrightarrow> fst (enforce_loop est ps q) = None \<Longrightarrow> snd (enforce_loop est ps q) = clamped ps q"
proof (induction ps arbitrary: q)
  case Nil then show ?case by (cases "q_temperature q") (simp_all add: clamped_def)
next
  case (Cons p ps)
  have "check_policy p est q = None"
    using Cons.prems enforce_violation [of est "p # ps" q] check_policy_None by simp
  with Cons show ?case by (simp add: clamped_Cons)
qed

lemma loadPolicies_enabled: "p \<in> set (loadPolicies f a b c d tbl) \<Longrightarrow> gp_Enabled p"
  by (auto simp: loadPolicies_def scanned_def applies_def split: if_splits)

lemma least_of_mset: "mset xs = mset ys \<Longrightarrow> least_of xs = least_of ys"
proof -
  assume "mset xs = mset ys"
  moreover have "opt_min a \<circ> opt_min b = opt_min b \<circ> opt_min a" for a b :: "'a option"
    by (rule ext) (metis comp_apply opt_min_assoc opt_min_commute)
  ultimately show ?thesis
    unfolding least_of_def by (intro fold_permuted_eq [where P = "\<lambda>_. True"]) (auto simp: fun_eq_iff)
qed

lemma loadPolicies_mset:
  "mset tbl = mset tbl' \<Longrightarrow> mset (loadPolicies f a b c d tbl) = mset (loadPolicies f a b c d tbl')"
  by (simp add: loadPolicies_def)

subsection \<open>Properties\<close>

text \<open>
  C13: the gateway policies act as one. A request passes exactly when every policy that applies to it
  permits it, and a request that passes leaves with the smallest of its own limits and theirs, on
  output tokens and on temperature, and is otherwise unchanged. Neither depends on the order of the
  rows, so no scope takes precedence over another: the comment on \<open>Enforce\<close> says that more specific scopes take
  precedence over broader ones, but an organisation that caps the output at 20 tokens is not overridden by a team
  of it that allows 50.
\<close>

theorem gateway_takes_the_tightest:
  assumes "mset tbl' = mset tbl" and "ps = loadPolicies fails org proj team key tbl"
  shows "(fst (Enforce fails org proj team key tbl' est q) = None \<longleftrightarrow> list_all (permits est q) ps) \<and>
    (list_all (permits est q) ps \<longrightarrow>
      snd (Enforce fails org proj team key tbl' est q) = q
        \<lparr>q_max_tokens := opt_min (q_max_tokens q) (least_of (map MaxOutputTokens ps)),
         q_temperature := (case q_temperature q of None \<Rightarrow> None
           | Some t \<Rightarrow> opt_min (Some t) (least_of (map MaxTemperature ps)))\<rparr>)"
proof -
  let ?ps = "loadPolicies fails org proj team key tbl'"
  have m: "mset ?ps = mset ps" using assms loadPolicies_mset by metis
  then have set: "set ?ps = set ps" by (rule mset_eq_setD)
  have *: "fst (Enforce fails org proj team key tbl' est q) = None \<longleftrightarrow> list_all (permits est q) ps"
    using set loadPolicies_enabled [of _ fails org proj team key tbl']
    by (auto simp: Enforce_def enforce_violation list_all_iff)
  have "least_of (map MaxOutputTokens ?ps) = least_of (map MaxOutputTokens ps)"
      "least_of (map MaxTemperature ?ps) = least_of (map MaxTemperature ps)"
    using m by (auto intro!: least_of_mset)
  moreover have "list_all (permits est q) ps \<longrightarrow> snd (Enforce fails org proj team key tbl' est q) = clamped ?ps q"
    using * loadPolicies_enabled enforce_clamps unfolding Enforce_def by blast
  ultimately show ?thesis using * by (simp only: clamped_def)
qed

definition demo_gateway_policy :: "string \<Rightarrow> id \<Rightarrow> int \<Rightarrow> rat \<Rightarrow> gateway_policy_row" where
  "demo_gateway_policy scope sid out temp =
     \<lparr>gp_scope = scope, MaxTemperature = Some temp, gp_MaxContextTokens = Some 100, MaxOutputTokens = Some out,
      StreamAllowed = True, FunctionCallAllowed = False, AllowedModels = [], DeniedModels = [],
      AllowedToolNames = [], DeniedToolNames = [], gp_Enabled = True, gp_scope_id = sid\<rparr>"

theorem gateway_takes_the_tightest_witness:
  "map_option id (fst (Enforce False ''o'' [] ''t'' [] [demo_gateway_policy ''team'' ''t'' 50 1, demo_gateway_policy ''org'' ''o'' 20 2] 7
      ((plain_request ''m'' [])\<lparr>q_temperature := Some 3\<rparr>))) = None \<and>
   q_max_tokens (snd (Enforce False ''o'' [] ''t'' [] [demo_gateway_policy ''team'' ''t'' 50 1, demo_gateway_policy ''org'' ''o'' 20 2] 7
      ((plain_request ''m'' [])\<lparr>q_temperature := Some 3\<rparr>))) = Some 20"
proof -
  let ?t = "[demo_gateway_policy ''team'' ''t'' 50 1, demo_gateway_policy ''org'' ''o'' 20 2]"
  let ?q = "(plain_request ''m'' [])\<lparr>q_temperature := Some 3\<rparr>"
  have p: "list_all (permits 7 ?q) (loadPolicies False ''o'' [] ''t'' [] ?t)"
    by (simp add: loadPolicies_def applies_def demo_gateway_policy_def scanned_def permits_def plain_request_def scope_rank_def)
  have l: "least_of (map MaxOutputTokens (loadPolicies False ''o'' [] ''t'' [] ?t)) = Some 20"
    by (simp add: loadPolicies_def applies_def demo_gateway_policy_def scanned_def scope_rank_def)
  show ?thesis
    using gateway_takes_the_tightest [OF refl refl, of False "''o''" "[]" "''t''" "[]" ?t 7 ?q] p l
    by (simp add: plain_request_def)
qed

text \<open>
  The model and tool lists of a gateway policy are never enforced. The loader does not read them,
  so whatever lists the rows of the table carry, a request is treated as if every list were empty: a
  model on a deny list passes.
\<close>

theorem gateway_lists_never_enforced:
  "Enforce fails org proj team key tbl est q =
     Enforce fails org proj team key
       (map (\<lambda>r. r\<lparr>AllowedModels := am r, DeniedModels := dm r, AllowedToolNames := atn r, DeniedToolNames := dtn r\<rparr>) tbl)
       est q"
proof -
  let ?f = "\<lambda>r. r\<lparr>AllowedModels := am r, DeniedModels := dm r, AllowedToolNames := atn r, DeniedToolNames := dtn r\<rparr>"
  have "map scanned (sort_key (\<lambda>r. scope_rank (gp_scope r)) (map ?f rs)) =
      map scanned (sort_key (\<lambda>r. scope_rank (gp_scope r)) rs)" for rs
  proof -
    have "insort_key (\<lambda>r. scope_rank (gp_scope r)) (?f x) (map ?f ys) = map ?f (insort_key (\<lambda>r. scope_rank (gp_scope r)) x ys)"
      for x ys by (induction ys) simp_all
    then have "sort_key (\<lambda>r. scope_rank (gp_scope r)) (map ?f rs) = map ?f (sort_key (\<lambda>r. scope_rank (gp_scope r)) rs)"
      by (induction rs) (simp_all add: sort_key_def)
    then show ?thesis by (simp add: scanned_def comp_def)
  qed
  moreover have "applies org proj team key (?f r) = applies org proj team key r" for r by (simp add: applies_def)
  then have "filter (applies org proj team key) (map ?f tbl) = map ?f (filter (applies org proj team key) tbl)"
    by (simp add: filter_map comp_def)
  ultimately show ?thesis by (simp add: Enforce_def loadPolicies_def)
qed

end
