(* ===== verification/Prompt_Policy.thy ===== *)
theory Prompt_Policy
  imports Gateway_Policy Access_Control "HOL-Library.List_Lexorder" "HOL-Library.Char_ord"
begin

text \<open>
  \<open>internal/promptpolicy/engine.go\<close> and \<open>internal/admin/handlers/promptpolicy.go\<close>: the policies on the
  contents of a request, with the handler that creates them. The fixed patterns of the detection of
  personal data are regular expressions; \<open>re_ends\<close> gives the places where a match that starts at
  a place can end. How \<open>fmt\<close> prints a floating point number is the argument \<open>num\<close>.
\<close>

subsection \<open>Regular expressions\<close>

datatype re =
    Class "char \<Rightarrow> bool"
  | Seq re re
  | Star re
  | Maybe re
  | Times nat re
  | WordEdge

definition is_word :: "char \<Rightarrow> bool" where
  "is_word c \<longleftrightarrow> is_digit c \<or> 65 \<le> (of_char c :: nat) \<and> (of_char c :: nat) \<le> 90 \<or>
     97 \<le> (of_char c :: nat) \<and> (of_char c :: nat) \<le> 122 \<or> c = CHR ''_''"

definition word_at :: "string \<Rightarrow> nat \<Rightarrow> bool" where
  "word_at s i \<longleftrightarrow> i < length s \<and> is_word (s ! i)"

definition word_edge :: "string \<Rightarrow> nat \<Rightarrow> bool" where
  "word_edge s i \<longleftrightarrow> (i > 0 \<and> word_at s (i - 1)) \<noteq> word_at s i"

text \<open>Repetition: each round has to move on, so that \<open>fuel\<close> rounds suffice for a text of that length.\<close>

fun star_ends :: "nat \<Rightarrow> (nat \<Rightarrow> nat list) \<Rightarrow> nat \<Rightarrow> nat list" where
  "star_ends 0 f i = [i]"
| "star_ends (Suc fuel) f i = i # concat (map (star_ends fuel f) (filter (\<lambda>j. j > i) (f i)))"

fun times_ends :: "nat \<Rightarrow> (nat \<Rightarrow> nat list) \<Rightarrow> nat \<Rightarrow> nat list" where
  "times_ends 0 f i = [i]"
| "times_ends (Suc n) f i = concat (map (times_ends n f) (f i))"

fun re_ends :: "string \<Rightarrow> re \<Rightarrow> nat \<Rightarrow> nat list" where
  "re_ends s (Class P) i = (if i < length s \<and> P (s ! i) then [Suc i] else [])"
| "re_ends s (Seq a b) i = concat (map (re_ends s b) (re_ends s a i))"
| "re_ends s (Star a) i = star_ends (length s) (re_ends s a) i"
| "re_ends s (Maybe a) i = i # re_ends s a i"
| "re_ends s (Times n a) i = times_ends n (re_ends s a) i"
| "re_ends s WordEdge i = (if word_edge s i then [i] else [])"

definition MatchString :: "re \<Rightarrow> string \<Rightarrow> bool" where
  "MatchString r s \<longleftrightarrow> list_ex (\<lambda>i. re_ends s r i \<noteq> []) [0..<Suc (length s)]"

definition re_char :: "char \<Rightarrow> re" where "re_char c = Class (\<lambda>x. x = c)"

definition re_plus :: "re \<Rightarrow> re" where "re_plus r = Seq r (Star r)"

fun re_seq :: "re list \<Rightarrow> re" where
  "re_seq [] = Times 0 WordEdge"
| "re_seq [r] = r"
| "re_seq (r # rs) = Seq r (re_seq rs)"

definition is_letter :: "char \<Rightarrow> bool" where
  "is_letter c \<longleftrightarrow> is_word c \<and> \<not> is_digit c \<and> c \<noteq> CHR ''_''"

text \<open>The three patterns: social security number, Visa card number, e-mail address.\<close>

definition re_ssn :: re where
  "re_ssn = re_seq [WordEdge, Times 3 (Class is_digit), re_char (CHR ''-''), Times 2 (Class is_digit), re_char (CHR ''-''),
     Times 4 (Class is_digit), WordEdge]"

definition re_visa :: re where
  "re_visa = re_seq [WordEdge, re_char (CHR ''4''), Times 12 (Class is_digit), Maybe (Times 3 (Class is_digit)), WordEdge]"

definition re_email :: re where
  "re_email = re_seq [WordEdge, re_plus (Class (\<lambda>c. is_letter c \<or> is_digit c \<or> c \<in> set ''._%+-'')), re_char (CHR ''@''),
     re_plus (Class (\<lambda>c. is_letter c \<or> is_digit c \<or> c \<in> set ''.-'')), re_char (CHR ''.''),
     Seq (Times 2 (Class is_letter)) (Star (Class is_letter)), WordEdge]"

subsection \<open>The text of a message\<close>

text \<open>\<open>fmt.Sprintf\<close> with \<open>%v\<close> on a decoded JSON value; the keys of a map are printed in order.\<close>

fun sprint :: "(rat \<Rightarrow> string) \<Rightarrow> json \<Rightarrow> string" where
  "sprint num JNull = ''<nil>''"
| "sprint num (JBool b) = (if b then ''true'' else ''false'')"
| "sprint num (JNum x) = num x"
| "sprint num (JStr s) = s"
| "sprint num (JList xs) = ''['' @ Join '' '' (map (sprint num) xs) @ '']''"
| "sprint num (JObj kvs) =
     ''map['' @ Join '' '' (map (\<lambda>kv. fst kv @ '':'' @ snd kv) (sort_key fst (map (map_prod id (sprint num)) kvs))) @ '']''"

definition messageText :: "(rat \<Rightarrow> string) \<Rightarrow> Message \<Rightarrow> string" where
  "messageText num m = (case as_string (m_content m) of Some s \<Rightarrow> s | None \<Rightarrow> sprint num (m_content m))"

definition hasPII :: "(rat \<Rightarrow> string) \<Rightarrow> Message list \<Rightarrow> bool" where
  "hasPII num messages \<longleftrightarrow>
     list_ex (\<lambda>m. list_ex (\<lambda>pattern. MatchString pattern (messageText num m)) [re_ssn, re_visa, re_email]) messages"

subsection \<open>Policies\<close>

record prompt_policy =
  pp_id :: id
  pp_scope :: string
  pp_scope_id :: id
  pp_name :: string
  pp_priority :: int
  pp_enabled :: bool
  pp_system_prompt :: string
  pp_mode :: string
  pp_max_temperature :: "rat option"
  pp_max_tokens :: "int option"
  pp_pii :: bool
  pp_moderation :: bool
  pp_denied_tools :: "string list"
  pp_deny_list :: "string list"
  pp_allow_list :: "string list"

record prompt_decision =
  pd_allowed :: bool
  pd_reason :: string
  pd_request :: "chat_request option"

definition injectSystemPrompt :: "Message list \<Rightarrow> string \<Rightarrow> string \<Rightarrow> Message list" where
  "injectSystemPrompt messages prompt mode =
     (let sysMsg = text_message ''system'' prompt in
      if mode = ''replace'' then sysMsg # filter (\<lambda>m. m_role m \<noteq> ''system'') messages
      else if mode = ''append'' then messages @ [sysMsg]
      else sysMsg # messages)"

definition denied_term :: "(rat \<Rightarrow> string) \<Rightarrow> string list \<Rightarrow> Message \<Rightarrow> string option" where
  "denied_term num denyList m = find (\<lambda>term. contains (ToLower term) (ToLower (messageText num m))) denyList"

fun checkDenyList :: "(rat \<Rightarrow> string) \<Rightarrow> Message list \<Rightarrow> string list \<Rightarrow> string option" where
  "checkDenyList num [] denyList = None"
| "checkDenyList num (m # ms) denyList =
     (case denied_term num denyList m of Some term \<Rightarrow> Some term | None \<Rightarrow> checkDenyList num ms denyList)"

definition checkAllowList :: "(rat \<Rightarrow> string) \<Rightarrow> Message list \<Rightarrow> string list \<Rightarrow> bool" where
  "checkAllowList num messages allowList \<longleftrightarrow>
     list_all (\<lambda>m. list_ex (\<lambda>term. contains (ToLower term) (ToLower (messageText num m))) allowList) messages"

fun denied_tool :: "string list \<Rightarrow> json list \<Rightarrow> string option" where
  "denied_tool deniedTools [] = None"
| "denied_tool deniedTools (tool # tools) =
     (case find (EqualFold (extractToolName tool)) deniedTools of
        Some denied \<Rightarrow> Some denied
      | None \<Rightarrow> denied_tool deniedTools tools)"

definition prompt_block :: "(rat \<Rightarrow> string) \<Rightarrow> prompt_policy \<Rightarrow> chat_request \<Rightarrow> string option" where
  "prompt_block num p q =
     (case checkDenyList num (q_messages q) (pp_deny_list p) of
        Some term \<Rightarrow> Some (''input_deny_list: '' @ term)
      | None \<Rightarrow>
          if pp_allow_list p \<noteq> [] \<and> \<not> checkAllowList num (q_messages q) (pp_allow_list p) then
            Some ''input_allow_list: content not permitted''
          else if pp_pii p \<and> hasPII num (q_messages q) then Some ''pii_detected''
          else (case denied_tool (pp_denied_tools p) (q_tools q) of
                  Some denied \<Rightarrow> Some (''tool_denied: '' @ denied)
                | None \<Rightarrow> None))"

definition prompt_rewrite :: "prompt_policy \<Rightarrow> chat_request \<Rightarrow> chat_request" where
  "prompt_rewrite p q =
     (let q' = clamp_output (pp_max_tokens p) (clamp_temperature (pp_max_temperature p) q) in
      if pp_system_prompt p \<noteq> [] then
        q'\<lparr>q_messages := injectSystemPrompt (q_messages q') (pp_system_prompt p) (pp_mode p)\<rparr>
      else q')"

fun prompt_loop :: "(rat \<Rightarrow> string) \<Rightarrow> prompt_policy list \<Rightarrow> chat_request \<Rightarrow> string + chat_request" where
  "prompt_loop num [] q = Inr q"
| "prompt_loop num (p # ps) q =
     (if \<not> pp_enabled p then prompt_loop num ps q
      else case prompt_block num p q of
        Some reason \<Rightarrow> Inl reason
      | None \<Rightarrow> prompt_loop num ps (prompt_rewrite p q))"

definition prompt_rank :: "string \<Rightarrow> int" where
  "prompt_rank s = (if s = ''org'' then 1 else if s = ''team'' then 2 else 3)"

definition prompt_applies :: "id \<Rightarrow> id \<Rightarrow> id \<Rightarrow> prompt_policy \<Rightarrow> bool" where
  "prompt_applies orgID teamID modelID p \<longleftrightarrow>
     pp_enabled p \<and>
     (pp_scope p = ''org'' \<and> orgID \<noteq> [] \<and> pp_scope_id p = orgID \<or>
      pp_scope p = ''team'' \<and> teamID \<noteq> [] \<and> pp_scope_id p = teamID \<or>
      pp_scope p = ''model'' \<and> modelID \<noteq> [] \<and> pp_scope_id p = modelID)"

text \<open>The columns that are read; the lists keep their zero value.\<close>

definition prompt_scanned :: "prompt_policy \<Rightarrow> prompt_policy" where
  "prompt_scanned p = p\<lparr>pp_denied_tools := [], pp_deny_list := [], pp_allow_list := []\<rparr>"

definition load_prompt_policies ::
    "faults \<Rightarrow> id \<Rightarrow> id \<Rightarrow> string \<Rightarrow> perm_db \<Rightarrow> prompt_policy list \<Rightarrow> prompt_policy list" where
  "load_prompt_policies flt orgID teamID modelName db tbl =
     (let modelID = (if flt ''model'' then [] else case active_model modelName db of None \<Rightarrow> [] | Some i \<Rightarrow> i) in
      if flt ''policies'' then []
      else map prompt_scanned (sort_key (\<lambda>p. prompt_rank (pp_scope p))
             (sort_key pp_priority (filter (prompt_applies orgID teamID modelID) tbl))))"

definition evaluate_prompt ::
    "(rat \<Rightarrow> string) \<Rightarrow> faults \<Rightarrow> id \<Rightarrow> id \<Rightarrow> string \<Rightarrow> perm_db \<Rightarrow> prompt_policy list \<Rightarrow> chat_request \<Rightarrow> prompt_decision" where
  "evaluate_prompt num flt orgID teamID modelName db tbl q =
     (let policies = load_prompt_policies flt orgID teamID modelName db tbl in
      if policies = [] then \<lparr>pd_allowed = True, pd_reason = [], pd_request = None\<rparr>
      else case prompt_loop num policies q of
        Inl reason \<Rightarrow> \<lparr>pd_allowed = False, pd_reason = reason, pd_request = None\<rparr>
      | Inr q' \<Rightarrow> \<lparr>pd_allowed = True, pd_reason = [], pd_request = Some q'\<rparr>)"

subsection \<open>Creating a policy\<close>

text \<open>
  \<open>INSERT INTO prompt_policies\<close>: scope and mode are checked, the temperature is rounded to the column's
  two decimals, the list columns take their defaults. The cache key that is deleted afterwards is never
  read.
\<close>

definition numeric_4_2 :: "rat \<Rightarrow> rat option" where
  "numeric_4_2 x =
     (let r = (if x < 0 then - 1 else 1) * of_int \<lfloor>\<bar>x\<bar> * 100 + 1 / 2\<rfloor> / 100 in if \<bar>r\<bar> < 100 then Some r else None)"

definition stored_temperature :: "rat option \<Rightarrow> sql_error + rat option" where
  "stored_temperature t =
     (case t of None \<Rightarrow> Inr None
      | Some x \<Rightarrow> (case numeric_4_2 x of None \<Rightarrow> Inl SqlNumericOverflow | Some r \<Rightarrow> Inr (Some r)))"

definition CreatePolicy :: "bool \<Rightarrow> prompt_policy \<Rightarrow> prompt_policy list \<Rightarrow> sql_error + prompt_policy list" where
  "CreatePolicy fails p tbl =
     (if fails then Inl SqlDown
      else bindE (stored_temperature (pp_max_temperature p)) (\<lambda>t.
        if pp_scope p \<notin> {''org'', ''team'', ''model''} \<or> pp_mode p \<notin> {''prepend'', ''append'', ''replace'', ''none''} then
          Inl SqlCheckViolation
        else if pp_id p \<in> set (map pp_id tbl) then Inl SqlDuplicateKey
        else Inr (tbl @ [p\<lparr>pp_max_temperature := t, pp_denied_tools := [], pp_deny_list := [], pp_allow_list := []\<rparr>])))"

text \<open>The handler: \<open>p\<close> is the bound input, whose scope, scope id and name are required.\<close>

definition create_prompt_policy :: "bool \<Rightarrow> id \<Rightarrow> prompt_policy \<Rightarrow> prompt_policy list \<Rightarrow> int \<times> prompt_policy list" where
  "create_prompt_policy fails newID p tbl =
     (if pp_scope p = [] \<or> pp_scope_id p = [] \<or> pp_name p = [] then (400, tbl)
      else case CreatePolicy fails
          (p\<lparr>pp_id := newID, pp_enabled := True, pp_priority := (if pp_priority p = 0 then 100 else pp_priority p),
             pp_mode := (if pp_mode p = [] then ''prepend'' else pp_mode p),
             pp_denied_tools := [], pp_allow_list := []\<rparr>) tbl of
        Inl _ \<Rightarrow> (500, tbl)
      | Inr tbl' \<Rightarrow> (201, tbl'))"

subsection \<open>Facts\<close>

lemma prompt_rewrite_limits:
  "q_max_tokens (prompt_rewrite p q) = opt_min (pp_max_tokens p) (q_max_tokens q)"
  "q_model (prompt_rewrite p q) = q_model q" "q_stream (prompt_rewrite p q) = q_stream q"
  "q_tools (prompt_rewrite p q) = q_tools q"
  "q_max_completion_tokens (prompt_rewrite p q) = q_max_completion_tokens q"
  by (simp_all add: prompt_rewrite_def Let_def)

lemma prompt_loop_limits:
  "prompt_loop num ps q = Inr q' \<Longrightarrow>
     q_max_tokens q' = opt_min (q_max_tokens q) (least_of (map pp_max_tokens (filter pp_enabled ps))) \<and>
     q_model q' = q_model q \<and> q_stream q' = q_stream q \<and> q_max_completion_tokens q' = q_max_completion_tokens q"
proof (induction ps arbitrary: q)
  case (Cons p ps)
  show ?case
  proof (cases "pp_enabled p")
    case True
    with Cons.prems have "prompt_loop num ps (prompt_rewrite p q) = Inr q'" by (simp split: option.splits)
    with Cons.IH True show ?thesis
      by (simp add: prompt_rewrite_limits) (metis opt_min_assoc opt_min_commute)
  qed (use Cons in simp)
qed simp

lemma evaluate_prompt_limits:
  assumes "pd_request (evaluate_prompt num flt org team model db tbl q) = Some q'"
  shows "\<exists>k. q_max_tokens q' = opt_min (q_max_tokens q) k" and "q_model q' = q_model q" and "q_stream q' = q_stream q"
    and "q_max_completion_tokens q' = q_max_completion_tokens q"
proof -
  have "prompt_loop num (load_prompt_policies flt org team model db tbl) q = Inr q'"
    using assms by (simp add: evaluate_prompt_def Let_def split: if_splits sum.splits)
  then show "\<exists>k. q_max_tokens q' = opt_min (q_max_tokens q) k" "q_model q' = q_model q" "q_stream q' = q_stream q"
    "q_max_completion_tokens q' = q_max_completion_tokens q"
    by (auto dest: prompt_loop_limits)
qed

lemma sort_key_map_inv:
  assumes "\<And>x. k (f x) = k x" shows "sort_key k (map f xs) = map f (sort_key k xs)"
proof -
  have "insort_key k (f x) (map f ys) = map f (insort_key k x ys)" for x ys by (induction ys) (simp_all add: assms)
  then show ?thesis by (induction xs) (simp_all add: sort_key_def)
qed

lemma load_ignores_lists:
  assumes f: "f = (\<lambda>p. p\<lparr>pp_denied_tools := dt p, pp_deny_list := dl p, pp_allow_list := al p\<rparr>)"
  shows "load_prompt_policies flt org team model db (map f tbl) = load_prompt_policies flt org team model db tbl"
proof -
  have "prompt_applies a b c (f p) = prompt_applies a b c p" for a b c p by (simp add: f prompt_applies_def)
  then have "filter (prompt_applies a b c) (map f tbl) = map f (filter (prompt_applies a b c) tbl)" for a b c
    by (simp add: filter_map comp_def)
  moreover have "pp_priority (f p) = pp_priority p" "pp_scope (f p) = pp_scope p"
    "prompt_scanned (f p) = prompt_scanned p" for p by (simp_all add: f prompt_scanned_def)
  ultimately show ?thesis
    by (simp add: load_prompt_policies_def Let_def sort_key_map_inv comp_def)
qed

lemma contains_PII: "m \<in> set ms \<Longrightarrow> r \<in> {re_ssn, re_visa, re_email} \<Longrightarrow> MatchString r (messageText num m) \<Longrightarrow> hasPII num ms"
  by (auto simp: hasPII_def list_ex_iff)

lemma injected_prompt: "text_message ''system'' s \<in> set (injectSystemPrompt ms s mode)"
  by (simp add: injectSystemPrompt_def Let_def)

lemma create_ignores_deny_list:
  "create_prompt_policy fails newID (p\<lparr>pp_deny_list := xs\<rparr>) tbl = create_prompt_policy fails newID p tbl"
  by (cases p) (simp add: create_prompt_policy_def CreatePolicy_def cong: if_cong)

subsection \<open>Properties\<close>

text \<open>
  The input and tool lists of a prompt policy have no effect. The handler accepts a deny list
  but the insert does not store it, and the loader would not read it: the table after a creation and
  the decision on a request are the same whatever lists the policies have.
\<close>

theorem prompt_lists_never_enforced:
  "create_prompt_policy fails newID (p\<lparr>pp_deny_list := xs\<rparr>) tbl = create_prompt_policy fails newID p tbl \<and>
   evaluate_prompt num flt org team model db
     (map (\<lambda>p. p\<lparr>pp_denied_tools := dt p, pp_deny_list := dl p, pp_allow_list := al p\<rparr>) tbl) q =
   evaluate_prompt num flt org team model db tbl q"
  by (simp add: create_ignores_deny_list evaluate_prompt_def load_ignores_lists [OF refl])

text \<open>
  A system prompt injected by one policy is subject to the checks of the next. When an earlier
  policy injects a prompt that contains, for example, an e-mail address, a later policy with the
  detection of personal data rejects every request that gets that far, whatever the client sends.
\<close>

theorem injected_prompt_blocks_requests:
  assumes "pp_enabled a" and "pp_enabled b" and "prompt_block num a q = None" and "pp_system_prompt a \<noteq> []"
    and "MatchString re_email (pp_system_prompt a)" and "pp_pii b" and "pp_deny_list b = []" and "pp_allow_list b = []"
  shows "prompt_loop num (a # b # ps) q = Inl ''pii_detected''"
proof -
  let ?q = "prompt_rewrite a q" and ?m = "text_message ''system'' (pp_system_prompt a)"
  have "?m \<in> set (q_messages ?q)" using assms(4) injected_prompt by (simp add: prompt_rewrite_def Let_def)
  moreover have "messageText num ?m = pp_system_prompt a" by (simp add: messageText_def text_message_def)
  ultimately have pii: "hasPII num (q_messages ?q)" using assms(5) contains_PII by (metis insertI1 insertI2)
  have "denied_term num [] m = None" for m by (simp add: denied_term_def)
  then have "checkDenyList num ms [] = None" for ms by (induction ms) simp_all
  then have "prompt_block num b ?q = Some ''pii_detected''" using assms(6-8) pii by (simp add: prompt_block_def)
  with assms(1-3) show ?thesis by simp
qed

definition demo_prompt :: "string \<Rightarrow> string \<Rightarrow> bool \<Rightarrow> prompt_policy" where
  "demo_prompt scope prompt pii =
     \<lparr>pp_id = ''1'', pp_scope = scope, pp_scope_id = ''o'', pp_name = ''n'', pp_priority = 100, pp_enabled = True,
      pp_system_prompt = prompt, pp_mode = ''prepend'', pp_max_temperature = None, pp_max_tokens = None, pp_pii = pii,
      pp_moderation = False, pp_denied_tools = [], pp_deny_list = [], pp_allow_list = []\<rparr>"

theorem injected_prompt_blocks_requests_witness:
  "prompt_loop (\<lambda>_. []) [demo_prompt ''org'' ''a@b.io'' False, demo_prompt ''team'' [] True]
     (plain_request ''m'' [text_message ''user'' ''hi'']) = Inl ''pii_detected''"
proof (rule injected_prompt_blocks_requests)
  show "MatchString re_email (pp_system_prompt (demo_prompt ''org'' ''a@b.io'' False))" by code_simp
  show "prompt_block (\<lambda>_. []) (demo_prompt ''org'' ''a@b.io'' False) (plain_request ''m'' [text_message ''user'' ''hi'']) = None"
    by (simp add: prompt_block_def demo_prompt_def plain_request_def denied_term_def)
qed (simp_all add: demo_prompt_def)

end
