(* ===== verification/Model_Alias.thy ===== *)
theory Model_Alias
  imports Access_Control "HOL-Library.List_Lexorder" "HOL-Library.Char_ord"
begin

text \<open>
  \<open>internal/alias/resolver.go\<close>: names that stand for models, looked up in the team, then in the
  organisation, then globally, through a cache in Redis that keeps an answer for five minutes.

  A \<open>LIMIT 1\<close> without an order may return any of the rows; \<open>pick\<close> is the choice. An empty identifier is no
  UUID, so a query with one fails; an insert stores it as NULL, and NULLs never conflict.
\<close>

subsection \<open>Caches with a lifetime\<close>

text \<open>
  What the resolver relies on: a value is found under its key until it is deleted or its lifetime is
  over, and other keys are not touched. \<open>fresh h t s\<close> says that every value the cache holds at or after
  \<open>t\<close> was recorded in \<open>h\<close> less than a lifetime before.
\<close>

locale ttl_cache =
  fixes get :: "int \<Rightarrow> 'k \<Rightarrow> 's \<Rightarrow> 'v option"
    and put :: "int \<Rightarrow> 'k \<Rightarrow> 'v \<Rightarrow> 's \<Rightarrow> 's"
    and del :: "'k \<Rightarrow> 's \<Rightarrow> 's"
    and ttl :: int
  assumes get_put: "get t' k' (put t k v s) = (if k' = k then (if t' < t + ttl then Some v else None) else get t' k' s)"
    and get_del: "get t k' (del k s) = (if k' = k then None else get t k' s)"
begin

definition fresh :: "(int \<times> 'k \<times> 'v) set \<Rightarrow> int \<Rightarrow> 's \<Rightarrow> bool" where
  "fresh h t s \<longleftrightarrow> (\<forall>t' k v. t \<le> t' \<longrightarrow> get t' k s = Some v \<longrightarrow> (\<exists>u. (u, k, v) \<in> h \<and> t' < u + ttl))"

lemma fresh_put: "fresh h t s \<Longrightarrow> (t, k, v) \<in> h \<Longrightarrow> fresh h t (put t k v s)"
  by (auto simp: fresh_def get_put split: if_splits)

lemma fresh_del: "fresh h t s \<Longrightarrow> fresh h t (del k s)"
  by (auto simp: fresh_def get_del split: if_splits)

lemma fresh_later: "fresh h t s \<Longrightarrow> t \<le> t' \<Longrightarrow> h \<subseteq> h' \<Longrightarrow> fresh h' t' s"
  unfolding fresh_def by (meson order_trans subsetD)

lemma fresh_get: "fresh h t s \<Longrightarrow> get t k s = Some v \<Longrightarrow> \<exists>u. (u, k, v) \<in> h \<and> t < u + ttl"
  by (simp add: fresh_def)

end

definition aliasCacheTTL :: int where "aliasCacheTTL = 5 * 60"

interpretation redis_cache: ttl_cache GET "\<lambda>t k v s. SET_EX t k v aliasCacheTTL s" DEL "aliasCacheTTL * 1000"
  by unfold_locales (auto simp: redis_obs)

subsection \<open>Tables and lookups\<close>

record alias_row =
  al_alias :: string
  al_model :: id
  al_scope :: string
  al_scope_id :: "id option"
  al_enabled :: bool

type_synonym alias_db = "alias_row list \<times> model_row list"

definition alias_matches :: "string \<Rightarrow> id \<Rightarrow> string \<Rightarrow> alias_row \<Rightarrow> bool" where
  "alias_matches scope scopeID name r \<longleftrightarrow>
     al_alias r = name \<and> al_scope r = scope \<and> al_enabled r \<and> (scope = ''global'' \<or> al_scope_id r = Some scopeID)"

definition alias_names :: "string \<Rightarrow> id \<Rightarrow> string \<Rightarrow> alias_db \<Rightarrow> string list" where
  "alias_names scope scopeID name db =
     concat (map (\<lambda>r. map md_name (filter (\<lambda>m. md_id m = al_model r) (snd db)))
       (filter (alias_matches scope scopeID name) (fst db)))"

definition alias_query ::
    "bool \<Rightarrow> (string list \<Rightarrow> string) \<Rightarrow> string \<Rightarrow> id \<Rightarrow> string \<Rightarrow> alias_db \<Rightarrow> sql_error + string" where
  "alias_query fails pick scope scopeID name db =
     (if fails \<or> scope \<noteq> ''global'' \<and> scopeID = [] then Inl SqlDown
      else if alias_names scope scopeID name db = [] then Inl SqlNoRows
      else Inr (pick (alias_names scope scopeID name db)))"

definition alias_key :: "string \<Rightarrow> id \<Rightarrow> string \<Rightarrow> string" where
  "alias_key scope scopeID name = ''nexus:alias:'' @ scope @ '':'' @ scopeID @ '':'' @ name"

definition lookup ::
    "network \<Rightarrow> faults \<Rightarrow> (string list \<Rightarrow> string) \<Rightarrow> int \<Rightarrow> string \<Rightarrow> id \<Rightarrow> string \<Rightarrow> alias_db \<Rightarrow> policy_redis \<Rightarrow>
     (sql_error + string) \<times> policy_redis" where
  "lookup nw flt pick now scope scopeID name db r =
     (let key = alias_key scope scopeID name in
      case reading (nw (''get:'' @ scope)) None (GET now key r) of
        Some cached \<Rightarrow> (Inr cached, r)
      | None \<Rightarrow>
          (case alias_query (flt scope) pick scope scopeID name db of
             Inl e \<Rightarrow> (Inl e, r)
           | Inr modelName \<Rightarrow> (Inr modelName, snd (writing (nw (''set:'' @ scope)) (SET_EX now key modelName aliasCacheTTL) r))))"

text \<open>The team, the organisation, the whole system; a name without an alias stands for itself.\<close>

definition Resolve ::
    "network \<Rightarrow> faults \<Rightarrow> (string list \<Rightarrow> string) \<Rightarrow> int \<Rightarrow> string \<Rightarrow> id \<Rightarrow> id \<Rightarrow> alias_db \<Rightarrow> policy_redis \<Rightarrow>
     string \<times> policy_redis" where
  "Resolve nw flt pick now name teamID orgID db r0 =
     (case lookup nw flt pick now ''team'' teamID name db r0 of
        (Inr m, r) \<Rightarrow> (m, r)
      | (Inl _, r) \<Rightarrow>
          (case lookup nw flt pick now ''org'' orgID name db r of
             (Inr m, r) \<Rightarrow> (m, r)
           | (Inl _, r) \<Rightarrow>
               (case lookup nw flt pick now ''global'' [] name db r of
                  (Inr m, r) \<Rightarrow> (m, r)
                | (Inl _, r) \<Rightarrow> (name, r))))"

subsection \<open>Changes\<close>

definition nullableID :: "id \<Rightarrow> id option" where
  "nullableID i = (if i = [] then None else Some i)"

definition invalidate :: "net \<Rightarrow> string \<Rightarrow> string \<Rightarrow> id \<Rightarrow> policy_redis \<Rightarrow> policy_redis" where
  "invalidate n name scope scopeID r = snd (writing n (DEL (alias_key scope scopeID name)) r)"

definition same_alias :: "string \<Rightarrow> string \<Rightarrow> id option \<Rightarrow> alias_row \<Rightarrow> bool" where
  "same_alias name scope sid r \<longleftrightarrow> al_alias r = name \<and> al_scope r = scope \<and> al_scope_id r = sid"

definition insert_alias :: "bool \<Rightarrow> string \<Rightarrow> id \<Rightarrow> string \<Rightarrow> id \<Rightarrow> alias_db \<Rightarrow> sql_error + alias_db" where
  "insert_alias fails name modelID scope scopeID db =
     (let sid = nullableID scopeID in
      if fails then Inl SqlDown
      else if scope \<notin> {''global'', ''org'', ''team''} then Inl SqlCheckViolation
      else if modelID \<notin> set (map md_id (snd db)) then Inl SqlForeignKey
      else if sid \<noteq> None \<and> list_ex (same_alias name scope sid) (fst db) then
        Inr (map (\<lambda>r. if same_alias name scope sid r then r\<lparr>al_model := modelID\<rparr> else r) (fst db), snd db)
      else Inr (fst db @ [\<lparr>al_alias = name, al_model = modelID, al_scope = scope, al_scope_id = sid, al_enabled = True\<rparr>],
                snd db))"

definition CreateAlias ::
    "faults \<Rightarrow> net \<Rightarrow> string \<Rightarrow> id \<Rightarrow> string \<Rightarrow> id \<Rightarrow> alias_db \<times> policy_redis \<Rightarrow> bool \<times> alias_db \<times> policy_redis" where
  "CreateAlias flt n name modelID scope scopeID s =
     (case insert_alias (flt ''insert'') name modelID scope scopeID (fst s) of
        Inl _ \<Rightarrow> (False, s)
      | Inr db \<Rightarrow> (True, db, invalidate n name scope scopeID (snd s)))"

definition DeleteAlias ::
    "faults \<Rightarrow> net \<Rightarrow> string \<Rightarrow> string \<Rightarrow> id \<Rightarrow> alias_db \<times> policy_redis \<Rightarrow> bool \<times> alias_db \<times> policy_redis" where
  "DeleteAlias flt n name scope scopeID s =
     (let r = invalidate n name scope scopeID (snd s) in
      if flt ''delete'' then (False, fst s, r)
      else (True, (filter (\<lambda>r. \<not> same_alias name scope (nullableID scopeID) r) (fst (fst s)), snd (fst s)), r))"

text \<open>The aliases a caller may see; an empty identifier leaves its scope out.\<close>

definition visible_alias :: "id \<Rightarrow> id \<Rightarrow> alias_row \<Rightarrow> bool" where
  "visible_alias teamID orgID r \<longleftrightarrow>
     al_enabled r \<and>
     (al_scope r = ''global'' \<or> orgID \<noteq> [] \<and> al_scope r = ''org'' \<and> al_scope_id r = Some orgID \<or>
      teamID \<noteq> [] \<and> al_scope r = ''team'' \<and> al_scope_id r = Some teamID)"

definition ListAliases :: "bool \<Rightarrow> id \<Rightarrow> id \<Rightarrow> alias_db \<Rightarrow> sql_error + (alias_row \<times> string) list" where
  "ListAliases fails teamID orgID db =
     (if fails then Inl SqlDown
      else Inr (sort_key (\<lambda>x. al_scope (fst x)) (sort_key (\<lambda>x. al_alias (fst x))
        (concat (map (\<lambda>r. map (\<lambda>m. (r, md_name m)) (filter (\<lambda>m. md_id m = al_model r) (snd db)))
          (filter (visible_alias teamID orgID) (fst db)))))))"

subsection \<open>Keys\<close>

definition alias_scopes :: "string set" where "alias_scopes = {''team'', ''org'', ''global''}"

definition plain_id :: "id \<Rightarrow> bool" where "plain_id i \<longleftrightarrow> CHR '':'' \<notin> set i"

text \<open>The scopes with the identifiers the resolver looks them up with.\<close>

definition alias_slot :: "string \<Rightarrow> id \<Rightarrow> bool" where
  "alias_slot scope i \<longleftrightarrow> scope \<in> alias_scopes \<and> plain_id i \<and> (scope = ''global'' \<longrightarrow> i = [])"

lemma append_sep_inj:
  "x \<notin> set a \<Longrightarrow> x \<notin> set b \<Longrightarrow> a @ x # c = b @ x # d \<longleftrightarrow> a = b \<and> c = d"
proof (induction a arbitrary: b)
  case Nil then show ?case by (cases b) auto
next
  case (Cons y a) then show ?case by (cases b) auto
qed

lemma alias_key_inj:
  assumes "alias_slot scope i" "alias_slot scope' i'"
  shows "alias_key scope i a = alias_key scope' i' a' \<longleftrightarrow> scope = scope' \<and> i = i' \<and> a = a'"
proof -
  have "\<forall>sc\<in>alias_scopes. CHR '':'' \<notin> set sc" by (simp add: alias_scopes_def)
  then have "CHR '':'' \<notin> set scope" "CHR '':'' \<notin> set scope'" using assms unfolding alias_slot_def by blast+
  moreover have "CHR '':'' \<notin> set i" "CHR '':'' \<notin> set i'" using assms unfolding alias_slot_def plain_id_def by blast+
  ultimately show ?thesis by (simp add: alias_key_def append_sep_inj)
qed

subsection \<open>A coherent cache\<close>

text \<open>Every alias the cache knows is what the tables say.\<close>

definition coherent :: "(string list \<Rightarrow> string) \<Rightarrow> int \<Rightarrow> alias_db \<Rightarrow> policy_redis \<Rightarrow> bool" where
  "coherent pick now db r \<longleftrightarrow>
     (\<forall>scope i name v. alias_slot scope i \<longrightarrow> GET now (alias_key scope i name) r = Some v \<longrightarrow>
        alias_query False pick scope i name db = Inr v)"

lemma coherentD:
  "coherent pick now db r \<Longrightarrow> alias_slot scope i \<Longrightarrow> GET now (alias_key scope i name) r = Some v \<Longrightarrow>
     alias_query False pick scope i name db = Inr v"
  unfolding coherent_def by blast

lemma coherent_set:
  assumes "coherent pick now db r" "alias_query False pick scope i name db = Inr v" "alias_slot scope i"
  shows "coherent pick now db (snd (writing n (SET_EX now (alias_key scope i name) v aliasCacheTTL) r))"
proof -
  have "coherent pick now db (SET_EX now (alias_key scope i name) v aliasCacheTTL r)"
    unfolding coherent_def
  proof (intro allI impI)
    fix sc j a w
    assume *: "alias_slot sc j"
      and g: "GET now (alias_key sc j a) (SET_EX now (alias_key scope i name) v aliasCacheTTL r) = Some w"
    show "alias_query False pick sc j a db = Inr w"
    proof (cases "alias_key sc j a = alias_key scope i name")
      case True
      with g have "w = v" by (simp add: GET_SET_EX split: if_splits)
      with True assms * show ?thesis by (simp add: alias_key_inj)
    next
      case False with g have "GET now (alias_key sc j a) r = Some w" by (simp add: GET_SET_EX)
      then show ?thesis using assms(1) * coherentD by blast
    qed
  qed
  with assms(1) show ?thesis by (simp add: writing_def)
qed

lemma lookup_coherent:
  assumes "coherent pick now db r" "alias_slot scope i" "\<not> flt scope"
  shows "fst (lookup nw flt pick now scope i name db r) = alias_query False pick scope i name db"
    and "coherent pick now db (snd (lookup nw flt pick now scope i name db r))"
proof -
  let ?g = "reading (nw (''get:'' @ scope)) None (GET now (alias_key scope i name) r)"
  have hit: "?g = Some v \<Longrightarrow> alias_query False pick scope i name db = Inr v" for v
    using coherentD [OF assms(1,2)] by (simp add: reading_def split: if_splits)
  show "fst (lookup nw flt pick now scope i name db r) = alias_query False pick scope i name db"
    using hit assms(3) by (auto simp: lookup_def Let_def split: option.split sum.split)
  show "coherent pick now db (snd (lookup nw flt pick now scope i name db r))"
    using assms coherent_set by (auto simp: lookup_def Let_def split: option.split sum.split)
qed

definition alias_spec :: "(string list \<Rightarrow> string) \<Rightarrow> string \<Rightarrow> id \<Rightarrow> id \<Rightarrow> alias_db \<Rightarrow> string" where
  "alias_spec pick name teamID orgID db =
     (case alias_query False pick ''team'' teamID name db of Inr m \<Rightarrow> m
      | Inl _ \<Rightarrow> (case alias_query False pick ''org'' orgID name db of Inr m \<Rightarrow> m
      | Inl _ \<Rightarrow> (case alias_query False pick ''global'' [] name db of Inr m \<Rightarrow> m | Inl _ \<Rightarrow> name)))"

text \<open>The rows a lookup sees are the same after a change of another alias.\<close>

lemma names_after_insert:
  assumes "insert_alias fails name modelID scope scopeID db = Inr db'" and "\<not> (scope = ''global'' \<and> scopeID \<noteq> [])"
    and "(sc, i, a) \<noteq> (scope, scopeID, name)" and "alias_slot sc i"
  shows "alias_names sc i a db' = alias_names sc i a db"
proof -
  let ?sid = "nullableID scopeID"
  have miss: "\<not> alias_matches sc i a r" if "same_alias name scope ?sid r" for r
    using that assms(2-4) by (auto simp: alias_slot_def same_alias_def alias_matches_def nullableID_def split: if_splits)
  define f where "f = (\<lambda>r. if same_alias name scope ?sid r then r\<lparr>al_model := modelID\<rparr> else r)"
  have up: "filter (alias_matches sc i a) (map f rs) = filter (alias_matches sc i a) rs" for rs
  proof (induction rs)
    case (Cons r rs)
    have "alias_matches sc i a (r\<lparr>al_model := modelID\<rparr>) = alias_matches sc i a r" by (simp add: alias_matches_def)
    then show ?case using miss Cons.IH by (auto simp: f_def)
  qed simp
  have new: "\<not> alias_matches sc i a \<lparr>al_alias = name, al_model = modelID, al_scope = scope, al_scope_id = ?sid, al_enabled = True\<rparr>"
    by (rule miss) (simp add: same_alias_def)
  show ?thesis
    using assms(1) new up unfolding f_def
    by (auto simp: insert_alias_def Let_def alias_names_def split: if_splits)
qed

lemma names_after_delete:
  assumes "\<not> (scope = ''global'' \<and> scopeID \<noteq> [])" and "(sc, i, a) \<noteq> (scope, scopeID, name)" and "alias_slot sc i"
  shows "alias_names sc i a (filter (\<lambda>r. \<not> same_alias name scope (nullableID scopeID) r) rs, ms) = alias_names sc i a (rs, ms)"
proof -
  have "\<not> alias_matches sc i a r" if "same_alias name scope (nullableID scopeID) r" for r
    using that assms by (auto simp: alias_slot_def same_alias_def alias_matches_def nullableID_def split: if_splits)
  then have "filter (alias_matches sc i a) (filter (\<lambda>r. \<not> same_alias name scope (nullableID scopeID) r) rs) =
      filter (alias_matches sc i a) rs"
    by (induction rs) auto
  then show ?thesis by (simp add: alias_names_def)
qed

lemma coherent_after_change:
  assumes "coherent pick now db r" and "n \<noteq> Lost" and "alias_slot scope scopeID"
    and same: "\<And>sc i a. (sc, i, a) \<noteq> (scope, scopeID, name) \<Longrightarrow> alias_slot sc i \<Longrightarrow> alias_names sc i a db' = alias_names sc i a db"
  shows "coherent pick now db' (invalidate n name scope scopeID r)"
  unfolding coherent_def
proof (intro allI impI)
  fix sc i a v
  assume slot: "alias_slot sc i" and g: "GET now (alias_key sc i a) (invalidate n name scope scopeID r) = Some v"
  from g assms(2) have "alias_key sc i a \<noteq> alias_key scope scopeID name" and h: "GET now (alias_key sc i a) r = Some v"
    by (auto simp: invalidate_def writing_def GET_DEL split: if_splits)
  then have "(sc, i, a) \<noteq> (scope, scopeID, name)" by auto
  with same slot have "alias_names sc i a db' = alias_names sc i a db" by blast
  then have "alias_query False pick sc i a db' = alias_query False pick sc i a db" by (simp only: alias_query_def)
  then show "alias_query False pick sc i a db' = Inr v" using coherentD [OF assms(1) slot h] by simp
qed

subsection \<open>Bounded staleness\<close>

text \<open>
  The history of the resolver: the tables change in any way, lookups run, keys are deleted or the
  deletion is lost, and time passes. \<open>h\<close> records the tables at the times they were in force.
\<close>

inductive alias_run :: "(string list \<Rightarrow> string) \<Rightarrow> (int \<times> alias_db) list \<Rightarrow> int \<Rightarrow> alias_db \<Rightarrow> policy_redis \<Rightarrow> bool"
  for pick where
  start: "(\<And>t' k. GET t' k r = None) \<Longrightarrow> alias_run pick [(t, db)] t db r"
| time_passes: "alias_run pick h t db r \<Longrightarrow> t \<le> t' \<Longrightarrow> alias_run pick ((t', db) # h) t' db r"
| tables_change: "alias_run pick h t db r \<Longrightarrow> alias_run pick ((t, db') # h) t db' r"
| looked_up: "alias_run pick h t db r \<Longrightarrow> alias_slot scope i \<Longrightarrow>
     alias_run pick h t db (snd (lookup nw flt pick t scope i name db r))"
| invalidated: "alias_run pick h t db r \<Longrightarrow> alias_run pick h t db (invalidate n name scope i r)"

text \<open>What the tables answered at the recorded times, by the keys of the cache.\<close>

definition answers :: "(string list \<Rightarrow> string) \<Rightarrow> (int \<times> alias_db) list \<Rightarrow> (int \<times> string \<times> string) set" where
  "answers pick h = {(u, alias_key scope i name, v) | u scope i name v db.
     (u, db) \<in> set h \<and> alias_slot scope i \<and> alias_query False pick scope i name db = Inr v}"

lemma answers_mono: "set h \<subseteq> set h' \<Longrightarrow> answers pick h \<subseteq> answers pick h'"
  unfolding answers_def by blast

lemma alias_query_ok: "alias_query fails pick scope i name db = Inr v \<Longrightarrow> alias_query False pick scope i name db = Inr v"
  by (auto simp: alias_query_def split: if_splits)

lemma fresh_lookup:
  assumes "redis_cache.fresh (answers pick h) t r" "(t, db) \<in> set h" "alias_slot scope i"
  shows "redis_cache.fresh (answers pick h) t (snd (lookup nw flt pick t scope i name db r))"
proof -
  have "redis_cache.fresh (answers pick h) t (snd (writing n (SET_EX t (alias_key scope i name) v aliasCacheTTL) r))"
    if "alias_query (flt scope) pick scope i name db = Inr v" for v n
  proof -
    have "(t, alias_key scope i name, v) \<in> answers pick h"
      using assms(2,3) alias_query_ok [OF that] unfolding answers_def by blast
    with assms(1) show ?thesis by (auto simp: writing_def intro: redis_cache.fresh_put)
  qed
  then show ?thesis using assms(1) by (auto simp: lookup_def Let_def split: option.split sum.split)
qed

lemma alias_run_fresh:
  "alias_run pick h t db r \<Longrightarrow> redis_cache.fresh (answers pick h) t r \<and> (t, db) \<in> set h"
proof (induction rule: alias_run.induct)
  case (start r t db) then show ?case by (simp add: redis_cache.fresh_def)
next
  case (time_passes h t db r t')
  then show ?case using redis_cache.fresh_later [of "answers pick h" t r t' "answers pick ((t', db) # h)"] answers_mono
    by (auto simp: subset_insertI)
next
  case (tables_change h t db r db')
  then show ?case using redis_cache.fresh_later [of "answers pick h" t r t "answers pick ((t, db') # h)"] answers_mono
    by (auto simp: subset_insertI)
next
  case (looked_up h t db r scope i nw flt name) then show ?case using fresh_lookup by blast
next
  case (invalidated h t db r n name scope i)
  then show ?case by (auto simp: invalidate_def writing_def intro: redis_cache.fresh_del)
qed

subsection \<open>Properties\<close>

text \<open>
  With a cache that agrees with the tables, a name resolves to the alias of the team, else of the
  organisation, else the global one, else to itself, and the cache still agrees afterwards, whatever the
  network does to the commands.
\<close>

theorem resolve_follows_scopes:
  assumes "coherent pick now db r" and "plain_id team" and "plain_id org" and "\<not> flt ''team''" "\<not> flt ''org''" "\<not> flt ''global''"
  shows "fst (Resolve nw flt pick now name team org db r) = alias_spec pick name team org db \<and>
    coherent pick now db (snd (Resolve nw flt pick now name team org db r))"
proof -
  have slots: "alias_slot ''team'' team" "alias_slot ''org'' org" "alias_slot ''global'' []"
    using assms(2,3) by (simp_all add: alias_slot_def alias_scopes_def plain_id_def)
  obtain x1 r1 where 1: "lookup nw flt pick now ''team'' team name db r = (x1, r1)" by fastforce
  obtain x2 r2 where 2: "lookup nw flt pick now ''org'' org name db r1 = (x2, r2)" by fastforce
  obtain x3 r3 where 3: "lookup nw flt pick now ''global'' [] name db r2 = (x3, r3)" by fastforce
  note l1 = lookup_coherent [where flt = flt and scope = "''team''" and nw = nw and name = name, OF assms(1) slots(1) assms(4), unfolded 1, simplified]
  note l2 = lookup_coherent [where flt = flt and scope = "''org''" and nw = nw and name = name, OF l1(2) slots(2) assms(5), unfolded 2, simplified]
  note l3 = lookup_coherent [where flt = flt and scope = "''global''" and nw = nw and name = name, OF l2(2) slots(3) assms(6), unfolded 3, simplified]
  show ?thesis
    using l1 l2 l3 by (simp add: Resolve_def alias_spec_def 1 2 3 split: sum.split)
qed

text \<open>
  A change that was acknowledged is visible at once. After an alias is created or deleted, and
  its key is deleted from Redis, the cache agrees with the new tables. A global alias is meant to
  have no identifier.
\<close>

theorem alias_change_is_visible:
  assumes "coherent pick now db r" and "n \<noteq> Lost" and "alias_slot scope scopeID"
  shows "(let (ok, db', r') = CreateAlias flt n name modelID scope scopeID (db, r) in coherent pick now db' r') \<and>
    (let (ok, db', r') = DeleteAlias flt n name scope scopeID (db, r) in coherent pick now db' r')"
proof -
  have g: "\<not> (scope = ''global'' \<and> scopeID \<noteq> [])" using assms(3) by (simp add: alias_slot_def)
  have del: "coherent pick now (filter (\<lambda>r. \<not> same_alias name scope (nullableID scopeID) r) (fst db), snd db)
      (invalidate n name scope scopeID r)"
    using names_after_delete [OF g, where rs = "fst db" and ms = "snd db"]
    by (intro coherent_after_change [OF assms]) simp
  have same: "coherent pick now db (invalidate n name scope scopeID r)" by (rule coherent_after_change [OF assms]) simp
  have "coherent pick now db' (invalidate n name scope scopeID r)"
    if "insert_alias (flt ''insert'') name modelID scope scopeID db = Inr db'" for db'
    using names_after_insert [OF that g] by (intro coherent_after_change [OF assms]) simp
  then show ?thesis
    using assms(1) del same by (auto simp: CreateAlias_def DeleteAlias_def Let_def split: sum.split)
qed

text \<open>
  A stale alias lives for at most five minutes. Whatever happened to the tables and whichever
  invalidations were lost, a name that a lookup returns is one the tables gave for that alias less than
  five minutes before.
\<close>

theorem alias_staleness_bounded:
  assumes "alias_run pick h t db r" and "alias_slot scope i" and "fst (lookup nw flt pick t scope i name db r) = Inr v"
  shows "\<exists>(u, d)\<in>set h. t - u < 300000 \<and> alias_query False pick scope i name d = Inr v"
proof (cases "reading (nw (''get:'' @ scope)) None (GET t (alias_key scope i name) r)")
  case (Some c)
  with assms(3) have "GET t (alias_key scope i name) r = Some v"
    by (simp add: lookup_def Let_def reading_def split: if_splits)
  then obtain u where "(u, alias_key scope i name, v) \<in> answers pick h" and u: "t < u + aliasCacheTTL * 1000"
    using redis_cache.fresh_get alias_run_fresh [OF assms(1)] by blast
  then obtain sc j a d where "(u, d) \<in> set h" "alias_slot sc j" "alias_key scope i name = alias_key sc j a"
      "alias_query False pick sc j a d = Inr v"
    unfolding answers_def by blast
  then have "(u, d) \<in> set h" "alias_query False pick scope i name d = Inr v" using assms(2) alias_key_inj by metis+
  then show ?thesis using u by (auto simp: aliasCacheTTL_def intro!: bexI [of _ "(u, d)"])
next
  case None
  with assms(3) have "alias_query False pick scope i name db = Inr v"
    by (auto simp: lookup_def Let_def intro: alias_query_ok split: sum.splits)
  then show ?thesis using alias_run_fresh [OF assms(1)] by (auto intro!: bexI [of _ "(t, db)"])
qed

text \<open>
  Creating a global alias that exists does not replace it. The identifier is stored as NULL, on
  which the unique constraint never conflicts, so a row is added; the old row stays, and a lookup
  that reads the rows in the order of their creation keeps giving the old model.
\<close>

theorem global_alias_not_replaced:
  assumes "CreateAlias flt n name modelID ''global'' [] (db, r) = (True, db', r')"
    and "alias_names ''global'' [] name db \<noteq> []"
  shows "length (fst db') = Suc (length (fst db)) \<and>
    alias_query False hd ''global'' [] name db' = alias_query False hd ''global'' [] name db"
proof -
  have db': "db' = (fst db @ [\<lparr>al_alias = name, al_model = modelID, al_scope = ''global'', al_scope_id = None, al_enabled = True\<rparr>], snd db)"
    using assms(1) by (auto simp: CreateAlias_def insert_alias_def nullableID_def split: sum.splits if_splits)
  then obtain xs where "alias_names ''global'' [] name db' = alias_names ''global'' [] name db @ xs"
    by (simp add: alias_names_def)
  with assms(2) db' show ?thesis by (simp add: alias_query_def)
qed

subsection \<open>Examples\<close>

definition alias_redis :: policy_redis where
  "alias_redis = \<lparr>r_cnt = (\<lambda>_. None), r_str = (\<lambda>_. None), r_zset = (\<lambda>_. None), r_set = (\<lambda>_. []), r_hash = (\<lambda>_. None), r_grants = (\<lambda>_. None)\<rparr>"

definition alias_tables :: alias_db where
  "alias_tables =
     ([\<lparr>al_alias = ''fast'', al_model = ''1'', al_scope = ''global'', al_scope_id = None, al_enabled = True\<rparr>,
       \<lparr>al_alias = ''fast'', al_model = ''2'', al_scope = ''team'', al_scope_id = Some ''t'', al_enabled = True\<rparr>],
      [\<lparr>md_id = ''1'', md_name = ''llama'', md_enabled = True, md_lifecycle = None, md_created = 0\<rparr>,
       \<lparr>md_id = ''2'', md_name = ''qwen'', md_enabled = True, md_lifecycle = None, md_created = 0\<rparr>])"

lemma alias_redis_empty [simp]: "GET t k alias_redis = None"
  by (simp add: GET_def alias_redis_def)

theorem resolve_follows_scopes_witness:
  "fst (Resolve (\<lambda>_. Fine) (\<lambda>_. False) hd 0 ''fast'' ''t'' ''o'' alias_tables alias_redis) = ''qwen''"
proof -
  have "coherent hd 0 alias_tables alias_redis" by (simp add: coherent_def)
  moreover have "alias_spec hd ''fast'' ''t'' ''o'' alias_tables = ''qwen''" by code_simp
  ultimately show ?thesis
    using resolve_follows_scopes [of hd 0 alias_tables alias_redis "''t''" "''o''" "\<lambda>_. False" "\<lambda>_. Fine" "''fast''"]
    by (simp add: plain_id_def)
qed

theorem alias_change_is_visible_witness:
  "(let (ok, db', r') = CreateAlias (\<lambda>_. False) Fine ''fast'' ''1'' ''team'' ''t'' (alias_tables, alias_redis) in coherent hd 0 db' r')"
proof -
  have "coherent hd 0 alias_tables alias_redis" "alias_slot ''team'' ''t''"
    by (simp_all add: coherent_def alias_slot_def alias_scopes_def plain_id_def)
  from alias_change_is_visible [OF this(1) _ this(2), of Fine "\<lambda>_. False" "''fast''" "''1''"] show ?thesis by simp
qed

theorem alias_staleness_bounded_witness:
  "\<exists>(u, d)\<in>set [(0 :: int, alias_tables)]. 0 - u < 300000 \<and> alias_query False hd ''team'' ''t'' ''fast'' d = Inr ''qwen''"
proof (rule alias_staleness_bounded)
  show "alias_run hd [(0, alias_tables)] 0 alias_tables alias_redis" by (rule alias_run.start) simp
  show "alias_slot ''team'' ''t''" by (simp add: alias_slot_def alias_scopes_def plain_id_def)
  have "alias_query False hd ''team'' ''t'' ''fast'' alias_tables = Inr ''qwen''" by code_simp
  then show "fst (lookup (\<lambda>_. Fine) (\<lambda>_. False) hd 0 ''team'' ''t'' ''fast'' alias_tables alias_redis) = Inr ''qwen''"
    by (simp add: lookup_def reading_def)
qed

theorem global_alias_not_replaced_witness:
  "alias_query False hd ''global'' [] ''fast''
     (fst (snd (CreateAlias (\<lambda>_. False) Fine ''fast'' ''2'' ''global'' [] (alias_tables, alias_redis)))) = Inr ''llama''"
proof -
  obtain db' r' where c: "CreateAlias (\<lambda>_. False) Fine ''fast'' ''2'' ''global'' [] (alias_tables, alias_redis) = (True, db', r')"
    by (simp add: CreateAlias_def insert_alias_def alias_tables_def nullableID_def)
  have "alias_names ''global'' [] ''fast'' alias_tables \<noteq> []"
    and "alias_query False hd ''global'' [] ''fast'' alias_tables = Inr ''llama''" by code_simp+
  with global_alias_not_replaced [OF c] c show ?thesis by simp
qed

end
