(* ===== verification/Provider_Credentials.thy ===== *)
theory Provider_Credentials
  imports Access_Control
begin

text \<open>
  \<open>internal/catalog/credential.go\<close>, \<open>credential_resolver.go\<close> and \<open>internal/admin/handlers/credential.go\<close>: the pool
  of credentials of a provider, the handlers that change it, and the selection of the credential for a
  request. The grants that pin a project to a credential are those of \<open>Access_Control\<close>, whose
  handlers run here on the view \<open>perm_view\<close> of the pool.

  Encryption is the argument \<open>enc\<close>, decryption \<open>dec\<close>; each is \<open>None\<close> when the server has no key, and a
  call may fail.
\<close>

subsection \<open>Tables\<close>

record credential_row =
  cr_id :: id
  cr_provider :: id
  cr_name :: string
  cr_ciphertext :: string
  cr_header :: "string option"
  cr_default :: bool
  cr_enabled :: bool
  cr_last_used :: "int option"

record provider_conn =
  pc_id :: id
  pc_backend :: string
  pc_base_url :: string
  pc_api_key :: string
  pc_header :: "string option"

record cred_db =
  cd_perm :: perm_db
  cd_creds :: "credential_row list"
  cd_conns :: "provider_conn list"

definition perm_view :: "cred_db \<Rightarrow> perm_db" where
  "perm_view db = (cd_perm db)\<lparr>provider_credentials := map (\<lambda>c. (cr_id c, cr_provider c)) (cd_creds db)\<rparr>"

definition credential_by_id :: "id \<Rightarrow> cred_db \<Rightarrow> credential_row option" where
  "credential_by_id i db = find (\<lambda>c. cr_id c = i) (cd_creds db)"

definition conn_by_id :: "id \<Rightarrow> cred_db \<Rightarrow> provider_conn option" where
  "conn_by_id i db = find (\<lambda>p. pc_id p = i) (cd_conns db)"

text \<open>At most one credential of a provider has a name, and at most one is its default.\<close>

definition clashes :: "credential_row \<Rightarrow> credential_row \<Rightarrow> bool" where
  "clashes c d \<longleftrightarrow> cr_id c = cr_id d \<or> cr_provider c = cr_provider d \<and> (cr_name c = cr_name d \<or> cr_default c \<and> cr_default d)"

subsection \<open>The pool\<close>

definition clear_default :: "id \<Rightarrow> credential_row list \<Rightarrow> credential_row list" where
  "clear_default providerID = map (\<lambda>c. if cr_provider c = providerID \<and> cr_default c then c\<lparr>cr_default := False\<rparr> else c)"

definition insert_credential :: "faults \<Rightarrow> credential_row \<Rightarrow> cred_db \<Rightarrow> sql_error + cred_db" where
  "insert_credential flt c db =
     (if flt ''begin'' \<or> cr_default c \<and> flt ''clear'' \<or> flt ''insert'' \<or> flt ''commit'' then Inl SqlDown
      else
        (let cs = (if cr_default c then clear_default (cr_provider c) (cd_creds db) else cd_creds db) in
         if conn_by_id (cr_provider c) db = None then Inl SqlForeignKey
         else if list_ex (clashes c) cs then Inl SqlDuplicateKey
         else Inr (db\<lparr>cd_creds := cs @ [c]\<rparr>)))"

definition CredentialStore_Create ::
    "faults \<Rightarrow> id \<Rightarrow> id \<Rightarrow> string \<Rightarrow> string \<Rightarrow> string option \<Rightarrow> bool \<Rightarrow> cred_db \<Rightarrow> (sql_error + credential_row) \<times> cred_db" where
  "CredentialStore_Create flt newID providerID name ciphertext header isDefault db =
     (let c = \<lparr>cr_id = newID, cr_provider = providerID, cr_name = name, cr_ciphertext = ciphertext, cr_header = header,
               cr_default = isDefault, cr_enabled = True, cr_last_used = None\<rparr> in
      case insert_credential flt c db of
        Inl e \<Rightarrow> (Inl e, db)
      | Inr db' \<Rightarrow> (if flt ''get'' then Inl SqlDown else Inr c, db'))"

definition CreateProviderCredential ::
    "faults \<Rightarrow> (string \<Rightarrow> string option) option \<Rightarrow> id \<Rightarrow> string \<Rightarrow> string \<Rightarrow> string \<Rightarrow> string option \<Rightarrow> bool \<Rightarrow>
     cred_db \<Rightarrow> int \<times> cred_db" where
  "CreateProviderCredential flt enc newID providerID name secret header isDefault db =
     (if name = [] \<or> secret = [] then (400, db)
      else if flt ''provider'' \<or> provider_by_id_or_name providerID (cd_perm db) = None then (400, db)
      else case enc of
        None \<Rightarrow> (500, db)
      | Some f \<Rightarrow>
          (case f secret of
             None \<Rightarrow> (500, db)
           | Some ciphertext \<Rightarrow>
               (case CredentialStore_Create flt newID providerID name ciphertext header isDefault db of
                  (Inl _, db') \<Rightarrow> (500, db')
                | (Inr _, db') \<Rightarrow> (201, db'))))"

definition SetEnabled :: "bool \<Rightarrow> id \<Rightarrow> bool \<Rightarrow> cred_db \<Rightarrow> bool \<times> cred_db" where
  "SetEnabled fails i enabled db =
     (if fails then (False, db)
      else (True, db\<lparr>cd_creds := map (\<lambda>c. if cr_id c = i then c\<lparr>cr_enabled := enabled\<rparr> else c) (cd_creds db)\<rparr>))"

definition setDefaultCredential :: "faults \<Rightarrow> id \<Rightarrow> id \<Rightarrow> cred_db \<Rightarrow> bool \<times> cred_db" where
  "setDefaultCredential flt providerID i db =
     (if flt ''begin'' \<or> flt ''clear'' \<or> flt ''default'' \<or> flt ''commit'' then (False, db)
      else (True, db\<lparr>cd_creds := map (\<lambda>c. if cr_id c = i then c\<lparr>cr_default := True\<rparr> else c)
                       (clear_default providerID (cd_creds db))\<rparr>))"

definition credential_of_provider :: "faults \<Rightarrow> id \<Rightarrow> id \<Rightarrow> cred_db \<Rightarrow> credential_row option" where
  "credential_of_provider flt providerID i db =
     (if flt ''get'' then None
      else case credential_by_id i db of
        None \<Rightarrow> None
      | Some c \<Rightarrow> if cr_provider c = providerID then Some c else None)"

definition UpdateProviderCredential ::
    "faults \<Rightarrow> id \<Rightarrow> id \<Rightarrow> bool option \<Rightarrow> bool option \<Rightarrow> cred_db \<Rightarrow> int \<times> cred_db" where
  "UpdateProviderCredential flt providerID i enabled isDefault db =
     (case credential_of_provider flt providerID i db of
        None \<Rightarrow> (404, db)
      | Some _ \<Rightarrow>
          (case (case enabled of None \<Rightarrow> (True, db) | Some e \<Rightarrow> SetEnabled (flt ''enable'') i e db) of
             (False, db1) \<Rightarrow> (500, db1)
           | (True, db1) \<Rightarrow>
               (case (if isDefault = Some True then setDefaultCredential flt providerID i db1 else (True, db1)) of
                  (False, db2) \<Rightarrow> (500, db2)
                | (True, db2) \<Rightarrow> (if flt ''reread'' then 500 else 200, db2))))"

text \<open>The foreign key of the grants is \<open>ON DELETE SET NULL\<close>.\<close>

definition unpin :: "id \<Rightarrow> perm_db \<Rightarrow> perm_db" where
  "unpin i db = db\<lparr>project_provider_access :=
     map (\<lambda>a. if ppa_credential a = Some i then a\<lparr>ppa_credential := None\<rparr> else a) (project_provider_access db)\<rparr>"

definition DeleteProviderCredential :: "faults \<Rightarrow> id \<Rightarrow> id \<Rightarrow> cred_db \<Rightarrow> int \<times> cred_db" where
  "DeleteProviderCredential flt providerID i db =
     (case credential_of_provider flt providerID i db of
        None \<Rightarrow> (404, db)
      | Some _ \<Rightarrow>
          if flt ''delete'' then (500, db)
          else (200, db\<lparr>cd_creds := filter (\<lambda>c. cr_id c \<noteq> i) (cd_creds db), cd_perm := unpin i (cd_perm db)\<rparr>))"

text \<open>A handler of the grants, run on the tables with the pool.\<close>

definition on_grants :: "(perm_db \<Rightarrow> int \<times> perm_db) \<Rightarrow> cred_db \<Rightarrow> int \<times> cred_db" where
  "on_grants f db = (let (status, p) = f (perm_view db) in (status, db\<lparr>cd_perm := p\<rparr>))"

subsection \<open>Selection\<close>

datatype CredentialSource = SourceProjectPinned | SourceProviderDefault | SourceLegacyProviderKey

record ResolvedCredential =
  rc_id :: id
  rc_name :: string
  rc_secret :: string
  rc_header :: string
  rc_source :: CredentialSource

datatype cred_error = ErrCredentialUnavailable | CredFailed string

type_synonym cred_result = "(cred_error + ResolvedCredential) \<times> cred_db"

definition touchLastUsed :: "bool \<Rightarrow> int \<Rightarrow> id \<Rightarrow> cred_db \<Rightarrow> cred_db" where
  "touchLastUsed fails now i db =
     (if fails then db
      else db\<lparr>cd_creds := map (\<lambda>c. if cr_id c = i then c\<lparr>cr_last_used := Some now\<rparr> else c) (cd_creds db)\<rparr>)"

definition header_of :: "credential_row \<Rightarrow> provider_conn \<Rightarrow> string" where
  "header_of c p =
     (case cr_header c of
        Some h \<Rightarrow> if h \<noteq> [] then h else (case pc_header p of None \<Rightarrow> ''Authorization'' | Some h \<Rightarrow> h)
      | None \<Rightarrow> (case pc_header p of None \<Rightarrow> ''Authorization'' | Some h \<Rightarrow> h))"

definition loadByID ::
    "faults \<Rightarrow> (string \<Rightarrow> string option) option \<Rightarrow> int \<Rightarrow> id \<Rightarrow> CredentialSource \<Rightarrow> cred_db \<Rightarrow> cred_result" where
  "loadByID flt dec now i source db =
     (if flt ''load'' then (Inl (CredFailed ''loading credential''), db)
      else case credential_by_id i db of
        None \<Rightarrow> (Inl ErrCredentialUnavailable, db)
      | Some c \<Rightarrow>
          (case conn_by_id (cr_provider c) db of
             None \<Rightarrow> (Inl ErrCredentialUnavailable, db)
           | Some p \<Rightarrow>
               if \<not> cr_enabled c then (Inl ErrCredentialUnavailable, db)
               else case dec of
                 None \<Rightarrow> (Inl (CredFailed ''no secret store configured''), db)
               | Some f \<Rightarrow>
                   (case f (cr_ciphertext c) of
                      None \<Rightarrow> (Inl (CredFailed ''decrypting credential''), db)
                    | Some secret \<Rightarrow>
                        (Inr \<lparr>rc_id = i, rc_name = cr_name c, rc_secret = secret, rc_header = header_of c p, rc_source = source\<rparr>,
                         touchLastUsed (flt ''touch'') now i db))))"

definition pinned_credential :: "id \<Rightarrow> id \<Rightarrow> cred_db \<Rightarrow> id option" where
  "pinned_credential providerID projectID db =
     (case find (\<lambda>a. ppa_project a = projectID \<and> ppa_provider a = providerID \<and> ppa_enabled a)
             (project_provider_access (cd_perm db)) of
        None \<Rightarrow> None
      | Some a \<Rightarrow> (case ppa_credential a of None \<Rightarrow> None | Some c \<Rightarrow> if c = [] then None else Some c))"

definition default_credential :: "id \<Rightarrow> cred_db \<Rightarrow> id option" where
  "default_credential providerID db =
     map_option cr_id (find (\<lambda>c. cr_provider c = providerID \<and> cr_default c \<and> cr_enabled c) (cd_creds db))"

definition legacy_key :: "faults \<Rightarrow> id \<Rightarrow> cred_db \<Rightarrow> cred_error + ResolvedCredential" where
  "legacy_key flt providerID db =
     (if flt ''legacy'' then Inl (CredFailed ''loading legacy provider key'')
      else case conn_by_id providerID db of
        None \<Rightarrow> Inl (CredFailed ''loading legacy provider key'')
      | Some p \<Rightarrow>
          if pc_api_key p = [] then Inl ErrCredentialUnavailable
          else Inr \<lparr>rc_id = [], rc_name = [], rc_secret = pc_api_key p,
                    rc_header = (case pc_header p of None \<Rightarrow> ''Authorization'' | Some h \<Rightarrow> h),
                    rc_source = SourceLegacyProviderKey\<rparr>)"

definition provider_fallback ::
    "faults \<Rightarrow> (string \<Rightarrow> string option) option \<Rightarrow> int \<Rightarrow> id \<Rightarrow> cred_db \<Rightarrow> cred_result" where
  "provider_fallback flt dec now providerID db =
     (if flt ''default'' then (Inl (CredFailed ''loading provider default''), db)
      else case default_credential providerID db of
        Some i \<Rightarrow> loadByID flt dec now i SourceProviderDefault db
      | None \<Rightarrow>
          if flt ''count'' then (Inl (CredFailed ''counting provider credentials''), db)
          else if filter (\<lambda>c. cr_provider c = providerID) (cd_creds db) = [] then (legacy_key flt providerID db, db)
          else (Inl ErrCredentialUnavailable, db))"

definition resolve_credential ::
    "faults \<Rightarrow> (string \<Rightarrow> string option) option \<Rightarrow> int \<Rightarrow> id \<Rightarrow> id \<Rightarrow> cred_db \<Rightarrow> cred_result" where
  "resolve_credential flt dec now providerID projectID db =
     (if projectID \<noteq> [] then
        (if flt ''grant'' then (Inl (CredFailed ''loading project grant''), db)
         else case pinned_credential providerID projectID db of
           Some i \<Rightarrow> loadByID flt dec now i SourceProjectPinned db
         | None \<Rightarrow> provider_fallback flt dec now providerID db)
      else provider_fallback flt dec now providerID db)"

subsection \<open>The invariant of the pool\<close>

definition owners :: "cred_db \<Rightarrow> (id \<times> id) set" where
  "owners db = set (map (\<lambda>c. (cr_id c, cr_provider c)) (cd_creds db))"

definition pins_ok :: "(id \<times> id) set \<Rightarrow> ProjectProviderAccess list \<Rightarrow> bool" where
  "pins_ok own gs \<longleftrightarrow> (\<forall>a\<in>set gs. \<forall>c. ppa_credential a = Some c \<longrightarrow> (c, ppa_provider a) \<in> own)"

definition one_default :: "credential_row list \<Rightarrow> bool" where
  "one_default cs \<longleftrightarrow> (\<forall>c\<in>set cs. \<forall>d\<in>set cs. cr_provider c = cr_provider d \<and> cr_default c \<and> cr_default d \<longrightarrow> cr_id c = cr_id d)"

text \<open>
  Identifiers are unique, a provider has at most one default, and a grant is pinned to a credential
  of its own provider.
\<close>

definition cred_inv :: "cred_db \<Rightarrow> bool" where
  "cred_inv db \<longleftrightarrow> distinct (map cr_id (cd_creds db)) \<and> one_default (cd_creds db) \<and>
     pins_ok (owners db) (project_provider_access (cd_perm db))"

lemma find_id: "find (\<lambda>c. cr_id c = i) cs = Some c \<Longrightarrow> c \<in> set cs \<and> cr_id c = i"
  by (auto simp: find_Some_iff)

lemma update_rows_ids:
  assumes "\<And>c. cr_id (f c) = cr_id c" "\<And>c. cr_provider (f c) = cr_provider c"
  shows "map cr_id (map f cs) = map cr_id cs" "owners (db\<lparr>cd_creds := map f (cd_creds db)\<rparr>) = owners db"
  using assms by (simp_all add: owners_def comp_def)

lemma one_default_mono:
  assumes "one_default cs" "\<And>c. cr_id (f c) = cr_id c \<and> cr_provider (f c) = cr_provider c \<and> (cr_default (f c) \<longrightarrow> cr_default c)"
  shows "one_default (map f cs)"
  unfolding one_default_def
proof (intro ballI impI)
  fix x y assume "x \<in> set (map f cs)" "y \<in> set (map f cs)"
  then obtain c d where cd: "c \<in> set cs" "d \<in> set cs" "x = f c" "y = f d" by (metis (no_types) imageE set_map)
  assume "cr_provider x = cr_provider y \<and> cr_default x \<and> cr_default y"
  with cd assms(2) [of c] assms(2) [of d] have "cr_provider c = cr_provider d \<and> cr_default c \<and> cr_default d" by simp
  with assms(1) cd(1,2) have "cr_id c = cr_id d" unfolding one_default_def by blast
  with cd assms(2) show "cr_id x = cr_id y" by simp
qed

lemma cred_inv_rows:
  assumes "cred_inv db" "\<And>c. cr_id (f c) = cr_id c \<and> cr_provider (f c) = cr_provider c \<and> (cr_default (f c) \<longrightarrow> cr_default c)"
  shows "cred_inv (db\<lparr>cd_creds := map f (cd_creds db)\<rparr>)"
proof -
  have f: "\<And>c. cr_id (f c) = cr_id c" "\<And>c. cr_provider (f c) = cr_provider c" using assms(2) by blast+
  have "one_default (map f (cd_creds db))" using assms one_default_mono unfolding cred_inv_def by blast
  then show ?thesis
    using assms(1) f update_rows_ids(2) [OF f] by (simp add: cred_inv_def comp_def)
qed

lemma clear_default_mem:
  assumes "c \<in> set (clear_default p cs)"
  shows "\<exists>d\<in>set cs. cr_id c = cr_id d \<and> cr_provider c = cr_provider d \<and> cr_default c = (cr_default d \<and> cr_provider d \<noteq> p)"
proof -
  from assms have "c \<in> (\<lambda>d. if cr_provider d = p \<and> cr_default d then d\<lparr>cr_default := False\<rparr> else d) ` set cs"
    by (simp only: clear_default_def set_map)
  then obtain d where c: "c = (if cr_provider d = p \<and> cr_default d then d\<lparr>cr_default := False\<rparr> else d)" and d: "d \<in> set cs"
    by (rule imageE)
  show ?thesis by (rule bexI [OF _ d], simp add: c, blast)
qed

lemma clear_default_none: "c \<in> set (clear_default p cs) \<Longrightarrow> cr_provider c = p \<Longrightarrow> \<not> cr_default c"
  using clear_default_mem by metis

lemma cred_inv_clear: "cred_inv db \<Longrightarrow> cred_inv (db\<lparr>cd_creds := clear_default p (cd_creds db)\<rparr>)"
  unfolding clear_default_def by (rule cred_inv_rows) simp_all

lemma cred_inv_add:
  assumes "cred_inv db" "\<not> list_ex (clashes c) (cd_creds db)"
  shows "cred_inv (db\<lparr>cd_creds := cd_creds db @ [c]\<rparr>)"
proof -
  have n: "\<not> clashes c d" if "d \<in> set (cd_creds db)" for d using assms(2) that by (simp add: list_ex_iff)
  have "cr_id c \<notin> cr_id ` set (cd_creds db)" using n by (force simp: clashes_def)
  moreover have "one_default (cd_creds db @ [c])"
    unfolding one_default_def
  proof (intro ballI impI)
    fix x y assume "x \<in> set (cd_creds db @ [c])" "y \<in> set (cd_creds db @ [c])"
    moreover assume "cr_provider x = cr_provider y \<and> cr_default x \<and> cr_default y"
    moreover have "one_default (cd_creds db)" using assms(1) by (simp add: cred_inv_def)
    ultimately show "cr_id x = cr_id y"
      using n [of x] n [of y] unfolding one_default_def clashes_def set_append list.set Un_iff insert_iff empty_iff by metis
  qed
  moreover have "owners db \<subseteq> owners (db\<lparr>cd_creds := cd_creds db @ [c]\<rparr>)" by (auto simp: owners_def)
  ultimately show ?thesis using assms(1) by (auto simp: cred_inv_def pins_ok_def)
qed

lemma insert_credential_inv: "cred_inv db \<Longrightarrow> insert_credential flt c db = Inr db' \<Longrightarrow> cred_inv db'"
  using cred_inv_clear [of db "cr_provider c"] cred_inv_add [of "db\<lparr>cd_creds := clear_default (cr_provider c) (cd_creds db)\<rparr>" c]
    cred_inv_add [of db c]
  by (auto simp: insert_credential_def Let_def split: if_splits)

lemma create_inv:
  assumes "cred_inv db"
  shows "cred_inv (snd (CreateProviderCredential flt enc newID p name secret h d db))"
proof -
  have "cred_inv (snd (CredentialStore_Create flt newID p name ct h d db))" for ct
    using assms insert_credential_inv by (auto simp: CredentialStore_Create_def Let_def split: sum.split)
  then show ?thesis
    using assms by (auto simp: CreateProviderCredential_def split: option.splits prod.splits sum.splits) (metis snd_conv)+
qed

lemma SetEnabled_inv: "cred_inv db \<Longrightarrow> cred_inv (snd (SetEnabled f i e db))"
  by (auto simp: SetEnabled_def intro!: cred_inv_rows split: if_splits)

lemma credential_by_id_unique:
  "distinct (map cr_id (cd_creds db)) \<Longrightarrow> c \<in> set (cd_creds db) \<Longrightarrow> credential_by_id (cr_id c) db = Some c"
proof -
  have "distinct (map cr_id cs) \<Longrightarrow> c \<in> set cs \<Longrightarrow> find (\<lambda>d. cr_id d = cr_id c) cs = Some c" for cs
    by (induction cs) (auto simp: rev_image_eqI)
  then show "distinct (map cr_id (cd_creds db)) \<Longrightarrow> c \<in> set (cd_creds db) \<Longrightarrow> ?thesis" by (simp add: credential_by_id_def)
qed

lemma setDefault_inv:
  assumes "cred_inv db" "\<And>c. c \<in> set (cd_creds db) \<Longrightarrow> cr_id c = i \<Longrightarrow> cr_provider c = p"
  shows "cred_inv (snd (setDefaultCredential flt p i db))"
proof -
  define g :: "credential_row \<Rightarrow> credential_row" where "g = (\<lambda>c. if cr_id c = i then c\<lparr>cr_default := True\<rparr> else c)"
  define cs where "cs = clear_default p (cd_creds db)"
  have inv: "cred_inv (db\<lparr>cd_creds := cs\<rparr>)" unfolding cs_def by (rule cred_inv_clear [OF assms(1)])
  have g: "cr_id (g c) = cr_id c" "cr_provider (g c) = cr_provider c" for c by (simp_all add: g_def)
  have p: "cr_provider c = p" if "c \<in> set cs" "cr_id c = i" for c
    using that assms(2) clear_default_mem unfolding cs_def by metis
  have d: "cr_default (g c) \<longleftrightarrow> cr_id c = i" if "c \<in> set cs" "cr_provider c = p" for c
    using that clear_default_none [of c p "cd_creds db"] unfolding cs_def g_def by simp
  have "one_default (map g cs)"
    unfolding one_default_def
  proof (intro ballI impI)
    fix x y
    assume "x \<in> set (map g cs)" "y \<in> set (map g cs)"
    then obtain c e where ce: "c \<in> set cs" "x = g c" "e \<in> set cs" "y = g e" by auto
    assume *: "cr_provider x = cr_provider y \<and> cr_default x \<and> cr_default y"
    show "cr_id x = cr_id y"
    proof (cases "cr_provider c = p")
      case True with * ce d g show ?thesis by metis
    next
      case False
      then have "cr_id c \<noteq> i" "cr_id e \<noteq> i" using p ce * g by metis+
      then have "x = c" "y = e" using ce by (simp_all add: g_def)
      moreover have "one_default cs" using inv by (simp add: cred_inv_def)
      ultimately show ?thesis using ce * unfolding one_default_def by blast
    qed
  qed
  then have "cred_inv (db\<lparr>cd_creds := map g cs\<rparr>)"
    using inv g by (simp add: cred_inv_def owners_def comp_def)
  then show ?thesis using assms(1) by (simp add: setDefaultCredential_def g_def cs_def)
qed

lemma credential_of_provider_owner:
  assumes "distinct (map cr_id (cd_creds db))" "credential_of_provider flt p i db = Some x" "c \<in> set (cd_creds db)" "cr_id c = i"
  shows "cr_provider c = p"
  using assms credential_by_id_unique [of db c] by (simp add: credential_of_provider_def split: if_splits)

lemma update_inv:
  assumes "cred_inv db"
  shows "cred_inv (snd (UpdateProviderCredential flt p i e d db))"
proof (cases "credential_of_provider flt p i db")
  case None with assms show ?thesis by (simp add: UpdateProviderCredential_def)
next
  case (Some x)
  define s1 where "s1 = (case e of None \<Rightarrow> (True, db) | Some b \<Rightarrow> SetEnabled (flt ''enable'') i b db)"
  define db1 where "db1 = snd s1"
  have inv1: "cred_inv db1" using assms SetEnabled_inv by (simp add: db1_def s1_def split: option.split)
  have own: "cr_provider c = p" if "c \<in> set (cd_creds db1)" "cr_id c = i" for c
  proof -
    have "owners db1 = owners db"
    proof (cases e)
      case (Some b)
      let ?f = "\<lambda>c. if cr_id c = i then c\<lparr>cr_enabled := b\<rparr> else c"
      have "cr_id (?f c) = cr_id c" "cr_provider (?f c) = cr_provider c" for c :: credential_row by simp_all
      from update_rows_ids(2) [OF this] show ?thesis by (simp add: db1_def s1_def SetEnabled_def Some)
    qed (simp add: db1_def s1_def)
    moreover have "(i, cr_provider c) \<in> owners db1" using that by (force simp: owners_def)
    ultimately obtain c' where "c' \<in> set (cd_creds db)" "cr_id c' = i" "cr_provider c' = cr_provider c" by (auto simp: owners_def)
    then show ?thesis using credential_of_provider_owner [OF _ Some] assms by (metis cred_inv_def)
  qed
  have "cred_inv (snd (setDefaultCredential flt p i db1))" using setDefault_inv [OF inv1 own] by blast
  then show ?thesis
    using inv1
    by (cases s1; cases "fst s1"; cases "setDefaultCredential flt p i db1"; cases "fst (setDefaultCredential flt p i db1)")
      (simp_all add: UpdateProviderCredential_def Some s1_def [symmetric] db1_def)
qed

lemma delete_inv:
  assumes "cred_inv db"
  shows "cred_inv (snd (DeleteProviderCredential flt p i db))"
proof -
  let ?db = "db\<lparr>cd_creds := filter (\<lambda>c. cr_id c \<noteq> i) (cd_creds db), cd_perm := unpin i (cd_perm db)\<rparr>"
  have "distinct (map cr_id (filter (\<lambda>c. cr_id c \<noteq> i) (cd_creds db)))"
    using assms by (simp add: cred_inv_def distinct_map_filter)
  moreover have "one_default (filter (\<lambda>c. cr_id c \<noteq> i) (cd_creds db))"
    using assms unfolding cred_inv_def one_default_def set_filter mem_Collect_eq by blast
  moreover have "pins_ok (owners ?db) (project_provider_access (cd_perm ?db))"
    unfolding pins_ok_def
  proof (intro ballI allI impI)
    fix a c
    assume "a \<in> set (project_provider_access (cd_perm ?db))" and c: "ppa_credential a = Some c"
    then obtain b where b: "b \<in> set (project_provider_access (cd_perm db))"
        "a = (if ppa_credential b = Some i then b\<lparr>ppa_credential := None\<rparr> else b)"
      by (auto simp: unpin_def)
    with c have "a = b" "c \<noteq> i" by (simp_all split: if_splits)
    with b(1) c assms have "(c, ppa_provider a) \<in> owners db" unfolding cred_inv_def pins_ok_def by blast
    then obtain r where "r \<in> set (cd_creds db)" "cr_id r = c" "cr_provider r = ppa_provider a" unfolding owners_def by auto
    with \<open>c \<noteq> i\<close> show "(c, ppa_provider a) \<in> owners ?db" unfolding owners_def by force
  qed
  ultimately have "cred_inv ?db" by (simp add: cred_inv_def)
  with assms show ?thesis by (simp add: DeleteProviderCredential_def split: option.split)
qed

subsection \<open>Grants\<close>

lemma on_grants_inv:
  "cred_inv db \<Longrightarrow> pins_ok (owners db) (project_provider_access (snd (f (perm_view db)))) \<Longrightarrow> cred_inv (snd (on_grants f db))"
  by (cases "f (perm_view db)") (simp add: on_grants_def cred_inv_def owners_def)

lemma perm_view_grants [simp]: "project_provider_access (perm_view db) = project_provider_access (cd_perm db)"
  by (simp add: perm_view_def)

lemma validated_pin:
  assumes "validateCredentialBelongsToProvider flt c p (perm_view db) = Inr (Some x)"
  shows "(x, p) \<in> owners db"
  using assms map_of_SomeD
  by (fastforce simp: validateCredentialBelongsToProvider_def perm_view_def owners_def split: option.splits if_splits)

lemma pins_ok_map:
  assumes "pins_ok own gs" "\<And>a. a \<in> set gs \<Longrightarrow> f a = a \<or> ppa_provider (f a) = ppa_provider a \<and> ppa_credential (f a) = ppa_credential a \<or>
    (\<forall>c. ppa_credential (f a) = Some c \<longrightarrow> (c, ppa_provider (f a)) \<in> own)"
  shows "pins_ok own (map f gs)"
  unfolding pins_ok_def
proof (intro ballI allI impI)
  fix x c assume "x \<in> set (map f gs)" and c: "ppa_credential x = Some c"
  then obtain a where a: "a \<in> set gs" "x = f a" by auto
  from assms(1) a(1) have "\<forall>c. ppa_credential a = Some c \<longrightarrow> (c, ppa_provider a) \<in> own" by (simp add: pins_ok_def)
  with assms(2) [OF a(1)] a(2) c show "(c, ppa_provider x) \<in> own" by metis
qed

lemma update_access_pins:
  assumes "pins_ok own (project_provider_access db)"
    and "\<And>a. ppa_provider (f a) = ppa_provider a" and "\<And>a c. ppa_credential (f a) = Some c \<Longrightarrow> ppa_credential a \<noteq> Some c \<Longrightarrow> (c, p) \<in> own"
  shows "pins_ok own (project_provider_access (update_access fails j p f db))"
proof -
  let ?g = "\<lambda>a. if ppa_project a = j \<and> ppa_provider a = p then f a else a"
  have "pins_ok own (map ?g (project_provider_access db))"
  proof (rule pins_ok_map [OF assms(1)])
    fix a assume "a \<in> set (project_provider_access db)"
    then have "\<forall>c. ppa_credential a = Some c \<longrightarrow> (c, ppa_provider a) \<in> own" using assms(1) by (simp add: pins_ok_def)
    then show "?g a = a \<or> ppa_provider (?g a) = ppa_provider a \<and> ppa_credential (?g a) = ppa_credential a \<or>
        (\<forall>c. ppa_credential (?g a) = Some c \<longrightarrow> (c, ppa_provider (?g a)) \<in> own)"
      using assms(2,3) by (metis (full_types))
  qed
  then show ?thesis using assms(1) by (simp add: update_access_def)
qed

lemma grant_inv:
  assumes "cred_inv db"
  shows "cred_inv (snd (on_grants (GrantProjectProviderAccess arr flt g j p c al de) db))"
proof -
  have "pins_ok (owners db) (project_provider_access (snd (GrantProjectProviderAccess arr flt g j p c al de (perm_view db))))"
  proof (cases "if flt ''provider'' then None else provider_by_id_or_name p (perm_view db)")
    case None then show ?thesis using assms by (simp add: GrantProjectProviderAccess_def cred_inv_def)
  next
    case (Some pr)
    have pins: "pins_ok (owners db) (project_provider_access (cd_perm db))" using assms by (simp add: cred_inv_def)
    show ?thesis
    proof (cases "validateCredentialBelongsToProvider flt c (pv_id pr) (perm_view db)")
      case (Inl u) then show ?thesis using Some pins by (simp add: GrantProjectProviderAccess_def)
    next
      case (Inr cred)
      have cred: "(x, pv_id pr) \<in> owners db" if "cred = Some x" for x using validated_pin Inr that by blast
      have new: "pins_ok (owners db) [\<lparr>ppa_id = g, ppa_project = j, ppa_provider = pv_id pr, AllowedPrefixes = a,
          DeniedPrefixes = d, ppa_enabled = True, ppa_credential = cred\<rparr>]" for a d using cred by (simp add: pins_ok_def)
      have upd: "pins_ok (owners db) (map (\<lambda>a. if ppa_project a = j \<and> ppa_provider a = pv_id pr
          then a\<lparr>AllowedPrefixes := x, DeniedPrefixes := y, ppa_enabled := True, ppa_credential := cred\<rparr> else a)
          (project_provider_access (cd_perm db)))" for x y
        using cred by (intro pins_ok_map [OF pins]) auto
      have app: "pins_ok own (xs @ ys) \<longleftrightarrow> pins_ok own xs \<and> pins_ok own ys" for own xs ys by (auto simp: pins_ok_def)
      show ?thesis
        using Some Inr pins new upd by (simp add: GrantProjectProviderAccess_def app Let_def split: option.split)
    qed
  qed
  with assms show ?thesis by (rule on_grants_inv)
qed

lemma change_grant_inv:
  assumes "cred_inv db"
  shows "cred_inv (snd (on_grants (UpdateProjectProviderAccess flt j p al de en cr) db))"
    and "cred_inv (snd (on_grants (RevokeProjectProviderAccess flt j p) db))"
proof -
  let ?own = "owners db"
  have step: "pins_ok ?own (project_provider_access (update_access b j p f d))"
    if "pins_ok ?own (project_provider_access d)" "\<And>a. ppa_provider (f a) = ppa_provider a" "\<And>a. ppa_credential (f a) = ppa_credential a"
    for b f d using update_access_pins [OF that(1), of f p b j] that(2,3) by simp
  define db1 where "db1 = (case al of None \<Rightarrow> perm_view db
    | Some x \<Rightarrow> update_access (flt ''allowed'') j p (\<lambda>a. a\<lparr>AllowedPrefixes := x\<rparr>) (perm_view db))"
  define db2 where "db2 = (case de of None \<Rightarrow> db1 | Some x \<Rightarrow> update_access (flt ''denied'') j p (\<lambda>a. a\<lparr>DeniedPrefixes := x\<rparr>) db1)"
  define db3 where "db3 = (case en of None \<Rightarrow> db2 | Some x \<Rightarrow> update_access (flt ''enabled'') j p (\<lambda>a. a\<lparr>ppa_enabled := x\<rparr>) db2)"
  note dbs = db1_def db2_def db3_def
  have 0: "pins_ok ?own (project_provider_access (perm_view db))" using assms by (simp add: cred_inv_def)
  then have "pins_ok ?own (project_provider_access db1)" by (simp add: db1_def step split: option.split)
  then have "pins_ok ?own (project_provider_access db2)" by (simp add: db2_def step split: option.split)
  then have 3: "pins_ok ?own (project_provider_access db3)" by (simp add: db3_def step split: option.split)
  have pc: "provider_credentials db3 = provider_credentials (perm_view db)"
    by (simp add: dbs update_access_def split: option.split)
  have pin: "pins_ok ?own (project_provider_access (update_access b j p (\<lambda>a. a\<lparr>ppa_credential := c\<rparr>) db3))"
    if "validateCredentialBelongsToProvider flt x p db3 = Inr c" for b c x
  proof (rule update_access_pins [OF 3])
    fix a :: ProjectProviderAccess and y assume "ppa_credential (a\<lparr>ppa_credential := c\<rparr>) = Some y"
    moreover have "validateCredentialBelongsToProvider flt x p db3 = validateCredentialBelongsToProvider flt x p (perm_view db)"
      by (simp only: validateCredentialBelongsToProvider_def pc)
    ultimately have "validateCredentialBelongsToProvider flt x p (perm_view db) = Inr (Some y)" using that by simp
    then show "(y, p) \<in> ?own" by (rule validated_pin)
  qed simp
  have "UpdateProjectProviderAccess flt j p al de en cr (perm_view db) =
      (case cr of None \<Rightarrow> (200, db3)
       | Some c \<Rightarrow> (case validateCredentialBelongsToProvider flt c p db3 of
           Inl _ \<Rightarrow> (400, db3)
         | Inr cred \<Rightarrow> (200, update_access (flt ''pin'') j p (\<lambda>a. a\<lparr>ppa_credential := cred\<rparr>) db3)))"
    by (simp only: UpdateProjectProviderAccess_def Let_def dbs)
  then have "pins_ok ?own (project_provider_access (snd (UpdateProjectProviderAccess flt j p al de en cr (perm_view db))))"
    using 3 pin by (simp split: option.split sum.split)
  moreover have "pins_ok ?own (project_provider_access (snd (RevokeProjectProviderAccess flt j p (perm_view db))))"
    using step [OF 0] by (simp add: RevokeProjectProviderAccess_def)
  ultimately show "cred_inv (snd (on_grants (UpdateProjectProviderAccess flt j p al de en cr) db))"
    "cred_inv (snd (on_grants (RevokeProjectProviderAccess flt j p) db))"
    using assms by (simp_all add: on_grants_inv)
qed

subsection \<open>The selected credential\<close>

lemma touch_inv: "cred_inv db \<Longrightarrow> cred_inv (touchLastUsed f now i db)"
  by (auto simp: touchLastUsed_def intro!: cred_inv_rows split: if_splits)

lemma loadByID_ok:
  assumes "fst (loadByID flt dec now i source db) = Inr rc"
  shows "\<exists>c f. credential_by_id i db = Some c \<and> cr_enabled c \<and> dec = Some f \<and> f (cr_ciphertext c) = Some (rc_secret rc) \<and>
    rc_id rc = i \<and> rc_source rc = source"
  using assms by (auto simp: loadByID_def split: if_splits option.splits)

lemma loadByID_inv: "cred_inv db \<Longrightarrow> cred_inv (snd (loadByID flt dec now i source db))"
  by (simp add: loadByID_def touch_inv split: option.split)

lemma resolve_inv: "cred_inv db \<Longrightarrow> cred_inv (snd (resolve_credential flt dec now p j db))"
  by (simp add: resolve_credential_def provider_fallback_def loadByID_inv split: option.split)

lemma by_id_owner:
  assumes "cred_inv db" "credential_by_id i db = Some c" "(i, p) \<in> owners db"
  shows "cr_provider c = p"
proof -
  obtain d where "d \<in> set (cd_creds db)" "cr_id d = i" "cr_provider d = p" using assms(3) unfolding owners_def by auto
  moreover have "credential_by_id (cr_id d) db = Some d"
    using calculation(1) assms(1) credential_by_id_unique unfolding cred_inv_def by blast
  ultimately show ?thesis using assms(2) by simp
qed

lemma default_credential_owner: "default_credential p db = Some i \<Longrightarrow> (i, p) \<in> owners db"
  by (force simp: default_credential_def owners_def find_Some_iff)

lemma pinned_credential_owner:
  assumes "cred_inv db" "pinned_credential p j db = Some i"
  shows "(i, p) \<in> owners db"
proof -
  obtain a where a: "find (\<lambda>a. ppa_project a = j \<and> ppa_provider a = p \<and> ppa_enabled a) (project_provider_access (cd_perm db)) = Some a"
      "ppa_credential a = Some i"
    using assms(2) by (auto simp: pinned_credential_def split: option.splits if_splits)
  from a(1) have "a \<in> set (project_provider_access (cd_perm db))" "ppa_provider a = p"
    by (auto simp: find_Some_iff)
  with a(2) assms(1) show ?thesis unfolding cred_inv_def pins_ok_def by blast
qed

text \<open>The operations on the pool and on the grants, and the use of a credential.\<close>

inductive cred_step :: "cred_db \<Rightarrow> cred_db \<Rightarrow> bool" where
  create: "cred_step db (snd (CreateProviderCredential flt enc newID p name secret h d db))"
| update: "cred_step db (snd (UpdateProviderCredential flt p i e d db))"
| delete: "cred_step db (snd (DeleteProviderCredential flt p i db))"
| grant: "cred_step db (snd (on_grants (GrantProjectProviderAccess arr flt g j p c al de) db))"
| change: "cred_step db (snd (on_grants (UpdateProjectProviderAccess flt j p al de en cr) db))"
| revoke: "cred_step db (snd (on_grants (RevokeProjectProviderAccess flt j p) db))"
| resolve: "cred_step db (snd (resolve_credential flt dec now p j db))"

lemma cred_step_inv: "cred_step db db' \<Longrightarrow> cred_inv db \<Longrightarrow> cred_inv db'"
  by (induction rule: cred_step.induct)
    (simp_all add: create_inv update_inv delete_inv grant_inv change_grant_inv resolve_inv)

lemma cred_steps_inv: "cred_step\<^sup>*\<^sup>* db db' \<Longrightarrow> cred_inv db \<Longrightarrow> cred_inv db'"
  by (induction rule: rtranclp_induct) (auto intro: cred_step_inv)

subsection \<open>Properties\<close>

text \<open>
  A provider only ever gets a secret of its own. In every state that the handlers of the pool
  and of the grants reach, the credential resolved for a request is an enabled credential of that
  provider, or the provider's own key when it has no credentials at all. The database does not enforce
  that a pin belongs to the provider of its grant; the handlers do.
\<close>

theorem secret_belongs_to_provider:
  assumes "cred_step\<^sup>*\<^sup>* db0 db" and "cred_inv db0" and "fst (resolve_credential flt dec now p j db) = Inr rc"
  shows "(\<exists>c\<in>set (cd_creds db). cr_id c = rc_id rc \<and> cr_provider c = p \<and> cr_enabled c \<and> Option.bind dec (\<lambda>f. f (cr_ciphertext c)) = Some (rc_secret rc)) \<or>
    rc_source rc = SourceLegacyProviderKey \<and> (\<forall>c\<in>set (cd_creds db). cr_provider c \<noteq> p) \<and>
    map_option pc_api_key (conn_by_id p db) = Some (rc_secret rc)"
proof -
  have inv: "cred_inv db" using assms(1,2) by (rule cred_steps_inv)
  have load: "\<exists>c\<in>set (cd_creds db). cr_id c = rc_id rc \<and> cr_provider c = p \<and> cr_enabled c \<and>
      Option.bind dec (\<lambda>f. f (cr_ciphertext c)) = Some (rc_secret rc)"
    if "fst (loadByID flt dec now i source db) = Inr rc" "(i, p) \<in> owners db" for i source
  proof -
    from loadByID_ok [OF that(1)] obtain c f where c: "credential_by_id i db = Some c" "cr_enabled c" "dec = Some f"
      "f (cr_ciphertext c) = Some (rc_secret rc)" "rc_id rc = i" by blast
    have "c \<in> set (cd_creds db)" "cr_id c = i" using c(1) find_id unfolding credential_by_id_def by blast+
    with c by_id_owner [OF inv c(1) that(2)] show ?thesis by (auto intro!: bexI [of _ c])
  qed
  consider i where "j \<noteq> []" "\<not> flt ''grant''" "pinned_credential p j db = Some i"
      "fst (loadByID flt dec now i SourceProjectPinned db) = Inr rc"
    | "fst (provider_fallback flt dec now p db) = Inr rc"
    using assms(3) by (auto simp: resolve_credential_def split: if_splits option.splits)
  then show ?thesis
  proof cases
    case 1 then show ?thesis using load pinned_credential_owner [OF inv] by blast
  next
    case 2
    show ?thesis
    proof (cases "default_credential p db")
      case (Some i)
      with 2 have "fst (loadByID flt dec now i SourceProviderDefault db) = Inr rc"
        by (simp add: provider_fallback_def split: if_splits)
      then show ?thesis using load default_credential_owner [OF Some] by blast
    next
      case None
      with 2 have l: "legacy_key flt p db = Inr rc" and "filter (\<lambda>c. cr_provider c = p) (cd_creds db) = []"
        by (auto simp: provider_fallback_def split: if_splits)
      then show ?thesis by (auto simp: legacy_key_def filter_empty_conv split: if_splits option.splits)
    qed
  qed
qed

text \<open>
  A pin is never replaced. When a project is pinned to a credential, a request is served with that
  credential or not at all, whatever other credentials the provider has.
\<close>

theorem pinned_or_nothing:
  assumes "j \<noteq> []" and "pinned_credential p j db = Some i"
  shows "case fst (resolve_credential flt dec now p j db) of
      Inr rc \<Rightarrow> rc_id rc = i \<and> rc_source rc = SourceProjectPinned \<and> map_option cr_enabled (credential_by_id i db) = Some True
    | Inl _ \<Rightarrow> True"
  using assms loadByID_ok [of flt dec now i SourceProjectPinned db]
  by (auto simp: resolve_credential_def split: sum.split)

text \<open>
  Deleting the credential a project is pinned to moves the project to the provider's default. The
  foreign key clears the pin, so the branch of the resolver for a deleted pin is never reached and
  the request does not fail closed.
\<close>

theorem deleted_pin_falls_back:
  assumes "fst (DeleteProviderCredential flt p i db) = 200" and "db' = snd (DeleteProviderCredential flt p i db)"
    and "pinned_credential p j db = Some i"
  shows "resolve_credential (\<lambda>_. False) dec now p j db' = provider_fallback (\<lambda>_. False) dec now p db'"
proof -
  have db': "cd_perm db' = unpin i (cd_perm db)"
    using assms(1,2) by (auto simp: DeleteProviderCredential_def split: option.splits if_splits)
  let ?P = "\<lambda>a. ppa_project a = j \<and> ppa_provider a = p \<and> ppa_enabled a"
  let ?f = "\<lambda>a. if ppa_credential a = Some i then a\<lparr>ppa_credential := None\<rparr> else a"
  have "find ?P (map ?f gs) = map_option ?f (find ?P gs)" for gs :: "ProjectProviderAccess list" by (induction gs) auto
  moreover obtain a where "find ?P (project_provider_access (cd_perm db)) = Some a" "ppa_credential a = Some i"
    using assms(3) by (auto simp: pinned_credential_def split: option.splits if_splits)
  ultimately have "pinned_credential p j db' = None" by (simp add: pinned_credential_def db' unpin_def)
  then show ?thesis by (simp add: resolve_credential_def)
qed

subsection \<open>Examples\<close>

definition demo_cred :: "id \<Rightarrow> bool \<Rightarrow> credential_row" where
  "demo_cred i d = \<lparr>cr_id = i, cr_provider = ''p'', cr_name = i, cr_ciphertext = ''x'' @ i, cr_header = None, cr_default = d,
     cr_enabled = True, cr_last_used = None\<rparr>"

definition demo_pool_db :: cred_db where
  "demo_pool_db =
     \<lparr>cd_perm = \<lparr>models = [], teams = [], team_model_permissions = [], project_model_permissions = [], model_permission_scopes = [],
        providers = [], project_provider_access = [\<lparr>ppa_id = ''g'', ppa_project = ''j'', ppa_provider = ''p'', AllowedPrefixes = [],
          DeniedPrefixes = [], ppa_enabled = True, ppa_credential = Some ''2''\<rparr>],
        provider_credentials = [], project_policies = [], api_keys = []\<rparr>,
      cd_creds = [demo_cred ''1'' True, demo_cred ''2'' False],
      cd_conns = [\<lparr>pc_id = ''p'', pc_backend = ''openai'', pc_base_url = ''u'', pc_api_key = [], pc_header = None\<rparr>]\<rparr>"

lemma demo_pool_inv: "cred_inv demo_pool_db"
  by (simp add: cred_inv_def demo_pool_db_def demo_cred_def one_default_def pins_ok_def owners_def)

theorem secret_belongs_to_provider_witness:
  "map_sum id rc_secret (fst (resolve_credential (\<lambda>_. False) (Some (\<lambda>c. Some (tl c))) 0 ''p'' ''j'' demo_pool_db)) = Inr ''2'' \<and>
   list_ex (\<lambda>c. cr_id c = ''2'' \<and> cr_provider c = ''p'') (cd_creds demo_pool_db)"
proof -
  let ?rc = "\<lparr>rc_id = ''2'', rc_name = ''2'', rc_secret = ''2'', rc_header = ''Authorization'', rc_source = SourceProjectPinned\<rparr>"
  have r: "fst (resolve_credential (\<lambda>_. False) (Some (\<lambda>c. Some (tl c))) 0 ''p'' ''j'' demo_pool_db) = Inr ?rc"
    by (simp add: resolve_credential_def pinned_credential_def demo_pool_db_def loadByID_def credential_by_id_def demo_cred_def
        conn_by_id_def header_of_def)
  from secret_belongs_to_provider [OF rtranclp.rtrancl_refl demo_pool_inv r]
  have "list_ex (\<lambda>c. cr_id c = ''2'' \<and> cr_provider c = ''p'') (cd_creds demo_pool_db)" by (auto simp: list_ex_iff)
  with r show ?thesis by simp
qed

theorem pinned_or_nothing_witness:
  "case fst (resolve_credential (\<lambda>l. l = ''touch'') None 0 ''p'' ''j'' demo_pool_db) of
      Inr rc \<Rightarrow> rc_id rc = ''2'' \<and> rc_source rc = SourceProjectPinned \<and>
        map_option cr_enabled (credential_by_id ''2'' demo_pool_db) = Some True
    | Inl _ \<Rightarrow> True"
  by (rule pinned_or_nothing) (simp_all add: pinned_credential_def demo_pool_db_def)

theorem deleted_pin_falls_back_witness:
  "resolve_credential (\<lambda>_. False) None 0 ''p'' ''j'' (snd (DeleteProviderCredential (\<lambda>_. False) ''p'' ''2'' demo_pool_db)) =
   provider_fallback (\<lambda>_. False) None 0 ''p'' (snd (DeleteProviderCredential (\<lambda>_. False) ''p'' ''2'' demo_pool_db))"
  by (rule deleted_pin_falls_back [OF _ refl])
    (simp_all add: DeleteProviderCredential_def credential_of_provider_def credential_by_id_def demo_pool_db_def demo_cred_def
      pinned_credential_def)

end
