(* ===== verification/Virtual_Models.thy ===== *)
theory Virtual_Models
  imports Provider_Credentials
begin

text \<open>
  \<open>internal/catalog/resolver.go\<close> and \<open>virtual_endpoint.go\<close>: the models of a provider's catalogue that are
  called by a name with the provider's prefix, without being registered. The resolver keeps the
  exposed catalogue in memory until it is invalidated. The transport settings of a provider are passed
  on unchanged and left out.
\<close>

subsection \<open>Endpoints and the catalogue\<close>

record VirtualEndpoint =
  ve_id :: id
  ve_provider :: id
  ve_backend :: string
  ve_base_url :: string
  ve_api_key :: string
  ve_model :: string
  ve_header :: string
  ve_credential :: id
  ve_mode :: string
  ve_streaming :: bool
  ve_tools :: bool
  ve_vision :: bool
  ve_audio :: bool
  ve_speech :: bool
  ve_embedding :: bool
  ve_reasoning :: bool

record catalog_model = remote_model +
  rm_speech :: bool

record catalog_db =
  ct_creds :: cred_db
  ct_models :: "catalog_model list"
  ct_rules :: "ExposureRule list"

record virtual_cache =
  byName :: "string \<Rightarrow> VirtualEndpoint option"
  vc_list :: "string list"

text \<open>A provider joined with its connection.\<close>

definition exposed_providers :: "catalog_db \<Rightarrow> (provider_row \<times> provider_conn) list" where
  "exposed_providers db =
     concat (map (\<lambda>p. map (\<lambda>c. (p, c)) (filter (\<lambda>c. pc_id c = pv_id p) (cd_conns (ct_creds db))))
       (filter (\<lambda>p. pv_enabled p \<and> IsVirtual (mode_of_provider p)) (providers (cd_perm (ct_creds db)))))"

definition virtual_prefix :: "provider_row \<Rightarrow> string" where
  "virtual_prefix p = (if pv_prefix p = [] then pv_name p else pv_prefix p)"

definition virtual_name :: "provider_row \<Rightarrow> catalog_model \<Rightarrow> string" where
  "virtual_name p m = virtual_prefix p @ ''/'' @ rm_model m"

definition catalog_entry :: "catalog_model \<Rightarrow> CatalogEntry" where
  "catalog_entry m =
     \<lparr>ProviderModelID = rm_model m, Tags = splitTags (rm_tags_raw m), SupportsStreaming = rm_streaming m,
      SupportsTools = rm_tools m, SupportsVision = rm_vision m, SupportsAudio = rm_audio m, SupportsSpeech = rm_speech m,
      SupportsEmbedding = rm_embeddings m, SupportsReasoning = rm_reasoning m\<rparr>"

definition virtual_id :: "id \<Rightarrow> string \<Rightarrow> string" where
  "virtual_id provider model = ''virt:'' @ provider @ '':'' @ model"

definition virtual_endpoint :: "provider_row \<Rightarrow> provider_conn \<Rightarrow> catalog_model \<Rightarrow> VirtualEndpoint" where
  "virtual_endpoint p c m =
     \<lparr>ve_id = virtual_id (pv_id p) (rm_model m), ve_provider = pv_id p, ve_backend = pc_backend c, ve_base_url = pc_base_url c,
      ve_api_key = pc_api_key c, ve_model = rm_model m, ve_header = [], ve_credential = [], ve_mode = mode_of_provider p,
      ve_streaming = rm_streaming m, ve_tools = rm_tools m, ve_vision = rm_vision m, ve_audio = rm_audio m,
      ve_speech = rm_speech m, ve_embedding = rm_embeddings m, ve_reasoning = rm_reasoning m\<rparr>"

definition add_model :: "provider_row \<Rightarrow> provider_conn \<Rightarrow> ExposureRule list \<Rightarrow> catalog_model \<Rightarrow> virtual_cache \<Rightarrow> virtual_cache" where
  "add_model p c rules m vc =
     (if \<not> IsExposed (catalog_entry m) rules then vc
      else \<lparr>byName = (byName vc)(virtual_name p m \<mapsto> virtual_endpoint p c m), vc_list = vc_list vc @ [virtual_name p m]\<rparr>)"

text \<open>The fault of a query of one provider is labelled with the provider; that provider is skipped.\<close>

definition add_provider :: "faults \<Rightarrow> catalog_db \<Rightarrow> provider_row \<times> provider_conn \<Rightarrow> virtual_cache \<Rightarrow> virtual_cache" where
  "add_provider flt db pc vc =
     (let (p, c) = pc in
      if flt (''catalog:'' @ pv_id p) then vc
      else case ListForProvider (flt (''rules:'' @ pv_id p)) (pv_id p) (ct_rules db) of
        Inl _ \<Rightarrow> vc
      | Inr rules \<Rightarrow> fold (add_model p c rules) (filter (\<lambda>m. rm_provider m = pv_id p \<and> rm_enabled m) (ct_models db)) vc)"

definition empty_virtual :: virtual_cache where
  "empty_virtual = \<lparr>byName = (\<lambda>_. None), vc_list = []\<rparr>"

definition buildCache :: "faults \<Rightarrow> catalog_db \<Rightarrow> virtual_cache" where
  "buildCache flt db =
     (if flt ''providers'' then empty_virtual else fold (add_provider flt db) (exposed_providers db) empty_virtual)"

definition getCache :: "faults \<Rightarrow> catalog_db \<Rightarrow> virtual_cache option \<Rightarrow> virtual_cache \<times> virtual_cache option" where
  "getCache flt db cache = (case cache of Some c \<Rightarrow> (c, cache) | None \<Rightarrow> (let c = buildCache flt db in (c, Some c)))"

definition Invalidate :: "virtual_cache option \<Rightarrow> virtual_cache option" where
  "Invalidate cache = None"

subsection \<open>Resolution\<close>

definition resolve_virtual :: "virtual_cache \<Rightarrow> string \<Rightarrow> VirtualEndpoint option" where
  "resolve_virtual vc modelName = byName vc modelName"

text \<open>The endpoint with the credential of the project; \<open>Inr None\<close> is a name that is not exposed.\<close>

definition ResolveForProject ::
    "faults \<Rightarrow> (string \<Rightarrow> string option) option \<Rightarrow> int \<Rightarrow> virtual_cache \<Rightarrow> string \<Rightarrow> id \<Rightarrow> catalog_db \<Rightarrow>
     (cred_error + (VirtualEndpoint \<times> ResolvedCredential) option) \<times> catalog_db" where
  "ResolveForProject flt dec now vc modelName projectID db =
     (case byName vc modelName of
        None \<Rightarrow> (Inr None, db)
      | Some cached \<Rightarrow>
          (case resolve_credential flt dec now (ve_provider cached) projectID (ct_creds db) of
             (Inl e, creds) \<Rightarrow> (Inl e, db\<lparr>ct_creds := creds\<rparr>)
           | (Inr rc, creds) \<Rightarrow>
               (Inr (Some (cached\<lparr>ve_api_key := rc_secret rc, ve_header := rc_header rc, ve_credential := rc_id rc\<rparr>, rc)),
                db\<lparr>ct_creds := creds\<rparr>)))"

definition ListExposedForProject :: "bool \<Rightarrow> virtual_cache \<Rightarrow> id \<Rightarrow> catalog_db \<Rightarrow> string list" where
  "ListExposedForProject fails vc projectID db =
     (case ListForProject fails projectID (cd_perm (ct_creds db)) of
        Inl _ \<Rightarrow> []
      | Inr grants \<Rightarrow> filter (\<lambda>name. list_ex (\<lambda>g. IsAllowed g name) grants) (vc_list vc))"

definition ListExposedForProjectWithEndpoints :: "bool \<Rightarrow> virtual_cache \<Rightarrow> id \<Rightarrow> catalog_db \<Rightarrow> (string \<times> VirtualEndpoint) list" where
  "ListExposedForProjectWithEndpoints fails vc projectID db =
     concat (map (\<lambda>name. case byName vc name of None \<Rightarrow> [] | Some vep \<Rightarrow> [(name, vep)]) (ListExposedForProject fails vc projectID db))"

definition indexOf :: "string \<Rightarrow> char \<Rightarrow> nat option" where
  "indexOf s b = (let n = length (takeWhile (\<lambda>c. c \<noteq> b) s) in if n < length s then Some n else None)"

definition splitVirtID :: "string \<Rightarrow> (string \<times> string) option" where
  "splitVirtID i =
     (if length i < 6 \<or> take 5 i \<noteq> ''virt:'' then None
      else let rest = drop 5 i in
        (case indexOf rest (CHR '':'') of None \<Rightarrow> None | Some k \<Rightarrow> Some (take k rest, drop (Suc k) rest)))"

definition capabilitiesFromVirtualEndpoint :: "VirtualEndpoint \<Rightarrow> string list" where
  "capabilitiesFromVirtualEndpoint v =
     (if ve_embedding v then [''embedding'']
      else if ve_audio v \<and> \<not> ve_tools v then [''transcription'']
      else if ve_speech v then [''speech'']
      else [''chat'', ''completion''] @ (if ve_vision v then [''vision''] else []))"

definition virtual_capabilities :: "virtual_cache \<Rightarrow> string \<Rightarrow> string list option" where
  "virtual_capabilities vc modelName = map_option capabilitiesFromVirtualEndpoint (byName vc modelName)"

subsection \<open>What the cache holds\<close>

text \<open>A model of an enabled provider in a virtual mode that the provider's rules expose.\<close>

definition exposes :: "catalog_db \<Rightarrow> string \<Rightarrow> VirtualEndpoint \<Rightarrow> bool" where
  "exposes db name v \<longleftrightarrow>
     (\<exists>p c m. p \<in> set (providers (cd_perm (ct_creds db))) \<and> pv_enabled p \<and> IsVirtual (mode_of_provider p) \<and>
        c \<in> set (cd_conns (ct_creds db)) \<and> pc_id c = pv_id p \<and> m \<in> set (ct_models db) \<and> rm_provider m = pv_id p \<and> rm_enabled m \<and>
        IsExposed (catalog_entry m) (sort_key Priority (filter (\<lambda>r. er_provider r = pv_id p \<and> er_enabled r) (ct_rules db))) \<and>
        name = virtual_name p m \<and> v = virtual_endpoint p c m)"

definition cache_ok :: "catalog_db \<Rightarrow> virtual_cache \<Rightarrow> bool" where
  "cache_ok db vc \<longleftrightarrow> set (vc_list vc) = dom (byName vc) \<and> (\<forall>name v. byName vc name = Some v \<longrightarrow> exposes db name v)"

lemma exposed_providersD:
  "(p, c) \<in> set (exposed_providers db) \<Longrightarrow> p \<in> set (providers (cd_perm (ct_creds db))) \<and> pv_enabled p \<and> IsVirtual (mode_of_provider p) \<and>
     c \<in> set (cd_conns (ct_creds db)) \<and> pc_id c = pv_id p"
  by (simp add: exposed_providers_def image_iff)

lemma cache_ok_add:
  assumes "cache_ok db vc" and "IsExposed (catalog_entry m) rules \<Longrightarrow> exposes db (virtual_name p m) (virtual_endpoint p c m)"
  shows "cache_ok db (add_model p c rules m vc)"
proof (cases "IsExposed (catalog_entry m) rules")
  case True
  with assms(2) have "exposes db (virtual_name p m) (virtual_endpoint p c m)" .
  with True assms(1) show ?thesis unfolding add_model_def cache_ok_def by simp
qed (simp add: add_model_def assms(1))

lemma fold_inv: "(\<And>x s. x \<in> set xs \<Longrightarrow> P s \<Longrightarrow> P (f x s)) \<Longrightarrow> P s \<Longrightarrow> P (fold f xs s)"
  by (induction xs arbitrary: s) auto

lemma cache_ok_provider:
  assumes "cache_ok db vc" and pc: "(p, c) \<in> set (exposed_providers db)"
  shows "cache_ok db (add_provider flt db (p, c) vc)"
proof -
  let ?rules = "sort_key Priority (filter (\<lambda>r. er_provider r = pv_id p \<and> er_enabled r) (ct_rules db))"
  have "cache_ok db (fold (add_model p c ?rules) (filter (\<lambda>m. rm_provider m = pv_id p \<and> rm_enabled m) (ct_models db)) vc)"
  proof (rule fold_inv)
    fix m vc' assume "m \<in> set (filter (\<lambda>m. rm_provider m = pv_id p \<and> rm_enabled m) (ct_models db))" and ok: "cache_ok db vc'"
    then have m: "m \<in> set (ct_models db)" "rm_provider m = pv_id p" "rm_enabled m" by simp_all
    show "cache_ok db (add_model p c ?rules m vc')"
      using exposed_providersD [OF pc] m by (intro cache_ok_add [OF ok]) (unfold exposes_def, blast)
  qed (rule assms(1))
  then show ?thesis
    using assms(1) by (auto simp: add_provider_def ListForProvider_def split: sum.splits if_splits)
qed

lemma buildCache_ok: "cache_ok db (buildCache flt db)"
proof -
  have e: "cache_ok db empty_virtual" by (simp add: cache_ok_def empty_virtual_def)
  have "cache_ok db (fold (add_provider flt db) (exposed_providers db) empty_virtual)"
    by (rule fold_inv [where P = "cache_ok db"]) (auto simp: e intro: cache_ok_provider)
  with e show ?thesis by (simp add: buildCache_def)
qed

subsection \<open>Properties\<close>

text \<open>
  The virtual catalogue is exactly what the rules expose. A name that resolves belongs to a model
  that is enabled in the catalogue of an enabled provider in catalogue or hybrid mode and that the
  provider's exposure rules admit, the endpoint is that provider's, and a name is listed exactly when
  it resolves, whatever queries failed while the cache was built.
\<close>

theorem virtual_models_are_exposed:
  "(resolve_virtual (buildCache flt db) name = Some v \<longrightarrow> exposes db name v) \<and>
   (name \<in> set (vc_list (buildCache flt db)) \<longleftrightarrow> resolve_virtual (buildCache flt db) name \<noteq> None)"
  using buildCache_ok [of db flt] unfolding cache_ok_def resolve_virtual_def by auto

definition demo_provider :: "id \<Rightarrow> provider_row" where
  "demo_provider i = \<lparr>pv_id = i, pv_name = i, pv_enabled = True, pv_mode = Some ''catalog'', pv_prefix = []\<rparr>"

definition demo_model :: "id \<Rightarrow> string \<Rightarrow> catalog_model" where
  "demo_model p m = \<lparr>rm_provider = p, rm_enabled = True, rm_model = m, rm_tags_raw = [], rm_streaming = True, rm_tools = True,
     rm_vision = False, rm_audio = False, rm_embeddings = False, rm_reasoning = False, rm_speech = False\<rparr>"

definition demo_catalog :: catalog_db where
  "demo_catalog =
     \<lparr>ct_creds = demo_pool_db\<lparr>cd_perm := (cd_perm demo_pool_db)\<lparr>providers := [demo_provider ''p'', demo_provider ''q'']\<rparr>,
        cd_conns := [\<lparr>pc_id = ''p'', pc_backend = ''openai'', pc_base_url = ''u'', pc_api_key = [], pc_header = None\<rparr>,
                     \<lparr>pc_id = ''q'', pc_backend = ''openai'', pc_base_url = ''v'', pc_api_key = ''k'', pc_header = None\<rparr>]\<rparr>,
      ct_models = [demo_model ''p'' ''m'', demo_model ''q'' ''n''],
      ct_rules = [demo_rule\<lparr>er_provider := ''p'', Pattern := ''*''\<rparr>, demo_rule\<lparr>er_provider := ''q'', Pattern := ''*''\<rparr>]\<rparr>"

theorem virtual_models_are_exposed_witness:
  "\<exists>v. ve_id v = ''virt:p:m'' \<and> exposes demo_catalog ''p/m'' v"
proof -
  have "map_option ve_id (resolve_virtual (buildCache (\<lambda>_. False) demo_catalog) ''p/m'') = Some ''virt:p:m''" by code_simp
  then obtain v where "resolve_virtual (buildCache (\<lambda>_. False) demo_catalog) ''p/m'' = Some v" "ve_id v = ''virt:p:m''" by auto
  with virtual_models_are_exposed [of "\<lambda>_. False" demo_catalog "''p/m''" v] show ?thesis by blast
qed

text \<open>
  The identifier of a virtual endpoint can be taken apart again: the provider, which has no colon
  in it, and the model, which may.
\<close>

theorem virtual_id_splits:
  assumes "CHR '':'' \<notin> set provider"
  shows "splitVirtID (virtual_id provider model) = Some (provider, model)"
proof -
  have "takeWhile (\<lambda>c. c \<noteq> CHR '':'') (provider @ CHR '':'' # model) = provider"
    using assms by (subst takeWhile_append2) auto
  then show ?thesis by (simp add: splitVirtID_def virtual_id_def indexOf_def Let_def)
qed

theorem virtual_id_splits_witness: "splitVirtID (virtual_id ''p1'' ''openai/gpt:free'') = Some (''p1'', ''openai/gpt:free'')"
  by (rule virtual_id_splits) simp

text \<open>
  The list of models shown to a project is not limited to the providers it was granted. A grant
  is matched against every virtual name, not against those of its provider, so a grant without
  prefixes lists the models of all providers.
\<close>

theorem any_grant_lists_every_provider:
  assumes "ListForProject fails projectID (cd_perm (ct_creds db)) = Inr grants" and "g \<in> set grants"
    and "AllowedPrefixes g = []" and "DeniedPrefixes g = []"
  shows "ListExposedForProject fails vc projectID db = vc_list vc"
proof -
  have "IsAllowed g name" for name by (simp add: IsAllowed_def prefix_rules_allow_def assms(3,4))
  then have "list_ex (\<lambda>g. IsAllowed g name) grants" for name using assms(2) by (auto simp: list_ex_iff)
  then show ?thesis by (simp add: ListExposedForProject_def assms(1))
qed

theorem any_grant_lists_every_provider_witness:
  "ListExposedForProject False \<lparr>byName = (\<lambda>_. None), vc_list = [''p/m'', ''q/n'']\<rparr> ''j'' demo_catalog = [''p/m'', ''q/n'']"
proof -
  let ?g = "\<lparr>ppa_id = ''g'', ppa_project = ''j'', ppa_provider = ''p'', AllowedPrefixes = [], DeniedPrefixes = [],
    ppa_enabled = True, ppa_credential = Some ''2''\<rparr>"
  have "ListForProject False ''j'' (cd_perm (ct_creds demo_catalog)) = Inr [?g]"
    by (simp add: ListForProject_def demo_catalog_def demo_pool_db_def demo_provider_def enabled_grant_def provider_of_def)
  from any_grant_lists_every_provider [OF this, of ?g "\<lparr>byName = (\<lambda>_. None), vc_list = [''p/m'', ''q/n'']\<rparr>"]
  show ?thesis by simp
qed

end
