(* ===== verification/Model_Registry.thy ===== *)
theory Model_Registry
  imports Endpoint_Pool Backend_Types Virtual_Models "HOL-Library.List_Lexorder" "HOL-Library.Char_ord"
begin

text \<open>
  \<open>internal/runtime/registry.go\<close> and \<open>internal/proxy/capability.go\<close>: the pools of endpoints the gateway routes to, how they are loaded, how
  an endpoint is chosen, and the check that a model serves the called route. What an endpoint needs to
  reach its upstream (\<open>upstream\<close>) is kept beside the pool, by the identifier of the endpoint. HTTP clients
  are left out.
\<close>

subsection \<open>The registry\<close>

record upstream =
  us_backend :: string
  us_base_url :: string
  us_key :: string
  us_model :: string
  us_credential :: id

record registry =
  pools :: "string \<Rightarrow> Pool option"
  upstreams :: "id \<Rightarrow> upstream"
  health_keys :: "(id \<times> HealthStatus) list"

text \<open>A row of \<open>model_endpoints\<close> and one of \<open>agent_runtimes\<close>, each joined with its model.\<close>

record model_endpoint_row =
  er_ep :: id
  er_model_id :: id
  er_model_name :: string
  er_model_enabled :: bool
  er_backend :: string
  er_host :: string
  er_port :: int
  er_weight :: int
  er_priority :: int
  er_health :: HealthStatus
  er_is_enabled :: bool
  er_upstream :: upstream

record agent_runtime_row =
  rr_id :: id
  rr_model_id :: id
  rr_model_name :: string
  rr_model_enabled :: bool
  rr_backend :: string
  rr_endpoint :: "id option"
  rr_host :: string
  rr_port :: int
  rr_index :: "int option"
  rr_state :: string

definition routed_states :: "string list" where
  "routed_states = [''ready'', ''active'', ''warm'', ''idle'', ''loading_model'', ''waiting_ready'', ''starting'', ''validating'',
     ''downloading'', ''loading'']"

definition taken_over :: "agent_runtime_row list \<Rightarrow> model_endpoint_row \<Rightarrow> bool" where
  "taken_over ars me \<longleftrightarrow> list_ex (\<lambda>ar. rr_endpoint ar = Some (er_ep me) \<and> rr_state ar \<in> set routed_states \<and> rr_port ar > 0) ars"

definition runtime_endpoint :: "agent_runtime_row \<Rightarrow> model_endpoint_row" where
  "runtime_endpoint ar =
     \<lparr>er_ep = rr_id ar, er_model_id = rr_model_id ar, er_model_name = rr_model_name ar, er_model_enabled = rr_model_enabled ar,
      er_backend = rr_backend ar, er_host = rr_host ar, er_port = rr_port ar, er_weight = 100,
      er_priority = (case rr_index ar of None \<Rightarrow> 0 | Some i \<Rightarrow> i) + 1,
      er_health = (if rr_state ar \<in> {''ready'', ''active'', ''warm'', ''idle''} then StatusHealthy else StatusDown),
      er_is_enabled = True,
      er_upstream = \<lparr>us_backend = rr_backend ar, us_base_url = [], us_key = [], us_model = [], us_credential = []\<rparr>\<rparr>"

definition loadEndpoints :: "model_endpoint_row list \<Rightarrow> agent_runtime_row list \<Rightarrow> model_endpoint_row list" where
  "loadEndpoints mes ars =
     sort_key er_model_name (sort_key er_priority (sort_key (\<lambda>r. - er_weight r)
       (filter (\<lambda>me. er_is_enabled me \<and> er_model_enabled me \<and> \<not> taken_over ars me) mes @
        map runtime_endpoint (filter (\<lambda>ar. rr_state ar \<in> set routed_states \<and> rr_host ar \<noteq> [] \<and> rr_port ar > 0 \<and> rr_model_enabled ar) ars))))"

definition loaded_status :: "model_endpoint_row \<Rightarrow> HealthStatus" where
  "loaded_status row = (if IsProviderBackend (er_backend row) \<and> er_health row = StatusDown then StatusDegraded else er_health row)"

definition loaded_endpoint :: "model_endpoint_row \<Rightarrow> Endpoint" where
  "loaded_endpoint row =
     \<lparr>ep_id = er_ep row, ep_model = er_model_id row, ep_url = ''http://'' @ er_host row @ '':'' @ FormatInt (er_port row), ep_weight = er_weight row, ep_priority = er_priority row,
      ep_status = loaded_status row, ep_conns = 0, ep_last_success = 0\<rparr>"

definition add_row :: "model_endpoint_row \<Rightarrow> registry \<Rightarrow> registry" where
  "add_row row reg =
     (let pool = (case pools reg (er_model_name row) of Some p \<Rightarrow> p | None \<Rightarrow> NewPool (er_model_id row) StrategyRoundRobin) in
      reg\<lparr>pools := (pools reg)(er_model_name row \<mapsto> Add (loaded_endpoint row) pool),
          upstreams := (upstreams reg)(er_ep row := (er_upstream row)\<lparr>us_backend := er_backend row, us_credential := []\<rparr>)\<rparr>)"

definition Reload :: "bool \<Rightarrow> model_endpoint_row list \<Rightarrow> agent_runtime_row list \<Rightarrow> registry \<Rightarrow> registry" where
  "Reload fails mes ars reg =
     (if fails then reg else fold add_row (loadEndpoints mes ars) (reg\<lparr>pools := (\<lambda>_. None)\<rparr>))"

subsection \<open>Choosing an endpoint\<close>

text \<open>
  The loop of \<open>ResolveWithFailover\<close>; \<open>intn\<close> gives the random draws of each round. A panic in \<open>Pick\<close> ends it
  like an error.
\<close>

fun resolve_loop :: "(nat \<Rightarrow> int \<Rightarrow> int) \<Rightarrow> nat \<Rightarrow> id list \<Rightarrow> Pool \<Rightarrow> Endpoint option \<times> Pool" where
  "resolve_loop intn 0 tried pool = (None, pool)"
| "resolve_loop intn (Suc n) tried pool =
     (case Pick (intn n) pool of
        (Inl _, pool') \<Rightarrow> (None, pool')
      | (Inr ep, pool') \<Rightarrow>
          if ep_id ep \<in> set tried then resolve_loop intn n tried pool'
          else if IsAvailable ep then (Some ep, pool')
          else resolve_loop intn n (ep_id ep # tried) pool')"

definition ResolveWithFailover :: "(nat \<Rightarrow> int \<Rightarrow> int) \<Rightarrow> nat \<Rightarrow> string \<Rightarrow> registry \<Rightarrow> Endpoint option \<times> registry" where
  "ResolveWithFailover intn maxAttempts modelName reg =
     (case pools reg modelName of
        None \<Rightarrow> (None, reg)
      | Some pool \<Rightarrow>
          (let (ep, pool') = resolve_loop intn maxAttempts [] pool in (ep, reg\<lparr>pools := (pools reg)(modelName \<mapsto> pool')\<rparr>)))"

definition map_endpoint :: "string \<Rightarrow> id \<Rightarrow> (Endpoint \<Rightarrow> Endpoint) \<Rightarrow> registry \<Rightarrow> registry" where
  "map_endpoint modelName epID f reg =
     (case pools reg modelName of
        None \<Rightarrow> reg
      | Some pool \<Rightarrow> reg\<lparr>pools := (pools reg)(modelName \<mapsto>
          pool\<lparr>endpoints := map (\<lambda>e. if ep_id e = epID then f e else e) (endpoints pool)\<rparr>)\<rparr>)"

definition UpdateEndpointHealth :: "int \<Rightarrow> id \<Rightarrow> string \<Rightarrow> HealthStatus \<Rightarrow> registry \<Rightarrow> registry" where
  "UpdateEndpointHealth now epID modelName status reg =
     (case pools reg modelName of
        None \<Rightarrow> reg
      | Some _ \<Rightarrow> (map_endpoint modelName epID (SetStatus now status) reg)\<lparr>health_keys := (epID, status) # health_keys reg\<rparr>)"

definition RemoveEndpoint :: "string \<Rightarrow> id \<Rightarrow> registry \<Rightarrow> registry" where
  "RemoveEndpoint modelName epID reg =
     (case pools reg modelName of None \<Rightarrow> reg | Some pool \<Rightarrow> reg\<lparr>pools := (pools reg)(modelName \<mapsto> Remove epID pool)\<rparr>)"

definition SetPoolStrategy :: "string \<Rightarrow> RoutingStrategy \<Rightarrow> registry \<Rightarrow> bool \<times> registry" where
  "SetPoolStrategy modelName strategy reg =
     (case pools reg modelName of
        None \<Rightarrow> (False, reg)
      | Some pool \<Rightarrow> (True, reg\<lparr>pools := (pools reg)(modelName \<mapsto> pool\<lparr>Strategy := strategy\<rparr>)\<rparr>))"

text \<open>The table of models, with the columns of the slow path and of the capability check.\<close>

record registry_model = model_row +
  md_backend :: string
  md_capabilities :: "string list"
  md_service :: string

definition IsRemoteModel ::
    "bool \<Rightarrow> (int \<Rightarrow> int) \<Rightarrow> string \<Rightarrow> registry_model list \<Rightarrow> registry \<Rightarrow> bool \<times> registry" where
  "IsRemoteModel fails intn modelName tbl reg =
     (let slow = (if fails then False
                  else case sort_key (\<lambda>m. - md_created m)
                      (filter (\<lambda>m. md_name m = modelName \<and> md_enabled m \<and> not_deleted (model_row.truncate m)) tbl) of
                    [] \<Rightarrow> False | m # _ \<Rightarrow> IsProviderBackend (md_backend m)) in
      case pools reg modelName of
        None \<Rightarrow> (slow, reg)
      | Some pool \<Rightarrow>
          (let (res, pool') = Pick intn pool; reg' = reg\<lparr>pools := (pools reg)(modelName \<mapsto> pool')\<rparr> in
           case res of Inr ep \<Rightarrow> (IsProviderBackend (us_backend (upstreams reg (ep_id ep))), reg') | Inl _ \<Rightarrow> (slow, reg')))"

subsection \<open>Capabilities\<close>

definition DefaultCapabilities :: "string \<Rightarrow> string list" where
  "DefaultCapabilities s =
     (if s = ''CHAT'' \<or> s = ''AGENT'' \<or> s = ''MCP'' then [''chat'', ''completion'']
      else if s = ''EMBEDDING'' then [''embedding'']
      else if s = ''RERANK'' then [''rerank'']
      else if s = ''STT'' then [''transcription'']
      else if s = ''TTS'' then [''speech'']
      else if s = ''OCR'' then [''ocr'']
      else if s = ''VISION'' then [''chat'', ''vision'']
      else if s = ''IMAGE_GENERATION'' then [''image_generation'']
      else if s = ''MODERATION'' then [''moderation'']
      else [])"

definition GetModelCapabilities :: "bool \<Rightarrow> string \<Rightarrow> registry_model list \<Rightarrow> string list option" where
  "GetModelCapabilities fails modelName tbl =
     (if fails then None
      else case find (\<lambda>m. md_name m = modelName \<and> md_enabled m) tbl of
        None \<Rightarrow> None
      | Some m \<Rightarrow>
          if md_capabilities m \<noteq> [] then Some (md_capabilities m)
          else if md_service m \<noteq> [] then Some (DefaultCapabilities (md_service m))
          else Some [])"

definition endpointCapability :: "(string \<times> string) list" where
  "endpointCapability =
     [(''/v1/chat/completions'', ''chat''), (''/v1/completions'', ''completion''), (''/v1/responses'', ''responses''),
      (''/v1/embeddings'', ''embedding''), (''/v1/rerank'', ''rerank''), (''/v1/audio/transcriptions'', ''transcription''),
      (''/v1/audio/speech'', ''speech''), (''/v1/images/generations'', ''image_generation''), (''/v1/moderations'', ''moderation''),
      (''/v1/ocr'', ''ocr'')]"

definition RequiredCapabilityForRoute :: "string \<Rightarrow> string option" where
  "RequiredCapabilityForRoute routePath = map_of endpointCapability routePath"

text \<open>\<open>None\<close>: the request is let through. \<open>Some (required, have)\<close>: the model does not serve the route.\<close>

definition Validate :: "bool \<Rightarrow> registry_model list \<Rightarrow> virtual_cache \<Rightarrow> string \<Rightarrow> string \<Rightarrow> (string \<times> string list) option" where
  "Validate fails tbl vc modelName routePath =
     (case RequiredCapabilityForRoute routePath of
        None \<Rightarrow> None
      | Some required \<Rightarrow>
          (case (case GetModelCapabilities fails modelName tbl of Some caps \<Rightarrow> Some caps | None \<Rightarrow> virtual_capabilities vc modelName) of
             None \<Rightarrow> None
           | Some caps \<Rightarrow> if required \<in> set caps then None else Some (required, caps)))"

subsection \<open>Facts\<close>

lemma Pick_mem: "fst (Pick intn p) = Inr e \<Longrightarrow> e \<in> set (available p)"
proof (cases "Strategy p")
  case StrategyActivePassive
  assume "fst (Pick intn p) = Inr e"
  then show ?thesis
    using StrategyActivePassive best_priority_least [of None "endpoints p" e]
    by (auto simp: Pick_def activePassive_def available_def split: option.splits)
next
  case StrategyLeastConn
  assume "fst (Pick intn p) = Inr e"
  then show ?thesis
    using StrategyLeastConn least_scan_least [OF refl, of "hd (available p)" "tl (available p)"]
    by (auto simp: Pick_def leastConn_def split: list.splits)
qed (auto simp: Pick_def dest: roundRobin_mem weighted_mem)

lemma Pick_frame:
  "endpoints (snd (Pick intn p)) = endpoints p" "Strategy (snd (Pick intn p)) = Strategy p"
  by (auto simp: Pick_def roundRobin_def weighted_def Let_def split: RoutingStrategy.split option.split)

lemma resolve_loop_once:
  "resolve_loop intn (Suc n) [] pool = (case Pick (intn n) pool of (Inl _, p) \<Rightarrow> (None, p) | (Inr ep, p) \<Rightarrow> (Some ep, p))"
  using Pick_mem [of "intn n" pool] by (auto simp: available_iff split: prod.split sum.split)

lemma resolve_mem:
  assumes "fst (ResolveWithFailover intn n modelName reg) = Some ep"
  shows "\<exists>pool. pools reg modelName = Some pool \<and> ep \<in> set (endpoints pool) \<and> IsAvailable ep"
proof -
  obtain pool where p: "pools reg modelName = Some pool" "fst (resolve_loop intn n [] pool) = Some ep"
    using assms by (auto simp: ResolveWithFailover_def split: option.splits prod.splits)
  then obtain m where n: "n = Suc m" by (cases n) auto
  from p(2) have "fst (Pick (intn m) pool) = Inr ep"
    unfolding n resolve_loop_once by (auto split: prod.splits sum.splits)
  from Pick_mem [OF this] p(1) show ?thesis by (simp add: available_iff)
qed

lemma resolve_frame:
  "upstreams (snd (ResolveWithFailover intn n modelName reg)) = upstreams reg"
  "map_option endpoints (pools (snd (ResolveWithFailover intn n modelName reg)) name) = map_option endpoints (pools reg name)"
proof -
  have loop: "endpoints (snd (resolve_loop intn n tried pool)) = endpoints pool" for n tried pool
  proof (induction n arbitrary: tried pool)
    case (Suc n)
    obtain res pool' where p: "Pick (intn n) pool = (res, pool')" by fastforce
    then have "endpoints pool' = endpoints pool" using Pick_frame(1) [of "intn n" pool] by simp
    with Suc.IH p show ?case by (cases res) simp_all
  qed simp
  show "upstreams (snd (ResolveWithFailover intn n modelName reg)) = upstreams reg"
    by (simp add: ResolveWithFailover_def split: option.split prod.split)
  show "map_option endpoints (pools (snd (ResolveWithFailover intn n modelName reg)) name) = map_option endpoints (pools reg name)"
    using loop [of n "[]"] by (auto simp: ResolveWithFailover_def split: option.split prod.split) (metis snd_conv)
qed

lemma add_row_strategy:
  "(\<forall>p. pools reg name = Some p \<longrightarrow> Strategy p = StrategyRoundRobin \<and> list_all (\<lambda>e. ep_conns e = 0) (endpoints p)) \<Longrightarrow>
   (\<forall>p. pools (add_row row reg) name = Some p \<longrightarrow> Strategy p = StrategyRoundRobin \<and> list_all (\<lambda>e. ep_conns e = 0) (endpoints p))"
  by (auto simp: add_row_def Let_def Add_def NewPool_def loaded_endpoint_def split: option.splits)

subsection \<open>Properties\<close>

text \<open>
  A reload forgets the routing strategy and the open connections. After a reload that succeeds,
  every pool uses round robin and counts no connections, whatever strategy was set for it and
  however many requests are under way.
\<close>

theorem reload_resets_pools:
  assumes "pools (Reload False mes ars reg) name = Some pool"
  shows "Strategy pool = StrategyRoundRobin \<and> list_all (\<lambda>e. ep_conns e = 0) (endpoints pool)"
proof -
  let ?ok = "\<lambda>reg. \<forall>p. pools reg name = Some p \<longrightarrow> Strategy p = StrategyRoundRobin \<and> list_all (\<lambda>e. ep_conns e = 0) (endpoints p)"
  have "?ok (fold add_row rows (reg\<lparr>pools := (\<lambda>_. None)\<rparr>))" for rows
    by (rule fold_inv [where P = ?ok], rule add_row_strategy) simp_all
  with assms show ?thesis by (simp add: Reload_def)
qed

definition demo_row :: model_endpoint_row where
  "demo_row = \<lparr>er_ep = ''e'', er_model_id = ''1'', er_model_name = ''m'', er_model_enabled = True, er_backend = ''vllm'', er_host = ''h'',
     er_port = 8000, er_weight = 1, er_priority = 1, er_health = StatusHealthy, er_is_enabled = True,
     er_upstream = \<lparr>us_backend = ''vllm'', us_base_url = [], us_key = [], us_model = [], us_credential = []\<rparr>\<rparr>"

definition empty_registry :: registry where
  "empty_registry = \<lparr>pools = (\<lambda>_. None), upstreams = (\<lambda>_. er_upstream demo_row), health_keys = []\<rparr>"

theorem reload_resets_pools_witness:
  "map_option Strategy (pools (Reload False [demo_row] [] (snd (SetPoolStrategy ''m'' StrategyLeastConn
     (Reload False [demo_row] [] empty_registry)))) ''m'') = Some StrategyRoundRobin"
proof -
  let ?reg = "snd (SetPoolStrategy ''m'' StrategyLeastConn (Reload False [demo_row] [] empty_registry))"
  have "pools (Reload False [demo_row] [] ?reg) ''m'' \<noteq> None"
    by (simp add: Reload_def loadEndpoints_def taken_over_def demo_row_def add_row_def Let_def)
  then obtain pool where "pools (Reload False [demo_row] [] ?reg) ''m'' = Some pool" by blast
  with reload_resets_pools [OF this] show ?thesis by simp
qed

end
