(* ===== verification/Stream_Relay.thy ===== *)
theory Stream_Relay
  imports Chat_Request
begin

text \<open>
  The relay of a streamed answer: the loop of \<open>streamChat\<close> in \<open>internal/proxy/handler.go\<close> and
  \<open>NormalizeStreamChunk\<close> of \<open>internal/models/types.go\<close>. The lines of the upstream are a list, after which the
  reader fails; \<open>ctx_err\<close> tells whether the client has gone. \<open>unmarshal\<close> and \<open>decode\<close> are the decodings of a payload
  by \<open>encoding/json\<close> into the two structs of the code (\<open>None\<close> when they fail). What is written to the client is a list of events; a chunk that was
  changed is written in its decoded form.
\<close>

subsection \<open>Chunks\<close>

text \<open>
  The relay decodes into \<open>ChatCompletionResponse\<close> (\<open>chunk\<close>, of which it only counts the choices); the
  normalisation decodes into a struct of its own (\<open>norm_chunk\<close>), whose other fields are kept as they are.
\<close>

record chunk_delta =
  cd_content :: json
  cd_reasoning :: json
  cd_rest :: json

record chunk_choice =
  cc_delta :: "chunk_delta option"
  cc_finish :: "string option"

record chunk_usage =
  cu_prompt :: int
  cu_completion :: int
  cu_total :: int
  cu_cached :: "int option"
  cu_reasoning :: "int option"

record chunk =
  ck_id :: string
  ck_created :: int
  ck_model :: string
  ck_choices :: nat
  ck_usage :: chunk_usage

record norm_chunk =
  nk_choices :: "chunk_choice list"
  nk_rest :: json

text \<open>
  What happens to one choice: the choice, whether it was modified, whether it asks to drop the chunk.
  A missing delta becomes one with an empty content.
\<close>

definition empty_delta :: chunk_delta where
  "empty_delta = \<lparr>cd_content = JStr [], cd_reasoning = JNull, cd_rest = JNull\<rparr>"

definition normalize_choice :: "chunk_choice \<Rightarrow> chunk_choice \<times> bool \<times> bool" where
  "normalize_choice ch =
     (let (d, m0) = (case cc_delta ch of Some d \<Rightarrow> (d, False) | None \<Rightarrow> (empty_delta, True));
          hasReasoning = (cd_reasoning d \<noteq> JNull);
          d1 = (if hasReasoning then d\<lparr>cd_reasoning := JNull\<rparr> else d);
          m1 = (m0 \<or> hasReasoning) in
      if cc_finish ch \<noteq> None then
        (if cd_content d1 = JNull then (ch\<lparr>cc_delta := Some (d1\<lparr>cd_content := JStr []\<rparr>)\<rparr>, True, False)
         else (ch\<lparr>cc_delta := Some d1\<rparr>, m1, False))
      else (ch\<lparr>cc_delta := Some d1\<rparr>, m1, hasReasoning \<and> (cd_content d1 = JNull \<or> cd_content d1 = JStr [])))"

datatype out_event =
    OutText string
  | OutChunk norm_chunk
  | OutLine string
  | OutUsage string int string int int
  | OutError string int string
  | OutDone

definition NormalizeStreamChunk :: "(string \<Rightarrow> norm_chunk option) \<Rightarrow> string \<Rightarrow> out_event option" where
  "NormalizeStreamChunk unmarshal payload =
     (let q = [CHR 0x22];
          delta = q @ ''delta'' @ q in
      if \<not> contains ''reasoning_content'' payload \<and> \<not> contains (delta @ '':{}'') payload \<and> \<not> contains (delta @ '': {}'') payload then
        Some (OutText payload)
      else case unmarshal payload of
        None \<Rightarrow> Some (OutText payload)
      | Some c \<Rightarrow>
          (let rs = map normalize_choice (nk_choices c) in
           if list_ex (\<lambda>r. snd (snd r)) rs then None
           else if \<not> list_ex (\<lambda>r. fst (snd r)) rs then Some (OutText payload)
           else Some (OutChunk (c\<lparr>nk_choices := map fst rs\<rparr>))))"

subsection \<open>The loop\<close>

record relay =
  rl_prompt :: int
  rl_completion :: int
  rl_cached :: int
  rl_reasoning :: int
  rl_seen_usage :: bool
  rl_id :: string
  rl_model :: string
  rl_created :: int
  rl_done :: bool
  rl_status :: string
  rl_out :: "out_event list"

definition relay_start :: relay where
  "relay_start = \<lparr>rl_prompt = 0, rl_completion = 0, rl_cached = 0, rl_reasoning = 0, rl_seen_usage = False, rl_id = [],
     rl_model = [], rl_created = 0, rl_done = False, rl_status = ''stream_error'', rl_out = []\<rparr>"

definition write_out :: "out_event list \<Rightarrow> relay \<Rightarrow> relay" where
  "write_out es st = st\<lparr>rl_out := rl_out st @ es\<rparr>"

text \<open>Token counts and metadata of one chunk.\<close>

definition note_metadata :: "string \<Rightarrow> chunk \<Rightarrow> relay \<Rightarrow> relay" where
  "note_metadata model c st =
     (if rl_id st = [] \<and> ck_id c \<noteq> [] then
        st\<lparr>rl_id := ck_id c, rl_model := (if ck_model c \<noteq> [] \<or> rl_model st = [] then model else rl_model st),
           rl_created := ck_created c\<rparr>
      else st)"

definition note_tokens :: "chunk_usage \<Rightarrow> relay \<Rightarrow> relay" where
  "note_tokens u st =
     (if cu_prompt u > 0 \<or> cu_completion u > 0 then
        st\<lparr>rl_prompt := cu_prompt u, rl_completion := cu_completion u,
           rl_cached := (case cu_cached u of Some n \<Rightarrow> n | None \<Rightarrow> rl_cached st),
           rl_reasoning := (case cu_reasoning u of Some n \<Rightarrow> n | None \<Rightarrow> rl_reasoning st)\<rparr>
      else st)"

definition note_usage_chunk :: "chunk \<Rightarrow> relay \<Rightarrow> relay" where
  "note_usage_chunk c st =
     (if ck_choices c = 0 \<and> cu_total (ck_usage c) > 0 then
        st\<lparr>rl_seen_usage := True, rl_prompt := cu_prompt (ck_usage c), rl_completion := cu_completion (ck_usage c)\<rparr>
      else st)"

definition note_chunk :: "(string \<Rightarrow> chunk option) \<Rightarrow> string \<Rightarrow> string \<Rightarrow> relay \<Rightarrow> relay" where
  "note_chunk decode model payload st =
     (case decode payload of
        None \<Rightarrow> st
      | Some c \<Rightarrow> note_usage_chunk c (note_tokens (ck_usage c) (note_metadata model c st)))"

definition finish_done :: "bool \<Rightarrow> relay \<Rightarrow> relay" where
  "finish_done wantsUsage st =
     (let st1 = st\<lparr>rl_done := True, rl_status := ''success''\<rparr> in
      if wantsUsage \<and> \<not> rl_seen_usage st \<and> rl_prompt st + rl_completion st > 0 then
        write_out [OutUsage (rl_id st) (rl_created st) (rl_model st) (rl_prompt st) (rl_completion st), OutDone] st1
      else write_out [OutDone] st1)"

definition finish_broken :: "bool \<Rightarrow> relay \<Rightarrow> relay" where
  "finish_broken ctx_err st =
     (let st1 = st\<lparr>rl_status := (if ctx_err then ''client_disconnected'' else ''stream_error'')\<rparr> in
      if \<not> rl_done st then write_out [OutError (rl_id st) (rl_created st) (rl_model st), OutDone] st1 else st1)"

fun relay_loop ::
    "(string \<Rightarrow> norm_chunk option) \<Rightarrow> (string \<Rightarrow> chunk option) \<Rightarrow> bool \<Rightarrow> string \<Rightarrow> bool \<Rightarrow> string list \<Rightarrow> relay \<Rightarrow> relay" where
  "relay_loop unmarshal decode wantsUsage model ctx_err [] st = finish_broken ctx_err st"
| "relay_loop unmarshal decode wantsUsage model ctx_err (line # ls) st =
     (if \<not> HasPrefix line ''data:'' then
        relay_loop unmarshal decode wantsUsage model ctx_err ls (if line \<noteq> [] then write_out [OutLine line] st else st)
      else
        (let payload = TrimSpace (drop 5 line) in
         if payload = ''[DONE]'' then finish_done wantsUsage st
         else
           (let st1 = note_chunk decode model payload st in
            case NormalizeStreamChunk unmarshal payload of
              None \<Rightarrow> relay_loop unmarshal decode wantsUsage model ctx_err ls st1
            | Some e \<Rightarrow> relay_loop unmarshal decode wantsUsage model ctx_err ls (write_out [e] st1))))"

subsection \<open>What one chunk becomes\<close>

definition pure_reasoning :: "chunk_choice \<Rightarrow> bool" where
  "pure_reasoning ch \<longleftrightarrow> cc_finish ch = None \<and>
     (case cc_delta ch of None \<Rightarrow> False | Some d \<Rightarrow> cd_reasoning d \<noteq> JNull \<and> cd_content d \<in> {JNull, JStr []})"

definition shows_reasoning :: "chunk_choice \<Rightarrow> bool" where
  "shows_reasoning ch \<longleftrightarrow> (case cc_delta ch of None \<Rightarrow> False | Some d \<Rightarrow> cd_reasoning d \<noteq> JNull)"

lemma normalize_drops: "snd (snd (normalize_choice ch)) = pure_reasoning ch"
  by (cases "cc_delta ch"; cases "cc_finish ch") (simp_all add: normalize_choice_def pure_reasoning_def empty_delta_def Let_def)

lemma normalize_hides: "\<not> shows_reasoning (fst (normalize_choice ch))"
  by (cases "cc_delta ch"; cases "cc_finish ch") (simp_all add: normalize_choice_def shows_reasoning_def empty_delta_def Let_def)

lemma normalize_marks: "shows_reasoning ch \<Longrightarrow> fst (snd (normalize_choice ch))"
  by (cases "cc_delta ch"; cases "cc_finish ch") (simp_all add: normalize_choice_def shows_reasoning_def Let_def)

lemma normalize_none:
  "NormalizeStreamChunk unmarshal payload = None \<Longrightarrow> \<exists>c. unmarshal payload = Some c \<and> list_ex pure_reasoning (nk_choices c)"
  unfolding NormalizeStreamChunk_def Let_def list_ex_iff
  by (auto simp: normalize_drops split: option.splits if_splits)

text \<open>What the client can decode from a forwarded event.\<close>

definition forwarded :: "(string \<Rightarrow> norm_chunk option) \<Rightarrow> out_event \<Rightarrow> norm_chunk option" where
  "forwarded unmarshal e = (case e of OutText p \<Rightarrow> unmarshal p | OutChunk c \<Rightarrow> Some c | _ \<Rightarrow> None)"

text \<open>The decoder only finds a reasoning field in a text that contains its name.\<close>

definition honest :: "(string \<Rightarrow> norm_chunk option) \<Rightarrow> bool" where
  "honest unmarshal \<longleftrightarrow>
     (\<forall>p c. unmarshal p = Some c \<longrightarrow> \<not> contains ''reasoning_content'' p \<longrightarrow> \<not> list_ex shows_reasoning (nk_choices c))"

lemma normalized_text:
  assumes "honest unmarshal" and "NormalizeStreamChunk unmarshal p = Some e" and "forwarded unmarshal e = Some c"
  shows "\<not> list_ex shows_reasoning (nk_choices c)"
proof (cases "contains ''reasoning_content'' p")
  case False
  from assms(2) consider "e = OutText p" | c0 where "unmarshal p = Some c0"
      "e = OutChunk (c0\<lparr>nk_choices := map fst (map normalize_choice (nk_choices c0))\<rparr>)"
    by (auto simp: NormalizeStreamChunk_def Let_def split: if_splits option.splits)
  then show ?thesis
  proof cases
    case 1
    then show ?thesis using assms(1,3) False by (simp add: honest_def forwarded_def)
  next
    case 2
    then show ?thesis using assms(3) by (auto simp: forwarded_def list_ex_iff normalize_hides)
  qed
next
  case True
  show ?thesis
  proof (cases "unmarshal p")
    case None
    then show ?thesis using assms(2,3) True by (auto simp: NormalizeStreamChunk_def Let_def forwarded_def split: if_splits)
  next
    case (Some c0)
    then show ?thesis
      using assms(2,3) True
      by (auto simp: NormalizeStreamChunk_def Let_def forwarded_def list_ex_iff normalize_hides dest: normalize_marks split: if_splits)
  qed
qed

subsection \<open>The whole stream\<close>

lemma write_out_simps [simp]:
  "rl_out (write_out es st) = rl_out st @ es" "rl_done (write_out es st) = rl_done st" "rl_status (write_out es st) = rl_status st"
  "rl_prompt (write_out es st) = rl_prompt st" "rl_completion (write_out es st) = rl_completion st"
  "rl_seen_usage (write_out es st) = rl_seen_usage st"
  by (simp_all add: write_out_def)

lemma note_chunk_frame [simp]:
  "rl_out (note_chunk decode model p st) = rl_out st" "rl_done (note_chunk decode model p st) = rl_done st"
  by (simp_all add: note_chunk_def note_usage_chunk_def note_tokens_def note_metadata_def split: option.split)

lemma normalize_no_done: "NormalizeStreamChunk unmarshal p = Some e \<Longrightarrow> e \<noteq> OutDone"
  by (auto simp: NormalizeStreamChunk_def Let_def split: if_splits option.splits)

definition is_done :: "string \<Rightarrow> bool" where
  "is_done line \<longleftrightarrow> HasPrefix line ''data:'' \<and> TrimSpace (drop 5 line) = ''[DONE]''"

lemma relay_ends:
  assumes "\<not> rl_done st"
  shows "\<exists>es. rl_out (relay_loop unmarshal decode w m ctx ls st) = rl_out st @ es @ [OutDone] \<and> OutDone \<notin> set es"
  using assms
proof (induction ls arbitrary: st)
  case Nil
  then show ?case by (simp add: finish_broken_def Let_def)
next
  case (Cons l ls)
  let ?p = "TrimSpace (drop 5 l)"
  consider "\<not> HasPrefix l ''data:''" | "HasPrefix l ''data:''" "?p = ''[DONE]''" | "HasPrefix l ''data:''" "?p \<noteq> ''[DONE]''" by blast
  then show ?case
  proof cases
    case 1
    define st0 where "st0 = (if l \<noteq> [] then write_out [OutLine l] st else st)"
    have "\<not> rl_done st0" using Cons.prems by (simp add: st0_def)
    then obtain es where es: "rl_out (relay_loop unmarshal decode w m ctx ls st0) = rl_out st0 @ es @ [OutDone]" "OutDone \<notin> set es"
      using Cons.IH by blast
    have "rl_out st0 = rl_out st @ (if l \<noteq> [] then [OutLine l] else [])" by (simp add: st0_def)
    then show ?thesis
      using 1 es by (intro exI [of _ "(if l \<noteq> [] then [OutLine l] else []) @ es"]) (simp add: st0_def [symmetric])
  next
    case 2
    then show ?thesis by (auto simp: finish_done_def Let_def)
  next
    case 3
    define st1 where "st1 = note_chunk decode m ?p st"
    show ?thesis
    proof (cases "NormalizeStreamChunk unmarshal ?p")
      case None
      then show ?thesis using 3 Cons.IH [of st1] Cons.prems by (simp add: st1_def Let_def)
    next
      case (Some e)
      then have "e \<noteq> OutDone" by (rule normalize_no_done)
      moreover obtain es where "rl_out (relay_loop unmarshal decode w m ctx ls (write_out [e] st1)) = rl_out st @ [e] @ es @ [OutDone]"
          "OutDone \<notin> set es"
        using Cons.IH [of "write_out [e] st1"] Cons.prems by (auto simp: st1_def)
      ultimately show ?thesis using 3 Some by (intro exI [of _ "e # es"]) (simp add: st1_def Let_def)
    qed
  qed
qed

lemma relay_status:
  "rl_status (relay_loop unmarshal decode w m ctx ls st) =
     (if list_ex is_done ls then ''success'' else if ctx then ''client_disconnected'' else ''stream_error'')"
  by (induction ls arbitrary: st)
    (auto simp: finish_broken_def finish_done_def is_done_def Let_def split: option.split)

lemma relay_hides:
  assumes "honest unmarshal"
    and "\<And>e c. e \<in> set (rl_out st) \<Longrightarrow> forwarded unmarshal e = Some c \<Longrightarrow> \<not> list_ex shows_reasoning (nk_choices c)"
    and "e \<in> set (rl_out (relay_loop unmarshal decode w m ctx ls st))" and "forwarded unmarshal e = Some c"
  shows "\<not> list_ex shows_reasoning (nk_choices c)"
  using assms(2,3)
proof (induction ls arbitrary: st)
  case Nil
  then show ?case using assms(4) by (auto simp: finish_broken_def Let_def forwarded_def split: if_splits)
next
  case (Cons l ls)
  let ?p = "TrimSpace (drop 5 l)"
  consider "\<not> HasPrefix l ''data:''" | "HasPrefix l ''data:''" "?p = ''[DONE]''" | "HasPrefix l ''data:''" "?p \<noteq> ''[DONE]''" by blast
  then show ?case
  proof cases
    case 1
    show ?thesis
    proof (rule Cons.IH)
      show "e \<in> set (rl_out (relay_loop unmarshal decode w m ctx ls (if l \<noteq> [] then write_out [OutLine l] st else st)))"
        using Cons.prems(2) 1 by simp
      show "\<not> list_ex shows_reasoning (nk_choices c')"
        if "e' \<in> set (rl_out (if l \<noteq> [] then write_out [OutLine l] st else st))" "forwarded unmarshal e' = Some c'" for e' c'
        using that Cons.prems(1) [of e' c'] by (auto simp: forwarded_def split: if_splits)
    qed
  next
    case 2
    then have "e \<in> set (rl_out st)"
      using Cons.prems(2) assms(4) by (auto simp: finish_done_def Let_def forwarded_def split: if_splits)
    then show ?thesis using Cons.prems(1) assms(4) by blast
  next
    case 3
    define st1 where "st1 = note_chunk decode m ?p st"
    show ?thesis
    proof (cases "NormalizeStreamChunk unmarshal ?p")
      case None
      then show ?thesis using 3 Cons.IH [of st1] Cons.prems by (simp add: st1_def Let_def)
    next
      case (Some e1)
      show ?thesis
      proof (rule Cons.IH)
        show "e \<in> set (rl_out (relay_loop unmarshal decode w m ctx ls (write_out [e1] st1)))"
          using Cons.prems(2) 3 Some by (simp add: st1_def Let_def)
        show "\<not> list_ex shows_reasoning (nk_choices c')"
          if "e' \<in> set (rl_out (write_out [e1] st1))" "forwarded unmarshal e' = Some c'" for e' c'
          using that Cons.prems(1) [of e' c'] normalized_text [OF assms(1) Some, of c'] by (auto simp: st1_def)
      qed
    qed
  qed
qed

text \<open>
  C14: whatever lines the upstream sends and wherever it breaks off, the client of a streamed completion gets a
  stream that ends with \<open>data: [DONE]\<close> and has it nowhere before, and the request is recorded as a success
  exactly when the upstream itself sent \<open>[DONE]\<close>, as \<open>client_disconnected\<close> or \<open>stream_error\<close> otherwise.
\<close>

theorem stream_ends_once:
  "\<exists>es. rl_out (relay_loop unmarshal decode w m ctx ls relay_start) = es @ [OutDone] \<and> OutDone \<notin> set es \<and>
     rl_status (relay_loop unmarshal decode w m ctx ls relay_start) =
       (if list_ex is_done ls then ''success'' else if ctx then ''client_disconnected'' else ''stream_error'')"
  using relay_ends [of relay_start unmarshal decode w m ctx ls] relay_status [of unmarshal decode w m ctx ls relay_start]
  by (simp add: relay_start_def)

text \<open>
  No chunk that a client can decode from the relayed stream shows reasoning content, for a decoder that finds
  the field only in a text that contains its name.
\<close>

theorem stream_hides_reasoning:
  assumes "honest unmarshal"
    and "e \<in> set (rl_out (relay_loop unmarshal decode w m ctx ls relay_start))" and "forwarded unmarshal e = Some c"
  shows "\<not> list_ex shows_reasoning (nk_choices c)"
  using relay_hides [OF assms(1) _ assms(2,3)] by (simp add: relay_start_def)

theorem stream_hides_reasoning_witness:
  "\<not> list_ex shows_reasoning (nk_choices (the (forwarded (\<lambda>p. if contains ''reasoning_content'' p then
       Some \<lparr>nk_choices = [\<lparr>cc_delta = Some \<lparr>cd_content = JStr ''a'', cd_reasoning = JStr ''b'', cd_rest = JNull\<rparr>, cc_finish = None\<rparr>],
             nk_rest = JNull\<rparr> else None)
     (hd (rl_out (relay_loop (\<lambda>p. if contains ''reasoning_content'' p then
       Some \<lparr>nk_choices = [\<lparr>cc_delta = Some \<lparr>cd_content = JStr ''a'', cd_reasoning = JStr ''b'', cd_rest = JNull\<rparr>, cc_finish = None\<rparr>],
             nk_rest = JNull\<rparr> else None) (\<lambda>p. None) False ''m'' False [''data: reasoning_content''] relay_start))))))"
proof -
  let ?c = "\<lparr>nk_choices = [\<lparr>cc_delta = Some \<lparr>cd_content = JStr ''a'', cd_reasoning = JStr ''b'', cd_rest = JNull\<rparr>, cc_finish = None\<rparr>],
    nk_rest = JNull\<rparr>"
  let ?n = "\<lparr>nk_choices = [\<lparr>cc_delta = Some \<lparr>cd_content = JStr ''a'', cd_reasoning = JNull, cd_rest = JNull\<rparr>, cc_finish = None\<rparr>],
    nk_rest = JNull\<rparr>"
  let ?u = "\<lambda>p. if contains ''reasoning_content'' p then Some ?c else None"
  have 1: "honest ?u" by (simp add: honest_def)
  have 2: "rl_out (relay_loop ?u (\<lambda>p. None) False ''m'' False [''data: reasoning_content''] relay_start) =
      [OutChunk ?n, OutError [] 0 [], OutDone]"
    by code_simp
  have 3: "forwarded ?u (OutChunk ?n) = Some ?n" by (simp add: forwarded_def)
  have "\<not> list_ex shows_reasoning (nk_choices ?n)"
    by (rule stream_hides_reasoning [OF 1 _ 3, where decode = "\<lambda>p. None" and w = False and m = "''m''" and ctx = False
      and ls = "[''data: reasoning_content'']"]) (simp only: 2, simp)
  then show ?thesis by (simp only: 2 list.sel 3 option.sel not_False_eq_True)
qed

text \<open>
  A chunk in which one choice only reasons is dropped whole, even when another choice of it carries the finish
  reason: the client never sees that stop signal.
\<close>

theorem reasoning_choice_drops_stop:
  assumes "contains ''reasoning_content'' p" and "unmarshal p = Some c"
    and "pure_reasoning ch" and "ch \<in> set (nk_choices c)" and "stop \<in> set (nk_choices c)" and "cc_finish stop = Some r"
  shows "NormalizeStreamChunk unmarshal p = None"
  using assms by (auto simp: NormalizeStreamChunk_def Let_def list_ex_iff normalize_drops)

theorem reasoning_choice_drops_stop_witness:
  "NormalizeStreamChunk (\<lambda>p. Some
      \<lparr>nk_choices = [\<lparr>cc_delta = Some \<lparr>cd_content = JNull, cd_reasoning = JStr ''b'', cd_rest = JNull\<rparr>, cc_finish = None\<rparr>,
                     \<lparr>cc_delta = Some \<lparr>cd_content = JStr ''end'', cd_reasoning = JNull, cd_rest = JNull\<rparr>, cc_finish = Some ''stop''\<rparr>],
       nk_rest = JNull\<rparr>) ''reasoning_content'' = None"
  by (rule reasoning_choice_drops_stop [where r = "''stop''" and stop = "\<lparr>cc_delta = Some \<lparr>cd_content = JStr ''end'', cd_reasoning = JNull, cd_rest = JNull\<rparr>, cc_finish = Some ''stop''\<rparr>"
      and ch = "\<lparr>cc_delta = Some \<lparr>cd_content = JNull, cd_reasoning = JStr ''b'', cd_rest = JNull\<rparr>, cc_finish = None\<rparr>"])
    (code_simp, rule refl, simp_all add: pure_reasoning_def)

end
