(* ===== verification/Proxy_Handler.thy ===== *)
theory Proxy_Handler
  imports Chat_Answer Prompt_Policy Model_Alias Model_Registry Stream_Relay
begin

text \<open>
  \<open>internal/proxy/handler.go\<close> and \<open>multiservice.go\<close>: the pipeline of an inference request, from the
  claims of the caller to the upstream calls, the answer and the usage event.

  \<open>gw_state\<close> is what a request may change: Redis, the registry, the catalogue, the tracker of cold starts, and
  the records of what was written to the client, asked of upstreams, reported as usage and noted as
  activity. \<open>gw_env\<close> is what it only reads: the clock, the behaviour of network and database, the tables, the
  components that are wired, and the code outside the repository: \<open>encoding/json\<close>, the decryption of secrets,
  the random numbers and the answers of the upstreams (\<open>ev_answer k c\<close> answers call \<open>c\<close> when \<open>k\<close> calls were made
  before). \<open>EnsureRunning\<close> is an operation of the interface \<open>Activator\<close>: \<open>ev_probe\<close> is its result for the probe, with
  the registry afterwards. Prometheus metrics, response headers, log lines and the texts of error messages are left out.
\<close>

subsection \<open>State\<close>

record claims =
  cl_org :: id
  cl_team :: id
  cl_project :: id
  cl_project_name :: string
  cl_weight :: int
  cl_key :: id

record team_project =
  tj_id :: id
  tj_name :: string
  tj_team :: "id option"
  tj_org :: id
  tj_status :: string
  tj_priority :: string
  tj_weight :: int

record gateway_model = registry_model +
  md_mode :: "string option"
  md_project :: "id option"

record usage_event =
  ue_org :: id
  ue_team :: id
  ue_model :: string
  ue_endpoint :: id
  ue_credential :: id
  ue_prompt :: int
  ue_completion :: int
  ue_cached :: int
  ue_reasoning :: int
  ue_status :: string
  ue_project :: "id option"
  ue_project_name :: "string option"
  ue_priority :: "string option"
  ue_weight :: "int option"

text \<open>The body of an upstream call: a chat request, or the model and the other fields of another request.\<close>

datatype call_body = ChatBody chat_request | OtherBody string json

record chat_call =
  ca_url :: string
  ca_key :: string
  ca_backend :: string
  ca_body :: call_body

record backend_response =
  br_status :: int
  br_body :: string
  br_stream :: "string list option"

datatype reply =
    Abort int string
  | Raw int string
  | Completion int chat_answer
  | Vectors string json
  | Events "out_event list"

record gw_state =
  g_redis :: policy_redis
  g_reg :: registry
  g_cat :: catalog_db
  g_cache :: "virtual_cache option"
  g_starting :: "string list"
  g_launched :: "string list"
  g_calls :: "chat_call list"
  g_out :: "reply list"
  g_usage :: "usage_event list"
  g_activity :: "id list"

record gw_env =
  ev_clock :: clock
  ev_net :: network
  ev_pipe :: "string \<Rightarrow> nat option"
  ev_flt :: faults
  ev_gone :: bool
  ev_has_db :: bool
  ev_has_validator :: bool
  ev_has_virtual :: bool
  ev_has_activator :: bool
  ev_has_tracker :: bool
  ev_has_thinking :: bool
  ev_aliases :: "alias_row list"
  ev_gateway :: "gateway_policy_row list"
  ev_prompt :: "prompt_policy list"
  ev_models :: "gateway_model list"
  ev_thinking :: "thinking_row list"
  ev_projects :: "team_project list"
  ev_pricing :: "model_pricing list"
  ev_team_policies :: "id \<Rightarrow> TeamPolicy option"
  ev_pick :: "string list \<Rightarrow> string"
  ev_number :: "rat \<Rightarrow> string"
  ev_intn :: "nat \<Rightarrow> nat \<Rightarrow> int \<Rightarrow> int"
  ev_decrypt :: "(string \<Rightarrow> string option) option"
  ev_price :: "string \<Rightarrow> decimal option"
  ev_marshal :: "json \<Rightarrow> string"
  ev_decode :: "string \<Rightarrow> chat_answer option"
  ev_chunk :: "string \<Rightarrow> chunk option"
  ev_unmarshal :: "string \<Rightarrow> norm_chunk option"
  ev_probe :: "string \<Rightarrow> registry \<Rightarrow> bool \<times> registry"
  ev_answer :: "nat \<Rightarrow> chat_call \<Rightarrow> string + backend_response"

definition put_reply :: "reply \<Rightarrow> gw_state \<Rightarrow> gw_state" where
  "put_reply r s = s\<lparr>g_out := g_out s @ [r]\<rparr>"

definition abortErr :: "int \<Rightarrow> string \<Rightarrow> gw_state \<Rightarrow> gw_state" where
  "abortErr status code = put_reply (Abort status code)"

subsection \<open>Who is asking\<close>

text \<open>The row an \<open>X-Nexus-Project\<close> header may name: an active project of the caller's own team.\<close>

definition own_project :: "id \<Rightarrow> id \<Rightarrow> string \<Rightarrow> team_project \<Rightarrow> bool" where
  "own_project teamID orgID hdr p \<longleftrightarrow>
     (tj_name p = hdr \<or> tj_id p = hdr) \<and> tj_team p = Some teamID \<and> tj_org p = orgID \<and> tj_status p = ''active''"

definition resolveTeamProjectOverride :: "bool \<Rightarrow> id \<Rightarrow> id \<Rightarrow> string \<Rightarrow> team_project list \<Rightarrow> team_project option" where
  "resolveTeamProjectOverride fails teamID orgID hdr tbl =
     (if fails \<or> teamID = [] \<or> orgID = [] then None else find (own_project teamID orgID hdr) tbl)"

definition applyProjectHeaderOverride :: "gw_env \<Rightarrow> string \<Rightarrow> claims \<Rightarrow> claims" where
  "applyProjectHeaderOverride ev hdr cl =
     (if cl_project cl \<noteq> [] then cl
      else if hdr = [] \<or> \<not> ev_has_db ev then cl
      else case resolveTeamProjectOverride (ev_flt ev ''project override'') (cl_team cl) (cl_org cl) hdr (ev_projects ev) of
        None \<Rightarrow> cl
      | Some p \<Rightarrow> cl\<lparr>cl_project := tj_id p, cl_project_name := tj_name p, cl_weight := tj_weight p\<rparr>)"

definition teamPolicy :: "gw_env \<Rightarrow> id \<Rightarrow> TeamPolicy" where
  "teamPolicy ev teamID =
     (case ev_team_policies ev teamID of
        Some tp \<Rightarrow> tp
      | None \<Rightarrow> \<lparr>tp_RPMLimit = 100, tp_TPDLimit = 1000000, tp_MaxConcurrent = 10, tp_MaxContextTokens = 8192\<rparr>)"

definition lookupProjectContext ::
    "gw_env \<Rightarrow> string \<Rightarrow> claims \<Rightarrow> id option \<times> string option \<times> string option \<times> int option" where
  "lookupProjectContext ev modelName cl =
     (if cl_project cl \<noteq> [] then (Some (cl_project cl), Some (cl_project_name cl), None, Some (cl_weight cl))
      else if \<not> ev_has_db ev \<or> ev_flt ev ''project context'' then (None, None, None, None)
      else
        (case concat (map (\<lambda>m. filter (\<lambda>p. md_project m = Some (tj_id p)) (ev_projects ev))
                (filter (\<lambda>m. md_name m = modelName \<and> md_enabled m) (ev_models ev))) of
           [] \<Rightarrow> (None, None, None, None)
         | p # _ \<Rightarrow> (Some (tj_id p), Some (tj_name p), Some (tj_priority p), Some (tj_weight p))))"

subsection \<open>Policies\<close>

definition plain_model :: "gateway_model \<Rightarrow> model_row" where
  "plain_model m = model_row.truncate m"

definition known_model :: "gateway_model \<Rightarrow> registry_model" where
  "known_model m = registry_model.truncate m"

text \<open>The cache of virtual models is built by the first call that needs it.\<close>

definition with_cache :: "gw_env \<Rightarrow> gw_state \<Rightarrow> virtual_cache \<times> gw_state" where
  "with_cache ev s = (let (vc, c) = getCache (ev_flt ev) (g_cat s) (g_cache s) in (vc, s\<lparr>g_cache := c\<rparr>))"

definition CheckAndAbort :: "gw_env \<Rightarrow> string \<Rightarrow> string \<Rightarrow> gw_state \<Rightarrow> bool \<times> gw_state" where
  "CheckAndAbort ev modelName route s =
     (let tbl = map known_model (ev_models ev);
          known = RequiredCapabilityForRoute route = None \<or> GetModelCapabilities (ev_flt ev ''capabilities'') modelName tbl \<noteq> None;
          (vc, s1) = (if known \<or> \<not> ev_has_virtual ev then (empty_virtual, s) else with_cache ev s) in
      case Validate (ev_flt ev ''capabilities'') tbl vc modelName route of
        None \<Rightarrow> (True, s1)
      | Some _ \<Rightarrow> (False, abortErr 400 ''invalid_model'' s1))"

definition rate_reasons :: "string list" where
  "rate_reasons =
     [''project_rate_limit_exceeded'', ''project_token_rate_exceeded'', ''project_daily_budget_exceeded'',
      ''project_monthly_budget_exceeded'', ''rate_limit_exceeded'', ''daily_quota_exceeded'', ''org_monthly_budget_exceeded'']"

definition reject_status :: "PolicyDecision \<Rightarrow> int" where
  "reject_status d = (if QueueInstead d then 429 else if RejectReason d \<in> set rate_reasons then 429 else 403)"

definition infrastructure_policy :: "gw_env \<Rightarrow> claims \<Rightarrow> string \<Rightarrow> int \<Rightarrow> gw_state \<Rightarrow> bool \<times> gw_state" where
  "infrastructure_policy ev cl model est s =
     (let priority = (if cl_weight cl > 0 then cl_weight cl else 500);
          (d, r) = Evaluate (ev_net ev) (ev_clock ev)
            \<lparr>Model = model, EstimatedInputTokens = est, OrgID = cl_org cl, TeamID = cl_team cl, ProjectID = cl_project cl\<rparr>
            priority (Some (teamPolicy ev (cl_team cl))) (g_redis s);
          s1 = s\<lparr>g_redis := r\<rparr> in
      if Allowed d then (True, s1) else (False, abortErr (reject_status d) (RejectReason d) s1))"

definition resolve_alias :: "gw_env \<Rightarrow> claims \<Rightarrow> string \<Rightarrow> gw_state \<Rightarrow> string \<times> gw_state" where
  "resolve_alias ev cl model s =
     (let (real, r) = Resolve (ev_net ev) (\<lambda>l. ev_flt ev (''alias:'' @ l)) (ev_pick ev) (c_now (ev_clock ev)) model (cl_team cl) (cl_org cl)
            (ev_aliases ev, map plain_model (ev_models ev)) (g_redis s) in
      (real, s\<lparr>g_redis := r\<rparr>))"

definition prompt_check :: "gw_env \<Rightarrow> claims \<Rightarrow> perm_db \<Rightarrow> chat_request \<Rightarrow> prompt_decision" where
  "prompt_check ev cl db q =
     evaluate_prompt (ev_number ev) (\<lambda>l. ev_flt ev (''prompt:'' @ l)) (cl_org cl) (cl_team cl) (q_model q) db (ev_prompt ev) q"

subsection \<open>Cold start\<close>

definition IsManuallyDeployed :: "gw_env \<Rightarrow> string \<Rightarrow> bool" where
  "IsManuallyDeployed ev modelName =
     (if ev_flt ev ''deployment mode'' then False
      else case sort_key (\<lambda>m. - md_created m) (filter (\<lambda>m. md_name m = modelName \<and> md_enabled m \<and> not_deleted (plain_model m)) (ev_models ev)) of
        [] \<Rightarrow> False
      | m # _ \<Rightarrow> or_else (md_mode m) ''managed'' = ''manual'')"

definition IsStarting :: "string \<Rightarrow> string list \<Rightarrow> bool" where
  "IsStarting model running \<longleftrightarrow> model \<in> set running"

definition TryStart :: "string \<Rightarrow> string list \<Rightarrow> bool \<times> string list" where
  "TryStart model running = (if model \<in> set running then (False, running) else (True, model # running))"

definition Done :: "string \<Rightarrow> string list \<Rightarrow> string list" where
  "Done model running = removeAll model running"

text \<open>The result says whether the caller may go on: the probe found the model ready.\<close>

definition handleColdStart :: "gw_env \<Rightarrow> string \<Rightarrow> gw_state \<Rightarrow> bool \<times> gw_state" where
  "handleColdStart ev model s =
     (if IsManuallyDeployed ev model then (False, abortErr 503 ''manual_runtime_unhealthy'' s)
      else if ev_has_tracker ev then
        (let s1 = (if IsStarting model (g_starting s) then s
                   else case TryStart model (g_starting s) of
                     (True, running) \<Rightarrow> s\<lparr>g_starting := running, g_launched := g_launched s @ [model]\<rparr>
                   | (False, _) \<Rightarrow> s) in
         (False, abortErr 503 ''model_starting'' s1))
      else
        (case ev_probe ev model (g_reg s) of
           (True, reg) \<Rightarrow> (True, s\<lparr>g_reg := reg\<rparr>)
         | (False, reg) \<Rightarrow> (False, abortErr 503 ''model_starting'' (s\<lparr>g_reg := reg, g_launched := g_launched s @ [model]\<rparr>))))"

subsection \<open>Targets\<close>

text \<open>An endpoint with what is needed to reach it, and the backend that does.\<close>

record target =
  tg_ep :: Endpoint
  tg_up :: upstream
  tg_backend :: string

definition pool_target :: "registry \<Rightarrow> Endpoint \<Rightarrow> target" where
  "pool_target reg ep =
     \<lparr>tg_ep = ep, tg_up = upstreams reg (ep_id ep), tg_backend = BackendForType (us_backend (upstreams reg (ep_id ep)))\<rparr>"

definition AsEndpoint :: "VirtualEndpoint \<Rightarrow> Endpoint \<times> upstream" where
  "AsEndpoint v =
     (\<lparr>ep_id = ve_id v, ep_model = [], ep_url = [], ep_weight = 0, ep_priority = 0, ep_status = StatusHealthy, ep_conns = 0,
       ep_last_success = 0\<rparr>,
      \<lparr>us_backend = ve_backend v, us_base_url = ve_base_url v, us_key = ve_api_key v, us_model = ve_model v,
       us_credential = ve_credential v\<rparr>)"

definition virtual_target :: "VirtualEndpoint \<Rightarrow> target" where
  "virtual_target v = (let (ep, up) = AsEndpoint v in \<lparr>tg_ep = ep, tg_up = up, tg_backend = BackendForType (us_backend up)\<rparr>)"

definition epEffectiveURL :: "target \<Rightarrow> string" where
  "epEffectiveURL t = (if us_base_url (tg_up t) \<noteq> [] then us_base_url (tg_up t) else ep_url (tg_ep t))"

definition pool_resolve :: "gw_env \<Rightarrow> nat \<Rightarrow> nat \<Rightarrow> string \<Rightarrow> gw_state \<Rightarrow> target option \<times> gw_state" where
  "pool_resolve ev k n model s =
     (let (ep, reg) = ResolveWithFailover (ev_intn ev k) n model (g_reg s) in
      (map_option (pool_target (g_reg s)) ep, s\<lparr>g_reg := reg\<rparr>))"

text \<open>\<open>Inl\<close>: there is no credential for the project. A failed resolution counts as not found.\<close>

definition virtual_resolve :: "gw_env \<Rightarrow> claims \<Rightarrow> string \<Rightarrow> gw_state \<Rightarrow> (unit + target option) \<times> gw_state" where
  "virtual_resolve ev cl model s =
     (let (vc, s1) = with_cache ev s;
          (res, cat) = ResolveForProject (ev_flt ev) (ev_decrypt ev) (c_now (ev_clock ev)) vc model (cl_project cl) (g_cat s1);
          s2 = s1\<lparr>g_cat := cat\<rparr> in
      case res of
        Inl ErrCredentialUnavailable \<Rightarrow> (Inl (), s2)
      | Inl (CredFailed _) \<Rightarrow> (Inr None, s2)
      | Inr v \<Rightarrow> (Inr (map_option (\<lambda>x. virtual_target (fst x)) v), s2))"

definition is_remote :: "gw_env \<Rightarrow> string \<Rightarrow> gw_state \<Rightarrow> bool \<times> gw_state" where
  "is_remote ev model s =
     (let (b, reg) = IsRemoteModel (ev_flt ev ''remote'') (ev_intn ev 9 0) model (map known_model (ev_models ev)) (g_reg s) in
      (b, s\<lparr>g_reg := reg\<rparr>))"

text \<open>Step 5 of \<open>ChatCompletions\<close>: \<open>None\<close> when an answer has been written.\<close>

definition cold_route :: "gw_env \<Rightarrow> string \<Rightarrow> gw_state \<Rightarrow> target option \<times> gw_state" where
  "cold_route ev model s0 =
     (let (remote, s) = is_remote ev model s0 in
      if remote then (None, abortErr 404 ''model_not_found'' s)
      else if \<not> ev_has_activator ev then (None, abortErr 503 ''no_healthy_endpoint'' s)
      else
        (case handleColdStart ev model s of
           (False, s1) \<Rightarrow> (None, s1)
         | (True, s1) \<Rightarrow>
             (case pool_resolve ev 1 3 model s1 of
                (None, s2) \<Rightarrow> (None, abortErr 503 ''no_healthy_endpoint'' s2)
              | (Some t, s2) \<Rightarrow> (Some t, s2))))"

definition route_endpoint :: "gw_env \<Rightarrow> claims \<Rightarrow> string \<Rightarrow> gw_state \<Rightarrow> target option \<times> gw_state" where
  "route_endpoint ev cl model s =
     (case pool_resolve ev 0 3 model s of
        (Some t, s1) \<Rightarrow> (Some t, s1)
      | (None, s1) \<Rightarrow>
          (case (if ev_has_virtual ev then virtual_resolve ev cl model s1 else (Inr None, s1)) of
             (Inl _, s2) \<Rightarrow> (None, abortErr 424 ''provider_credential_unavailable'' s2)
           | (Inr (Some t), s2) \<Rightarrow> (Some t, s2)
           | (Inr None, s2) \<Rightarrow> cold_route ev model s2))"

subsection \<open>Tracking\<close>

definition add_conns :: "string \<Rightarrow> id \<Rightarrow> int \<Rightarrow> gw_state \<Rightarrow> gw_state" where
  "add_conns model i k s = s\<lparr>g_reg := map_endpoint model i (\<lambda>e. e\<lparr>ep_conns := ep_conns e + k\<rparr>) (g_reg s)\<rparr>"

definition RecordActivity :: "gw_env \<Rightarrow> id \<Rightarrow> gw_state \<Rightarrow> gw_state" where
  "RecordActivity ev i s = (if ev_has_activator ev then s\<lparr>g_activity := g_activity s @ [i]\<rparr> else s)"

definition incrementInflight :: "gw_env \<Rightarrow> claims \<Rightarrow> gw_state \<Rightarrow> gw_state" where
  "incrementInflight ev cl s =
     s\<lparr>g_redis :=
         (if cl_project cl \<noteq> [] then snd (IncrementProjectInflight (ev_pipe ev ''inflight'') (c_now (ev_clock ev)) (cl_project cl) (g_redis s))
          else snd (IncrementInflight (ev_pipe ev ''inflight'') (c_now (ev_clock ev)) (cl_team cl) (g_redis s)))\<rparr>"

definition decrementInflight :: "gw_env \<Rightarrow> claims \<Rightarrow> gw_state \<Rightarrow> gw_state" where
  "decrementInflight ev cl s =
     s\<lparr>g_redis :=
         (if cl_project cl \<noteq> [] then snd (DecrementProjectInflight (ev_net ev ''inflight end'') (c_now (ev_clock ev)) (cl_project cl) (g_redis s))
          else snd (DecrementInflight (ev_net ev ''inflight end'') (c_now (ev_clock ev)) (cl_team cl) (g_redis s)))\<rparr>"

definition track_start :: "gw_env \<Rightarrow> claims \<Rightarrow> string \<Rightarrow> id \<Rightarrow> gw_state \<Rightarrow> gw_state" where
  "track_start ev cl model i s = RecordActivity ev i (add_conns model i 1 (incrementInflight ev cl s))"

definition track_end :: "gw_env \<Rightarrow> claims \<Rightarrow> string \<Rightarrow> id \<Rightarrow> gw_state \<Rightarrow> gw_state" where
  "track_end ev cl model i s = RecordActivity ev i (add_conns model i (- 1) (decrementInflight ev cl s))"

definition record_tokens :: "gw_env \<Rightarrow> claims \<Rightarrow> int \<Rightarrow> int \<Rightarrow> gw_state \<Rightarrow> gw_state" where
  "record_tokens ev cl p c s =
     (let r1 = snd (RecordProjectTokenUsage (ev_pipe ev ''project tokens'') (ev_clock ev) (cl_project cl) p c (g_redis s));
          r2 = snd (RecordOrgTokenUsage (ev_pipe ev ''org tokens'') (ev_clock ev) (cl_org cl) p c r1);
          r3 = (if cl_project cl = [] then snd (RecordTokenUsage (ev_pipe ev ''team tokens'') (ev_clock ev) (cl_team cl) p c r2) else r2) in
      s\<lparr>g_redis := r3\<rparr>)"

definition record_usage :: "gw_env \<Rightarrow> claims \<Rightarrow> string \<Rightarrow> target \<Rightarrow> int \<Rightarrow> int \<Rightarrow> int \<Rightarrow> int \<Rightarrow> string \<Rightarrow> gw_state \<Rightarrow> gw_state" where
  "record_usage ev cl model t p c cached reasoning status s =
     (let (pid, pname, pprio, pweight) = lookupProjectContext ev model cl in
      s\<lparr>g_usage := g_usage s @
          [\<lparr>ue_org = cl_org cl, ue_team = cl_team cl, ue_model = model, ue_endpoint = ep_id (tg_ep t),
            ue_credential = us_credential (tg_up t), ue_prompt = p, ue_completion = c, ue_cached = cached, ue_reasoning = reasoning,
            ue_status = status, ue_project = pid, ue_project_name = pname, ue_priority = pprio, ue_weight = pweight\<rparr>]\<rparr>)"

subsection \<open>Calling an upstream\<close>

definition connect_errors :: "string list" where
  "connect_errors = [''connection refused'', ''no route to host'', ''connect: connection refused'', ''dial tcp'', ''i/o timeout'']"

definition isConnectError :: "string \<Rightarrow> bool" where
  "isConnectError msg \<longleftrightarrow> list_ex (\<lambda>e. contains e msg) connect_errors"

definition backend_chat :: "gw_env \<Rightarrow> chat_call \<Rightarrow> gw_state \<Rightarrow> (string + backend_response) \<times> gw_state" where
  "backend_chat ev c s = (ev_answer ev (length (g_calls s)) c, s\<lparr>g_calls := g_calls s @ [c]\<rparr>)"

definition ok_status :: "int \<Rightarrow> bool" where
  "ok_status st \<longleftrightarrow> 200 \<le> st \<and> st < 300"

text \<open>The results are \<open>ok\<close> and \<open>emptyContent\<close>.\<close>

definition syncChat ::
    "gw_env \<Rightarrow> claims \<Rightarrow> chat_request \<Rightarrow> chat_call \<Rightarrow> target \<Rightarrow> ModelCaps \<Rightarrow> bool \<Rightarrow> gw_state \<Rightarrow> bool \<times> bool \<times> gw_state" where
  "syncChat ev cl req c t caps skipBillingIfEmpty s0 =
     (case backend_chat ev c s0 of
        (Inl msg, s) \<Rightarrow> if isConnectError msg then (False, False, s) else (True, False, abortErr 502 ''upstream_error'' s)
      | (Inr resp, s) \<Rightarrow>
          if \<not> ok_status (br_status resp) then
            (True, False,
             if br_body resp \<noteq> [] then put_reply (Raw (br_status resp) (br_body resp)) s
             else abortErr (br_status resp) ''upstream_error'' s)
          else case ev_decode ev (br_body resp) of
            None \<Rightarrow> (True, False, abortErr 502 ''parse_error'' s)
          | Some a0 \<Rightarrow>
              (let (a, contentEmpty) = finish_answer (ev_marshal ev) (ev_has_db ev) (ev_flt ev) (ev_price ev) (ev_pricing ev)
                     (c_now (ev_clock ev)) caps (q_model req) (ep_model (tg_ep t)) a0;
                   u = an_usage a;
                   s1 = (if contentEmpty \<and> skipBillingIfEmpty then s
                         else record_usage ev cl (q_model req) t (au_prompt u) (au_completion u) (or_else (au_cached u) 0)
                                (or_else (au_reasoning u) 0) ''success'' (record_tokens ev cl (au_prompt u) (au_completion u) s)) in
               (True, contentEmpty, put_reply (Completion (br_status resp) a) s1)))"

definition error_body :: "backend_response \<Rightarrow> string" where
  "error_body resp =
     (case br_stream resp of
        Some ls \<Rightarrow> TrimSpace (concat (map (\<lambda>l. if l \<noteq> [] then l @ [newline] else []) ls))
      | None \<Rightarrow> br_body resp)"

definition streamChat ::
    "gw_env \<Rightarrow> claims \<Rightarrow> chat_request \<Rightarrow> chat_call \<Rightarrow> target \<Rightarrow> gw_state \<Rightarrow> bool \<times> gw_state" where
  "streamChat ev cl req c t s0 =
     (case backend_chat ev c s0 of
        (Inl msg, s) \<Rightarrow> if isConnectError msg then (False, s) else (True, abortErr 502 ''upstream_error'' s)
      | (Inr resp, s) \<Rightarrow>
          if \<not> ok_status (br_status resp) then
            (True,
             if error_body resp \<noteq> [] then put_reply (Raw (br_status resp) (error_body resp)) s
             else abortErr (br_status resp) ''upstream_error'' s)
          else case br_stream resp of
            None \<Rightarrow> (True, abortErr 502 ''no_stream'' s)
          | Some ls \<Rightarrow>
              (let st = relay_loop (ev_unmarshal ev) (ev_chunk ev) (q_stream_options req \<noteq> JNull) (q_model req) (ev_gone ev) ls relay_start;
                   s1 = put_reply (Events (rl_out st)) s;
                   s2 = (if rl_prompt st + rl_completion st > 0 then record_tokens ev cl (rl_prompt st) (rl_completion st) s1 else s1) in
               (True, record_usage ev cl (q_model req) t (rl_prompt st) (rl_completion st) (rl_cached st) (rl_reasoning st) (rl_status st) s2)))"

text \<open>After a connection error: the endpoint is marked down in its pool.\<close>

definition mark_down :: "gw_env \<Rightarrow> string \<Rightarrow> target \<Rightarrow> gw_state \<Rightarrow> gw_state" where
  "mark_down ev name t s =
     s\<lparr>g_reg := map_endpoint name (ep_id (tg_ep t)) (SetStatus (c_now (ev_clock ev)) StatusDown)
         (UpdateEndpointHealth (c_now (ev_clock ev)) (ep_id (tg_ep t)) name StatusDown (g_reg s))\<rparr>"

text \<open>The request and the call for the next endpoint: the body of the call stays the one of the first.\<close>

definition use_target :: "target \<Rightarrow> chat_request \<Rightarrow> chat_request" where
  "use_target t req = (if us_model (tg_up t) \<noteq> [] then req\<lparr>q_model := us_model (tg_up t)\<rparr> else req)"

definition next_call :: "target \<Rightarrow> chat_call \<Rightarrow> chat_call" where
  "next_call t c = c\<lparr>ca_url := epEffectiveURL t, ca_key := us_key (tg_up t), ca_backend := tg_backend t\<rparr>"

text \<open>The attempts after the first; \<open>n\<close> of them are left. The result has the endpoint that was used last.\<close>

fun stream_more :: "gw_env \<Rightarrow> claims \<Rightarrow> string \<Rightarrow> nat \<Rightarrow> chat_request \<Rightarrow> chat_call \<Rightarrow> target \<Rightarrow> gw_state \<Rightarrow> target \<times> gw_state" where
  "stream_more ev cl name 0 req c t s = (t, s)"
| "stream_more ev cl name (Suc n) req c t s =
     (case pool_resolve ev (Suc (Suc n)) 3 name s of
        (None, s1) \<Rightarrow> (t, s1)
      | (Some t2, s1) \<Rightarrow>
          (case streamChat ev cl (use_target t2 req) (next_call t2 c) t2 s1 of
             (True, s2) \<Rightarrow> (t2, s2)
           | (False, s2) \<Rightarrow> stream_more ev cl name n (use_target t2 req) (next_call t2 c) t2 (mark_down ev name t2 s2)))"

definition stream_attempts :: "gw_env \<Rightarrow> claims \<Rightarrow> string \<Rightarrow> chat_request \<Rightarrow> chat_call \<Rightarrow> target \<Rightarrow> gw_state \<Rightarrow> target \<times> gw_state" where
  "stream_attempts ev cl name req c t s =
     (case streamChat ev cl req c t s of
        (True, s1) \<Rightarrow> (t, s1)
      | (False, s1) \<Rightarrow> stream_more ev cl name 2 req c t (mark_down ev name t s1))"

text \<open>
  One attempt of the synchronous path: \<open>None\<close> asks for another endpoint. When reasoning used up all
  tokens, the same endpoint is asked again without it, at the URL of the first endpoint.
\<close>

definition sync_attempt ::
    "gw_env \<Rightarrow> claims \<Rightarrow> ModelCaps \<Rightarrow> bool \<Rightarrow> string \<Rightarrow> chat_request \<Rightarrow> chat_call \<Rightarrow> target \<Rightarrow> gw_state \<Rightarrow> bool \<times> gw_state" where
  "sync_attempt ev cl caps thinkingOn firstURL req c t s =
     (let mayRetry = thinkingOn \<and> ev_has_thinking ev in
      case syncChat ev cl req c t caps mayRetry s of
        (ok, emptyContent, s1) \<Rightarrow>
          if ok \<and> emptyContent \<and> mayRetry then
            (let retry = \<lparr>ca_url = firstURL, ca_key = us_key (tg_up t), ca_backend = tg_backend t,
                          ca_body = ChatBody (fst (InjectThinkingControl req False caps))\<rparr> in
             (True, snd (snd (syncChat ev cl req retry t caps False s1))))
          else (ok, s1))"

fun sync_more ::
    "gw_env \<Rightarrow> claims \<Rightarrow> ModelCaps \<Rightarrow> bool \<Rightarrow> string \<Rightarrow> string \<Rightarrow> nat \<Rightarrow> chat_request \<Rightarrow> chat_call \<Rightarrow> target \<Rightarrow> gw_state \<Rightarrow>
     target \<times> gw_state" where
  "sync_more ev cl caps on url name 0 req c t s = (t, abortErr 502 ''upstream_error'' s)"
| "sync_more ev cl caps on url name (Suc n) req c t s =
     (case pool_resolve ev (Suc (Suc n)) 3 name s of
        (None, s1) \<Rightarrow> (t, abortErr 503 ''no_healthy_endpoint'' s1)
      | (Some t2, s1) \<Rightarrow>
          (case sync_attempt ev cl caps on url (use_target t2 req) (next_call t2 c) t2 s1 of
             (True, s2) \<Rightarrow> (t2, s2)
           | (False, s2) \<Rightarrow> sync_more ev cl caps on url name n (use_target t2 req) (next_call t2 c) t2 (mark_down ev name t2 s2)))"

definition sync_attempts ::
    "gw_env \<Rightarrow> claims \<Rightarrow> ModelCaps \<Rightarrow> bool \<Rightarrow> string \<Rightarrow> chat_request \<Rightarrow> chat_call \<Rightarrow> target \<Rightarrow> gw_state \<Rightarrow> target \<times> gw_state" where
  "sync_attempts ev cl caps on name req c t s =
     (case sync_attempt ev cl caps on (epEffectiveURL t) req c t s of
        (True, s1) \<Rightarrow> (t, s1)
      | (False, s1) \<Rightarrow> sync_more ev cl caps on (epEffectiveURL t) name 2 req c t (mark_down ev name t s1))"

text \<open>
  Sanitising and thinking control. The messages of \<open>req\<close> and of the injected copy share their array, so the
  request is returned with the messages it has afterwards.
\<close>

definition thinking_stage :: "gw_env \<Rightarrow> chat_request \<Rightarrow> chat_request \<Rightarrow> ModelCaps \<times> bool \<times> chat_request \<times> chat_request" where
  "thinking_stage ev req sanitized =
     (if \<not> ev_has_thinking ev then (no_caps, False, sanitized, req)
      else
        (let caps = LoadCaps (ev_flt ev ''thinking caps'') (q_model req) (ev_thinking ev); on = ResolveMode req caps in
         if SupportsThinking caps then
           (case InjectThinkingControl sanitized on caps of (q, msgs) \<Rightarrow> (caps, on, q, req\<lparr>q_messages := msgs\<rparr>))
         else if ClientRequestedNoThinking req then
           (case InjectNoThinkDirectiveOnly sanitized of (q, msgs) \<Rightarrow> (caps, on, q, req\<lparr>q_messages := msgs\<rparr>))
         else (caps, on, sanitized, req)))"

definition run_attempts :: "gw_env \<Rightarrow> claims \<Rightarrow> chat_request \<Rightarrow> target \<Rightarrow> gw_state \<Rightarrow> target \<times> gw_state" where
  "run_attempts ev cl req0 t s =
     (let name = q_model req0;
          req = use_target t req0;
          (caps, on, body, req') = thinking_stage ev req (sanitizeForBackend (tg_backend t) req);
          c = \<lparr>ca_url = epEffectiveURL t, ca_key = us_key (tg_up t), ca_backend = tg_backend t, ca_body = ChatBody body\<rparr> in
      if q_stream req' then stream_attempts ev cl name req' c t s else sync_attempts ev cl caps on name req' c t s)"

text \<open>The deferred function reads the variable \<open>ep\<close> at the end, when it holds the endpoint of the last attempt.\<close>

definition dispatch :: "gw_env \<Rightarrow> claims \<Rightarrow> chat_request \<Rightarrow> target \<Rightarrow> gw_state \<Rightarrow> gw_state" where
  "dispatch ev cl req t s =
     (let (last_t, s1) = run_attempts ev cl req t (track_start ev cl (q_model req) (ep_id (tg_ep t)) s) in
      track_end ev cl (q_model req) (ep_id (tg_ep last_t)) s1)"

subsection \<open>The handler\<close>

datatype request_body = Unreadable | Malformed | Parsed chat_request

record http_request =
  hr_claims :: "claims option"
  hr_body :: request_body
  hr_provider :: string
  hr_project :: string
  hr_route :: string

text \<open>Steps 1 to 4: \<open>None\<close> when the request was answered.\<close>

definition model_table :: "gw_env \<Rightarrow> gw_state \<Rightarrow> perm_db" where
  "model_table ev s = (cd_perm (ct_creds (g_cat s)))\<lparr>models := map plain_model (ev_models ev)\<rparr>"

definition admit_policies :: "gw_env \<Rightarrow> claims \<Rightarrow> chat_request \<Rightarrow> gw_state \<Rightarrow> chat_request option \<times> gw_state" where
  "admit_policies ev cl req s =
     (let est = estimateTokens (q_messages req) in
      case Enforce (ev_flt ev ''gateway policies'') (cl_org cl) (cl_project cl) (cl_team cl) (cl_key cl) (ev_gateway ev) est req of
        (Some v, _) \<Rightarrow> (None, abortErr 403 (v_code v) s)
      | (None, req1) \<Rightarrow>
          (case infrastructure_policy ev cl (q_model req1) est s of
             (False, s1) \<Rightarrow> (None, s1)
           | (True, s1) \<Rightarrow>
               (let d = prompt_check ev cl (model_table ev s1) req1 in
                if \<not> pd_allowed d then (None, abortErr 403 ''prompt_policy_blocked'' s1)
                else (Some (case pd_request d of Some q \<Rightarrow> q | None \<Rightarrow> req1), s1))))"

definition ChatCompletions :: "gw_env \<Rightarrow> http_request \<Rightarrow> gw_state \<Rightarrow> gw_state" where
  "ChatCompletions ev hr s =
     (case hr_claims hr of
        None \<Rightarrow> abortErr 401 ''unauthorized'' s
      | Some cl0 \<Rightarrow>
          (case hr_body hr of
             Unreadable \<Rightarrow> abortErr 400 ''read_error'' s
           | Malformed \<Rightarrow> abortErr 400 ''invalid_request'' s
           | Parsed req0 \<Rightarrow>
               if q_model req0 = [] then abortErr 400 ''missing_model'' s
               else
                 (let (real, s1) = resolve_alias ev cl0 (resolveModelWithProvider (hr_provider hr) (q_model req0)) s;
                      req = req0\<lparr>q_model := real\<rparr>;
                      (ok, s2) = (if ev_has_validator ev then CheckAndAbort ev real (hr_route hr) s1 else (True, s1)) in
                  if \<not> ok then s2
                  else
                    (let cl = applyProjectHeaderOverride ev (hr_project hr) cl0 in
                     case admit_policies ev cl req s2 of
                       (None, s3) \<Rightarrow> s3
                     | (Some req1, s3) \<Rightarrow>
                         (case route_endpoint ev cl (q_model req1) s3 of
                            (None, s4) \<Rightarrow> s4
                          | (Some t, s4) \<Rightarrow> dispatch ev cl req1 t s4)))))"

text \<open>\<open>LegacyCompletions\<close>: the prompt as a chat of one message; the shorthand header is applied twice.\<close>

fun prompt_text :: "json \<Rightarrow> string" where
  "prompt_text (JStr s) = s"
| "prompt_text (JList (v # _)) = or_else (as_string v) []"
| "prompt_text _ = []"

record legacy_request =
  lq_model :: string
  lq_prompt :: json
  lq_max_tokens :: "int option"
  lq_temperature :: "rat option"
  lq_stream :: bool
  lq_stop :: json

definition LegacyCompletions :: "gw_env \<Rightarrow> http_request \<Rightarrow> legacy_request option \<Rightarrow> gw_state \<Rightarrow> gw_state" where
  "LegacyCompletions ev hr lq s =
     (case lq of
        None \<Rightarrow> abortErr 400 ''invalid_request_error'' s
      | Some q \<Rightarrow>
          ChatCompletions ev (hr\<lparr>hr_body := Parsed ((plain_request (resolveModelWithProvider (hr_provider hr) (lq_model q))
              [text_message ''user'' (prompt_text (lq_prompt q))])
              \<lparr>q_max_tokens := lq_max_tokens q, q_temperature := lq_temperature q, q_stream := lq_stream q, q_stop := lq_stop q\<rparr>)\<rparr>) s)"

subsection \<open>The other endpoints\<close>

record pipelineResult =
  pl_model :: string
  pl_target :: target
  pl_claims :: claims

definition pipeline_virtual :: "gw_env \<Rightarrow> string \<Rightarrow> gw_state \<Rightarrow> bool \<times> gw_state" where
  "pipeline_virtual ev model s =
     (if ev_has_virtual ev then (case with_cache ev s of (vc, s1) \<Rightarrow> (virtual_capabilities vc model \<noteq> None, s1)) else (False, s))"

text \<open>Stage 6: whether the pipeline goes on.\<close>

definition pipeline_warm :: "gw_env \<Rightarrow> string \<Rightarrow> gw_state \<Rightarrow> bool \<times> gw_state" where
  "pipeline_warm ev model s =
     (if \<not> ev_has_activator ev then (True, s)
      else case pool_resolve ev 1 1 model s of
        (Some _, s1) \<Rightarrow> (True, s1)
      | (None, s1) \<Rightarrow>
          (case pipeline_virtual ev model s1 of
             (True, s2) \<Rightarrow> (True, s2)
           | (False, s2) \<Rightarrow>
               (case is_remote ev model s2 of
                  (True, s3) \<Rightarrow> (True, s3)
                | (False, s3) \<Rightarrow> handleColdStart ev model s3)))"

definition pipeline_route :: "gw_env \<Rightarrow> claims \<Rightarrow> string \<Rightarrow> gw_state \<Rightarrow> target option \<times> gw_state" where
  "pipeline_route ev cl model s =
     (case pool_resolve ev 0 3 model s of
        (Some t, s1) \<Rightarrow> (Some t, s1)
      | (None, s1) \<Rightarrow>
          if \<not> ev_has_virtual ev then (None, abortErr 503 ''no_healthy_endpoint'' (decrementInflight ev cl s1))
          else
            (case virtual_resolve ev cl model s1 of
               (Inl _, s2) \<Rightarrow> (None, abortErr 424 ''provider_credential_unavailable'' (decrementInflight ev cl s2))
             | (Inr (Some t), s2) \<Rightarrow> (Some t, s2)
             | (Inr None, s2) \<Rightarrow> (None, abortErr 404 ''model_not_found'' (decrementInflight ev cl s2))))"

definition pipelineSetup :: "gw_env \<Rightarrow> http_request \<Rightarrow> string \<Rightarrow> int \<Rightarrow> gw_state \<Rightarrow> pipelineResult option \<times> gw_state" where
  "pipelineSetup ev hr rawModel est s =
     (case hr_claims hr of
        None \<Rightarrow> (None, abortErr 401 ''unauthorized'' s)
      | Some cl \<Rightarrow>
          (let (real, s1) = resolve_alias ev cl (resolveModelWithProvider (hr_provider hr) rawModel) s;
               (ok, s2) = (if ev_has_validator ev then CheckAndAbort ev real (hr_route hr) s1 else (True, s1)) in
           if \<not> ok then (None, s2)
           else case Enforce (ev_flt ev ''gateway policies'') (cl_org cl) (cl_project cl) (cl_team cl) (cl_key cl) (ev_gateway ev) est
               (plain_request real []) of
             (Some v, _) \<Rightarrow> (None, abortErr 403 (v_code v) s2)
           | (None, _) \<Rightarrow>
               (case infrastructure_policy ev cl real est s2 of
                  (False, s3) \<Rightarrow> (None, s3)
                | (True, s3) \<Rightarrow>
                    if \<not> pd_allowed (prompt_check ev cl (model_table ev s3) (plain_request real [])) then
                      (None, abortErr 403 ''prompt_policy_blocked'' s3)
                    else
                      (case pipeline_warm ev real s3 of
                         (False, s4) \<Rightarrow> (None, s4)
                       | (True, s4) \<Rightarrow>
                           (case pipeline_route ev cl real (incrementInflight ev cl s4) of
                              (None, s5) \<Rightarrow> (None, s5)
                            | (Some t, s5) \<Rightarrow> (Some \<lparr>pl_model = real, pl_target = t, pl_claims = cl\<rparr>, s5))))))"

definition statusFromHTTP :: "int \<Rightarrow> string" where
  "statusFromHTTP code = (if ok_status code then ''success'' else ''error_'' @ FormatInt code)"

text \<open>The usage event of these endpoints carries no project.\<close>

definition plain_usage :: "claims \<Rightarrow> string \<Rightarrow> target \<Rightarrow> int \<Rightarrow> string \<Rightarrow> gw_state \<Rightarrow> gw_state" where
  "plain_usage cl model t p status s =
     s\<lparr>g_usage := g_usage s @
         [\<lparr>ue_org = cl_org cl, ue_team = cl_team cl, ue_model = model, ue_endpoint = ep_id (tg_ep t), ue_credential = us_credential (tg_up t),
           ue_prompt = p, ue_completion = 0, ue_cached = 0, ue_reasoning = 0, ue_status = status, ue_project = None,
           ue_project_name = None, ue_priority = None, ue_weight = None\<rparr>]\<rparr>"

text \<open>\<open>Rerank\<close> and \<open>OCR\<close>, which differ in the path and the estimate; \<open>None\<close> is a body that does not bind.\<close>

definition forward_json :: "gw_env \<Rightarrow> http_request \<Rightarrow> string \<Rightarrow> (string \<times> json) option \<Rightarrow> int \<Rightarrow> gw_state \<Rightarrow> gw_state" where
  "forward_json ev hr path body est s =
     (case body of
        None \<Rightarrow> abortErr 400 ''invalid_request'' s
      | Some (m, payload) \<Rightarrow>
          if m = [] then abortErr 400 ''missing_model'' s
          else case pipelineSetup ev hr m est s of
            (None, s1) \<Rightarrow> s1
          | (Some res, s1) \<Rightarrow>
              (let t = pl_target res; i = ep_id (tg_ep t); name = pl_model res; cl = pl_claims res;
                   s2 = RecordActivity ev i (add_conns name i 1 s1);
                   c = \<lparr>ca_url = epEffectiveURL t @ path, ca_key = us_key (tg_up t), ca_backend = tg_backend t, ca_body = OtherBody name payload\<rparr>;
                   s3 = (case backend_chat ev c s2 of
                      (Inl _, s') \<Rightarrow> abortErr 502 ''upstream_error'' s'
                    | (Inr resp, s') \<Rightarrow>
                        put_reply (Raw (br_status resp) (br_body resp)) (plain_usage cl name t 0 (statusFromHTTP (br_status resp)) s')) in
               decrementInflight ev cl (add_conns name i (- 1) s3)))"

definition Rerank :: "gw_env \<Rightarrow> http_request \<Rightarrow> (string \<times> nat \<times> json) option \<Rightarrow> gw_state \<Rightarrow> gw_state" where
  "Rerank ev hr body s =
     forward_json ev hr ''/v1/rerank'' (map_option (\<lambda>(m, _, payload). (m, payload)) body)
       (case body of None \<Rightarrow> 0 | Some (_, docs, _) \<Rightarrow> int docs * 50) s"

definition OCR :: "gw_env \<Rightarrow> http_request \<Rightarrow> (string \<times> json) option \<Rightarrow> gw_state \<Rightarrow> gw_state" where
  "OCR ev hr body s = forward_json ev hr ''/v1/ocr'' body 0 s"

text \<open>\<open>Embeddings\<close>: \<open>vectors\<close> is the method of the backend; a decoded answer has a total of tokens and its other fields.\<close>

definition Embeddings ::
    "gw_env \<Rightarrow> (nat \<Rightarrow> chat_call \<Rightarrow> string + int \<times> json) \<Rightarrow> http_request \<Rightarrow> (string \<times> json) option \<Rightarrow> gw_state \<Rightarrow> gw_state" where
  "Embeddings ev vectors hr body s =
     (case body of
        None \<Rightarrow> abortErr 400 ''invalid_request'' s
      | Some (m, payload) \<Rightarrow>
          if m = [] then abortErr 400 ''missing_model'' s
          else case pipelineSetup ev hr (resolveModelWithProvider (hr_provider hr) m) 0 s of
            (None, s1) \<Rightarrow> s1
          | (Some res, s1) \<Rightarrow>
              (let t = pl_target res; i = ep_id (tg_ep t); name = pl_model res; cl = pl_claims res;
                   s2 = RecordActivity ev i (add_conns name i 1 s1);
                   c = \<lparr>ca_url = epEffectiveURL t, ca_key = us_key (tg_up t), ca_backend = tg_backend t, ca_body = OtherBody name payload\<rparr>;
                   s' = s2\<lparr>g_calls := g_calls s2 @ [c]\<rparr>;
                   s3 = (case vectors (length (g_calls s2)) c of
                      Inl _ \<Rightarrow> abortErr 502 ''upstream_error'' s'
                    | Inr (tokens, answer) \<Rightarrow>
                        put_reply (Vectors name answer) (plain_usage cl name t tokens ''success'' (record_tokens ev cl tokens 0 s'))) in
               decrementInflight ev cl (add_conns name i (- 1) (RecordActivity ev i s3))))"

end
