(* ===== verification/Proxy_Props.thy ===== *)
theory Proxy_Props
  imports Proxy_Handler
begin

text \<open>
  Properties of the request pipeline. What each step leaves alone is collected in \<open>proxy_frame\<close>; a step
  before the dispatch makes no upstream call and records no usage.
\<close>

named_theorems proxy_frame

subsection \<open>Frames\<close>

lemma put_reply_frame [proxy_frame]:
  "g_calls (put_reply r s) = g_calls s" "g_usage (put_reply r s) = g_usage s" "g_out (put_reply r s) = g_out s @ [r]"
  "g_reg (put_reply r s) = g_reg s" "g_starting (put_reply r s) = g_starting s"
  by (simp_all add: put_reply_def)

lemma abortErr_frame [proxy_frame]:
  "g_calls (abortErr st c s) = g_calls s" "g_usage (abortErr st c s) = g_usage s" "g_out (abortErr st c s) = g_out s @ [Abort st c]"
  "g_reg (abortErr st c s) = g_reg s" "g_starting (abortErr st c s) = g_starting s"
  by (simp_all add: abortErr_def proxy_frame)

lemma with_cache_frame [proxy_frame]:
  "g_calls (snd (with_cache ev s)) = g_calls s" "g_usage (snd (with_cache ev s)) = g_usage s" "g_out (snd (with_cache ev s)) = g_out s"
  "g_reg (snd (with_cache ev s)) = g_reg s"
  by (simp_all add: with_cache_def split: prod.split)

lemma resolve_alias_frame [proxy_frame]:
  "g_calls (snd (resolve_alias ev cl m s)) = g_calls s" "g_usage (snd (resolve_alias ev cl m s)) = g_usage s"
  "g_out (snd (resolve_alias ev cl m s)) = g_out s"
  by (simp_all add: resolve_alias_def split: prod.split)

lemma tracking_frame [proxy_frame]:
  "g_calls (track_start ev cl m i s) = g_calls s" "g_usage (track_start ev cl m i s) = g_usage s" "g_out (track_start ev cl m i s) = g_out s"
  "g_calls (track_end ev cl m i s) = g_calls s" "g_usage (track_end ev cl m i s) = g_usage s" "g_out (track_end ev cl m i s) = g_out s"
  by (simp_all add: track_start_def track_end_def RecordActivity_def add_conns_def incrementInflight_def decrementInflight_def)

lemma record_frame [proxy_frame]:
  "g_calls (record_tokens ev cl p c s) = g_calls s" "g_usage (record_tokens ev cl p c s) = g_usage s"
  "g_out (record_tokens ev cl p c s) = g_out s" "g_reg (record_tokens ev cl p c s) = g_reg s"
  "g_calls (record_usage ev cl m t p c x y st s) = g_calls s" "g_out (record_usage ev cl m t p c x y st s) = g_out s"
  "g_reg (record_usage ev cl m t p c x y st s) = g_reg s"
  "length (g_usage (record_usage ev cl m t p c x y st s)) = Suc (length (g_usage s))"
  by (simp_all add: record_tokens_def record_usage_def Let_def split: prod.split)

lemma mark_down_frame [proxy_frame]:
  "g_calls (mark_down ev m t s) = g_calls s" "g_usage (mark_down ev m t s) = g_usage s" "g_out (mark_down ev m t s) = g_out s"
  by (simp_all add: mark_down_def)

lemma pool_resolve_frame [proxy_frame]:
  "g_calls (snd (pool_resolve ev k n m s)) = g_calls s" "g_usage (snd (pool_resolve ev k n m s)) = g_usage s"
  "g_out (snd (pool_resolve ev k n m s)) = g_out s"
  by (simp_all add: pool_resolve_def split: prod.split)

lemma is_remote_frame [proxy_frame]:
  "g_calls (snd (is_remote ev m s)) = g_calls s" "g_usage (snd (is_remote ev m s)) = g_usage s" "g_out (snd (is_remote ev m s)) = g_out s"
  by (simp_all add: is_remote_def split: prod.split)

lemma virtual_resolve_frame [proxy_frame]:
  "g_calls (snd (virtual_resolve ev cl m s)) = g_calls s" "g_usage (snd (virtual_resolve ev cl m s)) = g_usage s"
  "g_out (snd (virtual_resolve ev cl m s)) = g_out s"
proof -
  obtain vc s1 where c: "with_cache ev s = (vc, s1)" by fastforce
  then have f: "g_calls s1 = g_calls s" "g_usage s1 = g_usage s" "g_out s1 = g_out s" using with_cache_frame [of ev s] by simp_all
  obtain res cat where r: "ResolveForProject (ev_flt ev) (ev_decrypt ev) (c_now (ev_clock ev)) vc m (cl_project cl) (g_cat s1) = (res, cat)"
    by fastforce
  have "snd (virtual_resolve ev cl m s) = s1\<lparr>g_cat := cat\<rparr>"
    by (simp add: virtual_resolve_def c r Let_def split: sum.split cred_error.split)
  with f show "g_calls (snd (virtual_resolve ev cl m s)) = g_calls s" "g_usage (snd (virtual_resolve ev cl m s)) = g_usage s"
    "g_out (snd (virtual_resolve ev cl m s)) = g_out s" by simp_all
qed

subsection \<open>Steps that answer or go on\<close>

text \<open>
  A step that either writes exactly one answer or none, and in both cases makes no call and records no
  usage.
\<close>

definition quiet :: "bool \<Rightarrow> gw_state \<Rightarrow> gw_state \<Rightarrow> bool" where
  "quiet goes_on s s' \<longleftrightarrow>
     g_calls s' = g_calls s \<and> g_usage s' = g_usage s \<and> (if goes_on then g_out s' = g_out s else \<exists>st c. g_out s' = g_out s @ [Abort st c])"

lemma quiet_abort: "quiet False s (abortErr st c s)"
  by (simp add: quiet_def proxy_frame)

lemma quiet_trans: "quiet True s s1 \<Longrightarrow> quiet b s1 s2 \<Longrightarrow> quiet b s s2"
  by (auto simp: quiet_def)

lemma quiet_refl: "quiet True s s"
  by (simp add: quiet_def)

lemma quiet_frames:
  "quiet True s (snd (with_cache ev s))" "quiet True s (snd (resolve_alias ev cl m s))" "quiet True s (snd (pool_resolve ev k n m s))"
  "quiet True s (snd (is_remote ev m s))" "quiet True s (snd (virtual_resolve ev cl m s))"
  by (simp_all add: quiet_def proxy_frame)

lemma quiet_upd: "quiet True s s' \<Longrightarrow> g_calls s'' = g_calls s' \<Longrightarrow> g_usage s'' = g_usage s' \<Longrightarrow> g_out s'' = g_out s' \<Longrightarrow> quiet True s s''"
  by (simp add: quiet_def)

lemma quiet_check: "CheckAndAbort ev m r s = (ok, s') \<Longrightarrow> quiet ok s s'"
proof -
  let ?tbl = "map known_model (ev_models ev)"
  let ?known = "RequiredCapabilityForRoute r = None \<or> GetModelCapabilities (ev_flt ev ''capabilities'') m ?tbl \<noteq> None"
  assume a: "CheckAndAbort ev m r s = (ok, s')"
  obtain vc s1 where c: "(if ?known \<or> \<not> ev_has_virtual ev then (empty_virtual, s) else with_cache ev s) = (vc, s1)" by fastforce
  have q: "quiet True s s1"
  proof (cases "?known \<or> \<not> ev_has_virtual ev")
    case True
    with c have "s1 = s" by (simp only: if_True prod.inject)
    then show ?thesis by (simp add: quiet_refl)
  next
    case False
    with c have "s1 = snd (with_cache ev s)" by (simp only: if_False snd_conv)
    then show ?thesis by (simp add: quiet_frames(1))
  qed
  have "CheckAndAbort ev m r s = (case Validate (ev_flt ev ''capabilities'') ?tbl vc m r of None \<Rightarrow> (True, s1)
      | Some _ \<Rightarrow> (False, abortErr 400 ''invalid_model'' s1))"
    unfolding CheckAndAbort_def Let_def c by simp
  with a q quiet_trans [OF q quiet_abort] show "quiet ok s s'" by (auto split: option.splits)
qed

lemma quiet_policy: "infrastructure_policy ev cl m est s = (ok, s') \<Longrightarrow> quiet ok s s'"
  by (auto simp: infrastructure_policy_def Let_def quiet_def proxy_frame split: if_splits prod.splits)

lemma quiet_admit:
  assumes "admit_policies ev cl req s = (res, s')"
  shows "quiet (res \<noteq> None) s s'"
proof (cases "fst (Enforce (ev_flt ev ''gateway policies'') (cl_org cl) (cl_project cl) (cl_team cl) (cl_key cl) (ev_gateway ev)
    (estimateTokens (q_messages req)) req)")
  case None
  then obtain req1 where e: "Enforce (ev_flt ev ''gateway policies'') (cl_org cl) (cl_project cl) (cl_team cl) (cl_key cl) (ev_gateway ev)
    (estimateTokens (q_messages req)) req = (None, req1)" by (metis prod.collapse)
  obtain ok s1 where p: "infrastructure_policy ev cl (q_model req1) (estimateTokens (q_messages req)) s = (ok, s1)" by fastforce
  from quiet_policy [OF p] quiet_trans [of s s1] quiet_abort [of s1] show ?thesis
    using assms e p by (cases ok) (auto simp: admit_policies_def Let_def split: if_splits)
next
  case (Some v)
  then obtain req1 where "Enforce (ev_flt ev ''gateway policies'') (cl_org cl) (cl_project cl) (cl_team cl) (cl_key cl) (ev_gateway ev)
    (estimateTokens (q_messages req)) req = (Some v, req1)" by (metis prod.collapse)
  with assms quiet_abort [of s] show ?thesis by (auto simp: admit_policies_def Let_def)
qed

lemma quiet_cold: "handleColdStart ev m s = (ok, s') \<Longrightarrow> quiet ok s s'"
  by (auto simp: handleColdStart_def Let_def quiet_def proxy_frame TryStart_def split: if_splits prod.splits bool.splits)

lemma quiet_cold_route:
  assumes "cold_route ev m s = (res, s')"
  shows "quiet (res \<noteq> None) s s'"
proof -
  obtain remote s1 where r: "is_remote ev m s = (remote, s1)" by fastforce
  then have q1: "quiet True s s1" using quiet_frames(4) [of s ev m] by simp
  obtain ok s2 where h: "handleColdStart ev m s1 = (ok, s2)" by fastforce
  obtain t s3 where p: "pool_resolve ev 1 3 m s2 = (t, s3)" by fastforce
  then have q3: "quiet True s2 s3" using quiet_frames(3) [of s2 ev 1 3 m] by simp
  consider "remote \<or> \<not> ev_has_activator ev" | "\<not> remote" "ev_has_activator ev" "\<not> ok" | "\<not> remote" "ev_has_activator ev" ok by blast
  then show ?thesis
  proof cases
    case 1
    then show ?thesis using assms r quiet_trans [OF q1 quiet_abort] by (auto simp: cold_route_def split: if_splits)
  next
    case 2
    then show ?thesis using assms r h quiet_trans [OF q1 quiet_cold [OF h]] by (auto simp: cold_route_def)
  next
    case 3
    then have "quiet True s s3" using quiet_trans [OF q1 quiet_cold [OF h]] q3 quiet_trans by fastforce
    then show ?thesis using assms r h p 3 quiet_trans [OF _ quiet_abort] by (cases t) (auto simp: cold_route_def)
  qed
qed

lemma quiet_route:
  assumes "route_endpoint ev cl m s = (res, s')"
  shows "quiet (res \<noteq> None) s s'"
proof -
  obtain t s1 where p: "pool_resolve ev 0 3 m s = (t, s1)" by fastforce
  then have q1: "quiet True s s1" using quiet_frames(3) [of s ev 0 3 m] by simp
  obtain v s2 where v: "(if ev_has_virtual ev then virtual_resolve ev cl m s1 else (Inr None, s1)) = (v, s2)" by fastforce
  have "quiet True s1 s2"
  proof (cases "ev_has_virtual ev")
    case True
    then show ?thesis using v quiet_frames(5) [of s1 ev cl m] by simp
  next
    case False
    then show ?thesis using v quiet_refl by simp
  qed
  then have q2: "quiet True s s2" using q1 quiet_trans by blast
  show ?thesis
  proof (cases t)
    case (Some t1)
    then show ?thesis using assms p q1 by (auto simp: route_endpoint_def)
  next
    case None
    show ?thesis
    proof (cases v)
      case (Inl u)
      then show ?thesis using assms p v None quiet_trans [OF q2 quiet_abort] by (auto simp: route_endpoint_def)
    next
      case (Inr r)
      show ?thesis
      proof (cases r)
        case (Some t1)
        then show ?thesis using assms p v None Inr q2 by (auto simp: route_endpoint_def)
      next
        case None
        then have "cold_route ev m s2 = (res, s')" using assms p v \<open>t = None\<close> Inr by (simp add: route_endpoint_def)
        then show ?thesis using quiet_cold_route quiet_trans [OF q2] by blast
      qed
    qed
  qed
qed

subsection \<open>Calls\<close>

text \<open>
  What an attempt does: a failed one leaves answers, usage and pools alone; one that ends the request
  writes an answer and records at most one event.
\<close>

definition attempt_ok :: "bool \<Rightarrow> gw_state \<Rightarrow> gw_state \<Rightarrow> bool" where
  "attempt_ok ended s s' \<longleftrightarrow> g_reg s' = g_reg s \<and>
     (if ended then (\<exists>rs. rs \<noteq> [] \<and> g_out s' = g_out s @ rs) \<and> length (g_usage s') \<le> Suc (length (g_usage s))
      else g_out s' = g_out s \<and> g_usage s' = g_usage s)"

lemma backend_chat_frame [proxy_frame]:
  "g_out (snd (backend_chat ev c s)) = g_out s" "g_usage (snd (backend_chat ev c s)) = g_usage s" "g_reg (snd (backend_chat ev c s)) = g_reg s"
  "g_calls (snd (backend_chat ev c s)) = g_calls s @ [c]"
  by (simp_all add: backend_chat_def)

lemma syncChat_ok:
  assumes "syncChat ev cl req c t caps skip s = (ok, em, s')"
  shows "attempt_ok ok s s' \<and> (em \<longrightarrow> ok) \<and> (em \<and> skip \<longrightarrow> g_usage s' = g_usage s)"
proof -
  define s1 where "s1 = snd (backend_chat ev c s)"
  have f: "g_out s1 = g_out s" "g_usage s1 = g_usage s" "g_reg s1 = g_reg s" by (simp_all add: s1_def proxy_frame)
  have b: "backend_chat ev c s = (ev_answer ev (length (g_calls s)) c, s1)" by (simp add: s1_def backend_chat_def)
  note d = assms [unfolded syncChat_def b]
  show ?thesis
  proof (cases "ev_answer ev (length (g_calls s)) c")
    case (Inl msg)
    then show ?thesis using d f by (auto simp: attempt_ok_def proxy_frame split: if_splits)
  next
    case (Inr resp)
    show ?thesis
    proof (cases "ok_status (br_status resp)")
      case False
      then show ?thesis using d f Inr by (auto simp: attempt_ok_def proxy_frame split: if_splits)
    next
      case True
      show ?thesis
      proof (cases "ev_decode ev (br_body resp)")
        case None
        then show ?thesis using d f Inr True by (auto simp: attempt_ok_def proxy_frame)
      next
        case (Some a0)
        obtain a e where fin: "finish_answer (ev_marshal ev) (ev_has_db ev) (ev_flt ev) (ev_price ev) (ev_pricing ev)
            (c_now (ev_clock ev)) caps (q_model req) (ep_model (tg_ep t)) a0 = (a, e)" by fastforce
        then show ?thesis using d f Inr True Some by (auto simp: attempt_ok_def proxy_frame Let_def split: if_splits)
      qed
    qed
  qed
qed

lemma streamChat_ok:
  assumes "streamChat ev cl req c t s = (ok, s')"
  shows "attempt_ok ok s s'"
proof -
  define s1 where "s1 = snd (backend_chat ev c s)"
  have f: "g_out s1 = g_out s" "g_usage s1 = g_usage s" "g_reg s1 = g_reg s" by (simp_all add: s1_def proxy_frame)
  have b: "backend_chat ev c s = (ev_answer ev (length (g_calls s)) c, s1)" by (simp add: s1_def backend_chat_def)
  note d = assms [unfolded streamChat_def b]
  show ?thesis
  proof (cases "ev_answer ev (length (g_calls s)) c")
    case (Inl msg)
    then show ?thesis using d f by (auto simp: attempt_ok_def proxy_frame split: if_splits)
  next
    case (Inr resp)
    show ?thesis
    proof (cases "ok_status (br_status resp)")
      case False
      then show ?thesis using d f Inr by (auto simp: attempt_ok_def proxy_frame split: if_splits)
    next
      case True
      then show ?thesis using d f Inr by (cases "br_stream resp") (auto simp: attempt_ok_def proxy_frame Let_def split: if_splits)
    qed
  qed
qed

lemma sync_attempt_ok:
  assumes "sync_attempt ev cl caps on url req c t s = (ok, s')"
  shows "attempt_ok ok s s'"
proof -
  obtain ok1 em s1 where 1: "syncChat ev cl req c t caps (on \<and> ev_has_thinking ev) s = (ok1, em, s1)" by (metis prod_cases3)
  note q1 = syncChat_ok [OF 1]
  show ?thesis
  proof (cases "ok1 \<and> em \<and> on \<and> ev_has_thinking ev")
    case True
    define retry where "retry = \<lparr>ca_url = url, ca_key = us_key (tg_up t), ca_backend = tg_backend t,
      ca_body = ChatBody (fst (InjectThinkingControl req False caps))\<rparr>"
    obtain ok2 em2 s2 where 2: "syncChat ev cl req retry t caps False s1 = (ok2, em2, s2)" by (metis prod_cases3)
    have "ok" "s' = s2" using assms 1 2 True by (simp_all add: sync_attempt_def retry_def)
    moreover have "attempt_ok ok2 s1 s2" using syncChat_ok [OF 2] by simp
    ultimately show ?thesis using q1 True by (cases ok2) (auto simp: attempt_ok_def)
  next
    case False
    then show ?thesis using assms 1 q1 by (auto simp: sync_attempt_def Let_def)
  qed
qed

subsection \<open>Connection counts\<close>

definition conns :: "string \<Rightarrow> id \<Rightarrow> gw_state \<Rightarrow> int list" where
  "conns name i s = (case pools (g_reg s) name of None \<Rightarrow> [] | Some p \<Rightarrow> map ep_conns (filter (\<lambda>e. ep_id e = i) (endpoints p)))"

lemma conns_cong: "map_option endpoints (pools (g_reg s') name) = map_option endpoints (pools (g_reg s) name) \<Longrightarrow> conns name i s' = conns name i s"
  by (auto simp: conns_def split: option.splits)

lemma conns_reg: "g_reg s' = g_reg s \<Longrightarrow> conns name i s' = conns name i s"
  by (simp add: conns_def)

lemma filter_upd_conns:
  assumes "\<And>e. ep_id (f e) = ep_id e" and "\<And>e. ep_conns (f e) = ep_conns e + k"
  shows "map ep_conns (filter (\<lambda>e. ep_id e = i) (map (\<lambda>e. if ep_id e = j then f e else e) es)) =
     map (\<lambda>n. n + (if i = j then k else 0)) (map ep_conns (filter (\<lambda>e. ep_id e = i) es))"
  by (induction es) (auto simp: assms)

lemma conns_map_endpoint:
  assumes "\<And>e. ep_id (f e) = ep_id e" and "\<And>e. ep_conns (f e) = ep_conns e + k"
  shows "conns name i (s\<lparr>g_reg := map_endpoint name j f (g_reg s)\<rparr>) = map (\<lambda>n. n + (if i = j then k else 0)) (conns name i s)"
  using filter_upd_conns [OF assms] by (simp add: conns_def map_endpoint_def split: option.split)

lemma conns_add: "conns name i (add_conns name j k s) = map (\<lambda>n. n + (if i = j then k else 0)) (conns name i s)"
  unfolding add_conns_def by (rule conns_map_endpoint) simp_all

lemma conns_track [proxy_frame]:
  "conns name i (track_start ev cl name j s) = map (\<lambda>n. n + (if i = j then 1 else 0)) (conns name i s)"
  "conns name i (track_end ev cl name j s) = map (\<lambda>n. n - (if i = j then 1 else 0)) (conns name i s)"
proof -
  have *: "conns name i (RecordActivity ev j u) = conns name i u" "conns name i (incrementInflight ev cl u) = conns name i u"
      "conns name i (decrementInflight ev cl u) = conns name i u" for u
    by (simp_all add: conns_def RecordActivity_def incrementInflight_def decrementInflight_def)
  show "conns name i (track_start ev cl name j s) = map (\<lambda>n. n + (if i = j then 1 else 0)) (conns name i s)"
    by (simp add: track_start_def * conns_add cong: map_cong)
  show "conns name i (track_end ev cl name j s) = map (\<lambda>n. n - (if i = j then 1 else 0)) (conns name i s)"
    by (simp add: track_end_def * conns_add cong: map_cong)
qed

lemma conns_pool_resolve: "conns name i (snd (pool_resolve ev k n m s)) = conns name i s"
proof (rule conns_cong)
  show "map_option endpoints (pools (g_reg (snd (pool_resolve ev k n m s))) name) = map_option endpoints (pools (g_reg s) name)"
    using resolve_frame(2) [of "ev_intn ev k" n m "g_reg s" name] by (simp add: pool_resolve_def case_prod_unfold Let_def)
qed

lemma conns_mark_down: "conns name i (mark_down ev name t s) = conns name i s"
proof -
  let ?f = "SetStatus (c_now (ev_clock ev)) StatusDown"
  have id: "ep_id (?f e) = ep_id e" "ep_conns (?f e) = ep_conns e + 0" for e by (simp_all add: SetStatus_def)
  have "conns name i (s\<lparr>g_reg := UpdateEndpointHealth (c_now (ev_clock ev)) (ep_id (tg_ep t)) name StatusDown (g_reg s)\<rparr>) = conns name i s"
  proof (cases "pools (g_reg s) name")
    case None
    then show ?thesis by (simp add: UpdateEndpointHealth_def conns_def)
  next
    case (Some p)
    then have "conns name i (s\<lparr>g_reg := UpdateEndpointHealth (c_now (ev_clock ev)) (ep_id (tg_ep t)) name StatusDown (g_reg s)\<rparr>) =
        conns name i (s\<lparr>g_reg := map_endpoint name (ep_id (tg_ep t)) ?f (g_reg s)\<rparr>)"
      by (simp add: UpdateEndpointHealth_def conns_def)
    then show ?thesis using conns_map_endpoint [OF id, where s = s and name = name and i = i and j = "ep_id (tg_ep t)"] by simp
  qed
  then show ?thesis
    using conns_map_endpoint [OF id, where name = name and i = i and j = "ep_id (tg_ep t)" and
        s = "s\<lparr>g_reg := UpdateEndpointHealth (c_now (ev_clock ev)) (ep_id (tg_ep t)) name StatusDown (g_reg s)\<rparr>"]
    by (simp add: mark_down_def)
qed

subsection \<open>All attempts of a request\<close>

definition run_ok :: "bool \<Rightarrow> string \<Rightarrow> gw_state \<Rightarrow> gw_state \<Rightarrow> bool" where
  "run_ok answered name s s' \<longleftrightarrow>
     (\<forall>i. conns name i s' = conns name i s) \<and> length (g_usage s') \<le> Suc (length (g_usage s)) \<and>
     (\<exists>rs. g_out s' = g_out s @ rs \<and> (answered \<longrightarrow> rs \<noteq> []))"

lemma run_ok_ended: "attempt_ok True s s' \<Longrightarrow> run_ok b name s s'"
  by (auto simp: attempt_ok_def run_ok_def intro: conns_reg)

lemma run_ok_abort: "run_ok b name s (abortErr st c s)"
  by (auto simp: run_ok_def proxy_frame intro: conns_reg)

text \<open>A state that differs from another only in the health of its pools.\<close>

definition same_record :: "string \<Rightarrow> gw_state \<Rightarrow> gw_state \<Rightarrow> bool" where
  "same_record name s s' \<longleftrightarrow> (\<forall>i. conns name i s' = conns name i s) \<and> g_usage s' = g_usage s \<and> g_out s' = g_out s"

lemma same_record_trans: "same_record name s s1 \<Longrightarrow> same_record name s1 s2 \<Longrightarrow> same_record name s s2"
  by (simp add: same_record_def)

lemma same_record_run: "same_record name s s1 \<Longrightarrow> run_ok b name s1 s2 \<Longrightarrow> run_ok b name s s2"
  by (simp add: same_record_def run_ok_def)

lemma same_record_resolve: "pool_resolve ev k n m s = (t, s') \<Longrightarrow> same_record name s s'"
  using conns_pool_resolve [of name _ ev k n m s] pool_resolve_frame [of ev k n m s] by (simp add: same_record_def)

lemma same_record_failed: "attempt_ok False s s' \<Longrightarrow> same_record name s (mark_down ev name t s')"
  unfolding attempt_ok_def same_record_def conns_mark_down mark_down_frame using conns_reg [of s' s name] by simp

lemma run_ok_none: "same_record name s s' \<Longrightarrow> run_ok False name s s'"
  by (simp add: same_record_def run_ok_def)

lemma sync_more_ok: "run_ok True name s (snd (sync_more ev cl caps on url name n req c t s))"
proof (induction n arbitrary: req c t s)
  case 0
  then show ?case by (simp add: run_ok_abort)
next
  case (Suc n)
  obtain r s1 where p: "pool_resolve ev (Suc (Suc n)) 3 name s = (r, s1)" by fastforce
  note same = same_record_resolve [OF p, of name]
  show ?case
  proof (cases r)
    case None
    then show ?thesis using same_record_run [OF same run_ok_abort] p by simp
  next
    case (Some t2)
    obtain ok s2 where a: "sync_attempt ev cl caps on url (use_target t2 req) (next_call t2 c) t2 s1 = (ok, s2)" by fastforce
    note at = sync_attempt_ok [OF a]
    show ?thesis
    proof (cases ok)
      case True
      then show ?thesis using at same_record_run [OF same run_ok_ended] p Some a by simp
    next
      case False
      then have "same_record name s (mark_down ev name t2 s2)"
        using at same same_record_failed same_record_trans by (metis (full_types))
      then show ?thesis using same_record_run Suc.IH p Some a False by simp
    qed
  qed
qed

lemma stream_more_ok: "run_ok False name s (snd (stream_more ev cl name n req c t s))"
proof (induction n arbitrary: req c t s)
  case 0
  then show ?case by (simp add: run_ok_def)
next
  case (Suc n)
  obtain r s1 where p: "pool_resolve ev (Suc (Suc n)) 3 name s = (r, s1)" by fastforce
  note same = same_record_resolve [OF p, of name]
  show ?case
  proof (cases r)
    case None
    then show ?thesis using run_ok_none [OF same] p by simp
  next
    case (Some t2)
    obtain ok s2 where a: "streamChat ev cl (use_target t2 req) (next_call t2 c) t2 s1 = (ok, s2)" by fastforce
    note at = streamChat_ok [OF a]
    show ?thesis
    proof (cases ok)
      case True
      then show ?thesis using at same_record_run [OF same run_ok_ended] p Some a by simp
    next
      case False
      then have "same_record name s (mark_down ev name t2 s2)"
        using at same same_record_failed same_record_trans by (metis (full_types))
      then show ?thesis using same_record_run Suc.IH p Some a False by simp
    qed
  qed
qed

lemma sync_attempts_ok: "run_ok True name s (snd (sync_attempts ev cl caps on name req c t s))"
proof -
  obtain ok s1 where a: "sync_attempt ev cl caps on (epEffectiveURL t) req c t s = (ok, s1)" by fastforce
  note at = sync_attempt_ok [OF a]
  show ?thesis
  proof (cases ok)
    case True
    then show ?thesis using run_ok_ended at a by (simp add: sync_attempts_def)
  next
    case False
    then have "same_record name s (mark_down ev name t s1)" using at same_record_failed by simp
    from same_record_run [OF this sync_more_ok] show ?thesis using a False by (simp add: sync_attempts_def)
  qed
qed

lemma stream_attempts_ok: "run_ok False name s (snd (stream_attempts ev cl name req c t s))"
proof -
  obtain ok s1 where a: "streamChat ev cl req c t s = (ok, s1)" by fastforce
  note at = streamChat_ok [OF a]
  show ?thesis
  proof (cases ok)
    case True
    then show ?thesis using run_ok_ended at a by (simp add: stream_attempts_def)
  next
    case False
    then have "same_record name s (mark_down ev name t s1)" using at same_record_failed by simp
    from same_record_run [OF this stream_more_ok] show ?thesis using a False by (simp add: stream_attempts_def)
  qed
qed

lemma thinking_stage_stream: "thinking_stage ev req q = (caps, on, body, req') \<Longrightarrow> q_stream req' = q_stream req"
  by (auto simp: thinking_stage_def Let_def split: if_splits prod.splits)

lemma use_target_stream [simp]: "q_stream (use_target t req) = q_stream req"
  by (simp add: use_target_def)

lemma run_ok_weaken: "run_ok True name s s' \<Longrightarrow> run_ok b name s s'"
  by (auto simp: run_ok_def)

lemma run_attempts_ok: "run_ok (\<not> q_stream req) (q_model req) s (snd (run_attempts ev cl req t s))"
proof -
  obtain caps on body req' where th: "thinking_stage ev (use_target t req) (sanitizeForBackend (tg_backend t) (use_target t req)) = (caps, on, body, req')"
    by (metis prod_cases4)
  have "q_stream req' = q_stream req" using thinking_stage_stream [OF th] by simp
  then show ?thesis
    using th sync_attempts_ok stream_attempts_ok by (simp add: run_attempts_def Let_def)
qed

subsection \<open>The whole handler\<close>

lemma clamp_keeps [simp]:
  "q_stream (clamp_output m q) = q_stream q" "q_stream (clamp_temperature x q) = q_stream q"
  "q_model (clamp_output m q) = q_model q" "q_model (clamp_temperature x q) = q_model q"
  "q_max_completion_tokens (clamp_output m q) = q_max_completion_tokens q"
  "q_max_completion_tokens (clamp_temperature x q) = q_max_completion_tokens q"
  by (simp_all add: clamp_output_def clamp_temperature_def split: option.split)

lemma enforce_keeps:
  "q_stream (snd (Enforce b o' p t k tbl est q)) = q_stream q" "q_model (snd (Enforce b o' p t k tbl est q)) = q_model q"
  "q_max_completion_tokens (snd (Enforce b o' p t k tbl est q)) = q_max_completion_tokens q"
proof -
  have "q_stream (snd (enforce_loop est ps q)) = q_stream q \<and> q_model (snd (enforce_loop est ps q)) = q_model q \<and>
      q_max_completion_tokens (snd (enforce_loop est ps q)) = q_max_completion_tokens q" for ps
    by (induction est ps q rule: enforce_loop.induct) (simp_all split: option.split)
  then show "q_stream (snd (Enforce b o' p t k tbl est q)) = q_stream q" "q_model (snd (Enforce b o' p t k tbl est q)) = q_model q"
    "q_max_completion_tokens (snd (Enforce b o' p t k tbl est q)) = q_max_completion_tokens q" by (simp_all add: Enforce_def)
qed

lemma prompt_keeps: "pd_request (prompt_check ev cl db q) = Some q' \<Longrightarrow> q_stream q' = q_stream q"
proof -
  have "prompt_loop num ps q = Inr q' \<Longrightarrow> q_stream q' = q_stream q" for num ps
    by (induction num ps q rule: prompt_loop.induct) (auto simp: prompt_rewrite_def Let_def split: if_splits option.splits)
  then show "pd_request (prompt_check ev cl db q) = Some q' \<Longrightarrow> q_stream q' = q_stream q"
    by (auto simp: prompt_check_def evaluate_prompt_def Let_def split: if_splits sum.splits)
qed

lemma admitD:
  assumes "admit_policies ev cl req s = (Some req1, s')"
  shows "\<exists>q. Enforce (ev_flt ev ''gateway policies'') (cl_org cl) (cl_project cl) (cl_team cl) (cl_key cl) (ev_gateway ev)
       (estimateTokens (q_messages req)) req = (None, q) \<and>
     fst (infrastructure_policy ev cl (q_model req) (estimateTokens (q_messages req)) s) \<and>
     pd_allowed (prompt_check ev cl (model_table ev s) q) \<and> q_stream req1 = q_stream req"
proof -
  let ?E = "Enforce (ev_flt ev ''gateway policies'') (cl_org cl) (cl_project cl) (cl_team cl) (cl_key cl) (ev_gateway ev)
       (estimateTokens (q_messages req)) req"
  obtain v q where e: "?E = (v, q)" by fastforce
  have v: "v = None" using assms e by (auto simp: admit_policies_def Let_def split: option.splits)
  have keep: "q_stream q = q_stream req" "q_model q = q_model req"
    using enforce_keeps(1,2) [of "ev_flt ev ''gateway policies''" "cl_org cl" "cl_project cl" "cl_team cl" "cl_key cl" "ev_gateway ev"
      "estimateTokens (q_messages req)" req] e by simp_all
  obtain ok s1 where p: "infrastructure_policy ev cl (q_model q) (estimateTokens (q_messages req)) s = (ok, s1)" by fastforce
  have ok: ok using assms e v p by (cases ok) (auto simp: admit_policies_def Let_def)
  have "g_cat s1 = g_cat s" using p ok by (auto simp: infrastructure_policy_def Let_def split: prod.splits if_splits)
  then have tbl: "model_table ev s1 = model_table ev s" by (simp add: model_table_def)
  let ?d = "prompt_check ev cl (model_table ev s) q"
  have d: "pd_allowed ?d" "req1 = (case pd_request ?d of Some q' \<Rightarrow> q' | None \<Rightarrow> q)"
    using assms e v p ok tbl by (auto simp: admit_policies_def Let_def split: if_splits)
  then have "q_stream req1 = q_stream req"
    using prompt_keeps [of ev cl "model_table ev s" q] keep(1) by (auto split: option.splits)
  with e v p ok keep(2) d(1) show ?thesis by auto
qed

lemma check_keeps: "CheckAndAbort ev m r s = (True, s') \<Longrightarrow> g_redis s' = g_redis s \<and> g_cat s' = g_cat s"
proof -
  let ?known = "RequiredCapabilityForRoute r = None \<or> GetModelCapabilities (ev_flt ev ''capabilities'') m (map known_model (ev_models ev)) \<noteq> None"
  assume a: "CheckAndAbort ev m r s = (True, s')"
  obtain vc s1 where c: "(if ?known \<or> \<not> ev_has_virtual ev then (empty_virtual, s) else with_cache ev s) = (vc, s1)" by fastforce
  have "g_redis s1 = g_redis s \<and> g_cat s1 = g_cat s"
  proof (cases "?known \<or> \<not> ev_has_virtual ev")
    case True
    with c have "s1 = s" by (simp only: if_True prod.inject)
    then show ?thesis by simp
  next
    case False
    with c have "with_cache ev s = (vc, s1)" by (simp only: if_False)
    then show ?thesis by (auto simp: with_cache_def split: prod.splits)
  qed
  moreover have "s' = s1"
    using a unfolding CheckAndAbort_def Let_def c by (auto split: option.splits)
  ultimately show ?thesis by simp
qed

lemma ChatCompletions_cases:
  fixes ev hr s
  defines "s' \<equiv> ChatCompletions ev hr s"
  shows "quiet False s s' \<or>
    (\<exists>cl0 req0 req1 s2 s3 s4 t. hr_claims hr = Some cl0 \<and> hr_body hr = Parsed req0 \<and>
       g_redis s2 = g_redis (snd (resolve_alias ev cl0 (resolveModelWithProvider (hr_provider hr) (q_model req0)) s)) \<and> g_cat s2 = g_cat s \<and>
       admit_policies ev (applyProjectHeaderOverride ev (hr_project hr) cl0)
         (req0\<lparr>q_model := fst (resolve_alias ev cl0 (resolveModelWithProvider (hr_provider hr) (q_model req0)) s)\<rparr>) s2 = (Some req1, s3) \<and>
       quiet True s s4 \<and> s' = dispatch ev (applyProjectHeaderOverride ev (hr_project hr) cl0) req1 t s4)"
proof -
  note s'_def = s'_def [unfolded ChatCompletions_def]
  consider "hr_claims hr = None" | cl0 where "hr_claims hr = Some cl0" "\<nexists>q. hr_body hr = Parsed q \<and> q_model q \<noteq> []"
    | cl0 req0 where "hr_claims hr = Some cl0" "hr_body hr = Parsed req0" "q_model req0 \<noteq> []" by (cases "hr_claims hr") auto
  then show ?thesis
  proof cases
    case 1
    then show ?thesis using quiet_abort by (simp add: s'_def)
  next
    case 2
    then show ?thesis using quiet_abort by (cases "hr_body hr") (auto simp: s'_def)
  next
    case 3
    let ?cl = "applyProjectHeaderOverride ev (hr_project hr) cl0"
    obtain real s1 where a: "resolve_alias ev cl0 (resolveModelWithProvider (hr_provider hr) (q_model req0)) s = (real, s1)" by fastforce
    have q1: "quiet True s s1"
      using quiet_frames(2) [of s ev cl0 "resolveModelWithProvider (hr_provider hr) (q_model req0)"] by (simp only: a snd_conv)
    have cat1: "g_cat s1 = g_cat s" using a by (auto simp: resolve_alias_def split: prod.splits)
    obtain ok s2 where c: "(if ev_has_validator ev then CheckAndAbort ev real (hr_route hr) s1 else (True, s1)) = (ok, s2)" by fastforce
    have q2: "quiet ok s s2"
    proof (cases "ev_has_validator ev")
      case True
      then have "CheckAndAbort ev real (hr_route hr) s1 = (ok, s2)" using c by (simp only: if_True)
      from quiet_trans [OF q1 quiet_check [OF this]] show ?thesis .
    next
      case False
      then have "ok = True" "s2 = s1" using c by (simp_all only: if_False prod.inject)
      with q1 show ?thesis by simp
    qed
    note unf = s'_def 3 a c
    show ?thesis
    proof (cases ok)
      case False
      then show ?thesis using q2 by (simp add: unf)
    next
      case True
      have "g_redis s2 = g_redis s1 \<and> g_cat s2 = g_cat s1"
      proof (cases "ev_has_validator ev")
        case v: True
        then have "CheckAndAbort ev real (hr_route hr) s1 = (True, s2)" using c True by (simp only: if_True)
        then show ?thesis by (rule check_keeps)
      next
        case False
        then have "s2 = s1" using c by (simp only: if_False prod.inject)
        then show ?thesis by simp
      qed
      then have k2: "g_redis s2 = g_redis s1" "g_cat s2 = g_cat s" by (simp_all only: cat1)
      obtain r s3 where ad: "admit_policies ev ?cl (req0\<lparr>q_model := real\<rparr>) s2 = (r, s3)" by fastforce
      have q2': "quiet True s s2" using q2 True by simp
      note q3 = quiet_trans [OF q2' quiet_admit [OF ad]]
      show ?thesis
      proof (cases r)
        case None
        then show ?thesis using q3 ad True by (simp add: unf)
      next
        case (Some req1)
        obtain t s4 where ro: "route_endpoint ev ?cl (q_model req1) s3 = (t, s4)" by fastforce
        have q3': "quiet True s s3" using q3 Some by simp
        note q4 = quiet_trans [OF q3' quiet_route [OF ro]]
        show ?thesis
        proof (cases t)
          case None
          then show ?thesis using q4 ad ro True Some by (simp add: unf)
        next
          case (Some t1)
          have "s' = dispatch ev ?cl req1 t1 s4" using ad ro True Some \<open>r = Some req1\<close> by (simp add: unf)
          moreover have "quiet True s s4" using q4 Some by simp
          ultimately show ?thesis using 3 a ad k2 \<open>r = Some req1\<close> 
            by (intro disjI2, intro exI [of _ cl0] exI [of _ req0] exI [of _ req1] exI [of _ s2] exI [of _ s3] exI [of _ s4] exI [of _ t1]) simp
        qed
      qed
    qed
  qed
qed

subsection \<open>Properties\<close>

lemma dispatch_effect:
  "length (g_usage (dispatch ev cl req t s)) \<le> Suc (length (g_usage s))"
  "\<exists>rs. g_out (dispatch ev cl req t s) = g_out s @ rs \<and> (\<not> q_stream req \<longrightarrow> rs \<noteq> [])"
  using run_attempts_ok [of req "track_start ev cl (q_model req) (ep_id (tg_ep t)) s" ev cl t]
  by (simp_all add: dispatch_def run_ok_def proxy_frame case_prod_unfold Let_def)

text \<open>
  C8: no upstream is called unless the request was admitted. When a chat request makes any upstream call,
  the caller is authenticated, the body was bound, no gateway policy is violated, the two-layer policy
  engine allows the request under the caller's project, and the prompt policies let it pass; all of this for
  the model the alias stands for and with the project the header may select.
\<close>

theorem no_call_without_admission:
  assumes "g_calls (ChatCompletions ev hr s) \<noteq> g_calls s"
  shows "\<exists>cl0 req0 cl model r q. hr_claims hr = Some cl0 \<and> hr_body hr = Parsed req0 \<and>
     cl = applyProjectHeaderOverride ev (hr_project hr) cl0 \<and>
     (model, r) = Resolve (ev_net ev) (\<lambda>l. ev_flt ev (''alias:'' @ l)) (ev_pick ev) (c_now (ev_clock ev))
       (resolveModelWithProvider (hr_provider hr) (q_model req0)) (cl_team cl0) (cl_org cl0)
       (ev_aliases ev, map plain_model (ev_models ev)) (g_redis s) \<and>
     Enforce (ev_flt ev ''gateway policies'') (cl_org cl) (cl_project cl) (cl_team cl) (cl_key cl) (ev_gateway ev)
       (estimateTokens (q_messages req0)) (req0\<lparr>q_model := model\<rparr>) = (None, q) \<and>
     Allowed (fst (Evaluate (ev_net ev) (ev_clock ev)
       \<lparr>Model = model, EstimatedInputTokens = estimateTokens (q_messages req0), OrgID = cl_org cl, TeamID = cl_team cl, ProjectID = cl_project cl\<rparr>
       (if cl_weight cl > 0 then cl_weight cl else 500) (Some (teamPolicy ev (cl_team cl))) r)) \<and>
     pd_allowed (prompt_check ev cl (model_table ev s) q)"
proof -
  have "\<not> quiet False s (ChatCompletions ev hr s)" using assms by (simp add: quiet_def)
  then obtain cl0 req0 req1 s2 s3 where c: "hr_claims hr = Some cl0" "hr_body hr = Parsed req0"
      "g_redis s2 = g_redis (snd (resolve_alias ev cl0 (resolveModelWithProvider (hr_provider hr) (q_model req0)) s))" "g_cat s2 = g_cat s"
      "admit_policies ev (applyProjectHeaderOverride ev (hr_project hr) cl0)
         (req0\<lparr>q_model := fst (resolve_alias ev cl0 (resolveModelWithProvider (hr_provider hr) (q_model req0)) s)\<rparr>) s2 = (Some req1, s3)"
    using ChatCompletions_cases [of s ev hr] by blast
  obtain model r where m: "Resolve (ev_net ev) (\<lambda>l. ev_flt ev (''alias:'' @ l)) (ev_pick ev) (c_now (ev_clock ev))
          (resolveModelWithProvider (hr_provider hr) (q_model req0)) (cl_team cl0) (cl_org cl0)
          (ev_aliases ev, map plain_model (ev_models ev)) (g_redis s) = (model, r)" by fastforce
  then have al: "resolve_alias ev cl0 (resolveModelWithProvider (hr_provider hr) (q_model req0)) s = (model, s\<lparr>g_redis := r\<rparr>)"
    by (simp add: resolve_alias_def)
  have tbl: "model_table ev s2 = model_table ev s" using c(4) by (simp add: model_table_def)
  have r: "g_redis s2 = r" using c(3) al by simp
  from admitD [OF c(5)] obtain q where q: "Enforce (ev_flt ev ''gateway policies'') (cl_org (applyProjectHeaderOverride ev (hr_project hr) cl0))
       (cl_project (applyProjectHeaderOverride ev (hr_project hr) cl0)) (cl_team (applyProjectHeaderOverride ev (hr_project hr) cl0))
       (cl_key (applyProjectHeaderOverride ev (hr_project hr) cl0)) (ev_gateway ev) (estimateTokens (q_messages req0)) (req0\<lparr>q_model := model\<rparr>) = (None, q)"
      "fst (infrastructure_policy ev (applyProjectHeaderOverride ev (hr_project hr) cl0) model (estimateTokens (q_messages req0)) s2)"
      "pd_allowed (prompt_check ev (applyProjectHeaderOverride ev (hr_project hr) cl0) (model_table ev s2) q)"
    by (auto simp: al)
  let ?cl = "applyProjectHeaderOverride ev (hr_project hr) cl0"
  have "Allowed (fst (Evaluate (ev_net ev) (ev_clock ev)
       \<lparr>Model = model, EstimatedInputTokens = estimateTokens (q_messages req0), OrgID = cl_org ?cl, TeamID = cl_team ?cl, ProjectID = cl_project ?cl\<rparr>
       (if cl_weight ?cl > 0 then cl_weight ?cl else 500) (Some (teamPolicy ev (cl_team ?cl))) r))"
    using q(2) by (auto simp: infrastructure_policy_def Let_def r split: prod.splits if_splits)
  with c(1,2) m q(1) q(3) [unfolded tbl] show ?thesis
    by (intro exI [of _ cl0] exI [of _ req0] exI [of _ ?cl] exI [of _ model] exI [of _ r] exI [of _ q]) simp
qed

text \<open>
  C9: one client request is billed at most once, whatever fails on the way and however often endpoints are
  tried: it adds at most one usage event.
\<close>

theorem at_most_one_usage_event: "length (g_usage (ChatCompletions ev hr s)) \<le> Suc (length (g_usage s))"
  using ChatCompletions_cases [of s ev hr] dispatch_effect(1) unfolding quiet_def by (metis le_Suc_eq order_refl)

text \<open>
  C10: a request that does not ask for a stream is always answered: with an error or with a completion,
  whatever the upstreams do.
\<close>

theorem sync_request_answered:
  assumes "\<And>q. hr_body hr = Parsed q \<Longrightarrow> \<not> q_stream q"
  shows "\<exists>rs. rs \<noteq> [] \<and> g_out (ChatCompletions ev hr s) = g_out s @ rs"
  using ChatCompletions_cases [of s ev hr]
proof (elim disjE exE conjE)
  assume "quiet False s (ChatCompletions ev hr s)"
  then show ?thesis unfolding quiet_def by auto
next
  fix cl0 req0 req1 s2 s3 s4 t
  assume b: "hr_body hr = Parsed req0" and q: "quiet True s s4"
    and ad: "admit_policies ev (applyProjectHeaderOverride ev (hr_project hr) cl0)
         (req0\<lparr>q_model := fst (resolve_alias ev cl0 (resolveModelWithProvider (hr_provider hr) (q_model req0)) s)\<rparr>) s2 = (Some req1, s3)"
    and d: "ChatCompletions ev hr s = dispatch ev (applyProjectHeaderOverride ev (hr_project hr) cl0) req1 t s4"
  have "\<not> q_stream req1" using admitD [OF ad] assms [OF b] by auto
  then obtain rs where "rs \<noteq> []" "g_out (dispatch ev (applyProjectHeaderOverride ev (hr_project hr) cl0) req1 t s4) = g_out s4 @ rs"
    using dispatch_effect(2) [of ev "applyProjectHeaderOverride ev (hr_project hr) cl0" req1 t s4] by blast
  then show ?thesis using q d unfolding quiet_def by auto
qed

text \<open>
  The count of open connections follows the endpoint of the last attempt. Over a dispatch the count of an
  endpoint grows by one if it was tried first and falls by one if it was tried last, so after a failover the
  endpoint that failed keeps a connection it does not have and its replacement loses one.
\<close>

theorem connections_follow_last_endpoint:
  "conns (q_model req) i (dispatch ev cl req t s) =
     map (\<lambda>n. n + (if i = ep_id (tg_ep t) then 1 else 0) -
       (if i = ep_id (tg_ep (fst (run_attempts ev cl req t (track_start ev cl (q_model req) (ep_id (tg_ep t)) s)))) then 1 else 0))
     (conns (q_model req) i s)"
proof -
  let ?s = "track_start ev cl (q_model req) (ep_id (tg_ep t)) s"
  obtain u s1 where r: "run_attempts ev cl req t ?s = (u, s1)" by fastforce
  then have "conns (q_model req) i s1 = conns (q_model req) i ?s" using run_attempts_ok [of req ?s ev cl t] by (simp add: run_ok_def)
  then show ?thesis by (simp add: dispatch_def r proxy_frame cong: map_cong)
qed

text \<open>
  The project header cannot widen access. A key that belongs to a project ignores it; for a team key it
  selects at most an active project of the caller's own team and organisation, and nothing else of the
  claims changes.
\<close>

theorem override_stays_in_team:
  "applyProjectHeaderOverride ev hdr cl = cl \<or>
   (cl_project cl = [] \<and> (\<exists>p \<in> set (ev_projects ev). tj_team p = Some (cl_team cl) \<and> tj_org p = cl_org cl \<and> tj_status p = ''active'' \<and>
      (tj_name p = hdr \<or> tj_id p = hdr) \<and>
      applyProjectHeaderOverride ev hdr cl = cl\<lparr>cl_project := tj_id p, cl_project_name := tj_name p, cl_weight := tj_weight p\<rparr>))"
proof (cases "resolveTeamProjectOverride (ev_flt ev ''project override'') (cl_team cl) (cl_org cl) hdr (ev_projects ev)")
  case None
  then show ?thesis by (simp add: applyProjectHeaderOverride_def)
next
  case (Some p)
  then have "find (own_project (cl_team cl) (cl_org cl) hdr) (ev_projects ev) = Some p"
    by (auto simp: resolveTeamProjectOverride_def split: if_splits)
  then have p: "p \<in> set (ev_projects ev)" "own_project (cl_team cl) (cl_org cl) hdr p" by (auto simp: find_Some_iff)
  show ?thesis
  proof (cases "cl_project cl \<noteq> [] \<or> hdr = [] \<or> \<not> ev_has_db ev")
    case True
    then show ?thesis by (auto simp: applyProjectHeaderOverride_def)
  next
    case False
    then have "applyProjectHeaderOverride ev hdr cl = cl\<lparr>cl_project := tj_id p, cl_project_name := tj_name p, cl_weight := tj_weight p\<rparr>"
      using Some by (simp add: applyProjectHeaderOverride_def)
    with p False show ?thesis unfolding own_project_def by blast
  qed
qed

text \<open>
  A cap on output tokens does not bind requests that name the limit \<open>max_completion_tokens\<close>. Such a request
  passes the gateway policies with this value, and the body for every backend but \<open>openai_compat\<close> asks for at
  least as many tokens, whatever the policies say.
\<close>

theorem completion_tokens_bypass_cap:
  assumes "q_max_completion_tokens req = Some n" and "backendType \<noteq> ''openai_compat''"
  shows "\<exists>k \<ge> n. q_max_tokens (sanitizeForBackend backendType (snd (Enforce fails o' p t key tbl est req))) = Some k"
  using enforce_keeps(3) [of fails o' p t key tbl est req] assms
  by (cases "q_max_tokens (snd (Enforce fails o' p t key tbl est req))") (auto simp: sanitize_max_tokens)

text \<open>
  A stream can stay without any answer. When no attempt of a streaming request gets a connection, the
  handler returns without having written anything.
\<close>

theorem failing_stream_unanswered:
  assumes "q_stream req" and fails: "\<And>k c. \<exists>msg. ev_answer ev k c = Inl msg \<and> isConnectError msg"
  shows "g_out (dispatch ev cl req t s) = g_out s"
proof -
  have one: "\<exists>s'. streamChat ev cl q c u s = (False, s') \<and> g_out s' = g_out s" for q c u s
  proof -
    obtain msg where "ev_answer ev (length (g_calls s)) c = Inl msg" "isConnectError msg" using fails by blast
    then show ?thesis by (simp add: streamChat_def backend_chat_def)
  qed
  have more': "g_out (snd (stream_more ev cl name n q c u s)) = g_out s" for name n q c u s
  proof (induction n arbitrary: q c u s)
    case (Suc n)
    obtain r s1 where p: "pool_resolve ev (Suc (Suc n)) 3 name s = (r, s1)" by fastforce
    then have o1: "g_out s1 = g_out s" using pool_resolve_frame(3) [of ev "Suc (Suc n)" 3 name s] by simp
    show ?case
    proof (cases r)
      case (Some t2)
      obtain s2 where "streamChat ev cl (use_target t2 q) (next_call t2 c) t2 s1 = (False, s2)" "g_out s2 = g_out s1" using one by blast
      then show ?thesis using Some p o1 Suc.IH by (simp add: mark_down_frame)
    qed (simp add: p o1)
  qed simp
  obtain caps on body req' where th: "thinking_stage ev (use_target t req) (sanitizeForBackend (tg_backend t) (use_target t req)) = (caps, on, body, req')"
    by (metis prod_cases4)
  have "q_stream req'" using thinking_stage_stream [OF th] assms(1) by simp
  moreover have "g_out (snd (stream_attempts ev cl name q c u s)) = g_out s" for name q c u s
    using one [of q c u s] more' by (auto simp: stream_attempts_def mark_down_frame)
  ultimately have "g_out (snd (run_attempts ev cl req t s)) = g_out s" for s
    by (simp add: run_attempts_def th Let_def)
  then show ?thesis by (simp add: dispatch_def case_prod_unfold Let_def tracking_frame)
qed

text \<open>
  The retry without reasoning sends the secret of one endpoint to the address of another. After a failover
  the retry uses the key of the endpoint in use and the URL of the first endpoint.
\<close>

theorem retry_key_goes_to_first_url:
  assumes "on" and "ev_has_thinking ev"
    and "syncChat ev cl req c t caps True s = (False, em, s1)"
    and "pool_resolve ev 3 3 name (mark_down ev name t s1) = (Some t2, s2)"
    and "syncChat ev cl (use_target t2 req) (next_call t2 c) t2 caps True s2 = (True, True, s3)"
  shows "map (\<lambda>call. (ca_url call, ca_key call)) (drop (length (g_calls s3)) (g_calls (snd (sync_attempts ev cl caps on name req c t s)))) =
    [(epEffectiveURL t, us_key (tg_up t2))]"
proof -
  have calls: "g_calls (snd (snd (syncChat ev cl q c u caps' b s))) = g_calls s @ [c]" for q c u caps' b s
  proof -
    have f: "g_calls (if x then u else v) = g_calls (if y then u else v)" if "g_calls u = g_calls v" for x y and u v :: gw_state
      using that by simp
    show ?thesis
      by (auto simp: syncChat_def backend_chat_def Let_def proxy_frame split: sum.split option.split prod.split)
  qed
  show ?thesis
    using assms by (simp add: sync_attempts_def sync_attempt_def numeral_2_eq_2 eval_nat_numeral calls)
qed

subsection \<open>An example\<close>

definition demo_endpoint :: "id \<Rightarrow> Endpoint" where
  "demo_endpoint i = \<lparr>ep_id = i, ep_model = [], ep_url = ''http://'' @ i, ep_weight = 1, ep_priority = 1, ep_status = StatusHealthy, ep_conns = 0,
     ep_last_success = 0\<rparr>"

definition demo_answer :: "string \<Rightarrow> chat_answer" where
  "demo_answer text =
     \<lparr>an_model = [], an_choices = [\<lparr>ac_message = Some (text_message ''assistant'' text), ac_rest = JNull\<rparr>],
      an_usage = \<lparr>au_prompt = 3, au_completion = 5, au_total = 8, au_thinking = 0, au_cached = None, au_reasoning = None, au_cost = 0,
        au_details = None\<rparr>,
      an_fingerprint = [], an_rest = JNull\<rparr>"

definition demo_env :: "(nat \<Rightarrow> chat_call \<Rightarrow> string + backend_response) \<Rightarrow> gw_env" where
  "demo_env answer =
     \<lparr>ev_clock = \<lparr>c_now = 0, c_today = ''d'', c_month = ''m''\<rparr>, ev_net = (\<lambda>_. Fine), ev_pipe = (\<lambda>_. None), ev_flt = (\<lambda>_. False),
      ev_gone = False, ev_has_db = True, ev_has_validator = False, ev_has_virtual = False, ev_has_activator = False,
      ev_has_tracker = False, ev_has_thinking = True, ev_aliases = [], ev_gateway = [], ev_prompt = [], ev_models = [],
      ev_thinking = [\<lparr>tr_name = ''m'', tr_enabled = True, tr_supports = Some True, tr_default = Some True, tr_min = None, tr_backend = Some ''vllm''\<rparr>],
      ev_projects = [], ev_pricing = [], ev_team_policies = (\<lambda>_. None), ev_pick = hd, ev_number = (\<lambda>_. []), ev_intn = (\<lambda>_ _ _. 0),
      ev_decrypt = None, ev_price = (\<lambda>_. None), ev_marshal = (\<lambda>_. []), ev_decode = (\<lambda>body. Some (demo_answer body)),
      ev_chunk = (\<lambda>_. None), ev_unmarshal = (\<lambda>_. None), ev_probe = (\<lambda>_ reg. (False, reg)), ev_answer = answer\<rparr>"

text \<open>The first endpoint refuses connections; the second one first answers with reasoning only.\<close>

definition demo_upstream :: "nat \<Rightarrow> chat_call \<Rightarrow> string + backend_response" where
  "demo_upstream k c =
     (if k = 0 then Inl ''dial tcp: connection refused''
      else Inr \<lparr>br_status = 200, br_body = (if k = 1 then ''<think>abcdef</think>'' else ''ok''), br_stream = None\<rparr>)"

definition demo_claims :: claims where
  "demo_claims = \<lparr>cl_org = ''o'', cl_team = ''t'', cl_project = [], cl_project_name = [], cl_weight = 0, cl_key = ''k''\<rparr>"

definition demo_state :: gw_state where
  "demo_state =
     \<lparr>g_redis = alias_redis\<lparr>r_set := (\<lambda>key. if key = teamModelsKey ''t'' then [''m''] else [])\<rparr>,
      g_reg = \<lparr>pools = (\<lambda>n. if n = ''m'' then
          Some \<lparr>ModelID = ''m'', Strategy = StrategyRoundRobin, endpoints = [demo_endpoint ''a'', demo_endpoint ''b''], rrIdx = 0\<rparr> else None),
        upstreams = (\<lambda>i. \<lparr>us_backend = ''vllm'', us_base_url = [], us_key = ''secret-'' @ i, us_model = [], us_credential = []\<rparr>), health_keys = []\<rparr>,
      g_cat = demo_catalog, g_cache = None, g_starting = [], g_launched = [], g_calls = [], g_out = [], g_usage = [], g_activity = []\<rparr>"

definition demo_request :: "bool \<Rightarrow> http_request" where
  "demo_request stream =
     \<lparr>hr_claims = Some demo_claims, hr_body = Parsed ((plain_request ''m'' [text_message ''user'' ''hello''])\<lparr>q_stream := stream\<rparr>),
      hr_provider = [], hr_project = [], hr_route = ''/v1/chat/completions''\<rparr>"

text \<open>
  The example shows the second endpoint's secret at the first endpoint's address, two completions for one
  request of which one is billed, and the connection counts after the failover.
\<close>

definition summary :: "gw_state \<Rightarrow> (string \<times> string) list \<times> nat \<times> nat \<times> int list \<times> int list" where
  "summary s = (map (\<lambda>c. (ca_url c, ca_key c)) (g_calls s), length (g_out s), length (g_usage s), conns ''m'' ''a'' s, conns ''m'' ''b'' s)"

lemma demo_failover:
  "summary (ChatCompletions (demo_env demo_upstream) (demo_request False) demo_state) =
     ([(''http://a'', ''secret-a''), (''http://b'', ''secret-b''), (''http://a'', ''secret-b'')], 2, 1, [1], [- 1])"
  by code_simp

theorem no_call_without_admission_witness:
  "\<exists>cl0 q. hr_claims (demo_request False) = Some cl0 \<and>
     pd_allowed (prompt_check (demo_env demo_upstream) (applyProjectHeaderOverride (demo_env demo_upstream) [] cl0)
       (model_table (demo_env demo_upstream) demo_state) q)"
proof -
  have "g_calls (ChatCompletions (demo_env demo_upstream) (demo_request False) demo_state) \<noteq> []"
    using demo_failover by (auto simp: summary_def)
  then have "g_calls (ChatCompletions (demo_env demo_upstream) (demo_request False) demo_state) \<noteq> g_calls demo_state"
    by (simp add: demo_state_def)
  from no_call_without_admission [OF this] show ?thesis by (auto simp: demo_request_def)
qed

theorem sync_request_answered_witness:
  "\<exists>rs. rs \<noteq> [] \<and> g_out (ChatCompletions (demo_env demo_upstream) (demo_request False) demo_state) = g_out demo_state @ rs"
  by (rule sync_request_answered) (auto simp: demo_request_def plain_request_def)

subsection \<open>Cold starts\<close>

text \<open>
  Start-up goroutines under any interleaving of the gateway's requests. The state has the models whose goroutine is
  still running. \<open>request\<close> is a call of \<open>handleColdStart\<close>; \<open>late\<close> is one whose \<open>IsStarting\<close> found nothing but that reaches
  \<open>TryStart\<close> only now, so it can lose the race; a goroutine that ends calls \<open>Done\<close> if there is a tracker; \<open>other\<close>
  is everything else the gateway does, which touches neither the tracker nor the goroutines.
\<close>

definition launched :: "gw_state \<Rightarrow> gw_state \<Rightarrow> string list" where
  "launched s s' = drop (length (g_launched s)) (g_launched s')"

definition late_start :: "string \<Rightarrow> gw_state \<Rightarrow> gw_state" where
  "late_start m s = (case TryStart m (g_starting s) of (won, running) \<Rightarrow>
     abortErr 503 ''model_starting'' (s\<lparr>g_starting := running, g_launched := g_launched s @ (if won then [m] else [])\<rparr>))"

inductive gateway_step :: "bool \<Rightarrow> gw_state \<times> string list \<Rightarrow> gw_state \<times> string list \<Rightarrow> bool" for tracked where
  request: "ev_has_tracker ev = tracked \<Longrightarrow> gateway_step tracked (s, active)
    (snd (handleColdStart ev m s), launched s (snd (handleColdStart ev m s)) @ active)"
| late: "tracked \<Longrightarrow> gateway_step tracked (s, active) (late_start m s, launched s (late_start m s) @ active)"
| finish: "m \<in> set active \<Longrightarrow> gateway_step tracked (s, active)
    (if tracked then s\<lparr>g_starting := Done m (g_starting s)\<rparr> else s, remove1 m active)"
| other: "g_starting s' = g_starting s \<Longrightarrow> g_launched s' = g_launched s \<Longrightarrow> gateway_step tracked (s, active) (s', active)"

definition one_start_each :: "gw_state \<times> string list \<Rightarrow> bool" where
  "one_start_each sa \<longleftrightarrow> distinct (snd sa) \<and> set (g_starting (fst sa)) = set (snd sa)"

lemma tracked_cold_start:
  assumes "ev_has_tracker ev" and "\<not> IsManuallyDeployed ev m"
  shows "fst (handleColdStart ev m s) = False"
    and "launched s (snd (handleColdStart ev m s)) = (if m \<in> set (g_starting s) then [] else [m])"
    and "g_starting (snd (handleColdStart ev m s)) = (if m \<in> set (g_starting s) then g_starting s else m # g_starting s)"
    and "g_out (snd (handleColdStart ev m s)) = g_out s @ [Abort 503 ''model_starting'']"
  using assms by (simp_all add: handleColdStart_def Let_def IsStarting_def TryStart_def launched_def abortErr_def put_reply_def)

lemma manual_cold_start:
  assumes "IsManuallyDeployed ev m"
  shows "launched s (snd (handleColdStart ev m s)) = []" and "g_starting (snd (handleColdStart ev m s)) = g_starting s"
  using assms by (simp_all add: handleColdStart_def launched_def abortErr_def put_reply_def)

lemma untracked_cold_start:
  assumes "\<not> ev_has_tracker ev" and "\<not> IsManuallyDeployed ev m"
  shows "launched s (snd (handleColdStart ev m s)) = (if fst (ev_probe ev m (g_reg s)) then [] else [m])"
    and "g_out (snd (handleColdStart ev m s)) = g_out s @ (if fst (ev_probe ev m (g_reg s)) then [] else [Abort 503 ''model_starting''])"
  using assms by (simp_all add: handleColdStart_def launched_def abortErr_def put_reply_def split: prod.split bool.split)

lemma late_start_starts:
  "launched s (late_start m s) = (if m \<in> set (g_starting s) then [] else [m])"
  "g_starting (late_start m s) = (if m \<in> set (g_starting s) then g_starting s else m # g_starting s)"
  by (simp_all add: late_start_def TryStart_def launched_def abortErr_def put_reply_def)

lemma one_start_each_step: "gateway_step True sa sa' \<Longrightarrow> one_start_each sa \<Longrightarrow> one_start_each sa'"
proof (induction rule: gateway_step.induct)
  case (request ev s active m)
  then show ?case
    by (cases "IsManuallyDeployed ev m") (auto simp: one_start_each_def tracked_cold_start manual_cold_start)
next
  case (finish m active s)
  then show ?case by (simp add: one_start_each_def Done_def set_remove1_eq)
qed (auto simp: one_start_each_def late_start_starts)

text \<open>
  C11: with a start tracker, under any interleaving of requests and finishing start-ups there is at most one
  start-up goroutine for a model and the tracker knows exactly the models that have one; a request for a model of
  the gateway's own that finds no endpoint is told to come back and launches a goroutine exactly if the model has none.
  Without a tracker nothing is shared between requests: each one whose probe fails launches another goroutine,
  whatever is running, and one whose probe succeeds is not answered here, although the comment says a 503 is always
  written. A model deployed by the operator is never started.
\<close>

theorem one_cold_start_per_model:
  assumes "(gateway_step (ev_has_tracker ev))\<^sup>*\<^sup>* (s0, []) (s, active)" and "g_starting s0 = []"
    and "s' = snd (handleColdStart ev m s)"
  shows "(ev_has_tracker ev \<longrightarrow> distinct active \<and> set (g_starting s) = set active) \<and>
    (if IsManuallyDeployed ev m then launched s s' = []
     else if ev_has_tracker ev
     then launched s s' = (if m \<in> set active then [] else [m]) \<and> g_out s' = g_out s @ [Abort 503 ''model_starting'']
     else if fst (ev_probe ev m (g_reg s)) then launched s s' = [] \<and> g_out s' = g_out s
     else launched s s' = [m] \<and> g_out s' = g_out s @ [Abort 503 ''model_starting''])"
proof -
  have "one_start_each (s, active)" if t: "ev_has_tracker ev"
  proof -
    have "(gateway_step True)\<^sup>*\<^sup>* (s0, []) (s, active)" using assms(1) t by simp
    then show ?thesis
      by (induction rule: rtranclp_induct) (auto intro: one_start_each_step simp: one_start_each_def [of "(s0, [])"] assms(2))
  qed
  then show ?thesis
    unfolding assms(3) by (auto simp: one_start_each_def tracked_cold_start manual_cold_start untracked_cold_start)
qed

definition tracked_env :: gw_env where
  "tracked_env = (demo_env demo_upstream)\<lparr>ev_has_tracker := True\<rparr>"

theorem one_cold_start_per_model_witness:
  "launched (snd (handleColdStart tracked_env ''m'' demo_state))
     (snd (handleColdStart tracked_env ''m'' (snd (handleColdStart tracked_env ''m'' demo_state)))) = [] \<and>
   launched demo_state (snd (handleColdStart tracked_env ''m'' demo_state)) = [''m'']"
proof -
  have e: "ev_has_tracker tracked_env" "\<not> IsManuallyDeployed tracked_env ''m''"
    by (simp_all add: tracked_env_def demo_env_def IsManuallyDeployed_def)
  have s: "g_starting demo_state = []" by (simp add: demo_state_def)
  have l: "launched demo_state (snd (handleColdStart tracked_env ''m'' demo_state)) = [''m'']"
    using one_cold_start_per_model [OF rtranclp.rtrancl_refl s refl, of tracked_env "''m''"] e by simp
  have "gateway_step (ev_has_tracker tracked_env) (demo_state, []) (snd (handleColdStart tracked_env ''m'' demo_state), [''m''])"
    using gateway_step.request [of tracked_env "ev_has_tracker tracked_env" demo_state "[]" "''m''"] l by simp
  from one_cold_start_per_model [OF r_into_rtranclp [of "gateway_step (ev_has_tracker tracked_env)", OF this] s refl, of "''m''"] e l
  show ?thesis by simp
qed

end
