(* ===== verification/Runtime_Activator.thy ===== *)
theory Runtime_Activator
  imports Ha_Reconciler Model_Registry "HOL-Library.Signed_Division"
begin

text \<open>
  \<open>internal/runtimemgr\<close>, the control plane part: how the configuration of a model is read, the resource
  guard, and \<open>enqueueStartModel\<close>, through which every start of a managed runtime outside the
  reconciler passes. The tables the reconciler uses are kept in its record; the columns of
  \<open>agent_runtimes\<close> only the runtime manager uses are kept beside it by identifier.

  Times and durations are seconds.
\<close>

subsection \<open>Tables\<close>

record act_columns =
  ax_endpoint :: "id option"
  ax_started :: "int option"
  ax_last_used :: "int option"
  ax_gpus :: "int list option"
  ax_cpus :: "string option"
  ax_numa :: "int option"
  ax_policy :: "string option"
  ax_project :: "id option"

record act_endpoint = model_endpoint_row +
  ae_node :: "id option"
  ae_lifecycle :: string
  ae_image :: string

record act_reservation =
  vr_project :: id
  vr_weight :: int
  vr_vram :: int

record project_conf =
  pcf_project :: id
  pcf_always :: bool
  pcf_protected :: bool
  pcf_min :: int

record act_db =
  ab :: ha_db
  act_cols :: "id \<Rightarrow> act_columns"
  act_endpoints :: "act_endpoint list"
  act_registry :: registry
  model_created :: "id \<Rightarrow> int"
  idle_secs :: "id \<Rightarrow> int option"
  required_mb :: "id \<Rightarrow> int option"
  ram_sample :: "id \<Rightarrow> (int \<times> int) option"
  gpu_samples :: "id \<Rightarrow> (int \<times> int \<times> int option) list"
  act_reservations :: "act_reservation list"
  project_confs :: "project_conf list"

text \<open>An update of \<open>agent_runtimes\<close> that changes columns of both kinds.\<close>

definition update_act ::
    "bool \<Rightarrow> (ha_runtime \<Rightarrow> bool) \<Rightarrow> (ha_runtime \<Rightarrow> ha_runtime) \<Rightarrow> (act_columns \<Rightarrow> act_columns) \<Rightarrow> act_db \<Rightarrow> act_db" where
  "update_act fails P f g db =
     (if fails then db
      else db\<lparr>ab := update_runtimes False P f (ab db),
              act_cols := (\<lambda>i. if list_ex (\<lambda>r. h_id r = i \<and> P r) (runtimes (ab db)) then g (act_cols db i) else act_cols db i)\<rparr>)"

definition update_base :: "bool \<Rightarrow> (ha_runtime \<Rightarrow> bool) \<Rightarrow> (ha_runtime \<Rightarrow> ha_runtime) \<Rightarrow> act_db \<Rightarrow> act_db" where
  "update_base fails P f db = db\<lparr>ab := update_runtimes fails P f (ab db)\<rparr>"

definition node_up :: "id \<Rightarrow> act_db \<Rightarrow> bool" where
  "node_up n db \<longleftrightarrow> list_ex (\<lambda>x. hn_id x = n \<and> hn_status x \<in> {''online'', ''degraded''}) (ha_nodes (ab db))"

definition isNodeOnline :: "bool \<Rightarrow> id \<Rightarrow> act_db \<Rightarrow> bool" where
  "isNodeOnline fails n db \<longleftrightarrow>
     n \<noteq> [] \<and> \<not> fails \<and>
     (case find (\<lambda>x. hn_id x = n) (ha_nodes (ab db)) of None \<Rightarrow> False | Some x \<Rightarrow> hn_status x \<in> {''online'', ''degraded''})"

subsection \<open>The configuration of a model\<close>

record ModelConfig = runtimeConfig +
  mc_NodeID :: id
  mc_BindHost :: string
  mc_BindPort :: int
  mc_CPUSetCPUs :: string
  mc_NUMANode :: int
  mc_DeploymentMode :: string

datatype act_error =
    ErrModelNotFound
  | ErrColdStartTimeout
  | ErrInsufficientResources
  | ErrManualDeployment
  | ErrAtCapacity
  | NoNodeAssigned
  | StartFailed string

text \<open>\<open>undefined\<close> tells whether the optional columns are missing from the schema.\<close>

record act_world =
  aw_faults :: faults
  aw_now :: int
  aw_gen :: "string \<Rightarrow> id"
  aw_start :: "StartModelPayload \<Rightarrow> string option"
  aw_stop :: "StopRuntimePayload \<Rightarrow> string option"
  aw_undefined :: bool
  aw_intn :: "nat \<Rightarrow> int \<Rightarrow> int"
  ColdStartTimeout :: int
  DefaultIdleTimeout :: int
  DefaultModelsVolume :: string
  DefaultImage :: string

definition left_join :: "'a list \<Rightarrow> 'a option list" where
  "left_join xs = (if xs = [] then [None] else map Some xs)"

type_synonym config_row = "ha_model \<times> act_endpoint option \<times> ha_runtime option"

definition config_rows :: "string \<Rightarrow> act_db \<Rightarrow> config_row list" where
  "config_rows name db =
     [(m, e, r).
        m \<leftarrow> filter (\<lambda>m. hm_name m = name \<and> SQLCondition (hm_enabled m) (hm_lifecycle m)) (ha_models (ab db)),
        e \<leftarrow> left_join (filter (\<lambda>e. er_model_id e = hm_id m) (act_endpoints db)),
        r \<leftarrow> left_join (filter (\<lambda>r. h_model r = hm_id m \<and> h_state r \<noteq> ''deleted'' \<and> node_up (h_node r) db) (runtimes (ab db)))]"

text \<open>\<open>(me.node_id IS NOT NULL) DESC, me.priority ASC, ar.updated_at DESC NULLS LAST\<close>\<close>

definition config_order :: "config_row \<Rightarrow> int \<times> int \<times> int \<times> int \<times> int" where
  "config_order row = (case row of (m, e, r) \<Rightarrow>
     (case e of None \<Rightarrow> 1 | Some x \<Rightarrow> if ae_node x = None then 1 else 0,
      case e of None \<Rightarrow> 1 | Some x \<Rightarrow> 0, case e of None \<Rightarrow> 0 | Some x \<Rightarrow> er_priority x,
      case r of None \<Rightarrow> 1 | Some y \<Rightarrow> 0, case r of None \<Rightarrow> 0 | Some y \<Rightarrow> - h_updated y))"

definition nullif :: "'a \<Rightarrow> 'a option \<Rightarrow> 'a option" where
  "nullif d x = (if x = Some d then None else x)"

definition first_of :: "'a option \<Rightarrow> 'a option \<Rightarrow> 'a option" where
  "first_of x y = (case x of None \<Rightarrow> y | Some v \<Rightarrow> Some v)"

text \<open>
  The row as a \<open>ModelConfig\<close>; \<open>all_columns\<close> tells whether the optional columns were selected. The query has no
  maximal model length, so that field stays zero.
\<close>

definition row_config :: "bool \<Rightarrow> (id \<Rightarrow> act_columns) \<Rightarrow> config_row \<Rightarrow> ModelConfig" where
  "row_config all_columns cols row = (case row of (m, e, r) \<Rightarrow>
     (let c = hm_columns m; x = map_option (\<lambda>y. cols (h_id y)) r in
      \<lparr>rc_ModelID = hm_id m, rc_ModelName = hm_name m, rc_Backend = coalesce ''openai_compat'' (cc_backend c),
       rc_Image = (case e of None \<Rightarrow> [] | Some y \<Rightarrow> ae_image y), rc_GGUFPath = coalesce [] (cc_gguf c),
       rc_HFRepo = coalesce [] (cc_hf_repo c), rc_HFFile = coalesce [] (cc_hf_file c), rc_HFToken = coalesce [] (cc_hf_token c),
       rc_ModelsVolume = coalesce [] (cc_volume c), rc_CtxSize = coalesce 4096 (cc_ctx c), rc_NGPULayers = coalesce 0 (cc_layers c),
       rc_GPUDevices = coalesce [] (first_of (cc_gpus c) (Option.bind x ax_gpus)),
       rc_ExecutionMode = (if all_columns then coalesce ''auto'' (cc_mode c) else ''auto''),
       rc_WorkloadPolicy = (if all_columns then coalesce ''lazy_load'' (cc_workload c) else ''lazy_load''),
       rc_MemoryLimit = coalesce [] (cc_memory c),
       rc_CPUThreads = (let t = coalesce [] (cc_threads c) in if t = ''0'' then [] else t),
       rc_TensorParallel = coalesce 1 (cc_tensor c), rc_GPUMemoryUtil = coalesce (9 / 10) (cc_util c), rc_MaxModelLen = 0,
       rc_Dtype = coalesce ''auto'' (cc_dtype c), rc_Quantization = coalesce [] (cc_quant c),
       rc_ExtraArgs = (if all_columns then coalesce [] (cc_extra c) else []),
       rc_Env = (if all_columns then coalesce [] (cc_env c) else []),
       mc_NodeID = coalesce [] (first_of (Option.bind e ae_node) (map_option h_node r)),
       mc_BindHost = coalesce [] (first_of (nullif [] (map_option h_host r)) (map_option er_host e)),
       mc_BindPort = coalesce 0 (first_of (nullif 0 (map_option h_port r)) (map_option er_port e)),
       mc_CPUSetCPUs = coalesce [] (Option.bind x ax_cpus), mc_NUMANode = coalesce (- 1) (Option.bind x ax_numa),
       mc_DeploymentMode = (if all_columns then coalesce ''managed'' (hm_deployment m) else ''managed'')\<rparr>))"

text \<open>The host read from the rows is replaced by the canonical address of the node.\<close>

definition loadConfig :: "act_world \<Rightarrow> string \<Rightarrow> act_db \<Rightarrow> ModelConfig option" where
  "loadConfig w name db =
     (if aw_faults w ''config'' then None
      else case sort_key config_order (config_rows name db) of
        [] \<Rightarrow> None
      | row # _ \<Rightarrow>
          (let cfg = row_config (\<not> aw_undefined w) (act_cols db) row in
           if mc_NodeID cfg = [] then Some cfg
           else map_option (\<lambda>h. cfg\<lparr>mc_BindHost := h\<rparr>) (CanonicalHost (aw_faults w ''host'') (mc_NodeID cfg) (ab db))))"

definition IsManuallyDeployedModel :: "bool \<Rightarrow> string \<Rightarrow> act_db \<Rightarrow> bool" where
  "IsManuallyDeployedModel fails name db \<longleftrightarrow>
     (if fails then False
      else case sort_key (\<lambda>m. - model_created db (hm_id m))
             (filter (\<lambda>m. hm_name m = name \<and> SQLCondition (hm_enabled m) (hm_lifecycle m)) (ha_models (ab db))) of
        [] \<Rightarrow> False | m # _ \<Rightarrow> \<not> ManagedByNexus (coalesce ''managed'' (hm_deployment m)))"

subsection \<open>The resource guard\<close>

record ResourceRequest =
  RAMMBNeeded :: int
  req_GPUDevices :: "int list"
  ProjectPriorityWeight :: int
  req_ProjectID :: id

definition estimateRAMMB :: "bool \<Rightarrow> id \<Rightarrow> act_db \<Rightarrow> int" where
  "estimateRAMMB fails m db = (if fails then 0 else coalesce 0 (required_mb db m))"

text \<open>The join counts a reservation once for each of the project's runtimes on the node.\<close>

definition reserved_above :: "bool \<Rightarrow> id \<Rightarrow> int \<Rightarrow> id \<Rightarrow> act_db \<Rightarrow> int" where
  "reserved_above fails node weight project db =
     (if fails then 0
      else sum_list [vr_vram p. p \<leftarrow> act_reservations db, r \<leftarrow> runtimes (ab db),
        ax_project (act_cols db (h_id r)) = Some (vr_project p) \<and> h_node r = node \<and> vr_weight p \<ge> weight \<and>
        vr_project p \<noteq> project \<and> h_state r \<in> {''active'', ''warm'', ''idle'', ''loading''}])"

definition free_ram :: "id \<Rightarrow> act_db \<Rightarrow> int option" where
  "free_ram node db = map_option (\<lambda>(total, used). total - used) (ram_sample db node)"

definition gpu_free :: "id \<Rightarrow> act_db \<Rightarrow> (int \<times> int) list" where
  "gpu_free node db = map (\<lambda>(i, vram, used). (i, vram - coalesce 0 used)) (gpu_samples db node)"

definition CanStart :: "faults \<Rightarrow> id \<Rightarrow> ResourceRequest \<Rightarrow> act_db \<Rightarrow> bool" where
  "CanStart flt node q db =
     (let n = int (length (req_GPUDevices q)); gpus = gpu_free node db;
          reserved = (if ProjectPriorityWeight q > 0
                      then reserved_above (flt ''reservations'') node (ProjectPriorityWeight q) (req_ProjectID q) db else 0);
          reservedPerGPU = (if gpus \<noteq> [] \<and> sum_list (map snd gpus) > 0 then reserved sdiv n else 0);
          perGPU = RAMMBNeeded q sdiv n
      in if RAMMBNeeded q = 0 then True
         else if \<not> flt ''telemetry'' \<and> (case free_ram node db of None \<Rightarrow> False | Some free \<Rightarrow> free < RAMMBNeeded q) then False
         else if n = 0 \<or> flt ''devices'' then True
         else list_all (\<lambda>i. case map_of (rev gpus) i of None \<Rightarrow> True | Some free \<Rightarrow> \<not> free - reservedPerGPU < perGPU) (req_GPUDevices q))"

subsection \<open>Starting a model\<close>

definition resolve_mode :: "bool \<Rightarrow> id \<Rightarrow> string \<Rightarrow> string \<Rightarrow> int list \<Rightarrow> act_db \<Rightarrow> string" where
  "resolve_mode fails node backend requested gpuDevices db =
     (if backend = ''cpu_native'' then ''cpu''
      else if requested = ''cpu'' then ''cpu''
      else if requested = ''gpu'' then ''gpu''
      else if gpuDevices \<noteq> [] then ''gpu''
      else if \<not> fails \<and> coalesce 0 (Option.bind (find (\<lambda>n. hn_id n = node) (ha_nodes (ab db))) hn_gpu_count) > 0 then ''gpu''
      else ''cpu'')"

definition start_backend :: "ModelConfig \<Rightarrow> string" where
  "start_backend cfg = (if rc_Backend cfg = [] then ''openai_compat'' else rc_Backend cfg)"

definition start_mode :: "act_world \<Rightarrow> ModelConfig \<Rightarrow> act_db \<Rightarrow> string" where
  "start_mode w cfg db =
     resolve_mode (aw_faults w ''capabilities'') (mc_NodeID cfg) (start_backend cfg)
       (if rc_ExecutionMode cfg = [] then ''auto'' else rc_ExecutionMode cfg) (rc_GPUDevices cfg) db"

definition start_name :: "ModelConfig \<Rightarrow> string" where
  "start_name cfg = ''nexus-'' @ rc_ModelName cfg"

definition parkable :: "string \<Rightarrow> bool" where
  "parkable s \<longleftrightarrow> s \<notin> {''deleted'', ''stopping'', ''stopped'', ''failed'', ''loading_model'', ''waiting_ready'', ''starting'',
     ''validating'', ''downloading''}"

definition parked_row :: "ModelConfig \<Rightarrow> ha_runtime \<Rightarrow> bool" where
  "parked_row cfg r \<longleftrightarrow> h_model r = rc_ModelID cfg \<and> h_node r = mc_NodeID cfg \<and> parkable (h_state r)"

text \<open>The update that parks the rows of the model on its node, with the names it returns.\<close>

definition park_rows :: "act_world \<Rightarrow> ModelConfig \<Rightarrow> act_db \<Rightarrow> string list \<times> act_db" where
  "park_rows w cfg db =
     (if aw_faults w ''park'' then [] else map h_name (filter (parked_row cfg) (runtimes (ab db))),
      update_base (aw_faults w ''park'') (parked_row cfg) (\<lambda>r. r\<lparr>h_state := ''stopped'', h_updated := aw_now w\<rparr>) db)"

definition stale_names :: "ModelConfig \<Rightarrow> string list \<Rightarrow> string list" where
  "stale_names cfg = filter (\<lambda>n. n \<noteq> [] \<and> n \<noteq> start_name cfg)"

definition start_row :: "act_world \<Rightarrow> ModelConfig \<Rightarrow> string \<Rightarrow> ha_runtime" where
  "start_row w cfg mode =
     \<lparr>h_id = aw_gen w ''runtime'', h_node = mc_NodeID cfg, h_model = rc_ModelID cfg, h_name = start_name cfg, h_state = ''pending'',
      h_error = [], h_container = [], h_host = mc_BindHost cfg, h_port = mc_BindPort cfg, h_replaced_by = None,
      h_updated = aw_now w, h_next_retry = None, h_attempt = 0, h_recovered_from = None, h_index = None, h_mode = mode\<rparr>"

definition start_policy :: "ModelConfig \<Rightarrow> string" where
  "start_policy cfg = (if rc_WorkloadPolicy cfg = [] then ''lazy_load'' else rc_WorkloadPolicy cfg)"

definition start_gpus :: "string \<Rightarrow> ModelConfig \<Rightarrow> int list" where
  "start_gpus mode cfg = (if mode = ''cpu'' then [] else rc_GPUDevices cfg)"

definition start_cols :: "ModelConfig \<Rightarrow> string \<Rightarrow> id \<Rightarrow> act_columns" where
  "start_cols cfg mode ep =
     \<lparr>ax_endpoint = Some ep, ax_started = None, ax_last_used = None, ax_gpus = Some (start_gpus mode cfg),
      ax_cpus = Some (mc_CPUSetCPUs cfg), ax_numa = Some (mc_NUMANode cfg), ax_policy = Some (start_policy cfg), ax_project = None\<rparr>"

definition live_endpoints :: "id \<Rightarrow> act_db \<Rightarrow> act_endpoint list" where
  "live_endpoints m db =
     sort_key er_priority (filter (\<lambda>e. er_model_id e = m \<and> ae_lifecycle e \<noteq> ''deleted'') (act_endpoints db))"

text \<open>
  The transaction that claims a slot and inserts the row. A failed statement aborts a PostgreSQL
  transaction, so its commit fails too.
\<close>

definition claim_start :: "act_world \<Rightarrow> ModelConfig \<Rightarrow> string \<Rightarrow> act_db \<Rightarrow> act_error + act_db" where
  "claim_start w cfg mode db =
     (let flt = aw_faults w; m = rc_ModelID cfg; row = start_row w cfg mode in
      if flt ''begin'' then Inl (StartFailed ''begin tx for replica guard'')
      else case ClaimSlot (flt ''claim'') m (fst (DesiredReplicas (flt ''desired'') m (ab db))) [] (ab db) of
        Inl _ \<Rightarrow> Inl (StartFailed ''claim_replica_slot'')
      | Inr False \<Rightarrow> Inl ErrAtCapacity
      | Inr True \<Rightarrow>
          if flt ''insert'' then Inl (StartFailed ''insert agent_runtime'')
          else case live_endpoints m db of
            [] \<Rightarrow> Inl (StartFailed ''no active model_endpoint'')
          | e # _ \<Rightarrow>
              if h_id row \<in> h_id ` set (runtimes (ab db)) then Inl (StartFailed ''insert agent_runtime'')
              else if flt ''ports'' \<or> flt ''commit'' then Inl (StartFailed ''commit runtime row'')
              else Inr (db\<lparr>ab := (ab db)\<lparr>runtimes := runtimes (ab db) @ [row]\<rparr>,
                           act_cols := (act_cols db)(h_id row := start_cols cfg mode (er_ep e))\<rparr>))"

definition start_caps :: "bool \<Rightarrow> id \<Rightarrow> act_db \<Rightarrow> ModelStartupCaps" where
  "start_caps fails m db =
     (case find (\<lambda>x. hm_id x = m) (ha_models (ab db)) of
        Some x \<Rightarrow>
          if fails then \<lparr>SupportsThinking = False, ThinkingEnabled = False\<rparr>
          else \<lparr>SupportsThinking = coalesce False (cc_supports_thinking (hm_columns x)),
                ThinkingEnabled = coalesce False (cc_thinking (hm_columns x))\<rparr>
      | None \<Rightarrow> \<lparr>SupportsThinking = False, ThinkingEnabled = False\<rparr>)"

definition start_env :: "ModelConfig \<Rightarrow> env" where
  "start_env cfg =
     (if mc_BindPort cfg > 0 then merge_env (ContainerPortEnvVars (start_backend cfg) (mc_BindPort cfg)) (rc_Env cfg)
      else AList.delete ''UVICORN_PORT'' (AList.delete ''HTTP_PORT'' (AList.delete ''PORT'' (rc_Env cfg))))"

definition start_payload :: "act_world \<Rightarrow> ModelConfig \<Rightarrow> string \<Rightarrow> string list \<Rightarrow> act_db \<Rightarrow> StartModelPayload" where
  "start_payload w cfg mode stale db =
     zero_payload\<lparr>sm_RuntimeID := aw_gen w ''runtime'', sm_ModelID := rc_ModelID cfg, sm_RuntimeName := start_name cfg,
       sm_Backend := start_backend cfg, sm_Image := (if rc_Image cfg = [] then DefaultImage w else rc_Image cfg),
       sm_ModelName := rc_ModelName cfg, sm_ServedAs := rc_ModelName cfg, sm_BindHost := mc_BindHost cfg,
       sm_BindPort := mc_BindPort cfg, sm_GPUDevices := start_gpus mode cfg, sm_CPUSetCPUs := mc_CPUSetCPUs cfg,
       sm_NUMANode := mc_NUMANode cfg, sm_MemoryLimit := rc_MemoryLimit cfg, sm_CPULimit := rc_CPUThreads cfg,
       sm_GGUFPath := rc_GGUFPath cfg, sm_HFRepo := rc_HFRepo cfg, sm_HFFile := rc_HFFile cfg, sm_HFToken := rc_HFToken cfg,
       sm_ModelsVolume := (if rc_ModelsVolume cfg = [] then DefaultModelsVolume w else rc_ModelsVolume cfg),
       sm_CtxSize := (if rc_CtxSize cfg = 0 then 4096 else rc_CtxSize cfg),
       sm_NGPULayers := (if mode = ''cpu'' then 0 else rc_NGPULayers cfg), sm_TensorParallel := rc_TensorParallel cfg,
       sm_GPUMemoryUtil := rc_GPUMemoryUtil cfg, sm_MaxModelLen := rc_MaxModelLen cfg, sm_Dtype := rc_Dtype cfg,
       sm_Quantization := rc_Quantization cfg,
       sm_ExtraArgs := PrepareStartupArgs (start_backend cfg) (start_caps (aw_faults w ''caps'') (rc_ModelID cfg) db) (rc_ExtraArgs cfg),
       sm_ExecutionMode := mode, sm_WorkloadPolicy := start_policy cfg, sm_Env := start_env cfg, sm_StaleContainerNames := stale\<rparr>"

definition activator_options :: "act_world \<Rightarrow> ModelConfig \<Rightarrow> EnqueueOption list" where
  "activator_options w cfg =
     [WithPriority 85, WithActor ''runtimemgr'', WithRuntimeID (aw_gen w ''runtime''), WithTimeout (ColdStartTimeout w + 300),
      WithIdempotencyKey (''start:'' @ mc_NodeID cfg @ '':'' @ aw_gen w ''runtime'')]"

definition enqueueStartModel :: "act_world \<Rightarrow> ModelConfig \<Rightarrow> act_db \<Rightarrow> (act_error + unit) \<times> act_db" where
  "enqueueStartModel w cfg db =
     (if \<not> ManagedByNexus (mc_DeploymentMode cfg) then (Inl ErrManualDeployment, db)
      else
        (let mode = start_mode w cfg db; (names, db1) = park_rows w cfg db in
         case claim_start w cfg mode db1 of
           Inl e \<Rightarrow> (Inl e, db1)
         | Inr db2 \<Rightarrow>
             (case Enqueue (aw_faults w ''enqueue'') (aw_now w) (aw_gen w ''task'') (mc_NodeID cfg) TaskStartModel
                     (aw_start w (start_payload w cfg mode (stale_names cfg names) db2)) (activator_options w cfg) (ha_tasks (ab db2)) of
                (Inl _, _) \<Rightarrow> (Inl (StartFailed ''enqueue START_MODEL''), db2)
              | (Inr _, ts) \<Rightarrow> (Inr (), db2\<lparr>ab := (ab db2)\<lparr>ha_tasks := ts\<rparr>\<rparr>))))"

definition StartModel :: "act_world \<Rightarrow> string \<Rightarrow> act_db \<Rightarrow> (act_error + unit) \<times> act_db" where
  "StartModel w name db =
     (case loadConfig w name db of
        None \<Rightarrow> (Inl ErrModelNotFound, db)
      | Some cfg \<Rightarrow>
          if \<not> ManagedByNexus (mc_DeploymentMode cfg) then (Inl ErrManualDeployment, db)
          else if mc_NodeID cfg = [] then (Inl NoNodeAssigned, db)
          else case enqueueStartModel w cfg db of
            (Inl ErrAtCapacity, db') \<Rightarrow> (Inr (), db')
          | r \<Rightarrow> r)"

end
