(* ===== verification/Cold_Start.thy ===== *)
theory Cold_Start
  imports Runtime_Activator
begin

text \<open>
  \<open>internal/runtimemgr/activator.go\<close> and \<open>inflight.go\<close>, the data plane part: waiting until a model is ready,
  \<open>doStartModel\<close>, the map that shares a start between callers, the recording of activity and the sweep over
  ports. A wait runs over the list of polls the context lasts for; each poll has its time, the changes
  other processes made before it, and the answers of the health endpoints.
  The context ends after the last poll.
\<close>

subsection \<open>States\<close>

datatype State =
    StateCreated | StateValidating | StateDownloading | StateStarting | StateLoadingModel | StateWaitingReady | StateReady
  | StateIdle | StateStopping | StateStopped | StateFailed | StateUnhealthy | StateDraining | StateLost | StateUnknown

definition deriveState :: "ha_runtime option \<Rightarrow> State" where
  "deriveState rt =
     (case rt of
        None \<Rightarrow> StateUnknown
      | Some r \<Rightarrow>
          if h_state r \<in> {''created'', ''pending''} then StateCreated
          else if h_state r = ''validating'' then StateValidating
          else if h_state r \<in> {''downloading'', ''pulling''} then StateDownloading
          else if h_state r = ''starting'' then StateStarting
          else if h_state r \<in> {''loading_model'', ''loading''} then StateLoadingModel
          else if h_state r = ''waiting_ready'' then StateWaitingReady
          else if h_state r \<in> {''ready'', ''active'', ''warm''} then StateReady
          else if h_state r = ''idle'' then StateIdle
          else if h_state r = ''stopping'' then StateStopping
          else if h_state r \<in> {''stopped'', ''unloaded''} then (if h_container r = [] then StateUnknown else StateStopped)
          else if h_state r = ''unhealthy'' then StateUnhealthy
          else if h_state r = ''draining'' then StateDraining
          else if h_state r = ''failed'' then StateFailed
          else if h_state r = ''lost'' then StateLost
          else StateUnknown)"

definition state_rank :: "string \<Rightarrow> int" where
  "state_rank s =
     (if s \<in> {''ready'', ''active'', ''warm''} then 1 else if s = ''idle'' then 2
      else if s \<in> {''loading_model'', ''waiting_ready''} then 3 else if s = ''starting'' then 4
      else if s = ''pending'' then 5 else if s \<in> {''unhealthy'', ''draining''} then 8 else 9)"

text \<open>\<open>loadRuntime\<close> without a node: every caller passes the empty identifier.\<close>

definition loadRuntime :: "bool \<Rightarrow> id \<Rightarrow> act_db \<Rightarrow> ha_runtime option" where
  "loadRuntime fails m db =
     (case sort_key (\<lambda>r. (state_rank (h_state r), - h_updated r))
             (filter (\<lambda>r. h_model r = m \<and> h_state r \<noteq> ''deleted'' \<and> node_up (h_node r) db) (runtimes (ab db))) of
        [] \<Rightarrow> None | r # _ \<Rightarrow> if fails then None else Some r)"

subsection \<open>Routing\<close>

definition registry_runtime :: "act_db \<Rightarrow> ha_runtime \<Rightarrow> agent_runtime_row list" where
  "registry_runtime db r =
     (case find (\<lambda>m. hm_id m = h_model r) (ha_models (ab db)) of
        None \<Rightarrow> []
      | Some m \<Rightarrow>
          [\<lparr>rr_id = h_id r, rr_model_id = hm_id m, rr_model_name = hm_name m, rr_model_enabled = hm_enabled m,
            rr_backend = coalesce [] (cc_backend (hm_columns m)), rr_endpoint = ax_endpoint (act_cols db (h_id r)),
            rr_host = h_host r, rr_port = h_port r, rr_index = h_index r, rr_state = h_state r\<rparr>])"

definition reload_registry :: "bool \<Rightarrow> act_db \<Rightarrow> act_db" where
  "reload_registry fails db =
     db\<lparr>act_registry := Reload fails (map model_endpoint_row.truncate (act_endpoints db))
        (concat (map (registry_runtime db) (runtimes (ab db)))) (act_registry db)\<rparr>"

definition resolve_model :: "(nat \<Rightarrow> int \<Rightarrow> int) \<Rightarrow> string \<Rightarrow> act_db \<Rightarrow> Endpoint option \<times> act_db" where
  "resolve_model intn name db =
     (let (ep, reg) = ResolveWithFailover intn 3 name (act_registry db) in (ep, db\<lparr>act_registry := reg\<rparr>))"

definition node_allows :: "act_db \<Rightarrow> act_endpoint \<Rightarrow> bool" where
  "node_allows db e \<longleftrightarrow> (case ae_node e of None \<Rightarrow> True | Some n \<Rightarrow> node_up n db)"

definition activate :: "act_endpoint \<Rightarrow> act_endpoint" where
  "activate e = e\<lparr>er_is_enabled := True, ae_lifecycle := ''active'', er_health := StatusHealthy\<rparr>"

definition bound_runtime :: "id \<Rightarrow> act_db \<Rightarrow> ha_runtime option" where
  "bound_runtime m db =
     (case sort_key (\<lambda>r. - h_updated r) (filter (\<lambda>r. h_model r = m \<and> h_port r > 0 \<and>
             h_state r \<in> {''ready'', ''active'', ''warm'', ''loading_model'', ''waiting_ready''}) (runtimes (ab db))) of
        [] \<Rightarrow> None | r # _ \<Rightarrow> Some r)"

definition enableEndpoint :: "faults \<Rightarrow> id \<Rightarrow> act_db \<Rightarrow> act_db" where
  "enableEndpoint flt m db =
     (let db1 = (case (if flt ''enable'' then None else bound_runtime m db) of
                   None \<Rightarrow> db
                 | Some r \<Rightarrow> db\<lparr>act_endpoints := map (\<lambda>e. if er_model_id e = m \<and> node_allows db e
                     then (activate e)\<lparr>er_port := h_port r, er_host := (if h_host r \<noteq> [] then h_host r else er_host e)\<rparr> else e)
                     (act_endpoints db)\<rparr>)
      in if flt ''enable fallback'' then db1
         else db1\<lparr>act_endpoints := map (\<lambda>e. if er_model_id e = m \<and> \<not> er_is_enabled e \<and> node_allows db1 e
                then activate e else e) (act_endpoints db1)\<rparr>)"

subsection \<open>Waiting\<close>

record poll =
  po_now :: int
  po_env :: "act_db \<Rightarrow> act_db"
  po_health :: "string \<Rightarrow> bool"
  po_faults :: faults

record RunningEndpoint =
  re_EndpointID :: id
  re_URL :: string
  re_ContainerID :: string

definition set_failed :: "bool \<Rightarrow> int \<Rightarrow> id \<Rightarrow> string \<Rightarrow> act_db \<Rightarrow> act_db" where
  "set_failed fails now i why = update_base fails (\<lambda>r. h_id r = i) (\<lambda>r. r\<lparr>h_state := ''failed'', h_error := why, h_updated := now\<rparr>)"

definition node_address :: "bool \<Rightarrow> id \<Rightarrow> act_db \<Rightarrow> string" where
  "node_address fails n db =
     (case find (\<lambda>x. hn_id x = n) (ha_nodes (ab db)) of
        None \<Rightarrow> [] | Some x \<Rightarrow> if fails then [] else coalesce [] (first_of (hn_ip x) (hn_hostname x)))"

definition probe_host :: "faults \<Rightarrow> ModelConfig \<Rightarrow> ha_runtime \<Rightarrow> act_db \<Rightarrow> string" where
  "probe_host flt cfg rt db =
     (if h_host rt \<noteq> [] then h_host rt
      else if mc_BindHost cfg \<noteq> [] then mc_BindHost cfg
      else let a = node_address (flt ''address'') (h_node rt) db in
           if a \<noteq> [] then a else node_address (flt ''address'') (mc_NodeID cfg) db)"

definition probe_url :: "faults \<Rightarrow> ModelConfig \<Rightarrow> ha_runtime \<Rightarrow> act_db \<Rightarrow> string" where
  "probe_url flt cfg rt db = ''http://'' @ probe_host flt cfg rt db @ '':'' @ FormatInt (h_port rt)"

datatype waiting = Answer "act_error + RunningEndpoint" | KeepPolling "int option"

text \<open>The healthy branch: the row becomes ready, the endpoint is enabled, the registry reloaded and asked.\<close>

definition mark_ready :: "act_world \<Rightarrow> ModelConfig \<Rightarrow> poll \<Rightarrow> ha_runtime \<Rightarrow> act_db \<Rightarrow> (RunningEndpoint option) \<times> act_db" where
  "mark_ready w cfg p rt db =
     (let flt = po_faults p;
          db1 = update_act (flt ''ready'')
            (\<lambda>r. h_id r = h_id rt \<and> h_state r \<notin> {''idle'', ''stopping'', ''stopped'', ''failed'', ''deleted''})
            (\<lambda>r. r\<lparr>h_state := ''ready'', h_updated := po_now p\<rparr>)
            (\<lambda>c. c\<lparr>ax_last_used := Some (coalesce (po_now p) (ax_last_used c))\<rparr>) db;
          db2 = reload_registry (flt ''reload'') (enableEndpoint flt (rc_ModelID cfg) db1)
      in case resolve_model (aw_intn w) (rc_ModelName cfg) db2 of
           (None, db3) \<Rightarrow> (None, db3)
         | (Some ep, db3) \<Rightarrow> (Some \<lparr>re_EndpointID = ep_id ep, re_URL = ep_url ep, re_ContainerID = h_container rt\<rparr>, db3))"

text \<open>\<open>time.Since(entered) > ColdStartTimeout / 2\<close>; durations are nanoseconds in the program, so halving is exact.\<close>

definition stuck :: "act_world \<Rightarrow> int \<Rightarrow> int \<Rightarrow> bool" where
  "stuck w entered now \<longleftrightarrow> 2 * (now - entered) > ColdStartTimeout w"

definition loading_poll ::
    "act_world \<Rightarrow> ModelConfig \<Rightarrow> poll \<Rightarrow> int option \<Rightarrow> ha_runtime \<Rightarrow> act_db \<Rightarrow> waiting \<times> act_db" where
  "loading_poll w cfg p entered rt db =
     (let flt = po_faults p; now = po_now p;
          since = (case entered of Some t \<Rightarrow> t | None \<Rightarrow> if flt ''entered'' then now else h_updated rt)
      in if h_port rt = 0 then (KeepPolling (Some since), db)
         else if po_health p (probe_url flt cfg rt db) then
           (case mark_ready w cfg p rt db of
              (None, db1) \<Rightarrow> (KeepPolling (Some since), db1)
            | (Some ep, db1) \<Rightarrow> (Answer (Inr ep), db1))
         else if stuck w since now then
           (Answer (Inl (StartFailed ''startup timeout'')), set_failed (flt ''mark failed'') now (h_id rt) ''startup timeout'' db)
         else (KeepPolling (Some since), db))"

definition poll_once :: "act_world \<Rightarrow> ModelConfig \<Rightarrow> poll \<Rightarrow> int option \<Rightarrow> act_db \<Rightarrow> waiting \<times> act_db" where
  "poll_once w cfg p entered db =
     (case loadRuntime (po_faults p ''runtime'') (rc_ModelID cfg) db of
        None \<Rightarrow> (KeepPolling entered, db)
      | Some rt \<Rightarrow>
          if h_state rt = ''failed'' then (Answer (Inl (StartFailed (h_error rt))), db)
          else if h_state rt \<in> {''stopped'', ''unloaded''} then
            (Answer (Inl (StartFailed ''container was removed during startup'')),
             set_failed (po_faults p ''mark failed'') (po_now p) (h_id rt) ''container removed during startup'' db)
          else if h_state rt \<in> {''created'', ''pending'', ''validating'', ''downloading'', ''starting''} then (KeepPolling None, db)
          else if h_state rt \<in> {''loading_model'', ''waiting_ready'', ''active'', ''warm'', ''loading''} then
            loading_poll w cfg p entered rt db
          else (KeepPolling entered, db))"

text \<open>The result, the polls that are left, and the state.\<close>

fun waitForReady ::
    "act_world \<Rightarrow> ModelConfig \<Rightarrow> poll list \<Rightarrow> int option \<Rightarrow> act_db \<Rightarrow> (act_error + RunningEndpoint) \<times> poll list \<times> act_db" where
  "waitForReady w cfg [] entered db = (Inl ErrColdStartTimeout, [], db)"
| "waitForReady w cfg (p # ps) entered db =
     (case poll_once w cfg p entered (po_env p db) of
        (Answer r, db1) \<Rightarrow> (r, ps, db1)
      | (KeepPolling t, db1) \<Rightarrow> waitForReady w cfg ps t db1)"

subsection \<open>The unified start\<close>

definition started_at :: "faults \<Rightarrow> int \<Rightarrow> ha_runtime \<Rightarrow> act_db \<Rightarrow> int" where
  "started_at flt now rt db =
     (if flt ''started'' then now else coalesce (h_updated rt) (ax_started (act_cols db (h_id rt))))"

definition stalled :: "act_world \<Rightarrow> ModelConfig \<Rightarrow> State \<Rightarrow> ha_runtime \<Rightarrow> act_db \<Rightarrow> bool" where
  "stalled w cfg st rt db \<longleftrightarrow>
     (let age = aw_now w - started_at (aw_faults w) (aw_now w) rt db in
      (if st \<in> {StateLoadingModel, StateWaitingReady} then 2 * age > ColdStartTimeout w else age > ColdStartTimeout w)) \<and>
     \<not> (h_node rt \<noteq> [] \<and> h_node rt \<noteq> mc_NodeID cfg \<and> isNodeOnline (aw_faults w ''runtime node'') (h_node rt) db)"

text \<open>A start whose result other than a full model ends the caller.\<close>

definition try_enqueue :: "act_world \<Rightarrow> ModelConfig \<Rightarrow> act_db \<Rightarrow> act_error option \<times> act_db" where
  "try_enqueue w cfg db =
     (case enqueueStartModel w cfg db of
        (Inl ErrAtCapacity, db1) \<Rightarrow> (None, db1) | (Inl e, db1) \<Rightarrow> (Some e, db1) | (Inr _, db1) \<Rightarrow> (None, db1))"

datatype start_phase = Ready RunningEndpoint | GiveUp act_error | Wait

definition start_decision :: "act_world \<Rightarrow> ModelConfig \<Rightarrow> act_db \<Rightarrow> start_phase \<times> act_db" where
  "start_decision w cfg db =
     (let flt = aw_faults w; rt = loadRuntime (flt ''runtime'') (rc_ModelID cfg) db; st = deriveState rt;
          enqueue = (\<lambda>db. case try_enqueue w cfg db of (Some e, db1) \<Rightarrow> (GiveUp e, db1) | (None, db1) \<Rightarrow> (Wait, db1))
      in if st \<in> {StateReady, StateIdle} then
           (case resolve_model (aw_intn w) (rc_ModelName cfg) (reload_registry (flt ''reload'') db) of
              (Some ep, db1) \<Rightarrow> (Ready \<lparr>re_EndpointID = ep_id ep, re_URL = ep_url ep, re_ContainerID = []\<rparr>, db1)
            | (None, db1) \<Rightarrow> (Wait, db1))
         else if st = StateDraining then (Wait, db)
         else if st = StateUnhealthy then (if rc_WorkloadPolicy cfg = ''always_on'' then (Wait, db) else enqueue db)
         else if st \<in> {StateCreated, StateLoadingModel, StateStarting, StateValidating, StateDownloading, StateWaitingReady} then
           (case rt of
              None \<Rightarrow> (Wait, db)
            | Some r \<Rightarrow>
                if stalled w cfg st r db then
                  enqueue (update_base (flt ''reset'') (\<lambda>x. h_id x = h_id r)
                    (\<lambda>x. x\<lparr>h_state := ''failed'', h_error := ''startup stalled'', h_container := [], h_updated := aw_now w\<rparr>) db)
                else (Wait, db))
         else enqueue db)"

definition guard_ok :: "act_world \<Rightarrow> ModelConfig \<Rightarrow> act_db \<Rightarrow> bool" where
  "guard_ok w cfg db \<longleftrightarrow>
     (isNodeOnline (aw_faults w ''node'') (mc_NodeID cfg) db \<longrightarrow>
      CanStart (aw_faults w) (mc_NodeID cfg)
        \<lparr>RAMMBNeeded = estimateRAMMB (aw_faults w ''requirements'') (rc_ModelID cfg) db, req_GPUDevices = rc_GPUDevices cfg,
         ProjectPriorityWeight = 0, req_ProjectID = []\<rparr> db)"

text \<open>
  A wait whose context has ended is not repeated: the query that looks for a failed row fails with it. The
  second start is made with what the world is then, \<open>w2\<close>.
\<close>

definition wait_and_retry ::
    "act_world \<Rightarrow> act_world \<Rightarrow> ModelConfig \<Rightarrow> poll list \<Rightarrow> act_db \<Rightarrow> (act_error + RunningEndpoint) \<times> act_db" where
  "wait_and_retry w w2 cfg ps db =
     (case waitForReady w cfg ps None db of
        (Inr ep, _, db1) \<Rightarrow> (Inr ep, db1)
      | (Inl e, rest, db1) \<Rightarrow>
          (case (if e = ErrColdStartTimeout then None else loadRuntime (aw_faults w2 ''runtime'') (rc_ModelID cfg) db1) of
             None \<Rightarrow> (Inl e, db1)
           | Some rt \<Rightarrow>
               if h_state rt \<noteq> ''failed'' then (Inl e, db1)
               else (case try_enqueue w2 cfg db1 of
                       (Some e2, db2) \<Rightarrow> (Inl e2, db2)
                     | (None, db2) \<Rightarrow> (case waitForReady w2 cfg rest None db2 of (r, _, db3) \<Rightarrow> (r, db3)))))"

definition doStartModel ::
    "act_world \<Rightarrow> act_world \<Rightarrow> string \<Rightarrow> poll list \<Rightarrow> act_db \<Rightarrow> (act_error + RunningEndpoint) \<times> act_db" where
  "doStartModel w w2 name ps db =
     (case loadConfig w name db of
        None \<Rightarrow> (Inl ErrModelNotFound, db)
      | Some cfg \<Rightarrow>
          if \<not> ManagedByNexus (mc_DeploymentMode cfg) then (Inl ErrManualDeployment, db)
          else if mc_NodeID cfg = [] then (Inl NoNodeAssigned, db)
          else if \<not> guard_ok w cfg db then (Inl ErrInsufficientResources, db)
          else (case start_decision w cfg db of
                  (Ready ep, db1) \<Rightarrow> (Inr ep, db1)
                | (GiveUp e, db1) \<Rightarrow> (Inl e, db1)
                | (Wait, db1) \<Rightarrow> wait_and_retry w w2 cfg ps db1))"

subsection \<open>Activity, status and ports\<close>

definition active_row :: "id \<Rightarrow> act_db \<Rightarrow> ha_runtime \<Rightarrow> bool" where
  "active_row i db r \<longleftrightarrow>
     (ax_endpoint (act_cols db (h_id r)) = Some i \<or> h_id r = i) \<and>
     h_state r \<notin> {''stopping'', ''stopped'', ''failed'', ''deleted''}"

text \<open>\<open>is_uuid\<close> tells whether the identifier can be cast to the type of the columns.\<close>

definition RecordRuntimeActivity :: "bool \<Rightarrow> bool \<Rightarrow> int \<Rightarrow> id \<Rightarrow> act_db \<Rightarrow> act_db" where
  "RecordRuntimeActivity fails is_uuid now i db =
     (if take 5 i = ''virt:'' then db
      else update_act (fails \<or> \<not> is_uuid) (active_row i db)
        (\<lambda>r. r\<lparr>h_updated := now,
               h_state := (if h_state r \<in> {''loading_model'', ''waiting_ready'', ''loading''} then ''ready'' else h_state r)\<rparr>)
        (\<lambda>c. c\<lparr>ax_last_used := Some now\<rparr>) db)"

record ModelStatus =
  ms_EndpointID :: id
  ms_ContainerID :: string
  ms_State :: string
  ms_URL :: string
  ms_LastUsed :: "int option"

definition Status :: "bool \<Rightarrow> string \<Rightarrow> act_db \<Rightarrow> ModelStatus option" where
  "Status fails name db =
     (case sort_key (\<lambda>r. - h_updated r)
             (filter (\<lambda>r. list_ex (\<lambda>m. hm_id m = h_model r \<and> hm_name m = name) (ha_models (ab db))) (runtimes (ab db))) of
        [] \<Rightarrow> None
      | r # _ \<Rightarrow>
          if fails then None
          else Some \<lparr>ms_EndpointID = h_id r, ms_ContainerID = h_container r, ms_State = h_state r,
                 ms_URL = ''http://'' @ h_host r @ '':'' @ FormatInt (h_port r), ms_LastUsed = ax_last_used (act_cols db (h_id r))\<rparr>)"

definition mismatches :: "act_db \<Rightarrow> (int \<times> id) list" where
  "mismatches db =
     [(h_port r, er_ep e). r \<leftarrow> runtimes (ab db), e \<leftarrow> act_endpoints db,
        ax_endpoint (act_cols db (h_id r)) = Some (er_ep e) \<and> serving (h_state r) \<and> h_port r > 0 \<and> er_port e \<noteq> h_port r \<and>
        list_ex (\<lambda>m. hm_id m = h_model r) (ha_models (ab db))]"

definition correct_port :: "(id \<Rightarrow> bool) \<Rightarrow> int \<times> id \<Rightarrow> act_endpoint list \<Rightarrow> act_endpoint list" where
  "correct_port fails = (\<lambda>(port, i) es. if fails i then es else map (\<lambda>e. if er_ep e = i then e\<lparr>er_port := port\<rparr> else e) es)"

definition runPortMismatchSweep :: "faults \<Rightarrow> (id \<Rightarrow> bool) \<Rightarrow> act_db \<Rightarrow> act_db" where
  "runPortMismatchSweep flt fails db =
     (let rows = mismatches db in
      if flt ''query'' \<or> rows = [] then db
      else reload_registry (flt ''reload'') (db\<lparr>act_endpoints := fold (correct_port fails) rows (act_endpoints db)\<rparr>))"

subsection \<open>Sharing a start\<close>

text \<open>
  A channel is a number; \<open>closed\<close> are the channels that have been closed. Closing one a second time panics.
\<close>

record inflightMap =
  calls :: "string \<Rightarrow> nat option"
  closed :: "nat list"
  next_chan :: nat

definition newInflightMap :: inflightMap where
  "newInflightMap = \<lparr>calls = (\<lambda>_. None), closed = [], next_chan = 0\<rparr>"

definition getOrCreate :: "string \<Rightarrow> inflightMap \<Rightarrow> (nat \<times> bool) \<times> inflightMap" where
  "getOrCreate model m =
     (case calls m model of
        Some ch \<Rightarrow> ((ch, False), m)
      | None \<Rightarrow> ((next_chan m, True), m\<lparr>calls := (calls m)(model \<mapsto> next_chan m), next_chan := Suc (next_chan m)\<rparr>))"

definition release :: "string \<Rightarrow> nat \<Rightarrow> inflightMap \<Rightarrow> bool \<times> inflightMap" where
  "release model ch m =
     (let m1 = m\<lparr>calls := (calls m)(model := None)\<rparr> in
      if ch \<in> set (closed m) then (False, m1) else (True, m1\<lparr>closed := ch # closed m1\<rparr>))"

text \<open>
  A caller of \<open>EnsureRunning\<close>: outside, blocked on a channel, running a start of its own, back with a result,
  or dead of a panic. A waiter that is woken and cannot resolve the model runs a start itself.
\<close>

datatype caller = Outside | Blocked nat | Starting nat | Returned | Panicked

record inflight_system =
  inflight :: inflightMap
  callers :: "nat \<Rightarrow> caller"
  wanted :: "nat \<Rightarrow> string"

definition move :: "nat \<Rightarrow> caller \<Rightarrow> inflight_system \<Rightarrow> inflight_system" where
  "move i c s = s\<lparr>callers := (callers s)(i := c)\<rparr>"

definition enter :: "nat \<Rightarrow> inflight_system \<Rightarrow> inflight_system" where
  "enter i s =
     (case getOrCreate (wanted s i) (inflight s) of
        ((ch, True), m) \<Rightarrow> move i (Starting ch) (s\<lparr>inflight := m\<rparr>)
      | ((ch, False), m) \<Rightarrow> move i (Blocked ch) (s\<lparr>inflight := m\<rparr>))"

definition leave :: "nat \<Rightarrow> nat \<Rightarrow> inflight_system \<Rightarrow> inflight_system" where
  "leave i ch s =
     (case release (wanted s i) ch (inflight s) of
        (True, m) \<Rightarrow> move i Returned (s\<lparr>inflight := m\<rparr>)
      | (False, m) \<Rightarrow> move i Panicked (s\<lparr>inflight := m\<rparr>))"

text \<open>\<open>resolves\<close> tells which woken waiters find an endpoint.\<close>

inductive inflight_step :: "(nat \<Rightarrow> bool) \<Rightarrow> inflight_system \<Rightarrow> inflight_system \<Rightarrow> bool" for resolves where
  call: "callers s i = Outside \<Longrightarrow> inflight_step resolves s (enter i s)"
| woken: "callers s i = Blocked ch \<Longrightarrow> ch \<in> set (closed (inflight s)) \<Longrightarrow> resolves i \<Longrightarrow> inflight_step resolves s (move i Returned s)"
| fall_through: "callers s i = Blocked ch \<Longrightarrow> ch \<in> set (closed (inflight s)) \<Longrightarrow> \<not> resolves i \<Longrightarrow>
    inflight_step resolves s (move i (Starting ch) s)"
| give_up: "callers s i = Blocked ch \<Longrightarrow> inflight_step resolves s (move i Returned s)"
| finish: "callers s i = Starting ch \<Longrightarrow> inflight_step resolves s (leave i ch s)"

end
