(* ===== verification/Cold_Start_Props.thy ===== *)
theory Cold_Start_Props
  imports Cold_Start
begin

text \<open>
  What a start through the runtime manager guarantees: it never touches a model the operator deployed, keeps
  the number of replicas within its bound, queues a task for the row it inserts; what a finished wait means,
  when it cannot succeed, and what sharing a start between callers promises.
\<close>

subsection \<open>Reading the configuration\<close>

lemma sort_key_hd_mem: "sort_key f xs = y # ys \<Longrightarrow> y \<in> set xs"
  by (metis list.set_intros(1) set_sort)

lemma loadConfig_row:
  assumes "loadConfig w name db = Some cfg"
  obtains row where "row \<in> set (config_rows name db)"
    "\<exists>h. cfg = row_config (\<not> aw_undefined w) (act_cols db) row \<or>
         cfg = (row_config (\<not> aw_undefined w) (act_cols db) row)\<lparr>mc_BindHost := h\<rparr>"
proof (cases "sort_key config_order (config_rows name db)")
  case Nil
  then show ?thesis using assms by (simp add: loadConfig_def split: if_splits)
next
  case (Cons row rows)
  then have "\<exists>h. cfg = row_config (\<not> aw_undefined w) (act_cols db) row \<or>
         cfg = (row_config (\<not> aw_undefined w) (act_cols db) row)\<lparr>mc_BindHost := h\<rparr>"
    using assms by (auto simp: loadConfig_def Let_def split: if_splits)
  with sort_key_hd_mem [OF Cons] show ?thesis using that by blast
qed

lemma config_rows_model:
  "(m, e, r) \<in> set (config_rows name db) \<Longrightarrow>
   m \<in> set (ha_models (ab db)) \<and> hm_name m = name \<and> SQLCondition (hm_enabled m) (hm_lifecycle m)"
  by (auto simp: config_rows_def)

lemma loadConfig_model:
  assumes "loadConfig w name db = Some cfg"
  shows "\<exists>m\<in>set (ha_models (ab db)). hm_name m = name \<and> SQLCondition (hm_enabled m) (hm_lifecycle m) \<and>
    rc_ModelID cfg = hm_id m \<and> rc_ModelName cfg = name \<and> rc_MaxModelLen cfg = 0 \<and>
    mc_DeploymentMode cfg = (if aw_undefined w then ''managed'' else coalesce ''managed'' (hm_deployment m))"
proof -
  obtain row where row: "row \<in> set (config_rows name db)"
    "\<exists>h. cfg = row_config (\<not> aw_undefined w) (act_cols db) row \<or>
         cfg = (row_config (\<not> aw_undefined w) (act_cols db) row)\<lparr>mc_BindHost := h\<rparr>"
    using loadConfig_row [OF assms] .
  obtain m e r where mer: "row = (m, e, r)" by (cases row)
  have "rc_ModelID cfg = hm_id m" "rc_ModelName cfg = hm_name m" "rc_MaxModelLen cfg = 0"
    "mc_DeploymentMode cfg = (if aw_undefined w then ''managed'' else coalesce ''managed'' (hm_deployment m))"
    using row(2) by (auto simp: mer row_config_def Let_def)
  then show ?thesis using config_rows_model row(1) unfolding mer by metis
qed

subsection \<open>Frames\<close>

lemma park_rows_frame:
  "snd (park_rows w cfg db) = db\<lparr>ab := update_runtimes (aw_faults w ''park'') (parked_row cfg)
     (\<lambda>r. r\<lparr>h_state := ''stopped'', h_updated := aw_now w\<rparr>) (ab db)\<rparr>"
  by (simp add: park_rows_def update_base_def)

lemma update_runtimes_live:
  assumes "\<And>r. h_model (f r) = h_model r" "\<And>r. \<not> non_terminal (h_state (f r))"
  shows "live_count m (update_runtimes b P f db) \<le> live_count m db"
proof -
  have "length (filter (\<lambda>r. h_model r = m \<and> non_terminal (h_state r)) (map (\<lambda>r. if P r then f r else r) rs))
      \<le> length (filter (\<lambda>r. h_model r = m \<and> non_terminal (h_state r)) rs)" for rs
    by (induction rs) (auto simp: assms)
  then show ?thesis by (simp add: live_count_def update_runtimes_def)
qed

lemma DesiredReplicas_le: "fst (DesiredReplicas b m db) \<le> fst (DesiredReplicas False m db)"
  by (simp add: DesiredReplicas_def Let_def)

lemma claim_start_live:
  assumes "claim_start w cfg mode db = Inr db'"
  shows "live_count m (ab db') \<le> max (live_count m (ab db)) (fst (DesiredReplicas False m (ab db)) + 1)"
proof -
  let ?row = "start_row w cfg mode"
  have rows: "runtimes (ab db') = runtimes (ab db) @ [?row]" and
    claim: "ClaimSlot (aw_faults w ''claim'') (rc_ModelID cfg)
      (fst (DesiredReplicas (aw_faults w ''desired'') (rc_ModelID cfg) (ab db))) [] (ab db) = Inr True"
    using assms unfolding claim_start_def Let_def
    by (auto split: if_splits sum.splits bool.splits list.splits)
  have "live_count (rc_ModelID cfg) (ab db) < fst (DesiredReplicas False (rc_ModelID cfg) (ab db)) + 1"
    using claim DesiredReplicas_le [of "aw_faults w ''desired''" "rc_ModelID cfg" "ab db"]
    by (auto simp: ClaimSlot_def claim_replica_slot_def split: if_splits)
  then show ?thesis by (auto simp: live_count_def rows start_row_def)
qed

lemma enqueueStartModel_live:
  "live_count m (ab (snd (enqueueStartModel w cfg db)))
     \<le> max (live_count m (ab db)) (fst (DesiredReplicas False m (ab db)) + 1)"
proof -
  let ?db1 = "snd (park_rows w cfg db)"
  have park: "live_count m (ab ?db1) \<le> live_count m (ab db)"
    unfolding park_rows_frame by (simp, rule update_runtimes_live) (simp_all add: non_terminal_def)
  have des: "DesiredReplicas False m (ab ?db1) = DesiredReplicas False m (ab db)"
    unfolding park_rows_frame by (simp add: DesiredReplicas_def spec_field_def spec_of_def update_runtimes_def)
  show ?thesis
  proof (cases "claim_start w cfg (start_mode w cfg db) ?db1")
    case (Inl e)
    then show ?thesis using park by (auto simp: enqueueStartModel_def Let_def case_prod_unfold)
  next
    case (Inr db2)
    have le: "live_count m (ab db2) \<le> max (live_count m (ab db)) (fst (DesiredReplicas False m (ab db)) + 1)"
      using claim_start_live [OF Inr, of m] park unfolding des by linarith
    moreover have "live_count m ((ab db2)\<lparr>ha_tasks := ts\<rparr>) = live_count m (ab db2)" for ts by (simp add: live_count_def)
    ultimately show ?thesis using Inr park
      by (auto simp: enqueueStartModel_def Let_def case_prod_unfold split: prod.splits sum.splits)
  qed
qed

subsection \<open>A small installation for the witnesses\<close>

definition demo_columns :: "string \<Rightarrow> config_columns" where
  "demo_columns policy = \<lparr>cc_backend = Some ''vllm'', cc_image = None, cc_gguf = None, cc_hf_repo = None, cc_hf_file = None,
     cc_hf_token = None, cc_volume = None, cc_ctx = None, cc_layers = None, cc_gpus = None, cc_mode = Some ''cpu'',
     cc_workload = Some policy, cc_memory = None, cc_threads = None, cc_tensor = None, cc_util = None, cc_max_len = Some 8192,
     cc_dtype = None, cc_quant = None, cc_extra = None, cc_env = None, cc_supports_thinking = None, cc_thinking = None\<rparr>"

definition demo_act_model :: "id \<Rightarrow> string \<Rightarrow> ha_model" where
  "demo_act_model i deployment = \<lparr>hm_id = i, hm_name = i, hm_enabled = True, hm_lifecycle = None,
     hm_deployment = Some deployment, hm_columns = demo_columns ''lazy_load''\<rparr>"

definition demo_act_row :: "id \<Rightarrow> id \<Rightarrow> string \<Rightarrow> ha_runtime" where
  "demo_act_row i node s = \<lparr>h_id = i, h_node = node, h_model = ''m'', h_name = i, h_state = s, h_error = [], h_container = ''c'',
     h_host = ''h'', h_port = 1, h_replaced_by = None, h_updated = 0, h_next_retry = None, h_attempt = 0,
     h_recovered_from = None, h_index = None, h_mode = ''cpu''\<rparr>"

definition demo_act_endpoint :: "id \<Rightarrow> act_endpoint" where
  "demo_act_endpoint m = \<lparr>er_ep = ''e'', er_model_id = m, er_model_name = m, er_model_enabled = True, er_backend = ''vllm'',
     er_host = ''h'', er_port = 1, er_weight = 100, er_priority = 1, er_health = StatusHealthy, er_is_enabled = True,
     er_upstream = \<lparr>us_backend = ''vllm'', us_base_url = [], us_key = [], us_model = [], us_credential = []\<rparr>,
     ae_node = Some ''n'', ae_lifecycle = ''active'', ae_image = ''i''\<rparr>"

definition demo_act_cols :: act_columns where
  "demo_act_cols = \<lparr>ax_endpoint = Some ''e'', ax_started = None, ax_last_used = None, ax_gpus = None, ax_cpus = None,
     ax_numa = None, ax_policy = None, ax_project = None\<rparr>"

definition demo_act_node :: "id \<Rightarrow> ha_node" where
  "demo_act_node n = \<lparr>hn_id = n, hn_ip = Some ''h'', hn_hostname = None, hn_status = ''online'', hn_cordoned = False,
     hn_gpu_count = None, hn_devices = []\<rparr>"

definition demo_act_db :: "ha_model \<Rightarrow> ha_runtime list \<Rightarrow> act_db" where
  "demo_act_db m rs =
     \<lparr>ab = \<lparr>runtimes = rs, specs = [], ha_models = [m], ha_nodes = [demo_act_node ''n'', demo_act_node ''k''], leases = [],
            recovery_log = [], ha_tasks = \<lparr>known_nodes = [''n'', ''k''], agent_tasks = []\<rparr>, last_sweep = 0, models_checked = 0,
            recoveries_triggered = 0\<rparr>,
      act_cols = (\<lambda>_. demo_act_cols), act_endpoints = [demo_act_endpoint (hm_id m)],
      act_registry = \<lparr>pools = (\<lambda>_. None), upstreams = (\<lambda>_. er_upstream (demo_act_endpoint [])), health_keys = []\<rparr>,
      model_created = (\<lambda>_. 0), idle_secs = (\<lambda>_. None), required_mb = (\<lambda>_. None), ram_sample = (\<lambda>_. None),
      gpu_samples = (\<lambda>_. []), act_reservations = [], project_confs = []\<rparr>"

definition demo_act_world :: act_world where
  "demo_act_world = \<lparr>aw_faults = (\<lambda>_. False), aw_now = 100, aw_gen = (\<lambda>s. s), aw_start = (\<lambda>_. Some []), aw_stop = (\<lambda>_. Some []),
     aw_undefined = False, aw_intn = (\<lambda>_ _. 0), ColdStartTimeout = 1200, DefaultIdleTimeout = 900,
     DefaultModelsVolume = ''nexus_models'', DefaultImage = ''llama''\<rparr>"

lemmas demo_act_defs = demo_columns_def demo_act_model_def demo_act_row_def demo_act_endpoint_def demo_act_cols_def
  demo_act_node_def demo_act_db_def demo_act_world_def

subsection \<open>Properties of a start\<close>

lemma manual_config:
  assumes "\<forall>m\<in>set (ha_models (ab db)). hm_name m = name \<and> SQLCondition (hm_enabled m) (hm_lifecycle m) \<longrightarrow> hm_deployment m = Some ''manual''"
    "\<not> aw_undefined w" "loadConfig w name db = Some cfg"
  shows "\<not> ManagedByNexus (mc_DeploymentMode cfg)"
  using loadConfig_model [OF assms(3)] assms(1,2) by (auto simp: ManagedByNexus_def coalesce_def)

text \<open>
  Neither \<open>StartModel\<close> nor a cold start changes anything for a model whose eligible rows are all
  deployed by the operator; both report an error, whatever fails and however long the caller waits.
\<close>

theorem manual_models_untouched:
  assumes "\<forall>m\<in>set (ha_models (ab db)). hm_name m = name \<and> SQLCondition (hm_enabled m) (hm_lifecycle m) \<longrightarrow> hm_deployment m = Some ''manual''"
    and "\<not> aw_undefined w"
  shows "\<exists>e\<in>{ErrModelNotFound, ErrManualDeployment}. StartModel w name db = (Inl e, db) \<and> doStartModel w w2 name ps db = (Inl e, db)"
proof (cases "loadConfig w name db")
  case None
  then show ?thesis by (simp add: StartModel_def doStartModel_def)
next
  case (Some cfg)
  then show ?thesis using manual_config [OF assms Some] by (simp add: StartModel_def doStartModel_def)
qed

theorem manual_models_untouched_witness:
  "\<exists>e\<in>{ErrModelNotFound, ErrManualDeployment}.
     StartModel demo_act_world ''m'' (demo_act_db (demo_act_model ''m'' ''manual'') []) = (Inl e, demo_act_db (demo_act_model ''m'' ''manual'') []) \<and>
     doStartModel demo_act_world demo_act_world ''m'' [] (demo_act_db (demo_act_model ''m'' ''manual'') [])
       = (Inl e, demo_act_db (demo_act_model ''m'' ''manual'') [])"
  by (rule manual_models_untouched) (simp_all add: demo_act_defs)

text \<open>
  C17: A start never leaves a model with more live replicas than its bound, one above the desired number, or
  than it had before. No failure of a statement changes this.
\<close>

theorem start_respects_capacity:
  "live_count m (ab (snd (StartModel w name db))) \<le> max (live_count m (ab db)) (fst (DesiredReplicas False m (ab db)) + 1)"
proof (cases "loadConfig w name db")
  case (Some cfg)
  then show ?thesis using enqueueStartModel_live [of m w cfg db]
    by (auto simp: StartModel_def split: prod.splits sum.splits act_error.splits)
qed (simp add: StartModel_def)

lemma Enqueue_queued:
  assumes "Enqueue b now i n ty payload opts db = (Inr j, db')" "o_idempotencyKey (fold (\<lambda>f. f) opts default_options) \<noteq> []"
  shows "list_ex (\<lambda>t. t_ikey t = Some (o_idempotencyKey (fold (\<lambda>f. f) opts default_options))) (agent_tasks db')"
  using assms
  by (auto simp: Enqueue_def Let_def insert_task_def new_task_def nilableStr_def list_ex_iff split: option.splits sum.splits if_splits)

lemma claim_start_Inr:
  assumes "claim_start w cfg mode db = Inr db'"
  shows "runtimes (ab db') = runtimes (ab db) @ [start_row w cfg mode] \<and> ha_tasks (ab db') = ha_tasks (ab db)"
  using assms unfolding claim_start_def Let_def by (auto split: if_splits sum.splits bool.splits list.splits)

lemma park_rows_runtimes:
  "runtimes (ab (snd (park_rows w cfg db))) =
     map (\<lambda>r. if \<not> aw_faults w ''park'' \<and> parked_row cfg r then r\<lparr>h_state := ''stopped'', h_updated := aw_now w\<rparr> else r) (runtimes (ab db))
   \<and> ha_tasks (ab (snd (park_rows w cfg db))) = ha_tasks (ab db)"
  unfolding park_rows_frame by (simp add: update_runtimes_def cong: if_cong)

lemma StartModel_Inr:
  assumes "StartModel w name db = (Inr (), db')"
  shows "\<exists>cfg. loadConfig w name db = Some cfg \<and> ManagedByNexus (mc_DeploymentMode cfg) \<and>
    (enqueueStartModel w cfg db = (Inr (), db') \<or> enqueueStartModel w cfg db = (Inl ErrAtCapacity, db'))"
proof -
  obtain cfg where cfg: "loadConfig w name db = Some cfg" "ManagedByNexus (mc_DeploymentMode cfg)" "mc_NodeID cfg \<noteq> []"
    using assms by (auto simp: StartModel_def split: option.splits if_splits)
  obtain r d where e: "enqueueStartModel w cfg db = (r, d)" by fastforce
  have "(case (r, d) of (Inl ErrAtCapacity, db') \<Rightarrow> (Inr (), db') | x \<Rightarrow> x) = (Inr (), db')"
    using assms cfg e by (simp add: StartModel_def)
  then show ?thesis using cfg e by (cases r) (auto split: act_error.splits)
qed

lemma enqueueStartModel_cases:
  assumes "ManagedByNexus (mc_DeploymentMode cfg)" "enqueueStartModel w cfg db = (r, db')"
  obtains (refused) e where "r = Inl e" "db' = snd (park_rows w cfg db)"
  | (orphaned) db2 where "r = Inl (StartFailed ''enqueue START_MODEL'')" "db' = db2"
      "claim_start w cfg (start_mode w cfg db) (snd (park_rows w cfg db)) = Inr db2"
  | (queued) db2 p j ts where "r = Inr ()" "claim_start w cfg (start_mode w cfg db) (snd (park_rows w cfg db)) = Inr db2"
      "Enqueue (aw_faults w ''enqueue'') (aw_now w) (aw_gen w ''task'') (mc_NodeID cfg) TaskStartModel p
         (activator_options w cfg) (ha_tasks (ab db2)) = (Inr j, ts)" "db' = db2\<lparr>ab := (ab db2)\<lparr>ha_tasks := ts\<rparr>\<rparr>"
proof (cases "claim_start w cfg (start_mode w cfg db) (snd (park_rows w cfg db))")
  case (Inl e)
  then have "r = Inl e" "db' = snd (park_rows w cfg db)"
    using assms by (simp_all add: enqueueStartModel_def Let_def case_prod_unfold)
  then show ?thesis by (rule that(1))
next
  case (Inr db2)
  let ?p = "aw_start w (start_payload w cfg (start_mode w cfg db) (stale_names cfg (fst (park_rows w cfg db))) db2)"
  obtain q ts where e: "Enqueue (aw_faults w ''enqueue'') (aw_now w) (aw_gen w ''task'') (mc_NodeID cfg) TaskStartModel ?p
         (activator_options w cfg) (ha_tasks (ab db2)) = (q, ts)" by fastforce
  show ?thesis
  proof (cases q)
    case (Inl x)
    then show ?thesis using assms that(2) [OF _ _ Inr] \<open>claim_start _ _ _ _ = _\<close> e
      by (simp add: enqueueStartModel_def Let_def case_prod_unfold)
  next
    case q: (Inr j)
    then show ?thesis using assms that(3) [OF _ Inr] e Inr
      by (simp add: enqueueStartModel_def Let_def case_prod_unfold)
  qed
qed

text \<open>
  C16: When \<open>StartModel\<close> reports success it has either inserted one pending row for the model and the queue
  holds a task under the key of that row, or it has inserted nothing and queued nothing.
\<close>

theorem start_queues_its_row:
  assumes "StartModel w name db = (Inr (), db')"
  shows "(\<exists>rs row node. runtimes (ab db') = rs @ [row] \<and> map h_id rs = map h_id (runtimes (ab db)) \<and> h_state row = ''pending'' \<and>
            h_id row = aw_gen w ''runtime'' \<and> h_node row = node \<and>
            list_ex (\<lambda>t. t_ikey t = Some (''start:'' @ node @ '':'' @ h_id row)) (agent_tasks (ha_tasks (ab db')))) \<or>
         (map h_id (runtimes (ab db')) = map h_id (runtimes (ab db)) \<and> ha_tasks (ab db') = ha_tasks (ab db))"
proof -
  obtain cfg where cfg: "ManagedByNexus (mc_DeploymentMode cfg)"
    and e: "enqueueStartModel w cfg db = (Inr (), db') \<or> enqueueStartModel w cfg db = (Inl ErrAtCapacity, db')"
    using StartModel_Inr [OF assms] by blast
  let ?db1 = "snd (park_rows w cfg db)"
  have ids: "map h_id (map (\<lambda>r. if P r then r\<lparr>h_state := s, h_updated := u\<rparr> else r) rs) = map h_id rs" for P s u rs
    by (induction rs) simp_all
  have park: "map h_id (runtimes (ab ?db1)) = map h_id (runtimes (ab db))" "ha_tasks (ab ?db1) = ha_tasks (ab db)"
    using park_rows_runtimes [of w cfg db] ids by simp_all
  from e obtain r where "enqueueStartModel w cfg db = (r, db')" "r = Inr () \<or> r = Inl ErrAtCapacity" by blast
  from cfg this(1) show ?thesis
  proof (cases rule: enqueueStartModel_cases)
    case (refused e)
    then show ?thesis using park by simp
  next
    case (orphaned db2)
    then show ?thesis using \<open>r = Inr () \<or> r = Inl ErrAtCapacity\<close> by simp
  next
    case (queued db2 p j ts)
    note c = claim_start_Inr [OF queued(2)]
    have key: "o_idempotencyKey (fold (\<lambda>f. f) (activator_options w cfg) default_options) =
        ''start:'' @ mc_NodeID cfg @ '':'' @ aw_gen w ''runtime''"
      by (simp add: activator_options_def WithPriority_def WithActor_def WithRuntimeID_def WithTimeout_def WithIdempotencyKey_def)
    have "list_ex (\<lambda>t. t_ikey t = Some (''start:'' @ mc_NodeID cfg @ '':'' @ aw_gen w ''runtime'')) (agent_tasks ts)"
      using Enqueue_queued [OF queued(3)] unfolding key by simp
    then show ?thesis using c park queued(4)
      by (intro disjI1 exI [of _ "runtimes (ab ?db1)"] exI [of _ "start_row w cfg (start_mode w cfg db)"] exI [of _ "mc_NodeID cfg"])
         (simp add: start_row_def)
  qed
qed

theorem start_queues_its_row_witness:
  "\<exists>db'. StartModel demo_act_world ''m'' (demo_act_db (demo_act_model ''m'' ''managed'') []) = (Inr (), db') \<and>
     map h_state (runtimes (ab db')) = [''pending''] \<and>
     ((\<exists>rs row node. runtimes (ab db') = rs @ [row] \<and> map h_id rs = [] \<and> h_state row = ''pending'' \<and>
            h_id row = ''runtime'' \<and> h_node row = node \<and>
            list_ex (\<lambda>t. t_ikey t = Some (''start:'' @ node @ '':'' @ h_id row)) (agent_tasks (ha_tasks (ab db')))) \<or>
      map h_id (runtimes (ab db')) = [] \<and> ha_tasks (ab db') = \<lparr>known_nodes = [''n'', ''k''], agent_tasks = []\<rparr>)"
proof -
  let ?db = "demo_act_db (demo_act_model ''m'' ''managed'') []"
  obtain db' where s: "StartModel demo_act_world ''m'' ?db = (Inr (), db')" "map h_state (runtimes (ab db')) = [''pending'']"
  proof -
    have "map_prod id (\<lambda>d. map h_state (runtimes (ab d))) (StartModel demo_act_world ''m'' ?db) = (Inr (), [''pending''])"
      by code_simp
    then show ?thesis using that by (cases "StartModel demo_act_world ''m'' ?db") auto
  qed
  show ?thesis using start_queues_its_row [OF s(1)] s
    by (intro exI [of _ db']) (simp add: demo_act_db_def demo_act_world_def)
qed

text \<open>
  The rows of the model on its node are stopped before the slot is claimed. A start that finds no slot reports success, has
  queued nothing, and leaves a replica that was serving marked as stopped.
\<close>

theorem full_model_loses_serving_row:
  "\<exists>w name db db'. StartModel w name db = (Inr (), db') \<and> ha_tasks (ab db') = ha_tasks (ab db) \<and>
     map h_state (runtimes (ab db)) = [''ready'', ''loading_model'', ''starting''] \<and>
     map h_state (runtimes (ab db')) = [''stopped'', ''loading_model'', ''starting'']"
proof -
  let ?db = "demo_act_db (demo_act_model ''m'' ''managed'')
    [demo_act_row ''a'' ''n'' ''ready'', demo_act_row ''b'' ''k'' ''loading_model'', demo_act_row ''c'' ''k'' ''starting'']"
  have "map_prod id (\<lambda>d. (ha_tasks (ab d), map h_state (runtimes (ab d)))) (StartModel demo_act_world ''m'' ?db) =
      (Inr (), ha_tasks (ab ?db), [''stopped'', ''loading_model'', ''starting''])" by code_simp
  moreover have "map h_state (runtimes (ab ?db)) = [''ready'', ''loading_model'', ''starting'']"
    by (simp add: demo_act_db_def demo_act_row_def)
  ultimately show ?thesis by (cases "StartModel demo_act_world ''m'' ?db") (auto intro!: exI)
qed

subsection \<open>Waiting\<close>

lemma waitForReady_Cons:
  "waitForReady w cfg (p # ps) entered db =
     (case poll_once w cfg p entered (po_env p db) of
        (Answer r, db1) \<Rightarrow> (r, ps, db1) | (KeepPolling t, db1) \<Rightarrow> waitForReady w cfg ps t db1)" by simp

declare waitForReady.simps(2) [simp del]

definition sees :: "string set \<Rightarrow> id \<Rightarrow> act_db \<Rightarrow> bool" where
  "sees S m db \<longleftrightarrow> (case loadRuntime False m db of None \<Rightarrow> False | Some r \<Rightarrow> h_state r \<in> S)"

lemma poll_once_ignored:
  assumes "sees {''ready'', ''idle''} (rc_ModelID cfg) db"
  shows "poll_once w cfg p entered db = (KeepPolling entered, db)"
proof (cases "po_faults p ''runtime''")
  case True
  then have "loadRuntime (po_faults p ''runtime'') (rc_ModelID cfg) db = None"
    by (simp add: loadRuntime_def split: list.split)
  then show ?thesis by (simp add: poll_once_def)
next
  case False
  then show ?thesis using assms by (auto simp: poll_once_def sees_def split: option.splits)
qed

text \<open>
  C19: A caller that waits while the best row of the model is ready or idle never gets an answer before its
  context ends, however often it polls and whatever the health endpoint says: the loop has no case for
  these states. A row becomes ready when a poll was healthy but the registry had no endpoint yet.
\<close>

theorem ready_row_starves_waiter:
  assumes "sees {''ready'', ''idle''} (rc_ModelID cfg) db"
    and "\<forall>p\<in>set ps. \<forall>d. sees {''ready'', ''idle''} (rc_ModelID cfg) d \<longrightarrow> sees {''ready'', ''idle''} (rc_ModelID cfg) (po_env p d)"
  shows "fst (waitForReady w cfg ps entered db) = Inl ErrColdStartTimeout"
  using assms
proof (induction ps arbitrary: db)
  case (Cons p ps)
  then show ?case using poll_once_ignored [of cfg "po_env p db"] by (simp add: waitForReady_Cons)
qed simp

definition demo_poll :: poll where
  "demo_poll = \<lparr>po_now = 200, po_env = (\<lambda>d. d), po_health = (\<lambda>_. True), po_faults = (\<lambda>_. False)\<rparr>"

definition demo_cfg :: ModelConfig where
  "demo_cfg = row_config True (\<lambda>_. demo_act_cols) (demo_act_model ''m'' ''managed'', Some (demo_act_endpoint ''m''), None)"

theorem ready_row_starves_waiter_witness:
  "fst (waitForReady demo_act_world demo_cfg [demo_poll, demo_poll] None
     (demo_act_db (demo_act_model ''m'' ''managed'') [demo_act_row ''a'' ''n'' ''ready''])) = Inl ErrColdStartTimeout"
proof (rule ready_row_starves_waiter)
  show "sees {''ready'', ''idle''} (rc_ModelID demo_cfg)
      (demo_act_db (demo_act_model ''m'' ''managed'') [demo_act_row ''a'' ''n'' ''ready''])" by code_simp
qed (simp add: demo_poll_def)

text \<open>
  An endpoint a request for the model can be routed to: the registry holds it in the pool of the model and
  it is available. After a reload the pools hold what the tables say.
\<close>

definition routable :: "act_db \<Rightarrow> string \<Rightarrow> Endpoint \<Rightarrow> bool" where
  "routable db name e \<longleftrightarrow> (\<exists>pool. pools (act_registry db) name = Some pool \<and> e \<in> set (endpoints pool) \<and> IsAvailable e)"

definition in_tables :: "act_db \<Rightarrow> string \<Rightarrow> Endpoint \<Rightarrow> bool" where
  "in_tables db name e \<longleftrightarrow>
     (\<exists>row\<in>set (loadEndpoints (map model_endpoint_row.truncate (act_endpoints db)) (concat (map (registry_runtime db) (runtimes (ab db))))).
        er_model_name row = name \<and> e = loaded_endpoint row)"

lemma reload_mem:
  assumes "pools (Reload False mes ars reg) name = Some pool" "e \<in> set (endpoints pool)"
  shows "\<exists>row\<in>set (loadEndpoints mes ars). er_model_name row = name \<and> e = loaded_endpoint row"
proof -
  have "\<exists>row\<in>set rows \<union> S. er_model_name row = name \<and> e = loaded_endpoint row"
    if "pools (fold add_row rows reg) name = Some pool" "e \<in> set (endpoints pool)"
      "\<And>name pool e. pools reg name = Some pool \<Longrightarrow> e \<in> set (endpoints pool) \<Longrightarrow> \<exists>row\<in>S. er_model_name row = name \<and> e = loaded_endpoint row"
    for rows reg S
    using that
  proof (induction rows arbitrary: reg S)
    case (Cons row rows)
    have "\<exists>r\<in>insert row S. er_model_name r = n \<and> x = loaded_endpoint r"
      if "pools (add_row row reg) n = Some q" "x \<in> set (endpoints q)" for n q x
    proof -
      have "n = er_model_name row \<and> x = loaded_endpoint row \<or> (\<exists>q. pools reg n = Some q \<and> x \<in> set (endpoints q))"
        using that by (auto simp: add_row_def Let_def Add_def NewPool_def split: if_splits option.splits)
      then show ?thesis using Cons.prems(3) by blast
    qed
    from Cons.IH [of "add_row row reg" "insert row S", OF _ Cons.prems(2) this] Cons.prems(1) show ?case by auto
  qed auto
  from this [of "loadEndpoints mes ars" "reg\<lparr>pools := (\<lambda>_. None)\<rparr>" "{}"] assms show ?thesis by (simp add: Reload_def)
qed

lemma mark_ready_Some:
  assumes "mark_ready w cfg p rt db = (Some ep, db')"
  shows "\<exists>e. routable db' (rc_ModelName cfg) e \<and> (\<not> po_faults p ''reload'' \<longrightarrow> in_tables db' (rc_ModelName cfg) e) \<and>
    ep = \<lparr>re_EndpointID = ep_id e, re_URL = ep_url e, re_ContainerID = h_container rt\<rparr>"
proof -
  obtain d where m: "(case resolve_model (aw_intn w) (rc_ModelName cfg) (reload_registry (po_faults p ''reload'') d) of
           (None, db3) \<Rightarrow> (None, db3)
         | (Some ep, db3) \<Rightarrow> (Some \<lparr>re_EndpointID = ep_id ep, re_URL = ep_url ep, re_ContainerID = h_container rt\<rparr>, db3)) = (Some ep, db')"
    using assms unfolding mark_ready_def Let_def by blast
  let ?d = "reload_registry (po_faults p ''reload'') d"
  obtain e where e: "resolve_model (aw_intn w) (rc_ModelName cfg) ?d = (Some e, db')"
    and ep: "ep = \<lparr>re_EndpointID = ep_id e, re_URL = ep_url e, re_ContainerID = h_container rt\<rparr>"
    using m by (auto split: prod.splits option.splits)
  let ?r = "ResolveWithFailover (aw_intn w) 3 (rc_ModelName cfg) (act_registry ?d)"
  have r: "fst ?r = Some e" "db' = ?d\<lparr>act_registry := snd ?r\<rparr>"
    using e by (simp_all add: resolve_model_def case_prod_unfold Let_def)
  obtain pool where pool: "pools (act_registry ?d) (rc_ModelName cfg) = Some pool" "e \<in> set (endpoints pool)" "IsAvailable e"
    using resolve_mem [OF r(1)] by blast
  have "map_option endpoints (pools (act_registry db') (rc_ModelName cfg)) = Some (endpoints pool)"
    using resolve_frame(2) [of "aw_intn w" 3 "rc_ModelName cfg" "act_registry ?d" "rc_ModelName cfg"] r(2) pool(1) by simp
  then have "routable db' (rc_ModelName cfg) e" using pool(2,3) by (auto simp: routable_def)
  moreover have "in_tables db' (rc_ModelName cfg) e" if "\<not> po_faults p ''reload''"
  proof -
    have "\<exists>row\<in>set (loadEndpoints (map model_endpoint_row.truncate (act_endpoints d)) (concat (map (registry_runtime d) (runtimes (ab d))))).
        er_model_name row = rc_ModelName cfg \<and> e = loaded_endpoint row"
      by (rule reload_mem [OF _ pool(2)]) (use pool(1) that in \<open>simp add: reload_registry_def\<close>)
    moreover have "registry_runtime db' = registry_runtime d"
      by (intro ext) (simp add: r(2) reload_registry_def registry_runtime_def split: option.split)
    moreover have "act_endpoints db' = act_endpoints d" "runtimes (ab db') = runtimes (ab d)"
      by (simp_all add: r(2) reload_registry_def)
    ultimately show ?thesis by (simp add: in_tables_def)
  qed
  ultimately show ?thesis using ep by blast
qed

lemma loading_poll_answer:
  assumes "loading_poll w cfg p entered rt db = (Answer (Inr ep), db')"
  shows "po_health p (probe_url (po_faults p) cfg rt db) \<and> h_port rt \<noteq> 0 \<and> mark_ready w cfg p rt db = (Some ep, db')"
  using assms unfolding loading_poll_def Let_def by (auto split: if_splits option.splits prod.splits)

lemma poll_once_answer:
  assumes "poll_once w cfg p entered db = (Answer (Inr ep), db')"
  shows "\<exists>rt. loadRuntime (po_faults p ''runtime'') (rc_ModelID cfg) db = Some rt \<and>
    h_state rt \<in> {''loading_model'', ''waiting_ready'', ''active'', ''warm'', ''loading''} \<and>
    loading_poll w cfg p entered rt db = (Answer (Inr ep), db')"
  using assms unfolding poll_once_def by (auto split: option.splits if_splits)

text \<open>
  C18: A wait that succeeds rests on the last poll it made, the earlier ones having left it waiting. In the state
  of the database at that poll the best row of the model was loading, the health endpoint at the address
  of this very row answered, and the result names the container of the row and an endpoint to which the registry can
  now route the model; if the reload of the registry succeeded, the tables hold this endpoint for the model.
\<close>

theorem wait_success_confirmed:
  assumes "waitForReady w cfg ps entered db = (Inr ep, rest, db')"
  shows "\<exists>before p d rt e. ps = before @ p # rest \<and> waitForReady w cfg before entered db = (Inl ErrColdStartTimeout, [], d) \<and>
    loadRuntime (po_faults p ''runtime'') (rc_ModelID cfg) (po_env p d) = Some rt \<and>
    h_state rt \<in> {''loading_model'', ''waiting_ready'', ''active'', ''warm'', ''loading''} \<and> h_port rt \<noteq> 0 \<and>
    po_health p (probe_url (po_faults p) cfg rt (po_env p d)) \<and>
    routable db' (rc_ModelName cfg) e \<and> (\<not> po_faults p ''reload'' \<longrightarrow> in_tables db' (rc_ModelName cfg) e) \<and>
    ep = \<lparr>re_EndpointID = ep_id e, re_URL = ep_url e, re_ContainerID = h_container rt\<rparr>"
  using assms
proof (induction ps arbitrary: entered db)
  case (Cons p ps)
  obtain a d where pd: "poll_once w cfg p entered (po_env p db) = (a, d)" by fastforce
  show ?case
  proof (cases a)
    case (Answer r)
    then have r: "r = Inr ep" "rest = ps" "db' = d" using Cons.prems pd by (simp_all add: waitForReady_Cons)
    obtain rt where rt: "loadRuntime (po_faults p ''runtime'') (rc_ModelID cfg) (po_env p db) = Some rt"
      "h_state rt \<in> {''loading_model'', ''waiting_ready'', ''active'', ''warm'', ''loading''}"
      "loading_poll w cfg p entered rt (po_env p db) = (Answer (Inr ep), db')"
      using poll_once_answer [of w cfg p entered "po_env p db" ep db'] pd Answer r by blast
    note l = loading_poll_answer [OF rt(3)]
    then obtain e where "routable db' (rc_ModelName cfg) e" "\<not> po_faults p ''reload'' \<longrightarrow> in_tables db' (rc_ModelName cfg) e"
      "ep = \<lparr>re_EndpointID = ep_id e, re_URL = ep_url e, re_ContainerID = h_container rt\<rparr>"
      using mark_ready_Some by blast
    with l rt(1,2) r(2) show ?thesis
      by (intro exI [of _ "[]"] exI [of _ p] exI [of _ db] exI [of _ rt] exI [of _ e] conjI) (simp_all only: append_Nil waitForReady.simps(1) not_False_eq_True)
  next
    case (KeepPolling t)
    then have "waitForReady w cfg ps t d = (Inr ep, rest, db')" using Cons.prems pd by (simp add: waitForReady_Cons)
    from Cons.IH [OF this] obtain before q x rt e where
      ih: "ps = before @ q # rest" "waitForReady w cfg before t d = (Inl ErrColdStartTimeout, [], x)"
        "loadRuntime (po_faults q ''runtime'') (rc_ModelID cfg) (po_env q x) = Some rt \<and>
    h_state rt \<in> {''loading_model'', ''waiting_ready'', ''active'', ''warm'', ''loading''} \<and> h_port rt \<noteq> 0 \<and>
    po_health q (probe_url (po_faults q) cfg rt (po_env q x)) \<and>
    routable db' (rc_ModelName cfg) e \<and> (\<not> po_faults q ''reload'' \<longrightarrow> in_tables db' (rc_ModelName cfg) e) \<and>
    ep = \<lparr>re_EndpointID = ep_id e, re_URL = ep_url e, re_ContainerID = h_container rt\<rparr>" by blast
    have "waitForReady w cfg (p # before) entered db = (Inl ErrColdStartTimeout, [], x)"
      using pd KeepPolling ih(2) by (simp add: waitForReady_Cons)
    moreover have "p # ps = (p # before) @ q # rest" using ih(1) by simp
    ultimately show ?thesis using ih(3) by blast
  qed
qed simp

theorem wait_success_confirmed_witness:
  "\<exists>ep rest db' e. waitForReady demo_act_world demo_cfg [demo_poll] None
       (demo_act_db (demo_act_model ''m'' ''managed'') [demo_act_row ''a'' ''n'' ''loading_model'']) = (Inr ep, rest, db') \<and>
     re_EndpointID ep = ep_id e \<and> routable db' (rc_ModelName demo_cfg) e \<and> in_tables db' (rc_ModelName demo_cfg) e"
proof -
  let ?r = "waitForReady demo_act_world demo_cfg [demo_poll] None
       (demo_act_db (demo_act_model ''m'' ''managed'') [demo_act_row ''a'' ''n'' ''loading_model''])"
  have "(case fst ?r of Inl _ \<Rightarrow> False | Inr _ \<Rightarrow> True)" by code_simp
  then obtain ep where "fst ?r = Inr ep" by (auto split: sum.splits)
  then have r: "?r = (Inr ep, fst (snd ?r), snd (snd ?r))" by (simp add: prod_eq_iff)
  from wait_success_confirmed [OF this] obtain before p e where
    c: "[demo_poll] = before @ p # fst (snd ?r)" "routable (snd (snd ?r)) (rc_ModelName demo_cfg) e"
      "\<not> po_faults p ''reload'' \<longrightarrow> in_tables (snd (snd ?r)) (rc_ModelName demo_cfg) e" "re_EndpointID ep = ep_id e" by fastforce
  have "p = demo_poll" using c(1) by (cases before) auto
  then have "in_tables (snd (snd ?r)) (rc_ModelName demo_cfg) e" using c(3) by (simp add: demo_poll_def)
  with r c(2,4) show ?thesis by blast
qed

subsection \<open>Sharing a start\<close>

definition fresh_system :: "(nat \<Rightarrow> string) \<Rightarrow> inflight_system" where
  "fresh_system want = \<lparr>inflight = newInflightMap, callers = (\<lambda>_. Outside), wanted = want\<rparr>"

definition starts_shared :: "inflight_system \<Rightarrow> bool" where
  "starts_shared s \<longleftrightarrow>
     (\<forall>c\<in>set (closed (inflight s)). c < next_chan (inflight s)) \<and>
     (\<forall>model c. calls (inflight s) model = Some c \<longrightarrow> c < next_chan (inflight s) \<and> c \<notin> set (closed (inflight s))) \<and>
     (\<forall>m1 m2 c. calls (inflight s) m1 = Some c \<longrightarrow> calls (inflight s) m2 = Some c \<longrightarrow> m1 = m2) \<and>
     (\<forall>i c. callers s i = Starting c \<longrightarrow> calls (inflight s) (wanted s i) = Some c) \<and>
     (\<forall>i j c. callers s i = Starting c \<longrightarrow> callers s j = Starting c \<longrightarrow> i = j) \<and>
     (\<forall>i. callers s i \<noteq> Panicked)"

lemma starts_sharedD:
  assumes "starts_shared s"
  shows "\<And>c. c \<in> set (closed (inflight s)) \<Longrightarrow> c < next_chan (inflight s)"
    "\<And>model c. calls (inflight s) model = Some c \<Longrightarrow> c < next_chan (inflight s)"
    "\<And>model c. calls (inflight s) model = Some c \<Longrightarrow> c \<notin> set (closed (inflight s))"
    "\<And>m1 m2 c. calls (inflight s) m1 = Some c \<Longrightarrow> calls (inflight s) m2 = Some c \<Longrightarrow> m1 = m2"
    "\<And>i c. callers s i = Starting c \<Longrightarrow> calls (inflight s) (wanted s i) = Some c"
    "\<And>i j c. callers s i = Starting c \<Longrightarrow> callers s j = Starting c \<Longrightarrow> i = j"
    "\<And>i. callers s i \<noteq> Panicked"
  using assms unfolding starts_shared_def by blast+

lemma starts_sharedI:
  assumes "\<And>c. c \<in> set (closed (inflight s)) \<Longrightarrow> c < next_chan (inflight s)"
    "\<And>model c. calls (inflight s) model = Some c \<Longrightarrow> c < next_chan (inflight s) \<and> c \<notin> set (closed (inflight s))"
    "\<And>m1 m2 c. calls (inflight s) m1 = Some c \<Longrightarrow> calls (inflight s) m2 = Some c \<Longrightarrow> m1 = m2"
    "\<And>i c. callers s i = Starting c \<Longrightarrow> calls (inflight s) (wanted s i) = Some c"
    "\<And>i j c. callers s i = Starting c \<Longrightarrow> callers s j = Starting c \<Longrightarrow> i = j"
    "\<And>i. callers s i \<noteq> Panicked"
  shows "starts_shared s"
  using assms unfolding starts_shared_def by blast

lemma shared_move:
  assumes "starts_shared s" "c = Returned \<or> (\<exists>ch. c = Blocked ch)"
  shows "starts_shared (move i c s)"
proof -
  note d = starts_sharedD [OF assms(1)]
  have e: "inflight (move i c s) = inflight s" "wanted (move i c s) = wanted s" by (simp_all add: move_def)
  have old: "callers s j = Starting ch" if "callers (move i c s) j = Starting ch" for j ch
    using that assms(2) by (auto simp: move_def split: if_splits)
  have alive: "callers (move i c s) j \<noteq> Panicked" for j
    using assms(2) d(7) [of j] by (auto simp: move_def)
  show ?thesis
    by (rule starts_sharedI; (unfold e)?) (use d old alive in blast)+
qed

lemma shared_enter:
  assumes "starts_shared s" "callers s i = Outside" shows "starts_shared (enter i s)"
proof (cases "calls (inflight s) (wanted s i)")
  case (Some ch)
  have "enter i s = move i (Blocked ch) s" by (simp add: enter_def getOrCreate_def Some)
  then show ?thesis using shared_move [OF assms(1)] by simp
next
  case None
  let ?n = "next_chan (inflight s)"
  note d = starts_sharedD [OF assms(1)]
  have e: "inflight (enter i s) = (inflight s)\<lparr>calls := (calls (inflight s))(wanted s i \<mapsto> ?n), next_chan := Suc ?n\<rparr>"
    "callers (enter i s) = (callers s)(i := Starting ?n)" "wanted (enter i s) = wanted s"
    by (simp_all add: enter_def getOrCreate_def None move_def)
  have new: "calls (inflight s) model \<noteq> Some ?n" for model using d(2) by (metis less_irrefl)
  have old: "callers s j \<noteq> Starting ?n" for j using d(5) new by blast
  have notn: "?n \<notin> set (closed (inflight s))" using d(1) by blast
  have others: "wanted s j \<noteq> wanted s i" if "callers s j = Starting c" for j c using d(5) [OF that] None by force
  show ?thesis
  proof (rule starts_sharedI)
    show "c < next_chan (inflight (enter i s))" if "c \<in> set (closed (inflight (enter i s)))" for c
      using d(1) [of c] that by (simp add: e less_SucI)
    show "c < next_chan (inflight (enter i s)) \<and> c \<notin> set (closed (inflight (enter i s)))"
      if "calls (inflight (enter i s)) model = Some c" for model c
      using that d(2,3) [of model c] notn by (auto simp: e less_SucI split: if_splits)
    show "m1 = m2" if "calls (inflight (enter i s)) m1 = Some c" "calls (inflight (enter i s)) m2 = Some c" for m1 m2 c
      using that d(4) [of m1 c m2] new by (auto simp: e split: if_splits)
    show "calls (inflight (enter i s)) (wanted (enter i s) j) = Some c" if "callers (enter i s) j = Starting c" for j c
      using that d(5) [of j c] others [of j c] by (auto simp: e split: if_splits)
    show "j = k" if "callers (enter i s) j = Starting c" "callers (enter i s) k = Starting c" for j k c
      using that d(6) [of j c k] old by (auto simp: e split: if_splits)
    show "callers (enter i s) j \<noteq> Panicked" for j using d(7) [of j] by (simp add: e)
  qed
qed

lemma shared_leave:
  assumes "starts_shared s" "callers s i = Starting ch" shows "starts_shared (leave i ch s)"
proof -
  note d = starts_sharedD [OF assms(1)]
  have c: "calls (inflight s) (wanted s i) = Some ch" using d(5) [OF assms(2)] .
  have e: "inflight (leave i ch s) = (inflight s)\<lparr>calls := (calls (inflight s))(wanted s i := None), closed := ch # closed (inflight s)\<rparr>"
    "callers (leave i ch s) = (callers s)(i := Returned)" "wanted (leave i ch s) = wanted s"
    using d(3) [OF c] by (simp_all add: leave_def release_def move_def)
  have keep: "wanted s j \<noteq> wanted s i" if "callers s j = Starting c'" "j \<noteq> i" for j c'
    using d(5) [OF that(1)] c d(6) [OF assms(2), of j] that by (metis option.inject)
  show ?thesis
  proof (rule starts_sharedI)
    show "c' < next_chan (inflight (leave i ch s))" if "c' \<in> set (closed (inflight (leave i ch s)))" for c'
      using that d(1) [of c'] d(2) [OF c] by (auto simp: e)
    show "c' < next_chan (inflight (leave i ch s)) \<and> c' \<notin> set (closed (inflight (leave i ch s)))"
      if "calls (inflight (leave i ch s)) model = Some c'" for model c'
      using that d(2,3) [of model c'] d(4) [OF c, of model] by (auto simp: e split: if_splits)
    show "m1 = m2" if "calls (inflight (leave i ch s)) m1 = Some c'" "calls (inflight (leave i ch s)) m2 = Some c'" for m1 m2 c'
      using that d(4) [of m1 c' m2] by (auto simp: e split: if_splits)
    show "calls (inflight (leave i ch s)) (wanted (leave i ch s) j) = Some c'" if "callers (leave i ch s) j = Starting c'" for j c'
      using that d(5) [of j c'] keep [of j c'] by (auto simp: e split: if_splits)
    show "j = k" if "callers (leave i ch s) j = Starting c'" "callers (leave i ch s) k = Starting c'" for j k c'
      using that d(6) [of j c' k] by (auto simp: e split: if_splits)
    show "callers (leave i ch s) j \<noteq> Panicked" for j using d(7) [of j] by (simp add: e)
  qed
qed

lemma shared_step:
  assumes "inflight_step resolves s s'" "starts_shared s" "\<And>i. resolves i" shows "starts_shared s'"
  using assms(1)
proof cases
  case (fall_through i ch)
  then show ?thesis using assms(3) by blast
qed (use assms(2) shared_enter shared_move shared_leave in blast)+

text \<open>
  C20: As long as every waiter that is woken finds the model in the registry, no caller of \<open>EnsureRunning\<close> panics
  and no two of them run a start for the same model, however the calls interleave.
\<close>

theorem one_start_while_waiters_resolve:
  assumes "(inflight_step resolves)\<^sup>*\<^sup>* (fresh_system want) s" and "\<And>i. resolves i"
  shows "callers s i \<noteq> Panicked \<and>
    (callers s i = Starting c \<and> callers s j = Starting c' \<and> want i = want j \<longrightarrow> i = j)"
proof -
  have "starts_shared s \<and> wanted s = want" using assms(1)
  proof (induction rule: rtranclp_induct)
    case base
    then show ?case by (simp add: starts_shared_def fresh_system_def newInflightMap_def)
  next
    case (step y z)
    have "wanted z = wanted y" using step.hyps(2)
      by cases (auto simp: enter_def leave_def move_def getOrCreate_def release_def Let_def split: option.splits prod.splits bool.splits)
    then show ?case using shared_step [OF step.hyps(2) _ assms(2)] step.IH by simp
  qed
  then show ?thesis using starts_sharedD [of s] by (metis option.inject)
qed

lemma fresh_run:
  "(inflight_step resolves)\<^sup>*\<^sup>* (fresh_system want) (enter 2 (enter 1 (enter 0 (fresh_system want))))"
proof -
  have other: "callers (enter j s) i = callers s i" if "i \<noteq> j" for i j s
    using that by (auto simp: enter_def move_def split: prod.split bool.split)
  have out: "callers (fresh_system want) i = Outside" for i by (simp add: fresh_system_def)
  have "inflight_step resolves (fresh_system want) (enter 0 (fresh_system want))" by (rule call) (simp add: out)
  moreover have "inflight_step resolves (enter 0 (fresh_system want)) (enter 1 (enter 0 (fresh_system want)))"
    by (rule call) (simp add: out other)
  moreover have "inflight_step resolves (enter 1 (enter 0 (fresh_system want))) (enter 2 (enter 1 (enter 0 (fresh_system want))))"
    by (rule call) (simp add: out other)
  ultimately show ?thesis by (meson rtranclp.rtrancl_into_rtrancl rtranclp.rtrancl_refl)
qed

lemmas inflight_eval = enter_def leave_def move_def getOrCreate_def release_def fresh_system_def newInflightMap_def Let_def

theorem one_start_while_waiters_resolve_witness:
  "(let s = enter 2 (enter 1 (enter 0 (fresh_system (\<lambda>_. ''m'')))) in
     callers s 0 = Starting 0 \<and> callers s 1 = Blocked 0 \<and> callers s 1 \<noteq> Panicked)"
  using one_start_while_waiters_resolve [OF fresh_run [of "\<lambda>_. True" "\<lambda>_. ''m''"], of 1 0 0 0]
  by (simp add: inflight_eval)

text \<open>A waiter that fell through holds a channel that is closed, and keeps it for good.\<close>

definition doomed :: "nat \<Rightarrow> nat \<Rightarrow> inflight_system \<Rightarrow> bool" where
  "doomed ch i s \<longleftrightarrow> ch \<in> set (closed (inflight s)) \<and> callers s i \<in> {Starting ch, Panicked}"

lemma closed_stays:
  "set (closed (inflight s)) \<subseteq> set (closed (inflight (enter j s)))" "set (closed (inflight s)) \<subseteq> set (closed (inflight (leave j c s)))"
  "inflight (move j x s) = inflight s"
  by (auto simp: enter_def leave_def move_def getOrCreate_def release_def Let_def split: option.splits)

lemma callers_other:
  assumes "i \<noteq> j" shows "callers (enter j s) i = callers s i" "callers (leave j c s) i = callers s i" "callers (move j x s) i = callers s i"
  using assms by (auto simp: enter_def leave_def move_def split: prod.split bool.split)

lemma doomed_ends: "doomed ch i s \<Longrightarrow> callers (leave i ch s) i = Panicked"
  by (simp add: doomed_def leave_def release_def move_def Let_def)

lemma doomed_step:
  assumes "inflight_step resolves s s'" "doomed ch i s" shows "doomed ch i s'"
  using assms(1)
proof cases
  case (finish j c)
  show ?thesis
  proof (cases "j = i")
    case True
    then have "c = ch" using finish(2) assms(2) by (simp add: doomed_def)
    then show ?thesis using True finish(1) doomed_ends [OF assms(2)] closed_stays(2) [where s = s and j = i and c = ch] assms(2)
      by (auto simp: doomed_def)
  next
    case False
    then show ?thesis using finish(1) assms(2) callers_other [where i = i and j = j and s = s] closed_stays(2) [where s = s and j = j and c = c] by (auto simp: doomed_def)
  qed
next
  case (call j)
  then have "j \<noteq> i" using assms(2) by (auto simp: doomed_def)
  then show ?thesis using call(1) assms(2) callers_other [where i = i and j = j and s = s] closed_stays(1) [where s = s and j = j] by (auto simp: doomed_def)
next
  case (woken j c)
  then have "j \<noteq> i" using assms(2) by (auto simp: doomed_def)
  then show ?thesis using woken(1) assms(2) callers_other [where i = i and j = j and s = s] by (auto simp: doomed_def closed_stays(3))
next
  case (fall_through j c)
  then have "j \<noteq> i" using assms(2) by (auto simp: doomed_def)
  then show ?thesis using fall_through(1) assms(2) callers_other [where i = i and j = j and s = s] by (auto simp: doomed_def closed_stays(3))
next
  case (give_up j c)
  then have "j \<noteq> i" using assms(2) by (auto simp: doomed_def)
  then show ?thesis using give_up(1) assms(2) callers_other [where i = i and j = j and s = s] by (auto simp: doomed_def closed_stays(3))
qed

text \<open>
  C21: A waiter that is woken and does not find its model never returns: whatever all callers do from then on,
  it runs a start of its own or has panicked, and the end of that start is a panic, because it closes the
  channel a second time. Two such waiters of one start can run their starts side by side.
\<close>

theorem woken_waiters_panic:
  assumes "callers s i = Blocked ch" "ch \<in> set (closed (inflight s))" "\<not> resolves i"
    and "(inflight_step resolves)\<^sup>*\<^sup>* (move i (Starting ch) s) s'"
  shows "inflight_step resolves s (move i (Starting ch) s) \<and>
    callers s' i \<in> {Starting ch, Panicked} \<and>
    (callers s' i = Starting ch \<longrightarrow> inflight_step resolves s' (leave i ch s') \<and> callers (leave i ch s') i = Panicked) \<and>
    (callers s j = Blocked ch \<and> \<not> resolves j \<and> j \<noteq> i \<longrightarrow>
       inflight_step resolves (move i (Starting ch) s) (move j (Starting ch) (move i (Starting ch) s)) \<and>
       callers (move j (Starting ch) (move i (Starting ch) s)) i = Starting ch \<and>
       callers (move j (Starting ch) (move i (Starting ch) s)) j = Starting ch)"
proof (intro conjI impI; (elim conjE)?)
  show "inflight_step resolves s (move i (Starting ch) s)" using assms(1-3) by (rule fall_through)
  have "doomed ch i (move i (Starting ch) s)" using assms(2) by (simp add: doomed_def move_def)
  with assms(4) have d: "doomed ch i s'" by (induction rule: rtranclp_induct) (auto intro: doomed_step)
  then show "callers s' i \<in> {Starting ch, Panicked}" by (simp add: doomed_def)
  show "inflight_step resolves s' (leave i ch s')" if "callers s' i = Starting ch" using that by (rule finish)
  show "callers (leave i ch s') i = Panicked" by (rule doomed_ends [OF d])
  assume j: "callers s j = Blocked ch" "\<not> resolves j" "j \<noteq> i"
  then show "inflight_step resolves (move i (Starting ch) s) (move j (Starting ch) (move i (Starting ch) s))"
    using assms(2) by (intro fall_through) (simp_all add: move_def)
  show "callers (move j (Starting ch) (move i (Starting ch) s)) i = Starting ch"
    "callers (move j (Starting ch) (move i (Starting ch) s)) j = Starting ch" using j(3) by (simp_all add: move_def)
qed

theorem woken_waiters_panic_witness:
  "(let s = leave 0 0 (enter 2 (enter 1 (enter 0 (fresh_system (\<lambda>_. ''m''))))); s' = move 2 (Starting 0) (move 1 (Starting 0) s) in
     (inflight_step (\<lambda>_. False))\<^sup>*\<^sup>* (fresh_system (\<lambda>_. ''m'')) s' \<and> callers s' 1 = Starting 0 \<and> callers s' 2 = Starting 0 \<and>
     callers (leave 1 0 s') 1 = Panicked)"
proof -
  let ?a = "enter 2 (enter 1 (enter 0 (fresh_system (\<lambda>_. ''m''))))"
  let ?b = "leave 0 0 ?a" let ?c = "move 1 (Starting 0) ?b" let ?d = "move 2 (Starting 0) ?c"
  let ?step = "inflight_step (\<lambda>_. False)"
  have w: "callers ?b 1 = Blocked 0" "callers ?b 2 = Blocked 0" "0 \<in> set (closed (inflight ?b))" by (simp_all add: inflight_eval)
  have "?step\<^sup>*\<^sup>* ?c ?c" by simp
  from woken_waiters_panic [OF w(1) w(3) _ this, of 2] have one: "?step ?b ?c" "?step ?c ?d" "callers ?d 1 = Starting 0" "callers ?d 2 = Starting 0"
    using w(2) by simp_all
  have "?step\<^sup>*\<^sup>* ?c ?d" by (rule r_into_rtranclp [where r = ?step]) (rule one(2))
  from woken_waiters_panic [OF w(1) w(3) _ this] one(3) have "callers (leave 1 0 ?d) 1 = Panicked" by blast
  moreover have "?step ?a ?b" by (rule finish) (simp add: inflight_eval)
  then have "?step\<^sup>*\<^sup>* (fresh_system (\<lambda>_. ''m'')) ?d"
    using fresh_run one(1,2) by (meson rtranclp.rtrancl_into_rtrancl)
  ultimately show ?thesis using one(3,4) unfolding Let_def by blast
qed

subsection \<open>Ports\<close>

definition same_ports :: "act_db \<Rightarrow> bool" where
  "same_ports db \<longleftrightarrow>
     (\<forall>r\<in>set (runtimes (ab db)). \<forall>r'\<in>set (runtimes (ab db)).
        serving (h_state r) \<and> serving (h_state r') \<and> h_port r > 0 \<and> h_port r' > 0 \<and>
        ax_endpoint (act_cols db (h_id r)) \<noteq> None \<and> ax_endpoint (act_cols db (h_id r)) = ax_endpoint (act_cols db (h_id r')) \<longrightarrow>
        h_port r = h_port r')"

definition fix_port :: "(id \<Rightarrow> bool) \<Rightarrow> (int \<times> id) list \<Rightarrow> act_endpoint \<Rightarrow> act_endpoint" where
  "fix_port fails rows e = fold (\<lambda>(q, i) e. if \<not> fails i \<and> er_ep e = i then e\<lparr>er_port := q\<rparr> else e) rows e"

lemma correct_ports: "fold (correct_port fails) rows es = map (fix_port fails rows) es"
proof (induction rows arbitrary: es)
  case (Cons row rows)
  obtain q i where row: "row = (q, i)" by (cases row)
  have "correct_port fails row es = map (\<lambda>e. if \<not> fails i \<and> er_ep e = i then e\<lparr>er_port := q\<rparr> else e) es"
    by (simp add: correct_port_def row)
  then show ?case using Cons.IH by (simp add: fix_port_def row comp_def)
qed (simp add: fix_port_def [abs_def])

lemma fix_port_id: "er_ep (fix_port fails rows e) = er_ep e"
proof (induction rows arbitrary: e)
  case (Cons row rows)
  obtain q i where "row = (q, i)" by (cases row)
  then show ?case using Cons.IH [of "if \<not> fails i \<and> er_ep e = i then e\<lparr>er_port := q\<rparr> else e"] by (simp add: fix_port_def)
qed (simp add: fix_port_def)

lemma fix_port_value:
  assumes "\<And>q. (q, er_ep e) \<in> set rows \<Longrightarrow> q = p" "\<And>i. \<not> fails i" "(p, er_ep e) \<in> set rows \<or> er_port e = p"
  shows "er_port (fix_port fails rows e) = p"
  using assms
proof (induction rows arbitrary: e)
  case (Cons row rows)
  obtain q i where row: "row = (q, i)" by (cases row)
  let ?e = "if er_ep e = i then e\<lparr>er_port := q\<rparr> else e"
  have step: "fix_port fails (row # rows) e = fix_port fails rows ?e" by (simp add: fix_port_def row Cons.prems(2))
  have ep: "er_ep ?e = er_ep e" by simp
  have "(p, er_ep ?e) \<in> set rows \<or> er_port ?e = p"
    using Cons.prems(3) Cons.prems(1) [of q] by (auto simp: row)
  then show ?case unfolding step using Cons.IH [of ?e] Cons.prems(1,2) ep by (metis list.set_intros(2))
qed (simp add: fix_port_def)

lemma mismatches_iff:
  "(q, i) \<in> set (mismatches db) \<longleftrightarrow>
     (\<exists>r\<in>set (runtimes (ab db)). \<exists>e\<in>set (act_endpoints db). q = h_port r \<and> i = er_ep e \<and>
        ax_endpoint (act_cols db (h_id r)) = Some (er_ep e) \<and> serving (h_state r) \<and> h_port r > 0 \<and> er_port e \<noteq> h_port r \<and>
        list_ex (\<lambda>m. hm_id m = h_model r) (ha_models (ab db)))"
  by (auto simp: mismatches_def)

text \<open>
  One pass of the port sweep leaves no endpoint with a port other than that of its serving runtime, provided
  the runtimes of an endpoint agree on their port and no statement fails.
\<close>

theorem port_sweep_settles:
  assumes "same_ports db" "\<not> flt ''query''" "\<And>i. \<not> fails i"
  shows "mismatches (runPortMismatchSweep flt fails db) = []"
proof (cases "mismatches db = []")
  case True
  then show ?thesis by (simp add: runPortMismatchSweep_def)
next
  case False
  let ?db' = "runPortMismatchSweep flt fails db"
  have frame: "ab ?db' = ab db" "act_cols ?db' = act_cols db"
    "act_endpoints ?db' = map (fix_port fails (mismatches db)) (act_endpoints db)"
    using False assms(2) by (simp_all add: runPortMismatchSweep_def reload_registry_def correct_ports Let_def)
  have "(q, i) \<notin> set (mismatches ?db')" for q i
  proof
    assume "(q, i) \<in> set (mismatches ?db')"
    then obtain r e where r: "r \<in> set (runtimes (ab db))" "e \<in> set (act_endpoints db)"
      "ax_endpoint (act_cols db (h_id r)) = Some (er_ep e)" "serving (h_state r)" "h_port r > 0"
      "er_port (fix_port fails (mismatches db) e) \<noteq> h_port r" "list_ex (\<lambda>m. hm_id m = h_model r) (ha_models (ab db))"
      unfolding mismatches_iff frame by (auto simp: fix_port_id)
    have "p = h_port r" if row: "(p, er_ep e) \<in> set (mismatches db)" for p
    proof -
      obtain r' where r': "r' \<in> set (runtimes (ab db))" "p = h_port r'" "ax_endpoint (act_cols db (h_id r')) = Some (er_ep e)"
        "serving (h_state r')" "h_port r' > 0"
        using row unfolding mismatches_iff by force
      show ?thesis using assms(1) r(1,3,4,5) r' unfolding same_ports_def by (metis option.discI)
    qed
    moreover have "(h_port r, er_ep e) \<in> set (mismatches db) \<or> er_port e = h_port r"
      using r unfolding mismatches_iff by blast
    ultimately have "er_port (fix_port fails (mismatches db) e) = h_port r" using fix_port_value assms(3) by blast
    with r(6) show False by simp
  qed
  then show ?thesis by (metis last_in_set surj_pair)
qed

theorem port_sweep_settles_witness:
  "mismatches (runPortMismatchSweep (\<lambda>_. False) (\<lambda>_. False)
     (demo_act_db (demo_act_model ''m'' ''managed'') [(demo_act_row ''a'' ''n'' ''ready'')\<lparr>h_port := 2\<rparr>])) = [] \<and>
   mismatches (demo_act_db (demo_act_model ''m'' ''managed'') [(demo_act_row ''a'' ''n'' ''ready'')\<lparr>h_port := 2\<rparr>]) = [(2, ''e'')]"
proof -
  have "mismatches (demo_act_db (demo_act_model ''m'' ''managed'') [(demo_act_row ''a'' ''n'' ''ready'')\<lparr>h_port := 2\<rparr>]) = [(2, ''e'')]"
    by code_simp
  then show ?thesis
    using port_sweep_settles [of "demo_act_db (demo_act_model ''m'' ''managed'') [(demo_act_row ''a'' ''n'' ''ready'')\<lparr>h_port := 2\<rparr>]" "\<lambda>_. False" "\<lambda>_. False"]
    by (simp add: same_ports_def demo_act_db_def)
qed

subsection \<open>Further facts\<close>

text \<open>A start whose task cannot be queued leaves a pending row behind, and no task.\<close>

lemma failed_enqueue_leaves_row:
  "map_prod id (\<lambda>d. (map h_state (runtimes (ab d)), agent_tasks (ha_tasks (ab d))))
     (StartModel (demo_act_world\<lparr>aw_faults := (\<lambda>s. s = ''enqueue'')\<rparr>) ''m'' (demo_act_db (demo_act_model ''m'' ''managed'') [])) =
   (Inl (StartFailed ''enqueue START_MODEL''), [''pending''], [])"
  by code_simp

text \<open>The payload of a cold start carries no maximal model length, whatever is configured.\<close>

lemma cold_start_drops_max_len:
  assumes "loadConfig w name db = Some cfg"
  shows "sm_MaxModelLen (start_payload w cfg mode stale db') = 0"
  using loadConfig_model [OF assms] by (auto simp: start_payload_def zero_payload_def)

text \<open>A recorded activity makes a row that is still loading ready.\<close>

lemma activity_promotes_loading:
  assumes "take 5 i \<noteq> ''virt:''" "r \<in> set (runtimes (ab db))" "h_id r = i" "h_state r = ''loading_model''"
  shows "\<exists>r'\<in>set (runtimes (ab (RecordRuntimeActivity False True now i db))). h_id r' = i \<and> h_state r' = ''ready''"
proof -
  let ?f = "\<lambda>r. r\<lparr>h_updated := now,
               h_state := (if h_state r \<in> {''loading_model'', ''waiting_ready'', ''loading''} then ''ready'' else h_state r)\<rparr>"
  have "(if active_row i db r then ?f r else r) \<in> set (runtimes (ab (RecordRuntimeActivity False True now i db)))"
    using assms(1,2) by (auto simp: RecordRuntimeActivity_def update_act_def update_runtimes_def)
  moreover have "active_row i db r" using assms by (simp add: active_row_def)
  ultimately show ?thesis using assms by (intro bexI) auto
qed

end
