(* ===== verification/Idle_Manager.thy ===== *)
theory Idle_Manager
  imports Cold_Start_Props
begin

text \<open>
  \<open>internal/runtimemgr/idle_manager.go\<close>: the eviction of idle runtimes and the restoration of projects that must
  always run. A pass works on the rows one query returned; \<open>ws\<close> gives what the world is for each of them.
\<close>

subsection \<open>Eviction\<close>

record idleRow =
  il_runtime :: ha_runtime
  il_cols :: act_columns
  il_timeout :: "int option"
  il_always :: bool
  il_protected :: bool
  il_min :: int
  il_policy :: string
  il_mode :: string

definition conf_of :: "id option \<Rightarrow> act_db \<Rightarrow> project_conf option" where
  "conf_of p db = (case p of None \<Rightarrow> None | Some i \<Rightarrow> find (\<lambda>c. pcf_project c = i) (project_confs db))"

definition idle_row :: "act_db \<Rightarrow> ha_runtime \<Rightarrow> ha_model \<Rightarrow> idleRow" where
  "idle_row db r m =
     (let c = act_cols db (h_id r); conf = conf_of (ax_project c) db in
      \<lparr>il_runtime = r, il_cols = c, il_timeout = idle_secs db (h_model r),
       il_always = coalesce False (map_option pcf_always conf), il_protected = coalesce False (map_option pcf_protected conf),
       il_min = coalesce 0 (map_option pcf_min conf), il_policy = coalesce ''lazy_load'' (ax_policy c),
       il_mode = coalesce ''managed'' (hm_deployment m)\<rparr>)"

definition idle_rows :: "act_db \<Rightarrow> idleRow list" where
  "idle_rows db =
     [idle_row db r m. r \<leftarrow> filter (\<lambda>r. h_state r \<in> {''ready'', ''active'', ''warm'', ''idle'', ''loading_model'', ''loading''} \<and>
                            ax_last_used (act_cols db (h_id r)) \<noteq> None) (runtimes (ab db)),
                      m \<leftarrow> filter (\<lambda>m. hm_id m = h_model r) (ha_models (ab db))]"

definition idle_limit :: "act_world \<Rightarrow> idleRow \<Rightarrow> int" where
  "idle_limit w row = (case il_timeout row of Some s \<Rightarrow> if s > 0 then s else DefaultIdleTimeout w | None \<Rightarrow> DefaultIdleTimeout w)"

definition project_active :: "id \<Rightarrow> act_db \<Rightarrow> int" where
  "project_active p db =
     int (length (filter (\<lambda>r. ax_project (act_cols db (h_id r)) = Some p \<and> serving (h_state r)) (runtimes (ab db))))"

definition evictable_state :: "string \<Rightarrow> bool" where
  "evictable_state s \<longleftrightarrow> s \<in> {''ready'', ''active'', ''warm'', ''idle'', ''loading_model'', ''loading''}"

definition disable_endpoint :: "bool \<Rightarrow> id option \<Rightarrow> act_db \<Rightarrow> act_db" where
  "disable_endpoint fails ep db =
     (if fails then db
      else db\<lparr>act_endpoints := map (\<lambda>e. if Some (er_ep e) = ep
        then e\<lparr>er_is_enabled := False, ae_lifecycle := ''unloaded'', er_health := StatusDown\<rparr> else e) (act_endpoints db)\<rparr>)"

definition unload_options :: "ha_runtime \<Rightarrow> EnqueueOption list" where
  "unload_options r =
     [WithPriority 60, WithActor ''idle-manager'', WithRuntimeID (h_id r),
      WithIdempotencyKey (''unload:'' @ h_node r @ '':'' @ h_id r)]"

definition stopIdleRuntime :: "act_world \<Rightarrow> idleRow \<Rightarrow> act_db \<Rightarrow> act_db" where
  "stopIdleRuntime w row db =
     (let flt = aw_faults w; r = il_runtime row;
          db1 = update_base (flt ''stopping'') (\<lambda>x. h_id x = h_id r \<and> evictable_state (h_state x))
                  (\<lambda>x. x\<lparr>h_state := ''stopping'', h_updated := aw_now w\<rparr>) db;
          db2 = (if coalesce [] (ax_endpoint (il_cols row)) \<noteq> [] then disable_endpoint (flt ''disable'') (ax_endpoint (il_cols row)) db1 else db1)
      in case Enqueue (flt ''enqueue'') (aw_now w) (aw_gen w ''task'') (h_node r) TaskUnloadRuntime
                (aw_stop w \<lparr>sp_runtime = h_id r, sp_container = h_container r, DrainSecs = 10\<rparr>) (unload_options r) (ha_tasks (ab db2)) of
           (Inl _, _) \<Rightarrow>
             update_base (flt ''rollback'') (\<lambda>x. h_id x = h_id r \<and> h_state x = ''stopping'')
               (\<lambda>x. x\<lparr>h_state := ''ready'', h_updated := aw_now w\<rparr>) db2
         | (Inr _, ts) \<Rightarrow> db2\<lparr>ab := (ab db2)\<lparr>ha_tasks := ts\<rparr>\<rparr>)"

definition spares :: "act_world \<Rightarrow> idleRow \<Rightarrow> act_db \<Rightarrow> bool" where
  "spares w row db \<longleftrightarrow>
     \<not> ManagedByNexus (il_mode row) \<or> il_policy row = ''always_on'' \<or> il_always row \<or> il_protected row \<or>
     (il_min row > 0 \<and>
      (case ax_project (il_cols row) of
         None \<Rightarrow> False
       | Some p \<Rightarrow> (if aw_faults w ''active count'' then 0 else project_active p db) \<le> il_min row)) \<or>
     h_state (il_runtime row) \<in> {''loading_model'', ''loading''} \<or>
     (case ax_last_used (il_cols row) of None \<Rightarrow> True | Some t \<Rightarrow> aw_now w - t < idle_limit w row)"

definition evict_one :: "(id \<Rightarrow> act_world) \<Rightarrow> idleRow \<Rightarrow> act_db \<Rightarrow> act_db" where
  "evict_one ws row db =
     (let w = ws (h_id (il_runtime row)) in if spares w row db then db else stopIdleRuntime w row db)"

definition evict :: "(id \<Rightarrow> act_world) \<Rightarrow> bool \<Rightarrow> act_db \<Rightarrow> act_db" where
  "evict ws fails db = (if fails then db else fold (evict_one ws) (idle_rows db) db)"

subsection \<open>Projects that always run\<close>





subsection \<open>What an eviction may stop\<close>

lemma update_runtimes_rows:
  "runtimes (update_runtimes b P f db) = map (\<lambda>r. if \<not> b \<and> P r then f r else r) (runtimes db)"
  by (simp add: update_runtimes_def cong: if_cong)

lemma update_base_rows:
  "runtimes (ab (update_base b P f db)) = map (\<lambda>r. if \<not> b \<and> P r then f r else r) (runtimes (ab db))"
  by (simp add: update_base_def update_runtimes_rows)

lemma stopIdleRuntime_rows:
  "\<exists>g. runtimes (ab (stopIdleRuntime w row db)) =
     map (\<lambda>x. if h_id x = h_id (il_runtime row) then g x else x) (runtimes (ab db)) \<and>
     (\<forall>x. h_id (g x) = h_id x \<and> (g x = x \<or> h_state (g x) \<in> {''stopping'', ''ready''} \<and> (evictable_state (h_state x) \<or> h_state x = ''stopping'')))"
proof -
  let ?i = "h_id (il_runtime row)"
  let ?s = "\<lambda>x. if \<not> aw_faults w ''stopping'' \<and> h_id x = ?i \<and> evictable_state (h_state x)
      then x\<lparr>h_state := ''stopping'', h_updated := aw_now w\<rparr> else x"
  let ?b = "\<lambda>x. if \<not> aw_faults w ''rollback'' \<and> h_id x = ?i \<and> h_state x = ''stopping''
      then x\<lparr>h_state := ''ready'', h_updated := aw_now w\<rparr> else x"
  let ?g = "\<lambda>c x. if c then ?b (?s x) else ?s x"
  have "\<exists>c. runtimes (ab (stopIdleRuntime w row db)) = map (?g c) (runtimes (ab db))"
  proof -
    define db1 where "db1 = update_base (aw_faults w ''stopping'') (\<lambda>x. h_id x = ?i \<and> evictable_state (h_state x))
      (\<lambda>x. x\<lparr>h_state := ''stopping'', h_updated := aw_now w\<rparr>) db"
    define db2 where "db2 = (if coalesce [] (ax_endpoint (il_cols row)) \<noteq> []
      then disable_endpoint (aw_faults w ''disable'') (ax_endpoint (il_cols row)) db1 else db1)"
    have rows: "runtimes (ab db2) = map ?s (runtimes (ab db))"
      by (simp add: db2_def db1_def disable_endpoint_def update_base_rows)
    obtain res ts where e: "Enqueue (aw_faults w ''enqueue'') (aw_now w) (aw_gen w ''task'') (h_node (il_runtime row)) TaskUnloadRuntime
        (aw_stop w \<lparr>sp_runtime = ?i, sp_container = h_container (il_runtime row), DrainSecs = 10\<rparr>)
        (unload_options (il_runtime row)) (ha_tasks (ab db2)) = (res, ts)" by fastforce
    have st: "stopIdleRuntime w row db = (case (res, ts) of
        (Inl _, _) \<Rightarrow> update_base (aw_faults w ''rollback'') (\<lambda>x. h_id x = ?i \<and> h_state x = ''stopping'')
               (\<lambda>x. x\<lparr>h_state := ''ready'', h_updated := aw_now w\<rparr>) db2
      | (Inr _, ts) \<Rightarrow> db2\<lparr>ab := (ab db2)\<lparr>ha_tasks := ts\<rparr>\<rparr>)"
      unfolding stopIdleRuntime_def Let_def db1_def [symmetric] db2_def [symmetric] e ..
    show ?thesis
    proof (cases res)
      case (Inl x)
      then have "runtimes (ab (stopIdleRuntime w row db)) = map (?g True) (runtimes (ab db))"
        unfolding st by (simp add: Inl update_base_rows rows comp_def conj_assoc)
      then show ?thesis by blast
    next
      case (Inr x)
      then have "runtimes (ab (stopIdleRuntime w row db)) = map (?g False) (runtimes (ab db))" unfolding st by (simp add: rows)
      then show ?thesis by blast
    qed
  qed
  then obtain c where c: "runtimes (ab (stopIdleRuntime w row db)) = map (?g c) (runtimes (ab db))" by blast
  have "map (?g c) rs = map (\<lambda>x. if h_id x = ?i then ?g c x else x) rs" for rs by (rule map_cong) auto
  moreover have "h_id (?g c x) = h_id x \<and> (?g c x = x \<or> h_state (?g c x) \<in> {''stopping'', ''ready''} \<and> (evictable_state (h_state x) \<or> h_state x = ''stopping''))" for x
    by (cases c) auto
  ultimately show ?thesis using c by (intro exI [of _ "?g c"]) simp
qed

lemma stopIdleRuntime_frame:
  "act_cols (stopIdleRuntime w row db) = act_cols db" "project_confs (stopIdleRuntime w row db) = project_confs db"
  "ha_models (ab (stopIdleRuntime w row db)) = ha_models (ab db)"
  by (simp_all add: stopIdleRuntime_def Let_def disable_endpoint_def update_base_def update_runtimes_def split: prod.split sum.split)

lemma evict_one_cases: "evict_one ws row db = db \<or> \<not> spares (ws (h_id (il_runtime row))) row db \<and>
    evict_one ws row db = stopIdleRuntime (ws (h_id (il_runtime row))) row db"
  by (simp add: evict_one_def Let_def)

lemma evict_one_frame:
  "act_cols (evict_one ws row db) = act_cols db" "project_confs (evict_one ws row db) = project_confs db"
  "map h_id (runtimes (ab (evict_one ws row db))) = map h_id (runtimes (ab db))"
proof -
  show "act_cols (evict_one ws row db) = act_cols db" "project_confs (evict_one ws row db) = project_confs db"
    using evict_one_cases [of ws row db] stopIdleRuntime_frame by metis+
  have "map h_id (runtimes (ab (stopIdleRuntime w row db))) = map h_id (runtimes (ab db))" for w
    using stopIdleRuntime_rows [of w row db] by (auto simp: comp_def if_distrib cong: if_cong)
  then show "map h_id (runtimes (ab (evict_one ws row db))) = map h_id (runtimes (ab db))"
    using evict_one_cases [of ws row db] by metis
qed

lemma idle_rows_mem:
  assumes "row \<in> set (idle_rows db)"
  obtains r m where "r \<in> set (runtimes (ab db))" "m \<in> set (ha_models (ab db))" "hm_id m = h_model r" "row = idle_row db r m"
  using assms by (auto simp: idle_rows_def)

text \<open>Reasons to keep a runtime that do not depend on the other runtimes.\<close>

definition kept :: "act_world \<Rightarrow> act_db \<Rightarrow> ha_runtime \<Rightarrow> bool" where
  "kept w db r \<longleftrightarrow>
     (\<forall>m\<in>set (ha_models (ab db)). hm_id m = h_model r \<longrightarrow>
        (let row = idle_row db r m in
         \<not> ManagedByNexus (il_mode row) \<or> il_policy row = ''always_on'' \<or> il_always row \<or> il_protected row \<or>
         h_state r \<in> {''loading_model'', ''loading''} \<or>
         (case ax_last_used (il_cols row) of None \<Rightarrow> True | Some t \<Rightarrow> aw_now w - t < idle_limit w row)))"

text \<open>
  C23: An eviction pass leaves the row of a runtime untouched whose model is deployed by the operator or always on,
  whose project is protected or always running, that is still loading, or that was used within its idle
  time, whatever statements fail.
\<close>

theorem eviction_keeps_protected:
  assumes "distinct (map h_id (runtimes (ab db)))" "r \<in> set (runtimes (ab db))" "kept (ws (h_id r)) db r"
  shows "r \<in> set (runtimes (ab (evict ws fails db)))"
proof -
  have step: "r \<in> set (runtimes (ab (evict_one ws row d)))" if "r \<in> set (runtimes (ab d))" "row \<in> set (idle_rows db)" for row d
  proof (cases "h_id (il_runtime row) = h_id r")
    case True
    note mem = that(2)
    obtain r' m where rm: "r' \<in> set (runtimes (ab db))" "m \<in> set (ha_models (ab db))" "hm_id m = h_model r'" "row = idle_row db r' m"
      using idle_rows_mem [OF mem] .
    have "r' = r" using True rm(1,4) assms(1,2) by (auto simp: idle_row_def Let_def dest: inj_onD [OF distinct_map [THEN iffD1, THEN conjunct2]])
    then have row: "row = idle_row db r m" "il_runtime row = r" using rm(4) by (simp_all add: idle_row_def Let_def)
    have "\<not> ManagedByNexus (il_mode row) \<or> il_policy row = ''always_on'' \<or> il_always row \<or> il_protected row \<or>
         h_state r \<in> {''loading_model'', ''loading''} \<or>
         (case ax_last_used (il_cols row) of None \<Rightarrow> True | Some t \<Rightarrow> aw_now (ws (h_id r)) - t < idle_limit (ws (h_id r)) row)"
      using assms(3) rm(2,3) \<open>r' = r\<close> unfolding kept_def Let_def row(1) by blast
    then have "spares (ws (h_id (il_runtime row))) row d" unfolding spares_def row(2) by blast
    then show ?thesis using that(1) by (simp add: evict_one_def)
  next
    case False
    obtain g where g: "runtimes (ab (stopIdleRuntime w row d)) = map (\<lambda>x. if h_id x = h_id (il_runtime row) then g w x else x) (runtimes (ab d))" for w
      using stopIdleRuntime_rows [of _ row d] by metis
    have "r \<in> set (runtimes (ab (stopIdleRuntime w row d)))" for w
      using that(1) False unfolding g by (auto intro!: image_eqI [of _ _ r])
    then show ?thesis using evict_one_cases [of ws row d] that(1) by metis
  qed
  have "r \<in> set (runtimes (ab (fold (evict_one ws) rows d)))"
    if "r \<in> set (runtimes (ab d))" "set rows \<subseteq> set (idle_rows db)" for rows d
    using that by (induction rows arbitrary: d) (auto intro: step)
  then show ?thesis using assms(2) by (simp add: evict_def)
qed

lemma count_change_one:
  assumes "distinct (map h_id rs)" "\<And>x. h_id (g x) = h_id x"
  shows "length (filter P rs) \<le> Suc (length (filter P (map (\<lambda>x. if h_id x = i then g x else x) rs)))"
proof -
  have "length (filter P rs) \<le> (if i \<in> h_id ` set rs then 1 else 0) + length (filter P (map (\<lambda>x. if h_id x = i then g x else x) rs))"
    using assms(1) by (induction rs) auto
  then show ?thesis by (auto split: if_splits)
qed

lemma stopIdleRuntime_active:
  assumes "distinct (map h_id (runtimes (ab db)))"
  shows "project_active p db - 1 \<le> project_active p (stopIdleRuntime w row db)"
    and "ax_project (act_cols db (h_id (il_runtime row))) \<noteq> Some p \<Longrightarrow> project_active p (stopIdleRuntime w row db) = project_active p db"
proof -
  obtain g where g: "runtimes (ab (stopIdleRuntime w row db)) = map (\<lambda>x. if h_id x = h_id (il_runtime row) then g x else x) (runtimes (ab db))"
    "\<And>x. h_id (g x) = h_id x" using stopIdleRuntime_rows [of w row db] by blast
  show "project_active p db - 1 \<le> project_active p (stopIdleRuntime w row db)"
    using count_change_one [OF assms g(2), of "\<lambda>r. ax_project (act_cols db (h_id r)) = Some p \<and> serving (h_state r)" "h_id (il_runtime row)"]
    by (simp add: project_active_def g(1) stopIdleRuntime_frame)
  assume no: "ax_project (act_cols db (h_id (il_runtime row))) \<noteq> Some p"
  have "filter (\<lambda>r. ax_project (act_cols db (h_id r)) = Some p \<and> serving (h_state r)) (map (\<lambda>x. if h_id x = h_id (il_runtime row) then g x else x) rs)
      = filter (\<lambda>r. ax_project (act_cols db (h_id r)) = Some p \<and> serving (h_state r)) rs" for rs
    using no g(2) by (induction rs) auto
  then show "project_active p (stopIdleRuntime w row db) = project_active p db"
    by (simp add: project_active_def g(1) stopIdleRuntime_frame)
qed

text \<open>
  C22: An eviction pass does not push the active runtimes of a project below its minimum, or below what they were
  when they were fewer, whatever statements fail.
\<close>

theorem eviction_respects_minimum:
  assumes "distinct (map h_id (runtimes (ab db)))" "conf_of (Some p) db = Some c"
  shows "min (pcf_min c) (project_active p db) \<le> project_active p (evict ws fails db)"
proof -
  have step: "min (pcf_min c) (project_active p d) \<le> project_active p (evict_one ws row d)"
    if d: "distinct (map h_id (runtimes (ab d)))" "act_cols d = act_cols db" "row \<in> set (idle_rows db)" for row d
  proof (cases "spares (ws (h_id (il_runtime row))) row d")
    case True
    then show ?thesis by (simp add: evict_one_def)
  next
    case False
    let ?w = "ws (h_id (il_runtime row))"
    note mem = d(3)
    obtain r m where rm: "r \<in> set (runtimes (ab db))" "m \<in> set (ha_models (ab db))" "hm_id m = h_model r" "row = idle_row db r m"
      using idle_rows_mem [OF mem] .
    have row: "il_runtime row = r" "il_cols row = act_cols db (h_id r)"
      "il_min row = coalesce 0 (map_option pcf_min (conf_of (ax_project (act_cols db (h_id r))) db))"
      unfolding rm(4) by (simp_all add: idle_row_def Let_def)
    have e: "evict_one ws row d = stopIdleRuntime ?w row d" using False by (simp add: evict_one_def)
    show ?thesis
    proof (cases "ax_project (act_cols db (h_id r)) = Some p")
      case p: True
      have "project_active p d > pcf_min c \<or> pcf_min c \<le> 0"
        using False p assms(2) by (auto simp: spares_def row coalesce_def split: if_splits)
      moreover have "0 \<le> project_active p (stopIdleRuntime ?w row d)" by (simp add: project_active_def)
      ultimately show ?thesis using stopIdleRuntime_active(1) [OF d(1), of p ?w row] unfolding e by linarith
    next
      case no: False
      then show ?thesis using stopIdleRuntime_active(2) [OF d(1), of row p ?w] unfolding e by (simp add: d(2) row(1))
    qed
  qed
  have "min (pcf_min c) (project_active p d) \<le> project_active p (fold (evict_one ws) rows d)"
    if "distinct (map h_id (runtimes (ab d)))" "act_cols d = act_cols db" "set rows \<subseteq> set (idle_rows db)" for rows d
    using that
  proof (induction rows arbitrary: d)
    case (Cons row rows)
    have "min (pcf_min c) (project_active p (evict_one ws row d)) \<le> project_active p (fold (evict_one ws) rows (evict_one ws row d))"
      using Cons.prems Cons.IH [of "evict_one ws row d"] by (simp add: evict_one_frame)
    then show ?case using step [of d row] Cons.prems by fastforce
  qed simp
  then show ?thesis using assms(1) by (simp add: evict_def)
qed

subsection \<open>What a restoration achieves\<close>











subsection \<open>A project for the witnesses\<close>

definition demo_idle_db :: "bool \<Rightarrow> ha_runtime list \<Rightarrow> act_db" where
  "demo_idle_db prot rs = (demo_act_db (demo_act_model ''m'' ''managed'') rs)
     \<lparr>act_cols := (\<lambda>_. demo_act_cols\<lparr>ax_last_used := Some (- 2000), ax_project := Some ''p''\<rparr>),
      project_confs := [\<lparr>pcf_project = ''p'', pcf_always = False, pcf_protected = prot, pcf_min = 1\<rparr>]\<rparr>"

theorem eviction_keeps_protected_witness:
  "demo_act_row ''a'' ''n'' ''ready'' \<in> set (runtimes (ab (evict (\<lambda>_. demo_act_world) False (demo_idle_db True [demo_act_row ''a'' ''n'' ''ready'']))))"
  by (rule eviction_keeps_protected)
    (simp_all add: demo_idle_db_def demo_act_db_def demo_act_row_def kept_def idle_row_def conf_of_def coalesce_def Let_def)

theorem eviction_respects_minimum_witness:
  "(1::int) \<le> project_active ''p'' (evict (\<lambda>_. demo_act_world) False
     (demo_idle_db False [demo_act_row ''a'' ''n'' ''ready'', demo_act_row ''b'' ''n'' ''ready''])) \<and>
   map h_state (runtimes (ab (evict (\<lambda>_. demo_act_world) False
     (demo_idle_db False [demo_act_row ''a'' ''n'' ''ready'', demo_act_row ''b'' ''n'' ''ready''])))) = [''stopping'', ''ready'']"
proof -
  let ?db = "demo_idle_db False [demo_act_row ''a'' ''n'' ''ready'', demo_act_row ''b'' ''n'' ''ready'']"
  have "project_active ''p'' ?db = 2"
    by (simp add: project_active_def demo_idle_db_def demo_act_db_def demo_act_row_def serving_def)
  moreover have "map h_state (runtimes (ab (evict (\<lambda>_. demo_act_world) False ?db))) = [''stopping'', ''ready'']" by code_simp
  moreover have "distinct (map h_id (runtimes (ab ?db)))" "conf_of (Some ''p'') ?db =
      Some \<lparr>pcf_project = ''p'', pcf_always = False, pcf_protected = False, pcf_min = 1\<rparr>"
    by (simp_all add: demo_idle_db_def demo_act_db_def demo_act_row_def conf_of_def)
  ultimately show ?thesis using eviction_respects_minimum [of ?db "''p''" _ "\<lambda>_. demo_act_world" False] by fastforce
qed



text \<open>
  A runtime started through \<open>StartModel\<close> is evicted although its project is protected: the new row does not
  name the project.
\<close>

definition demo_started :: act_db where
  "demo_started = snd (StartModel demo_act_world ''m'' (demo_idle_db True []))"

lemma started_row_unprotected:
  "map (\<lambda>r. (h_id r, ax_project (act_cols demo_started (h_id r)))) (runtimes (ab demo_started)) = [(''runtime'', None)]"
  by code_simp

end
