(* ===== verification/Node_Health.thy ===== *)
theory Node_Health
  imports Cold_Start_Props
begin

text \<open>
  \<open>internal/nodehealth\<close>: the monitor that turns the age of a node's last heartbeat into its status and takes the
  runtimes and endpoints of an offline node out of service. Ages are seconds. The result of a statement whose
  error the code drops is nil; asking it for the number of rows panics, which is the outcome \<open>None\<close>.
\<close>

subsection \<open>The monitor\<close>

record health_event =
  ev_node :: id
  ev_from :: string
  ev_to :: string

record health_db =
  hb_act :: act_db
  last_heartbeat :: "id \<Rightarrow> int option"
  health_events :: "health_event list"

definition UnhealthyThreshold :: int where "UnhealthyThreshold = 90"
definition OfflineThreshold :: int where "OfflineThreshold = 300"

definition monitored :: "health_db \<Rightarrow> ha_node \<Rightarrow> bool" where
  "monitored db n \<longleftrightarrow>
     (hn_status n \<notin> {''offline'', ''draining'', ''maintenance''} \<and> hn_status n \<noteq> ''unknown'') \<or>
     (hn_status n = ''unknown'' \<and> last_heartbeat db (hn_id n) \<noteq> None)"

definition target_status :: "int \<Rightarrow> string \<Rightarrow> string" where
  "target_status age status =
     (if age > OfflineThreshold then ''offline''
      else if age > UnhealthyThreshold then ''unhealthy''
      else if status = ''unhealthy'' then ''online'' else [])"

definition set_node_status :: "id \<Rightarrow> string \<Rightarrow> act_db \<Rightarrow> act_db" where
  "set_node_status i st db =
     db\<lparr>ab := (ab db)\<lparr>ha_nodes := map (\<lambda>n. if hn_id n = i then n\<lparr>hn_status := st\<rparr> else n) (ha_nodes (ab db))\<rparr>\<rparr>"

definition manual_model :: "id \<Rightarrow> act_db \<Rightarrow> bool" where
  "manual_model m db \<longleftrightarrow> list_ex (\<lambda>x. hm_id x = m \<and> \<not> SQLManagedCondition (hm_deployment x)) (ha_models (ab db))"

definition lose_runtimes :: "int \<Rightarrow> id \<Rightarrow> act_db \<Rightarrow> act_db" where
  "lose_runtimes now i =
     update_base False (\<lambda>r. h_node r = i \<and> h_state r \<notin> {''deleted'', ''archived'', ''lost''})
       (\<lambda>r. r\<lparr>h_state := ''lost'', h_updated := now\<rparr>)"

definition take_endpoints_down :: "id \<Rightarrow> act_db \<Rightarrow> act_db" where
  "take_endpoints_down i db =
     db\<lparr>act_endpoints := map (\<lambda>e. if ae_node e = Some i \<and> (er_health e \<noteq> StatusDown \<or> er_is_enabled e)
        then e\<lparr>er_health := StatusDown, ae_lifecycle := ''failed'',
               er_is_enabled := (if manual_model (er_model_id e) db then er_is_enabled e else False)\<rparr> else e) (act_endpoints db)\<rparr>"

definition handleNodeOffline :: "faults \<Rightarrow> int \<Rightarrow> id \<Rightarrow> act_db \<Rightarrow> act_db option" where
  "handleNodeOffline flt now i db =
     (if flt ''lose runtimes'' then None
      else if flt ''take endpoints'' then None
      else Some (take_endpoints_down i (lose_runtimes now i db)))"

text \<open>The reason of an event, which names the age, is left out.\<close>

definition transition :: "faults \<Rightarrow> int \<Rightarrow> id \<Rightarrow> string \<Rightarrow> string \<Rightarrow> health_db \<Rightarrow> health_db option" where
  "transition flt now i from_st to db =
     (if flt ''status'' then Some db
      else
        (let db1 = db\<lparr>hb_act := set_node_status i to (hb_act db)\<rparr>;
             db2 = (if flt ''event'' then db1
                    else db1\<lparr>health_events := health_events db1 @ [\<lparr>ev_node = i, ev_from = from_st, ev_to = to\<rparr>]\<rparr>)
         in if to = ''offline'' then map_option (\<lambda>a. db2\<lparr>hb_act := a\<rparr>) (handleNodeOffline flt now i (hb_act db2))
            else Some db2))"

text \<open>\<open>flt i\<close> tells which statements about node \<open>i\<close> fail.\<close>

definition check_node :: "(id \<Rightarrow> faults) \<Rightarrow> int \<Rightarrow> ha_node \<Rightarrow> health_db \<Rightarrow> health_db option" where
  "check_node flt now n db =
     (case last_heartbeat db (hn_id n) of
        None \<Rightarrow> Some db
      | Some t \<Rightarrow>
          (let to = target_status (now - t) (hn_status n) in
           if to = [] \<or> to = hn_status n then Some db else transition (flt (hn_id n)) now (hn_id n) (hn_status n) to db))"

fun check_nodes :: "(id \<Rightarrow> faults) \<Rightarrow> int \<Rightarrow> ha_node list \<Rightarrow> health_db \<Rightarrow> health_db option" where
  "check_nodes flt now [] db = Some db"
| "check_nodes flt now (n # ns) db = Option.bind (check_node flt now n db) (check_nodes flt now ns)"

definition health_sweep :: "(id \<Rightarrow> faults) \<Rightarrow> bool \<Rightarrow> int \<Rightarrow> health_db \<Rightarrow> health_db option" where
  "health_sweep flt fails now db =
     (if fails then Some db else check_nodes flt now (filter (monitored db) (ha_nodes (ab (hb_act db)))) db)"

text \<open>The event is written from the updated row, so its old status is the new one.\<close>

definition MarkDraining :: "bool \<Rightarrow> bool \<Rightarrow> id \<Rightarrow> health_db \<Rightarrow> bool \<times> health_db" where
  "MarkDraining fails event_fails i db =
     (if fails then (False, db)
      else
        (let db1 = db\<lparr>hb_act := set_node_status i ''draining'' (hb_act db)\<rparr> in
         (True, if event_fails then db1
                else db1\<lparr>health_events := health_events db1 @
                  map (\<lambda>n. \<lparr>ev_node = i, ev_from = hn_status n, ev_to = ''draining''\<rparr>)
                    (filter (\<lambda>n. hn_id n = i) (ha_nodes (ab (hb_act db1))))\<rparr>)))"

subsection \<open>Types\<close>












definition demo_health :: "int option \<Rightarrow> health_db" where
  "demo_health hb = \<lparr>hb_act = demo_act_db (demo_act_model ''m'' ''managed'') [demo_act_row ''a'' ''n'' ''ready''],
     last_heartbeat = (\<lambda>i. if i = ''n'' then hb else Some 1000), health_events = []\<rparr>"


lemma demo_health_sweep:
  "map_option (\<lambda>d. (map hn_status (ha_nodes (ab (hb_act d))), map h_state (runtimes (ab (hb_act d))), map er_is_enabled (act_endpoints (hb_act d))))
     (health_sweep (\<lambda>_ _. False) False 1000 (demo_health (Some 600))) = Some ([''offline'', ''online''], [''lost''], [False])"
  by code_simp

lemma demo_health_sweepE:
  obtains db' where "health_sweep (\<lambda>_ _. False) False 1000 (demo_health (Some 600)) = Some db'"
    "map hn_status (ha_nodes (ab (hb_act db'))) = [''offline'', ''online'']"
proof (cases "health_sweep (\<lambda>_ _. False) False 1000 (demo_health (Some 600))")
  case None
  with demo_health_sweep show ?thesis by (simp only: option.map option.distinct)
next
  case (Some db')
  from demo_health_sweep have "map hn_status (ha_nodes (ab (hb_act db'))) = [''offline'', ''online'']"
    unfolding Some option.map option.inject prod.inject by (rule conjunct1)
  with Some show ?thesis by (rule that)
qed

subsection \<open>The status of nodes\<close>


definition nodes_of :: "health_db \<Rightarrow> ha_node list" where
  "nodes_of db = ha_nodes (ab (hb_act db))"









subsection \<open>Nodes that go offline\<close>

definition out_of_service :: "id \<Rightarrow> act_db \<Rightarrow> bool" where
  "out_of_service i db \<longleftrightarrow>
     (\<forall>r\<in>set (runtimes (ab db)). h_node r = i \<longrightarrow> h_state r \<in> {''deleted'', ''archived'', ''lost''}) \<and>
     (\<forall>e\<in>set (act_endpoints db). ae_node e = Some i \<longrightarrow>
        er_health e = StatusDown \<and> (er_is_enabled e \<longrightarrow> manual_model (er_model_id e) db))"

lemma lose_take_rows:
  "runtimes (ab (take_endpoints_down i (lose_runtimes now i db))) =
     map (\<lambda>r. if h_node r = i \<and> h_state r \<notin> {''deleted'', ''archived'', ''lost''} then r\<lparr>h_state := ''lost'', h_updated := now\<rparr> else r)
       (runtimes (ab db))"
  by (simp add: take_endpoints_down_def lose_runtimes_def update_base_def update_runtimes_def)

lemma lose_take_models: "ha_models (ab (take_endpoints_down i (lose_runtimes now i db))) = ha_models (ab db)"
  by (simp add: take_endpoints_down_def lose_runtimes_def update_base_def update_runtimes_def)

lemma manual_same: "ha_models (ab a) = ha_models (ab b) \<Longrightarrow> manual_model m a = manual_model m b"
  by (simp add: manual_model_def)

lemma lose_take_endpoints:
  "act_endpoints (take_endpoints_down i (lose_runtimes now i db)) =
     map (\<lambda>e. if ae_node e = Some i \<and> (er_health e \<noteq> StatusDown \<or> er_is_enabled e)
        then e\<lparr>er_health := StatusDown, ae_lifecycle := ''failed'',
               er_is_enabled := (if manual_model (er_model_id e) db then er_is_enabled e else False)\<rparr> else e) (act_endpoints db)"
proof -
  have m: "manual_model m (lose_runtimes now i db) = manual_model m db" for m
    by (rule manual_same) (simp add: lose_runtimes_def update_base_def update_runtimes_def)
  have e: "act_endpoints (lose_runtimes now i db) = act_endpoints db" by (simp add: lose_runtimes_def update_base_def)
  have u: "act_endpoints (d\<lparr>act_endpoints := x\<rparr>) = x" for d :: act_db and x by simp
  show ?thesis unfolding take_endpoints_down_def m e by (rule u)
qed

lemma handleNodeOffline_Some:
  "handleNodeOffline flt now i db = Some db' \<Longrightarrow> db' = take_endpoints_down i (lose_runtimes now i db)"
  by (simp add: handleNodeOffline_def split: if_splits)

lemma lose_take_row:
  assumes "r' \<in> set (runtimes (ab (take_endpoints_down i (lose_runtimes now i db))))"
  shows "\<exists>r\<in>set (runtimes (ab db)). h_node r' = h_node r \<and>
    (if h_node r = i then h_state r' \<in> {''deleted'', ''archived'', ''lost''} else r' = r) \<and> (h_state r' = h_state r \<or> h_state r' = ''lost'')"
proof -
  let ?f = "\<lambda>r. if h_node r = i \<and> h_state r \<notin> {''deleted'', ''archived'', ''lost''} then r\<lparr>h_state := ''lost'', h_updated := now\<rparr> else r"
  obtain r where r: "r \<in> set (runtimes (ab db))" "r' = ?f r" using assms unfolding lose_take_rows set_map by (rule imageE)
  show ?thesis by (rule bexI [OF _ r(1)], unfold r(2)) simp
qed

lemma lose_take_endpoint:
  assumes "e' \<in> set (act_endpoints (take_endpoints_down i (lose_runtimes now i db)))"
  shows "\<exists>e\<in>set (act_endpoints db). ae_node e' = ae_node e \<and> er_model_id e' = er_model_id e \<and>
    (if ae_node e = Some i then er_health e' = StatusDown \<and> (er_is_enabled e' \<longrightarrow> manual_model (er_model_id e) db) else e' = e)"
proof -
  let ?f = "\<lambda>e. if ae_node e = Some i \<and> (er_health e \<noteq> StatusDown \<or> er_is_enabled e)
        then e\<lparr>er_health := StatusDown, ae_lifecycle := ''failed'',
               er_is_enabled := (if manual_model (er_model_id e) db then er_is_enabled e else False)\<rparr> else e"
  obtain e where e: "e \<in> set (act_endpoints db)" "e' = ?f e"
    using assms unfolding lose_take_endpoints set_map by (rule imageE)
  show ?thesis by (rule bexI [OF _ e(1)], unfold e(2)) simp
qed

lemma offline_reaches: "out_of_service i (take_endpoints_down i (lose_runtimes now i db))"
  unfolding out_of_service_def manual_same [OF lose_take_models]
proof (intro conjI ballI impI)
  fix r assume "r \<in> set (runtimes (ab (take_endpoints_down i (lose_runtimes now i db))))" "h_node r = i"
  then show "h_state r \<in> {''deleted'', ''archived'', ''lost''}" using lose_take_row [of r i now db] by metis
next
  fix e assume "e \<in> set (act_endpoints (take_endpoints_down i (lose_runtimes now i db)))" "ae_node e = Some i"
  then show "er_health e = StatusDown" "er_is_enabled e \<Longrightarrow> manual_model (er_model_id e) db"
    using lose_take_endpoint [of e i now db] by metis+
qed

lemma offline_keeps:
  assumes "out_of_service i db" shows "out_of_service i (take_endpoints_down j (lose_runtimes now j db))"
  unfolding out_of_service_def manual_same [OF lose_take_models]
proof (intro conjI ballI impI)
  fix r assume "r \<in> set (runtimes (ab (take_endpoints_down j (lose_runtimes now j db))))" "h_node r = i"
  then obtain r0 where "r0 \<in> set (runtimes (ab db))" "h_node r0 = i" "h_state r = h_state r0 \<or> h_state r = ''lost''"
    using lose_take_row [of r j now db] by metis
  then show "h_state r \<in> {''deleted'', ''archived'', ''lost''}" using assms unfolding out_of_service_def by auto
next
  fix e assume e: "e \<in> set (act_endpoints (take_endpoints_down j (lose_runtimes now j db)))" "ae_node e = Some i"
  obtain e0 where e0: "e0 \<in> set (act_endpoints db)" "ae_node e0 = Some i" "er_model_id e = er_model_id e0"
    "if ae_node e0 = Some j then er_health e = StatusDown \<and> (er_is_enabled e \<longrightarrow> manual_model (er_model_id e0) db) else e = e0"
    using lose_take_endpoint [OF e(1)] e(2) by metis
  have "er_health e0 = StatusDown" "er_is_enabled e0 \<Longrightarrow> manual_model (er_model_id e0) db"
    using assms e0(1,2) unfolding out_of_service_def by blast+
  then show "er_health e = StatusDown" "er_is_enabled e \<Longrightarrow> manual_model (er_model_id e) db"
    using e0(3,4) by (cases "ae_node e0 = Some j"; simp)+
qed

lemma out_of_service_status: "out_of_service i (set_node_status j st db) = out_of_service i db"
  by (simp add: out_of_service_def set_node_status_def manual_model_def)

lemma transition_keeps:
  assumes "transition flt now j from_st to db = Some db'" "out_of_service i (hb_act db)"
  shows "out_of_service i (hb_act db')"
proof -
  have o: "out_of_service i (set_node_status j to (hb_act db))" using assms(2) by (simp add: out_of_service_status)
  show ?thesis using assms offline_keeps [OF o] o
    by (auto simp: transition_def Let_def split: if_splits dest!: handleNodeOffline_Some)
qed

lemma check_node_keeps:
  "check_node flt now n db = Some db' \<Longrightarrow> out_of_service i (hb_act db) \<Longrightarrow>
   out_of_service i (hb_act db') \<and> last_heartbeat db' = last_heartbeat db"
proof -
  assume c: "check_node flt now n db = Some db'" and o: "out_of_service i (hb_act db)"
  have hb: "transition f now j a b db = Some db' \<Longrightarrow> last_heartbeat db' = last_heartbeat db" for f j a b
    by (auto simp: transition_def Let_def split: if_splits)
  show ?thesis using c o hb transition_keeps unfolding check_node_def Let_def
    by (auto split: option.splits if_splits)
qed

lemma check_nodes_keep:
  "check_nodes flt now ns db = Some db' \<Longrightarrow> out_of_service i (hb_act db) \<Longrightarrow> out_of_service i (hb_act db')"
proof (induction ns arbitrary: db)
  case (Cons n ns)
  obtain d where d: "check_node flt now n db = Some d" "check_nodes flt now ns d = Some db'"
    using Cons.prems(1) by (auto simp: bind_eq_Some_conv)
  from Cons.IH [OF d(2)] check_node_keeps [OF d(1) Cons.prems(2)] show ?case by blast
qed simp

lemma check_node_hb: "check_node flt now n db = Some db' \<Longrightarrow> last_heartbeat db' = last_heartbeat db"
  unfolding check_node_def transition_def Let_def by (auto split: option.splits if_splits)

lemma check_node_offline:
  assumes "check_node flt now n db = Some db'" "last_heartbeat db (hn_id n) = Some t" "now - t > OfflineThreshold"
    "hn_status n \<noteq> ''offline''" "\<not> flt (hn_id n) ''status''"
  shows "out_of_service (hn_id n) (hb_act db')"
proof -
  have "transition (flt (hn_id n)) now (hn_id n) (hn_status n) ''offline'' db = Some db'"
    using assms(1,2,3,4) by (simp add: check_node_def target_status_def)
  then show ?thesis using assms(5) offline_reaches
    by (auto simp: transition_def Let_def split: if_splits dest!: handleNodeOffline_Some)
qed

text \<open>
  C30: After a pass, every monitored node whose last heartbeat is older than five minutes is out of service: its
  runtimes are lost, deleted or archived, its endpoints are down, and only those of models the operator
  deployed are still enabled.
\<close>

theorem silent_node_out_of_service:
  assumes "health_sweep flt False now db = Some db'" "n \<in> set (nodes_of db)" "monitored db n"
    "last_heartbeat db (hn_id n) = Some t" "now - t > OfflineThreshold" "\<not> flt (hn_id n) ''status''"
  shows "out_of_service (hn_id n) (hb_act db')"
proof -
  have off: "hn_status n \<noteq> ''offline''" using assms(3) by (auto simp: monitored_def)
  have "out_of_service (hn_id n) (hb_act d')"
    if "check_nodes flt now ns d = Some d'" "n \<in> set ns" "last_heartbeat d = last_heartbeat db" for ns d d'
    using that
  proof (induction ns arbitrary: d)
    case (Cons m ms)
    obtain d1 where d1: "check_node flt now m d = Some d1" "check_nodes flt now ms d1 = Some d'"
      using Cons.prems(1) by (auto simp: bind_eq_Some_conv)
    show ?case
    proof (cases "m = n")
      case True
      have "out_of_service (hn_id n) (hb_act d1)"
        using check_node_offline [OF d1(1)] assms(4,5,6) off Cons.prems(3) True by simp
      then show ?thesis using check_nodes_keep [OF d1(2)] by blast
    next
      case False
      then show ?thesis using Cons.IH [OF d1(2)] Cons.prems(2,3) check_node_hb [OF d1(1)] by simp
    qed
  qed simp
  then show ?thesis using assms(1,2,3) by (auto simp: health_sweep_def nodes_of_def)
qed

theorem silent_node_out_of_service_witness:
  "\<exists>db'. health_sweep (\<lambda>_ _. False) False 1000 (demo_health (Some 600)) = Some db' \<and> out_of_service ''n'' (hb_act db')"
proof -
  obtain db' where s: "health_sweep (\<lambda>_ _. False) False 1000 (demo_health (Some 600)) = Some db'"
    by (rule demo_health_sweepE)
  have "out_of_service (hn_id (demo_act_node ''n'')) (hb_act db')"
  proof (rule silent_node_out_of_service [OF s, where t = 600])
    show "demo_act_node ''n'' \<in> set (nodes_of (demo_health (Some 600)))" by (simp add: nodes_of_def demo_health_def demo_act_db_def)
  qed (simp_all add: monitored_def demo_health_def demo_act_node_def OfflineThreshold_def)
  then have "out_of_service ''n'' (hb_act db')" by (simp add: demo_act_node_def)
  with s show ?thesis by (intro exI [of _ db'] conjI)
qed

subsection \<open>Nodes that are heard\<close>




















subsection \<open>Further facts\<close>

text \<open>A heartbeat between thirty and ninety seconds old leaves an online node online.\<close>

lemma ninety_seconds_grace: "age \<le> 90 \<Longrightarrow> target_status age ''online'' = []"
  by (simp add: target_status_def OfflineThreshold_def UnhealthyThreshold_def)

text \<open>The event of a drain names draining as the status before it.\<close>

lemma drain_event_loses_status:
  assumes "ev \<in> set (health_events (snd (MarkDraining False False i db)))" "ev \<notin> set (health_events db)"
  shows "ev_from ev = ''draining''"
proof -
  let ?db = "set_node_status i ''draining'' (hb_act db)"
  have "health_events (snd (MarkDraining False False i db)) =
      health_events db @ map (\<lambda>n. \<lparr>ev_node = i, ev_from = hn_status n, ev_to = ''draining''\<rparr>) (filter (\<lambda>n. hn_id n = i) (ha_nodes (ab ?db)))"
    by (simp add: MarkDraining_def Let_def)
  then have "ev \<in> (\<lambda>n. \<lparr>ev_node = i, ev_from = hn_status n, ev_to = ''draining''\<rparr>) ` {n \<in> set (ha_nodes (ab ?db)). hn_id n = i}"
    using assms by simp
  then obtain n where ev: "ev = \<lparr>ev_node = i, ev_from = hn_status n, ev_to = ''draining''\<rparr>"
    and n: "n \<in> {n \<in> set (ha_nodes (ab ?db)). hn_id n = i}" by (rule imageE)
  then have n1: "n \<in> set (ha_nodes (ab ?db))" "hn_id n = i" by blast+
  have eq: "ha_nodes (ab ?db) = map (\<lambda>n. if hn_id n = i then n\<lparr>hn_status := ''draining''\<rparr> else n) (ha_nodes (ab (hb_act db)))"
    by (simp add: set_node_status_def)
  have "n \<in> (\<lambda>n. if hn_id n = i then n\<lparr>hn_status := ''draining''\<rparr> else n) ` set (ha_nodes (ab (hb_act db)))"
    using n1(1) unfolding eq set_map .
  then obtain n0 where "n = (if hn_id n0 = i then n0\<lparr>hn_status := ''draining''\<rparr> else n0)" by (rule imageE)
  then have "hn_status n = ''draining''" using n1(2) by (cases "hn_id n0 = i") simp_all
  then show ?thesis by (simp add: ev)
qed

text \<open>An offline node is not looked at again, so runtimes a failed pass left behind stay as they are.\<close>

lemma offline_not_monitored: "hn_status n = ''offline'' \<Longrightarrow> \<not> monitored db n"
  by (simp add: monitored_def)

end
