(* ===== verification/Spec2Isabelle.thy ===== *)
theory Spec2Isabelle
  imports Billing_Properties Endpoint_Pool Gpu_Packing Scheduler_Props Preemption Quota_Rebuild Access_Props Ha_Props Executor_Props Proxy_Props
    Idle_Manager Node_Health
begin

text \<open>
  NexusLLM is a gateway for large language models: it authorises inference requests, charges for
  them, places and replaces the runtimes that serve them, and talks to agents on the nodes. This
  development models its decision logic in HOL, from the Go sources, the Lua scripts and the
  migrations, and proves what each part promises.

  \<^bold>\<open>How the parts work together.\<close> A request is authorised by the policy engine from copies of the
  permission tables that the admin side and the gateway keep in Redis. The admission gate then
  takes places in the request windows and quotas. The billing components hold the estimated cost,
  settle the actual cost, and sweep what was left behind. An endpoint of the model's pool serves the
  request; the handlers tie these steps together: alias, virtual model and credential resolution,
  thinking control, the gateway and prompt policies, the attempts at the endpoints, the relayed
  stream or the rewritten answer, and the recorded usage. In the background the scheduler places runtimes on nodes, the packer assigns models to
  GPUs, the preemption engine stops victims through the task queue that the agents poll, the
  high-availability reconciler replaces failed replicas, the executor of a node turns a task into a
  container, and the rebuilder restores the counters of the gate. A request for a model that does not run
  starts it (cold start) and waits until it serves; the idle manager stops runtimes that nobody uses, and
  the health monitor takes the runtimes of silent nodes out of service.

  \<^bold>\<open>Conventions.\<close> Go structs are records, errors are values of a sum type, a database is a record of
  row lists. Operations take the state and return the new one. A statement or call that can fail
  consults an argument (\<open>faults\<close>, \<open>network\<close> or the number of commands a broken pipeline ran), so each
  error path of the code is a branch of the model and the theorems quantify over all failures unless
  they say otherwise. A transaction that fails leaves the database unchanged (\<open>run_tx\<close>). The clock, new
  identifiers and random draws are arguments. Money is a rational on the grid of \<open>NUMERIC(16,8)\<close>
  with its range and rounding; counters that can wrap are 64-bit words.

  \<^bold>\<open>Theories.\<close>
  \<^item> \<open>Nexus_Prelude\<close>: the error monad, failing statements, SQL row operations, sorting lemmas.
  \<^item> \<open>Billing_Schema\<close>, \<open>Billing_Pricing\<close>, \<open>Billing_Invariant\<close>, \<open>Billing_Reservation\<close>, \<open>Billing_Settlement\<close>,
    \<open>Billing_Sweep\<close>, \<open>Billing_Ops\<close>, \<open>Billing_Properties\<close>: \<open>internal/billing\<close> and its migrations. Tables
    with their checks and unique indexes, cost and estimate, account resolution, reserve, release,
    settle with its recovery path, the expiry and pending sweeps and the wallet reconciler. Shown: every
    interleaving keeps wallets and credit accounts balanced, an authorization ends once, settlement
    is exact and idempotent, sweeps free what they should; and where late settlements charge twice.
  \<^item> \<open>Project_Priority\<close>, \<open>Scheduler\<close>, \<open>Scheduler_Props\<close>: \<open>internal/project\<close> and \<open>internal/scheduler\<close>. Weights,
    ageing, filters, scores, the insertion sort and the retry queue. Shown: a decision is feasible and
    best, it is found when one exists, and the queue makes progress.
  \<^item> \<open>Endpoint_Pool\<close> (\<open>internal/runtime/pool.go\<close>): the four strategies; picks are available endpoints and
    round robin is fair. \<open>Gpu_Packing\<close> (\<open>internal/gpu/packing.go\<close>): a plan never overcommits a device.
  \<^item> \<open>Task_Manager\<close>, \<open>Preemption\<close>: \<open>internal/taskmanager\<close>, \<open>internal/preemption\<close>, \<open>internal/modelguard\<close>.
    The task table refines the task lifecycle, a task is claimed at most once (locale
    \<open>exclusive_claims\<close>), a reported preemption stopped an eligible victim, protected runtimes are spared.
  \<^item> \<open>Redis\<close>, \<open>Admission\<close>, \<open>Admission_Props\<close>, \<open>Quota_Rebuild\<close>: \<open>internal/admission\<close> with its Lua scripts and
    \<open>internal/billing/sweep/rebuild.go\<close>. Admission keeps every limit, a rejection consumes nothing, a
    rollback undoes an admission, a retry changes nothing; what a rebuild loses.
  \<^item> \<open>Go_Text\<close>: decimal numbers and \<open>path.Match\<close>, with what the usual patterns match.
  \<^item> \<open>Catalog_Rules\<close> (\<open>internal/catalog/rules.go\<close>, \<open>provider_access.go\<close>): exposure rules and their preview.
  \<^item> \<open>Policy_Engine\<close>, \<open>Policy_Props\<close> (\<open>internal/policy/engine.go\<close>): the exact condition under which a request
    is allowed, that a project only narrows its team, stored policies, and where limits fail open.
  \<^item> \<open>Access_Control\<close>, \<open>Access_Props\<close>: the grant and revoke handlers of \<open>internal/admin/handlers\<close>, the
    seeds of \<open>cmd/gateway\<close> and the reconciliation sweep. The locale \<open>acl_cache\<close> states what a Redis set
    of grants promises; it is interpreted for teams and for projects. Shown: a sweep makes the
    sets equal to the tables, acknowledged revocations are enforced, and two ways in which access
    outlives its revocation.
  \<^item> \<open>Ha_Reconciler\<close>, \<open>Ha_Lifecycle\<close>, \<open>Ha_Props\<close>: \<open>internal/ha\<close>, \<open>internal/replicaguard\<close>,
    \<open>internal/nodeaddr\<close>. A sweep refines the lifecycle of a replica, an old replica drains only after its
    successor serves, replicas and recovery attempts stay bounded.
  \<^item> \<open>Backend_Types\<close>, \<open>Start_Payload\<close>, \<open>Docker_Args\<close>, \<open>Node_Executor\<close>, \<open>Executor_Props\<close>: the payload of a
    start task, the backend adapters of \<open>internal/runtime\<close> and \<open>internal/nodeagent/executor.go\<close>. Containers
    of the operator are safe, the port is passed once, a CPU start asks for no GPU.
  \<^item> \<open>Chat_Request\<close>, \<open>Gateway_Policy\<close>, \<open>Prompt_Policy\<close>, \<open>Thinking_Mode\<close>, \<open>Model_Alias\<close>, \<open>Provider_Credentials\<close>,
    \<open>Virtual_Models\<close>, \<open>Model_Registry\<close>: the steps before a request is sent (\<open>internal/gatewaypolicy\<close>,
    \<open>internal/promptpolicy\<close>, \<open>internal/thinking\<close>, \<open>internal/alias\<close>, \<open>internal/catalog\<close>, \<open>internal/runtime/registry.go\<close>,
    \<open>internal/proxy/capability.go\<close>) and the admin handlers of their tables. Shown: clamping equals the
    tightest policy, aliases are stale for a bounded time, a secret belongs to its provider, a virtual
    model is an exposed one.
  \<^item> \<open>Stream_Relay\<close>, \<open>Chat_Answer\<close>, \<open>Proxy_Handler\<close>, \<open>Proxy_Props\<close>: \<open>internal/proxy/handler.go\<close> and
    \<open>multiservice.go\<close>. The relay of a stream, the rewriting of an answer, and the handlers as a whole with
    their retries. Shown: nothing is sent upstream without admission, one usage event at most, a stream
    ends once, a synchronous request is always answered; and where a broken stream is not.
  \<^item> \<open>Runtime_Activator\<close>, \<open>Cold_Start\<close>, \<open>Cold_Start_Props\<close>, \<open>Idle_Manager\<close>: \<open>internal/runtimemgr\<close>. The
    configuration of a model, the resource guard, the start of a runtime with its replica slot, the wait
    for readiness, the sharing of starts between callers as a step relation (\<open>inflight_step\<close>), the eviction
    of idle runtimes and the restoration of projects. Shown: a start respects the capacity and queues its
    row, a wait that succeeds has seen a healthy endpoint, eviction keeps minima and protected runtimes;
    and where a ready row starves a caller, woken callers panic and restoration has no effect.
  \<^item> \<open>Node_Health\<close> (\<open>internal/nodehealth\<close>): the classification of nodes by their heartbeats; a node that was
    silent for five minutes has no runtime or endpoint left in service.

  \<^bold>\<open>Loops and bounds.\<close> Recursion is structural or has a proved measure; no definition runs out of fuel.
  The three attempts of a request are a structural count, as in the code. The loops that wait (polling
  for a task, the sweeps) run over the list of observations or rows they get, and the batch limits of
  the code (200 authorizations, 50 queue items and so on) are written out.

  \<^bold>\<open>Not modelled.\<close> HTTP and JSON binding, logging, metrics, goroutines and tickers (each turn of a loop
  is modelled, not its timer), the drivers for containers, hosts and upstream providers, the audio
  forwarding, the aggregates of the usage tracker and cryptography: these are input and output or code of libraries. Decoders, regular
  expressions, secret stores and the answers of upstream servers are arguments of the definitions that
  use them. The CRUD handlers of the admin service are left out unless they change permissions,
  aliases, credentials or policies that the gateway enforces. Concurrent requests are modelled where
  the code relies on the database for isolation: each transaction or script is one atomic step of an
  interleaving.
\<close>

end
